(* ===== verification/Prelude.thy ===== *)
theory Prelude
  imports Main "HOL-Library.AList" "HOL-Library.Char_ord" "HOL-Library.List_Lexorder" "HOL-Library.Code_Target_Nat"
begin

text \<open>
  Shared ground of the development: results that may carry an exception, dictionaries as
  association lists in insertion order, the parts of Python's string methods that the fleet code
  calls, and the generic theory of reachable states. Strings are lists of 8-bit characters, so
  the model covers Python strings whose code points are below 256.
\<close>

named_theorems result_simps \<open>rewriting of computations that may raise\<close>
named_theorems dict_simps \<open>rewriting of dictionary lookups after updates\<close>
named_theorems step_inv \<open>preservation of component invariants by single operations\<close>

section \<open>Results: a value or an exception\<close>

type_synonym ('e, 'a) result = "'e + 'a"

fun bindR :: "('e, 'a) result \<Rightarrow> ('a \<Rightarrow> ('e, 'b) result) \<Rightarrow> ('e, 'b) result" where
  "bindR (Inl e) f = Inl e"
| "bindR (Inr a) f = f a"

definition guardR :: "bool \<Rightarrow> 'e \<Rightarrow> ('e, unit) result" where
  "guardR ok e = (if ok then Inr () else Inl e)"

fun mapR :: "('a \<Rightarrow> ('e, 'b) result) \<Rightarrow> 'a list \<Rightarrow> ('e, 'b list) result" where
  "mapR f [] = Inr []"
| "mapR f (x # xs) = bindR (f x) (\<lambda>y. bindR (mapR f xs) (\<lambda>ys. Inr (y # ys)))"

definition isOK :: "('e, 'a) result \<Rightarrow> bool" where
  "isOK r = (case r of Inl _ \<Rightarrow> False | Inr _ \<Rightarrow> True)"

lemma isOK_simps [simp]: "\<not> isOK (Inl e)" "isOK (Inr a)"
  by (simp_all add: isOK_def)

lemma bindR_eq_Inr [result_simps]: "bindR r f = Inr b \<longleftrightarrow> (\<exists>a. r = Inr a \<and> f a = Inr b)"
  by (cases r) auto

lemma bindR_eq_Inl [result_simps]:
  "bindR r f = Inl e \<longleftrightarrow> r = Inl e \<or> (\<exists>a. r = Inr a \<and> f a = Inl e)"
  by (cases r) auto

lemma case_option_eq_Inr [result_simps]:
  "(case x of None \<Rightarrow> Inl e | Some a \<Rightarrow> f a) = Inr b \<longleftrightarrow> (\<exists>a. x = Some a \<and> f a = Inr b)"
  by (cases x) auto

lemma case_sum_eq_Inr [result_simps]:
  "(case r of Inl d \<Rightarrow> Inl (h d) | Inr a \<Rightarrow> f a) = Inr b \<longleftrightarrow> (\<exists>a. r = Inr a \<and> f a = Inr b)"
  by (cases r) auto

lemma if_eq_Inr [result_simps]:
  "(if c then Inl e else r) = Inr b \<longleftrightarrow> \<not> c \<and> r = Inr b"
  "(if c then r else Inl e) = Inr b \<longleftrightarrow> c \<and> r = Inr b"
  by auto

lemma guardR_eq_Inr [simp]: "guardR ok e = Inr u \<longleftrightarrow> ok"
  by (simp add: guardR_def)

lemma guardR_eq_Inl [simp]: "guardR ok e = Inl e' \<longleftrightarrow> \<not> ok \<and> e' = e"
  by (auto simp: guardR_def)

lemma guardR_True [simp]: "guardR True e = Inr ()"
  by (simp add: guardR_def)

lemma guardR_False [simp]: "guardR False e = Inl e"
  by (simp add: guardR_def)

lemma mapR_eq_Inr: "mapR f xs = Inr ys \<longleftrightarrow> list_all2 (\<lambda>x y. f x = Inr y) xs ys"
  by (induction xs arbitrary: ys) (auto simp: result_simps list_all2_Cons1)

lemma mapR_id: "(\<And>x. x \<in> set xs \<Longrightarrow> f (g x) = Inr x) \<Longrightarrow> mapR f (map g xs) = Inr xs"
  by (induction xs) auto

lemma bindR_cong [fundef_cong]: "r = r' \<Longrightarrow> (\<And>a. r' = Inr a \<Longrightarrow> f a = g a) \<Longrightarrow> bindR r f = bindR r' g"
  by (cases r') auto

lemma mapR_cong [fundef_cong]: "xs = ys \<Longrightarrow> (\<And>x. x \<in> set ys \<Longrightarrow> f x = g x) \<Longrightarrow> mapR f xs = mapR g ys"
proof (induction ys arbitrary: xs)
  case (Cons y ys)
  then show ?case by (auto intro: bindR_cong)
qed simp

lemma mapR_set: "mapR f xs = Inr ys \<Longrightarrow> y \<in> set ys \<Longrightarrow> \<exists>x \<in> set xs. f x = Inr y"
  by (induction xs arbitrary: ys) (auto simp: result_simps)

lemma mapR_mem: "mapR f xs = Inr ys \<Longrightarrow> x \<in> set xs \<Longrightarrow> \<exists>y \<in> set ys. f x = Inr y"
  by (induction xs arbitrary: ys) (auto simp: result_simps)

section \<open>Dictionaries with string keys\<close>

text \<open>
  A Python dictionary with string keys is an association list with distinct keys in insertion
  order. \<open>AList.update\<close> overwrites a key in place or appends it at the end, as \<open>d[k] = v\<close> does.
\<close>

type_synonym 'v dict = "(string \<times> 'v) list"

definition dget :: "'v dict \<Rightarrow> string \<Rightarrow> 'v option" where
  "dget d k = map_of d k"

definition dset :: "string \<Rightarrow> 'v \<Rightarrow> 'v dict \<Rightarrow> 'v dict" where
  "dset k v d = AList.update k v d"

definition dpop :: "string \<Rightarrow> 'v dict \<Rightarrow> 'v dict" where
  "dpop k d = AList.delete k d"

definition dkeys :: "'v dict \<Rightarrow> string list" where
  "dkeys d = map fst d"

definition dget_or :: "'v dict \<Rightarrow> string \<Rightarrow> 'v \<Rightarrow> 'v" where
  "dget_or d k v = (case dget d k of None \<Rightarrow> v | Some w \<Rightarrow> w)"

definition dict_wf :: "'v dict \<Rightarrow> bool" where
  "dict_wf d \<longleftrightarrow> distinct (dkeys d)"

lemma dget_Nil [simp]: "dget [] k = None"
  by (simp add: dget_def)

lemma dget_Cons [simp]: "dget ((a, b) # d) k = (if k = a then Some b else dget d k)"
  by (simp add: dget_def)

lemma dget_dset [dict_simps]: "dget (dset k v d) k' = (if k' = k then Some v else dget d k')"
  by (simp add: dget_def dset_def update_conv')

lemma dget_dpop [dict_simps]: "dget (dpop k d) k' = (if k' = k then None else dget d k')"
  by (simp add: dget_def dpop_def delete_conv')

lemma dget_None_iff: "dget d k = None \<longleftrightarrow> k \<notin> set (dkeys d)"
  by (simp add: dget_def dkeys_def map_of_eq_None_iff)

lemma dget_Some_key: "dget d k = Some v \<Longrightarrow> k \<in> set (dkeys d)"
  using dget_None_iff [of d k] by simp

lemma dget_Some_in: "dget d k = Some v \<Longrightarrow> (k, v) \<in> set d"
  by (simp add: dget_def map_of_SomeD)

lemma dget_in_wf: "dict_wf d \<Longrightarrow> (k, v) \<in> set d \<Longrightarrow> dget d k = Some v"
  by (simp add: dget_def dict_wf_def dkeys_def)

lemma dict_wf_Nil [simp]: "dict_wf []"
  by (simp add: dict_wf_def dkeys_def)

lemma dict_wf_dset [simp, intro]: "dict_wf d \<Longrightarrow> dict_wf (dset k v d)"
  by (simp add: dict_wf_def dkeys_def dset_def distinct_update)

lemma dict_wf_dpop [simp, intro]: "dict_wf d \<Longrightarrow> dict_wf (dpop k d)"
  by (simp add: dict_wf_def dkeys_def dpop_def distinct_delete)

lemma dict_wf_filter [simp, intro]: "dict_wf d \<Longrightarrow> dict_wf (filter P d)"
  by (simp add: dict_wf_def dkeys_def distinct_map_filter)

lemma set_dkeys_dset [simp]: "set (dkeys (dset k v d)) = insert k (set (dkeys d))"
  by (simp add: dkeys_def dset_def dom_update)

lemma set_dkeys_dpop [simp]: "set (dkeys (dpop k d)) = set (dkeys d) - {k}"
  by (auto simp: dkeys_def dpop_def delete_keys)

lemma dget_filter: "dict_wf d \<Longrightarrow>
  dget (filter P d) k = (case dget d k of None \<Rightarrow> None | Some v \<Rightarrow> if P (k, v) then Some v else None)"
  by (induction d) (auto simp: dict_wf_def dkeys_def dget_def map_of_eq_None_iff split: option.splits
      dest: map_of_SomeD)

lemma length_dset: "length (dset k v d) = (if k \<in> set (dkeys d) then length d else Suc (length d))"
proof (induction d)
  case Nil
  then show ?case by (simp add: dset_def dkeys_def)
next
  case (Cons kv d)
  then show ?case by (cases kv) (auto simp: dset_def dkeys_def)
qed

text \<open>A property of every item of a dictionary.\<close>

definition ditems_all :: "(string \<Rightarrow> 'v \<Rightarrow> bool) \<Rightarrow> 'v dict \<Rightarrow> bool" where
  "ditems_all P d \<longleftrightarrow> (\<forall>(i, x) \<in> set d. P i x)"

lemma ditems_all_Nil [simp]: "ditems_all P []"
  by (simp add: ditems_all_def)

lemma ditems_all_dset [simp, intro]: "ditems_all P d \<Longrightarrow> P k v \<Longrightarrow> ditems_all P (dset k v d)"
  by (induction d) (auto simp: dset_def ditems_all_def)

lemma ditems_all_dpop [simp, intro]: "ditems_all P d \<Longrightarrow> ditems_all P (dpop k d)"
  by (auto simp: ditems_all_def dpop_def AList.delete_eq)

lemma ditems_all_filter [simp, intro]: "ditems_all P d \<Longrightarrow> ditems_all P (filter Q d)"
  by (auto simp: ditems_all_def)

lemma ditems_allD: "ditems_all P d \<Longrightarrow> dget d k = Some v \<Longrightarrow> P k v"
  by (auto simp: ditems_all_def dest: dget_Some_in)

section \<open>Python string methods\<close>

definition is_space :: "char \<Rightarrow> bool" where
  "is_space c \<longleftrightarrow> (of_char c :: nat) \<in> {9, 10, 11, 12, 13, 28, 29, 30, 31, 32, 133, 160}"

definition strip :: "string \<Rightarrow> string" where
  "strip s = dropWhile is_space (rev (dropWhile is_space (rev s)))"

definition startswith :: "string \<Rightarrow> string \<Rightarrow> bool" where
  "startswith s p \<longleftrightarrow> take (length p) s = p"

definition endswith :: "string \<Rightarrow> string \<Rightarrow> bool" where
  "endswith s p \<longleftrightarrow> startswith (rev s) (rev p)"

definition lower_char :: "char \<Rightarrow> char" where
  "lower_char c = (let n = (of_char c :: nat) in
     if 65 \<le> n \<and> n \<le> 90 \<or> 192 \<le> n \<and> n \<le> 222 \<and> n \<noteq> 215 then char_of (n + 32) else c)"

definition lower :: "string \<Rightarrow> string" where
  "lower s = map lower_char s"

definition casefold :: "string \<Rightarrow> string" where
  "casefold s = concat (map (\<lambda>c. if c = CHR 0xDF then ''ss'' else [lower_char c]) s)"

fun join :: "string \<Rightarrow> string list \<Rightarrow> string" where
  "join sep [] = []"
| "join sep [x] = x"
| "join sep (x # y # zs) = x @ sep @ join sep (y # zs)"

text \<open>\<open>s.split(c)\<close> for a one-character separator.\<close>

fun split_on :: "char \<Rightarrow> string \<Rightarrow> string list" where
  "split_on c [] = [[]]"
| "split_on c (x # xs) = (if x = c then [] # split_on c xs
     else case split_on c xs of [] \<Rightarrow> [[x]] | p # ps \<Rightarrow> (x # p) # ps)"

definition blank :: "string \<Rightarrow> bool" where
  "blank s \<longleftrightarrow> strip s = []"

lemma dropWhile_last: "xs \<noteq> [] \<Longrightarrow> \<not> P (last xs) \<Longrightarrow> dropWhile P xs \<noteq> [] \<and> last (dropWhile P xs) = last xs"
  by (induction xs) auto

lemma strip_edges:
  assumes "strip s \<noteq> []"
  shows "\<not> is_space (hd (strip s))" and "\<not> is_space (last (strip s))"
proof -
  let ?r = "rev (dropWhile is_space (rev s))"
  from assms have ne: "dropWhile is_space ?r \<noteq> []" by (simp add: strip_def)
  then show "\<not> is_space (hd (strip s))" by (simp add: strip_def hd_dropWhile)
  from ne have rne: "?r \<noteq> []" by (metis dropWhile.simps(1))
  then have "\<not> is_space (last ?r)" by (simp add: last_rev hd_dropWhile)
  with rne have "last (dropWhile is_space ?r) = last ?r" using dropWhile_last by blast
  with \<open>\<not> is_space (last ?r)\<close> show "\<not> is_space (last (strip s))" by (simp add: strip_def)
qed

lemma dropWhile_hd_id: "xs = [] \<or> \<not> P (hd xs) \<Longrightarrow> dropWhile P xs = xs"
  by (cases xs) auto

lemma strip_id: "s = [] \<or> \<not> is_space (hd s) \<and> \<not> is_space (last s) \<Longrightarrow> strip s = s"
  by (auto simp: strip_def hd_rev dropWhile_hd_id)

lemma strip_strip [simp]: "strip (strip s) = strip s"
  by (rule strip_id) (use strip_edges in blast)

lemma not_blank_strip [simp]: "\<not> blank s \<Longrightarrow> strip s \<noteq> []"
  by (simp add: blank_def)

lemma blank_Nil [simp]: "blank []"
  by (simp add: blank_def strip_def)

lemma strip_Cons_nonspace: "\<not> is_space c \<Longrightarrow> strip (c # s) \<noteq> []"
  using dropWhile_last [of "rev s @ [c]" is_space] last_in_set [of "dropWhile is_space (rev s @ [c])"]
  by (auto simp: strip_def)

lemma blank_Cons_nonspace [simp]: "\<not> is_space c \<Longrightarrow> \<not> blank (c # s)"
  by (simp add: blank_def strip_Cons_nonspace)

lemma startswith_append [simp]: "startswith (p @ s) p"
  by (simp add: startswith_def)

lemma startswith_iff: "startswith s p \<longleftrightarrow> (\<exists>r. s = p @ r)"
  by (metis append_take_drop_id startswith_append startswith_def)

section \<open>Reachable states\<close>

text \<open>
  A stateful component is a predicate on start states and a step relation, one rule for each
  operation. A component proves the two laws of \<open>invariant_system\<close> and gets its invariant in
  every reachable state.
\<close>

inductive reachable :: "('s \<Rightarrow> bool) \<Rightarrow> ('s \<Rightarrow> 's \<Rightarrow> bool) \<Rightarrow> 's \<Rightarrow> bool" for init step where
  reachable_start: "init s \<Longrightarrow> reachable init step s"
| reachable_next: "reachable init step s \<Longrightarrow> step s t \<Longrightarrow> reachable init step t"

locale invariant_system =
  fixes start :: "'s \<Rightarrow> bool" and step :: "'s \<Rightarrow> 's \<Rightarrow> bool" and inv :: "'s \<Rightarrow> bool"
  assumes inv_start: "start s \<Longrightarrow> inv s"
    and inv_step: "inv s \<Longrightarrow> step s t \<Longrightarrow> inv t"
begin

lemma reachable_inv: "reachable start step s \<Longrightarrow> inv s"
  by (induction rule: reachable.induct) (auto intro: inv_start inv_step)

lemma reachable_from_inv: "step\<^sup>*\<^sup>* s t \<Longrightarrow> inv s \<Longrightarrow> inv t"
  by (induction rule: rtranclp_induct) (auto intro: inv_step)

end

text \<open>
  A transition table with terminal states: a run along the table stops at the first terminal
  state. \<open>chain R s ts\<close> says that \<open>ts\<close> are the states visited after \<open>s\<close>, in order.
\<close>

fun chain :: "('s \<Rightarrow> 's \<Rightarrow> bool) \<Rightarrow> 's \<Rightarrow> 's list \<Rightarrow> bool" where
  "chain R s [] = True"
| "chain R s (t # ts) = (R s t \<and> chain R t ts)"

lemma chain_append: "chain R s (xs @ ys) \<longleftrightarrow> chain R s xs \<and> chain R (last (s # xs)) ys"
  by (induction xs arbitrary: s) auto

locale transition_table =
  fixes allowed :: "'s \<Rightarrow> 's \<Rightarrow> bool" and final :: "'s \<Rightarrow> bool"
  assumes final_stuck: "final s \<Longrightarrow> \<not> allowed s t"
    and progress: "\<not> final s \<Longrightarrow> \<exists>t. allowed s t"
begin

lemma final_iff: "final s \<longleftrightarrow> (\<forall>t. \<not> allowed s t)"
  using final_stuck progress by blast

lemma chain_final_last: "chain allowed s ts \<Longrightarrow> final s \<Longrightarrow> ts = []"
  by (cases ts) (auto simp: final_stuck)

lemma chain_final_unique:
  assumes "chain allowed s (xs @ t # ys)" and "final t"
  shows "ys = []"
  using assms chain_final_last by (auto simp: chain_append)

end

end
