(* ===== verification/PyValue.thy ===== *)
theory PyValue
  imports Prelude Complex_Main
begin

text \<open>
  The dynamic values that cross the fleet's validation boundaries: what \<open>json.loads\<close> produces,
  tuples, read-only mapping views and opaque objects, with the Python operations the code applies
  to them. Finite floats are exact rationals; rounding happens only where an \<open>int\<close> is converted.
  Instances of user-defined subclasses of the built-in types are not represented.
\<close>

datatype pyfloat = Fin rat | PosInf | NegInf | NaN

datatype pyval =
    PNone
  | PBool bool
  | PInt int
  | PFloat pyfloat
  | PStr string
  | PList "pyval list"
  | PTuple "pyval list"
  | PDict "(pyval \<times> pyval) list"
  | PProxy "(pyval \<times> pyval) list"
  | POther nat

type_synonym pymap = "(pyval \<times> pyval) list"

section \<open>Type tests and accessors\<close>

text \<open>\<open>isinstance(v, Mapping)\<close> with the items of the mapping, in order.\<close>

fun as_mapping :: "pyval \<Rightarrow> pymap option" where
  "as_mapping (PDict d) = Some d"
| "as_mapping (PProxy d) = Some d"
| "as_mapping _ = None"

text \<open>\<open>isinstance(v, (list, tuple))\<close> with the elements.\<close>

fun as_sequence :: "pyval \<Rightarrow> pyval list option" where
  "as_sequence (PList xs) = Some xs"
| "as_sequence (PTuple xs) = Some xs"
| "as_sequence _ = None"

fun as_str :: "pyval \<Rightarrow> string option" where
  "as_str (PStr s) = Some s"
| "as_str _ = None"

text \<open>\<open>type(v) is int\<close>: booleans are excluded.\<close>

fun as_int :: "pyval \<Rightarrow> int option" where
  "as_int (PInt n) = Some n"
| "as_int _ = None"

fun as_bool :: "pyval \<Rightarrow> bool option" where
  "as_bool (PBool b) = Some b"
| "as_bool _ = None"

text \<open>\<open>math.isfinite(f)\<close> with the value.\<close>

fun as_finite :: "pyfloat \<Rightarrow> rat option" where
  "as_finite (Fin q) = Some q"
| "as_finite _ = None"

text \<open>\<open>type(v) is dict\<close>.\<close>

fun as_pdict :: "pyval \<Rightarrow> pymap option" where
  "as_pdict (PDict d) = Some d"
| "as_pdict _ = None"

lemma as_pdict_Some [simp]: "as_pdict v = Some d \<longleftrightarrow> v = PDict d"
  by (cases v) auto

lemma as_str_Some [simp]: "as_str v = Some s \<longleftrightarrow> v = PStr s"
  by (cases v) auto

lemma as_bool_Some [simp]: "as_bool v = Some b \<longleftrightarrow> v = PBool b"
  by (cases v) auto

definition is_str :: "pyval \<Rightarrow> bool" where
  "is_str v \<longleftrightarrow> as_str v \<noteq> None"

definition mget :: "pymap \<Rightarrow> string \<Rightarrow> pyval option" where
  "mget d k = map_of d (PStr k)"

text \<open>\<open>d.get(k, default)\<close>.\<close>

definition mget_or :: "pymap \<Rightarrow> string \<Rightarrow> pyval \<Rightarrow> pyval" where
  "mget_or d k v = (case mget d k of None \<Rightarrow> v | Some w \<Rightarrow> w)"

definition mhas :: "pymap \<Rightarrow> string \<Rightarrow> bool" where
  "mhas d k \<longleftrightarrow> mget d k \<noteq> None"

text \<open>Truth value of an object in a condition.\<close>

fun truthy :: "pyval \<Rightarrow> bool" where
  "truthy PNone = False"
| "truthy (PBool b) = b"
| "truthy (PInt n) = (n \<noteq> 0)"
| "truthy (PFloat f) = (f \<noteq> Fin 0)"
| "truthy (PStr s) = (s \<noteq> [])"
| "truthy (PList xs) = (xs \<noteq> [])"
| "truthy (PTuple xs) = (xs \<noteq> [])"
| "truthy (PDict d) = (d \<noteq> [])"
| "truthy (PProxy d) = (d \<noteq> [])"
| "truthy (POther n) = True"

definition str_keyed :: "(string \<times> pyval) list \<Rightarrow> pymap" where
  "str_keyed kvs = map (\<lambda>(k, v). (PStr k, v)) kvs"

lemma mget_Nil [simp]: "mget [] k = None"
  by (simp add: mget_def)

lemma mget_Cons [simp]: "mget ((a, b) # d) k = (if PStr k = a then Some b else mget d k)"
  by (simp add: mget_def)

lemma mget_or_Cons [simp]: "mget_or ((a, b) # d) k v = (if PStr k = a then b else mget_or d k v)"
  by (simp add: mget_or_def)

lemma mget_or_Nil [simp]: "mget_or [] k v = v"
  by (simp add: mget_or_def)

lemma mhas_Cons [simp]: "mhas ((a, b) # d) k \<longleftrightarrow> PStr k = a \<or> mhas d k"
  by (simp add: mhas_def)

lemma mhas_Nil [simp]: "\<not> mhas [] k"
  by (simp add: mhas_def)

section \<open>Equality\<close>

text \<open>
  \<open>a == b\<close>: numbers compare by value whatever their type, NaN equals nothing, sequences of the same
  type compare element by element and mappings as sets of items.
\<close>

fun as_number :: "pyval \<Rightarrow> pyfloat option" where
  "as_number (PBool b) = Some (Fin (if b then 1 else 0))"
| "as_number (PInt n) = Some (Fin (of_int n))"
| "as_number (PFloat f) = Some f"
| "as_number _ = None"

lemma py_pair_size: "kv \<in> set d \<Longrightarrow>
    size (fst kv) < Suc (size_list (size_prod size size) d) \<and> size (snd kv) < Suc (size_list (size_prod size size) d)"
  for kv :: "pyval \<times> pyval"
  using size_list_estimation' [of kv d _ "size_prod size size", OF _ order_refl] by (cases kv) auto

lemma py_zip_size: "(x, y) \<in> set (zip xs ys) \<Longrightarrow> size x < Suc (size_list size xs)" for x y :: pyval
  using size_list_estimation' [of x xs _ size, OF _ order_refl] by (auto dest: set_zip_leftD)

fun as_plist :: "pyval \<Rightarrow> pyval list option" where
  "as_plist (PList xs) = Some xs"
| "as_plist _ = None"

lemma as_plist_Some [simp]: "as_plist v = Some xs \<longleftrightarrow> v = PList xs"
  by (cases v) auto

fun as_ptuple :: "pyval \<Rightarrow> pyval list option" where
  "as_ptuple (PTuple xs) = Some xs"
| "as_ptuple _ = None"

definition atom_eq :: "pyval \<Rightarrow> pyval \<Rightarrow> bool" where
  "atom_eq v w = (case (as_number v, as_number w) of
     (Some a, Some b) \<Rightarrow> a = b \<and> a \<noteq> NaN
   | _ \<Rightarrow> v = w)"

function (sequential) py_eq :: "pyval \<Rightarrow> pyval \<Rightarrow> bool" where
  "py_eq (PList xs) w = (case as_plist w of None \<Rightarrow> False | Some ys \<Rightarrow>
     length xs = length ys \<and> (\<forall>(x, y) \<in> set (zip xs ys). py_eq x y))"
| "py_eq (PTuple xs) w = (case as_ptuple w of None \<Rightarrow> False | Some ys \<Rightarrow>
     length xs = length ys \<and> (\<forall>(x, y) \<in> set (zip xs ys). py_eq x y))"
| "py_eq (PDict d) w = (case as_mapping w of None \<Rightarrow> False | Some e \<Rightarrow>
     length d = length e \<and> (\<forall>kv \<in> set d. \<exists>kw \<in> set e. py_eq (fst kv) (fst kw) \<and> py_eq (snd kv) (snd kw)))"
| "py_eq (PProxy d) w = (case as_mapping w of None \<Rightarrow> False | Some e \<Rightarrow>
     length d = length e \<and> (\<forall>kv \<in> set d. \<exists>kw \<in> set e. py_eq (fst kv) (fst kw) \<and> py_eq (snd kv) (snd kw)))"
| "py_eq v w = atom_eq v w"
  by pat_completeness auto
termination
  by (relation "measure (size \<circ> fst)")
     (auto dest: py_pair_size py_zip_size)

text \<open>A deep copy fails on read-only mapping views.\<close>

fun has_proxy :: "pyval \<Rightarrow> bool" where
  "has_proxy (PProxy d) = True"
| "has_proxy (PList xs) = (\<exists>x \<in> set xs. has_proxy x)"
| "has_proxy (PTuple xs) = (\<exists>x \<in> set xs. has_proxy x)"
| "has_proxy (PDict d) = (\<exists>kv \<in> set d. has_proxy (fst kv) \<or> has_proxy (snd kv))"
| "has_proxy _ = False"

section \<open>Conversion to text\<close>

fun nat_digits :: "nat \<Rightarrow> string" where
  "nat_digits n = (if n < 10 then [char_of (48 + n)] else nat_digits (n div 10) @ [char_of (48 + n mod 10)])"

declare nat_digits.simps [simp del]

definition int_text :: "int \<Rightarrow> string" where
  "int_text n = (if n < 0 then ''-'' @ nat_digits (nat (- n)) else nat_digits (nat n))"

text \<open>
  \<open>str(v)\<close>. The text of floats, containers and opaque objects is the parameter \<open>rep\<close>: the fleet
  code only ever compares it.
\<close>

fun py_str :: "(pyval \<Rightarrow> string) \<Rightarrow> pyval \<Rightarrow> string" where
  "py_str rep PNone = ''None''"
| "py_str rep (PBool b) = (if b then ''True'' else ''False'')"
| "py_str rep (PInt n) = int_text n"
| "py_str rep (PStr s) = s"
| "py_str rep v = rep v"

text \<open>
  \<open>int(s)\<close> for a string: an optional sign and decimal digits with single underscores between them,
  surrounded by white space. A string of ASCII characters is stripped of C white space only. The
  limit on the number of digits of a conversion is not modelled.
\<close>

definition c_space :: "char \<Rightarrow> bool" where
  "c_space c \<longleftrightarrow> (of_char c :: nat) \<in> {9, 10, 11, 12, 13, 32}"

definition strip_by :: "(char \<Rightarrow> bool) \<Rightarrow> string \<Rightarrow> string" where
  "strip_by P s = dropWhile P (rev (dropWhile P (rev s)))"

definition is_digit :: "char \<Rightarrow> bool" where
  "is_digit c \<longleftrightarrow> (let n = (of_char c :: nat) in 48 \<le> n \<and> n \<le> 57)"

fun digits_from :: "int \<Rightarrow> string \<Rightarrow> int option" where
  "digits_from acc [] = Some acc"
| "digits_from acc (c # cs) =
     (if is_digit c then digits_from (10 * acc + (int (of_char c) - 48)) cs
      else if c = CHR ''_'' \<and> cs \<noteq> [] \<and> is_digit (hd cs) then digits_from acc cs
      else None)"

definition decimal :: "string \<Rightarrow> int option" where
  "decimal s = (if s \<noteq> [] \<and> is_digit (hd s) then digits_from 0 s else None)"

definition int_of_text :: "string \<Rightarrow> int option" where
  "int_of_text s = (let s = strip_by (if list_all (\<lambda>c. (of_char c :: nat) < 128) s then c_space else is_space) s in
     if s \<noteq> [] \<and> hd s = CHR ''-'' then map_option uminus (decimal (tl s))
     else if s \<noteq> [] \<and> hd s = CHR ''+'' then decimal (tl s)
     else decimal s)"

text \<open>Reading the decimal text of an integer gives the integer.\<close>

lemma digits_from_append: "list_all is_digit xs \<Longrightarrow> digits_from acc (xs @ ys) = digits_from (the (digits_from acc xs)) ys"
  by (induction xs arbitrary: acc) auto

lemma nat_digits_digits: "list_all is_digit (nat_digits n) \<and> nat_digits n \<noteq> []"
proof (induction n rule: nat_digits.induct)
  case (1 n)
  have d: "is_digit (char_of (48 + k))" if "k < 10" for k :: nat
    using that by (simp add: is_digit_def of_char_of)
  show ?case
  proof (cases "n < 10")
    case True
    then have "nat_digits n = [char_of (48 + n)]" by (simp add: nat_digits.simps)
    with True show ?thesis by (simp add: d)
  next
    case False
    then have "nat_digits n = nat_digits (n div 10) @ [char_of (48 + n mod 10)]" by (simp add: nat_digits.simps)
    with False 1 d [of "n mod 10"] show ?thesis by simp
  qed
qed

lemma digits_from_nat_digits: "digits_from 0 (nat_digits n) = Some (int n)"
proof (induction n rule: nat_digits.induct)
  case (1 n)
  have d: "digits_from m [char_of (48 + k)] = Some (10 * m + int k)" if "k < 10" for m and k :: nat
    using that by (simp add: is_digit_def of_char_of)
  show ?case
  proof (cases "n < 10")
    case True
    then show ?thesis using d [of n 0] by (subst nat_digits.simps) simp
  next
    case False
    have "digits_from 0 (nat_digits n) = digits_from (int (n div 10)) [char_of (48 + n mod 10)]"
      using False 1 nat_digits_digits [of "n div 10"] by (subst nat_digits.simps) (simp add: digits_from_append)
    also have "\<dots> = Some (10 * int (n div 10) + int (n mod 10))" by (rule d) simp
    also have "10 * int (n div 10) + int (n mod 10) = int (10 * (n div 10) + n mod 10)"
      by (simp only: of_nat_add of_nat_mult of_nat_numeral)
    finally show ?thesis by simp
  qed
qed

lemma decimal_nat_digits: "decimal (nat_digits n) = Some (int n)"
  using nat_digits_digits [of n] digits_from_nat_digits [of n]
  by (cases "nat_digits n") (auto simp: decimal_def)

lemma strip_by_id: "\<not> P (hd s) \<Longrightarrow> \<not> P (last s) \<Longrightarrow> strip_by P s = s"
  by (cases "s = []") (simp_all add: strip_by_def hd_rev dropWhile_hd_id)

lemma digit_no_space: "is_digit c \<or> c = CHR ''-'' \<Longrightarrow> \<not> is_space c \<and> \<not> c_space c"
  by (auto simp: is_digit_def is_space_def c_space_def Let_def)

lemma int_of_text_int_text: "int_of_text (int_text n) = Some n"
proof -
  let ?P = "if list_all (\<lambda>c. (of_char c :: nat) < 128) (int_text n) then c_space else is_space"
  have ds: "nat_digits k \<noteq> []" "is_digit (hd (nat_digits k))" "is_digit (last (nat_digits k))" for k
    using nat_digits_digits [of k] by (auto simp: list_all_iff)
  have "is_digit (hd (int_text n)) \<or> hd (int_text n) = CHR ''-''" "is_digit (last (int_text n))"
    using ds by (auto simp: int_text_def)
  then have "strip_by ?P (int_text n) = int_text n"
    using digit_no_space by (intro strip_by_id) auto
  moreover have "hd (nat_digits k) \<noteq> CHR ''-''" "hd (nat_digits k) \<noteq> CHR ''+''" for k
    using ds(2) [of k] by (auto simp: is_digit_def)
  ultimately show ?thesis
    by (simp add: int_of_text_def Let_def) (simp add: int_text_def ds decimal_nat_digits)
qed

section \<open>Conversion of integers to floats\<close>

fun bit_length :: "nat \<Rightarrow> nat" where
  "bit_length n = (if n = 0 then 0 else Suc (bit_length (n div 2)))"

declare bit_length.simps [simp del]

text \<open>
  \<open>float(n)\<close> keeps 53 significant bits, rounding half to even, and raises \<open>OverflowError\<close> when the
  rounded magnitude reaches \<open>2 ^ 1024\<close>.
\<close>

definition round53 :: "nat \<Rightarrow> nat" where
  "round53 n = (let l = bit_length n in
     if l \<le> 53 then n
     else let k = l - 53; q = n div 2 ^ k; r = n mod 2 ^ k; h = 2 ^ (k - 1);
              q' = (if h < r \<or> (r = h \<and> odd q) then q + 1 else q)
          in q' * 2 ^ k)"

definition float_of_int :: "int \<Rightarrow> rat option" where
  "float_of_int n = (let m = round53 (nat \<bar>n\<bar>) in
     if 2 ^ 1024 \<le> m then None
     else Some (if n < 0 then - of_nat m else of_nat m))"

lemma bit_length_le: "n < 2 ^ k \<Longrightarrow> bit_length n \<le> k"
proof (induction k arbitrary: n)
  case 0
  then show ?case by (simp add: bit_length.simps)
next
  case (Suc k)
  then have "n div 2 < 2 ^ k" by auto
  then show ?case using Suc.IH by (subst bit_length.simps) auto
qed

lemma float_of_int_exact: "\<bar>n\<bar> < 2 ^ 53 \<Longrightarrow> float_of_int n = Some (of_int n)"
proof -
  assume "\<bar>n\<bar> < 2 ^ 53"
  then have lt: "nat \<bar>n\<bar> < 2 ^ 53" by (simp add: nat_less_iff)
  then have "round53 (nat \<bar>n\<bar>) = nat \<bar>n\<bar>" using bit_length_le by (simp add: round53_def Let_def)
  moreover from lt have "nat \<bar>n\<bar> < 2 ^ 1024" by (rule order_less_trans) simp
  ultimately show ?thesis by (auto simp: float_of_int_def Let_def not_le)
qed

text \<open>Small integers are evaluated without the general rounding.\<close>

lemma float_of_int_code [code]: "float_of_int n = (if \<bar>n\<bar> < 9007199254740992 then Some (of_int n)
    else let m = round53 (nat \<bar>n\<bar>) in if 2 ^ 1024 \<le> m then None else Some (if n < 0 then - of_nat m else of_nat m))"
proof (cases "\<bar>n\<bar> < 9007199254740992")
  case True
  then show ?thesis using float_of_int_exact [of n] by simp
qed (simp add: float_of_int_def)

lemma bit_length_ge: "2 ^ k \<le> n \<Longrightarrow> k < bit_length n"
proof (induction k arbitrary: n)
  case 0
  then show ?case by (subst bit_length.simps) auto
next
  case (Suc k)
  then have "2 ^ k \<le> n div 2" by auto
  then have "k < bit_length (n div 2)" by (rule Suc.IH)
  moreover have "n \<noteq> 0" using Suc.prems by (cases n) auto
  ultimately show ?case by (subst bit_length.simps) auto
qed

lemma bit_length_bound: "n \<noteq> 0 \<Longrightarrow> 2 ^ (bit_length n - 1) \<le> n"
proof -
  assume "n \<noteq> 0"
  show ?thesis
  proof (rule ccontr)
    assume "\<not> 2 ^ (bit_length n - 1) \<le> n"
    then have "bit_length n \<le> bit_length n - 1" by (intro bit_length_le) simp
    moreover have "bit_length n \<noteq> 0" using \<open>n \<noteq> 0\<close> by (subst bit_length.simps) simp
    ultimately show False by simp
  qed
qed

lemma round53_large: "2 ^ 1024 \<le> n \<Longrightarrow> 2 ^ 1024 \<le> round53 n"
proof -
  assume n: "2 ^ 1024 \<le> n"
  let ?l = "bit_length n"
  have l: "1024 < ?l" using n by (rule bit_length_ge)
  have "n \<noteq> 0" using n by (auto dest: order_trans)
  then have "2 ^ (?l - 1) \<le> n" by (rule bit_length_bound)
  then have "2 ^ (?l - 1) div 2 ^ (?l - 53) \<le> n div 2 ^ (?l - 53)" by (rule div_le_mono)
  moreover have "(2::nat) ^ (?l - 1) = 2 ^ 52 * 2 ^ (?l - 53)"
    unfolding power_add [symmetric] using l by (intro arg_cong [where f = "\<lambda>k. 2 ^ k"]) simp
  ultimately have "2 ^ 52 \<le> n div 2 ^ (?l - 53)" by simp
  then have "2 ^ 52 * 2 ^ (?l - 53) \<le> (n div 2 ^ (?l - 53)) * 2 ^ (?l - 53)" by (rule mult_le_mono1)
  moreover have "(2::nat) ^ 1024 \<le> 2 ^ 52 * 2 ^ (?l - 53)"
    unfolding power_add [symmetric] by (rule power_increasing) (use l in auto)
  ultimately have "2 ^ 1024 \<le> (n div 2 ^ (?l - 53)) * 2 ^ (?l - 53)" by (rule order_trans [rotated])
  with l show ?thesis unfolding round53_def Let_def by (auto intro: order_trans)
qed

lemma float_of_int_overflow: "2 ^ 1024 \<le> n \<Longrightarrow> float_of_int n = None"
proof -
  assume "2 ^ 1024 \<le> n"
  then have "2 ^ 1024 \<le> nat \<bar>n\<bar>" by (simp add: le_nat_iff)
  from round53_large [OF this] show ?thesis by (simp add: float_of_int_def Let_def)
qed

section \<open>Durations\<close>

text \<open>\<open>timedelta(seconds=q)\<close> in microseconds, half to even.\<close>

definition micros :: "rat \<Rightarrow> int" where
  "micros q = (let x = q * 1000000; f = \<lfloor>x\<rfloor>; d = x - of_int f in
     if d < 1 / 2 then f else if d > 1 / 2 then f + 1 else if even f then f else f + 1)"

end
