(* ===== verification/Lifecycle.thy ===== *)
theory Lifecycle
  imports PyValue
begin

text \<open>
  The task state machine of \<open>scripts/pd_fleet/lifecycle.py\<close>: the states and their transition
  table, one definition for every method of \<open>TaskLifecycle\<close>, and the gate policy that moves a
  pending task to ready or blocked. An operation returns the new record or the class of the
  exception it raises; every raise of the source happens before the object is changed, so an error
  leaves the record as it was. Instants are rational numbers of seconds.
\<close>

section \<open>States, errors and the transition table\<close>

datatype LifecycleState = PENDING | READY | RUNNING | BLOCKED | FAILED | COMPLETED | SKIPPED

datatype lc_error = LifecycleError | InvalidTransition | CompletionError | RetryExhausted

fun state_value :: "LifecycleState \<Rightarrow> string" where
  "state_value PENDING = ''pending''"
| "state_value READY = ''ready''"
| "state_value RUNNING = ''running''"
| "state_value BLOCKED = ''blocked''"
| "state_value FAILED = ''failed''"
| "state_value COMPLETED = ''completed''"
| "state_value SKIPPED = ''skipped''"

definition all_states :: "LifecycleState list" where
  "all_states = [PENDING, READY, RUNNING, BLOCKED, FAILED, COMPLETED, SKIPPED]"

definition state_of_value :: "string \<Rightarrow> LifecycleState option" where
  "state_of_value s = find (\<lambda>st. state_value st = s) all_states"

fun VALID_TRANSITIONS :: "LifecycleState \<Rightarrow> LifecycleState list" where
  "VALID_TRANSITIONS PENDING = [READY, SKIPPED, BLOCKED]"
| "VALID_TRANSITIONS READY = [RUNNING, SKIPPED, BLOCKED]"
| "VALID_TRANSITIONS RUNNING = [COMPLETED, FAILED, BLOCKED]"
| "VALID_TRANSITIONS FAILED = [READY]"
| "VALID_TRANSITIONS BLOCKED = []"
| "VALID_TRANSITIONS COMPLETED = []"
| "VALID_TRANSITIONS SKIPPED = []"

text \<open>The argument of \<open>_state\<close>: a member of the enumeration or any other value.\<close>

datatype state_arg = StateMember LifecycleState | StateOther pyval

fun lc_state_of :: "state_arg \<Rightarrow> (lc_error, LifecycleState) result" where
  "lc_state_of (StateMember s) = Inr s"
| "lc_state_of (StateOther (PStr v)) =
     (case state_of_value v of None \<Rightarrow> Inl LifecycleError | Some s \<Rightarrow> Inr s)"
| "lc_state_of (StateOther _) = Inl LifecycleError"

text \<open>\<open>_has\<close>: not \<open>None\<close>, and not an empty container.\<close>

fun py_has :: "pyval \<Rightarrow> bool" where
  "py_has PNone = False"
| "py_has (PStr s) = (s \<noteq> [])"
| "py_has (PList xs) = (xs \<noteq> [])"
| "py_has (PTuple xs) = (xs \<noteq> [])"
| "py_has (PDict d) = (d \<noteq> [])"
| "py_has (PProxy d) = (d \<noteq> [])"
| "py_has _ = True"

section \<open>The task record and its operations\<close>

record history_entry =
  h_from :: LifecycleState
  h_to :: LifecycleState
  h_reason :: "string option"

record task_lifecycle =
  lc_task_id :: string
  lc_state :: LifecycleState
  lc_attempt :: int
  lc_max_attempts :: int
  lc_agent :: "string option"
  lc_heartbeat :: "rat option"
  lc_started_at :: "rat option"
  lc_finished_at :: "rat option"
  lc_outputs :: pyval
  lc_evidence :: pyval
  lc_reason :: "string option"
  lc_error :: "string option"
  lc_history :: "history_entry list"
  lc_final_report :: pyval
  lc_report_final :: pyval
  lc_retryable :: bool

definition lc_default :: "string \<Rightarrow> int \<Rightarrow> task_lifecycle" where
  "lc_default tid m = \<lparr>lc_task_id = tid, lc_state = PENDING, lc_attempt = 0, lc_max_attempts = m,
     lc_agent = None, lc_heartbeat = None, lc_started_at = None, lc_finished_at = None,
     lc_outputs = PNone, lc_evidence = PNone, lc_reason = None, lc_error = None, lc_history = [],
     lc_final_report = PNone, lc_report_final = PNone, lc_retryable = True\<rparr>"

definition TaskLifecycle_post_init :: "task_lifecycle \<Rightarrow> (lc_error, task_lifecycle) result" where
  "TaskLifecycle_post_init s =
     (if lc_task_id s = [] then Inl LifecycleError
      else if lc_max_attempts s < 1 then Inl LifecycleError
      else if lc_attempt s < 0 \<or> lc_attempt s > lc_max_attempts s then Inl LifecycleError
      else Inr s)"

definition can_transition :: "task_lifecycle \<Rightarrow> LifecycleState \<Rightarrow> bool" where
  "can_transition s target \<longleftrightarrow> target \<in> set (VALID_TRANSITIONS (lc_state s))"

definition lc_move :: "task_lifecycle \<Rightarrow> LifecycleState \<Rightarrow> string option \<Rightarrow> task_lifecycle" where
  "lc_move s target rsn = s\<lparr>lc_state := target,
     lc_reason := (case rsn of None \<Rightarrow> lc_reason s | Some r \<Rightarrow> Some r),
     lc_history := lc_history s @ [\<lparr>h_from = lc_state s, h_to = target, h_reason = rsn\<rparr>]\<rparr>"

definition TaskLifecycle_transition ::
  "task_lifecycle \<Rightarrow> state_arg \<Rightarrow> string option \<Rightarrow> (lc_error, task_lifecycle) result" where
  "TaskLifecycle_transition s arg rsn = bindR (lc_state_of arg) (\<lambda>target.
     if \<not> can_transition s target then Inl InvalidTransition else Inr (lc_move s target rsn))"

definition mark_ready :: "task_lifecycle \<Rightarrow> (lc_error, task_lifecycle) result" where
  "mark_ready s = TaskLifecycle_transition s (StateMember READY) None"

definition lc_start :: "task_lifecycle \<Rightarrow> string \<Rightarrow> rat option \<Rightarrow> (lc_error, task_lifecycle) result" where
  "lc_start s agent now =
     (if agent = [] then Inl LifecycleError
      else bindR (TaskLifecycle_transition s (StateMember RUNNING) None) (\<lambda>s.
        let s = (if lc_attempt s = 0 then s\<lparr>lc_attempt := 1\<rparr> else s);
            s = s\<lparr>lc_agent := Some agent\<rparr>
        in Inr (case now of None \<Rightarrow> s
                | Some t \<Rightarrow> s\<lparr>lc_started_at := Some t, lc_heartbeat := Some t\<rparr>)))"

definition beat :: "task_lifecycle \<Rightarrow> rat \<Rightarrow> (lc_error, task_lifecycle) result" where
  "beat s now = (if lc_state s \<noteq> RUNNING then Inl InvalidTransition
     else Inr (s\<lparr>lc_heartbeat := Some now\<rparr>))"

definition stamp_finished :: "rat option \<Rightarrow> task_lifecycle \<Rightarrow> task_lifecycle" where
  "stamp_finished now s = (case now of None \<Rightarrow> s | Some t \<Rightarrow> s\<lparr>lc_finished_at := Some t\<rparr>)"

definition complete ::
  "task_lifecycle \<Rightarrow> pyval \<Rightarrow> pyval \<Rightarrow> rat option \<Rightarrow> (lc_error, task_lifecycle) result" where
  "complete s outs evid now =
     (if lc_state s = COMPLETED then Inr s
      else if lc_state s \<noteq> RUNNING then Inl InvalidTransition
      else if \<not> py_has outs \<or> \<not> py_has evid then Inl CompletionError
      else TaskLifecycle_transition
        (stamp_finished now (s\<lparr>lc_outputs := outs, lc_evidence := evid,
           lc_final_report := evid, lc_report_final := evid\<rparr>))
        (StateMember COMPLETED) None)"

definition fail ::
  "task_lifecycle \<Rightarrow> string \<Rightarrow> bool \<Rightarrow> rat option \<Rightarrow> (lc_error, task_lifecycle) result" where
  "fail s err retryable now =
     (if lc_state s \<noteq> RUNNING then Inl InvalidTransition
      else TaskLifecycle_transition
        (stamp_finished now (s\<lparr>lc_error := Some err, lc_retryable := retryable\<rparr>))
        (StateMember FAILED) (Some err))"

definition retry :: "task_lifecycle \<Rightarrow> (lc_error, task_lifecycle) result" where
  "retry s =
     (if lc_state s \<noteq> FAILED then Inl InvalidTransition
      else if lc_attempt s \<ge> lc_max_attempts s then Inl RetryExhausted
      else if \<not> lc_retryable s then Inl RetryExhausted
      else TaskLifecycle_transition (s\<lparr>lc_attempt := lc_attempt s + 1, lc_error := None\<rparr>)
        (StateMember READY) (Some ''explicit_retry''))"

definition block :: "task_lifecycle \<Rightarrow> string \<Rightarrow> (lc_error, task_lifecycle) result" where
  "block s rsn = (if rsn = [] \<or> blank rsn then Inl LifecycleError
     else TaskLifecycle_transition s (StateMember BLOCKED) (Some rsn))"

definition skip :: "task_lifecycle \<Rightarrow> string \<Rightarrow> (lc_error, task_lifecycle) result" where
  "skip s rsn = (if rsn = [] \<or> blank rsn then Inl LifecycleError
     else TaskLifecycle_transition s (StateMember SKIPPED) (Some rsn))"

definition recover_orphan ::
  "task_lifecycle \<Rightarrow> rat \<Rightarrow> rat \<Rightarrow> (lc_error, task_lifecycle \<times> bool) result" where
  "recover_orphan s now timeout =
     (if lc_state s \<noteq> RUNNING then Inr (s, False)
      else if timeout < 0 then Inl LifecycleError
      else let reference = (case lc_heartbeat s of None \<Rightarrow> lc_started_at s | Some t \<Rightarrow> Some t);
               report = (if lc_final_report s \<noteq> PNone then lc_final_report s else lc_report_final s)
           in if report = PNone \<or> (case reference of None \<Rightarrow> True | Some t \<Rightarrow> now - t \<ge> timeout)
              then bindR (fail s ''orphaned_run'' True (Some now)) (\<lambda>s'. Inr (s', True))
              else Inr (s, False))"

section \<open>Gate policy\<close>

text \<open>The \<open>gates\<close> argument: a mapping from gate ids, or an iterable of gate values.\<close>

datatype gates_arg = GateMap pymap | GateSeq "pyval list"

record gate_policy =
  gp_required :: "string list"
  gp_allow_skipped :: bool

definition GatePolicy_from_gates :: "(pyval \<Rightarrow> string) \<Rightarrow> pyval list \<Rightarrow> gate_policy" where
  "GatePolicy_from_gates rep gates =
     (let ids = map (\<lambda>g. case as_mapping g of
                   None \<Rightarrow> PNone
                 | Some d \<Rightarrow> mget_or d ''id'' (mget_or d ''gate_id'' PNone)) gates
      in \<lparr>gp_required = map (py_str rep) (filter truthy ids), gp_allow_skipped = True\<rparr>)"

text \<open>
  In the iterable form the code reads the attributes \<open>id\<close> and \<open>gate_id\<close>, which none of the
  represented values has, so every item is filed under the empty string and the last one wins.
\<close>

fun gate_values :: "gates_arg \<Rightarrow> pymap" where
  "gate_values (GateMap d) = d"
| "gate_values (GateSeq gs) = (if gs = [] then [] else [(PStr [], last gs)])"

definition gate_passed :: "pyval \<Rightarrow> bool" where
  "gate_passed g = (case as_mapping g of
       None \<Rightarrow> False
     | Some d \<Rightarrow>
         mget d ''status'' = Some (PStr ''passed'')
         \<and> \<not> (mhas d ''evidence'' \<and> \<not> py_has (mget_or d ''evidence'' PNone))
         \<and> \<not> (mhas d ''owner'' \<and> \<not> py_has (mget_or d ''owner'' PNone))
         \<and> \<not> (mhas d ''decision'' \<and> \<not> py_has (mget_or d ''decision'' PNone))
         \<and> \<not> (mhas d ''blockers'' \<and> py_has (mget_or d ''blockers'' PNone)))"

definition gate_lookup_passed :: "gates_arg \<Rightarrow> string \<Rightarrow> bool" where
  "gate_lookup_passed gs gid = gate_passed (mget_or (gate_values gs) gid PNone)"

definition GatePolicy_allows :: "gate_policy \<Rightarrow> gates_arg \<Rightarrow> bool" where
  "GatePolicy_allows p gs = list_all (gate_lookup_passed gs) (gp_required p)"

definition GatePolicy_blocked_by :: "gate_policy \<Rightarrow> gates_arg \<Rightarrow> string list" where
  "GatePolicy_blocked_by p gs = filter (\<lambda>gid. \<not> gate_lookup_passed gs gid) (gp_required p)"

definition require_ready ::
  "gate_policy \<Rightarrow> task_lifecycle \<Rightarrow> gates_arg \<Rightarrow> (lc_error, task_lifecycle) result" where
  "require_ready p s gs =
     (if lc_state s = PENDING then
        (if GatePolicy_allows p gs then mark_ready s
         else block s (''gate: '' @ join '', '' (GatePolicy_blocked_by p gs)))
      else Inr s)"

section \<open>Runs of a task\<close>

definition lc_init :: "task_lifecycle \<Rightarrow> bool" where
  "lc_init s \<longleftrightarrow> TaskLifecycle_post_init (lc_default (lc_task_id s) (lc_max_attempts s)) = Inr s"

text \<open>
  The operations that guard a transition and keep the fields of the record in step with it. The
  public method \<open>transition\<close> (and the module function of the same name) moves a task along the table
  without those guards; a step of a lifecycle is either of them.
\<close>

inductive lc_op :: "task_lifecycle \<Rightarrow> task_lifecycle \<Rightarrow> bool" where
  op_mark_ready: "mark_ready s = Inr t \<Longrightarrow> lc_op s t"
| op_start: "lc_start s agent now = Inr t \<Longrightarrow> lc_op s t"
| op_beat: "beat s tm = Inr t \<Longrightarrow> lc_op s t"
| op_complete: "complete s outs evid now = Inr t \<Longrightarrow> lc_op s t"
| op_fail: "fail s err retryable now = Inr t \<Longrightarrow> lc_op s t"
| op_retry: "retry s = Inr t \<Longrightarrow> lc_op s t"
| op_block: "block s rsn = Inr t \<Longrightarrow> lc_op s t"
| op_skip: "skip s rsn = Inr t \<Longrightarrow> lc_op s t"
| op_recover: "recover_orphan s tm timeout = Inr (t, r) \<Longrightarrow> lc_op s t"
| op_require: "require_ready p s gs = Inr t \<Longrightarrow> lc_op s t"

inductive lc_step :: "task_lifecycle \<Rightarrow> task_lifecycle \<Rightarrow> bool" where
  step_op: "lc_op s t \<Longrightarrow> lc_step s t"
| step_transition: "TaskLifecycle_transition s arg rsn = Inr t \<Longrightarrow> lc_step s t"

text \<open>
  Runs that remember whether the current state was entered by one of the guarded operations: the
  flag is lost with a bare transition and regained with the next guarded operation that moves.
\<close>

inductive lc_track :: "bool \<times> task_lifecycle \<Rightarrow> bool \<times> task_lifecycle \<Rightarrow> bool" where
  track_op: "lc_op s t \<Longrightarrow> lc_track (own, s) (own \<or> lc_history t \<noteq> lc_history s, t)"
| track_transition: "TaskLifecycle_transition s arg rsn = Inr t \<Longrightarrow> lc_track (own, s) (False, t)"

definition lc_track_init :: "bool \<times> task_lifecycle \<Rightarrow> bool" where
  "lc_track_init c \<longleftrightarrow> fst c \<and> lc_init (snd c)"

definition lc_allowed :: "LifecycleState \<Rightarrow> LifecycleState \<Rightarrow> bool" where
  "lc_allowed a b \<longleftrightarrow> b \<in> set (VALID_TRANSITIONS a)"

definition lc_terminal :: "LifecycleState \<Rightarrow> bool" where
  "lc_terminal a \<longleftrightarrow> a \<in> {BLOCKED, COMPLETED, SKIPPED}"

definition explicit_retries :: "task_lifecycle \<Rightarrow> nat" where
  "explicit_retries s = length (filter
     (\<lambda>h. h_from h = FAILED \<and> h_to h = READY \<and> h_reason h = Some ''explicit_retry'') (lc_history s))"

definition history_ok :: "task_lifecycle \<Rightarrow> bool" where
  "history_ok s \<longleftrightarrow> chain lc_allowed PENDING (map h_to (lc_history s))
     \<and> last (PENDING # map h_to (lc_history s)) = lc_state s
     \<and> map h_from (lc_history s) = butlast (PENDING # map h_to (lc_history s))"

definition attempts_ok :: "task_lifecycle \<Rightarrow> bool" where
  "attempts_ok s \<longleftrightarrow> 1 \<le> lc_max_attempts s \<and> 0 \<le> lc_attempt s \<and> lc_attempt s \<le> lc_max_attempts s
     \<and> (lc_attempt s = 0 \<longrightarrow> explicit_retries s = 0)
     \<and> (0 < lc_attempt s \<longrightarrow> int (explicit_retries s) = lc_attempt s - 1)"

definition data_ok :: "task_lifecycle \<Rightarrow> bool" where
  "data_ok s \<longleftrightarrow> lc_task_id s \<noteq> []
     \<and> (lc_state s = RUNNING \<longrightarrow> (\<exists>a. lc_agent s = Some a \<and> a \<noteq> []) \<and> 1 \<le> lc_attempt s)
     \<and> (lc_state s = FAILED \<longrightarrow> lc_error s \<noteq> None \<and> 1 \<le> lc_attempt s)
     \<and> (lc_state s = COMPLETED \<longrightarrow> py_has (lc_outputs s) \<and> py_has (lc_evidence s)
          \<and> lc_final_report s = lc_evidence s \<and> lc_report_final s = lc_evidence s)
     \<and> (lc_state s \<in> {BLOCKED, SKIPPED} \<longrightarrow> (\<exists>r. lc_reason s = Some r \<and> \<not> blank r))"

definition lc_inv :: "task_lifecycle \<Rightarrow> bool" where
  "lc_inv s \<longleftrightarrow> history_ok s \<and> attempts_ok s \<and> data_ok s"

text \<open>What holds whatever moved the task, and what a guarded operation leaves behind it.\<close>

definition lc_base :: "task_lifecycle \<Rightarrow> bool" where
  "lc_base s \<longleftrightarrow> history_ok s \<and> lc_task_id s \<noteq> [] \<and> 1 \<le> lc_max_attempts s \<and> 0 \<le> lc_attempt s
     \<and> lc_attempt s \<le> lc_max_attempts s \<and> lc_attempt s \<le> int (explicit_retries s) + 1"

definition entry_ok :: "task_lifecycle \<Rightarrow> bool" where
  "entry_ok s \<longleftrightarrow>
     (lc_state s = RUNNING \<longrightarrow> (\<exists>a. lc_agent s = Some a \<and> a \<noteq> []) \<and> 1 \<le> lc_attempt s)
     \<and> (lc_state s = FAILED \<longrightarrow> lc_error s \<noteq> None)
     \<and> (lc_state s = COMPLETED \<longrightarrow> py_has (lc_outputs s) \<and> py_has (lc_evidence s)
          \<and> lc_final_report s = lc_evidence s \<and> lc_report_final s = lc_evidence s)
     \<and> (lc_state s \<in> {BLOCKED, SKIPPED} \<longrightarrow> (\<exists>r. lc_reason s = Some r \<and> \<not> blank r))"

section \<open>Lemmas\<close>

interpretation lct: transition_table lc_allowed lc_terminal
proof
  fix s t :: LifecycleState
  show "lc_terminal s \<Longrightarrow> \<not> lc_allowed s t"
    by (auto simp: lc_terminal_def lc_allowed_def)
  show "\<not> lc_terminal s \<Longrightarrow> \<exists>t. lc_allowed s t"
    by (cases s) (auto simp: lc_terminal_def lc_allowed_def)
qed

lemmas lc_transition_defs = TaskLifecycle_transition_def can_transition_def lc_move_def
lemmas lc_op_defs = mark_ready_def lc_start_def beat_def complete_def fail_def retry_def block_def
  skip_def stamp_finished_def

lemma state_of_value_roundtrip [simp]: "state_of_value (state_value s) = Some s"
  by (cases s) (simp_all add: state_of_value_def all_states_def)

lemma state_of_value_SomeD: "state_of_value v = Some s \<Longrightarrow> state_value s = v"
  by (auto simp: state_of_value_def find_Some_iff)

lemma require_ready_cases:
  assumes "require_ready p s gs = Inr t"
  shows "t = s \<or> mark_ready s = Inr t \<or> (\<exists>r. block s r = Inr t)"
  using assms by (auto simp: require_ready_def split: if_splits)

lemma recover_orphan_cases:
  assumes "recover_orphan s now timeout = Inr (t, r)"
  shows "(r = False \<and> t = s) \<or> (r = True \<and> fail s ''orphaned_run'' True (Some now) = Inr t)"
  using assms by (auto simp: recover_orphan_def Let_def result_simps split: if_splits)

lemma history_ok_move:
  assumes ok: "history_ok s" and allowed: "lc_allowed (lc_state s) target"
  shows "history_ok (lc_move s target rsn)"
proof -
  let ?hs = "map h_to (lc_history s)"
  have new: "map h_to (lc_history (lc_move s target rsn)) = ?hs @ [target]"
    and froms: "map h_from (lc_history (lc_move s target rsn)) = map h_from (lc_history s) @ [lc_state s]"
    by (simp_all add: lc_move_def)
  have "chain lc_allowed PENDING (?hs @ [target])"
    using ok allowed unfolding history_ok_def chain_append by simp
  moreover have "butlast (PENDING # ?hs @ [target]) = butlast (PENDING # ?hs) @ [lc_state s]"
    using ok append_butlast_last_id [of "PENDING # ?hs"] butlast_snoc [of "PENDING # ?hs" target]
    unfolding history_ok_def append_Cons by (simp del: butlast.simps last.simps)
  ultimately show ?thesis
    using ok unfolding history_ok_def new froms by (simp add: lc_move_def)
qed

lemma history_ok_cong:
  "lc_history t = lc_history s \<Longrightarrow> lc_state t = lc_state s \<Longrightarrow> history_ok t = history_ok s"
  by (simp add: history_ok_def)

lemma explicit_retries_move [simp]:
  "explicit_retries (lc_move s target rsn) = explicit_retries s +
     (if lc_state s = FAILED \<and> target = READY \<and> rsn = Some ''explicit_retry'' then 1 else 0)"
  by (simp add: explicit_retries_def lc_move_def)

lemma explicit_retries_cong: "lc_history t = lc_history s \<Longrightarrow> explicit_retries t = explicit_retries s"
  by (simp add: explicit_retries_def)

text \<open>Every operation that succeeds is a no-op, a heartbeat, or one move along the table.\<close>

lemma transition_InrD:
  assumes "TaskLifecycle_transition s (StateMember target) rsn = Inr t"
  shows "lc_allowed (lc_state s) target \<and> t = lc_move s target rsn"
  using assms by (auto simp: TaskLifecycle_transition_def can_transition_def lc_allowed_def split: if_splits)

lemma lc_move_sel [simp]:
  "lc_state (lc_move s target rsn) = target"
  "lc_task_id (lc_move s target rsn) = lc_task_id s"
  "lc_attempt (lc_move s target rsn) = lc_attempt s"
  "lc_max_attempts (lc_move s target rsn) = lc_max_attempts s"
  "lc_agent (lc_move s target rsn) = lc_agent s"
  "lc_outputs (lc_move s target rsn) = lc_outputs s"
  "lc_evidence (lc_move s target rsn) = lc_evidence s"
  "lc_error (lc_move s target rsn) = lc_error s"
  "lc_final_report (lc_move s target rsn) = lc_final_report s"
  "lc_report_final (lc_move s target rsn) = lc_report_final s"
  "lc_reason (lc_move s target rsn) = (case rsn of None \<Rightarrow> lc_reason s | Some r \<Rightarrow> Some r)"
  by (simp_all add: lc_move_def)

lemma stamp_finished_sel [simp]:
  "lc_state (stamp_finished now s) = lc_state s"
  "lc_task_id (stamp_finished now s) = lc_task_id s"
  "lc_attempt (stamp_finished now s) = lc_attempt s"
  "lc_max_attempts (stamp_finished now s) = lc_max_attempts s"
  "lc_agent (stamp_finished now s) = lc_agent s"
  "lc_outputs (stamp_finished now s) = lc_outputs s"
  "lc_evidence (stamp_finished now s) = lc_evidence s"
  "lc_error (stamp_finished now s) = lc_error s"
  "lc_final_report (stamp_finished now s) = lc_final_report s"
  "lc_report_final (stamp_finished now s) = lc_report_final s"
  "lc_history (stamp_finished now s) = lc_history s"
  by (simp_all add: stamp_finished_def split: option.split)

lemma attempts_ok_move:
  "attempts_ok s \<Longrightarrow> \<not> (lc_state s = FAILED \<and> target = READY \<and> rsn = Some ''explicit_retry'') \<Longrightarrow>
   attempts_ok (lc_move s target rsn)"
  by (auto simp: attempts_ok_def)

text \<open>
  The common shape of the state-changing operations: fields other than state and history are
  prepared in \<open>u\<close>, then the task moves.
\<close>

lemma lc_inv_move:
  assumes "lc_inv s" and "lc_history u = lc_history s" and "lc_state u = lc_state s"
    and "TaskLifecycle_transition u (StateMember target) rsn = Inr t"
    and "attempts_ok (lc_move u target rsn)" and "data_ok (lc_move u target rsn)"
  shows "lc_inv t"
proof -
  from assms(4) have "lc_allowed (lc_state u) target" and t: "t = lc_move u target rsn"
    by (auto dest: transition_InrD)
  moreover have "history_ok u" using assms(1-3) history_ok_cong [of u s] by (simp add: lc_inv_def)
  ultimately show ?thesis using assms(5,6) by (simp add: lc_inv_def history_ok_move)
qed

lemma attempts_ok_cong:
  "attempts_ok s \<Longrightarrow> lc_history u = lc_history s \<Longrightarrow> lc_attempt u = lc_attempt s \<Longrightarrow>
   lc_max_attempts u = lc_max_attempts s \<Longrightarrow> attempts_ok u"
  using explicit_retries_cong [of u s] by (simp add: attempts_ok_def)

lemma lc_invD: "lc_inv s \<Longrightarrow> attempts_ok s" "lc_inv s \<Longrightarrow> data_ok s"
  by (simp_all add: lc_inv_def)

lemma mark_ready_inv [step_inv]:
  assumes inv: "lc_inv s" and ok: "mark_ready s = Inr t"
  shows "lc_inv t"
proof (rule lc_inv_move [OF inv refl refl])
  show "TaskLifecycle_transition s (StateMember READY) None = Inr t"
    using ok by (simp add: mark_ready_def)
qed (use lc_invD [OF inv] in \<open>simp_all add: attempts_ok_move data_ok_def\<close>)

lemma block_inv [step_inv]:
  assumes inv: "lc_inv s" and ok: "block s r = Inr t"
  shows "lc_inv t"
proof (rule lc_inv_move [OF inv refl refl])
  show "TaskLifecycle_transition s (StateMember BLOCKED) (Some r) = Inr t"
    using ok by (simp add: block_def split: if_splits)
qed (use lc_invD [OF inv] ok in \<open>simp_all add: attempts_ok_move data_ok_def block_def split: if_splits\<close>)

lemma skip_inv [step_inv]:
  assumes inv: "lc_inv s" and ok: "skip s r = Inr t"
  shows "lc_inv t"
proof (rule lc_inv_move [OF inv refl refl])
  show "TaskLifecycle_transition s (StateMember SKIPPED) (Some r) = Inr t"
    using ok by (simp add: skip_def split: if_splits)
qed (use lc_invD [OF inv] ok in \<open>simp_all add: attempts_ok_move data_ok_def skip_def split: if_splits\<close>)

lemma beat_inv [step_inv]: "lc_inv s \<Longrightarrow> beat s now = Inr t \<Longrightarrow> lc_inv t"
  by (simp add: beat_def lc_inv_def attempts_ok_def data_ok_def history_ok_def explicit_retries_def
      split: if_splits) (erule subst; simp)

lemma start_inv [step_inv]:
  assumes inv: "lc_inv s" and ok: "lc_start s agent now = Inr t"
  shows "lc_inv t"
proof -
  let ?m = "lc_move s RUNNING None"
  let ?w = "(if lc_attempt ?m = 0 then ?m\<lparr>lc_attempt := 1\<rparr> else ?m)\<lparr>lc_agent := Some agent\<rparr>"
  from ok obtain m where agent: "agent \<noteq> []"
    and tr: "TaskLifecycle_transition s (StateMember RUNNING) None = Inr m"
    by (auto simp: lc_start_def result_simps split: if_splits)
  from transition_InrD [OF tr] have allowed: "lc_allowed (lc_state s) RUNNING" and m: "m = ?m"
    by simp_all
  from ok agent tr m have teq:
    "t = (case now of None \<Rightarrow> ?w | Some x \<Rightarrow> ?w\<lparr>lc_started_at := Some x, lc_heartbeat := Some x\<rparr>)"
    by (simp add: lc_start_def Let_def del: lc_move_sel)
  have t: "lc_history t = lc_history ?m" "lc_state t = RUNNING" "lc_task_id t = lc_task_id s"
      "lc_max_attempts t = lc_max_attempts s" "lc_agent t = Some agent"
      "lc_attempt t = (if lc_attempt s = 0 then 1 else lc_attempt s)"
    unfolding teq by (simp_all split: option.split)
  have "history_ok t"
    using history_ok_move [OF _ allowed] inv history_ok_cong [of t ?m] t(1,2) by (simp add: lc_inv_def)
  moreover have "explicit_retries t = explicit_retries s"
    using t(1) explicit_retries_cong [of t ?m] by simp
  ultimately show ?thesis
    using inv t agent by (simp add: lc_inv_def attempts_ok_def data_ok_def)
qed

lemma complete_inv [step_inv]:
  assumes inv: "lc_inv s" and ok: "complete s outs evid now = Inr t"
  shows "lc_inv t"
proof (cases "lc_state s = COMPLETED")
  case True
  with inv ok show ?thesis by (simp add: complete_def)
next
  case False
  let ?u = "stamp_finished now (s\<lparr>lc_outputs := outs, lc_evidence := evid,
    lc_final_report := evid, lc_report_final := evid\<rparr>)"
  from False ok have run: "lc_state s = RUNNING" "py_has outs" "py_has evid"
    and tr: "TaskLifecycle_transition ?u (StateMember COMPLETED) None = Inr t"
    by (auto simp: complete_def split: if_splits)
  have "attempts_ok ?u" by (rule attempts_ok_cong [OF lc_invD(1) [OF inv]]) simp_all
  then show ?thesis
    using lc_invD(2) [OF inv] run
    by (intro lc_inv_move [OF inv _ _ tr] attempts_ok_move) (simp_all add: data_ok_def)
qed

lemma fail_inv [step_inv]:
  assumes inv: "lc_inv s" and ok: "fail s err rb now = Inr t"
  shows "lc_inv t"
proof -
  let ?u = "stamp_finished now (s\<lparr>lc_error := Some err, lc_retryable := rb\<rparr>)"
  from ok have run: "lc_state s = RUNNING"
    and tr: "TaskLifecycle_transition ?u (StateMember FAILED) (Some err) = Inr t"
    by (auto simp: fail_def split: if_splits)
  have "attempts_ok ?u" by (rule attempts_ok_cong [OF lc_invD(1) [OF inv]]) simp_all
  then show ?thesis
    using lc_invD(2) [OF inv] run
    by (intro lc_inv_move [OF inv _ _ tr] attempts_ok_move) (simp_all add: data_ok_def)
qed

lemma retry_inv [step_inv]:
  assumes inv: "lc_inv s" and ok: "retry s = Inr t"
  shows "lc_inv t"
proof -
  let ?u = "s\<lparr>lc_attempt := lc_attempt s + 1, lc_error := None\<rparr>"
  from ok have st: "lc_state s = FAILED" "lc_attempt s < lc_max_attempts s"
    and tr: "TaskLifecycle_transition ?u (StateMember READY) (Some ''explicit_retry'') = Inr t"
    by (auto simp: retry_def split: if_splits)
  have "explicit_retries ?u = explicit_retries s" by (rule explicit_retries_cong) simp
  then have "attempts_ok (lc_move ?u READY (Some ''explicit_retry''))"
    using lc_invD [OF inv] st by (simp add: attempts_ok_def data_ok_def)
  then show ?thesis
    using lc_invD(2) [OF inv]
    by (intro lc_inv_move [OF inv _ _ tr]) (simp_all add: data_ok_def)
qed

lemma lc_default_inv: "tid \<noteq> [] \<Longrightarrow> 1 \<le> m \<Longrightarrow> lc_inv (lc_default tid m)"
  by (simp add: lc_default_def lc_inv_def history_ok_def attempts_ok_def data_ok_def
      explicit_retries_def)

lemma lc_init_inv: "lc_init s \<Longrightarrow> lc_inv s"
proof -
  assume "lc_init s"
  then have "s = lc_default (lc_task_id s) (lc_max_attempts s)"
    and "lc_task_id s \<noteq> []" and "1 \<le> lc_max_attempts s"
    by (auto simp: lc_init_def TaskLifecycle_post_init_def lc_default_def split: if_splits)
  then show ?thesis
    by (metis (no_types, lifting) lc_default_inv)
qed

interpretation lci: invariant_system lc_init lc_op lc_inv
proof
  show "lc_init s \<Longrightarrow> lc_inv s" for s by (rule lc_init_inv)
  show "lc_inv s \<Longrightarrow> lc_op s t \<Longrightarrow> lc_inv t" for s t
    by (erule lc_op.cases) (auto intro: step_inv dest!: require_ready_cases recover_orphan_cases)
qed

text \<open>
  Every guarded operation returns the record as it was, records a heartbeat, or prepares some fields
  and then moves; what it prepares keeps the base, and the move leaves the data of its target.
\<close>

lemma lc_base_move:
  assumes "lc_base s" and "lc_history u = lc_history s" and "lc_state u = lc_state s"
    and "lc_task_id u = lc_task_id s" and "lc_max_attempts u = lc_max_attempts s"
    and "lc_allowed (lc_state u) target" and "0 \<le> lc_attempt u" and "lc_attempt u \<le> lc_max_attempts s"
    and "lc_attempt u \<le> int (explicit_retries (lc_move u target rsn)) + 1"
  shows "lc_base (lc_move u target rsn)"
proof -
  have "history_ok u" using assms(1-3) history_ok_cong [of u s] by (simp add: lc_base_def)
  from history_ok_move [OF this assms(6)] show ?thesis using assms by (simp add: lc_base_def)
qed

lemma lc_base_transition:
  assumes "lc_base s" and "TaskLifecycle_transition s arg rsn = Inr t"
  shows "lc_base t"
proof -
  from assms(2) obtain target where "lc_allowed (lc_state s) target" "t = lc_move s target rsn"
    by (auto simp: TaskLifecycle_transition_def can_transition_def lc_allowed_def result_simps split: if_splits)
  with assms(1) show ?thesis
    using lc_base_move [OF assms(1) refl refl refl refl, of target rsn] by (simp add: lc_base_def)
qed

lemma lc_move_history [simp]: "lc_history (lc_move s target rsn) \<noteq> lc_history s"
  by (simp add: lc_move_def)

definition op_good :: "task_lifecycle \<Rightarrow> task_lifecycle \<Rightarrow> bool" where
  "op_good s t \<longleftrightarrow> lc_base t
     \<and> (if lc_history t = lc_history s then entry_ok s \<longrightarrow> entry_ok t else entry_ok t)"

lemma op_good_refl: "lc_base s \<Longrightarrow> op_good s s"
  by (simp add: op_good_def)

lemma op_good_move:
  assumes "lc_base s" and "lc_history u = lc_history s" and "lc_state u = lc_state s"
    and "lc_task_id u = lc_task_id s" and "lc_max_attempts u = lc_max_attempts s"
    and "TaskLifecycle_transition u (StateMember target) rsn = Inr t" and "0 \<le> lc_attempt u"
    and "lc_attempt u \<le> lc_max_attempts s" and "lc_attempt u \<le> int (explicit_retries (lc_move u target rsn)) + 1"
    and "entry_ok (lc_move u target rsn)"
  shows "op_good s t"
proof -
  from assms(6) have "lc_allowed (lc_state u) target" and t: "t = lc_move u target rsn"
    by (auto dest: transition_InrD)
  from lc_base_move [OF assms(1-5) this(1) assms(7-9)] show ?thesis
    using assms(2,10) lc_move_history [of u target rsn] by (simp add: op_good_def t)
qed

lemma lc_baseD:
  assumes "lc_base s"
  shows "0 \<le> lc_attempt s" "lc_attempt s \<le> lc_max_attempts s" "lc_attempt s \<le> int (explicit_retries s) + 1"
    "lc_attempt s \<le> 1 + int (explicit_retries s)" "1 \<le> lc_max_attempts s"
  using assms by (simp_all add: lc_base_def)

lemma mark_ready_good: "lc_base s \<Longrightarrow> mark_ready s = Inr t \<Longrightarrow> op_good s t"
  by (rule op_good_move [OF _ refl refl refl refl]) (auto simp: mark_ready_def lc_baseD entry_ok_def)

lemma block_good: "lc_base s \<Longrightarrow> block s r = Inr t \<Longrightarrow> op_good s t"
  by (rule op_good_move [OF _ refl refl refl refl])
     (auto simp: block_def lc_baseD entry_ok_def split: if_splits)

lemma skip_good: "lc_base s \<Longrightarrow> skip s r = Inr t \<Longrightarrow> op_good s t"
  by (rule op_good_move [OF _ refl refl refl refl])
     (auto simp: skip_def lc_baseD entry_ok_def split: if_splits)

lemma beat_good: "lc_base s \<Longrightarrow> beat s now = Inr t \<Longrightarrow> op_good s t"
  by (auto simp: beat_def op_good_def lc_base_def entry_ok_def history_ok_def explicit_retries_def split: if_splits)

lemma complete_good:
  assumes "lc_base s" and ok: "complete s outs evid now = Inr t"
  shows "op_good s t"
proof (cases "lc_state s = COMPLETED")
  case True
  with assms show ?thesis by (simp add: complete_def op_good_refl)
next
  case False
  let ?u = "stamp_finished now (s\<lparr>lc_outputs := outs, lc_evidence := evid,
    lc_final_report := evid, lc_report_final := evid\<rparr>)"
  from False ok have run: "py_has outs" "py_has evid"
    and tr: "TaskLifecycle_transition ?u (StateMember COMPLETED) None = Inr t"
    by (auto simp: complete_def split: if_splits)
  have "explicit_retries ?u = explicit_retries s" by (rule explicit_retries_cong) simp
  then show ?thesis
    using run lc_baseD [OF assms(1)]
    by (intro op_good_move [OF assms(1) _ _ _ _ tr]) (simp_all add: entry_ok_def)
qed

lemma fail_good:
  assumes "lc_base s" and ok: "fail s err rb now = Inr t"
  shows "op_good s t"
proof -
  let ?u = "stamp_finished now (s\<lparr>lc_error := Some err, lc_retryable := rb\<rparr>)"
  from ok have tr: "TaskLifecycle_transition ?u (StateMember FAILED) (Some err) = Inr t"
    by (auto simp: fail_def split: if_splits)
  have "explicit_retries ?u = explicit_retries s" by (rule explicit_retries_cong) simp
  then show ?thesis
    using lc_baseD [OF assms(1)]
    by (intro op_good_move [OF assms(1) _ _ _ _ tr]) (simp_all add: entry_ok_def)
qed

lemma retry_good:
  assumes "lc_base s" and ok: "retry s = Inr t"
  shows "op_good s t"
proof -
  let ?u = "s\<lparr>lc_attempt := lc_attempt s + 1, lc_error := None\<rparr>"
  from ok have st: "lc_state s = FAILED" "lc_attempt s < lc_max_attempts s"
    and tr: "TaskLifecycle_transition ?u (StateMember READY) (Some ''explicit_retry'') = Inr t"
    by (auto simp: retry_def split: if_splits)
  have "explicit_retries ?u = explicit_retries s" by (rule explicit_retries_cong) simp
  then show ?thesis
    using st lc_baseD [OF assms(1)]
    by (intro op_good_move [OF assms(1) _ _ _ _ tr]) (simp_all add: entry_ok_def)
qed

lemma start_good:
  assumes base: "lc_base s" and ok: "lc_start s agent now = Inr t"
  shows "op_good s t"
proof -
  let ?m = "lc_move s RUNNING None"
  let ?w = "(if lc_attempt ?m = 0 then ?m\<lparr>lc_attempt := 1\<rparr> else ?m)\<lparr>lc_agent := Some agent\<rparr>"
  from ok obtain m where agent: "agent \<noteq> []"
    and tr: "TaskLifecycle_transition s (StateMember RUNNING) None = Inr m"
    by (auto simp: lc_start_def result_simps split: if_splits)
  then have m: "m = ?m" by (auto dest: transition_InrD)
  from lc_base_transition [OF base tr] have mb: "lc_base ?m" by (simp add: m)
  from ok agent tr m have teq:
    "t = (case now of None \<Rightarrow> ?w | Some x \<Rightarrow> ?w\<lparr>lc_started_at := Some x, lc_heartbeat := Some x\<rparr>)"
    by (simp add: lc_start_def Let_def del: lc_move_sel)
  have t: "lc_history t = lc_history ?m" "lc_state t = lc_state ?m" "lc_task_id t = lc_task_id ?m"
      "lc_max_attempts t = lc_max_attempts ?m" "lc_agent t = Some agent"
      "lc_attempt t = (if lc_attempt ?m = 0 then 1 else lc_attempt ?m)"
    unfolding teq by (simp_all split: option.split)
  have "history_ok t = history_ok ?m" "explicit_retries t = explicit_retries ?m"
    by (rule history_ok_cong, rule t(1), rule t(2)) (rule explicit_retries_cong, rule t(1))
  moreover have "lc_history t \<noteq> lc_history s" by (simp add: t(1))
  ultimately show ?thesis
    using mb t agent by (simp add: op_good_def lc_base_def entry_ok_def)
qed

lemma op_goodI: "lc_op s t \<Longrightarrow> lc_base s \<Longrightarrow> op_good s t"
  by (erule lc_op.cases)
     (auto intro: op_good_refl mark_ready_good start_good beat_good complete_good fail_good retry_good
        block_good skip_good dest!: require_ready_cases recover_orphan_cases)

lemma lc_init_base: "lc_init s \<Longrightarrow> lc_base s \<and> entry_ok s"
  using lc_init_inv [of s]
  by (auto simp: lc_init_def TaskLifecycle_post_init_def lc_default_def lc_inv_def data_ok_def lc_base_def
      attempts_ok_def entry_ok_def split: if_splits)

interpretation lcs: invariant_system lc_init lc_step lc_base
proof
  show "lc_init s \<Longrightarrow> lc_base s" for s by (simp add: lc_init_base)
  show "lc_base s \<Longrightarrow> lc_step s t \<Longrightarrow> lc_base t" for s t
    by (erule lc_step.cases) (auto dest: op_goodI lc_base_transition simp: op_good_def)
qed

interpretation lct_run: invariant_system lc_track_init lc_track "\<lambda>c. lc_base (snd c) \<and> (fst c \<longrightarrow> entry_ok (snd c))"
proof
  show "lc_track_init c \<Longrightarrow> lc_base (snd c) \<and> (fst c \<longrightarrow> entry_ok (snd c))" for c
    by (simp add: lc_track_init_def lc_init_base)
  show "lc_base (snd c) \<and> (fst c \<longrightarrow> entry_ok (snd c)) \<Longrightarrow> lc_track c c' \<Longrightarrow>
    lc_base (snd c') \<and> (fst c' \<longrightarrow> entry_ok (snd c'))" for c c'
    by (erule lc_track.cases)
       (auto dest: op_goodI lc_base_transition simp: op_good_def split: if_splits)
qed

text \<open>The flag only watches: every run is a tracked run.\<close>

lemma track_step: "lc_step s t \<Longrightarrow> \<exists>own'. lc_track (own, s) (own', t)"
  by (erule lc_step.cases) (auto intro: track_op track_transition)

lemma track_of_run: "reachable lc_init lc_step s \<Longrightarrow> \<exists>own. reachable lc_track_init lc_track (own, s)"
proof (induction rule: reachable.induct)
  case (reachable_start s)
  then have "reachable lc_track_init lc_track (True, s)"
    by (intro reachable.reachable_start) (simp add: lc_track_init_def)
  then show ?case ..
next
  case (reachable_next s t)
  then show ?case by (meson track_step reachable.reachable_next)
qed

lemma run_of_op: "reachable lc_init lc_op s \<Longrightarrow> reachable lc_init lc_step s"
  by (induction rule: reachable.induct) (auto intro: reachable.intros step_op)

lemma transition_terminal:
  "lc_terminal (lc_state s) \<Longrightarrow> TaskLifecycle_transition s (StateMember target) rsn = Inl InvalidTransition"
  by (auto simp: TaskLifecycle_transition_def can_transition_def lc_terminal_def)

lemma transition_terminal_arg:
  "lc_terminal (lc_state s) \<Longrightarrow> TaskLifecycle_transition s arg rsn \<noteq> Inr t"
  by (auto simp: TaskLifecycle_transition_def can_transition_def lc_terminal_def result_simps split: if_splits)

lemma recover_orphan_spec:
  assumes "lc_state s = RUNNING" and "0 \<le> timeout"
  shows "recover_orphan s now timeout =
    (if (lc_final_report s = PNone \<and> lc_report_final s = PNone) \<or> (lc_heartbeat s = None \<and> lc_started_at s = None)
        \<or> (\<exists>t. (lc_heartbeat s = Some t \<or> lc_heartbeat s = None \<and> lc_started_at s = Some t) \<and> t + timeout \<le> now)
     then bindR (fail s ''orphaned_run'' True (Some now)) (\<lambda>s'. Inr (s', True)) else Inr (s, False))"
  using assms
  by (cases "lc_heartbeat s"; cases "lc_started_at s") (simp_all add: recover_orphan_def Let_def algebra_simps)

lemma gate_block_reason: "\<not> blank (''gate: '' @ r)"
  by (simp add: is_space_def)

lemma not_allows_iff: "\<not> GatePolicy_allows p gs \<longleftrightarrow> GatePolicy_blocked_by p gs \<noteq> []"
  by (auto simp: GatePolicy_allows_def GatePolicy_blocked_by_def list_all_iff filter_empty_conv)

section \<open>Properties\<close>

text \<open>
  C1: in every state a task can reach through the operations of \<open>TaskLifecycle\<close> (the bare
  \<open>transition\<close> included) and \<open>GatePolicy.require_ready\<close>, starting from a freshly constructed record,
  the history is a chain of allowed transitions from pending to the current state and the attempt
  counter stays within its limits and at most one ahead of the retries. The run can be tracked, and
  whenever the current state was entered by an operation other than the bare transition, a running
  task has an agent and an attempt, a failed task an error, a completed task non-empty outputs and
  evidence, and a blocked or skipped task a reason. On runs without bare transitions the attempt
  counter moreover counts the explicit retries exactly.
\<close>

theorem lifecycle_invariant:
  assumes "reachable lc_init lc_step s"
  shows "lc_base s
    \<and> (\<exists>own. reachable lc_track_init lc_track (own, s))
    \<and> (\<forall>own. reachable lc_track_init lc_track (own, s) \<and> own \<longrightarrow> entry_ok s)
    \<and> (reachable lc_init lc_op s \<longrightarrow> lc_inv s)"
  using lcs.reachable_inv [OF assms] track_of_run [OF assms] lct_run.reachable_inv [of "(True, s)"]
    lci.reachable_inv [of s] by auto

lemma lifecycle_reaches_completed:
  "\<exists>s. reachable lc_init lc_op s \<and> lc_state s = COMPLETED \<and> lc_attempt s = 1 \<and> lc_max_attempts s = 2"
proof -
  let ?s0 = "lc_default ''t1'' 2"
  obtain s1 where s1: "mark_ready ?s0 = Inr s1" "lc_state s1 = READY" "lc_attempt s1 = 0" "lc_max_attempts s1 = 2"
    by (simp add: mark_ready_def lc_transition_defs lc_default_def)
  obtain s2 where s2: "lc_start s1 ''agent'' (Some 5) = Inr s2" "lc_state s2 = RUNNING" "lc_attempt s2 = 1"
      "lc_max_attempts s2 = 2"
    using s1 by (simp add: lc_start_def lc_transition_defs Let_def)
  obtain s3 where s3: "complete s2 (PStr ''out'') (PStr ''log'') (Some 9) = Inr s3" "lc_state s3 = COMPLETED"
      "lc_attempt s3 = 1" "lc_max_attempts s3 = 2"
    using s2 by (simp add: complete_def TaskLifecycle_transition_def can_transition_def)
  have "reachable lc_init lc_op ?s0"
    by (rule reachable_start) (simp add: lc_init_def TaskLifecycle_post_init_def lc_default_def)
  then have "reachable lc_init lc_op s3"
    using s1(1) s2(1) s3(1) by (meson reachable_next lc_op.intros)
  with s3 show ?thesis by blast
qed

theorem lifecycle_invariant_witness:
  "\<exists>s. reachable lc_init lc_step s \<and> lc_state s = COMPLETED \<and> lc_inv s"
  using lifecycle_reaches_completed run_of_op lifecycle_invariant by blast

text \<open>
  C2: blocked, completed and skipped are absorbing: whatever operation succeeds on such a task
  returns the record unchanged.
\<close>

theorem lifecycle_terminal_absorbing:
  assumes "lc_terminal (lc_state s)" and "lc_step s t"
  shows "t = s"
proof -
  have neq: "lc_state s \<noteq> PENDING" "lc_state s \<noteq> RUNNING" "lc_state s \<noteq> FAILED"
    using assms(1) by (auto simp: lc_terminal_def)
  have "t = s" if "lc_op s t"
    using that
    by (cases rule: lc_op.cases)
       (use neq in \<open>simp_all add: lc_op_defs recover_orphan_def require_ready_def
          transition_terminal [OF assms(1)] split: if_splits\<close>)
  with assms show ?thesis using transition_terminal_arg [OF assms(1)] by (auto elim: lc_step.cases)
qed

theorem lifecycle_terminal_absorbing_witness:
  "\<exists>s. lc_terminal (lc_state s) \<and> lc_step s s \<and> (\<forall>t. lc_step s t \<longrightarrow> t = s)"
proof -
  let ?s = "(lc_default ''t1'' 1)\<lparr>lc_state := COMPLETED\<rparr>"
  have trm: "lc_terminal (lc_state ?s)" by (simp add: lc_terminal_def)
  have "lc_step ?s ?s" by (rule step_op [OF op_complete [of _ PNone PNone None]]) (simp add: complete_def)
  with trm lifecycle_terminal_absorbing [OF trm] show ?thesis by blast
qed

text \<open>
  The retry budget. In every reachable state fewer explicit retries than \<open>max_attempts\<close> have
  happened; a failed task whose attempts are used up, or whose failure was not retryable, cannot be
  retried, and a successful retry uses up one attempt.
\<close>

theorem retry_budget:
  assumes "reachable lc_init lc_op s"
  shows "int (explicit_retries s) < lc_max_attempts s
    \<and> (lc_state s = FAILED \<and> (lc_attempt s = lc_max_attempts s \<or> \<not> lc_retryable s) \<longrightarrow>
         retry s = Inl RetryExhausted)
    \<and> (\<forall>t. retry s = Inr t \<longrightarrow> lc_attempt t = lc_attempt s + 1 \<and> lc_attempt t \<le> lc_max_attempts t)"
proof (intro conjI allI impI)
  have inv: "lc_inv s" using assms by (rule lci.reachable_inv)
  then show "int (explicit_retries s) < lc_max_attempts s"
    by (cases "lc_attempt s = 0") (auto simp: lc_inv_def attempts_ok_def)
  show "lc_state s = FAILED \<and> (lc_attempt s = lc_max_attempts s \<or> \<not> lc_retryable s) \<Longrightarrow> retry s = Inl RetryExhausted"
    by (auto simp: retry_def)
  fix t
  assume r: "retry s = Inr t"
  then show "lc_attempt t = lc_attempt s + 1"
    by (auto simp: retry_def split: if_splits dest!: transition_InrD)
  from inv r have "lc_inv t" by (rule retry_inv)
  then show "lc_attempt t \<le> lc_max_attempts t" by (simp add: lc_inv_def attempts_ok_def)
qed

theorem retry_budget_witness:
  "\<exists>s. reachable lc_init lc_op s \<and> lc_max_attempts s = 2 \<and> explicit_retries s < 2"
proof -
  obtain s where s: "reachable lc_init lc_op s" "lc_max_attempts s = 2"
    using lifecycle_reaches_completed by blast
  with retry_budget [OF s(1)] show ?thesis by auto
qed

text \<open>
  C4: \<open>mark_ready\<close> is a second way out of failed. It succeeds on every failed task, whatever its
  attempt counter and its \<open>retryable\<close> flag say, consumes no attempt, and the task can then be
  started again. The comment above the transition table says that explicit retry is the only way.
\<close>

theorem mark_ready_leaves_failed:
  assumes "lc_state s = FAILED" and "1 \<le> lc_attempt s" and "agent \<noteq> []"
  shows "\<exists>t u. mark_ready s = Inr t \<and> lc_state t = READY \<and> lc_attempt t = lc_attempt s
    \<and> lc_start t agent now = Inr u \<and> lc_state u = RUNNING \<and> lc_attempt u = lc_attempt s"
  using assms
  by (cases now) (auto simp: mark_ready_def lc_start_def TaskLifecycle_transition_def can_transition_def Let_def)

theorem mark_ready_leaves_failed_witness:
  "\<exists>s t u. lc_state s = FAILED \<and> retry s = Inl RetryExhausted \<and> mark_ready s = Inr t
     \<and> lc_start t ''agent'' None = Inr u \<and> lc_state u = RUNNING"
proof -
  let ?s = "(lc_default ''t1'' 1)\<lparr>lc_state := FAILED, lc_attempt := 1\<rparr>"
  have "lc_state ?s = FAILED" "1 \<le> lc_attempt ?s" "''agent'' \<noteq> []" by simp_all
  from mark_ready_leaves_failed [OF this, of None]
  have "\<exists>t u. mark_ready ?s = Inr t \<and> lc_start t ''agent'' None = Inr u \<and> lc_state u = RUNNING" by blast
  moreover have "lc_state ?s = FAILED" "retry ?s = Inl RetryExhausted"
    by (simp_all add: retry_def lc_default_def)
  ultimately show ?thesis by blast
qed

text \<open>
  \<open>GatePolicy.require_ready\<close> on a pending task never raises: it makes the task ready exactly
  when every required gate has passed, and otherwise blocks it with a reason that lists exactly
  the required gates that have not passed, in their order; any other task is left alone.
\<close>

theorem require_ready_total:
  "\<exists>t. require_ready p s gs = Inr t
     \<and> (lc_state s \<noteq> PENDING \<longrightarrow> t = s)
     \<and> (lc_state s = PENDING \<and> (\<forall>g \<in> set (gp_required p). gate_lookup_passed gs g) \<longrightarrow> lc_state t = READY)
     \<and> (lc_state s = PENDING \<and> (\<exists>g \<in> set (gp_required p). \<not> gate_lookup_passed gs g) \<longrightarrow>
          lc_state t = BLOCKED \<and> lc_reason t = Some (''gate: '' @ join '', ''
            (filter (\<lambda>g. \<not> gate_lookup_passed gs g) (gp_required p))))"
proof (cases "lc_state s = PENDING")
  case False
  then show ?thesis by (simp add: require_ready_def)
next
  case True
  show ?thesis
  proof (cases "GatePolicy_allows p gs")
    case allow: True
    then have "\<forall>g \<in> set (gp_required p). gate_lookup_passed gs g"
      by (simp add: GatePolicy_allows_def list_all_iff)
    with True allow show ?thesis
      by (simp add: require_ready_def mark_ready_def TaskLifecycle_transition_def can_transition_def)
  next
    case deny: False
    then have "\<exists>g \<in> set (gp_required p). \<not> gate_lookup_passed gs g"
      by (simp add: GatePolicy_allows_def list_all_iff)
    moreover have "block s (''gate: '' @ r) = Inr (lc_move s BLOCKED (Some (''gate: '' @ r)))" for r
      using True gate_block_reason by (simp add: block_def TaskLifecycle_transition_def can_transition_def)
    ultimately show ?thesis
      using True deny by (simp add: require_ready_def GatePolicy_blocked_by_def)
  qed
qed

theorem require_ready_total_witness:
  "\<exists>t. require_ready \<lparr>gp_required = [''G1''], gp_allow_skipped = True\<rparr> (lc_default ''t1'' 1) (GateMap [])
     = Inr t \<and> lc_state t = BLOCKED \<and> lc_reason t = Some ''gate: G1''"
proof -
  let ?p = "\<lparr>gp_required = [''G1''], gp_allow_skipped = True\<rparr>"
  have "lc_state (lc_default ''t1'' 1) = PENDING" by (simp add: lc_default_def)
  moreover have "\<not> gate_lookup_passed (GateMap []) ''G1''"
    by (simp add: gate_lookup_passed_def gate_passed_def)
  ultimately show ?thesis
    using require_ready_total [of ?p "lc_default ''t1'' 1" "GateMap []"] by auto
qed

end
