(* ===== verification/GatewaySubscription.thy ===== *)
theory GatewaySubscription
  imports PyValue
begin

text \<open>
  The single-writer subscription store of \<open>scripts/pd_fleet/gateway_subscription.py\<close>: contiguous
  ingestion with retention, subscriptions with heartbeat-driven liveness, delivery through a
  per-subscriber outbox, acknowledgements that advance a cursor, and irreversible detachment. Every
  public method runs under one lock, so a run is a sequence of the operations below. Sequence
  numbers are integers, instants rational seconds.
\<close>

section \<open>Constants and data\<close>

definition HEARTBEAT_S :: rat where "HEARTBEAT_S = 30"
definition IDLE_TTL_S :: rat where "IDLE_TTL_S = 90"
definition GRACE_S :: rat where "GRACE_S = 60"
definition CURSOR_TTL_S :: rat where "CURSOR_TTL_S = 900"

datatype sub_code =
    INVALID_REQUEST | ASSOCIATION_REQUIRED | ASSOCIATION_STALE | CURSOR_STALE | CURSOR_EXPIRED
  | REPLAY_GAP | NO_NEW_EVENTS | READ_OK | INVALID_PROVENANCE

datatype sub_state = OBSERVING | RECONNECTING | STALE | DETACHED

record EventRecord =
  ev_sequence :: int
  ev_event_id :: string

record Subscription =
  sub_subscriber_ref :: string
  sub_association_ref :: string
  sub_stream_epoch :: string
  sub_boundary_ref :: string
  sub_snapshot_sequence :: int
  sub_cursor_seq :: int
  sub_cursor_issued_at :: rat
  sub_last_heartbeat_at :: rat
  sub_last_heartbeat_seq :: int
  sub_delivered_upto :: int
  sub_state :: sub_state

record ReadResult =
  rr_outcome :: sub_code
  rr_events :: "EventRecord list"
  rr_resync_required :: bool

record sub_store =
  gs_history :: "EventRecord list"
  gs_event_ids :: "int dict"
  gs_ingestion_cursor :: int
  gs_retention_floor :: int
  gs_subscriptions :: "Subscription dict"
  gs_outbox :: "int list dict"
  gs_tombstones :: "string list"
  gs_audit :: "(string \<times> sub_code) list"

definition GatewaySubscriptionStore_init :: sub_store where
  "GatewaySubscriptionStore_init = \<lparr>gs_history = [], gs_event_ids = [], gs_ingestion_cursor = 0,
     gs_retention_floor = 0, gs_subscriptions = [], gs_outbox = [], gs_tombstones = [], gs_audit = []\<rparr>"

section \<open>Operations\<close>

definition sub_audit :: "string \<Rightarrow> sub_code \<Rightarrow> sub_store \<Rightarrow> sub_store" where
  "sub_audit r c st = st\<lparr>gs_audit := gs_audit st @ [(r, c)]\<rparr>"

definition subscribe ::
  "sub_store \<Rightarrow> string \<Rightarrow> string \<Rightarrow> string \<Rightarrow> string \<Rightarrow> int \<Rightarrow> rat \<Rightarrow> sub_store \<times> Subscription option" where
  "subscribe st sref aref epoch bref snap now =
     (if sref = [] \<or> aref = [] \<or> epoch = [] \<or> bref = [] then (st, None)
      else if sref \<in> set (gs_tombstones st) then (st, None)
      else let sub = \<lparr>sub_subscriber_ref = sref, sub_association_ref = aref, sub_stream_epoch = epoch,
             sub_boundary_ref = bref, sub_snapshot_sequence = snap, sub_cursor_seq = snap,
             sub_cursor_issued_at = now, sub_last_heartbeat_at = now, sub_last_heartbeat_seq = 0,
             sub_delivered_upto = 0, sub_state = OBSERVING\<rparr>
           in (st\<lparr>gs_subscriptions := dset sref sub (gs_subscriptions st),
                  gs_outbox := dset sref [] (gs_outbox st)\<rparr>, Some sub))"

definition sub_append :: "sub_store \<Rightarrow> int \<Rightarrow> string \<Rightarrow> sub_store \<times> bool" where
  "sub_append st sequence eid =
     (if sequence \<noteq> gs_ingestion_cursor st + 1 then (st, False)
      else if sequence \<le> gs_retention_floor st then (st, False)
      else if dget (gs_event_ids st) eid \<noteq> None then (sub_audit eid INVALID_PROVENANCE st, False)
      else (st\<lparr>gs_history := gs_history st @ [\<lparr>ev_sequence = sequence, ev_event_id = eid\<rparr>],
              gs_event_ids := dset eid sequence (gs_event_ids st),
              gs_ingestion_cursor := sequence\<rparr>, True))"

definition prune :: "sub_store \<Rightarrow> int \<Rightarrow> sub_store" where
  "prune st up_to = (let fl = max (gs_retention_floor st) up_to in
     st\<lparr>gs_retention_floor := fl,
        gs_history := filter (\<lambda>e. ev_sequence e > fl) (gs_history st)\<rparr>)"

definition derive_state :: "Subscription \<Rightarrow> rat \<Rightarrow> Subscription" where
  "derive_state sub now = (let idle = now - sub_last_heartbeat_at sub;
     s1 = (if sub_state sub = OBSERVING \<and> idle > IDLE_TTL_S then RECONNECTING else sub_state sub);
     s2 = (if s1 = RECONNECTING \<and> idle > IDLE_TTL_S + GRACE_S then STALE else s1)
     in sub\<lparr>sub_state := s2\<rparr>)"

definition put_sub :: "string \<Rightarrow> Subscription \<Rightarrow> sub_store \<Rightarrow> sub_store" where
  "put_sub sref sub st = st\<lparr>gs_subscriptions := dset sref sub (gs_subscriptions st)\<rparr>"

definition heartbeat :: "sub_store \<Rightarrow> string \<Rightarrow> int \<Rightarrow> rat \<Rightarrow> sub_store \<times> bool" where
  "heartbeat st sref hseq now = (case dget (gs_subscriptions st) sref of
       None \<Rightarrow> (sub_audit sref ASSOCIATION_REQUIRED st, False)
     | Some sub \<Rightarrow>
         if sref \<in> set (gs_tombstones st) then (sub_audit sref ASSOCIATION_REQUIRED st, False)
         else let sub = derive_state sub now; st = put_sub sref sub st in
           if sub_state sub \<notin> {OBSERVING, RECONNECTING} then (sub_audit sref ASSOCIATION_STALE st, False)
           else if hseq \<le> sub_last_heartbeat_seq sub then (sub_audit sref INVALID_REQUEST st, False)
           else (put_sub sref (sub\<lparr>sub_last_heartbeat_seq := hseq, sub_last_heartbeat_at := now,
                   sub_state := (if sub_state sub = RECONNECTING then OBSERVING else sub_state sub)\<rparr>) st,
                 True))"

definition sub_evaluate :: "sub_store \<Rightarrow> string \<Rightarrow> rat \<Rightarrow> sub_store \<times> sub_state option" where
  "sub_evaluate st sref now = (case dget (gs_subscriptions st) sref of
       None \<Rightarrow> (st, None)
     | Some sub \<Rightarrow> let sub = derive_state sub now in (put_sub sref sub st, Some (sub_state sub)))"

definition sub_deny :: "string \<Rightarrow> sub_code \<Rightarrow> bool \<Rightarrow> sub_store \<Rightarrow> sub_store \<times> ReadResult" where
  "sub_deny sref code resync st =
     (sub_audit sref code st, \<lparr>rr_outcome = code, rr_events = [], rr_resync_required = resync\<rparr>)"

fun outbox_add :: "int list \<Rightarrow> EventRecord list \<Rightarrow> int list" where
  "outbox_add ob [] = ob"
| "outbox_add ob (e # es) =
     outbox_add (if ev_sequence e \<in> set ob then ob else ob @ [ev_sequence e]) es"

definition sub_read :: "sub_store \<Rightarrow> string \<Rightarrow> string \<Rightarrow> rat \<Rightarrow> sub_store \<times> ReadResult" where
  "sub_read st sref epoch now = (case dget (gs_subscriptions st) sref of
       None \<Rightarrow> sub_deny sref ASSOCIATION_REQUIRED False st
     | Some sub \<Rightarrow>
         if sref \<in> set (gs_tombstones st) then sub_deny sref ASSOCIATION_REQUIRED False st
         else if epoch \<noteq> sub_stream_epoch sub then sub_deny sref CURSOR_STALE True st
         else let sub = derive_state sub now; st = put_sub sref sub st in
           if sub_state sub = STALE then sub_deny sref ASSOCIATION_STALE False st
           else if now - sub_cursor_issued_at sub > CURSOR_TTL_S then sub_deny sref CURSOR_EXPIRED True st
           else if sub_cursor_seq sub < gs_retention_floor st then sub_deny sref REPLAY_GAP True st
           else let events = filter (\<lambda>e. ev_sequence e > sub_cursor_seq sub) (gs_history st) in
             if events = [] then (st, \<lparr>rr_outcome = NO_NEW_EVENTS, rr_events = [], rr_resync_required = False\<rparr>)
             else let outbox = outbox_add (dget_or (gs_outbox st) sref []) events;
                      sub = sub\<lparr>sub_delivered_upto := max (sub_delivered_upto sub) (ev_sequence (last events))\<rparr>
                  in ((put_sub sref sub st)\<lparr>gs_outbox := dset sref outbox (gs_outbox st)\<rparr>,
                      \<lparr>rr_outcome = READ_OK, rr_events = events, rr_resync_required = False\<rparr>))"

text \<open>The loop of \<open>ack\<close>: the cursor moves on until it meets a pending sequence number.\<close>

function advance :: "int list \<Rightarrow> int \<Rightarrow> int \<Rightarrow> int" where
  "advance ob delivered cursor =
     (if cursor < delivered \<and> cursor + 1 \<notin> set ob then advance ob delivered (cursor + 1) else cursor)"
  by pat_completeness auto
termination
  by (relation "measure (\<lambda>(ob, delivered, cursor). nat (delivered - cursor))") auto

declare advance.simps [simp del]

definition ack :: "sub_store \<Rightarrow> string \<Rightarrow> int \<Rightarrow> sub_store \<times> bool" where
  "ack st sref sequence = (case (dget (gs_subscriptions st) sref, dget (gs_outbox st) sref) of
       (Some sub, Some ob) \<Rightarrow>
         if sref \<in> set (gs_tombstones st) then (sub_audit sref ASSOCIATION_REQUIRED st, False)
         else if sequence \<notin> set ob then (sub_audit sref INVALID_REQUEST st, False)
         else let ob = remove1 sequence ob;
                  sub = sub\<lparr>sub_cursor_seq := advance ob (sub_delivered_upto sub) (sub_cursor_seq sub)\<rparr>
              in ((put_sub sref sub st)\<lparr>gs_outbox := dset sref ob (gs_outbox st)\<rparr>, True)
     | _ \<Rightarrow> (sub_audit sref ASSOCIATION_REQUIRED st, False))"

definition pending :: "sub_store \<Rightarrow> string \<Rightarrow> int list" where
  "pending st sref = dget_or (gs_outbox st) sref []"

definition detach :: "sub_store \<Rightarrow> string \<Rightarrow> sub_store \<times> bool" where
  "detach st sref = (case dget (gs_subscriptions st) sref of
       None \<Rightarrow> (st, False)
     | Some sub \<Rightarrow> ((put_sub sref (sub\<lparr>sub_state := DETACHED\<rparr>) st)
         \<lparr>gs_tombstones := List.insert sref (gs_tombstones st),
           gs_outbox := dset sref [] (gs_outbox st)\<rparr>, True))"

section \<open>Runs with a ghost record of acknowledgements\<close>

text \<open>
  The second component of a configuration records, for each subscriber reference, the sequence
  numbers whose acknowledgement succeeded since its last subscription. It has no counterpart in
  the code and no operation reads it.
\<close>

type_synonym sub_config = "sub_store \<times> (string \<Rightarrow> int set)"

definition sub_init :: "sub_config \<Rightarrow> bool" where
  "sub_init c \<longleftrightarrow> c = (GatewaySubscriptionStore_init, \<lambda>_. {})"

inductive sub_step :: "sub_config \<Rightarrow> sub_config \<Rightarrow> bool" where
  do_subscribe: "subscribe st sref aref ep bref snap now = (st', r) \<Longrightarrow>
     sub_step (st, g) (st', if r = None then g else g(sref := {}))"
| do_append: "sub_append st sq eid = (st', ok) \<Longrightarrow> sub_step (st, g) (st', g)"
| do_prune: "prune st up = st' \<Longrightarrow> sub_step (st, g) (st', g)"
| do_heartbeat: "heartbeat st sref hs now = (st', ok) \<Longrightarrow> sub_step (st, g) (st', g)"
| do_evaluate: "sub_evaluate st sref now = (st', r) \<Longrightarrow> sub_step (st, g) (st', g)"
| do_read: "sub_read st sref ep now = (st', res) \<Longrightarrow> sub_step (st, g) (st', g)"
| do_ack: "ack st sref sq = (st', ok) \<Longrightarrow>
     sub_step (st, g) (st', if ok then g(sref := insert sq (g sref)) else g)"
| do_detach: "detach st sref = (st', ok) \<Longrightarrow> sub_step (st, g) (st', g)"

definition hist_ok :: "sub_store \<Rightarrow> bool" where
  "hist_ok st \<longleftrightarrow> 0 \<le> gs_retention_floor st \<and> 0 \<le> gs_ingestion_cursor st
     \<and> map ev_sequence (gs_history st) = [gs_retention_floor st + 1..gs_ingestion_cursor st]
     \<and> (\<forall>e \<in> set (gs_history st). dget (gs_event_ids st) (ev_event_id e) = Some (ev_sequence e))
     \<and> (\<forall>a b n. dget (gs_event_ids st) a = Some n \<and> dget (gs_event_ids st) b = Some n \<longrightarrow> a = b)
     \<and> (\<forall>a n. dget (gs_event_ids st) a = Some n \<longrightarrow> 1 \<le> n \<and> n \<le> gs_ingestion_cursor st)"

definition outbox_ok :: "Subscription \<Rightarrow> int list \<Rightarrow> int set \<Rightarrow> bool" where
  "outbox_ok sub ob acked \<longleftrightarrow> distinct ob
     \<and> (\<forall>k \<in> set ob. sub_cursor_seq sub < k \<and> k \<le> sub_delivered_upto sub)
     \<and> (0 \<le> sub_cursor_seq sub \<or> ob = [])
     \<and> (\<forall>k. sub_cursor_seq sub < k \<and> 1 \<le> k \<and> k \<le> sub_delivered_upto sub \<longrightarrow> k \<in> set ob \<or> k \<in> acked)"

definition sub_ok :: "sub_store \<Rightarrow> (string \<Rightarrow> int set) \<Rightarrow> string \<Rightarrow> Subscription \<Rightarrow> bool" where
  "sub_ok st g sref sub \<longleftrightarrow>
     0 \<le> sub_delivered_upto sub \<and> sub_delivered_upto sub \<le> gs_ingestion_cursor st
     \<and> sub_snapshot_sequence sub \<le> sub_cursor_seq sub
     \<and> (\<forall>k. sub_snapshot_sequence sub < k \<and> k \<le> sub_cursor_seq sub \<longrightarrow> k \<in> g sref)
     \<and> (sref \<notin> set (gs_tombstones st) \<longrightarrow>
          (\<exists>ob. dget (gs_outbox st) sref = Some ob \<and> outbox_ok sub ob (g sref)))
     \<and> (sref \<in> set (gs_tombstones st) \<longrightarrow> sub_state sub = DETACHED \<and> dget (gs_outbox st) sref = Some [])"

definition sub_inv :: "sub_config \<Rightarrow> bool" where
  "sub_inv c \<longleftrightarrow> hist_ok (fst c)
     \<and> (\<forall>sref sub. dget (gs_subscriptions (fst c)) sref = Some sub \<longrightarrow> sub_ok (fst c) (snd c) sref sub)
     \<and> (\<forall>sref \<in> set (gs_tombstones (fst c)). dget (gs_subscriptions (fst c)) sref \<noteq> None)"

section \<open>Lemmas\<close>

lemma advance_spec:
  "cursor \<le> advance ob d cursor
   \<and> (advance ob d cursor = cursor \<or> advance ob d cursor \<le> d)
   \<and> (\<forall>k. cursor < k \<and> k \<le> advance ob d cursor \<longrightarrow> k \<notin> set ob)
   \<and> (d \<le> advance ob d cursor \<or> advance ob d cursor + 1 \<in> set ob)"
proof (induction ob d cursor rule: advance.induct)
  case (1 ob d cursor)
  show ?case
  proof (cases "cursor < d \<and> cursor + 1 \<notin> set ob")
    case True
    with 1 have IH: "cursor + 1 \<le> advance ob d (cursor + 1)"
      "advance ob d (cursor + 1) = cursor + 1 \<or> advance ob d (cursor + 1) \<le> d"
      "\<forall>k. cursor + 1 < k \<and> k \<le> advance ob d (cursor + 1) \<longrightarrow> k \<notin> set ob"
      "d \<le> advance ob d (cursor + 1) \<or> advance ob d (cursor + 1) + 1 \<in> set ob"
      by auto
    have "k \<notin> set ob" if "cursor < k" "k \<le> advance ob d (cursor + 1)" for k
      using that IH(3) True by (cases "k = cursor + 1") auto
    with IH True show ?thesis by (subst (1 2 3 4 5 6) advance.simps) auto
  next
    case False
    then have "advance ob d cursor = cursor" by (subst advance.simps) auto
    with False show ?thesis by auto
  qed
qed

lemma set_outbox_add: "set (outbox_add ob es) = set ob \<union> ev_sequence ` set es"
  by (induction es arbitrary: ob) auto

lemma distinct_outbox_add: "distinct ob \<Longrightarrow> distinct (outbox_add ob es)"
  by (induction es arbitrary: ob) auto

lemma derive_state_sel [simp]:
  "sub_cursor_seq (derive_state sub now) = sub_cursor_seq sub"
  "sub_delivered_upto (derive_state sub now) = sub_delivered_upto sub"
  "sub_snapshot_sequence (derive_state sub now) = sub_snapshot_sequence sub"
  "sub_cursor_issued_at (derive_state sub now) = sub_cursor_issued_at sub"
  "sub_stream_epoch (derive_state sub now) = sub_stream_epoch sub"
  "sub_last_heartbeat_seq (derive_state sub now) = sub_last_heartbeat_seq sub"
  "sub_last_heartbeat_at (derive_state sub now) = sub_last_heartbeat_at sub"
  by (simp_all add: derive_state_def Let_def)

lemma derive_state_DETACHED [simp]: "sub_state sub = DETACHED \<Longrightarrow> sub_state (derive_state sub now) = DETACHED"
  by (simp add: derive_state_def Let_def)

lemma sub_audit_sel [simp]:
  "gs_history (sub_audit r c st) = gs_history st" "gs_event_ids (sub_audit r c st) = gs_event_ids st"
  "gs_ingestion_cursor (sub_audit r c st) = gs_ingestion_cursor st"
  "gs_retention_floor (sub_audit r c st) = gs_retention_floor st"
  "gs_subscriptions (sub_audit r c st) = gs_subscriptions st"
  "gs_outbox (sub_audit r c st) = gs_outbox st" "gs_tombstones (sub_audit r c st) = gs_tombstones st"
  by (simp_all add: sub_audit_def)

lemma put_sub_sel [simp]:
  "gs_history (put_sub sref sub st) = gs_history st" "gs_event_ids (put_sub sref sub st) = gs_event_ids st"
  "gs_ingestion_cursor (put_sub sref sub st) = gs_ingestion_cursor st"
  "gs_retention_floor (put_sub sref sub st) = gs_retention_floor st"
  "gs_subscriptions (put_sub sref sub st) = dset sref sub (gs_subscriptions st)"
  "gs_outbox (put_sub sref sub st) = gs_outbox st" "gs_tombstones (put_sub sref sub st) = gs_tombstones st"
  by (simp_all add: put_sub_def)

lemma hist_ok_cong:
  "gs_history t = gs_history st \<Longrightarrow> gs_event_ids t = gs_event_ids st \<Longrightarrow>
   gs_ingestion_cursor t = gs_ingestion_cursor st \<Longrightarrow> gs_retention_floor t = gs_retention_floor st \<Longrightarrow>
   hist_ok t = hist_ok st"
  by (simp add: hist_ok_def)

lemma sub_audit_inv [simp]: "sub_inv (sub_audit r c st, g) = sub_inv (st, g)"
  using hist_ok_cong [of "sub_audit r c st" st] by (simp add: sub_inv_def sub_ok_def)

text \<open>Changing one subscription keeps the invariant when the new record is fine for its reference.\<close>

lemma sub_inv_change:
  assumes inv: "sub_inv (st, g)" and known: "dget (gs_subscriptions st) sref \<noteq> None"
    and frame: "gs_history t = gs_history st" "gs_event_ids t = gs_event_ids st"
      "gs_ingestion_cursor t = gs_ingestion_cursor st" "gs_retention_floor t = gs_retention_floor st"
    and subs: "gs_subscriptions t = dset sref sub (gs_subscriptions st)"
    and boxes: "\<And>r. r \<noteq> sref \<Longrightarrow> dget (gs_outbox t) r = dget (gs_outbox st) r"
    and tombs: "\<And>r. r \<noteq> sref \<Longrightarrow> r \<in> set (gs_tombstones t) \<longleftrightarrow> r \<in> set (gs_tombstones st)"
    and ghost: "\<And>r. r \<noteq> sref \<Longrightarrow> g' r = g r"
    and ok: "sub_ok t g' sref sub"
  shows "sub_inv (t, g')"
proof -
  have "hist_ok t" using inv hist_ok_cong [OF frame] by (simp add: sub_inv_def)
  moreover have "sub_ok t g' r s" if "dget (gs_subscriptions t) r = Some s" for r s
  proof (cases "r = sref")
    case True
    with that ok subs show ?thesis by (simp add: dict_simps)
  next
    case False
    then have "sub_ok st g r s" using that inv subs by (simp add: sub_inv_def dict_simps)
    with False boxes tombs ghost frame show ?thesis by (simp add: sub_ok_def)
  qed
  moreover have "dget (gs_subscriptions t) r \<noteq> None" if "r \<in> set (gs_tombstones t)" for r
    using that inv known subs tombs by (cases "r = sref") (auto simp: sub_inv_def dict_simps)
  ultimately show ?thesis by (simp add: sub_inv_def)
qed

lemma sub_invD:
  "sub_inv (st, g) \<Longrightarrow> dget (gs_subscriptions st) sref = Some sub \<Longrightarrow> sub_ok st g sref sub"
  "sub_inv (st, g) \<Longrightarrow> hist_ok st"
  by (simp_all add: sub_inv_def)

lemma put_sub_inv:
  assumes inv: "sub_inv (st, g)" and old: "dget (gs_subscriptions st) sref = Some sub"
    and same: "sub_cursor_seq sub' = sub_cursor_seq sub" "sub_delivered_upto sub' = sub_delivered_upto sub"
      "sub_snapshot_sequence sub' = sub_snapshot_sequence sub"
    and det: "sub_state sub = DETACHED \<Longrightarrow> sub_state sub' = DETACHED"
  shows "sub_inv (put_sub sref sub' st, g)"
  by (rule sub_inv_change [OF inv, where sref = sref and sub = sub'])
     (use old sub_invD(1) [OF inv old] same det in \<open>auto simp: sub_ok_def outbox_ok_def\<close>)

lemma heartbeat_inv [step_inv]: "sub_inv (st, g) \<Longrightarrow> heartbeat st sref hs now = (st', ok) \<Longrightarrow> sub_inv (st', g)"
  by (auto simp: heartbeat_def Let_def dict_simps split: option.splits if_splits
      intro!: put_sub_inv)

lemma sub_evaluate_inv [step_inv]: "sub_inv (st, g) \<Longrightarrow> sub_evaluate st sref now = (st', r) \<Longrightarrow> sub_inv (st', g)"
  by (auto simp: sub_evaluate_def Let_def split: option.splits intro!: put_sub_inv)

lemma sub_append_inv [step_inv]:
  assumes inv: "sub_inv (st, g)" and app: "sub_append st sq eid = (st', ok)"
  shows "sub_inv (st', g)"
proof (cases ok)
  case False
  with app inv show ?thesis by (auto simp: sub_append_def split: if_splits)
next
  case True
  let ?t = "st\<lparr>gs_history := gs_history st @ [\<lparr>ev_sequence = sq, ev_event_id = eid\<rparr>],
    gs_event_ids := dset eid sq (gs_event_ids st), gs_ingestion_cursor := sq\<rparr>"
  from True app have sq: "sq = gs_ingestion_cursor st + 1" "gs_retention_floor st < sq"
    and new: "dget (gs_event_ids st) eid = None" and st': "st' = ?t"
    by (auto simp: sub_append_def split: if_splits)
  from inv have h: "hist_ok st" by (rule sub_invD)
  have old: "n \<noteq> sq" if "dget (gs_event_ids st) a = Some n" for a n
  proof -
    have "n \<le> gs_ingestion_cursor st" using that h unfolding hist_ok_def by blast
    with sq show ?thesis by simp
  qed
  have "hist_ok ?t"
    unfolding hist_ok_def
  proof (intro conjI)
    have "[gs_retention_floor st + 1..sq] = [gs_retention_floor st + 1..gs_ingestion_cursor st] @ [sq]"
      using sq upto_rec2 [of "gs_retention_floor st + 1" sq] by simp
    then show "map ev_sequence (gs_history ?t) = [gs_retention_floor ?t + 1..gs_ingestion_cursor ?t]"
      using h by (simp add: hist_ok_def)
    show "\<forall>e \<in> set (gs_history ?t). dget (gs_event_ids ?t) (ev_event_id e) = Some (ev_sequence e)"
      using h new by (auto simp: hist_ok_def dict_simps)
    show "\<forall>a b n. dget (gs_event_ids ?t) a = Some n \<and> dget (gs_event_ids ?t) b = Some n \<longrightarrow> a = b"
    proof (intro allI impI)
      fix a b n
      assume ab: "dget (gs_event_ids ?t) a = Some n \<and> dget (gs_event_ids ?t) b = Some n"
      have "dget (gs_event_ids st) a = Some n \<Longrightarrow> dget (gs_event_ids st) b = Some n \<Longrightarrow> a = b"
        using h unfolding hist_ok_def by blast
      with ab old [of a n] old [of b n] show "a = b" by (simp add: dict_simps split: if_splits)
    qed
    show "\<forall>a n. dget (gs_event_ids ?t) a = Some n \<longrightarrow> 1 \<le> n \<and> n \<le> gs_ingestion_cursor ?t"
    proof (intro allI impI)
      fix a n
      assume a: "dget (gs_event_ids ?t) a = Some n"
      have "dget (gs_event_ids st) a = Some n \<Longrightarrow> 1 \<le> n \<and> n \<le> gs_ingestion_cursor st"
        using h unfolding hist_ok_def by blast
      moreover have "0 \<le> gs_ingestion_cursor st" using h unfolding hist_ok_def by blast
      ultimately show "1 \<le> n \<and> n \<le> gs_ingestion_cursor ?t"
        using a sq by (auto simp: dict_simps split: if_splits)
    qed
  qed (use h sq in \<open>simp_all add: hist_ok_def\<close>)
  moreover have "sub_ok ?t g r s" if "dget (gs_subscriptions st) r = Some s" for r s
    using sub_invD(1) [OF inv that] sq by (auto simp: sub_ok_def)
  ultimately show ?thesis using inv st' by (simp add: sub_inv_def)
qed

lemma filter_upto: "filter (\<lambda>k. c < k) [a..b] = [max a (c + 1)..b::int]"
proof (induction "nat (b - a + 1)" arbitrary: a)
  case 0
  then show ?case by simp
next
  case (Suc n)
  then have "a \<le> b" "n = nat (b - (a + 1) + 1)" by simp_all
  with Suc.hyps(1) [of "a + 1"] have "filter (\<lambda>k. c < k) [a + 1..b] = [max (a + 1) (c + 1)..b]" by simp
  moreover have "max a (c + 1) = (if c < a then a else max (a + 1) (c + 1))"
    and "c < a \<Longrightarrow> max (a + 1) (c + 1) = a + 1" by auto
  ultimately show ?case using \<open>a \<le> b\<close> by (simp add: upto_rec1 [of a b])
qed

lemma map_filter_history:
  "map ev_sequence (filter (\<lambda>e. c < ev_sequence e) es) = filter (\<lambda>k. c < k) (map ev_sequence es)"
  by (induction es) auto

lemma prune_inv [step_inv]: "sub_inv (st, g) \<Longrightarrow> prune st up = st' \<Longrightarrow> sub_inv (st', g)"
  by (auto simp: sub_inv_def prune_def Let_def hist_ok_def sub_ok_def map_filter_history filter_upto max_def)

lemma history_above:
  assumes "hist_ok st" and "gs_retention_floor st \<le> c"
  shows "map ev_sequence (filter (\<lambda>e. c < ev_sequence e) (gs_history st)) = [c + 1..gs_ingestion_cursor st]"
  using assms by (simp add: hist_ok_def map_filter_history filter_upto max_def)

lemma history_above_last:
  assumes "hist_ok st" and "gs_retention_floor st \<le> c"
    and "filter (\<lambda>e. c < ev_sequence e) (gs_history st) \<noteq> []"
  shows "ev_sequence (last (filter (\<lambda>e. c < ev_sequence e) (gs_history st))) = gs_ingestion_cursor st"
    and "c < gs_ingestion_cursor st"
proof -
  let ?es = "filter (\<lambda>e. c < ev_sequence e) (gs_history st)"
  have m: "map ev_sequence ?es = [c + 1..gs_ingestion_cursor st]" by (rule history_above [OF assms(1,2)])
  with assms(3) have ne: "[c + 1..gs_ingestion_cursor st] \<noteq> []" by (metis map_is_Nil_conv)
  then show lt: "c < gs_ingestion_cursor st" by simp
  have "ev_sequence (last ?es) = last (map ev_sequence ?es)" using assms(3) by (rule last_map [symmetric])
  also have "\<dots> = gs_ingestion_cursor st"
    unfolding m using lt by (subst upto_rec2) simp_all
  finally show "ev_sequence (last ?es) = gs_ingestion_cursor st" .
qed

lemma subscribe_inv [step_inv]:
  assumes inv: "sub_inv (st, g)" and sb: "subscribe st sref aref ep bref snap now = (st', r)"
  shows "sub_inv (st', if r = None then g else g(sref := {}))"
proof (cases r)
  case None
  with sb have "st' = st" by (auto simp: subscribe_def Let_def split: if_splits)
  with inv None show ?thesis by simp
next
  case (Some sub)
  from sb Some have fresh: "sref \<notin> set (gs_tombstones st)"
    and st': "st' = st\<lparr>gs_subscriptions := dset sref sub (gs_subscriptions st),
                gs_outbox := dset sref [] (gs_outbox st)\<rparr>"
    and sub: "sub_snapshot_sequence sub = snap" "sub_cursor_seq sub = snap" "sub_delivered_upto sub = 0"
    by (auto simp: subscribe_def Let_def split: if_splits)
  have hist: "hist_ok st'" using sub_invD(2) [OF inv] hist_ok_cong [of st' st] st' by simp
  have "sub_ok st' (g(sref := {})) r' s" if get: "dget (gs_subscriptions st') r' = Some s" for r' s
  proof (cases "r' = sref")
    case True
    then show ?thesis
      using get st' sub fresh hist by (simp add: sub_ok_def outbox_ok_def dict_simps hist_ok_def)
  next
    case False
    then have "sub_ok st g r' s" using get st' sub_invD(1) [OF inv] by (simp add: dict_simps)
    with False st' show ?thesis by (simp add: sub_ok_def dict_simps)
  qed
  then show ?thesis using hist inv st' Some by (auto simp: sub_inv_def dict_simps)
qed

lemma sub_read_inv [step_inv]:
  assumes inv: "sub_inv (st, g)" and rd: "sub_read st sref ep now = (st', res)"
  shows "sub_inv (st', g)"
proof (cases "rr_outcome res = READ_OK")
  case False
  with rd inv show ?thesis
    by (auto simp: sub_read_def sub_deny_def Let_def split: option.splits if_splits intro!: put_sub_inv)
next
  case True
  from rd True obtain sub where old: "dget (gs_subscriptions st) sref = Some sub"
    by (auto simp: sub_read_def sub_deny_def split: option.splits)
  let ?sub = "derive_state sub now"
  let ?es = "filter (\<lambda>e. sub_cursor_seq sub < ev_sequence e) (gs_history st)"
  let ?new = "?sub\<lparr>sub_delivered_upto := max (sub_delivered_upto sub) (ev_sequence (last ?es))\<rparr>"
  let ?ob = "outbox_add (dget_or (gs_outbox st) sref []) ?es"
  from rd True old have live: "sref \<notin> set (gs_tombstones st)"
    and floor: "gs_retention_floor st \<le> sub_cursor_seq sub" and ne: "?es \<noteq> []"
    and st': "st' = (put_sub sref ?new (put_sub sref ?sub st))\<lparr>gs_outbox := dset sref ?ob (gs_outbox st)\<rparr>"
    by (auto simp: sub_read_def sub_deny_def Let_def split: if_splits)
  from inv have hist: "hist_ok st" by (rule sub_invD)
  note last_es = history_above_last [OF hist floor ne]
  have keys: "ev_sequence ` set ?es = {sub_cursor_seq sub + 1..gs_ingestion_cursor st}"
    using history_above [OF hist floor] by (metis list.set_map set_upto)
  from inv have "sub_inv (put_sub sref ?sub st, g)" by (rule put_sub_inv [OF _ old]) simp_all
  then show ?thesis
  proof (rule sub_inv_change [where sref = sref and sub = ?new])
    from sub_invD(1) [OF inv old] live obtain ob where ob: "dget (gs_outbox st) sref = Some ob"
      and obk: "outbox_ok sub ob (g sref)" by (auto simp: sub_ok_def)
    have "0 \<le> sub_cursor_seq sub" using floor hist by (simp add: hist_ok_def)
    then have "outbox_ok ?new ?ob (g sref)"
      using obk ob keys last_es sub_invD(1) [OF inv old]
      by (auto simp: outbox_ok_def sub_ok_def set_outbox_add dget_or_def intro: distinct_outbox_add)
    then show "sub_ok st' g sref ?new"
      using sub_invD(1) [OF inv old] live last_es st' by (auto simp: sub_ok_def dict_simps)
  qed (use st' in \<open>simp_all add: dict_simps\<close>)
qed

lemma ack_inv [step_inv]:
  assumes inv: "sub_inv (st, g)" and ak: "ack st sref sq = (st', ok)"
  shows "sub_inv (st', if ok then g(sref := insert sq (g sref)) else g)"
proof (cases ok)
  case False
  with ak inv show ?thesis by (auto simp: ack_def Let_def split: option.splits if_splits)
next
  case True
  with ak obtain sub ob where old: "dget (gs_subscriptions st) sref = Some sub"
    and box: "dget (gs_outbox st) sref = Some ob" and live: "sref \<notin> set (gs_tombstones st)"
    and pend: "sq \<in> set ob"
    by (auto simp: ack_def Let_def split: option.splits if_splits)
  let ?ob = "remove1 sq ob"
  let ?c = "advance ?ob (sub_delivered_upto sub) (sub_cursor_seq sub)"
  let ?new = "sub\<lparr>sub_cursor_seq := ?c\<rparr>"
  from True ak old box live pend
  have st': "st' = (put_sub sref ?new st)\<lparr>gs_outbox := dset sref ?ob (gs_outbox st)\<rparr>"
    by (simp add: ack_def Let_def)
  from sub_invD(1) [OF inv old] live box have sok: "sub_ok st g sref sub" and obk: "outbox_ok sub ob (g sref)"
    by (auto simp: sub_ok_def)
  note adv = advance_spec [of "sub_cursor_seq sub" ?ob "sub_delivered_upto sub"]
  have rest: "set ?ob = set ob - {sq}" using obk by (simp add: outbox_ok_def)
  have c0: "0 \<le> sub_cursor_seq sub" using obk pend by (auto simp: outbox_ok_def)
  have passed: "k \<in> insert sq (g sref)" if "sub_cursor_seq sub < k" "k \<le> ?c" for k
  proof -
    from that adv have "k \<le> sub_delivered_upto sub" "k \<notin> set ?ob" by auto
    with that c0 obk rest show ?thesis by (auto simp: outbox_ok_def)
  qed
  have new_ok: "outbox_ok ?new ?ob (insert sq (g sref))"
  proof -
    have "?c < k" if "k \<in> set ?ob" for k
      using that adv obk rest by (metis Diff_iff linorder_not_le outbox_ok_def)
    moreover have "k \<in> set ?ob \<or> k \<in> insert sq (g sref)" if "?c < k" "k \<le> sub_delivered_upto sub" for k
    proof -
      have "sub_cursor_seq sub < k" "1 \<le> k" using that adv c0 by linarith+
      with that obk rest show ?thesis by (auto simp: outbox_ok_def)
    qed
    moreover have "0 \<le> ?c" using adv c0 by linarith
    ultimately show ?thesis using obk rest by (simp add: outbox_ok_def)
  qed
  have "sub_ok st' (g(sref := insert sq (g sref))) sref ?new"
    using sok new_ok passed live adv st' unfolding sub_ok_def
    by (auto simp: dict_simps) (metis linorder_not_le)+
  then have "sub_inv (st', g(sref := insert sq (g sref)))"
    by (intro sub_inv_change [OF inv, where sref = sref and sub = ?new])
       (use old st' in \<open>simp_all add: dict_simps\<close>)
  with True show ?thesis by simp
qed

lemma detach_inv [step_inv]:
  assumes inv: "sub_inv (st, g)" and dt: "detach st sref = (st', ok)"
  shows "sub_inv (st', g)"
proof (cases "dget (gs_subscriptions st) sref")
  case None
  with dt inv show ?thesis by (simp add: detach_def)
next
  case (Some sub)
  with dt have st': "st' = (put_sub sref (sub\<lparr>sub_state := DETACHED\<rparr>) st)
     \<lparr>gs_tombstones := List.insert sref (gs_tombstones st), gs_outbox := dset sref [] (gs_outbox st)\<rparr>"
    by (simp add: detach_def)
  show ?thesis
    by (rule sub_inv_change [OF inv, where sref = sref and sub = "sub\<lparr>sub_state := DETACHED\<rparr>"])
       (use Some st' sub_invD(1) [OF inv Some] in \<open>simp_all add: sub_ok_def dict_simps\<close>)
qed

lemma sub_init_inv: "sub_init c \<Longrightarrow> sub_inv c"
  by (simp add: sub_init_def sub_inv_def GatewaySubscriptionStore_init_def hist_ok_def)

interpretation gsi: invariant_system sub_init sub_step sub_inv
proof
  show "sub_init s \<Longrightarrow> sub_inv s" for s by (rule sub_init_inv)
  show "sub_inv s \<Longrightarrow> sub_step s t \<Longrightarrow> sub_inv t" for s t
    by (rotate_tac, induction rule: sub_step.induct) (rule step_inv; assumption)+
qed

lemma hist_ok_distinct_ids: "hist_ok st \<Longrightarrow> distinct (map ev_event_id (gs_history st))"
proof -
  assume h: "hist_ok st"
  then have "distinct (map ev_sequence (gs_history st))" by (simp add: hist_ok_def)
  then have "distinct (gs_history st)" and inj: "inj_on ev_sequence (set (gs_history st))"
    by (simp_all add: distinct_map)
  have "inj_on ev_event_id (set (gs_history st))"
  proof (rule inj_onI)
    fix x y
    assume xy: "x \<in> set (gs_history st)" "y \<in> set (gs_history st)" "ev_event_id x = ev_event_id y"
    have "dget (gs_event_ids st) (ev_event_id e) = Some (ev_sequence e)" if "e \<in> set (gs_history st)" for e
      using h that unfolding hist_ok_def by blast
    from this [OF xy(1)] this [OF xy(2)] xy(3) have "ev_sequence x = ev_sequence y" by simp
    with inj xy show "x = y" by (auto dest: inj_onD)
  qed
  with \<open>distinct (gs_history st)\<close> show ?thesis by (simp add: distinct_map)
qed

lemma tombstones_grow:
  "sub_step c c' \<Longrightarrow> sref \<in> set (gs_tombstones (fst c)) \<Longrightarrow> sref \<in> set (gs_tombstones (fst c'))"
  by (induction rule: sub_step.induct)
     (auto simp: subscribe_def sub_append_def prune_def heartbeat_def sub_evaluate_def sub_read_def
        sub_deny_def ack_def detach_def Let_def split: option.splits if_splits)

lemma tombstoned_ops:
  assumes "sref \<in> set (gs_tombstones st)"
  shows "snd (subscribe st sref aref ep bref snap now) = None"
    and "snd (heartbeat st sref hs now) = False"
    and "rr_outcome (snd (sub_read st sref ep now)) = ASSOCIATION_REQUIRED \<and> rr_events (snd (sub_read st sref ep now)) = []"
    and "snd (ack st sref sq) = False"
  using assms
  by (auto simp: subscribe_def heartbeat_def sub_read_def sub_deny_def ack_def Let_def split: option.splits)

definition wedged :: "int \<Rightarrow> sub_config \<Rightarrow> bool" where
  "wedged n c \<longleftrightarrow> gs_ingestion_cursor (fst c) = n \<and> n < gs_retention_floor (fst c)"

lemma wedged_append: "gs_ingestion_cursor st < gs_retention_floor st \<Longrightarrow> snd (sub_append st sq eid) = False"
  by (simp add: sub_append_def)

interpretation gsw: invariant_system "\<lambda>_. False" sub_step "wedged n" for n
proof
  show "wedged n s \<Longrightarrow> sub_step s t \<Longrightarrow> wedged n t" for s t
    by (rotate_tac, induction rule: sub_step.induct)
       (auto simp: wedged_def subscribe_def sub_append_def prune_def heartbeat_def sub_evaluate_def
          sub_read_def sub_deny_def ack_def detach_def Let_def split: option.splits if_splits)
qed simp

section \<open>Properties\<close>

text \<open>
  C3: in every run the retained history is gapless: its sequence numbers are exactly those above
  the retention floor up to the ingestion cursor, in order, and no two events share an id.
\<close>

theorem stream_contiguous:
  "reachable sub_init sub_step c \<Longrightarrow>
     map ev_sequence (gs_history (fst c)) = [gs_retention_floor (fst c) + 1..gs_ingestion_cursor (fst c)]
     \<and> distinct (map ev_event_id (gs_history (fst c)))"
  by (drule gsi.reachable_inv) (simp add: sub_inv_def hist_ok_def hist_ok_distinct_ids)

text \<open>A concrete run used by the witnesses: three events, one subscriber, a read and an out-of-order ack.\<close>

definition demo_ops :: "(sub_store \<Rightarrow> sub_store) list" where
  "demo_ops = [\<lambda>st. fst (sub_append st 1 ''a''), \<lambda>st. fst (sub_append st 2 ''b''),
     \<lambda>st. fst (subscribe st ''s'' ''as'' ''e'' ''b'' 0 0), \<lambda>st. fst (sub_read st ''s'' ''e'' 1),
     \<lambda>st. fst (ack st ''s'' 1)]"

definition demo_store :: sub_store where
  "demo_store = fold (\<lambda>f st. f st) demo_ops GatewaySubscriptionStore_init"

lemmas demo_defs = demo_ops_def GatewaySubscriptionStore_init_def sub_append_def subscribe_def
  sub_read_def ack_def put_sub_def derive_state_def IDLE_TTL_S_def GRACE_S_def CURSOR_TTL_S_def
  dset_def dget_or_def dget_def advance.simps

lemma demo_store_eq: "demo_store = \<lparr>gs_history = [\<lparr>ev_sequence = 1, ev_event_id = ''a''\<rparr>, \<lparr>ev_sequence = 2, ev_event_id = ''b''\<rparr>],
    gs_event_ids = [(''a'', 1), (''b'', 2)], gs_ingestion_cursor = 2, gs_retention_floor = 0,
    gs_subscriptions = [(''s'', \<lparr>sub_subscriber_ref = ''s'', sub_association_ref = ''as'', sub_stream_epoch = ''e'',
      sub_boundary_ref = ''b'', sub_snapshot_sequence = 0, sub_cursor_seq = 1, sub_cursor_issued_at = 0,
      sub_last_heartbeat_at = 0, sub_last_heartbeat_seq = 0, sub_delivered_upto = 2, sub_state = OBSERVING\<rparr>)],
    gs_outbox = [(''s'', [2])], gs_tombstones = [], gs_audit = []\<rparr>"
  by (simp add: demo_store_def demo_defs Let_def)

lemma demo_reachable: "reachable sub_init sub_step (demo_store, (\<lambda>_. {})(''s'' := {1}))"
proof -
  let ?s0 = GatewaySubscriptionStore_init
  let ?s1 = "fst (sub_append ?s0 1 ''a'')"
  let ?s2 = "fst (sub_append ?s1 2 ''b'')"
  let ?s3 = "fst (subscribe ?s2 ''s'' ''as'' ''e'' ''b'' 0 0)"
  let ?s4 = "fst (sub_read ?s3 ''s'' ''e'' 1)"
  have "reachable sub_init sub_step (?s0, \<lambda>_. {})" by (rule reachable_start) (simp add: sub_init_def)
  then have "reachable sub_init sub_step (?s1, \<lambda>_. {})" by (rule reachable_next) (rule do_append, rule surjective_pairing)
  then have "reachable sub_init sub_step (?s2, \<lambda>_. {})" by (rule reachable_next) (rule do_append, rule surjective_pairing)
  then have "reachable sub_init sub_step (?s3, if snd (subscribe ?s2 ''s'' ''as'' ''e'' ''b'' 0 0) = None then (\<lambda>_. {}) else (\<lambda>_. {})(''s'' := {}))"
    by (rule reachable_next) (rule do_subscribe, rule surjective_pairing)
  then have "reachable sub_init sub_step (?s3, \<lambda>_. {})" by (simp add: fun_upd_idem split: if_splits)
  then have "reachable sub_init sub_step (?s4, \<lambda>_. {})" by (rule reachable_next) (rule do_read, rule surjective_pairing)
  then have "reachable sub_init sub_step (fst (ack ?s4 ''s'' 1),
      if snd (ack ?s4 ''s'' 1) then (\<lambda>_. {})(''s'' := insert 1 {}) else (\<lambda>_. {}))"
    by (rule reachable_next) (rule do_ack, rule surjective_pairing)
  moreover have "snd (ack ?s4 ''s'' 1)" by (simp add: demo_defs Let_def)
  moreover have "demo_store = fst (ack ?s4 ''s'' 1)" by (simp add: demo_store_def demo_ops_def)
  ultimately show ?thesis by simp
qed

theorem stream_contiguous_witness:
  "map ev_sequence (gs_history demo_store) = [1, 2] \<and> distinct (map ev_event_id (gs_history demo_store))"
  using stream_contiguous [OF demo_reachable] by (simp add: demo_store_eq)



text \<open>
  A successful read delivers, without a gap, every sequence number above the cursor up to the
  ingestion cursor, and all of them are pending afterwards.
\<close>

theorem read_delivers_contiguous:
  assumes "reachable sub_init sub_step (st, acked)" and "dget (gs_subscriptions st) sref = Some sub"
    and "sub_read st sref ep now = (st', res)" and "rr_outcome res = READ_OK"
  shows "map ev_sequence (rr_events res) = [sub_cursor_seq sub + 1..gs_ingestion_cursor st]
    \<and> rr_events res \<noteq> [] \<and> ev_sequence ` set (rr_events res) \<subseteq> set (pending st' sref)"
proof -
  have hist: "hist_ok st" using gsi.reachable_inv [OF assms(1)] by (rule sub_invD)
  let ?es = "filter (\<lambda>e. sub_cursor_seq sub < ev_sequence e) (gs_history st)"
  from assms(2-4) have floor: "gs_retention_floor st \<le> sub_cursor_seq sub" and "?es \<noteq> []" and "rr_events res = ?es"
    and "pending st' sref = outbox_add (pending st sref) ?es"
    by (auto simp: sub_read_def sub_deny_def pending_def dget_or_def dict_simps Let_def split: if_splits)
  with history_above [OF hist floor] show ?thesis by (auto simp: set_outbox_add)
qed

theorem read_delivers_contiguous_witness:
  "\<exists>st' res. sub_read demo_store ''s'' ''e'' 2 = (st', res) \<and> rr_outcome res = READ_OK
     \<and> map ev_sequence (rr_events res) = [2] \<and> 2 \<in> set (pending st' ''s'')"
proof -
  obtain sub where sub: "dget (gs_subscriptions demo_store) ''s'' = Some sub" "sub_cursor_seq sub = 1"
    by (simp add: demo_store_eq)
  obtain st' res where rd: "sub_read demo_store ''s'' ''e'' 2 = (st', res)" by force
  moreover have ok: "rr_outcome res = READ_OK"
    using rd by (simp add: demo_store_eq sub_read_def put_sub_def derive_state_def IDLE_TTL_S_def
        GRACE_S_def CURSOR_TTL_S_def Let_def) auto
  ultimately show ?thesis
    using read_delivers_contiguous [OF demo_reachable sub(1) rd ok] sub(2) by (auto simp: demo_store_eq)
qed

text \<open>
  An acknowledgement that succeeds never moves the cursor back or beyond what was delivered,
  and once nothing is pending the cursor has reached the last delivered sequence number, whatever
  the order of the acknowledgements was.
\<close>

theorem ack_advances:
  assumes "reachable sub_init sub_step (st, acked)" and "dget (gs_subscriptions st) sref = Some sub"
    and "ack st sref sq = (st', True)"
  shows "\<exists>sub'. dget (gs_subscriptions st') sref = Some sub'
    \<and> sub_cursor_seq sub \<le> sub_cursor_seq sub' \<and> sub_cursor_seq sub' \<le> sub_delivered_upto sub'
    \<and> sub_delivered_upto sub' = sub_delivered_upto sub
    \<and> pending st' sref = remove1 sq (pending st sref)
    \<and> (pending st' sref = [] \<longrightarrow> sub_cursor_seq sub' = sub_delivered_upto sub')"
proof -
  have ok: "sub_ok st acked sref sub" using gsi.reachable_inv [OF assms(1)] assms(2) by (rule sub_invD)
  from assms(2,3) obtain ob where box: "dget (gs_outbox st) sref = Some ob" "sq \<in> set ob"
    and live: "sref \<notin> set (gs_tombstones st)"
    and st': "st' = (put_sub sref (sub\<lparr>sub_cursor_seq := advance (remove1 sq ob) (sub_delivered_upto sub)
        (sub_cursor_seq sub)\<rparr>) st)\<lparr>gs_outbox := dset sref (remove1 sq ob) (gs_outbox st)\<rparr>"
    by (auto simp: ack_def Let_def split: option.splits if_splits)
  have "sub_cursor_seq sub < sub_delivered_upto sub"
    using ok box live by (auto simp: sub_ok_def outbox_ok_def)
  with advance_spec [of "sub_cursor_seq sub" "remove1 sq ob" "sub_delivered_upto sub"]
  have "sub_cursor_seq sub \<le> advance (remove1 sq ob) (sub_delivered_upto sub) (sub_cursor_seq sub)"
    "advance (remove1 sq ob) (sub_delivered_upto sub) (sub_cursor_seq sub) \<le> sub_delivered_upto sub"
    "remove1 sq ob = [] \<longrightarrow> advance (remove1 sq ob) (sub_delivered_upto sub) (sub_cursor_seq sub) = sub_delivered_upto sub"
    by auto
  then show ?thesis using box by (simp add: st' dict_simps pending_def dget_or_def)
qed

theorem ack_advances_witness:
  "\<exists>st' sub'. ack demo_store ''s'' 2 = (st', True) \<and> dget (gs_subscriptions st') ''s'' = Some sub'
     \<and> pending st' ''s'' = [] \<and> sub_cursor_seq sub' = 2"
proof -
  obtain sub where sub: "dget (gs_subscriptions demo_store) ''s'' = Some sub" "sub_delivered_upto sub = 2"
    by (simp add: demo_store_eq)
  obtain st' where ak: "ack demo_store ''s'' 2 = (st', True)"
    by (simp add: demo_store_eq ack_def Let_def)
  moreover have "pending demo_store ''s'' = [2]" by (simp add: demo_store_eq pending_def dget_or_def)
  ultimately show ?thesis using ack_advances [OF demo_reachable sub(1) ak] sub(2) by auto
qed

text \<open>
  Detaching is irreversible. From a state in which a subscriber reference has been detached,
  every later state of every run still denies it a new subscription, reads, heartbeats and acks.
\<close>

theorem detach_irreversible:
  assumes "sub_step\<^sup>*\<^sup>* (st, g) (st', g')" and "sref \<in> set (gs_tombstones st)"
  shows "snd (subscribe st' sref aref ep bref snap now) = None
    \<and> snd (heartbeat st' sref hs now) = False
    \<and> rr_outcome (snd (sub_read st' sref ep now)) = ASSOCIATION_REQUIRED
    \<and> rr_events (snd (sub_read st' sref ep now)) = []
    \<and> snd (ack st' sref sq) = False"
proof -
  have "sref \<in> set (gs_tombstones (fst c'))" if "sub_step\<^sup>*\<^sup>* c c'" "sref \<in> set (gs_tombstones (fst c))" for c c'
    using that by (induction rule: rtranclp_induct) (auto dest: tombstones_grow)
  from this [OF assms(1)] assms(2) have "sref \<in> set (gs_tombstones st')" by simp
  then show ?thesis using tombstoned_ops by metis
qed

theorem detach_irreversible_witness:
  "\<exists>st. detach demo_store ''s'' = (st, True) \<and> snd (ack st ''s'' 2) = False
     \<and> snd (subscribe st ''s'' ''as'' ''e'' ''b'' 2 5) = None"
proof -
  obtain st where dt: "detach demo_store ''s'' = (st, True)" "''s'' \<in> set (gs_tombstones st)"
    by (simp add: detach_def demo_store_eq)
  have "sub_step\<^sup>*\<^sup>* (st, \<lambda>_. {}) (st, \<lambda>_. {})" by simp
  from detach_irreversible [OF this dt(2)] dt(1) show ?thesis by blast
qed

text \<open>
  Pruning beyond the ingestion cursor stops ingestion for good. Once the retention floor is
  above the ingestion cursor, every later append of every run is refused and the ingestion cursor
  never moves again: the next contiguous sequence number is below the floor, and any other is a gap.
\<close>

theorem prune_beyond_ingestion_wedges:
  assumes "gs_ingestion_cursor st < up" and "sub_step\<^sup>*\<^sup>* (prune st up, g) (st', g')"
  shows "snd (sub_append st' sq eid) = False \<and> gs_ingestion_cursor st' = gs_ingestion_cursor st"
proof -
  have "wedged (gs_ingestion_cursor st) (prune st up, g)"
    using assms(1) by (simp add: wedged_def prune_def Let_def less_max_iff_disj)
  with assms(2) have "wedged (gs_ingestion_cursor st) (st', g')" by (rule gsw.reachable_from_inv)
  then show ?thesis using wedged_append [of st' sq eid] by (simp add: wedged_def)
qed

theorem prune_beyond_ingestion_wedges_witness:
  "gs_ingestion_cursor demo_store < 5 \<and> snd (sub_append (prune demo_store 5) 3 ''c'') = False
     \<and> snd (sub_append (prune demo_store 5) 6 ''c'') = False"
proof -
  have lt: "gs_ingestion_cursor demo_store < 5" by (simp add: demo_store_eq)
  have "sub_step\<^sup>*\<^sup>* (prune demo_store 5, \<lambda>_. {}) (prune demo_store 5, \<lambda>_. {})" by simp
  from prune_beyond_ingestion_wedges [OF lt this] lt show ?thesis by simp
qed

end
