(* ===== verification/GatewayAuth.thy ===== *)
theory GatewayAuth
  imports PyValue
begin

text \<open>
  Local activation tickets and associations of \<open>scripts/pd_fleet/gateway_auth.py\<close>: issuance of
  one-use tickets, the single consume transaction with its checks in the order of the code, the
  association state machine and the idempotency record. Every method holds one lock, so a run is a
  sequence of the operations below. The two random tokens of a ticket are arguments of
  \<open>issue_ticket\<close>; the step relation asks that the activation token is fresh, which is what
  \<open>secrets.token_hex\<close> is used for. Instants are rational seconds.
\<close>

section \<open>Constants and data\<close>

definition ACTIVATION_TTL_S :: rat where "ACTIVATION_TTL_S = 300"
definition IDLE_TTL_S :: rat where "IDLE_TTL_S = 90"
definition GRACE_S :: rat where "GRACE_S = 60"
definition PURPOSE :: string where "PURPOSE = ''pd_observation''"
definition OWNERSHIP_MODE :: string where "OWNERSHIP_MODE = ''user_owned_session''"
definition ACTIVATION_INVALID :: string where "ACTIVATION_INVALID = ''activation_invalid''"

datatype TicketStatus = ISSUED | CONSUMED | EXPIRED | REVOKED

datatype AssociationState =
  PENDING_ACTIVATION | OBSERVING | RECONNECTING | STALE | ENDED | DETACHED | REJECTED

fun assoc_value :: "AssociationState \<Rightarrow> string" where
  "assoc_value PENDING_ACTIVATION = ''pending_activation''"
| "assoc_value OBSERVING = ''observing''"
| "assoc_value RECONNECTING = ''reconnecting''"
| "assoc_value STALE = ''stale''"
| "assoc_value ENDED = ''ended''"
| "assoc_value DETACHED = ''detached''"
| "assoc_value REJECTED = ''rejected''"

fun TRANSITIONS :: "AssociationState \<Rightarrow> AssociationState set" where
  "TRANSITIONS PENDING_ACTIVATION = {OBSERVING, REJECTED}"
| "TRANSITIONS OBSERVING = {RECONNECTING, ENDED, DETACHED}"
| "TRANSITIONS RECONNECTING = {STALE, DETACHED}"
| "TRANSITIONS STALE = {PENDING_ACTIVATION}"
| "TRANSITIONS ENDED = {}"
| "TRANSITIONS DETACHED = {}"
| "TRANSITIONS REJECTED = {}"

datatype auth_error = AssociationTransitionError

type_synonym op_key = "string \<times> string \<times> string \<times> string"

record Ticket =
  t_activation_ref :: string
  t_observer_ref :: string
  t_owner_ref :: string
  t_profile_ref :: string
  t_workspace_ref :: string
  t_session_ref :: string
  t_association_ref :: string
  t_provenance_ref :: string
  t_issued_at :: rat
  t_expires_at :: rat
  t_nonce_ref :: string
  t_ownership_mode :: string
  t_purpose :: string
  t_status :: TicketStatus
  t_consumed_at :: "rat option"
  t_revoked_at :: "rat option"
  t_consumed_op_key :: "op_key option"

record Presentation =
  p_activation_ref :: string
  p_observer_ref :: string
  p_owner_ref :: string
  p_profile_ref :: string
  p_workspace_ref :: string
  p_session_ref :: string
  p_association_ref :: string
  p_purpose :: string

record BoundedResult =
  br_association_ref :: string
  br_ownership_mode :: string
  br_status :: string

record Association =
  a_association_ref :: string
  a_state :: AssociationState
  a_created_at :: rat
  a_last_heartbeat_at :: rat

record ConsumeResult =
  cr_outcome :: string
  cr_audit_reason :: "string option"
  cr_result :: "BoundedResult option"
  cr_delivered :: bool

record ticket_store =
  ts_tickets :: "Ticket dict"
  ts_associations :: "Association dict"
  ts_idempotency :: "op_key \<rightharpoonup> BoundedResult"
  ts_audit :: "(string \<times> string) list"

definition SingleWriterTicketStore_init :: ticket_store where
  "SingleWriterTicketStore_init =
     \<lparr>ts_tickets = [], ts_associations = [], ts_idempotency = Map.empty, ts_audit = []\<rparr>"

section \<open>Associations\<close>

definition assoc_transition :: "AssociationState \<Rightarrow> Association \<Rightarrow> (auth_error, Association) result" where
  "assoc_transition target a =
     (if target \<notin> TRANSITIONS (a_state a) then Inl AssociationTransitionError
      else Inr (a\<lparr>a_state := target\<rparr>))"

definition assoc_touch :: "rat \<Rightarrow> Association \<Rightarrow> Association" where
  "assoc_touch now a =
     (if a_state a \<in> {OBSERVING, RECONNECTING} then a\<lparr>a_last_heartbeat_at := now\<rparr> else a)"

definition assoc_evaluate :: "rat \<Rightarrow> Association \<Rightarrow> Association" where
  "assoc_evaluate now a =
     (if a_state a = OBSERVING \<and> now - a_last_heartbeat_at a > IDLE_TTL_S then a\<lparr>a_state := RECONNECTING\<rparr>
      else if a_state a = RECONNECTING \<and> now - a_last_heartbeat_at a > IDLE_TTL_S + GRACE_S
      then a\<lparr>a_state := STALE\<rparr>
      else a)"

section \<open>Store operations\<close>

definition put_ticket :: "Ticket \<Rightarrow> ticket_store \<Rightarrow> ticket_store" where
  "put_ticket t st = st\<lparr>ts_tickets := dset (t_activation_ref t) t (ts_tickets st)\<rparr>"

definition revoke_ticket :: "string \<Rightarrow> rat \<Rightarrow> ticket_store \<Rightarrow> ticket_store \<times> bool" where
  "revoke_ticket aref now st = (case dget (ts_tickets st) aref of
       None \<Rightarrow> (st, False)
     | Some t \<Rightarrow> if t_status t \<noteq> ISSUED then (st, False)
         else (st\<lparr>ts_tickets := dset aref (t\<lparr>t_status := REVOKED, t_revoked_at := Some now\<rparr>) (ts_tickets st)\<rparr>, True))"

definition touch_association :: "string \<Rightarrow> rat \<Rightarrow> ticket_store \<Rightarrow> ticket_store \<times> AssociationState option" where
  "touch_association aref now st = (case dget (ts_associations st) aref of
       None \<Rightarrow> (st, None)
     | Some a \<Rightarrow> let a = assoc_touch now a in
         (st\<lparr>ts_associations := dset aref a (ts_associations st)\<rparr>, Some (a_state a)))"

definition evaluate_association :: "string \<Rightarrow> rat \<Rightarrow> ticket_store \<Rightarrow> ticket_store \<times> AssociationState option" where
  "evaluate_association aref now st = (case dget (ts_associations st) aref of
       None \<Rightarrow> (st, None)
     | Some a \<Rightarrow> let a = assoc_evaluate now a in
         (st\<lparr>ts_associations := dset aref a (ts_associations st)\<rparr>, Some (a_state a)))"

definition reassociate :: "string \<Rightarrow> ticket_store \<Rightarrow> (auth_error, ticket_store \<times> AssociationState option) result" where
  "reassociate aref st = (case dget (ts_associations st) aref of
       None \<Rightarrow> Inr (st, None)
     | Some a \<Rightarrow> bindR (assoc_transition PENDING_ACTIVATION a) (\<lambda>a.
         Inr (st\<lparr>ts_associations := dset aref a (ts_associations st)\<rparr>, Some (a_state a))))"

definition auth_deny :: "string \<Rightarrow> string \<Rightarrow> ticket_store \<Rightarrow> ticket_store \<times> ConsumeResult" where
  "auth_deny aref reason st = (st\<lparr>ts_audit := ts_audit st @ [(aref, reason)]\<rparr>,
     \<lparr>cr_outcome = ACTIVATION_INVALID, cr_audit_reason = Some reason, cr_result = None, cr_delivered = False\<rparr>)"

definition activated :: "BoundedResult \<Rightarrow> ConsumeResult" where
  "activated b = \<lparr>cr_outcome = ''activated'', cr_audit_reason = None, cr_result = Some b, cr_delivered = True\<rparr>"

definition commit_ticket :: "Ticket \<Rightarrow> op_key \<Rightarrow> rat \<Rightarrow> ticket_store \<Rightarrow> ticket_store \<times> ConsumeResult" where
  "commit_ticket t key now st = (let
       a = \<lparr>a_association_ref = t_association_ref t, a_state = OBSERVING, a_created_at = now,
            a_last_heartbeat_at = now\<rparr>;
       t' = t\<lparr>t_status := CONSUMED, t_consumed_at := Some now, t_consumed_op_key := Some key\<rparr>;
       b = \<lparr>br_association_ref = a_association_ref a, br_ownership_mode = t_ownership_mode t,
            br_status = assoc_value (a_state a)\<rparr>
     in (st\<lparr>ts_associations := dset (a_association_ref a) a (ts_associations st),
            ts_tickets := dset (t_activation_ref t) t' (ts_tickets st),
            ts_idempotency := (ts_idempotency st)(key \<mapsto> b)\<rparr>, activated b))"

definition consume_transaction ::
  "Presentation \<Rightarrow> op_key \<Rightarrow> rat \<Rightarrow> ticket_store \<Rightarrow> ticket_store \<times> ConsumeResult" where
  "consume_transaction p key now st = (case dget (ts_tickets st) (p_activation_ref p) of
       None \<Rightarrow> (st\<lparr>ts_audit := ts_audit st @ [(p_activation_ref p, ACTIVATION_INVALID)]\<rparr>,
          \<lparr>cr_outcome = ACTIVATION_INVALID, cr_audit_reason = None, cr_result = None, cr_delivered = False\<rparr>)
     | Some t \<Rightarrow>
         if t_purpose t \<noteq> p_purpose p then auth_deny (t_activation_ref t) ''capability_denied'' st
         else if t_status t = REVOKED then auth_deny (t_activation_ref t) ACTIVATION_INVALID st
         else if t_status t = EXPIRED \<or> t_status t = ISSUED \<and> now > t_expires_at t then
           auth_deny (t_activation_ref t) ''activation_expired''
             (if t_status t = ISSUED
              then st\<lparr>ts_tickets := dset (p_activation_ref p) (t\<lparr>t_status := EXPIRED\<rparr>) (ts_tickets st)\<rparr> else st)
         else if t_observer_ref t \<noteq> p_observer_ref p then auth_deny (t_activation_ref t) ''foreign_owner'' st
         else if t_owner_ref t \<noteq> p_owner_ref p \<or> t_profile_ref t \<noteq> p_profile_ref p
           \<or> t_workspace_ref t \<noteq> p_workspace_ref p \<or> t_session_ref t \<noteq> p_session_ref p
           \<or> t_association_ref t \<noteq> p_association_ref p
         then auth_deny (t_activation_ref t) ''activation_binding_mismatch'' st
         else if t_status t = CONSUMED then
           (if t_consumed_op_key t = Some key then
              (case ts_idempotency st key of
                 Some stored \<Rightarrow> (st, activated stored)
               | None \<Rightarrow> auth_deny (t_activation_ref t) ''activation_replayed'' st)
            else auth_deny (t_activation_ref t) ''activation_replayed'' st)
         else commit_ticket t key now st)"

section \<open>The service\<close>

record ticket_binding =
  b_observer_ref :: string
  b_owner_ref :: string
  b_profile_ref :: string
  b_workspace_ref :: string
  b_session_ref :: string
  b_association_ref :: string
  b_provenance_ref :: string

definition issue_ticket ::
  "string \<Rightarrow> string \<Rightarrow> ticket_binding \<Rightarrow> rat \<Rightarrow> rat \<Rightarrow> ticket_store \<Rightarrow> ticket_store \<times> Ticket" where
  "issue_ticket tok nonce b now ttl st = (let t =
     \<lparr>t_activation_ref = ''act-'' @ tok, t_observer_ref = b_observer_ref b, t_owner_ref = b_owner_ref b,
      t_profile_ref = b_profile_ref b, t_workspace_ref = b_workspace_ref b, t_session_ref = b_session_ref b,
      t_association_ref = b_association_ref b, t_provenance_ref = b_provenance_ref b, t_issued_at = now,
      t_expires_at = now + ttl, t_nonce_ref = nonce, t_ownership_mode = OWNERSHIP_MODE, t_purpose = PURPOSE,
      t_status = ISSUED, t_consumed_at = None, t_revoked_at = None, t_consumed_op_key = None\<rparr>
     in (put_ticket t st, t))"

definition op_key_of :: "Presentation \<Rightarrow> op_key" where
  "op_key_of p = (p_activation_ref p, p_observer_ref p, p_association_ref p, p_purpose p)"

definition consume :: "Presentation \<Rightarrow> rat \<Rightarrow> ticket_store \<Rightarrow> ticket_store \<times> ConsumeResult" where
  "consume p now st = consume_transaction p (op_key_of p) now st"

definition auth_touch :: "string \<Rightarrow> rat \<Rightarrow> ticket_store \<Rightarrow> ticket_store \<times> bool" where
  "auth_touch aref now st = (let (st', s) = touch_association aref now st in (st', s \<noteq> None))"

definition auth_evaluate :: "string \<Rightarrow> rat \<Rightarrow> ticket_store \<Rightarrow> ticket_store \<times> AssociationState option" where
  "auth_evaluate aref now st = evaluate_association aref now st"

text \<open>
  The runs of the service. The second component of a configuration lists the activation references
  in the order in which their tickets were committed; it is not part of the program.
\<close>

type_synonym auth_config = "ticket_store \<times> string list"

definition commits :: "ticket_store \<Rightarrow> Presentation \<Rightarrow> bool" where
  "commits st p = (case dget (ts_tickets st) (p_activation_ref p) of
     None \<Rightarrow> False | Some t \<Rightarrow> t_status t \<noteq> CONSUMED)"

definition auth_init :: "auth_config \<Rightarrow> bool" where
  "auth_init c \<longleftrightarrow> c = (SingleWriterTicketStore_init, [])"

inductive auth_step :: "auth_config \<Rightarrow> auth_config \<Rightarrow> bool" where
  do_issue: "dget (ts_tickets st) (''act-'' @ tok) = None \<Longrightarrow> issue_ticket tok nonce b now ttl st = (st', t) \<Longrightarrow>
     auth_step (st, lg) (st', lg)"
| do_consume: "consume p now st = (st', r) \<Longrightarrow>
     auth_step (st, lg) (st', if cr_delivered r \<and> commits st p then lg @ [p_activation_ref p] else lg)"
| do_revoke: "revoke_ticket aref now st = (st', ok) \<Longrightarrow> auth_step (st, lg) (st', lg)"
| do_touch: "auth_touch aref now st = (st', ok) \<Longrightarrow> auth_step (st, lg) (st', lg)"
| do_evaluate: "auth_evaluate aref now st = (st', s) \<Longrightarrow> auth_step (st, lg) (st', lg)"
| do_reassociate: "reassociate aref st = Inr (st', s) \<Longrightarrow> auth_step (st, lg) (st', lg)"

section \<open>Invariant\<close>

definition ticket_key :: "Ticket \<Rightarrow> op_key" where
  "ticket_key t = (t_activation_ref t, t_observer_ref t, t_association_ref t, t_purpose t)"

definition ticket_result :: "Ticket \<Rightarrow> BoundedResult" where
  "ticket_result t = \<lparr>br_association_ref = t_association_ref t, br_ownership_mode = t_ownership_mode t,
     br_status = ''observing''\<rparr>"

text \<open>
  What holds of one ticket record under its key: the fields that the transaction writes agree with
  the status, and a consumed ticket has its result on record.
\<close>

definition ticket_ok :: "(op_key \<rightharpoonup> BoundedResult) \<Rightarrow> string list \<Rightarrow> string \<Rightarrow> Ticket \<Rightarrow> bool" where
  "ticket_ok idem lg k t \<longleftrightarrow> t_activation_ref t = k
     \<and> (t_status t = CONSUMED \<longrightarrow> t_consumed_op_key t = Some (ticket_key t)
          \<and> idem (ticket_key t) = Some (ticket_result t) \<and> k \<in> set lg)
     \<and> (t_status t \<noteq> CONSUMED \<longrightarrow> t_consumed_op_key t = None \<and> t_consumed_at t = None \<and> k \<notin> set lg)
     \<and> (t_status t = REVOKED \<longleftrightarrow> t_revoked_at t \<noteq> None)"

definition auth_inv :: "auth_config \<Rightarrow> bool" where
  "auth_inv c \<longleftrightarrow> (\<forall>k t. dget (ts_tickets (fst c)) k = Some t \<longrightarrow> ticket_ok (ts_idempotency (fst c)) (snd c) k t)
     \<and> (\<forall>k a. dget (ts_associations (fst c)) k = Some a \<longrightarrow> a_association_ref a = k)
     \<and> distinct (snd c) \<and> set (snd c) \<subseteq> set (dkeys (ts_tickets (fst c)))"

lemma auth_invD:
  assumes "auth_inv (st, lg)"
  shows "dget (ts_tickets st) k = Some t \<Longrightarrow> ticket_ok (ts_idempotency st) lg k t"
    and "dget (ts_associations st) k = Some a \<Longrightarrow> a_association_ref a = k"
    and "distinct lg" and "set lg \<subseteq> set (dkeys (ts_tickets st))"
  using assms by (simp_all add: auth_inv_def)

text \<open>Only tickets, associations and the idempotency record matter; only one entry changes at a time.\<close>

lemma auth_inv_assoc:
  assumes "auth_inv (st, lg)" and "dget (ts_associations st) aref = Some a" and "a_association_ref a' = a_association_ref a"
  shows "auth_inv (st\<lparr>ts_associations := dset aref a' (ts_associations st)\<rparr>, lg)"
  using assms by (auto simp: auth_inv_def dict_simps)

lemma auth_inv_ticket:
  assumes inv: "auth_inv (st, lg)" and "ts_tickets st' = dset k t (ts_tickets st)"
    and "ts_idempotency st' = ts_idempotency st" and "ts_associations st' = ts_associations st"
    and "ticket_ok (ts_idempotency st) lg k t"
  shows "auth_inv (st', lg)"
  using assms by (auto simp: auth_inv_def dict_simps)

lemma issue_inv [step_inv]:
  assumes "dget (ts_tickets st) (''act-'' @ tok) = None" and "issue_ticket tok nonce b now ttl st = (st', t)"
    and inv: "auth_inv (st, lg)"
  shows "auth_inv (st', lg)"
proof (rule auth_inv_ticket [OF inv, where k = "''act-'' @ tok" and t = t])
  have "''act-'' @ tok \<notin> set lg"
    using assms(1) auth_invD(4) [OF inv] by (auto simp: dget_None_iff)
  then show "ticket_ok (ts_idempotency st) lg (''act-'' @ tok) t"
    using assms(2) by (auto simp: issue_ticket_def ticket_ok_def Let_def)
qed (use assms(2) in \<open>auto simp: issue_ticket_def put_ticket_def Let_def\<close>)

lemma revoke_inv [step_inv]:
  assumes rv: "revoke_ticket aref now st = (st', ok)" and inv: "auth_inv (st, lg)"
  shows "auth_inv (st', lg)"
proof (cases "\<exists>t. dget (ts_tickets st) aref = Some t \<and> t_status t = ISSUED")
  case False
  with rv inv show ?thesis by (auto simp: revoke_ticket_def split: option.splits)
next
  case True
  then obtain t where t: "dget (ts_tickets st) aref = Some t" "t_status t = ISSUED" by blast
  show ?thesis
    by (rule auth_inv_ticket [OF inv, where k = aref and t = "t\<lparr>t_status := REVOKED, t_revoked_at := Some now\<rparr>"])
       (use rv t auth_invD(1) [OF inv t(1)] in \<open>auto simp: revoke_ticket_def ticket_ok_def\<close>)
qed

lemma touch_inv [step_inv]: "auth_touch aref now st = (st', ok) \<Longrightarrow> auth_inv (st, lg) \<Longrightarrow> auth_inv (st', lg)"
  by (auto simp: auth_touch_def touch_association_def Let_def assoc_touch_def
      split: option.splits elim!: auth_inv_assoc)

lemma evaluate_inv [step_inv]: "auth_evaluate aref now st = (st', s) \<Longrightarrow> auth_inv (st, lg) \<Longrightarrow> auth_inv (st', lg)"
  by (auto simp: auth_evaluate_def evaluate_association_def Let_def assoc_evaluate_def
      split: option.splits elim!: auth_inv_assoc)

lemma reassociate_inv [step_inv]: "reassociate aref st = Inr (st', s) \<Longrightarrow> auth_inv (st, lg) \<Longrightarrow> auth_inv (st', lg)"
  by (auto simp: reassociate_def assoc_transition_def result_simps
      split: option.splits if_splits elim!: auth_inv_assoc)

text \<open>
  The three ways a presentation can end: denial, replay of the recorded result, commit. The binding
  test collects every comparison the transaction makes between ticket and presentation.
\<close>

definition bound_to :: "Ticket \<Rightarrow> Presentation \<Rightarrow> bool" where
  "bound_to t p \<longleftrightarrow> t_purpose t = p_purpose p \<and> t_observer_ref t = p_observer_ref p
     \<and> t_owner_ref t = p_owner_ref p \<and> t_profile_ref t = p_profile_ref p
     \<and> t_workspace_ref t = p_workspace_ref p \<and> t_session_ref t = p_session_ref p
     \<and> t_association_ref t = p_association_ref p"

definition expire_ticket :: "string \<Rightarrow> rat \<Rightarrow> ticket_store \<Rightarrow> ticket_store" where
  "expire_ticket k now st = (case dget (ts_tickets st) k of None \<Rightarrow> st | Some t \<Rightarrow>
     if t_status t = ISSUED \<and> now > t_expires_at t
     then st\<lparr>ts_tickets := dset k (t\<lparr>t_status := EXPIRED\<rparr>) (ts_tickets st)\<rparr> else st)"

definition denial :: "Presentation \<Rightarrow> rat \<Rightarrow> ticket_store \<Rightarrow> ticket_store \<times> ConsumeResult \<Rightarrow> bool" where
  "denial p now st x \<longleftrightarrow> cr_outcome (snd x) = ACTIVATION_INVALID \<and> cr_result (snd x) = None
    \<and> (\<exists>st1 a reason. st1 \<in> {st, expire_ticket (p_activation_ref p) now st}
          \<and> fst x = st1\<lparr>ts_audit := ts_audit st1 @ [(a, reason)]\<rparr>)"

lemma denial_deny: "denial p now st (auth_deny a reason st)"
  by (auto simp: denial_def auth_deny_def)

lemma denial_expired: "dget (ts_tickets st) (p_activation_ref p) = Some t \<Longrightarrow> t_status t = ISSUED \<Longrightarrow> now > t_expires_at t \<Longrightarrow>
  denial p now st (auth_deny a reason (st\<lparr>ts_tickets := dset (p_activation_ref p) (t\<lparr>t_status := EXPIRED\<rparr>) (ts_tickets st)\<rparr>))"
  unfolding denial_def auth_deny_def
  by (intro conjI exI [of _ "expire_ticket (p_activation_ref p) now st"] exI [of _ a] exI [of _ reason])
     (simp_all add: expire_ticket_def)

lemma delivered_simps: "cr_delivered (snd (commit_ticket t key now st))" "cr_delivered (activated b)"
  by (simp_all add: commit_ticket_def activated_def Let_def)

lemma consume_cases: "cr_delivered (snd (consume p now st)) \<or> denial p now st (consume p now st)"
proof (cases "dget (ts_tickets st) (p_activation_ref p)")
  case None
  then show ?thesis by (auto simp: consume_def consume_transaction_def denial_def)
next
  case (Some t)
  then show ?thesis
    by (simp add: consume_def consume_transaction_def denial_deny denial_expired delivered_simps split: option.split)
qed

lemma dget_expire: "dget (ts_tickets (expire_ticket a now st)) k = dget (ts_tickets st) k
   \<or> (\<exists>t. dget (ts_tickets st) k = Some t \<and> dget (ts_tickets (expire_ticket a now st)) k = Some (t\<lparr>t_status := EXPIRED\<rparr>)
        \<and> t_status t = ISSUED \<and> now > t_expires_at t)"
  by (simp add: expire_ticket_def dict_simps split: option.split)

lemma expire_rest [simp]:
  "ts_associations (expire_ticket a now st) = ts_associations st"
  "ts_idempotency (expire_ticket a now st) = ts_idempotency st"
  "ts_audit (expire_ticket a now st) = ts_audit st"
  by (simp_all add: expire_ticket_def split: option.split)

lemma consume_denied:
  assumes "consume p now st = (st', r)" and "\<not> cr_delivered r"
  shows "ts_associations st' = ts_associations st" and "ts_idempotency st' = ts_idempotency st"
    and "dget (ts_tickets st') k = dget (ts_tickets st) k
       \<or> (\<exists>t. dget (ts_tickets st) k = Some t \<and> dget (ts_tickets st') k = Some (t\<lparr>t_status := EXPIRED\<rparr>)
            \<and> t_status t = ISSUED \<and> now > t_expires_at t)"
    and "\<exists>a reason. ts_audit st' = ts_audit st @ [(a, reason)]"
  using consume_cases [of p now st] assms dget_expire [of "p_activation_ref p" now st k]
  by (auto simp: denial_def)

lemma consume_delivered:
  assumes "consume p now st = (st', r)" and "cr_delivered r"
  obtains t where "dget (ts_tickets st) (p_activation_ref p) = Some t" and "bound_to t p"
    and "t_status t = CONSUMED" and "st' = st" and "t_consumed_op_key t = Some (op_key_of p)"
    and "\<exists>b. ts_idempotency st (op_key_of p) = Some b \<and> r = activated b"
  | t where "dget (ts_tickets st) (p_activation_ref p) = Some t" and "bound_to t p"
    and "t_status t = ISSUED" and "now \<le> t_expires_at t" and "(st', r) = commit_ticket t (op_key_of p) now st"
proof -
  from assms obtain t where t: "dget (ts_tickets st) (p_activation_ref p) = Some t"
    by (auto simp: consume_def consume_transaction_def split: option.splits)
  have b: "bound_to t p" and nr: "t_status t \<noteq> REVOKED" "t_status t \<noteq> EXPIRED"
    and tm: "t_status t = ISSUED \<longrightarrow> now \<le> t_expires_at t"
    using assms t by (auto simp: consume_def consume_transaction_def bound_to_def auth_deny_def
        split: if_splits option.splits)
  show thesis
  proof (cases "t_status t = CONSUMED")
    case True
    then have "t_consumed_op_key t = Some (op_key_of p) \<and> st' = st
       \<and> (\<exists>b. ts_idempotency st (op_key_of p) = Some b \<and> r = activated b)"
      using assms t by (auto simp: consume_def consume_transaction_def auth_deny_def
          split: if_splits option.splits)
    with that(1) t b True show thesis by blast
  next
    case False
    with nr have iss: "t_status t = ISSUED" by (cases "t_status t") auto
    with assms t b tm have "(st', r) = commit_ticket t (op_key_of p) now st"
      by (auto simp: consume_def consume_transaction_def bound_to_def)
    with that(2) t b tm iss show thesis by blast
  qed
qed

lemma bound_key: "bound_to t p \<Longrightarrow> t_activation_ref t = p_activation_ref p \<Longrightarrow> op_key_of p = ticket_key t"
  by (simp add: bound_to_def op_key_of_def ticket_key_def)

lemma consume_inv [step_inv]:
  assumes cs: "consume p now st = (st', r)" and inv: "auth_inv (st, lg)"
  shows "auth_inv (st', if cr_delivered r \<and> commits st p then lg @ [p_activation_ref p] else lg)"
proof (cases "cr_delivered r")
  case False
  have tk: "ticket_ok (ts_idempotency st) lg k t'" if d: "dget (ts_tickets st') k = Some t'" for k t'
    using consume_denied(3) [OF cs False, of k]
  proof
    assume "dget (ts_tickets st') k = dget (ts_tickets st) k"
    then show ?thesis using auth_invD(1) [OF inv] d by simp
  next
    assume "\<exists>t. dget (ts_tickets st) k = Some t \<and> dget (ts_tickets st') k = Some (t\<lparr>t_status := EXPIRED\<rparr>)
      \<and> t_status t = ISSUED \<and> now > t_expires_at t"
    then obtain t where "dget (ts_tickets st) k = Some t" "t' = t\<lparr>t_status := EXPIRED\<rparr>" "t_status t = ISSUED"
      using d by auto
    then show ?thesis using auth_invD(1) [OF inv, of k t] by (simp add: ticket_ok_def)
  qed
  have "set (dkeys (ts_tickets st)) \<subseteq> set (dkeys (ts_tickets st'))"
  proof
    fix k assume "k \<in> set (dkeys (ts_tickets st))"
    with consume_denied(3) [OF cs False, of k] show "k \<in> set (dkeys (ts_tickets st'))"
      by (metis dget_None_iff option.distinct(1))
  qed
  with tk False inv consume_denied(1,2) [OF cs False] show ?thesis by (auto simp: auth_inv_def)
next
  case True
  from cs True show ?thesis
  proof (cases rule: consume_delivered)
    case (1 t)
    then show ?thesis using inv by (simp add: commits_def)
  next
    case (2 t)
    have ok: "ticket_ok (ts_idempotency st) lg (p_activation_ref p) t" by (rule auth_invD(1) [OF inv 2(1)])
    then have ref: "t_activation_ref t = p_activation_ref p" and fresh: "p_activation_ref p \<notin> set lg"
      using 2 by (simp_all add: ticket_ok_def)
    have key: "op_key_of p = ticket_key t" by (rule bound_key [OF 2(2) ref])
    have other: "ticket_ok ((ts_idempotency st)(op_key_of p \<mapsto> b)) (lg @ [p_activation_ref p]) k t'"
      if "dget (ts_tickets st) k = Some t'" "k \<noteq> p_activation_ref p" for k t' b
      using auth_invD(1) [OF inv that(1)] that(2) by (auto simp: ticket_ok_def op_key_of_def ticket_key_def)
    have lg: "distinct (lg @ [p_activation_ref p])" using fresh auth_invD(3) [OF inv] by simp
    have "commits st p" using 2 by (simp add: commits_def)
    moreover have self: "ticket_ok ((ts_idempotency st)(op_key_of p \<mapsto> ticket_result t)) (lg @ [p_activation_ref p])
        (p_activation_ref p) (t\<lparr>t_status := CONSUMED, t_consumed_at := Some now, t_consumed_op_key := Some (op_key_of p)\<rparr>)"
      using ok 2(3) by (simp add: key ticket_ok_def ticket_key_def ticket_result_def)
    have "auth_inv (fst (commit_ticket t (op_key_of p) now st), lg @ [p_activation_ref p])"
      unfolding auth_inv_def commit_ticket_def
      using other [of _ _ "ticket_result t"] self lg auth_invD(2,4) [OF inv]
      by (auto simp: Let_def dict_simps ref ticket_result_def)
    ultimately show ?thesis using 2(5) True by (metis (full_types) fst_conv)
  qed
qed

interpretation gai: invariant_system auth_init auth_step auth_inv
proof
  show "auth_init s \<Longrightarrow> auth_inv s" for s
    by (simp add: auth_init_def auth_inv_def SingleWriterTicketStore_init_def)
  show "auth_inv s \<Longrightarrow> auth_step s t \<Longrightarrow> auth_inv t" for s t
    by (rotate_tac, induction rule: auth_step.induct) (rule step_inv; assumption)+
qed

definition assoc_final :: "AssociationState \<Rightarrow> bool" where
  "assoc_final s \<longleftrightarrow> s \<in> {ENDED, DETACHED, REJECTED}"

interpretation gat: transition_table "\<lambda>s t. t \<in> TRANSITIONS s" assoc_final
proof
  show "assoc_final s \<Longrightarrow> t \<notin> TRANSITIONS s" for s t by (auto simp: assoc_final_def)
  show "\<not> assoc_final s \<Longrightarrow> \<exists>t. t \<in> TRANSITIONS s" for s by (cases s) (auto simp: assoc_final_def)
qed

text \<open>A consumed ticket record is never written again.\<close>

definition consumed_as :: "string \<Rightarrow> Ticket \<Rightarrow> auth_config \<Rightarrow> bool" where
  "consumed_as k t c \<longleftrightarrow> auth_inv c \<and> dget (ts_tickets (fst c)) k = Some t \<and> t_status t = CONSUMED"

lemma consumed_as_step:
  assumes "auth_step c c'" and "consumed_as k t c"
  shows "dget (ts_tickets (fst c')) k = Some t"
  using assms
proof (induction rule: auth_step.induct)
  case (do_consume p now st st' r lg)
  then have tk: "dget (ts_tickets st) k = Some t" and cons: "t_status t = CONSUMED" and inv: "auth_inv (st, lg)"
    by (simp_all add: consumed_as_def)
  show ?case
  proof (cases "cr_delivered r")
    case False
    with consume_denied(3) [OF do_consume(1), of k] tk cons show ?thesis by auto
  next
    case True
    from do_consume(1) True show ?thesis
    proof (cases rule: consume_delivered)
      case (2 t')
      then have "t_activation_ref t' = p_activation_ref p" using auth_invD(1) [OF inv 2(1)] by (simp add: ticket_ok_def)
      moreover have "k \<noteq> p_activation_ref p" using 2 tk cons by auto
      ultimately show ?thesis using 2(5) tk by (simp add: commit_ticket_def Let_def dict_simps)
    qed (use tk in simp)
  qed
qed (auto simp: consumed_as_def issue_ticket_def put_ticket_def revoke_ticket_def auth_touch_def
      touch_association_def auth_evaluate_def evaluate_association_def reassociate_def dict_simps
      result_simps Let_def split: option.splits if_splits)

interpretation gac: invariant_system "\<lambda>_. False" auth_step "consumed_as k t" for k t
proof
  show "consumed_as k t s \<Longrightarrow> auth_step s s' \<Longrightarrow> consumed_as k t s'" for s s'
    using consumed_as_step [of s s' k t] gai.inv_step [of s s'] by (simp add: consumed_as_def)
qed simp

lemma consume_replays:
  assumes "consumed_as (p_activation_ref p) t (st, lg)" and "bound_to t p"
  shows "consume p now st = (st, activated (ticket_result t))"
proof -
  have tk: "dget (ts_tickets st) (p_activation_ref p) = Some t" and cons: "t_status t = CONSUMED"
    and ok: "ticket_ok (ts_idempotency st) lg (p_activation_ref p) t"
    using assms(1) auth_invD(1) by (auto simp: consumed_as_def)
  then have "op_key_of p = ticket_key t" using bound_key [OF assms(2)] by (simp add: ticket_ok_def)
  with tk cons ok assms(2) show ?thesis
    by (simp add: consume_def consume_transaction_def bound_to_def ticket_ok_def)
qed

text \<open>When a presentation is accepted, exactly.\<close>

lemma delivered_iff:
  assumes inv: "auth_inv (st, lg)" and cs: "consume p now st = (st', r)"
  shows "cr_delivered r \<longleftrightarrow> (\<exists>t. dget (ts_tickets st) (p_activation_ref p) = Some t \<and> bound_to t p
           \<and> (t_status t = CONSUMED \<or> t_status t = ISSUED \<and> now \<le> t_expires_at t))" (is "_ \<longleftrightarrow> ?acc")
proof
  assume "cr_delivered r"
  with cs show ?acc by (cases rule: consume_delivered) blast+
next
  assume ?acc
  then obtain t where t: "dget (ts_tickets st) (p_activation_ref p) = Some t" "bound_to t p"
    and or: "t_status t = CONSUMED \<or> t_status t = ISSUED \<and> now \<le> t_expires_at t" by blast
  from or show "cr_delivered r"
  proof
    assume "t_status t = CONSUMED"
    then have "consumed_as (p_activation_ref p) t (st, lg)" using inv t by (simp add: consumed_as_def)
    from consume_replays [OF this t(2), of now] cs show ?thesis by (auto simp: activated_def)
  next
    assume "t_status t = ISSUED \<and> now \<le> t_expires_at t"
    then have "consume p now st = commit_ticket t (op_key_of p) now st"
      using t by (simp add: consume_def consume_transaction_def bound_to_def)
    with cs show ?thesis using delivered_simps(1) by (metis snd_conv)
  qed
qed

lemma assoc_ops_move:
  "a_state (assoc_touch now a) = a_state a"
  "a_state (assoc_evaluate now a) = a_state a \<or> a_state (assoc_evaluate now a) \<in> TRANSITIONS (a_state a)"
  "assoc_transition s a = Inr a' \<Longrightarrow> a_state a' = s \<and> s \<in> TRANSITIONS (a_state a)"
  by (auto simp: assoc_touch_def assoc_evaluate_def assoc_transition_def split: if_splits)

definition recommitted :: "string \<Rightarrow> auth_config \<Rightarrow> auth_config \<Rightarrow> bool" where
  "recommitted aref c c' \<longleftrightarrow> (\<exists>k t now. snd c' = snd c @ [k] \<and> dget (ts_tickets (fst c)) k = Some t
     \<and> t_association_ref t = aref \<and> t_status t = ISSUED \<and> now \<le> t_expires_at t
     \<and> dget (ts_associations (fst c')) aref = Some \<lparr>a_association_ref = aref, a_state = OBSERVING,
         a_created_at = now, a_last_heartbeat_at = now\<rparr>)"

lemma consume_moves:
  assumes cs: "consume p now st = (st', r)" and a: "dget (ts_associations st) aref = Some a"
  shows "dget (ts_associations st') aref = Some a
    \<or> recommitted aref (st, lg) (st', if cr_delivered r \<and> commits st p then lg @ [p_activation_ref p] else lg)"
proof (cases "cr_delivered r")
  case False
  with consume_denied(1) [OF cs] a show ?thesis by simp
next
  case True
  from cs True show ?thesis
  proof (cases rule: consume_delivered)
    case (2 t)
    then have as: "ts_associations st' = dset (t_association_ref t) \<lparr>a_association_ref = t_association_ref t,
        a_state = OBSERVING, a_created_at = now, a_last_heartbeat_at = now\<rparr> (ts_associations st)"
      by (simp add: commit_ticket_def Let_def)
    have cm: "commits st p" using 2 by (simp add: commits_def)
    show ?thesis
    proof (cases "aref = t_association_ref t")
      case False
      with as a show ?thesis by (simp add: dict_simps)
    next
      case same: True
      have "recommitted aref (st, lg) (st', lg @ [p_activation_ref p])"
        unfolding recommitted_def
        by (rule exI [of _ "p_activation_ref p"], rule exI [of _ t], rule exI [of _ now])
           (use 2 as same in \<open>simp add: dict_simps\<close>)
      with cm True show ?thesis by simp
    qed
  qed (use a in simp)
qed

section \<open>Properties\<close>

text \<open>
  C5: a ticket is spent at most once. In every run no activation reference is committed twice, and
  every committed reference still has its ticket on record, consumed, with the operation key and the
  bounded result of that commit.
\<close>

theorem ticket_one_use:
  "reachable auth_init auth_step (st, lg) \<Longrightarrow> distinct lg \<and>
     (\<forall>k \<in> set lg. \<exists>t. dget (ts_tickets st) k = Some t \<and> t_status t = CONSUMED
        \<and> t_consumed_op_key t = Some (k, t_observer_ref t, t_association_ref t, t_purpose t)
        \<and> ts_idempotency st (k, t_observer_ref t, t_association_ref t, t_purpose t) = Some (ticket_result t))"
proof -
  assume "reachable auth_init auth_step (st, lg)"
  then have inv: "auth_inv (st, lg)" by (rule gai.reachable_inv)
  have "\<exists>t. dget (ts_tickets st) k = Some t \<and> t_status t = CONSUMED
        \<and> t_consumed_op_key t = Some (k, t_observer_ref t, t_association_ref t, t_purpose t)
        \<and> ts_idempotency st (k, t_observer_ref t, t_association_ref t, t_purpose t) = Some (ticket_result t)"
    if k: "k \<in> set lg" for k
  proof -
    from k auth_invD(4) [OF inv] obtain t where t: "dget (ts_tickets st) k = Some t"
      using dget_None_iff [of "ts_tickets st" k] by auto
    with auth_invD(1) [OF inv t] k show ?thesis by (auto simp: ticket_ok_def ticket_key_def)
  qed
  with auth_invD(3) [OF inv] show ?thesis by blast
qed

text \<open>A concrete run used by the witnesses: one ticket is issued and consumed.\<close>

definition demo_binding :: ticket_binding where
  "demo_binding = \<lparr>b_observer_ref = ''o'', b_owner_ref = ''w'', b_profile_ref = ''p'', b_workspace_ref = ''ws'',
     b_session_ref = ''s'', b_association_ref = ''as'', b_provenance_ref = ''pr''\<rparr>"

definition demo_presentation :: Presentation where
  "demo_presentation = \<lparr>p_activation_ref = ''act-1'', p_observer_ref = ''o'', p_owner_ref = ''w'',
     p_profile_ref = ''p'', p_workspace_ref = ''ws'', p_session_ref = ''s'', p_association_ref = ''as'',
     p_purpose = ''pd_observation''\<rparr>"

definition demo_issued :: ticket_store where
  "demo_issued = fst (issue_ticket ''1'' ''n'' demo_binding 0 ACTIVATION_TTL_S SingleWriterTicketStore_init)"

definition demo_consumed :: "ticket_store \<times> ConsumeResult" where
  "demo_consumed = consume demo_presentation 10 demo_issued"

lemmas demo_defs = demo_binding_def demo_presentation_def demo_issued_def demo_consumed_def issue_ticket_def
  put_ticket_def SingleWriterTicketStore_init_def ACTIVATION_TTL_S_def PURPOSE_def OWNERSHIP_MODE_def
  consume_def consume_transaction_def commit_ticket_def activated_def op_key_of_def dset_def

lemma demo_issued_reachable: "reachable auth_init auth_step (demo_issued, [])"
proof (rule reachable_next)
  show "reachable auth_init auth_step (SingleWriterTicketStore_init, [])"
    by (rule reachable_start) (simp add: auth_init_def)
  show "auth_step (SingleWriterTicketStore_init, []) (demo_issued, [])"
    unfolding demo_issued_def
    by (rule do_issue [OF _ surjective_pairing]) (simp add: SingleWriterTicketStore_init_def)
qed

lemma demo_delivered: "cr_delivered (snd demo_consumed)" "commits demo_issued demo_presentation"
  by (simp_all add: demo_defs commits_def Let_def)

lemma demo_consumed_reachable: "reachable auth_init auth_step (fst demo_consumed, [''act-1''])"
proof (rule reachable_next [OF demo_issued_reachable])
  have "auth_step (demo_issued, []) (fst demo_consumed,
      if cr_delivered (snd demo_consumed) \<and> commits demo_issued demo_presentation
      then [] @ [p_activation_ref demo_presentation] else [])"
    unfolding demo_consumed_def by (rule do_consume) (rule surjective_pairing)
  then show "auth_step (demo_issued, []) (fst demo_consumed, [''act-1''])"
    using demo_delivered by (simp add: demo_presentation_def)
qed

theorem ticket_one_use_witness:
  "\<exists>t. dget (ts_tickets (fst demo_consumed)) ''act-1'' = Some t \<and> t_status t = CONSUMED"
  using ticket_one_use [OF demo_consumed_reachable] by auto

text \<open>
  C6: consuming is idempotent for ever. Once a presentation has been accepted, presenting it again
  after any further operations of the service, at any time, returns the same result and leaves the
  store as it is.
\<close>

theorem consume_idempotent:
  assumes "reachable auth_init auth_step (st, lg)" and "consume p now st = (st1, r)" and "cr_delivered r"
    and "auth_step\<^sup>*\<^sup>* (st1, if commits st p then lg @ [p_activation_ref p] else lg) (st2, lg2)"
  shows "consume p now' st2 = (st2, r)"
proof -
  let ?l1 = "if commits st p then lg @ [p_activation_ref p] else lg"
  have inv: "auth_inv (st, lg)" using assms(1) by (rule gai.reachable_inv)
  have inv1: "auth_inv (st1, ?l1)" using consume_inv [OF assms(2) inv] assms(3) by simp
  obtain t1 where t1: "dget (ts_tickets st1) (p_activation_ref p) = Some t1" "t_status t1 = CONSUMED"
    "bound_to t1 p" "r = activated (ticket_result t1)"
    using assms(2,3)
  proof (cases rule: consume_delivered)
    case (1 t)
    then have "consumed_as (p_activation_ref p) t (st, lg)" using inv by (simp add: consumed_as_def)
    from consume_replays [OF this 1(2), of now] assms(2) 1 show ?thesis by (intro that [of t]) auto
  next
    case (2 t)
    have "t_activation_ref t = p_activation_ref p" using auth_invD(1) [OF inv 2(1)] by (simp add: ticket_ok_def)
    with 2 show ?thesis
      by (intro that [of "t\<lparr>t_status := CONSUMED, t_consumed_at := Some now, t_consumed_op_key := Some (op_key_of p)\<rparr>"])
         (simp_all add: commit_ticket_def Let_def dict_simps bound_to_def ticket_result_def)
  qed
  then have "consumed_as (p_activation_ref p) t1 (st1, ?l1)" using inv1 by (simp add: consumed_as_def)
  with assms(4) have "consumed_as (p_activation_ref p) t1 (st2, lg2)" by (rule gac.reachable_from_inv)
  from consume_replays [OF this t1(3)] t1(4) show ?thesis by simp
qed

theorem consume_idempotent_witness:
  "consume demo_presentation 900 (fst demo_consumed) = (fst demo_consumed, snd demo_consumed)"
proof -
  have "auth_step\<^sup>*\<^sup>* (fst demo_consumed, if commits demo_issued demo_presentation then [] @ [p_activation_ref demo_presentation] else [])
      (fst demo_consumed, [''act-1''])"
    using demo_delivered(2) by (simp add: demo_presentation_def)
  from consume_idempotent [OF demo_issued_reachable _ demo_delivered(1) this, of 10 900] show ?thesis
    by (simp add: demo_consumed_def)
qed

text \<open>
  What a refusal leaves: the ticket presented is marked expired when the purpose agrees and it was
  issued and past its expiry, every other ticket and every other part of the store is as it was, and
  the reference is audited.
\<close>

lemma denied_exactly:
  assumes "consume p now st = (st', r)" and "\<not> cr_delivered r"
    and "\<And>t. dget (ts_tickets st) (p_activation_ref p) = Some t \<Longrightarrow> t_activation_ref t = p_activation_ref p"
  shows "k \<noteq> p_activation_ref p \<Longrightarrow> dget (ts_tickets st') k = dget (ts_tickets st) k"
    and "dget (ts_tickets st') (p_activation_ref p) =
      map_option (\<lambda>t. if t_purpose t = p_purpose p \<and> t_status t = ISSUED \<and> t_expires_at t < now
         then t\<lparr>t_status := EXPIRED\<rparr> else t) (dget (ts_tickets st) (p_activation_ref p))"
    and "\<exists>reason. ts_audit st' = ts_audit st @ [(p_activation_ref p, reason)]"
proof -
  have "(k \<noteq> p_activation_ref p \<longrightarrow> dget (ts_tickets st') k = dget (ts_tickets st) k)
    \<and> dget (ts_tickets st') (p_activation_ref p) =
      map_option (\<lambda>t. if t_purpose t = p_purpose p \<and> t_status t = ISSUED \<and> t_expires_at t < now
         then t\<lparr>t_status := EXPIRED\<rparr> else t) (dget (ts_tickets st) (p_activation_ref p))
    \<and> (\<exists>reason. ts_audit st' = ts_audit st @ [(p_activation_ref p, reason)])"
  proof (cases "dget (ts_tickets st) (p_activation_ref p)")
    case None
    with assms(1) show ?thesis by (auto simp: consume_def consume_transaction_def)
  next
    case (Some t)
    show ?thesis
      using assms(1,2) assms(3) [OF Some] Some
      by (cases "t_status t")
         (auto simp: consume_def consume_transaction_def auth_deny_def dict_simps activated_def
           commit_ticket_def Let_def split: if_splits option.splits)
  qed
  then show "k \<noteq> p_activation_ref p \<Longrightarrow> dget (ts_tickets st') k = dget (ts_tickets st) k"
    and "dget (ts_tickets st') (p_activation_ref p) =
      map_option (\<lambda>t. if t_purpose t = p_purpose p \<and> t_status t = ISSUED \<and> t_expires_at t < now
         then t\<lparr>t_status := EXPIRED\<rparr> else t) (dget (ts_tickets st) (p_activation_ref p))"
    and "\<exists>reason. ts_audit st' = ts_audit st @ [(p_activation_ref p, reason)]"
    by simp_all
qed

text \<open>
  C7: a presentation activates exactly when its ticket exists, every binding agrees, and the ticket
  is consumed (replay) or issued and not past its expiry. Every refusal has the same outcome and no
  result; it touches no association, no idempotency record and no other ticket, leaves the presented
  ticket as it was except that an issued ticket of the same purpose past its expiry is marked
  expired, and appends one audit record for the presented reference.
\<close>

theorem activation_exact:
  assumes "reachable auth_init auth_step (st, lg)" and "consume p now st = (st', r)"
  shows "(cr_delivered r \<longleftrightarrow> (\<exists>t. dget (ts_tickets st) (p_activation_ref p) = Some t \<and> bound_to t p
           \<and> (t_status t = CONSUMED \<or> t_status t = ISSUED \<and> now \<le> t_expires_at t)))
    \<and> (\<not> cr_delivered r \<longrightarrow> cr_outcome r = ACTIVATION_INVALID \<and> cr_result r = None
         \<and> ts_associations st' = ts_associations st \<and> ts_idempotency st' = ts_idempotency st
         \<and> (\<forall>k. k \<noteq> p_activation_ref p \<longrightarrow> dget (ts_tickets st') k = dget (ts_tickets st) k)
         \<and> dget (ts_tickets st') (p_activation_ref p) =
             map_option (\<lambda>t. if t_purpose t = p_purpose p \<and> t_status t = ISSUED \<and> t_expires_at t < now
                then t\<lparr>t_status := EXPIRED\<rparr> else t) (dget (ts_tickets st) (p_activation_ref p))
         \<and> (\<exists>reason. ts_audit st' = ts_audit st @ [(p_activation_ref p, reason)]))"
proof (rule conjI)
  have inv: "auth_inv (st, lg)" by (rule gai.reachable_inv [OF assms(1)])
  show "cr_delivered r \<longleftrightarrow> (\<exists>t. dget (ts_tickets st) (p_activation_ref p) = Some t \<and> bound_to t p
      \<and> (t_status t = CONSUMED \<or> t_status t = ISSUED \<and> now \<le> t_expires_at t))"
    by (rule delivered_iff [OF inv assms(2)])
  have key: "t_activation_ref t = p_activation_ref p"
    if "dget (ts_tickets st) (p_activation_ref p) = Some t" for t
    using auth_invD(1) [OF inv that] by (simp add: ticket_ok_def)
  show "\<not> cr_delivered r \<longrightarrow> cr_outcome r = ACTIVATION_INVALID \<and> cr_result r = None
         \<and> ts_associations st' = ts_associations st \<and> ts_idempotency st' = ts_idempotency st
         \<and> (\<forall>k. k \<noteq> p_activation_ref p \<longrightarrow> dget (ts_tickets st') k = dget (ts_tickets st) k)
         \<and> dget (ts_tickets st') (p_activation_ref p) =
             map_option (\<lambda>t. if t_purpose t = p_purpose p \<and> t_status t = ISSUED \<and> t_expires_at t < now
                then t\<lparr>t_status := EXPIRED\<rparr> else t) (dget (ts_tickets st) (p_activation_ref p))
         \<and> (\<exists>reason. ts_audit st' = ts_audit st @ [(p_activation_ref p, reason)])"
  proof (intro impI conjI allI)
    assume no: "\<not> cr_delivered r"
    then show "cr_outcome r = ACTIVATION_INVALID" "cr_result r = None"
      using consume_cases [of p now st] assms(2) by (simp_all add: denial_def)
  qed (use consume_denied(1,2) [OF assms(2)] denied_exactly [OF assms(2) _ key] in blast)+
qed

theorem activation_exact_witness:
  "\<not> cr_delivered (snd (consume demo_presentation 301 demo_issued))
     \<and> cr_outcome (snd (consume demo_presentation 301 demo_issued)) = ACTIVATION_INVALID
     \<and> ts_associations (fst (consume demo_presentation 301 demo_issued)) = []"
proof -
  have "\<not> cr_delivered (snd (consume demo_presentation 301 demo_issued))" "ts_associations demo_issued = []"
    by (simp_all add: demo_defs auth_deny_def Let_def)
  with activation_exact [OF demo_issued_reachable surjective_pairing, of demo_presentation 301] show ?thesis by simp
qed

text \<open>
  C8: associations move along the transition table only. In one step of the service an existing
  association keeps its state, moves to a successor in the table, or is recreated as observing by
  the commit of an unexpired ticket bound to it. An ended, detached or rejected association changes
  state in no other way.
\<close>

theorem association_moves:
  assumes "auth_step c c'" and "dget (ts_associations (fst c)) aref = Some a"
  shows "recommitted aref c c' \<or> (\<exists>a'. dget (ts_associations (fst c')) aref = Some a'
      \<and> (a_state a' = a_state a \<or> a_state a' \<in> TRANSITIONS (a_state a))
      \<and> (assoc_final (a_state a) \<longrightarrow> a_state a' = a_state a))"
proof -
  have "recommitted aref c c' \<or> (\<exists>a'. dget (ts_associations (fst c')) aref = Some a'
      \<and> (a_state a' = a_state a \<or> a_state a' \<in> TRANSITIONS (a_state a)))"
    using assms
  proof (induction rule: auth_step.induct)
    case (do_consume p now st st' r lg)
    then show ?case using consume_moves [of p now st st' r aref a lg] by auto
  next
    case (do_evaluate aref' now st st' s lg)
    then show ?case using assoc_ops_move(2) [of now a]
      by (auto simp: auth_evaluate_def evaluate_association_def dict_simps Let_def split: option.splits if_splits)
  qed (use assoc_ops_move(1,3) in \<open>auto simp: issue_ticket_def put_ticket_def revoke_ticket_def auth_touch_def
      touch_association_def auth_evaluate_def evaluate_association_def reassociate_def dict_simps
      result_simps Let_def split: option.splits if_splits\<close>)
  then show ?thesis using gat.final_stuck by blast
qed

theorem association_moves_witness:
  "\<exists>c' a'. auth_step (fst demo_consumed, [''act-1'']) c' \<and> dget (ts_associations (fst c')) ''as'' = Some a'
     \<and> a_state a' = RECONNECTING"
proof -
  let ?c = "(fst demo_consumed, [''act-1''])"
  let ?c' = "(fst (auth_evaluate ''as'' 200 (fst demo_consumed)), [''act-1''])"
  have st: "auth_step ?c ?c'" by (rule do_evaluate) (rule surjective_pairing)
  have a: "dget (ts_associations (fst ?c)) ''as'' = Some \<lparr>a_association_ref = ''as'', a_state = OBSERVING,
      a_created_at = 10, a_last_heartbeat_at = 10\<rparr>"
    by (simp add: demo_defs Let_def)
  have "\<not> recommitted ''as'' ?c ?c'" by (simp add: recommitted_def)
  with association_moves [OF st a] obtain a' where "dget (ts_associations (fst ?c')) ''as'' = Some a'" by blast
  moreover have "a_state a' = RECONNECTING" if "dget (ts_associations (fst ?c')) ''as'' = Some a'" for a'
    using that by (simp add: auth_evaluate_def evaluate_association_def a [simplified] assoc_evaluate_def
        IDLE_TTL_S_def GRACE_S_def dict_simps Let_def) auto
  ultimately show ?thesis using st by blast
qed

text \<open>
  The issuer does not keep to one live ticket per association. Two issues in a row with fresh
  tokens leave two issued tickets for the same association on record, under different references.
\<close>

theorem two_live_tickets:
  assumes "tok1 \<noteq> tok2" and "issue_ticket tok1 n1 b now ttl st = (st1, t1)" and "issue_ticket tok2 n2 b now ttl st1 = (st2, t2)"
  shows "t_association_ref t1 = t_association_ref t2
    \<and> dget (ts_tickets st2) (t_activation_ref t1) = Some t1 \<and> t_status t1 = ISSUED
    \<and> dget (ts_tickets st2) (t_activation_ref t2) = Some t2 \<and> t_status t2 = ISSUED
    \<and> t_activation_ref t1 \<noteq> t_activation_ref t2"
  using assms by (auto simp: issue_ticket_def put_ticket_def dict_simps Let_def)

theorem two_live_tickets_witness:
  "\<exists>(st2 :: ticket_store) t1 t2. dget (ts_tickets st2) ''act-1'' = Some t1 \<and> dget (ts_tickets st2) ''act-2'' = Some t2
     \<and> t_status t1 = ISSUED \<and> t_status t2 = ISSUED \<and> t_association_ref t1 = t_association_ref t2"
proof -
  let ?i1 = "issue_ticket ''1'' ''n'' demo_binding 0 300 SingleWriterTicketStore_init"
  let ?i2 = "issue_ticket ''2'' ''m'' demo_binding 0 300 (fst ?i1)"
  have ref: "t_activation_ref (snd ?i1) = ''act-1''" "t_activation_ref (snd ?i2) = ''act-2''"
    by (simp_all add: issue_ticket_def Let_def)
  have ne: "''1'' \<noteq> ''2''" by simp
  from two_live_tickets [OF ne surjective_pairing surjective_pairing, of "''n''" demo_binding 0 300
      SingleWriterTicketStore_init "''m''"] show ?thesis
    unfolding ref by blast
qed

end
