(* ===== verification/GatewayDeny.thy ===== *)
theory GatewayDeny
  imports PyValue
begin

text \<open>
  The composite-deny gate evaluation of \<open>scripts/pd_fleet/gateway_deny.py\<close>: a capability is granted
  only when the eight gates pass. A mapping entry is a gate value or some other object.
\<close>

definition GATE_IDS :: "string list" where
  "GATE_IDS = [''B1'', ''B2'', ''B3'', ''B4'', ''B5'', ''B6'', ''B7'', ''B8'']"

definition CAPABILITIES_V1 :: "string set" where
  "CAPABILITIES_V1 = {''observation''}"

record GateValue =
  gv_present :: bool
  gv_valid :: bool
  gv_capability :: "string option"

record GateDecision =
  gd_allowed :: bool
  gd_denied_by :: "string list"

datatype gate_entry = Gate GateValue | NotAGate

datatype gates_input = Gates "gate_entry dict" | NotAMapping

definition gate_denied :: "gate_entry dict \<Rightarrow> string \<Rightarrow> bool" where
  "gate_denied gates gate_id = (case dget gates gate_id of
       Some (Gate v) \<Rightarrow> if \<not> gv_present v \<or> \<not> gv_valid v then True
         else gate_id = ''B7'' \<and> (case gv_capability v of None \<Rightarrow> True | Some c \<Rightarrow> c \<notin> CAPABILITIES_V1)
     | _ \<Rightarrow> True)"

fun evaluate_gates :: "gates_input \<Rightarrow> GateDecision" where
  "evaluate_gates NotAMapping = \<lparr>gd_allowed = False, gd_denied_by = GATE_IDS\<rparr>"
| "evaluate_gates (Gates gates) =
     (let denied = filter (gate_denied gates) GATE_IDS in \<lparr>gd_allowed = (denied = []), gd_denied_by = denied\<rparr>)"

text \<open>The contract: every gate present and valid, and the capability gate names a v1 capability.\<close>

definition gate_passes :: "gates_input \<Rightarrow> string \<Rightarrow> bool" where
  "gate_passes g i \<longleftrightarrow> (\<exists>d v. g = Gates d \<and> dget d i = Some (Gate v) \<and> gv_present v \<and> gv_valid v
     \<and> (i = ''B7'' \<longrightarrow> gv_capability v = Some ''observation''))"

lemma gate_denied_iff: "gate_denied d i \<longleftrightarrow> \<not> gate_passes (Gates d) i"
  by (auto simp: gate_denied_def gate_passes_def CAPABILITIES_V1_def split: option.splits gate_entry.splits)

text \<open>
  The decision fails closed. Access is granted exactly when all eight gates pass, the refusing
  gates are listed in order and without omission, and a grant cannot be obtained by adding entries
  under other keys: decisions agree on inputs that agree on the eight gates.
\<close>

theorem evaluate_gates_all_pass:
  "(gd_allowed (evaluate_gates g) \<longleftrightarrow> (\<forall>i \<in> set GATE_IDS. gate_passes g i))
   \<and> gd_denied_by (evaluate_gates g) = filter (\<lambda>i. \<not> gate_passes g i) GATE_IDS
   \<and> ((\<forall>i \<in> set GATE_IDS. dget d i = dget d' i) \<longrightarrow> evaluate_gates (Gates d) = evaluate_gates (Gates d'))"
proof (intro conjI impI)
  have den: "evaluate_gates g = \<lparr>gd_allowed = (filter (\<lambda>i. \<not> gate_passes g i) GATE_IDS = []),
      gd_denied_by = filter (\<lambda>i. \<not> gate_passes g i) GATE_IDS\<rparr>"
  proof (cases g)
    case (Gates d)
    moreover have "gate_denied d = (\<lambda>i. \<not> gate_passes (Gates d) i)" by (rule ext) (rule gate_denied_iff)
    ultimately show ?thesis by (simp add: Let_def)
  next
    case NotAMapping
    then have "filter (\<lambda>i. \<not> gate_passes g i) GATE_IDS = GATE_IDS" by (simp add: gate_passes_def)
    moreover have "GATE_IDS \<noteq> []" by (simp add: GATE_IDS_def)
    ultimately show ?thesis using NotAMapping by simp
  qed
  then show "gd_denied_by (evaluate_gates g) = filter (\<lambda>i. \<not> gate_passes g i) GATE_IDS" by simp
  from den show "gd_allowed (evaluate_gates g) \<longleftrightarrow> (\<forall>i \<in> set GATE_IDS. gate_passes g i)"
    by (simp add: filter_empty_conv)
  assume "\<forall>i \<in> set GATE_IDS. dget d i = dget d' i"
  then have "\<forall>i \<in> set GATE_IDS. gate_denied d i = gate_denied d' i" by (simp add: gate_denied_def)
  then have "filter (gate_denied d) GATE_IDS = filter (gate_denied d') GATE_IDS" by (auto intro: filter_cong)
  then show "evaluate_gates (Gates d) = evaluate_gates (Gates d')" by simp
qed

definition demo_gate :: gate_entry where
  "demo_gate = Gate \<lparr>gv_present = True, gv_valid = True, gv_capability = Some ''observation''\<rparr>"

theorem evaluate_gates_all_pass_witness:
  "gd_allowed (evaluate_gates (Gates (map (\<lambda>i. (i, demo_gate)) GATE_IDS)))
   \<and> gd_denied_by (evaluate_gates NotAMapping) = GATE_IDS
   \<and> evaluate_gates (Gates []) = evaluate_gates (Gates [(''B9'', demo_gate)])"
proof (intro conjI)
  have "\<forall>i \<in> set GATE_IDS. gate_passes (Gates (map (\<lambda>i. (i, demo_gate)) GATE_IDS)) i"
    by (auto simp: gate_passes_def GATE_IDS_def demo_gate_def)
  then show "gd_allowed (evaluate_gates (Gates (map (\<lambda>i. (i, demo_gate)) GATE_IDS)))"
    using evaluate_gates_all_pass by blast
  show "gd_denied_by (evaluate_gates NotAMapping) = GATE_IDS" by simp
  have "\<forall>i \<in> set GATE_IDS. dget [] i = dget [(''B9'', demo_gate)] i" by (simp add: GATE_IDS_def)
  then show "evaluate_gates (Gates []) = evaluate_gates (Gates [(''B9'', demo_gate)])"
    using evaluate_gates_all_pass by blast
qed

end
