(* ===== verification/Models.thy ===== *)
theory Models
  imports PyValue
begin

text \<open>
  The plan model of \<open>scripts/pd_fleet/models.py\<close>: normalisation of agents, outputs, retry policies,
  tasks, waves, gates and plans from dynamic values, and \<open>to_dict\<close> back. Checks run in the order of
  the code. Of a \<open>FleetPlanError\<close> only the machine-readable \<open>code\<close> is kept. Entries are given as
  mappings; the shortcut for entries that already are instances of the class is not represented.
\<close>

datatype plan_error = FleetPlanError "string option" | OverflowError | TypeError

type_synonym 'a pres = "(plan_error, 'a) result"

abbreviation plan_err :: plan_error where
  "plan_err \<equiv> FleetPlanError None"

section \<open>Field checks\<close>

definition reject_unknown :: "pymap \<Rightarrow> string list \<Rightarrow> unit pres" where
  "reject_unknown d allowed =
     guardR (\<forall>k \<in> set (map fst d). case as_str k of None \<Rightarrow> False | Some s \<Rightarrow> s \<in> set allowed)
       (FleetPlanError (Some ''unknown_field''))"

definition required_field :: "pymap \<Rightarrow> string \<Rightarrow> pyval pres" where
  "required_field d name = (let v = mget_or d name PNone in
     if v = PNone \<or> (case as_str v of Some s \<Rightarrow> blank s | None \<Rightarrow> False) then Inl plan_err else Inr v)"

definition string_field :: "pyval \<Rightarrow> string pres" where
  "string_field v = (case as_str v of
       Some s \<Rightarrow> if blank s then Inl plan_err else Inr (strip s)
     | None \<Rightarrow> Inl plan_err)"

definition raw_string_field :: "pyval \<Rightarrow> string pres" where
  "raw_string_field v = (case as_str v of Some s \<Rightarrow> Inr s | None \<Rightarrow> Inl plan_err)"

definition list_field :: "pyval \<Rightarrow> pyval list pres" where
  "list_field v = (if v = PNone then Inr [] else
     case as_sequence v of Some xs \<Rightarrow> Inr xs | None \<Rightarrow> Inl plan_err)"

definition string_list :: "pyval \<Rightarrow> string list pres" where
  "string_list v = bindR (list_field v) (\<lambda>items.
     if \<exists>x \<in> set items. as_str x = None then Inl plan_err
     else let normalized = map (\<lambda>x. strip (the (as_str x))) items in
       if \<exists>s \<in> set normalized. s = [] then Inl plan_err else Inr normalized)"

definition id_field :: "pyval \<Rightarrow> string pres" where
  "id_field v = (case as_str v of
       Some s \<Rightarrow> if blank s then Inl plan_err else Inr (strip s)
     | None \<Rightarrow> Inl plan_err)"

definition conflicting_alias :: "'a pres" where
  "conflicting_alias = Inl (FleetPlanError (Some ''conflicting_alias''))"

definition obj_field :: "pyval \<Rightarrow> pymap pres" where
  "obj_field v = (case as_mapping v of Some d \<Rightarrow> Inr d | None \<Rightarrow> Inl plan_err)"

text \<open>\<open>f(d[k]) if d.get(k) is not None else None\<close>.\<close>

definition optional_field :: "(pyval \<Rightarrow> 'a pres) \<Rightarrow> pymap \<Rightarrow> string \<Rightarrow> 'a option pres" where
  "optional_field f d k = (let v = mget_or d k PNone in
     if v = PNone then Inr None else bindR (f v) (\<lambda>x. Inr (Some x)))"

section \<open>Agents\<close>

record AgentSpec =
  ag_id :: string
  ag_role :: string
  ag_capabilities :: "string list"
  ag_status :: string

definition AgentSpec_from_dict :: "pyval \<Rightarrow> AgentSpec pres" where
  "AgentSpec_from_dict v =
     bindR (obj_field v) (\<lambda>d.
     bindR (reject_unknown d [''id'', ''role'', ''capabilities'', ''status'']) (\<lambda>_.
     bindR (bindR (required_field d ''id'') id_field) (\<lambda>i.
     bindR (bindR (required_field d ''role'') string_field) (\<lambda>role.
     bindR (string_list (mget_or d ''capabilities'' PNone)) (\<lambda>caps.
     bindR (string_field (mget_or d ''status'' (PStr ''available''))) (\<lambda>status.
     Inr \<lparr>ag_id = i, ag_role = role, ag_capabilities = caps, ag_status = status\<rparr>))))))"

section \<open>Outputs\<close>

record OutputSpec =
  ou_name :: string
  ou_description :: "string option"
  ou_required :: bool

definition output_name :: "pymap \<Rightarrow> string pres" where
  "output_name d =
     (if mhas d ''name'' \<and> mhas d ''id'' then
        bindR (id_field (mget_or d ''name'' PNone)) (\<lambda>name.
        bindR (id_field (mget_or d ''id'' PNone)) (\<lambda>legacy.
        if name \<noteq> legacy then conflicting_alias else Inr name))
      else if mhas d ''name'' then id_field (mget_or d ''name'' PNone)
      else if mhas d ''id'' then id_field (mget_or d ''id'' PNone)
      else Inl plan_err)"

definition OutputSpec_from_dict :: "pyval \<Rightarrow> OutputSpec pres" where
  "OutputSpec_from_dict v = (case as_str v of
       Some s \<Rightarrow> bindR (id_field v) (\<lambda>n. Inr \<lparr>ou_name = n, ou_description = None, ou_required = True\<rparr>)
     | None \<Rightarrow>
         bindR (obj_field v) (\<lambda>d.
         bindR (reject_unknown d [''name'', ''id'', ''description'', ''required'']) (\<lambda>_.
         bindR (output_name d) (\<lambda>n.
         bindR (optional_field raw_string_field d ''description'') (\<lambda>desc.
         case as_bool (mget_or d ''required'' (PBool True)) of
           None \<Rightarrow> Inl plan_err
         | Some r \<Rightarrow> Inr \<lparr>ou_name = n, ou_description = desc, ou_required = r\<rparr>)))))"

section \<open>Retry policies\<close>

text \<open>
  The backoff is kept as the number object it is: the default is the integer 0, a value read from a
  mapping has gone through \<open>float\<close>.
\<close>

record RetryPolicy =
  rp_max_attempts :: int
  rp_backoff_seconds :: pyval
  rp_retryable_errors :: "string list"

definition RetryPolicy_default :: RetryPolicy where
  "RetryPolicy_default = \<lparr>rp_max_attempts = 1, rp_backoff_seconds = PInt 0, rp_retryable_errors = []\<rparr>"

text \<open>\<open>float(v)\<close> for the two numeric types the check lets through.\<close>

definition to_float :: "pyval \<Rightarrow> pyfloat pres" where
  "to_float v = (case v of
       PInt n \<Rightarrow> (case float_of_int n of Some q \<Rightarrow> Inr (Fin q) | None \<Rightarrow> Inl OverflowError)
     | PFloat f \<Rightarrow> Inr f
     | _ \<Rightarrow> Inl plan_err)"

definition backoff_field :: "pyval \<Rightarrow> pyval pres" where
  "backoff_field v = bindR (to_float v) (\<lambda>f. case as_finite f of
       None \<Rightarrow> Inl plan_err
     | Some q \<Rightarrow> if q < 0 then Inl plan_err else Inr (PFloat (Fin q)))"

definition retry_errors :: "pymap \<Rightarrow> string list pres" where
  "retry_errors d =
     (if mhas d ''retryable_errors'' \<and> mhas d ''retry_on'' then
        bindR (string_list (mget_or d ''retryable_errors'' PNone)) (\<lambda>errors.
        bindR (string_list (mget_or d ''retry_on'' PNone)) (\<lambda>legacy.
        if errors \<noteq> legacy then conflicting_alias else Inr errors))
      else if mhas d ''retryable_errors'' then string_list (mget_or d ''retryable_errors'' PNone)
      else string_list (mget_or d ''retry_on'' PNone))"

definition RetryPolicy_from_dict :: "pyval \<Rightarrow> RetryPolicy pres" where
  "RetryPolicy_from_dict v = (if v = PNone then Inr RetryPolicy_default else
     bindR (obj_field v) (\<lambda>d.
     bindR (reject_unknown d [''max_attempts'', ''backoff_seconds'', ''retryable_errors'', ''retry_on'']) (\<lambda>_.
     case as_int (mget_or d ''max_attempts'' (PInt 1)) of
       None \<Rightarrow> Inl plan_err
     | Some n \<Rightarrow> if n < 1 then Inl plan_err else
         bindR (backoff_field (mget_or d ''backoff_seconds'' (PInt 0))) (\<lambda>b.
         bindR (retry_errors d) (\<lambda>errors.
         bindR (string_list (PList (map PStr errors))) (\<lambda>errors.
         Inr \<lparr>rp_max_attempts = n, rp_backoff_seconds = b, rp_retryable_errors = errors\<rparr>))))))"

section \<open>Tasks\<close>

record TaskSpec =
  tk_id :: string
  tk_wave :: pyval
  tk_role :: string
  tk_objective :: string
  tk_title :: "string option"
  tk_capabilities :: "string list"
  tk_depends_on :: "string list"
  tk_parallel_group :: "string option"
  tk_allowed_paths :: "string list"
  tk_forbidden_paths :: "string list"
  tk_inputs :: pyval
  tk_outputs :: "OutputSpec list"
  tk_acceptance_criteria :: "string list"
  tk_validation_commands :: "string list"
  tk_blocked_when :: "string list"
  tk_retry_policy :: RetryPolicy
  tk_owner :: "string option"
  tk_status :: string

definition task_keys :: "string list" where
  "task_keys = [''id'', ''wave'', ''role'', ''objective'', ''title'', ''capabilities'', ''depends_on'',
     ''parallel_group'', ''allowed_paths'', ''forbidden_paths'', ''inputs'', ''outputs'',
     ''acceptance_criteria'', ''validation_commands'', ''blocked_when'', ''retry_policy'', ''owner'', ''status'']"

definition TaskSpec_from_dict :: "pyval \<Rightarrow> TaskSpec pres" where
  "TaskSpec_from_dict v =
     bindR (obj_field v) (\<lambda>d.
     bindR (reject_unknown d task_keys) (\<lambda>_.
     bindR (mapR (required_field d) [''id'', ''wave'', ''role'', ''objective'']) (\<lambda>_.
     bindR (id_field (mget_or d ''id'' PNone)) (\<lambda>i.
     bindR (string_field (mget_or d ''role'' PNone)) (\<lambda>role.
     bindR (string_field (mget_or d ''objective'' PNone)) (\<lambda>objective.
     bindR (optional_field raw_string_field d ''title'') (\<lambda>title.
     bindR (string_list (mget_or d ''capabilities'' PNone)) (\<lambda>caps.
     bindR (string_list (mget_or d ''depends_on'' PNone)) (\<lambda>deps.
     bindR (optional_field raw_string_field d ''parallel_group'') (\<lambda>group.
     bindR (string_list (mget_or d ''allowed_paths'' PNone)) (\<lambda>allowed.
     bindR (string_list (mget_or d ''forbidden_paths'' PNone)) (\<lambda>forbidden.
     bindR (bindR (list_field (mget_or d ''outputs'' PNone)) (mapR OutputSpec_from_dict)) (\<lambda>outputs.
     bindR (string_list (mget_or d ''acceptance_criteria'' PNone)) (\<lambda>acceptance.
     bindR (string_list (mget_or d ''validation_commands'' PNone)) (\<lambda>commands.
     bindR (string_list (mget_or d ''blocked_when'' PNone)) (\<lambda>blocked.
     bindR (RetryPolicy_from_dict (mget_or d ''retry_policy'' PNone)) (\<lambda>retry.
     bindR (optional_field string_field d ''owner'') (\<lambda>owner.
     bindR (string_field (mget_or d ''status'' (PStr ''pending''))) (\<lambda>status.
     Inr \<lparr>tk_id = i, tk_wave = mget_or d ''wave'' PNone, tk_role = role, tk_objective = objective, tk_title = title,
          tk_capabilities = caps, tk_depends_on = deps, tk_parallel_group = group, tk_allowed_paths = allowed,
          tk_forbidden_paths = forbidden, tk_inputs = mget_or d ''inputs'' (PDict []), tk_outputs = outputs,
          tk_acceptance_criteria = acceptance, tk_validation_commands = commands, tk_blocked_when = blocked,
          tk_retry_policy = retry, tk_owner = owner, tk_status = status\<rparr>)))))))))))))))))))"

section \<open>Waves, gates and plans\<close>

record WaveSpec =
  wv_id :: string
  wv_tasks :: "string list"
  wv_status :: string
  wv_gates :: "string list"

definition WaveSpec_from_dict :: "pyval \<Rightarrow> WaveSpec pres" where
  "WaveSpec_from_dict v =
     bindR (obj_field v) (\<lambda>d.
     bindR (reject_unknown d [''id'', ''tasks'', ''status'', ''gates'']) (\<lambda>_.
     bindR (bindR (required_field d ''id'') id_field) (\<lambda>i.
     bindR (string_list (mget_or d ''tasks'' PNone)) (\<lambda>tasks.
     bindR (string_field (mget_or d ''status'' (PStr ''pending''))) (\<lambda>status.
     bindR (string_list (mget_or d ''gates'' PNone)) (\<lambda>gates.
     Inr \<lparr>wv_id = i, wv_tasks = tasks, wv_status = status, wv_gates = gates\<rparr>))))))"

record GateSpec =
  gt_id :: string
  gt_kind :: string
  gt_scope :: string
  gt_owner :: "string option"
  gt_status :: string
  gt_required_evidence :: "string list"

definition GateSpec_from_dict :: "pyval \<Rightarrow> GateSpec pres" where
  "GateSpec_from_dict v =
     bindR (obj_field v) (\<lambda>d.
     bindR (reject_unknown d [''id'', ''kind'', ''scope'', ''owner'', ''status'', ''required_evidence'']) (\<lambda>_.
     bindR (optional_field raw_string_field d ''owner'') (\<lambda>owner.
     bindR (bindR (required_field d ''id'') id_field) (\<lambda>i.
     bindR (string_field (mget_or d ''kind'' (PStr ''validation''))) (\<lambda>kind.
     bindR (string_field (mget_or d ''scope'' (PStr ''plan''))) (\<lambda>scope.
     bindR (string_field (mget_or d ''status'' (PStr ''pending''))) (\<lambda>status.
     bindR (string_list (mget_or d ''required_evidence'' PNone)) (\<lambda>evidence.
     Inr \<lparr>gt_id = i, gt_kind = kind, gt_scope = scope, gt_owner = owner, gt_status = status,
          gt_required_evidence = evidence\<rparr>))))))))"

record FleetPlan =
  fp_schema_version :: string
  fp_agents :: "AgentSpec list"
  fp_waves :: "WaveSpec list"
  fp_tasks :: "TaskSpec list"
  fp_gates :: "GateSpec list"

definition SCHEMA_VERSION :: string where "SCHEMA_VERSION = ''1''"

definition unique_ids :: "string list \<Rightarrow> unit pres" where
  "unique_ids ids = guardR (distinct ids) plan_err"

definition items_field :: "(pyval \<Rightarrow> 'a pres) \<Rightarrow> pymap \<Rightarrow> string \<Rightarrow> 'a list pres" where
  "items_field f d k = bindR (list_field (mget_or d k PNone)) (mapR f)"

definition FleetPlan_from_dict :: "pyval \<Rightarrow> FleetPlan pres" where
  "FleetPlan_from_dict v =
     bindR (obj_field v) (\<lambda>d.
     bindR (reject_unknown d [''schema_version'', ''agents'', ''waves'', ''tasks'', ''gates'']) (\<lambda>_.
     if mget_or d ''schema_version'' (PStr SCHEMA_VERSION) \<noteq> PStr SCHEMA_VERSION then Inl plan_err else
     bindR (items_field AgentSpec_from_dict d ''agents'') (\<lambda>agents.
     bindR (items_field WaveSpec_from_dict d ''waves'') (\<lambda>waves.
     bindR (items_field TaskSpec_from_dict d ''tasks'') (\<lambda>tasks.
     bindR (items_field GateSpec_from_dict d ''gates'') (\<lambda>gates.
     bindR (unique_ids (map ag_id agents)) (\<lambda>_.
     bindR (unique_ids (map wv_id waves)) (\<lambda>_.
     bindR (unique_ids (map tk_id tasks)) (\<lambda>_.
     bindR (unique_ids (map gt_id gates)) (\<lambda>_.
     Inr \<lparr>fp_schema_version = SCHEMA_VERSION, fp_agents = agents, fp_waves = waves, fp_tasks = tasks,
          fp_gates = gates\<rparr>))))))))))"

section \<open>Back to dynamic values\<close>

text \<open>
  \<open>asdict\<close> copies nested values: containers are rebuilt, other objects go through
  \<open>copy.deepcopy\<close>, which raises \<open>TypeError\<close> on a mapping proxy. An opaque object and its copy are the
  same value here.
\<close>

definition asdict_value :: "pyval \<Rightarrow> pyval pres" where
  "asdict_value v = (if has_proxy v then Inl TypeError else Inr v)"

definition strs :: "string list \<Rightarrow> pyval" where
  "strs xs = PList (map PStr xs)"

definition opt_str :: "string option \<Rightarrow> pyval" where
  "opt_str x = (case x of None \<Rightarrow> PNone | Some s \<Rightarrow> PStr s)"

definition AgentSpec_to_dict :: "AgentSpec \<Rightarrow> pyval" where
  "AgentSpec_to_dict a = PDict (str_keyed [(''id'', PStr (ag_id a)), (''role'', PStr (ag_role a)),
     (''capabilities'', strs (ag_capabilities a)), (''status'', PStr (ag_status a))])"

definition OutputSpec_to_dict :: "OutputSpec \<Rightarrow> pyval" where
  "OutputSpec_to_dict x = PDict (str_keyed [(''name'', PStr (ou_name x)), (''description'', opt_str (ou_description x)),
     (''required'', PBool (ou_required x))])"

definition RetryPolicy_to_dict :: "RetryPolicy \<Rightarrow> pyval" where
  "RetryPolicy_to_dict r = PDict (str_keyed [(''max_attempts'', PInt (rp_max_attempts r)),
     (''backoff_seconds'', rp_backoff_seconds r), (''retryable_errors'', strs (rp_retryable_errors r))])"

definition TaskSpec_to_dict :: "TaskSpec \<Rightarrow> pyval pres" where
  "TaskSpec_to_dict t = bindR (asdict_value (tk_wave t)) (\<lambda>wave. bindR (asdict_value (tk_inputs t)) (\<lambda>inputs.
     Inr (PDict (str_keyed [(''id'', PStr (tk_id t)), (''wave'', wave), (''role'', PStr (tk_role t)),
       (''objective'', PStr (tk_objective t)), (''title'', opt_str (tk_title t)),
       (''capabilities'', strs (tk_capabilities t)), (''depends_on'', strs (tk_depends_on t)),
       (''parallel_group'', opt_str (tk_parallel_group t)), (''allowed_paths'', strs (tk_allowed_paths t)),
       (''forbidden_paths'', strs (tk_forbidden_paths t)), (''inputs'', inputs),
       (''outputs'', PList (map OutputSpec_to_dict (tk_outputs t))),
       (''acceptance_criteria'', strs (tk_acceptance_criteria t)),
       (''validation_commands'', strs (tk_validation_commands t)), (''blocked_when'', strs (tk_blocked_when t)),
       (''retry_policy'', RetryPolicy_to_dict (tk_retry_policy t)), (''owner'', opt_str (tk_owner t)),
       (''status'', PStr (tk_status t))]))))"

definition WaveSpec_to_dict :: "WaveSpec \<Rightarrow> pyval" where
  "WaveSpec_to_dict w = PDict (str_keyed [(''id'', PStr (wv_id w)), (''tasks'', strs (wv_tasks w)),
     (''status'', PStr (wv_status w)), (''gates'', strs (wv_gates w))])"

definition GateSpec_to_dict :: "GateSpec \<Rightarrow> pyval" where
  "GateSpec_to_dict g = PDict (str_keyed [(''id'', PStr (gt_id g)), (''kind'', PStr (gt_kind g)),
     (''scope'', PStr (gt_scope g)), (''owner'', opt_str (gt_owner g)), (''status'', PStr (gt_status g)),
     (''required_evidence'', strs (gt_required_evidence g))])"

definition FleetPlan_to_dict :: "FleetPlan \<Rightarrow> pyval pres" where
  "FleetPlan_to_dict p = bindR (mapR TaskSpec_to_dict (fp_tasks p)) (\<lambda>tasks.
     Inr (PDict (str_keyed [(''schema_version'', PStr (fp_schema_version p)),
       (''agents'', PList (map AgentSpec_to_dict (fp_agents p))),
       (''waves'', PList (map WaveSpec_to_dict (fp_waves p))), (''tasks'', PList tasks),
       (''gates'', PList (map GateSpec_to_dict (fp_gates p)))])))"

section \<open>Normal forms\<close>

text \<open>A clean string is non-empty and has no surrounding white space.\<close>

definition clean :: "string \<Rightarrow> bool" where
  "clean s \<longleftrightarrow> s \<noteq> [] \<and> strip s = s"

lemma clean_strip: "\<not> blank s \<Longrightarrow> clean (strip s)"
  by (simp add: clean_def)

lemma clean_not_blank: "clean s \<Longrightarrow> \<not> blank s"
  by (auto simp: clean_def blank_def)

named_theorems plan_clean \<open>what a successful field check says about its result\<close>
named_theorems plan_back \<open>field checks on values in normal form\<close>

lemma string_field_clean [plan_clean]: "string_field v = Inr s \<Longrightarrow> clean s"
  by (auto simp: string_field_def clean_strip split: option.splits if_splits)

lemma id_field_clean [plan_clean]: "id_field v = Inr s \<Longrightarrow> clean s"
  by (auto simp: id_field_def clean_strip split: option.splits if_splits)

lemma string_list_clean [plan_clean]: "string_list v = Inr xs \<Longrightarrow> list_all clean xs"
  by (auto simp: string_list_def result_simps list_all_iff clean_def Let_def split: if_splits)

lemma output_name_clean [plan_clean]: "output_name d = Inr s \<Longrightarrow> clean s"
  by (auto simp: output_name_def result_simps conflicting_alias_def split: if_splits dest: plan_clean)

lemma optional_string_clean [plan_clean]: "optional_field string_field d k = Inr x \<Longrightarrow> pred_option clean x"
  by (auto simp: optional_field_def result_simps Let_def split: if_splits dest: plan_clean)

lemma required_field_Inr [plan_clean]: "required_field d k = Inr v \<Longrightarrow> v = mget_or d k PNone \<and> v \<noteq> PNone \<and> (\<forall>s. v = PStr s \<longrightarrow> \<not> blank s)"
  by (auto simp: required_field_def Let_def split: if_splits option.splits)

definition wave_ok :: "pyval \<Rightarrow> bool" where
  "wave_ok v \<longleftrightarrow> v \<noteq> PNone \<and> (\<forall>s. v = PStr s \<longrightarrow> \<not> blank s)"

definition agent_wf :: "AgentSpec \<Rightarrow> bool" where
  "agent_wf a \<longleftrightarrow> clean (ag_id a) \<and> clean (ag_role a) \<and> list_all clean (ag_capabilities a) \<and> clean (ag_status a)"

definition output_wf :: "OutputSpec \<Rightarrow> bool" where
  "output_wf x \<longleftrightarrow> clean (ou_name x)"

definition retry_wf :: "RetryPolicy \<Rightarrow> bool" where
  "retry_wf r \<longleftrightarrow> 1 \<le> rp_max_attempts r \<and> list_all clean (rp_retryable_errors r)
     \<and> (rp_backoff_seconds r = PInt 0 \<or> (\<exists>q \<ge> 0. rp_backoff_seconds r = PFloat (Fin q)))"

definition task_wf :: "TaskSpec \<Rightarrow> bool" where
  "task_wf t \<longleftrightarrow> clean (tk_id t) \<and> wave_ok (tk_wave t) \<and> clean (tk_role t) \<and> clean (tk_objective t)
     \<and> list_all clean (tk_capabilities t) \<and> list_all clean (tk_depends_on t) \<and> list_all clean (tk_allowed_paths t)
     \<and> list_all clean (tk_forbidden_paths t) \<and> list_all output_wf (tk_outputs t)
     \<and> list_all clean (tk_acceptance_criteria t) \<and> list_all clean (tk_validation_commands t)
     \<and> list_all clean (tk_blocked_when t) \<and> retry_wf (tk_retry_policy t) \<and> pred_option clean (tk_owner t)
     \<and> clean (tk_status t)"

definition wave_wf :: "WaveSpec \<Rightarrow> bool" where
  "wave_wf w \<longleftrightarrow> clean (wv_id w) \<and> list_all clean (wv_tasks w) \<and> clean (wv_status w) \<and> list_all clean (wv_gates w)"

definition gate_wf :: "GateSpec \<Rightarrow> bool" where
  "gate_wf g \<longleftrightarrow> clean (gt_id g) \<and> clean (gt_kind g) \<and> clean (gt_scope g) \<and> clean (gt_status g)
     \<and> list_all clean (gt_required_evidence g)"

definition plan_wf :: "FleetPlan \<Rightarrow> bool" where
  "plan_wf p \<longleftrightarrow> fp_schema_version p = SCHEMA_VERSION \<and> list_all agent_wf (fp_agents p) \<and> list_all wave_wf (fp_waves p)
     \<and> list_all task_wf (fp_tasks p) \<and> list_all gate_wf (fp_gates p) \<and> distinct (map ag_id (fp_agents p))
     \<and> distinct (map wv_id (fp_waves p)) \<and> distinct (map tk_id (fp_tasks p)) \<and> distinct (map gt_id (fp_gates p))"

lemma mapR_list_all: "mapR f xs = Inr ys \<Longrightarrow> (\<And>x y. f x = Inr y \<Longrightarrow> P y) \<Longrightarrow> list_all P ys"
  by (auto simp: list_all_iff dest!: mapR_set)

lemma AgentSpec_wf: "AgentSpec_from_dict v = Inr a \<Longrightarrow> agent_wf a"
  by (auto simp: AgentSpec_from_dict_def result_simps agent_wf_def dest: plan_clean)

lemma OutputSpec_wf: "OutputSpec_from_dict v = Inr x \<Longrightarrow> output_wf x"
  by (auto simp: OutputSpec_from_dict_def result_simps output_wf_def split: option.split_asm dest: plan_clean)

lemma backoff_field_Inr: "backoff_field v = Inr b \<Longrightarrow> \<exists>q \<ge> 0. b = PFloat (Fin q)"
  by (auto simp: backoff_field_def result_simps)

lemma RetryPolicy_wf: "RetryPolicy_from_dict v = Inr r \<Longrightarrow> retry_wf r"
  by (auto simp: RetryPolicy_from_dict_def RetryPolicy_default_def result_simps retry_wf_def
      split: if_split_asm dest: string_list_clean backoff_field_Inr)

lemma TaskSpec_wf: "TaskSpec_from_dict v = Inr t \<Longrightarrow> task_wf t"
  by (auto simp: TaskSpec_from_dict_def result_simps task_wf_def wave_ok_def
      dest: plan_clean RetryPolicy_wf elim!: mapR_list_all intro: OutputSpec_wf)

lemma WaveSpec_wf: "WaveSpec_from_dict v = Inr w \<Longrightarrow> wave_wf w"
  by (auto simp: WaveSpec_from_dict_def result_simps wave_wf_def dest: plan_clean)

lemma GateSpec_wf: "GateSpec_from_dict v = Inr g \<Longrightarrow> gate_wf g"
  by (auto simp: GateSpec_from_dict_def result_simps gate_wf_def dest: plan_clean)

lemma items_field_wf: "items_field f d k = Inr xs \<Longrightarrow> (\<And>v x. f v = Inr x \<Longrightarrow> P x) \<Longrightarrow> list_all P xs"
  by (auto simp: items_field_def result_simps intro: mapR_list_all)

lemma FleetPlan_wf: "FleetPlan_from_dict v = Inr p \<Longrightarrow> plan_wf p"
  by (auto simp: FleetPlan_from_dict_def result_simps plan_wf_def unique_ids_def split: if_splits
      elim!: items_field_wf intro: AgentSpec_wf WaveSpec_wf TaskSpec_wf GateSpec_wf)

section \<open>Reading a normal form back\<close>

lemma string_field_back [plan_back]: "clean s \<Longrightarrow> string_field (PStr s) = Inr s"
  by (simp add: string_field_def clean_not_blank) (simp add: clean_def)

lemma id_field_back [plan_back]: "clean s \<Longrightarrow> id_field (PStr s) = Inr s"
  by (simp add: id_field_def clean_not_blank) (simp add: clean_def)

lemma raw_string_back [plan_back]: "raw_string_field (PStr s) = Inr s"
  by (simp add: raw_string_field_def)

lemma string_list_back [plan_back]: "list_all clean xs \<Longrightarrow> string_list (strs xs) = Inr xs"
proof -
  assume c: "list_all clean xs"
  then have "map (\<lambda>x. strip (the (as_str x))) (map PStr xs) = xs" by (auto simp: list_all_iff clean_def map_idI)
  with c show ?thesis by (auto simp: string_list_def strs_def list_field_def list_all_iff clean_def Let_def)
qed

lemma required_back [plan_back]: "mget_or d k PNone = PStr s \<Longrightarrow> clean s \<Longrightarrow> required_field d k = Inr (PStr s)"
  by (simp add: required_field_def clean_not_blank)

lemma required_wave_back [plan_back]: "mget_or d k PNone = v \<Longrightarrow> wave_ok v \<Longrightarrow> required_field d k = Inr v"
  by (cases v) (auto simp: required_field_def wave_ok_def)

lemma optional_back [plan_back]:
  "mget_or d k PNone = opt_str x \<Longrightarrow> optional_field raw_string_field d k = Inr x"
  "mget_or d k PNone = opt_str x \<Longrightarrow> pred_option clean x \<Longrightarrow> optional_field string_field d k = Inr x"
  by (auto simp: optional_field_def opt_str_def raw_string_field_def string_field_back split: option.splits)

lemma obj_back [simp]: "obj_field (PDict d) = Inr d"
  by (simp add: obj_field_def)

lemma list_field_back [simp]: "list_field (PList xs) = Inr xs"
  by (simp add: list_field_def)

lemma AgentSpec_back: "agent_wf a \<Longrightarrow> AgentSpec_from_dict (AgentSpec_to_dict a) = Inr a"
  by (simp add: AgentSpec_from_dict_def AgentSpec_to_dict_def agent_wf_def str_keyed_def reject_unknown_def plan_back)

lemma OutputSpec_back: "output_wf x \<Longrightarrow> OutputSpec_from_dict (OutputSpec_to_dict x) = Inr x"
  by (simp add: OutputSpec_from_dict_def OutputSpec_to_dict_def output_wf_def str_keyed_def reject_unknown_def
      output_name_def plan_back)

lemma WaveSpec_back: "wave_wf w \<Longrightarrow> WaveSpec_from_dict (WaveSpec_to_dict w) = Inr w"
  by (simp add: WaveSpec_from_dict_def WaveSpec_to_dict_def wave_wf_def str_keyed_def reject_unknown_def plan_back)

lemma GateSpec_back: "gate_wf g \<Longrightarrow> GateSpec_from_dict (GateSpec_to_dict g) = Inr g"
  by (simp add: GateSpec_from_dict_def GateSpec_to_dict_def gate_wf_def str_keyed_def reject_unknown_def plan_back)

text \<open>Reading back turns the default backoff into a float; nothing else changes.\<close>

definition retry_floated :: "RetryPolicy \<Rightarrow> RetryPolicy" where
  "retry_floated r = (if rp_backoff_seconds r = PInt 0 then r\<lparr>rp_backoff_seconds := PFloat (Fin 0)\<rparr> else r)"

definition task_floated :: "TaskSpec \<Rightarrow> TaskSpec" where
  "task_floated t = t\<lparr>tk_retry_policy := retry_floated (tk_retry_policy t)\<rparr>"

definition plan_floated :: "FleetPlan \<Rightarrow> FleetPlan" where
  "plan_floated p = p\<lparr>fp_tasks := map task_floated (fp_tasks p)\<rparr>"

lemma RetryPolicy_back: "retry_wf r \<Longrightarrow> RetryPolicy_from_dict (RetryPolicy_to_dict r) = Inr (retry_floated r)"
  using string_list_back [of "rp_retryable_errors r"]
  by (auto simp: RetryPolicy_from_dict_def RetryPolicy_to_dict_def retry_wf_def str_keyed_def reject_unknown_def
      retry_errors_def backoff_field_def to_float_def float_of_int_exact retry_floated_def strs_def)

lemma TaskSpec_back:
  assumes wf: "task_wf t" and td: "TaskSpec_to_dict t = Inr v"
  shows "TaskSpec_from_dict v = Inr (task_floated t)"
proof -
  have outs: "mapR OutputSpec_from_dict (map OutputSpec_to_dict (tk_outputs t)) = Inr (tk_outputs t)"
    using wf by (intro mapR_id) (auto simp: task_wf_def list_all_iff OutputSpec_back)
  have rty: "RetryPolicy_from_dict (RetryPolicy_to_dict (tk_retry_policy t)) = Inr (retry_floated (tk_retry_policy t))"
    using wf by (simp add: task_wf_def RetryPolicy_back)
  show ?thesis
    using wf td outs rty
    by (auto simp: TaskSpec_to_dict_def asdict_value_def result_simps TaskSpec_from_dict_def task_keys_def
        str_keyed_def reject_unknown_def plan_back task_wf_def task_floated_def split: if_splits)
qed

lemma FleetPlan_back:
  assumes wf: "plan_wf p" and td: "FleetPlan_to_dict p = Inr v"
  shows "FleetPlan_from_dict v = Inr (plan_floated p)"
proof -
  from td obtain ts where ts: "mapR TaskSpec_to_dict (fp_tasks p) = Inr ts"
    and v: "v = PDict (str_keyed [(''schema_version'', PStr (fp_schema_version p)),
       (''agents'', PList (map AgentSpec_to_dict (fp_agents p))),
       (''waves'', PList (map WaveSpec_to_dict (fp_waves p))), (''tasks'', PList ts),
       (''gates'', PList (map GateSpec_to_dict (fp_gates p)))])"
    by (auto simp: FleetPlan_to_dict_def result_simps)
  have "list_all2 (\<lambda>x y. TaskSpec_to_dict x = Inr y) (fp_tasks p) ts" using ts by (simp add: mapR_eq_Inr)
  moreover have "list_all task_wf (fp_tasks p)" using wf by (simp add: plan_wf_def)
  ultimately have "list_all2 (\<lambda>x y. TaskSpec_from_dict x = Inr y) ts (map task_floated (fp_tasks p))"
    by (auto simp: list_all2_conv_all_nth list_all_length intro: TaskSpec_back)
  then have tasks: "mapR TaskSpec_from_dict ts = Inr (map task_floated (fp_tasks p))" by (simp add: mapR_eq_Inr)
  have agents: "mapR AgentSpec_from_dict (map AgentSpec_to_dict (fp_agents p)) = Inr (fp_agents p)"
    using wf by (intro mapR_id) (auto simp: plan_wf_def list_all_iff AgentSpec_back)
  have waves: "mapR WaveSpec_from_dict (map WaveSpec_to_dict (fp_waves p)) = Inr (fp_waves p)"
    using wf by (intro mapR_id) (auto simp: plan_wf_def list_all_iff WaveSpec_back)
  have gates: "mapR GateSpec_from_dict (map GateSpec_to_dict (fp_gates p)) = Inr (fp_gates p)"
    using wf by (intro mapR_id) (auto simp: plan_wf_def list_all_iff GateSpec_back)
  have ids: "map tk_id (map task_floated (fp_tasks p)) = map tk_id (fp_tasks p)" by (simp add: task_floated_def)
  have "distinct (map ag_id (fp_agents p)) \<and> distinct (map wv_id (fp_waves p)) \<and> distinct (map tk_id (fp_tasks p))
      \<and> distinct (map gt_id (fp_gates p)) \<and> fp_schema_version p = SCHEMA_VERSION"
    using wf by (simp add: plan_wf_def)
  then show ?thesis
    by (simp add: v FleetPlan_from_dict_def str_keyed_def reject_unknown_def items_field_def tasks agents waves gates
        unique_ids_def ids plan_floated_def del: map_map)
qed

lemma floated_idem: "plan_floated (plan_floated p) = plan_floated p"
  by (simp add: plan_floated_def task_floated_def retry_floated_def)

section \<open>Properties\<close>

text \<open>
  C9: a plan that is accepted is in normal form: the schema version is the supported one, the ids of
  agents, waves, tasks and gates are unique, names and list entries are non-empty and stripped, every
  retry policy allows at least one attempt and has a finite, non-negative backoff.
\<close>

theorem accepted_plan_normal:
  "FleetPlan_from_dict v = Inr p \<Longrightarrow> plan_wf p"
  by (rule FleetPlan_wf)

definition demo_task :: "(string \<times> pyval) list \<Rightarrow> pyval" where
  "demo_task kvs = PDict (str_keyed ([(''id'', PStr '' t1 ''), (''wave'', PInt 1), (''role'', PStr ''dev''),
     (''objective'', PStr ''do'')] @ kvs))"

definition demo_plan_value :: "(string \<times> pyval) list \<Rightarrow> pyval" where
  "demo_plan_value kvs = PDict (str_keyed [(''tasks'', PList [demo_task kvs])])"

definition demo_plan :: FleetPlan where
  "demo_plan = \<lparr>fp_schema_version = ''1'', fp_agents = [], fp_waves = [], fp_tasks =
     [\<lparr>tk_id = ''t1'', tk_wave = PInt 1, tk_role = ''dev'', tk_objective = ''do'', tk_title = None,
       tk_capabilities = [], tk_depends_on = [], tk_parallel_group = None, tk_allowed_paths = [],
       tk_forbidden_paths = [], tk_inputs = PDict [], tk_outputs = [], tk_acceptance_criteria = [],
       tk_validation_commands = [], tk_blocked_when = [], tk_retry_policy = RetryPolicy_default,
       tk_owner = None, tk_status = ''pending''\<rparr>], fp_gates = []\<rparr>"

lemmas plan_defs = FleetPlan_from_dict_def items_field_def TaskSpec_from_dict_def task_keys_def str_keyed_def
  reject_unknown_def required_field_def id_field_def string_field_def raw_string_field_def optional_field_def
  string_list_def list_field_def obj_field_def unique_ids_def SCHEMA_VERSION_def RetryPolicy_from_dict_def
  strip_def blank_def is_space_def

lemma demo_plan_accepted: "FleetPlan_from_dict (demo_plan_value []) = Inr demo_plan"
  by (simp add: demo_plan_value_def demo_task_def demo_plan_def plan_defs Let_def)

theorem accepted_plan_normal_witness: "plan_wf demo_plan"
  by (rule accepted_plan_normal) (rule demo_plan_accepted)

text \<open>
  C10: round trip. The value that an accepted plan is written to is accepted again and gives the same
  plan, up to the numeric type of a default backoff; from the second pass on the plan is a fixed
  point.
\<close>

theorem plan_round_trip:
  assumes "FleetPlan_from_dict v = Inr p" and "FleetPlan_to_dict p = Inr v'"
  shows "FleetPlan_from_dict v' = Inr (plan_floated p)
    \<and> (\<forall>v''. FleetPlan_to_dict (plan_floated p) = Inr v'' \<longrightarrow> FleetPlan_from_dict v'' = Inr (plan_floated p))"
proof -
  have first: "FleetPlan_from_dict v' = Inr (plan_floated p)" by (rule FleetPlan_back [OF FleetPlan_wf [OF assms(1)] assms(2)])
  from FleetPlan_back [OF FleetPlan_wf [OF this]] first show ?thesis by (simp add: floated_idem)
qed

definition demo_plan_dict :: pyval where
  "demo_plan_dict = PDict (str_keyed [(''schema_version'', PStr ''1''), (''agents'', PList []), (''waves'', PList []),
     (''tasks'', PList [PDict (str_keyed [(''id'', PStr ''t1''), (''wave'', PInt 1), (''role'', PStr ''dev''),
       (''objective'', PStr ''do''), (''title'', PNone), (''capabilities'', PList []), (''depends_on'', PList []),
       (''parallel_group'', PNone), (''allowed_paths'', PList []), (''forbidden_paths'', PList []),
       (''inputs'', PDict []), (''outputs'', PList []), (''acceptance_criteria'', PList []),
       (''validation_commands'', PList []), (''blocked_when'', PList []),
       (''retry_policy'', PDict (str_keyed [(''max_attempts'', PInt 1), (''backoff_seconds'', PInt 0),
          (''retryable_errors'', PList [])])), (''owner'', PNone), (''status'', PStr ''pending'')])]),
     (''gates'', PList [])])"

lemma demo_plan_written: "FleetPlan_to_dict demo_plan = Inr demo_plan_dict"
  by (simp add: FleetPlan_to_dict_def demo_plan_def demo_plan_dict_def TaskSpec_to_dict_def asdict_value_def
      strs_def opt_str_def RetryPolicy_to_dict_def RetryPolicy_default_def)

theorem plan_round_trip_witness: "FleetPlan_from_dict demo_plan_dict = Inr (plan_floated demo_plan)"
  using plan_round_trip [OF demo_plan_accepted demo_plan_written] by blast

text \<open>
  The written form is not stable under the round trip. A task with the default retry policy is
  written with the integer backoff 0, and reading that value back and writing it again gives a
  different value, with the float 0.0.
\<close>

theorem default_backoff_unstable:
  assumes "FleetPlan_from_dict v = Inr p" and "t \<in> set (fp_tasks p)" and "tk_retry_policy t = RetryPolicy_default"
    and "FleetPlan_to_dict p = Inr v1"
  shows "FleetPlan_from_dict v1 \<noteq> Inr p
    \<and> (\<forall>p2. FleetPlan_from_dict v1 = Inr p2 \<longrightarrow> FleetPlan_to_dict p2 \<noteq> Inr v1)"
proof -
  have rd: "FleetPlan_from_dict v1 = Inr (plan_floated p)" by (rule FleetPlan_back [OF FleetPlan_wf [OF assms(1)] assms(4)])
  have "task_floated t \<noteq> t" using assms(3)
    by (cases t) (simp add: task_floated_def retry_floated_def RetryPolicy_default_def)
  with assms(2) have ne: "plan_floated p \<noteq> p"
    by (cases p) (auto simp: plan_floated_def map_idI dest: map_eq_conv [THEN iffD1, of _ _ "\<lambda>x. x", simplified])
  have "FleetPlan_to_dict (plan_floated p) \<noteq> Inr v1"
  proof
    assume eq: "FleetPlan_to_dict (plan_floated p) = Inr v1"
    obtain i where i: "i < length (fp_tasks p)" "fp_tasks p ! i = t" using assms(2) by (auto simp: in_set_conv_nth)
    from assms(4) eq obtain ts where "mapR TaskSpec_to_dict (fp_tasks p) = Inr ts"
      and "mapR TaskSpec_to_dict (map task_floated (fp_tasks p)) = Inr ts"
      by (auto simp: FleetPlan_to_dict_def result_simps plan_floated_def str_keyed_def)
    then have "TaskSpec_to_dict t = TaskSpec_to_dict (task_floated t)"
      using i by (auto simp: mapR_eq_Inr list_all2_conv_all_nth)
    then show False using assms(3) \<open>mapR TaskSpec_to_dict (fp_tasks p) = Inr ts\<close> i
      by (auto simp: TaskSpec_to_dict_def result_simps task_floated_def retry_floated_def RetryPolicy_default_def
          RetryPolicy_to_dict_def asdict_value_def str_keyed_def mapR_eq_Inr list_all2_conv_all_nth split: if_splits)
  qed
  with rd ne show ?thesis by simp
qed

theorem default_backoff_unstable_witness: "FleetPlan_from_dict demo_plan_dict \<noteq> Inr demo_plan"
proof -
  have t: "hd (fp_tasks demo_plan) \<in> set (fp_tasks demo_plan)" "tk_retry_policy (hd (fp_tasks demo_plan)) = RetryPolicy_default"
    by (simp_all add: demo_plan_def)
  from default_backoff_unstable [OF demo_plan_accepted t demo_plan_written] show ?thesis by blast
qed

lemma backoff_overflow: "backoff_field v = Inl OverflowError \<longleftrightarrow> (\<exists>n. v = PInt n \<and> float_of_int n = None)"
  by (cases v) (auto simp: backoff_field_def to_float_def result_simps split: option.splits if_splits)

lemma fields_no_overflow:
  "obj_field v \<noteq> Inl OverflowError" "reject_unknown d ks \<noteq> Inl OverflowError" "list_field v \<noteq> Inl OverflowError"
  by (auto simp: obj_field_def reject_unknown_def list_field_def split: option.splits)

lemma string_list_no_overflow: "string_list v \<noteq> Inl OverflowError" "retry_errors d \<noteq> Inl OverflowError"
proof -
  show sl: "string_list v \<noteq> Inl OverflowError" for v
    using fields_no_overflow(3) [of v] by (auto simp: string_list_def result_simps Let_def split: if_splits)
  then show "retry_errors d \<noteq> Inl OverflowError"
    by (auto simp: retry_errors_def conflicting_alias_def result_simps split: if_splits)
qed

lemma RetryPolicy_overflow:
  "RetryPolicy_from_dict v = Inl OverflowError \<Longrightarrow>
     \<exists>d n. as_mapping v = Some d \<and> mget d ''backoff_seconds'' = Some (PInt n) \<and> float_of_int n = None"
  using fields_no_overflow string_list_no_overflow
  by (auto simp: RetryPolicy_from_dict_def obj_field_def mget_or_def result_simps backoff_overflow float_of_int_exact
      split: if_splits option.splits)

text \<open>
  A retry policy whose backoff is an integer of at least \<open>2 ^ 1024\<close> is not reported as a contract
  error: the conversion raises \<open>OverflowError\<close>, which is not a \<open>FleetPlanError\<close>; an unconvertible
  integer backoff is the only cause of that exception.
\<close>

theorem backoff_overflow_escapes:
  "2 ^ 1024 \<le> n \<Longrightarrow>
     RetryPolicy_from_dict (PDict (str_keyed [(''backoff_seconds'', PInt n)])) = Inl OverflowError
     \<and> (RetryPolicy_from_dict v = Inl OverflowError \<longrightarrow>
          (\<exists>d m. as_mapping v = Some d \<and> mget d ''backoff_seconds'' = Some (PInt m) \<and> float_of_int m = None))"
  using RetryPolicy_overflow [of v]
  by (simp add: RetryPolicy_from_dict_def str_keyed_def reject_unknown_def backoff_field_def to_float_def
      float_of_int_overflow)

theorem backoff_overflow_escapes_witness:
  "RetryPolicy_from_dict (PDict (str_keyed [(''backoff_seconds'', PInt (2 ^ 1024))])) = Inl OverflowError"
  using backoff_overflow_escapes [of "2 ^ 1024"] by blast

end
