(* ===== verification/SafeRendering.thy ===== *)
theory SafeRendering
  imports PyValue
begin

text \<open>
  Rendering of untrusted values for diagnostics, \<open>scripts/pd_fleet/safe_rendering.py\<close>.
\<close>

definition UNSUPPORTED_TYPE :: string where "UNSUPPORTED_TYPE = ''[UNSUPPORTED TYPE]''"

definition hex_digit :: "nat \<Rightarrow> char" where
  "hex_digit n = (if n < 10 then char_of (48 + n) else char_of (87 + n))"

definition safe_char :: "char \<Rightarrow> bool" where
  "safe_char c \<longleftrightarrow> (let n = (of_char c :: nat) in 32 \<le> n \<and> n < 127 \<or> n = 10 \<or> n = 9)"

definition escape_char :: "char \<Rightarrow> string" where
  "escape_char c = (if safe_char c then [c]
     else let n = (of_char c :: nat) in [CHR 0x5C, CHR ''x'', hex_digit (n div 16), hex_digit (n mod 16)])"

definition safe_text :: "pyval \<Rightarrow> string \<Rightarrow> nat option \<Rightarrow> string" where
  "safe_text v marker limit = (case as_str v of
       None \<Rightarrow> marker
     | Some s \<Rightarrow> let rendered = concat (map escape_char s) in
         case limit of None \<Rightarrow> rendered | Some n \<Rightarrow> take n rendered)"

definition safe_repr :: "pyval \<Rightarrow> string \<Rightarrow> nat \<Rightarrow> string" where
  "safe_repr v marker limit = [CHR 0x27] @ safe_text v marker (Some limit) @ [CHR 0x27]"

text \<open>\<open>None\<close> stands for an object that cannot be iterated.\<close>

definition safe_repr_list :: "pyval list option \<Rightarrow> string \<Rightarrow> nat \<Rightarrow> string" where
  "safe_repr_list values marker limit = (case values of
       None \<Rightarrow> marker
     | Some vs \<Rightarrow> ''['' @ join '', '' (map (\<lambda>v. safe_repr v marker limit) vs) @ '']'')"

lemma of_char_less: "(of_char c :: nat) < 256"
  by simp

lemma safe_hex_digit: "n < 16 \<Longrightarrow> safe_char (hex_digit n)"
  by (auto simp: safe_char_def hex_digit_def Let_def)

lemma escape_char_safe: "list_all safe_char (escape_char c)"
proof -
  have "(of_char c :: nat) div 16 < 16" "(of_char c :: nat) mod 16 < 16" using of_char_less [of c] by (simp_all add: div_less_iff_less_mult del: nat_of_char_less_256)
  then show ?thesis by (simp add: escape_char_def Let_def safe_hex_digit) (simp add: safe_char_def)
qed

lemma list_all_concat_map: "(\<And>x. list_all P (f x)) \<Longrightarrow> list_all P (concat (map f xs))"
  by (induction xs) auto

lemma list_all_take: "list_all P xs \<Longrightarrow> list_all P (take n xs)"
  by (auto simp: list_all_iff dest: in_set_takeD)

lemma safe_text_safe: "list_all safe_char marker \<Longrightarrow> list_all safe_char (safe_text v marker limit)"
  by (auto simp: safe_text_def Let_def escape_char_safe list_all_concat_map list_all_take split: option.splits)

lemma list_all_join: "list_all P sep \<Longrightarrow> (\<And>x. x \<in> set xs \<Longrightarrow> list_all P x) \<Longrightarrow> list_all P (join sep xs)"
  by (induction sep xs rule: join.induct) auto

text \<open>
  A rendered diagnostic contains only printable ASCII, newline and tab, whatever the value is; a
  rendered string is at most the limit plus its two quotes long, and a string of printable characters
  within the limit is shown unchanged.
\<close>

theorem safe_repr_bounded:
  assumes "list_all safe_char marker"
  shows "list_all safe_char (safe_repr v marker limit)
    \<and> list_all safe_char (safe_repr_list vs marker limit)
    \<and> length (safe_repr (PStr s) marker limit) \<le> limit + 2
    \<and> (list_all safe_char s \<and> length s \<le> limit \<longrightarrow> safe_repr (PStr s) marker limit = [CHR 0x27] @ s @ [CHR 0x27])"
proof (intro conjI)
  have q: "safe_char (CHR 0x27)" by (simp add: safe_char_def)
  with safe_text_safe [OF assms] have r: "list_all safe_char (safe_repr v marker limit)" for v by (simp add: safe_repr_def)
  then show "list_all safe_char (safe_repr v marker limit)" .
  have "list_all safe_char '', ''" "list_all safe_char ''[''" "list_all safe_char '']''" by (simp_all add: safe_char_def)
  with r assms show "list_all safe_char (safe_repr_list vs marker limit)"
    unfolding safe_repr_list_def by (cases vs) (auto intro!: list_all_join)
  show "length (safe_repr (PStr s) marker limit) \<le> limit + 2"
    by (simp add: safe_repr_def safe_text_def Let_def)
  have "concat (map escape_char s) = s" if "list_all safe_char s" for s
    using that by (induction s) (auto simp: escape_char_def)
  then show "list_all safe_char s \<and> length s \<le> limit \<longrightarrow> safe_repr (PStr s) marker limit = [CHR 0x27] @ s @ [CHR 0x27]"
    by (simp add: safe_repr_def safe_text_def Let_def)
qed

theorem safe_repr_bounded_witness:
  "list_all safe_char UNSUPPORTED_TYPE \<and> safe_repr (PStr ''a b'') UNSUPPORTED_TYPE 128 = [CHR 0x27] @ ''a b'' @ [CHR 0x27]"
proof -
  have m: "list_all safe_char UNSUPPORTED_TYPE" by (simp add: UNSUPPORTED_TYPE_def safe_char_def)
  moreover have "list_all safe_char ''a b''" by (simp add: safe_char_def)
  ultimately show ?thesis using safe_repr_bounded [OF m] by simp
qed

end
