(* ===== verification/Validation.thy ===== *)
theory Validation
  imports Models SafeRendering "HOL-Library.Product_Lexorder"
begin

text \<open>
  Plan validation and readiness, \<open>scripts/pd_fleet/validation.py\<close>: dependency references and cycles,
  wave gates, task contracts, path ownership of tasks that may run in parallel, and the set of tasks
  that may start next. The two recursive searches run on explicit stacks here: the frames of
  \<open>visit\<close> are the calls of the source that have not returned, and \<open>reaches\<close>, whose \<open>any\<close> stops at the
  first hit and whose \<open>seen\<close> set is shared by all calls, pushes the dependencies it still has to try.
\<close>

section \<open>Paths\<close>

definition strip_slash :: "string \<Rightarrow> string" where
  "strip_slash = strip_by (\<lambda>c. c = CHR ''/'')"

definition path_overlap :: "string \<Rightarrow> string \<Rightarrow> bool" where
  "path_overlap left right = (let a = strip_slash left; b = strip_slash right in
     a = b \<or> startswith a (b @ ''/'') \<or> startswith b (a @ ''/''))"

section \<open>Tasks by id\<close>

definition by_id :: "TaskSpec list \<Rightarrow> TaskSpec dict" where
  "by_id ts = fold (\<lambda>t d. dset (tk_id t) t d) ts []"

definition unseen :: "TaskSpec dict \<Rightarrow> string list \<Rightarrow> string list" where
  "unseen g seen = filter (\<lambda>k. k \<notin> set seen) (dkeys g)"

lemma filter_length_le: "(\<And>x. x \<in> set xs \<Longrightarrow> P x \<Longrightarrow> Q x) \<Longrightarrow> length (filter P xs) \<le> length (filter Q xs)"
  by (induction xs) auto

lemma filter_length_less:
  "(\<And>x. x \<in> set xs \<Longrightarrow> P x \<Longrightarrow> Q x) \<Longrightarrow> y \<in> set xs \<Longrightarrow> Q y \<Longrightarrow> \<not> P y \<Longrightarrow> length (filter P xs) < length (filter Q xs)"
proof (induction xs)
  case (Cons a xs)
  have le: "length (filter P xs) \<le> length (filter Q xs)" by (rule filter_length_le) (use Cons.prems(1) in auto)
  show ?case
  proof (cases "y \<in> set xs")
    case True
    then have "length (filter P xs) < length (filter Q xs)" using Cons by auto
    then show ?thesis using Cons.prems(1) [of a] by auto
  next
    case False
    then have "y = a" using Cons.prems(2) by simp
    then show ?thesis using le Cons.prems(3,4) by simp
  qed
qed simp

function (sequential) reaches :: "TaskSpec dict \<Rightarrow> string \<Rightarrow> string list \<Rightarrow> string list \<Rightarrow> bool" where
  "reaches g target [] seen = False"
| "reaches g target (start # todo) seen =
     (if start \<in> set seen then reaches g target todo seen
      else if start = target then True
      else case dget g start of
        None \<Rightarrow> reaches g target todo (start # seen)
      | Some t \<Rightarrow> reaches g target (tk_depends_on t @ todo) (start # seen))"
  by pat_completeness auto
termination
proof (relation "measures [\<lambda>(g, target, todo, seen). length (unseen g seen), \<lambda>(g, target, todo, seen). length todo]",
    goal_cases)
  case (3 g target start todo seen)
  have "length (unseen g (start # seen)) \<le> length (unseen g seen)"
    unfolding unseen_def by (rule filter_length_le) auto
  then show ?case by (auto simp: less_le)
next
  case (4 g target start todo seen t)
  have "length (unseen g (start # seen)) < length (unseen g seen)"
    unfolding unseen_def by (rule filter_length_less [where y = start]) (use 4 in \<open>auto dest: dget_Some_key\<close>)
  then show ?case by simp
qed auto

definition parallel :: "TaskSpec \<Rightarrow> TaskSpec \<Rightarrow> TaskSpec dict \<Rightarrow> bool" where
  "parallel a b g = (if \<not> py_eq (tk_wave a) (tk_wave b) then False
     else \<not> reaches g (tk_id b) [tk_id a] [] \<and> \<not> reaches g (tk_id a) [tk_id b] [])"

section \<open>Contracts\<close>

definition validate_task_contract :: "TaskSpec \<Rightarrow> string list" where
  "validate_task_contract t = (let pre = ''task '' @ tk_id t @ '': '' in
     (if blank (tk_id t) then [''task sem id: informe um identificador n'' @ [CHR 0xE3] @ ''o vazio''] else [])
     @ (if blank (tk_role t) then [pre @ ''role obrigat'' @ [CHR 0xF3] @ ''rio''] else [])
     @ (if blank (tk_objective t) then [pre @ ''objective obrigat'' @ [CHR 0xF3] @ ''rio''] else [])
     @ (if tk_acceptance_criteria t = [] then [pre @ ''contrato incompleto; informe acceptance_criteria''] else [])
     @ (if tk_outputs t = [] then [pre @ ''contrato incompleto; informe outputs''] else [])
     @ (if tk_validation_commands t = [] then [pre @ ''contrato incompleto; informe validation_commands''] else []))"

section \<open>The dependency graph\<close>

definition repr_text :: "string \<Rightarrow> string" where
  "repr_text s = safe_repr (PStr s) UNSUPPORTED_TYPE 128"

definition sorted_set :: "string list \<Rightarrow> string list" where
  "sorted_set xs = sort (remdups xs)"

definition missing_errors :: "TaskSpec dict \<Rightarrow> TaskSpec list \<Rightarrow> string list" where
  "missing_errors g ts = concat (map (\<lambda>t. map (\<lambda>dep. ''task '' @ tk_id t @ '': depend'' @ [CHR 0xEA] @ ''ncia inexistente ''
       @ repr_text dep @ ''; crie-a ou remova-a'')
     (filter (\<lambda>dep. dget g dep = None) (sorted_set (tk_depends_on t)))) (sort_key tk_id ts))"

type_synonym frames = "(string \<times> string list) list"

definition found_cycle :: "string \<Rightarrow> frames \<Rightarrow> string list" where
  "found_cycle dep fr = dropWhile (\<lambda>n. n \<noteq> dep) (rev (map fst fr)) @ [dep]"

definition rotations :: "string list \<Rightarrow> string list list" where
  "rotations cycle = map (\<lambda>i. drop i (butlast cycle) @ take i cycle @ [cycle ! i]) [0..<length cycle - 1]"

definition sorted_deps :: "TaskSpec dict \<Rightarrow> string \<Rightarrow> string list" where
  "sorted_deps g n = (case dget g n of None \<Rightarrow> [] | Some t \<Rightarrow> sort (tk_depends_on t))"

definition whites :: "TaskSpec dict \<Rightarrow> (string \<Rightarrow> nat) \<Rightarrow> string list" where
  "whites g color = filter (\<lambda>k. color k = 0) (dkeys g)"

function (sequential) visit ::
  "TaskSpec dict \<Rightarrow> frames \<Rightarrow> (string \<Rightarrow> nat) \<Rightarrow> string list list \<Rightarrow> (string \<Rightarrow> nat) \<times> string list list" where
  "visit g [] color cycles = (color, cycles)"
| "visit g ((node, []) # fr) color cycles = visit g fr (color(node := 2)) cycles"
| "visit g ((node, dep # deps) # fr) color cycles =
     (if dget g dep = None then visit g ((node, deps) # fr) color cycles
      else if color dep = 0 then visit g ((dep, sorted_deps g dep) # (node, deps) # fr) (color(dep := 1)) cycles
      else if color dep = 1 then visit g ((node, deps) # fr) color
             (List.insert (Min (set (rotations (found_cycle dep ((node, deps) # fr))))) cycles)
      else visit g ((node, deps) # fr) color cycles)"
  by pat_completeness auto
termination
proof (relation "measures [\<lambda>(g, fr, color, cycles). length (whites g color),
      \<lambda>(g, fr, color, cycles). sum_list (map (\<lambda>(n, ds). Suc (length ds)) fr)]", goal_cases)
  case (2 g node fr color cycles)
  have "length (whites g (color(node := 2))) \<le> length (whites g color)"
    unfolding whites_def by (rule filter_length_le) (auto split: if_splits)
  then show ?case by (auto simp: less_le)
next
  case (4 g node dep deps fr color cycles)
  have "length (whites g (color(dep := 1))) < length (whites g color)"
    unfolding whites_def
    by (rule filter_length_less [where y = dep]) (use 4 in \<open>auto simp: dget_None_iff split: if_splits\<close>)
  then show ?case by simp
qed auto

fun visit_all :: "TaskSpec dict \<Rightarrow> string list \<Rightarrow> (string \<Rightarrow> nat) \<times> string list list \<Rightarrow> (string \<Rightarrow> nat) \<times> string list list" where
  "visit_all g [] s = s"
| "visit_all g (i # ids) (color, cycles) =
     visit_all g ids (if color i = 0 then visit g [(i, sorted_deps g i)] (color(i := 1)) cycles else (color, cycles))"

definition dag_cycles :: "TaskSpec dict \<Rightarrow> string list list" where
  "dag_cycles g = snd (visit_all g (sort (dkeys g)) (\<lambda>_. 0, []))"

definition validate_dag :: "FleetPlan \<Rightarrow> string list" where
  "validate_dag p = (let g = by_id (fp_tasks p) in
     sort (missing_errors g (fp_tasks p)
       @ map (\<lambda>c. ''ciclo no DAG: '' @ join '' -> '' c) (sort (dag_cycles g))))"

section \<open>Wave gates\<close>

definition validate_wave_gates :: "FleetPlan \<Rightarrow> string list" where
  "validate_wave_gates p = sort (concat (map (\<lambda>w. map (\<lambda>gid. ''wave '' @ wv_id w @ '': gate inexistente '' @ repr_text gid
        @ ''; adicione-o a FleetPlan.gates ou remova-o de wave.gates'')
      (filter (\<lambda>gid. gid \<notin> gt_id ` set (fp_gates p)) (sorted_set (wv_gates w)))) (sort_key wv_id (fp_waves p))))"

section \<open>Ownership\<close>

definition own_conflicts :: "TaskSpec \<Rightarrow> string list" where
  "own_conflicts t = concat (map (\<lambda>a. map (\<lambda>f. ''task '' @ tk_id t @ '': allowed_path '' @ repr_text a
        @ '' conflita com forbidden_path '' @ repr_text f @ ''; ajuste um dos paths'')
      (filter (path_overlap a) (sorted_set (tk_forbidden_paths t)))) (sorted_set (tk_allowed_paths t)))"

definition pair_conflicts :: "TaskSpec dict \<Rightarrow> TaskSpec \<Rightarrow> TaskSpec \<Rightarrow> string list" where
  "pair_conflicts g l r = (if \<not> parallel l r g then [] else
     concat (map (\<lambda>pl. map (\<lambda>pr. ''ownership conflitante: tasks '' @ tk_id l @ '' e '' @ tk_id r
         @ '' podem rodar em paralelo e sobrep'' @ [CHR 0xF5] @ ''em '' @ repr_text pl @ ''/'' @ repr_text pr
         @ ''; serialize ou separe os paths'')
       (filter (path_overlap pl) (sorted_set (tk_allowed_paths r)))) (sorted_set (tk_allowed_paths l))))"

fun all_pair_conflicts :: "TaskSpec dict \<Rightarrow> TaskSpec list \<Rightarrow> string list" where
  "all_pair_conflicts g [] = []"
| "all_pair_conflicts g (l # rs) = concat (map (pair_conflicts g l) rs) @ all_pair_conflicts g rs"

definition validate_ownership :: "FleetPlan \<Rightarrow> string list" where
  "validate_ownership p = (let tasks = sort_key tk_id (fp_tasks p) in
     sort (concat (map own_conflicts tasks) @ all_pair_conflicts (by_id (fp_tasks p)) tasks))"

section \<open>Plans\<close>

datatype validation_error = FleetValidationError "string list" | PlanContract plan_error

datatype plan_input = Plan FleetPlan | RawPlan pyval

fun normalized :: "plan_input \<Rightarrow> (validation_error, FleetPlan) result" where
  "normalized (Plan p) = Inr p"
| "normalized (RawPlan v) = (case FleetPlan_from_dict v of Inl e \<Rightarrow> Inl (PlanContract e) | Inr p \<Rightarrow> Inr p)"

record ValidationReport =
  vr_task_ids :: "string list"
  vr_ready_ids :: "string list"

definition plan_errors :: "FleetPlan \<Rightarrow> string list" where
  "plan_errors p = validate_dag p @ validate_wave_gates p
     @ concat (map validate_task_contract (sort_key tk_id (fp_tasks p))) @ validate_ownership p"

definition validate_plan :: "plan_input \<Rightarrow> (validation_error, ValidationReport) result" where
  "validate_plan inp = bindR (normalized inp) (\<lambda>p.
     if plan_errors p \<noteq> [] then Inl (FleetValidationError (sorted_set (plan_errors p)))
     else Inr \<lparr>vr_task_ids = sort (map tk_id (fp_tasks p)), vr_ready_ids = []\<rparr>)"

section \<open>Readiness\<close>

text \<open>The text of waves that are neither strings nor integers is the parameter \<open>rep\<close>, as in \<open>py_str\<close>.\<close>

definition canonical_wave_id :: "(pyval \<Rightarrow> string) \<Rightarrow> pyval \<Rightarrow> string" where
  "canonical_wave_id rep v = (let s = lower (strip (py_str rep v));
       candidate = (if startswith s ''wave-'' then drop 5 s else s)
     in case int_of_text candidate of Some n \<Rightarrow> ''wave-'' @ int_text n | None \<Rightarrow> ''wave-'' @ candidate)"

definition wave_key :: "string \<Rightarrow> nat \<times> int \<times> string" where
  "wave_key v = (let candidate = (if startswith v ''wave-'' then drop 5 v else v)
     in case int_of_text candidate of Some n \<Rightarrow> (0, n, []) | None \<Rightarrow> (1, 0, v))"

definition wave_matches :: "(pyval \<Rightarrow> string) \<Rightarrow> string \<Rightarrow> pyval \<Rightarrow> bool" where
  "wave_matches rep wid tw = (canonical_wave_id rep (PStr wid) = canonical_wave_id rep tw)"

definition required_gates :: "(pyval \<Rightarrow> string) \<Rightarrow> FleetPlan \<Rightarrow> TaskSpec \<Rightarrow> string set" where
  "required_gates rep p t = (\<Union>w \<in> {w \<in> set (fp_waves p). wave_matches rep (wv_id w) (tk_wave t)}. set (wv_gates w))"

definition wave_values :: "(pyval \<Rightarrow> string) \<Rightarrow> FleetPlan \<Rightarrow> string list" where
  "wave_values rep p = sort_key wave_key (remdups (map (\<lambda>t. canonical_wave_id rep (tk_wave t)) (fp_tasks p)))"

fun index_of :: "'a \<Rightarrow> 'a list \<Rightarrow> nat" where
  "index_of x [] = 0"
| "index_of x (y # ys) = (if x = y then 0 else Suc (index_of x ys))"

definition wave_index :: "(pyval \<Rightarrow> string) \<Rightarrow> FleetPlan \<Rightarrow> TaskSpec \<Rightarrow> nat" where
  "wave_index rep p t = index_of (canonical_wave_id rep (tk_wave t)) (wave_values rep p)"

definition terminal_ids :: "FleetPlan \<Rightarrow> string list \<Rightarrow> string list \<Rightarrow> string set" where
  "terminal_ids p completed skipped =
     set completed \<union> set skipped \<union> tk_id ` {t \<in> set (fp_tasks p). tk_status t \<in> {''completed'', ''skipped''}}"

definition is_ready :: "(pyval \<Rightarrow> string) \<Rightarrow> FleetPlan \<Rightarrow> string set \<Rightarrow> string set \<Rightarrow> TaskSpec \<Rightarrow> bool" where
  "is_ready rep p done passed t =
     (if tk_status t \<notin> {''pending'', ''ready''} \<or> \<not> set (tk_depends_on t) \<subseteq> done then False
      else if \<exists>u \<in> set (fp_tasks p). wave_index rep p u < wave_index rep p t \<and> tk_id u \<notin> done then False
      else required_gates rep p t = {} \<or> required_gates rep p t \<subseteq> passed)"

definition compute_ready_tasks ::
  "(pyval \<Rightarrow> string) \<Rightarrow> plan_input \<Rightarrow> string list \<Rightarrow> string list \<Rightarrow> string list \<Rightarrow> (validation_error, string list) result" where
  "compute_ready_tasks rep inp completed skipped gates_passed = bindR (normalized inp) (\<lambda>p.
     bindR (validate_plan (Plan p)) (\<lambda>_.
     Inr (map tk_id (filter (is_ready rep p (terminal_ids p completed skipped) (set gates_passed))
       (sort_key tk_id (fp_tasks p))))))"

end
