(* ===== verification/PlanGraph.thy ===== *)
theory PlanGraph
  imports Validation
begin

text \<open>
  Correctness of the two graph searches of plan validation: \<open>reaches\<close> decides reachability along
  dependencies, and the three-colour search reports genuine cycles and reports one whenever there is
  one.
\<close>

section \<open>Reachability\<close>

definition dep :: "TaskSpec dict \<Rightarrow> string \<Rightarrow> string \<Rightarrow> bool" where
  "dep g a b \<longleftrightarrow> (\<exists>t. dget g a = Some t \<and> b \<in> set (tk_depends_on t))"

text \<open>A path to the target that visits no node of \<open>S\<close>.\<close>

inductive avoid :: "TaskSpec dict \<Rightarrow> string set \<Rightarrow> string \<Rightarrow> string \<Rightarrow> bool" for g S target where
  avoid_target: "target \<notin> S \<Longrightarrow> avoid g S target target"
| avoid_step: "x \<notin> S \<Longrightarrow> dep g x y \<Longrightarrow> avoid g S target y \<Longrightarrow> avoid g S target x"

lemma avoid_start: "avoid g S target x \<Longrightarrow> x \<notin> S"
  by (induction rule: avoid.induct) auto

lemma avoid_mono: "avoid g S target x \<Longrightarrow> S' \<subseteq> S \<Longrightarrow> avoid g S' target x"
  by (induction rule: avoid.induct) (auto intro: avoid.intros)

lemma avoid_insert:
  "avoid g S target z \<Longrightarrow> target \<noteq> x \<Longrightarrow>
     avoid g (insert x S) target z \<or> (\<exists>y. dep g x y \<and> avoid g (insert x S) target y)"
proof (induction rule: avoid.induct)
  case avoid_target
  then show ?case by (auto intro: avoid.avoid_target)
next
  case (avoid_step z y)
  then show ?case
    by (cases "z = x") (auto intro: avoid.avoid_step)
qed

lemma avoid_empty: "avoid g {} target x \<longleftrightarrow> (dep g)\<^sup>*\<^sup>* x target"
proof
  show "avoid g {} target x \<Longrightarrow> (dep g)\<^sup>*\<^sup>* x target"
    by (induction rule: avoid.induct) (auto intro: converse_rtranclp_into_rtranclp)
  show "(dep g)\<^sup>*\<^sup>* x target \<Longrightarrow> avoid g {} target x"
    by (induction rule: converse_rtranclp_induct) (auto intro: avoid.intros)
qed

lemma reaches_avoid:
  "target \<notin> set seen \<Longrightarrow> reaches g target todo seen \<longleftrightarrow> (\<exists>x \<in> set todo. avoid g (set seen) target x)"
proof (induction g target todo seen rule: reaches.induct)
  case (2 g target start todo seen)
  show ?case
  proof (cases "start \<in> set seen \<or> start = target")
    case True
    then show ?thesis using 2 by (auto dest: avoid_start intro: avoid_target)
  next
    case False
    let ?deps = "case dget g start of None \<Rightarrow> [] | Some t \<Rightarrow> tk_depends_on t"
    have rec: "reaches g target (start # todo) seen
        \<longleftrightarrow> (\<exists>x \<in> set (?deps @ todo). avoid g (insert start (set seen)) target x)"
      using False 2 by (auto split: option.splits)
    have deps: "dep g start y \<longleftrightarrow> y \<in> set ?deps" for y
      by (cases "dget g start") (auto simp: dep_def)
    have "(\<exists>x \<in> set (?deps @ todo). avoid g (insert start (set seen)) target x)
        \<longleftrightarrow> (\<exists>x \<in> set (start # todo). avoid g (set seen) target x)"
    proof
      assume "\<exists>x \<in> set (?deps @ todo). avoid g (insert start (set seen)) target x"
      then obtain x where x: "x \<in> set ?deps \<or> x \<in> set todo" "avoid g (set seen) target x"
        by (auto dest: avoid_mono)
      then show "\<exists>x \<in> set (start # todo). avoid g (set seen) target x"
        using False deps by (auto intro: avoid_step)
    next
      assume "\<exists>x \<in> set (start # todo). avoid g (set seen) target x"
      then obtain x where x: "x \<in> set (start # todo)" "avoid g (set seen) target x" by blast
      from avoid_insert [OF x(2), of start] False x(1)
      show "\<exists>x \<in> set (?deps @ todo). avoid g (insert start (set seen)) target x"
        unfolding deps by (auto dest: avoid_start)
    qed
    with rec show ?thesis by simp
  qed
qed simp

lemma reaches_iff: "reaches g target [start] [] \<longleftrightarrow> (dep g)\<^sup>*\<^sup>* start target"
  using reaches_avoid [of target "[]" g "[start]"] by (simp add: avoid_empty del: reaches.simps)

section \<open>Cycles\<close>

definition edge :: "TaskSpec dict \<Rightarrow> string \<Rightarrow> string \<Rightarrow> bool" where
  "edge g a b \<longleftrightarrow> dep g a b \<and> dget g b \<noteq> None"

definition is_cycle :: "TaskSpec dict \<Rightarrow> string list \<Rightarrow> bool" where
  "is_cycle g c \<longleftrightarrow> 2 \<le> length c \<and> hd c = last c \<and> successively (edge g) c"

lemma successively_tranclp: "successively R (x # xs) \<Longrightarrow> xs \<noteq> [] \<Longrightarrow> R\<^sup>+\<^sup>+ x (last xs)"
proof (induction xs arbitrary: x)
  case (Cons y ys)
  then show ?case by (cases "ys = []") (auto intro: tranclp_into_tranclp2)
qed simp

lemma is_cycle_loop: "is_cycle g c \<Longrightarrow> (edge g)\<^sup>+\<^sup>+ (hd c) (hd c)"
  using successively_tranclp [of "edge g" "hd c" "tl c"]
  by (cases c; cases "tl c = []") (auto simp: is_cycle_def)

lemma is_cycle_rotation:
  assumes c: "is_cycle g c" and r: "r \<in> set (rotations c)"
  shows "is_cycle g r"
proof -
  define m where "m = butlast c"
  have cm: "c = m @ [last c]" using c by (cases "c = []") (simp_all add: is_cycle_def m_def)
  have "length c = Suc (length m)" by (subst cm) simp
  then have mne: "m \<noteq> []" using c by (auto simp: is_cycle_def)
  then have hd: "hd m = last c" using c cm by (metis hd_append2 is_cycle_def)
  from r obtain i where i: "i < length m" and ri: "r = drop i (butlast c) @ take i c @ [c ! i]"
    using \<open>length c = Suc (length m)\<close> by (auto simp: rotations_def)
  have "take i c = take i m" using i by (subst cm) simp
  moreover have "c ! i = m ! i" using i by (subst cm) (simp add: nth_append)
  ultimately have rr: "r = drop i m @ take (Suc i) m" using i ri by (simp add: take_Suc_conv_app_nth m_def)
  have suc: "successively (edge g) m" "edge g (last m) (hd m)"
  proof -
    have "successively (edge g) (m @ [last c])" using c cm by (simp add: is_cycle_def)
    then show "successively (edge g) m" "edge g (last m) (hd m)" using hd mne by (simp_all add: successively_append_iff)
  qed
  have "successively (edge g) (drop i m)" "successively (edge g) (take (Suc i) m)"
    using suc(1) by (metis append_take_drop_id successively_append_iff)+
  moreover have "last (drop i m) = last m" "hd (take (Suc i) m) = hd m" "drop i m \<noteq> []" "take (Suc i) m \<noteq> []"
    using i mne by auto
  moreover have "hd (drop i m) = m ! i" "last (take (Suc i) m) = m ! i"
    using i by (simp_all add: hd_drop_conv_nth take_Suc_conv_app_nth)
  ultimately show ?thesis using suc(2) i by (simp add: rr is_cycle_def successively_append_iff)
qed

lemma rotations_nonempty: "is_cycle g c \<Longrightarrow> rotations c \<noteq> []"
  by (auto simp: rotations_def is_cycle_def)

section \<open>The three-colour search\<close>

fun linked :: "TaskSpec dict \<Rightarrow> string option \<Rightarrow> frames \<Rightarrow> bool" where
  "linked g c [] = True"
| "linked g c ((n, ds) # fr) \<longleftrightarrow> (\<forall>d. c = Some d \<longrightarrow> edge g n d) \<and> (\<forall>d \<in> set ds. dep g n d)
     \<and> dget g n \<noteq> None \<and> linked g (Some n) fr"

fun settled :: "TaskSpec dict \<Rightarrow> (string \<Rightarrow> nat) \<Rightarrow> string option \<Rightarrow> frames \<Rightarrow> bool" where
  "settled g col c [] = True"
| "settled g col c ((n, ds) # fr) \<longleftrightarrow> (\<forall>d. edge g n d \<longrightarrow> d \<in> set ds \<or> col d = 2 \<or> c = Some d)
     \<and> settled g col (Some n) fr"

definition shape :: "TaskSpec dict \<Rightarrow> frames \<Rightarrow> (string \<Rightarrow> nat) \<Rightarrow> bool" where
  "shape g fr col \<longleftrightarrow> linked g None fr \<and> distinct (map fst fr) \<and> (\<forall>n. col n = 1 \<longleftrightarrow> n \<in> fst ` set fr)
     \<and> (\<forall>n. col n \<le> 2) \<and> (\<forall>n. col n \<noteq> 0 \<longrightarrow> dget g n \<noteq> None)"

definition explored :: "TaskSpec dict \<Rightarrow> frames \<Rightarrow> (string \<Rightarrow> nat) \<Rightarrow> bool" where
  "explored g fr col \<longleftrightarrow> settled g col None fr \<and> (\<forall>n d. col n = 2 \<longrightarrow> edge g n d \<longrightarrow> col d = 2)
     \<and> (\<forall>n. col n = 2 \<longrightarrow> \<not> (edge g)\<^sup>+\<^sup>+ n n)"

definition dfs_inv :: "TaskSpec dict \<Rightarrow> frames \<Rightarrow> (string \<Rightarrow> nat) \<Rightarrow> string list list \<Rightarrow> bool" where
  "dfs_inv g fr col cycles \<longleftrightarrow> shape g fr col \<and> (\<forall>c \<in> set cycles. is_cycle g c) \<and> (cycles = [] \<longrightarrow> explored g fr col)"

lemma linked_weaken: "linked g c fr \<Longrightarrow> linked g None fr"
  by (cases fr) auto

lemma settled_mono: "settled g col c fr \<Longrightarrow> (\<And>d. col d = 2 \<Longrightarrow> col' d = 2) \<Longrightarrow> settled g col' c fr"
  by (induction g col c fr rule: settled.induct) auto

lemma settled_done:
  assumes "settled g col (Some n) fr" and mono: "\<And>d. col d = 2 \<Longrightarrow> col' d = 2" and "col' n = 2"
  shows "settled g col' None fr"
proof (cases fr)
  case (Cons f rest)
  moreover obtain m ds where "f = (m, ds)" by (cases f)
  moreover have "settled g col (Some m) rest \<Longrightarrow> settled g col' (Some m) rest" by (erule settled_mono) (rule mono)
  ultimately show ?thesis using assms mono by auto
qed simp

lemma linked_path: "linked g c fr \<Longrightarrow> successively (\<lambda>a b. edge g b a) (map fst fr)"
proof (induction fr arbitrary: c)
  case (Cons f fr)
  then show ?case by (cases f; cases fr) (auto simp: successively_Cons)
qed simp

lemma found_cycle_genuine:
  assumes sh: "shape g ((n, ds) # fr) col" and gray: "col d = 1" and e: "edge g n d"
  shows "is_cycle g (found_cycle d ((n, ds) # fr))"
proof -
  let ?p = "rev (map fst ((n, ds) # fr))"
  have "d \<in> set ?p" using sh gray by (auto simp: shape_def)
  then obtain pre post where sp: "?p = pre @ d # post" and "d \<notin> set pre" by (meson split_list_first)
  have "dropWhile (\<lambda>x. x \<noteq> d) (xs @ d # post) = d # post" if "d \<notin> set xs" for xs
    using that by (induction xs) auto
  then have dw: "dropWhile (\<lambda>x. x \<noteq> d) ?p = d # post" unfolding sp using \<open>d \<notin> set pre\<close> by blast
  have "successively (edge g) ?p"
    using linked_path [of g None "(n, ds) # fr"] sh unfolding shape_def by (simp only: successively_rev)
  with sp have "successively (edge g) (d # post)" by (simp add: successively_append_iff)
  moreover have "last (d # post) = n" using sp by (metis last_appendR last_rev list.distinct(1) list.sel(1) list.simps(9) fst_conv)
  ultimately show ?thesis using e unfolding found_cycle_def dw
    by (simp add: is_cycle_def successively_append_iff [of _ "d # post", simplified])
qed

lemma set_sorted_deps: "d \<in> set (sorted_deps g i) \<longleftrightarrow> dep g i d"
  by (cases "dget g i") (auto simp: sorted_deps_def dep_def)

lemma edge_dep: "edge g a b \<Longrightarrow> dep g a b"
  by (simp add: edge_def)

lemma black_kept: "explored g fr col \<Longrightarrow> col i = 0 \<Longrightarrow> (col(i := 1)) n = 2 \<Longrightarrow> edge g n d \<Longrightarrow> (col(i := 1)) d = 2"
  by (cases "n = i") (auto simp: explored_def)

lemma dfs_start:
  assumes inv: "dfs_inv g [] col cycles" and "col i = 0" and "dget g i \<noteq> None"
  shows "dfs_inv g [(i, sorted_deps g i)] (col(i := 1)) cycles"
proof -
  have "shape g [(i, sorted_deps g i)] (col(i := 1))"
    using assms by (auto simp: dfs_inv_def shape_def set_sorted_deps)
  moreover have "explored g [(i, sorted_deps g i)] (col(i := 1))" if "explored g [] col"
    using black_kept [OF that assms(2)] that by (auto simp: explored_def set_sorted_deps edge_dep)
  ultimately show ?thesis using inv by (simp add: dfs_inv_def)
qed

lemma dfs_pop:
  assumes inv: "dfs_inv g ((n, []) # fr) col cycles"
  shows "dfs_inv g fr (col(n := 2)) cycles"
proof -
  have sh: "shape g ((n, []) # fr) col" and cyc: "\<forall>c \<in> set cycles. is_cycle g c" using inv by (simp_all add: dfs_inv_def)
  have gray: "col n = 1" using sh by (simp add: shape_def)
  have shape: "shape g fr (col(n := 2))" using sh by (auto simp: shape_def intro: linked_weaken)
  have "explored g fr (col(n := 2))" if "cycles = []"
  proof -
    have ex: "explored g ((n, []) # fr) col" using inv that by (simp add: dfs_inv_def)
    then have out: "edge g n d \<Longrightarrow> col d = 2" for d by (simp add: explored_def)
    have black: "(edge g)\<^sup>+\<^sup>+ m d \<Longrightarrow> col m = 2 \<Longrightarrow> col d = 2" for m d
    proof (induction rule: tranclp_induct)
      case (base d)
      then show ?case using ex by (auto simp: explored_def)
    next
      case (step d e)
      then show ?case using ex by (auto simp: explored_def)
    qed
    have "\<not> (edge g)\<^sup>+\<^sup>+ n n"
    proof
      assume "(edge g)\<^sup>+\<^sup>+ n n"
      then obtain d where "edge g n d" "d = n \<or> (edge g)\<^sup>+\<^sup>+ d n" by (metis tranclpD rtranclpD)
      with out black have "col n = 2" by blast
      with gray show False by simp
    qed
    moreover have "settled g (col(n := 2)) None fr"
      using ex by (auto simp: explored_def elim!: settled_done)
    ultimately show ?thesis using ex out by (auto simp: explored_def)
  qed
  with shape cyc show ?thesis by (simp add: dfs_inv_def)
qed

text \<open>Dropping the next dependency of the top frame needs an excuse: it is no edge, or black, or on record.\<close>

lemma dfs_skip:
  assumes inv: "dfs_inv g ((n, d # ds) # fr) col cycles" and "cycles' = [] \<longrightarrow> cycles = [] \<and> (edge g n d \<longrightarrow> col d = 2)"
    and "\<forall>c \<in> set cycles'. is_cycle g c"
  shows "dfs_inv g ((n, ds) # fr) col cycles'"
  using assms by (auto simp: dfs_inv_def shape_def explored_def)

lemma dfs_push:
  assumes inv: "dfs_inv g ((n, d # ds) # fr) col cycles" and "dget g d \<noteq> None" and "col d = 0"
  shows "dfs_inv g ((d, sorted_deps g d) # (n, ds) # fr) (col(d := 1)) cycles"
proof -
  have sh: "shape g ((n, d # ds) # fr) col" using inv by (simp add: dfs_inv_def)
  have nf: "d \<notin> fst ` set ((n, d # ds) # fr)" using sh assms(3) by (auto simp: shape_def)
  have e: "edge g n d" using sh assms(2) by (auto simp: shape_def edge_def)
  have "shape g ((d, sorted_deps g d) # (n, ds) # fr) (col(d := 1))"
    using sh nf e assms(2) by (auto simp: shape_def set_sorted_deps)
  moreover have "explored g ((d, sorted_deps g d) # (n, ds) # fr) (col(d := 1))" if "cycles = []"
  proof -
    have ex: "explored g ((n, d # ds) # fr) col" using inv that by (simp add: dfs_inv_def)
    then have "settled g (col(d := 1)) (Some n) fr"
      using assms(3) by (auto simp: explored_def elim!: settled_mono)
    with ex assms(3) black_kept [OF ex assms(3)] show ?thesis
      by (auto simp: explored_def set_sorted_deps edge_dep)
  qed
  ultimately show ?thesis using inv by (simp add: dfs_inv_def)
qed

lemma insert_nonempty: "List.insert x xs \<noteq> []"
  by (auto simp: List.insert_def)

lemma visit_inv:
  "dfs_inv g fr col cycles \<Longrightarrow> visit g fr col cycles = (col', cycles') \<Longrightarrow>
     dfs_inv g [] col' cycles' \<and> (\<forall>n. col n \<noteq> 0 \<longrightarrow> col' n \<noteq> 0)"
proof (induction g fr col cycles rule: visit.induct)
  case (2 g node fr color cycles)
  have "dfs_inv g fr (color(node := 2)) cycles" using 2(2) by (rule dfs_pop)
  moreover have "visit g fr (color(node := 2)) cycles = (col', cycles')" using 2(3) by simp
  ultimately have "dfs_inv g [] col' cycles'" "\<forall>n. (color(node := 2)) n \<noteq> 0 \<longrightarrow> col' n \<noteq> 0"
    using 2(1) by blast+
  then show ?case by (metis fun_upd_apply zero_neq_numeral)
next
  case (3 g node dep deps fr color cycles)
  have "color dep \<le> 2" using 3(5) by (simp add: dfs_inv_def shape_def)
  then have "color dep = 0 \<or> color dep = 1 \<or> color dep = 2" by linarith
  then consider (none) "dget g dep = None" | (white) "dget g dep \<noteq> None" "color dep = 0"
    | (gray) "dget g dep \<noteq> None" "color dep = 1" | (black) "dget g dep \<noteq> None" "color dep = 2"
    by fastforce
  then show ?case
  proof cases
    case none
    then have "dfs_inv g ((node, deps) # fr) color cycles"
      using 3(5) by (intro dfs_skip [OF 3(5)]) (auto simp: dfs_inv_def edge_def)
    with 3(1,6) none show ?thesis by simp
  next
    case white
    then have "dfs_inv g ((dep, sorted_deps g dep) # (node, deps) # fr) (color(dep := 1)) cycles"
      by (intro dfs_push [OF 3(5)])
    moreover have "visit g ((dep, sorted_deps g dep) # (node, deps) # fr) (color(dep := 1)) cycles = (col', cycles')"
      using 3(6) white by simp
    ultimately have "dfs_inv g [] col' cycles'" "\<forall>n. (color(dep := 1)) n \<noteq> 0 \<longrightarrow> col' n \<noteq> 0"
      using 3(2) white by blast+
    then show ?thesis by (metis fun_upd_apply zero_neq_one)
  next
    case gray
    let ?c = "found_cycle dep ((node, deps) # fr)"
    have e: "edge g node dep" using 3(5) gray by (auto simp: dfs_inv_def shape_def edge_def)
    have "shape g ((node, deps) # fr) color" using 3(5) by (auto simp: dfs_inv_def shape_def)
    from found_cycle_genuine [OF this gray(2) e] have gen: "is_cycle g ?c" .
    then have "is_cycle g (Min (set (rotations ?c)))"
      by (intro is_cycle_rotation [OF gen] Min_in) (auto simp: rotations_nonempty)
    then have "dfs_inv g ((node, deps) # fr) color (List.insert (Min (set (rotations ?c))) cycles)"
      using 3(5) by (intro dfs_skip [OF 3(5)]) (auto simp: dfs_inv_def insert_nonempty)
    with 3(3,6) gray show ?thesis by simp
  next
    case black
    then have "dfs_inv g ((node, deps) # fr) color cycles"
      using 3(5) by (intro dfs_skip [OF 3(5)]) (auto simp: dfs_inv_def)
    with 3(4,6) black show ?thesis by simp
  qed
qed simp

lemma visit_all_inv:
  "dfs_inv g [] col cycles \<Longrightarrow> (\<And>i. i \<in> set ids \<Longrightarrow> dget g i \<noteq> None) \<Longrightarrow> visit_all g ids (col, cycles) = (col', cycles') \<Longrightarrow>
     dfs_inv g [] col' cycles' \<and> (\<forall>n. col n \<noteq> 0 \<or> n \<in> set ids \<longrightarrow> col' n \<noteq> 0)"
proof (induction ids arbitrary: col cycles)
  case (Cons i ids)
  show ?case
  proof (cases "col i = 0")
    case False
    with Cons show ?thesis by auto
  next
    case True
    obtain c1 cy1 where v: "visit g [(i, sorted_deps g i)] (col(i := 1)) cycles = (c1, cy1)" by force
    have "dfs_inv g [(i, sorted_deps g i)] (col(i := 1)) cycles"
      by (rule dfs_start [OF Cons.prems(1) True]) (use Cons.prems(2) in auto)
    from visit_inv [OF this v] have "dfs_inv g [] c1 cy1" "\<forall>n. col n \<noteq> 0 \<or> n = i \<longrightarrow> c1 n \<noteq> 0" by auto
    with Cons True v show ?thesis by auto
  qed
qed simp

lemma dag_cycles_genuine: "c \<in> set (dag_cycles g) \<Longrightarrow> is_cycle g c"
  and dag_cycles_empty: "dag_cycles g = [] \<longleftrightarrow> (\<forall>n. \<not> (edge g)\<^sup>+\<^sup>+ n n)"
proof -
  obtain col cycles where v: "visit_all g (sort (dkeys g)) (\<lambda>_. 0, []) = (col, cycles)" by force
  have "dfs_inv g [] (\<lambda>_. 0) []" by (simp add: dfs_inv_def shape_def explored_def)
  from visit_all_inv [OF this _ v] have inv: "dfs_inv g [] col cycles" and all: "\<forall>n \<in> set (dkeys g). col n \<noteq> 0"
    by (auto simp: dget_None_iff)
  have dc: "dag_cycles g = cycles" using v by (simp add: dag_cycles_def)
  show gen: "c \<in> set (dag_cycles g) \<Longrightarrow> is_cycle g c" for c using inv dc by (simp add: dfs_inv_def)
  show "dag_cycles g = [] \<longleftrightarrow> (\<forall>n. \<not> (edge g)\<^sup>+\<^sup>+ n n)"
  proof
    assume "dag_cycles g = []"
    then have ex: "explored g [] col" using inv dc by (simp add: dfs_inv_def)
    have "\<not> (edge g)\<^sup>+\<^sup>+ n n" for n
    proof
      assume loop: "(edge g)\<^sup>+\<^sup>+ n n"
      then have "dget g n \<noteq> None" by (auto elim: tranclp.cases simp: edge_def)
      then have "col n \<noteq> 0" using all by (simp add: dget_None_iff)
      moreover have "col n \<noteq> 1" "col n \<le> 2" using inv by (auto simp: dfs_inv_def shape_def)
      ultimately have "col n = 2" by simp
      with ex loop show False by (simp add: explored_def)
    qed
    then show "\<forall>n. \<not> (edge g)\<^sup>+\<^sup>+ n n" by blast
  next
    assume ac: "\<forall>n. \<not> (edge g)\<^sup>+\<^sup>+ n n"
    show "dag_cycles g = []"
    proof (rule ccontr)
      assume "dag_cycles g \<noteq> []"
      then have "is_cycle g (hd (dag_cycles g))" by (intro gen) simp
      with ac is_cycle_loop show False by blast
    qed
  qed
qed

end
