(* ===== verification/PlanProperties.thy ===== *)
theory PlanProperties
  imports PlanGraph
begin

text \<open>
  What plan validation and readiness guarantee: the exact meaning of an accepted plan, genuineness of
  the reported cycles, the meaning of the ready list, absence of deadlock, and two gaps.
\<close>

section \<open>Plans with unique task ids\<close>

lemma sorted_set_set [simp]: "set (sorted_set xs) = set xs"
  by (simp add: sorted_set_def)

lemma set_sort_key_nil: "sort_key f xs = [] \<longleftrightarrow> xs = []"
  by (metis length_0_conv length_sort)

lemma concat_nil_iff: "concat (map f xs) = [] \<longleftrightarrow> (\<forall>x \<in> set xs. f x = [])"
  by (induction xs) auto

lemma dget_by_id: "distinct (map tk_id ts) \<Longrightarrow> dget (by_id ts) i = Some t \<longleftrightarrow> t \<in> set ts \<and> tk_id t = i"
proof (induction ts rule: rev_induct)
  case Nil
  then show ?case by (simp add: by_id_def)
next
  case (snoc a ts)
  have "by_id (ts @ [a]) = dset (tk_id a) a (by_id ts)" by (simp add: by_id_def)
  moreover have "\<forall>u \<in> set ts. tk_id u \<noteq> tk_id a" using snoc.prems by (force simp: image_iff)
  ultimately show ?case using snoc by (cases "i = tk_id a") (auto simp: dict_simps)
qed

lemma dget_by_id_None: "distinct (map tk_id ts) \<Longrightarrow> dget (by_id ts) i = None \<longleftrightarrow> i \<notin> tk_id ` set ts"
proof -
  assume d: "distinct (map tk_id ts)"
  have "dget (by_id ts) i = None \<longleftrightarrow> (\<nexists>t. dget (by_id ts) i = Some t)" by auto
  then show ?thesis using dget_by_id [OF d] by auto
qed

text \<open>Dependencies between the tasks of a plan.\<close>

definition depends :: "FleetPlan \<Rightarrow> string \<Rightarrow> string \<Rightarrow> bool" where
  "depends p a b \<longleftrightarrow> (\<exists>t \<in> set (fp_tasks p). tk_id t = a \<and> b \<in> set (tk_depends_on t))"

lemma dep_by_id: "distinct (map tk_id (fp_tasks p)) \<Longrightarrow> dep (by_id (fp_tasks p)) a b \<longleftrightarrow> depends p a b"
  by (auto simp: dep_def depends_def dget_by_id)

definition refs_exist :: "FleetPlan \<Rightarrow> bool" where
  "refs_exist p \<longleftrightarrow> (\<forall>a b. depends p a b \<longrightarrow> b \<in> tk_id ` set (fp_tasks p))"

lemma edge_by_id: "distinct (map tk_id (fp_tasks p)) \<Longrightarrow> refs_exist p \<Longrightarrow> edge (by_id (fp_tasks p)) = depends p"
  by (intro ext) (auto simp: edge_def dep_by_id refs_exist_def dget_by_id_None simp del: not_None_eq)

lemma missing_errors_nil:
  assumes "distinct (map tk_id (fp_tasks p))"
  shows "missing_errors (by_id (fp_tasks p)) (fp_tasks p) = [] \<longleftrightarrow> refs_exist p"
  using assms by (auto simp: missing_errors_def concat_nil_iff filter_empty_conv refs_exist_def depends_def dget_by_id_None)

lemma validate_dag_nil:
  assumes d: "distinct (map tk_id (fp_tasks p))"
  shows "validate_dag p = [] \<longleftrightarrow> refs_exist p \<and> (\<forall>n. \<not> (depends p)\<^sup>+\<^sup>+ n n)"
proof -
  have "validate_dag p = [] \<longleftrightarrow> refs_exist p \<and> dag_cycles (by_id (fp_tasks p)) = []"
    using missing_errors_nil [OF d] by (simp add: validate_dag_def Let_def set_sort_key_nil)
  then show ?thesis using edge_by_id [OF d] by (auto simp: dag_cycles_empty)
qed

section \<open>The other checks\<close>

definition gates_exist :: "FleetPlan \<Rightarrow> bool" where
  "gates_exist p \<longleftrightarrow> (\<forall>w \<in> set (fp_waves p). set (wv_gates w) \<subseteq> gt_id ` set (fp_gates p))"

lemma validate_wave_gates_nil: "validate_wave_gates p = [] \<longleftrightarrow> gates_exist p"
  by (auto simp: validate_wave_gates_def set_sort_key_nil concat_nil_iff filter_empty_conv gates_exist_def)

definition contract_complete :: "TaskSpec \<Rightarrow> bool" where
  "contract_complete t \<longleftrightarrow> \<not> blank (tk_id t) \<and> \<not> blank (tk_role t) \<and> \<not> blank (tk_objective t)
     \<and> tk_acceptance_criteria t \<noteq> [] \<and> tk_outputs t \<noteq> [] \<and> tk_validation_commands t \<noteq> []"

lemma contract_nil: "validate_task_contract t = [] \<longleftrightarrow> contract_complete t"
  by (auto simp: validate_task_contract_def contract_complete_def Let_def)

definition own_disjoint :: "TaskSpec \<Rightarrow> bool" where
  "own_disjoint t \<longleftrightarrow> (\<forall>a \<in> set (tk_allowed_paths t). \<forall>f \<in> set (tk_forbidden_paths t). \<not> path_overlap a f)"

definition paths_disjoint :: "TaskSpec \<Rightarrow> TaskSpec \<Rightarrow> bool" where
  "paths_disjoint l r \<longleftrightarrow> (\<forall>a \<in> set (tk_allowed_paths l). \<forall>b \<in> set (tk_allowed_paths r). \<not> path_overlap a b)"

lemma own_conflicts_nil: "own_conflicts t = [] \<longleftrightarrow> own_disjoint t"
  by (auto simp: own_conflicts_def concat_nil_iff filter_empty_conv own_disjoint_def)

definition unordered :: "FleetPlan \<Rightarrow> string \<Rightarrow> string \<Rightarrow> bool" where
  "unordered p a b \<longleftrightarrow> \<not> (depends p)\<^sup>*\<^sup>* a b \<and> \<not> (depends p)\<^sup>*\<^sup>* b a"

lemma parallel_iff: "distinct (map tk_id (fp_tasks p)) \<Longrightarrow>
   parallel l r (by_id (fp_tasks p)) \<longleftrightarrow> py_eq (tk_wave l) (tk_wave r) \<and> unordered p (tk_id l) (tk_id r)"
proof -
  assume d: "distinct (map tk_id (fp_tasks p))"
  have "dep (by_id (fp_tasks p)) = depends p" by (intro ext) (simp add: dep_by_id [OF d])
  then show ?thesis by (simp add: parallel_def reaches_iff unordered_def del: reaches.simps)
qed

lemma pair_conflicts_nil: "distinct (map tk_id (fp_tasks p)) \<Longrightarrow>
   pair_conflicts (by_id (fp_tasks p)) l r = [] \<longleftrightarrow>
     (py_eq (tk_wave l) (tk_wave r) \<and> unordered p (tk_id l) (tk_id r) \<longrightarrow> paths_disjoint l r)"
  by (auto simp: pair_conflicts_def parallel_iff concat_nil_iff filter_empty_conv paths_disjoint_def)

lemma all_pairs_nil: "sorted_wrt (<) (map tk_id ts) \<Longrightarrow>
   all_pair_conflicts g ts = [] \<longleftrightarrow> (\<forall>l \<in> set ts. \<forall>r \<in> set ts. tk_id l < tk_id r \<longrightarrow> pair_conflicts g l r = [])"
proof (induction ts)
  case (Cons t ts)
  then have gt: "\<forall>u \<in> set ts. tk_id t < tk_id u" by auto
  then have ng: "\<forall>u \<in> set ts. \<not> tk_id u < tk_id t" by (auto dest: less_asym)
  have "all_pair_conflicts g (t # ts) = [] \<longleftrightarrow> (\<forall>r \<in> set ts. pair_conflicts g t r = []) \<and> all_pair_conflicts g ts = []"
    by (simp add: concat_nil_iff)
  with Cons gt ng show ?case by auto
qed simp

lemma sorted_ids: "distinct (map tk_id ts) \<Longrightarrow> sorted_wrt (<) (map tk_id (sort_key tk_id ts))"
proof -
  assume "distinct (map tk_id ts)"
  then have "distinct (map tk_id (sort_key tk_id ts))"
    by (simp add: distinct_map)
  then show ?thesis using sorted_sort_key [of tk_id ts] by (simp add: strict_sorted_iff)
qed

definition ownership_safe :: "FleetPlan \<Rightarrow> bool" where
  "ownership_safe p \<longleftrightarrow> (\<forall>t \<in> set (fp_tasks p). own_disjoint t)
     \<and> (\<forall>l \<in> set (fp_tasks p). \<forall>r \<in> set (fp_tasks p). tk_id l < tk_id r \<longrightarrow> py_eq (tk_wave l) (tk_wave r) \<longrightarrow>
          unordered p (tk_id l) (tk_id r) \<longrightarrow> paths_disjoint l r)"

lemma validate_ownership_nil:
  assumes d: "distinct (map tk_id (fp_tasks p))"
  shows "validate_ownership p = [] \<longleftrightarrow> ownership_safe p"
  by (auto simp: validate_ownership_def ownership_safe_def Let_def set_sort_key_nil concat_nil_iff own_conflicts_nil
      all_pairs_nil [OF sorted_ids [OF d]] pair_conflicts_nil [OF d])

definition valid_plan :: "FleetPlan \<Rightarrow> bool" where
  "valid_plan p \<longleftrightarrow> refs_exist p \<and> (\<forall>n. \<not> (depends p)\<^sup>+\<^sup>+ n n) \<and> gates_exist p
     \<and> (\<forall>t \<in> set (fp_tasks p). contract_complete t) \<and> ownership_safe p"

lemma plan_errors_nil: "distinct (map tk_id (fp_tasks p)) \<Longrightarrow> plan_errors p = [] \<longleftrightarrow> valid_plan p"
  by (auto simp: plan_errors_def valid_plan_def validate_dag_nil validate_wave_gates_nil concat_nil_iff contract_nil
      validate_ownership_nil)

section \<open>Readiness\<close>

lemma index_of_less_length: "x \<in> set xs \<Longrightarrow> index_of x xs < length xs"
  by (induction xs) auto

lemma nth_index_of: "x \<in> set xs \<Longrightarrow> xs ! index_of x xs = x"
  by (induction xs) auto

lemma compute_ready_set:
  assumes "distinct (map tk_id (fp_tasks p))" and "valid_plan p"
  shows "compute_ready_tasks rep (Plan p) completed skipped passed
    = Inr (map tk_id (filter (is_ready rep p (terminal_ids p completed skipped) (set passed)) (sort_key tk_id (fp_tasks p))))"
  using plan_errors_nil [OF assms(1)] assms(2) by (simp add: compute_ready_tasks_def validate_plan_def)

text \<open>
  A task that is not terminal and not ready waits for a dependency, for an earlier wave, for a gate,
  or is neither pending nor ready.
\<close>

definition wave_ordered :: "(pyval \<Rightarrow> string) \<Rightarrow> FleetPlan \<Rightarrow> bool" where
  "wave_ordered rep p \<longleftrightarrow> (\<forall>t \<in> set (fp_tasks p). \<forall>u \<in> set (fp_tasks p).
     tk_id u \<in> set (tk_depends_on t) \<longrightarrow> wave_index rep p u \<le> wave_index rep p t)"

lemma acyclic_minimal:
  assumes fin: "finite A" and ne: "A \<noteq> {}" and ac: "\<forall>n. \<not> R\<^sup>+\<^sup>+ n n"
  shows "\<exists>x \<in> A. \<forall>y. R x y \<longrightarrow> y \<notin> A"
proof (rule ccontr)
  assume no: "\<not> ?thesis"
  let ?S = "{(y, x). x \<in> A \<and> y \<in> A \<and> R x y}"
  have "?S \<subseteq> A \<times> A" by auto
  then have "finite ?S" by (rule finite_subset) (simp add: fin)
  moreover have "acyclic ?S"
  proof (rule acyclicI, rule allI, rule notI)
    fix x assume "(x, x) \<in> ?S\<^sup>+"
    moreover have "(a, b) \<in> ?S\<^sup>+ \<Longrightarrow> R\<^sup>+\<^sup>+ b a" for a b
      by (induction rule: trancl_induct) (auto intro: tranclp_into_tranclp2)
    ultimately show False using ac by blast
  qed
  ultimately have wf: "wf ?S" by (rule finite_acyclic_wf)
  obtain a where "a \<in> A" using ne by blast
  from wfE_min [OF wf this] obtain z where z: "z \<in> A" "\<And>y. (y, z) \<in> ?S \<Longrightarrow> y \<notin> A" by blast
  from no z(1) obtain y where "R z y" "y \<in> A" by blast
  with z show False by blast
qed

lemma progress_task:
  assumes v: "valid_plan p" and wo: "wave_ordered rep p"
    and open_tasks: "\<exists>t \<in> set (fp_tasks p). tk_id t \<notin> D"
    and stat: "\<forall>t \<in> set (fp_tasks p). tk_id t \<notin> D \<longrightarrow> tk_status t \<in> {''pending'', ''ready''}"
    and gates: "gt_id ` set (fp_gates p) \<subseteq> passed"
  shows "\<exists>t \<in> set (fp_tasks p). tk_id t \<notin> D \<and> is_ready rep p D passed t"
proof -
  let ?open = "{t \<in> set (fp_tasks p). tk_id t \<notin> D}"
  define m where "m = Min (wave_index rep p ` ?open)"
  have fin: "finite (wave_index rep p ` ?open)" and ne: "wave_index rep p ` ?open \<noteq> {}" using open_tasks by auto
  let ?A = "tk_id ` {t \<in> ?open. wave_index rep p t = m}"
  have "?A \<noteq> {}" using Min_in [OF fin ne] by (auto simp: m_def)
  moreover have "finite ?A" by simp
  ultimately obtain i where "i \<in> ?A" and min: "\<forall>y. depends p i y \<longrightarrow> y \<notin> ?A"
    using acyclic_minimal [of ?A "depends p"] v by (auto simp: valid_plan_def)
  then obtain t where t: "t \<in> set (fp_tasks p)" "tk_id t \<notin> D" "wave_index rep p t = m" "tk_id t = i" by auto
  have "set (tk_depends_on t) \<subseteq> D"
  proof
    fix x assume x: "x \<in> set (tk_depends_on t)"
    then have dx: "depends p i x" using t by (auto simp: depends_def)
    then obtain u where u: "u \<in> set (fp_tasks p)" "tk_id u = x" using v by (auto simp: valid_plan_def refs_exist_def)
    show "x \<in> D"
    proof (rule ccontr)
      assume "x \<notin> D"
      with u have "u \<in> ?open" by simp
      then have "m \<le> wave_index rep p u" unfolding m_def by (intro Min_le) auto
      moreover have "wave_index rep p u \<le> m" using wo t u x by (auto simp: wave_ordered_def)
      ultimately have "x \<in> ?A" using u \<open>x \<notin> D\<close> by (intro image_eqI [of _ _ u]) auto
      with min dx show False by blast
    qed
  qed
  moreover have "\<not> (\<exists>u \<in> set (fp_tasks p). wave_index rep p u < wave_index rep p t \<and> tk_id u \<notin> D)"
  proof
    assume "\<exists>u \<in> set (fp_tasks p). wave_index rep p u < wave_index rep p t \<and> tk_id u \<notin> D"
    then obtain u where u: "u \<in> ?open" "wave_index rep p u < m" using t by auto
    then have "m \<le> wave_index rep p u" unfolding m_def by (intro Min_le) auto
    with u show False by simp
  qed
  moreover have "required_gates rep p t \<subseteq> passed"
    using v gates by (fastforce simp: required_gates_def valid_plan_def gates_exist_def)
  ultimately show ?thesis using t stat by (auto simp: is_ready_def)
qed

text \<open>The order of waves is the order of their keys.\<close>

lemma startswith_wave [simp]: "startswith (CHR ''w'' # CHR ''a'' # CHR ''v'' # CHR ''e'' # CHR ''-'' # c) ''wave-''"
  by (simp add: startswith_def)

lemma wave_key_canonical:
  "wave_key (''wave-'' @ c) = (case int_of_text c of Some n \<Rightarrow> (0, n, []) | None \<Rightarrow> (1, 0, ''wave-'' @ c))"
  by (simp add: wave_key_def split: option.split)

lemma canonical_form: "\<exists>c. canonical_wave_id rep v = ''wave-'' @ c \<and> (int_of_text c = None \<or> (\<exists>n. c = int_text n))"
proof -
  define cand where "cand = (let s = lower (strip (py_str rep v)) in if startswith s ''wave-'' then drop 5 s else s)"
  have "canonical_wave_id rep v = (case int_of_text cand of Some n \<Rightarrow> ''wave-'' @ int_text n | None \<Rightarrow> ''wave-'' @ cand)"
    by (simp add: canonical_wave_id_def cand_def Let_def split: option.split)
  then show ?thesis by (cases "int_of_text cand") auto
qed

lemma wave_key_inj: "inj_on wave_key (range (canonical_wave_id rep))"
proof (rule inj_onI, clarify)
  fix v w assume k: "wave_key (canonical_wave_id rep v) = wave_key (canonical_wave_id rep w)"
  obtain c where c: "canonical_wave_id rep v = ''wave-'' @ c" "int_of_text c = None \<or> (\<exists>n. c = int_text n)"
    using canonical_form by blast
  obtain d where d: "canonical_wave_id rep w = ''wave-'' @ d" "int_of_text d = None \<or> (\<exists>n. d = int_text n)"
    using canonical_form by blast
  have "c = d" using k c(2) d(2) unfolding c(1) d(1) wave_key_canonical
    by (auto simp: int_of_text_int_text)
  with c d show "canonical_wave_id rep v = canonical_wave_id rep w" by simp
qed

lemma index_of_sorted: "sorted_wrt (<) (map f xs) \<Longrightarrow> x \<in> set xs \<Longrightarrow> y \<in> set xs \<Longrightarrow>
    index_of x xs < index_of y xs \<longleftrightarrow> f x < f (y :: 'a)" for f :: "'a \<Rightarrow> 'b :: linorder"
proof (induction xs)
  case (Cons a xs)
  then show ?case by (auto dest: less_asym)
qed simp

definition task_wave_key :: "(pyval \<Rightarrow> string) \<Rightarrow> TaskSpec \<Rightarrow> nat \<times> int \<times> string" where
  "task_wave_key rep t = wave_key (canonical_wave_id rep (tk_wave t))"

lemma wave_index_key:
  assumes "t \<in> set (fp_tasks p)" and "u \<in> set (fp_tasks p)"
  shows "wave_index rep p u < wave_index rep p t \<longleftrightarrow> task_wave_key rep u < task_wave_key rep t"
proof -
  let ?ws = "remdups (map (\<lambda>t. canonical_wave_id rep (tk_wave t)) (fp_tasks p))"
  have "inj_on wave_key (set ?ws)" by (rule inj_on_subset [OF wave_key_inj [of rep]]) auto
  then have "distinct (map wave_key (wave_values rep p))" by (simp add: wave_values_def distinct_map)
  then have "sorted_wrt (<) (map wave_key (wave_values rep p))"
    by (simp add: wave_values_def strict_sorted_iff)
  then show ?thesis unfolding wave_index_def task_wave_key_def
    by (rule index_of_sorted) (use assms in \<open>auto simp: wave_values_def\<close>)
qed

lemma wave_index_eq:
  assumes "t \<in> set (fp_tasks p)" and "u \<in> set (fp_tasks p)" and "wave_index rep p t = wave_index rep p u"
  shows "canonical_wave_id rep (tk_wave t) = canonical_wave_id rep (tk_wave u)"
proof -
  have "\<not> task_wave_key rep t < task_wave_key rep u" "\<not> task_wave_key rep u < task_wave_key rep t"
    using wave_index_key [OF assms(1,2), of rep] wave_index_key [OF assms(2,1), of rep] assms(3) by simp_all
  then have "wave_key (canonical_wave_id rep (tk_wave t)) = wave_key (canonical_wave_id rep (tk_wave u))"
    unfolding task_wave_key_def by simp
  with wave_key_inj [of rep] show ?thesis by (auto dest: inj_onD)
qed

lemma path_overlap_sym: "path_overlap a b \<longleftrightarrow> path_overlap b a"
  by (auto simp: path_overlap_def Let_def)

lemma paths_disjoint_sym: "paths_disjoint l r \<longleftrightarrow> paths_disjoint r l"
  unfolding paths_disjoint_def using path_overlap_sym by blast

definition deps_closed :: "FleetPlan \<Rightarrow> string set \<Rightarrow> bool" where
  "deps_closed p D \<longleftrightarrow> (\<forall>a b. a \<in> D \<longrightarrow> depends p a b \<longrightarrow> b \<in> D)"

text \<open>Tasks whose waves have the same canonical id have equal wave values.\<close>

definition waves_consistent :: "(pyval \<Rightarrow> string) \<Rightarrow> FleetPlan \<Rightarrow> bool" where
  "waves_consistent rep p \<longleftrightarrow> (\<forall>t \<in> set (fp_tasks p). \<forall>u \<in> set (fp_tasks p).
     canonical_wave_id rep (tk_wave t) = canonical_wave_id rep (tk_wave u) \<longrightarrow> py_eq (tk_wave t) (tk_wave u))"

lemma ready_unordered:
  assumes "distinct (map tk_id (fp_tasks p))" and cl: "deps_closed p D"
    and t: "t \<in> set (fp_tasks p)" "is_ready rep p D passed t" and u: "u \<notin> D" "tk_id t \<noteq> u"
  shows "\<not> (depends p)\<^sup>*\<^sup>* (tk_id t) u"
proof
  assume "(depends p)\<^sup>*\<^sup>* (tk_id t) u"
  then obtain d where d: "depends p (tk_id t) d" "(depends p)\<^sup>*\<^sup>* d u"
    using u(2) by (metis converse_rtranclpE)
  then have "d \<in> D" using t assms(1) by (auto simp: is_ready_def depends_def distinct_map dest: inj_onD split: if_splits)
  with d(2) have "u \<in> D"
    by (induction rule: rtranclp_induct) (use cl in \<open>auto simp: deps_closed_def\<close>)
  with u show False by simp
qed

lemma ready_same_wave:
  assumes "t \<in> set (fp_tasks p)" "is_ready rep p D passed t" "tk_id t \<notin> D"
    and "u \<in> set (fp_tasks p)" "is_ready rep p D passed u" "tk_id u \<notin> D"
  shows "wave_index rep p t = wave_index rep p u"
proof -
  have "\<not> wave_index rep p b < wave_index rep p a"
    if "is_ready rep p D passed a" "b \<in> set (fp_tasks p)" "tk_id b \<notin> D" for a b
    using that by (auto simp: is_ready_def split: if_splits)
  from this [OF assms(2,4,6)] this [OF assms(5,1,3)] show ?thesis by simp
qed

section \<open>Example plans\<close>

definition example_task :: "string \<Rightarrow> pyval \<Rightarrow> string list \<Rightarrow> string list \<Rightarrow> TaskSpec" where
  "example_task i wave deps paths = \<lparr>tk_id = i, tk_wave = wave, tk_role = ''dev'', tk_objective = ''do'', tk_title = None,
     tk_capabilities = [], tk_depends_on = deps, tk_parallel_group = None, tk_allowed_paths = paths,
     tk_forbidden_paths = [], tk_inputs = PDict [],
     tk_outputs = [\<lparr>ou_name = ''out'', ou_description = None, ou_required = True\<rparr>],
     tk_acceptance_criteria = [''ok''], tk_validation_commands = [''make''], tk_blocked_when = [],
     tk_retry_policy = RetryPolicy_default, tk_owner = None, tk_status = ''pending''\<rparr>"

definition example_plan :: "TaskSpec list \<Rightarrow> FleetPlan" where
  "example_plan ts = \<lparr>fp_schema_version = SCHEMA_VERSION, fp_agents = [], fp_waves = [], fp_tasks = ts, fp_gates = []\<rparr>"

definition no_rep :: "pyval \<Rightarrow> string" where
  "no_rep v = []"

definition task_a :: TaskSpec where "task_a = example_task ''a'' (PInt 1) [] [''src/a'']"
definition task_b :: TaskSpec where "task_b = example_task ''b'' (PInt 1) [] [''src/b'']"
definition task_c :: TaskSpec where "task_c = example_task ''c'' (PInt 2) [''a''] [''src'']"
definition good_plan :: FleetPlan where "good_plan = example_plan [task_a, task_b, task_c]"

lemmas good_defs = good_plan_def example_plan_def task_a_def task_b_def task_c_def example_task_def

lemma good_distinct: "distinct (map tk_id (fp_tasks good_plan))"
  by (simp add: good_defs)

lemma good_no_errors: "plan_errors good_plan = []"
  by code_simp

lemma good_valid: "valid_plan good_plan"
  using plan_errors_nil [OF good_distinct] good_no_errors by simp

lemma good_waves: "canonical_wave_id no_rep (PInt 1) = ''wave-1''" "canonical_wave_id no_rep (PInt 2) = ''wave-2''"
  by code_simp+

lemma good_wave_values: "wave_values no_rep good_plan = [''wave-1'', ''wave-2'']"
  by code_simp

section \<open>Properties\<close>



text \<open>
  C12: the cycle search is sound and complete, whatever the dictionary of tasks is: every cycle it
  reports is a closed walk along dependencies between existing tasks, and it reports one if and only if
  the dependency graph has a cycle.
\<close>

theorem cycle_search_exact:
  "(\<forall>c \<in> set (dag_cycles g). 2 \<le> length c \<and> hd c = last c \<and> successively (edge g) c)
   \<and> (dag_cycles g = [] \<longleftrightarrow> (\<forall>n. \<not> (edge g)\<^sup>+\<^sup>+ n n))"
  using dag_cycles_genuine [of _ g] dag_cycles_empty [of g] by (auto simp: is_cycle_def)

definition cyclic_tasks :: "TaskSpec dict" where
  "cyclic_tasks = by_id [example_task ''b'' (PInt 1) [''a''] [], example_task ''a'' (PInt 1) [''b''] []]"

theorem cycle_search_exact_witness:
  "dag_cycles cyclic_tasks = [[''a'', ''b'', ''a'']] \<and> edge cyclic_tasks ''a'' ''b'' \<and> edge cyclic_tasks ''b'' ''a''"
proof -
  have c: "dag_cycles cyclic_tasks = [[''a'', ''b'', ''a'']]" by code_simp
  with cycle_search_exact [of cyclic_tasks] show ?thesis by simp
qed

text \<open>
  C13: the ready list is exact. On a valid plan it lists, in order and without duplicates, the ids of
  precisely those tasks that are pending or ready, have every dependency among the terminal ids, have
  no open task in an earlier wave, and have every gate of their wave passed.
\<close>

theorem ready_list_exact:
  assumes "distinct (map tk_id (fp_tasks p))" and "valid_plan p"
  shows "\<exists>ids. compute_ready_tasks rep (Plan p) completed skipped passed = Inr ids
    \<and> sorted ids \<and> distinct ids
    \<and> (\<forall>i. i \<in> set ids \<longleftrightarrow> (\<exists>t \<in> set (fp_tasks p). tk_id t = i \<and> tk_status t \<in> {''pending'', ''ready''}
          \<and> set (tk_depends_on t) \<subseteq> terminal_ids p completed skipped
          \<and> (\<forall>u \<in> set (fp_tasks p). task_wave_key rep u < task_wave_key rep t \<longrightarrow> tk_id u \<in> terminal_ids p completed skipped)
          \<and> required_gates rep p t \<subseteq> set passed))"
proof -
  let ?D = "terminal_ids p completed skipped"
  let ?ts = "filter (is_ready rep p ?D (set passed)) (sort_key tk_id (fp_tasks p))"
  have "distinct (map tk_id (sort_key tk_id (fp_tasks p)))" using assms(1) by (simp add: distinct_map)
  then have d: "distinct (map tk_id ?ts)" by (rule distinct_map_filter)
  have s: "sorted (map tk_id ?ts)" by (intro sorted_filter) simp
  have "i \<in> set (map tk_id ?ts) \<longleftrightarrow> (\<exists>t \<in> set (fp_tasks p). tk_id t = i \<and> is_ready rep p ?D (set passed) t)" for i
    by auto
  moreover have "is_ready rep p ?D (set passed) t \<longleftrightarrow> tk_status t \<in> {''pending'', ''ready''} \<and> set (tk_depends_on t) \<subseteq> ?D
      \<and> (\<forall>u \<in> set (fp_tasks p). task_wave_key rep u < task_wave_key rep t \<longrightarrow> tk_id u \<in> ?D)
      \<and> required_gates rep p t \<subseteq> set passed" if "t \<in> set (fp_tasks p)" for t
    using wave_index_key [OF that, of _ rep] by (auto simp: is_ready_def)
  ultimately show ?thesis using d s compute_ready_set [OF assms] by (intro exI [of _ "map tk_id ?ts"]) auto
qed

theorem ready_list_exact_witness:
  "\<exists>ids. compute_ready_tasks no_rep (Plan good_plan) [''a''] [] [] = Inr ids \<and> ''b'' \<in> set ids \<and> ''c'' \<notin> set ids"
proof -
  let ?D = "terminal_ids good_plan [''a''] []"
  have ab: "task_wave_key no_rep task_a = task_wave_key no_rep task_b" by (simp add: task_wave_key_def good_defs)
  have bc: "task_wave_key no_rep task_b < task_wave_key no_rep task_c" by code_simp
  have ts: "fp_tasks good_plan = [task_a, task_b, task_c]" by (simp add: good_plan_def example_plan_def)
  have D: "?D = {''a''}" by (auto simp: terminal_ids_def good_defs)
  have ids: "tk_id task_a = ''a''" "tk_id task_b = ''b''" "tk_id task_c = ''c''" by (simp_all add: good_defs)
  have b: "tk_status task_b = ''pending''" "tk_depends_on task_b = []" by (simp_all add: good_defs)
  have g: "required_gates no_rep good_plan t = {}" for t by (simp add: required_gates_def good_defs)
  from ready_list_exact [OF good_distinct good_valid, of no_rep "[''a'']" "[]" "[]"] obtain rl
    where r: "compute_ready_tasks no_rep (Plan good_plan) [''a''] [] [] = Inr rl"
      and m: "\<And>i. i \<in> set rl \<longleftrightarrow> (\<exists>t \<in> set (fp_tasks good_plan). tk_id t = i \<and> tk_status t \<in> {''pending'', ''ready''}
          \<and> set (tk_depends_on t) \<subseteq> ?D
          \<and> (\<forall>u \<in> set (fp_tasks good_plan). task_wave_key no_rep u < task_wave_key no_rep t \<longrightarrow> tk_id u \<in> ?D)
          \<and> required_gates no_rep good_plan t \<subseteq> set [])" by blast
  have "\<not> task_wave_key no_rep task_c < task_wave_key no_rep task_b" using bc by (rule less_not_sym)
  then have "''b'' \<in> set rl" unfolding m by (intro bexI [of _ task_b]) (simp_all add: ts ids b g ab)
  moreover have "''c'' \<notin> set rl" unfolding m using bc by (simp add: ts ids D)
  ultimately show ?thesis using r by blast
qed

text \<open>
  C14: valid plans do not get stuck. If no task depends on a task of a later wave, the open tasks are
  pending or ready and all gates have passed, then as long as some task is open the ready list contains
  an open task.
\<close>

theorem ready_progress:
  assumes "distinct (map tk_id (fp_tasks p))" and "valid_plan p" and "wave_ordered rep p"
    and "\<exists>t \<in> set (fp_tasks p). tk_id t \<notin> terminal_ids p completed skipped"
    and "\<forall>t \<in> set (fp_tasks p). tk_id t \<notin> terminal_ids p completed skipped \<longrightarrow> tk_status t \<in> {''pending'', ''ready''}"
    and "gt_id ` set (fp_gates p) \<subseteq> set passed"
  shows "\<exists>ids i. compute_ready_tasks rep (Plan p) completed skipped passed = Inr ids
    \<and> i \<in> set ids \<and> i \<notin> terminal_ids p completed skipped"
proof -
  obtain t where "t \<in> set (fp_tasks p)" "tk_id t \<notin> terminal_ids p completed skipped"
    "is_ready rep p (terminal_ids p completed skipped) (set passed) t"
    using progress_task [OF assms(2-6)] by blast
  then show ?thesis using compute_ready_set [OF assms(1,2)] by (intro exI conjI) auto
qed

theorem ready_progress_witness:
  "\<exists>ids i. compute_ready_tasks no_rep (Plan good_plan) [''a'', ''b''] [] [] = Inr ids \<and> i \<in> set ids \<and> i \<notin> {''a'', ''b''}"
proof -
  have ts: "fp_tasks good_plan = [task_a, task_b, task_c]" by (simp add: good_plan_def example_plan_def)
  have D: "terminal_ids good_plan [''a'', ''b''] [] = {''a'', ''b''}" by (auto simp: terminal_ids_def good_defs)
  have ix: "wave_index no_rep good_plan task_a = 0" "wave_index no_rep good_plan task_c = 1"
    by (simp_all add: wave_index_def good_wave_values) (simp_all add: good_defs good_waves)
  have "wave_ordered no_rep good_plan"
    unfolding wave_ordered_def ts using ix by (simp add: good_defs)
  moreover have "\<exists>t \<in> set (fp_tasks good_plan). tk_id t \<notin> {''a'', ''b''}" by (simp add: good_defs)
  moreover have "\<forall>t \<in> set (fp_tasks good_plan). tk_status t \<in> {''pending'', ''ready''}" by (simp add: good_defs)
  moreover have "gt_id ` set (fp_gates good_plan) \<subseteq> set []" by (simp add: good_defs)
  ultimately show ?thesis
    using ready_progress [OF good_distinct good_valid, of no_rep "[''a'', ''b'']" "[]" "[]"] unfolding D by blast
qed

text \<open>
  C15: tasks that may start together do not share paths. On a valid plan in which waves with the same
  canonical id have equal values, and with a terminal set closed under dependencies, two different open
  tasks of the ready list have disjoint allowed paths.
\<close>

theorem ready_tasks_disjoint:
  assumes d: "distinct (map tk_id (fp_tasks p))" and v: "valid_plan p" and wc: "waves_consistent rep p"
    and cl: "deps_closed p (terminal_ids p completed skipped)"
    and r: "compute_ready_tasks rep (Plan p) completed skipped passed = Inr ids"
    and t: "t \<in> set (fp_tasks p)" "tk_id t \<in> set ids" "tk_id t \<notin> terminal_ids p completed skipped"
    and u: "u \<in> set (fp_tasks p)" "tk_id u \<in> set ids" "tk_id u \<notin> terminal_ids p completed skipped"
    and ne: "tk_id t \<noteq> tk_id u"
  shows "paths_disjoint t u"
proof -
  let ?D = "terminal_ids p completed skipped"
  have rd: "is_ready rep p ?D (set passed) x" if "x \<in> set (fp_tasks p)" "tk_id x \<in> set ids" for x
    using r compute_ready_set [OF d v] that d by (auto simp: distinct_map dest: inj_onD)
  have un: "unordered p (tk_id t) (tk_id u)" "unordered p (tk_id u) (tk_id t)"
    using ready_unordered [OF d cl t(1) rd [OF t(1,2)] u(3) ne]
      ready_unordered [OF d cl u(1) rd [OF u(1,2)] t(3) ne [symmetric]] by (simp_all add: unordered_def)
  have ix: "wave_index rep p t = wave_index rep p u"
    by (rule ready_same_wave [OF t(1) rd [OF t(1,2)] t(3) u(1) rd [OF u(1,2)] u(3)])
  have eq: "py_eq (tk_wave t) (tk_wave u)" "py_eq (tk_wave u) (tk_wave t)"
    using wc wave_index_eq [OF t(1) u(1) ix] t(1) u(1) by (simp_all add: waves_consistent_def)
  have own: "paths_disjoint l r" if "l \<in> set (fp_tasks p)" "r \<in> set (fp_tasks p)" "tk_id l < tk_id r"
    "py_eq (tk_wave l) (tk_wave r)" "unordered p (tk_id l) (tk_id r)" for l r
    using v that by (auto simp: valid_plan_def ownership_safe_def)
  show ?thesis
  proof (cases "tk_id t < tk_id u")
    case True
    then show ?thesis using own t u un eq by blast
  next
    case False
    then have "tk_id u < tk_id t" using ne by simp
    then show ?thesis using own t u un eq paths_disjoint_sym by blast
  qed
qed

theorem ready_tasks_disjoint_witness: "paths_disjoint task_a task_b"
proof -
  have ts: "fp_tasks good_plan = [task_a, task_b, task_c]" by (simp add: good_plan_def example_plan_def)
  have D: "terminal_ids good_plan [] [] = {}" by (auto simp: terminal_ids_def good_defs)
  have w: "tk_wave task_a = PInt 1" "tk_wave task_b = PInt 1" "tk_wave task_c = PInt 2" by (simp_all add: good_defs)
  have wc: "waves_consistent no_rep good_plan"
    by (simp add: waves_consistent_def ts w good_waves atom_eq_def)
  have cl: "deps_closed good_plan (terminal_ids good_plan [] [])" by (simp add: deps_closed_def D)
  obtain ids where r: "compute_ready_tasks no_rep (Plan good_plan) [] [] [] = Inr ids"
    using compute_ready_set [OF good_distinct good_valid] by blast
  have ix: "wave_index no_rep good_plan t = 0" if "t \<in> {task_a, task_b}" for t
    using that w by (auto simp: wave_index_def good_wave_values good_waves)
  have "is_ready no_rep good_plan {} {} t" if "t \<in> {task_a, task_b}" for t
    using that ix [OF that] by (auto simp: is_ready_def required_gates_def good_plan_def example_plan_def)
       (auto simp: task_a_def task_b_def example_task_def)
  then have "tk_id task_a \<in> set ids" "tk_id task_b \<in> set ids"
    using r compute_ready_set [OF good_distinct good_valid, of no_rep "[]" "[]" "[]"] D ts by auto
  moreover have "tk_id task_a \<noteq> tk_id task_b" by (simp add: good_defs)
  ultimately show ?thesis
    using ready_tasks_disjoint [OF good_distinct good_valid wc cl r] D ts by simp
qed

text \<open>
  A dependency on a task of a later wave is accepted and deadlocks both tasks. On a valid plan in
  which an open task depends on an open task of a later wave, neither of them is ever in the ready list,
  whatever else has completed and whatever gates have passed.
\<close>

theorem later_wave_deadlock:
  assumes "distinct (map tk_id (fp_tasks p))" and "isOK (validate_plan (Plan p))"
    and "t \<in> set (fp_tasks p)" and "u \<in> set (fp_tasks p)" and "tk_id u \<in> set (tk_depends_on t)"
    and "task_wave_key rep t < task_wave_key rep u"
    and "tk_id t \<notin> terminal_ids p completed skipped" and "tk_id u \<notin> terminal_ids p completed skipped"
  shows "\<exists>ids. compute_ready_tasks rep (Plan p) completed skipped passed = Inr ids
    \<and> tk_id t \<notin> set ids \<and> tk_id u \<notin> set ids"
proof -
  let ?D = "terminal_ids p completed skipped"
  have v: "valid_plan p" using assms(1,2) plan_errors_nil by (auto simp: validate_plan_def split: if_splits)
  have "\<not> is_ready rep p ?D (set passed) t" using assms(5,8) by (auto simp: is_ready_def)
  moreover have "\<not> is_ready rep p ?D (set passed) u"
    using wave_index_key [OF assms(4,3), of rep] assms(3,6,7) by (auto simp: is_ready_def)
  ultimately show ?thesis
    using compute_ready_set [OF assms(1) v] assms(1,3,4) by (auto simp: distinct_map dest: inj_onD)
qed

definition late_a :: TaskSpec where "late_a = example_task ''a'' (PInt 1) [''b''] []"
definition late_b :: TaskSpec where "late_b = example_task ''b'' (PInt 2) [] []"
definition late_plan :: FleetPlan where "late_plan = example_plan [late_a, late_b]"

lemma late_no_errors: "plan_errors late_plan = []"
  by code_simp

theorem later_wave_deadlock_witness:
  "isOK (validate_plan (Plan late_plan)) \<and> compute_ready_tasks no_rep (Plan late_plan) [] [] [] = Inr []"
proof -
  have ts: "fp_tasks late_plan = [late_a, late_b]" by (simp add: late_plan_def example_plan_def)
  have ids: "tk_id late_a = ''a''" "tk_id late_b = ''b''" "tk_depends_on late_a = [''b'']"
    by (simp_all add: late_a_def late_b_def example_task_def)
  have D: "terminal_ids late_plan [] [] = {}" by (auto simp: terminal_ids_def ts late_a_def late_b_def example_task_def)
  have d: "distinct (map tk_id (fp_tasks late_plan))" by (simp add: ts ids)
  have ok: "isOK (validate_plan (Plan late_plan))" using late_no_errors by (simp add: validate_plan_def)
  have k: "task_wave_key no_rep late_a < task_wave_key no_rep late_b" by code_simp
  from later_wave_deadlock [OF d ok _ _ _ k, of "[]" "[]" "[]"] obtain rl
    where r: "compute_ready_tasks no_rep (Plan late_plan) [] [] [] = Inr rl" "''a'' \<notin> set rl" "''b'' \<notin> set rl"
    using ts ids D by auto
  have "set rl \<subseteq> {''a'', ''b''}"
    using r(1) ts ids(1,2) by (auto simp: compute_ready_tasks_def validate_plan_def split: if_splits)
  with r(2,3) have "rl = []" by (cases rl) auto
  with ok r(1) show ?thesis by simp
qed

definition alias_a :: TaskSpec where "alias_a = example_task ''a'' (PInt 1) [] [''src'']"
definition alias_b :: TaskSpec where "alias_b = example_task ''b'' (PStr ''wave-1'') [] [''src'']"
definition alias_plan :: FleetPlan where "alias_plan = example_plan [alias_a, alias_b]"

lemma alias_no_errors: "plan_errors alias_plan = []"
  by code_simp

text \<open>
  Two spellings of one wave escape the ownership check. Readiness treats the waves 1 and
  \<open>wave-1\<close> as one, the ownership check compares the values: a plan is accepted whose two tasks both own
  the same path, and both are in the first ready list.
\<close>

theorem alias_waves_unchecked:
  "isOK (validate_plan (Plan alias_plan))
   \<and> compute_ready_tasks no_rep (Plan alias_plan) [] [] [] = Inr [''a'', ''b'']
   \<and> canonical_wave_id no_rep (tk_wave alias_a) = canonical_wave_id no_rep (tk_wave alias_b)
   \<and> \<not> paths_disjoint alias_a alias_b"
proof (intro conjI)
  have ts: "fp_tasks alias_plan = [alias_a, alias_b]" by (simp add: alias_plan_def example_plan_def)
  show "isOK (validate_plan (Plan alias_plan))" using alias_no_errors by (simp add: validate_plan_def)
  show c: "canonical_wave_id no_rep (tk_wave alias_a) = canonical_wave_id no_rep (tk_wave alias_b)" by code_simp
  show "\<not> paths_disjoint alias_a alias_b"
    by (auto simp: paths_disjoint_def alias_a_def alias_b_def example_task_def path_overlap_def Let_def)
  have srt: "sort_key tk_id [alias_a, alias_b] = [alias_a, alias_b]"
    by (simp add: alias_a_def alias_b_def example_task_def)
  have "wave_index no_rep alias_plan alias_a = wave_index no_rep alias_plan alias_b" by (simp add: wave_index_def c)
  then have "is_ready no_rep alias_plan (terminal_ids alias_plan [] []) (set []) t" if "t \<in> {alias_a, alias_b}" for t
    using that by (auto simp: is_ready_def ts required_gates_def alias_plan_def example_plan_def)
       (simp_all add: alias_a_def alias_b_def example_task_def)
  then show "compute_ready_tasks no_rep (Plan alias_plan) [] [] [] = Inr [''a'', ''b'']"
    using alias_no_errors by (simp add: compute_ready_tasks_def validate_plan_def ts srt)
      (simp add: alias_a_def alias_b_def example_task_def)
qed

end
