(* ===== verification/Regex.thy ===== *)
theory Regex
  imports PyValue
begin

text \<open>
  The part of Python's \<open>re\<close> that the fleet modules use: character classes, sequence, ordered choice,
  greedy repetition, the anchors and one-character look-behind. A match is a list of end positions in
  the order in which the backtracking engine tries them, so its head is the match that Python returns.
\<close>

datatype regex =
    Cls "char \<Rightarrow> bool"
  | Eps
  | Seq regex regex
  | Alt regex regex
  | Rep nat "nat option" regex
  | Bos
  | Eos
  | Dollar
  | NotAfter "char \<Rightarrow> bool"
  | WordBoundary

section \<open>Character classes\<close>

definition in_range :: "nat \<Rightarrow> nat \<Rightarrow> char \<Rightarrow> bool" where
  "in_range a b c \<longleftrightarrow> (let n = (of_char c :: nat) in a \<le> n \<and> n \<le> b)"

definition ascii_alnum :: "char \<Rightarrow> bool" where
  "ascii_alnum c \<longleftrightarrow> in_range 48 57 c \<or> in_range 65 90 c \<or> in_range 97 122 c"

text \<open>\<open>\w\<close> on code points below 256.\<close>

definition word_char :: "char \<Rightarrow> bool" where
  "word_char c \<longleftrightarrow> ascii_alnum c \<or> c = CHR ''_'' \<or> (of_char c :: nat) \<in> {170, 178, 179, 181, 185, 186, 188, 189, 190}
     \<or> in_range 192 214 c \<or> in_range 216 246 c \<or> in_range 248 255 c"

definition one_of :: "string \<Rightarrow> char \<Rightarrow> bool" where
  "one_of cs c \<longleftrightarrow> c \<in> set cs"

section \<open>Matching\<close>

primrec reps :: "(nat \<Rightarrow> nat list) \<Rightarrow> nat \<Rightarrow> nat \<Rightarrow> nat option \<Rightarrow> nat \<Rightarrow> nat list" where
  "reps f 0 lo hi i = (if lo = 0 then [i] else [])"
| "reps f (Suc fuel) lo hi i =
     (if hi = Some 0 then [] else concat (map (\<lambda>j. if i < j then reps f fuel (lo - 1) (map_option (\<lambda>h. h - 1) hi) j else []) (f i)))
     @ (if lo = 0 then [i] else [])"

definition word_at :: "string \<Rightarrow> nat \<Rightarrow> bool" where
  "word_at s i \<longleftrightarrow> i < length s \<and> word_char (s ! i)"

text \<open>
  Every repeated expression of the modelled patterns consumes a character, so \<open>length s + 1\<close> rounds
  are enough.
\<close>

fun ends :: "regex \<Rightarrow> string \<Rightarrow> nat \<Rightarrow> nat list" where
  "ends (Cls P) s i = (if i < length s \<and> P (s ! i) then [Suc i] else [])"
| "ends Eps s i = [i]"
| "ends (Seq a b) s i = concat (map (ends b s) (ends a s i))"
| "ends (Alt a b) s i = ends a s i @ ends b s i"
| "ends (Rep lo hi a) s i = reps (ends a s) (Suc (length s)) lo hi i"
| "ends Bos s i = (if i = 0 then [i] else [])"
| "ends Eos s i = (if i = length s then [i] else [])"
| "ends Dollar s i = (if i = length s \<or> Suc i = length s \<and> s ! i = CHR 0x0A then [i] else [])"
| "ends (NotAfter P) s i = (if 0 < i \<and> i \<le> length s \<and> P (s ! (i - 1)) then [] else [i])"
| "ends WordBoundary s i = (if (0 < i \<and> word_at s (i - 1)) \<noteq> word_at s i then [i] else [])"

definition re_match :: "regex \<Rightarrow> string \<Rightarrow> bool" where
  "re_match r s \<longleftrightarrow> ends r s 0 \<noteq> []"

definition re_fullmatch :: "regex \<Rightarrow> string \<Rightarrow> bool" where
  "re_fullmatch r s \<longleftrightarrow> length s \<in> set (ends r s 0)"

definition re_search :: "regex \<Rightarrow> string \<Rightarrow> bool" where
  "re_search r s \<longleftrightarrow> (\<exists>i \<in> set [0..<Suc (length s)]. ends r s i \<noteq> [])"

text \<open>
  \<open>re.sub\<close> for a pattern \<open>head body\<close> whose matches are not empty: the text of \<open>head\<close> is kept and the
  rest of each match replaced. With \<open>head = Eps\<close> the whole match is replaced.
\<close>

primrec sub_from :: "regex \<Rightarrow> regex \<Rightarrow> string \<Rightarrow> string \<Rightarrow> nat \<Rightarrow> nat \<Rightarrow> string" where
  "sub_from h b new s 0 i = drop i s"
| "sub_from h b new s (Suc fuel) i = (if length s \<le> i then [] else
     case concat (map (\<lambda>j. map (Pair j) (ends b s j)) (ends h s i)) of
       [] \<Rightarrow> s ! i # sub_from h b new s fuel (Suc i)
     | (j, k) # _ \<Rightarrow> take (j - i) (drop i s) @ new @ (if k \<le> i then s ! i # sub_from h b new s fuel (Suc i) else sub_from h b new s fuel k))"

definition re_sub :: "regex \<Rightarrow> regex \<Rightarrow> string \<Rightarrow> string \<Rightarrow> string" where
  "re_sub h b new s = sub_from h b new s (Suc (length s)) 0"

section \<open>Building patterns\<close>

definition lit :: "string \<Rightarrow> regex" where
  "lit w = foldr (\<lambda>c r. Seq (Cls (\<lambda>x. x = c)) r) w Eps"

text \<open>Under \<open>(?i)\<close> a letter matches in both cases.\<close>

definition ilit :: "string \<Rightarrow> regex" where
  "ilit w = foldr (\<lambda>c r. Seq (Cls (\<lambda>x. lower_char x = lower_char c)) r) w Eps"

fun alts :: "regex list \<Rightarrow> regex" where
  "alts [] = Cls (\<lambda>_. False)"
| "alts [r] = r"
| "alts (r # q # rs) = Alt r (alts (q # rs))"

fun seqs :: "regex list \<Rightarrow> regex" where
  "seqs [] = Eps"
| "seqs [r] = r"
| "seqs (r # q # rs) = Seq r (seqs (q # rs))"

abbreviation star :: "regex \<Rightarrow> regex" where "star r \<equiv> Rep 0 None r"
abbreviation plus :: "regex \<Rightarrow> regex" where "plus r \<equiv> Rep 1 None r"
abbreviation opt :: "regex \<Rightarrow> regex" where "opt r \<equiv> Rep 0 (Some 1) r"

section \<open>Matching single-character repetitions\<close>

lemma reps_class:
  "i \<le> length s \<Longrightarrow> length s - i \<le> fuel \<Longrightarrow>
     j \<in> set (reps (ends (Cls P) s) fuel lo hi i)
     \<longleftrightarrow> i \<le> j \<and> j \<le> length s \<and> lo \<le> j - i \<and> (\<forall>h. hi = Some h \<longrightarrow> j - i \<le> h) \<and> (\<forall>k. i \<le> k \<and> k < j \<longrightarrow> P (s ! k))"
proof (induction fuel arbitrary: i lo hi)
  case 0
  then show ?case by auto
next
  case (Suc fuel)
  show ?case
  proof (cases "hi \<noteq> Some 0 \<and> i < length s \<and> P (s ! i)")
    case True
    have IH: "j \<in> set (reps (ends (Cls P) s) fuel (lo - 1) (map_option (\<lambda>h. h - 1) hi) (Suc i))
        \<longleftrightarrow> Suc i \<le> j \<and> j \<le> length s \<and> lo - 1 \<le> j - Suc i \<and> (\<forall>h. hi = Some h \<longrightarrow> j - Suc i \<le> h - 1)
          \<and> (\<forall>k. Suc i \<le> k \<and> k < j \<longrightarrow> P (s ! k))"
      using Suc.prems True by (subst Suc.IH) auto
    have st: "j \<in> set (reps (ends (Cls P) s) (Suc fuel) lo hi i)
        \<longleftrightarrow> j \<in> set (reps (ends (Cls P) s) fuel (lo - 1) (map_option (\<lambda>h. h - 1) hi) (Suc i)) \<or> lo = 0 \<and> j = i"
      using True by auto
    have all: "(\<forall>k. i \<le> k \<and> k < j \<longrightarrow> P (s ! k)) \<longleftrightarrow> (\<forall>k. Suc i \<le> k \<and> k < j \<longrightarrow> P (s ! k))" if "i < j"
      using True by (metis Suc_leI le_eq_less_or_eq Suc_leD)
    have hi: "(\<forall>h. hi = Some h \<longrightarrow> j - Suc i \<le> h - 1) \<longleftrightarrow> (\<forall>h. hi = Some h \<longrightarrow> j - i \<le> h)" if "i < j"
      using that True by (cases hi) auto
    consider "i < j" | "j = i" | "j < i" by linarith
    then show ?thesis
    proof cases
      case 1
      then have "lo - 1 \<le> j - Suc i \<longleftrightarrow> lo \<le> j - i" by linarith
      with 1 show ?thesis unfolding st IH all [OF 1] hi [OF 1] by auto
    next
      case 2
      then show ?thesis unfolding st IH using Suc.prems by auto
    next
      case 3
      then show ?thesis unfolding st IH by auto
    qed
  next
    case False
    then show ?thesis using Suc.prems by (auto simp: le_less)
  qed
qed

lemma all_from: "(\<forall>k. i \<le> k \<and> k < length s \<longrightarrow> P (s ! k)) \<longleftrightarrow> list_all P (drop i s)"
proof -
  have "list_all P (drop i s) \<longleftrightarrow> (\<forall>k < length s - i. P (s ! (i + k)))" by (auto simp: list_all_length)
  also have "\<dots> \<longleftrightarrow> (\<forall>k. i \<le> k \<and> k < length s \<longrightarrow> P (s ! k))"
    by (metis add_diff_inverse_nat le_add1 less_diff_conv2 linorder_not_le add.commute less_diff_conv)
  finally show ?thesis by simp
qed

lemma ends_class_star: "i \<le> length s \<Longrightarrow> length s \<in> set (ends (Rep lo hi (Cls P)) s i) \<longleftrightarrow>
    lo \<le> length s - i \<and> (\<forall>h. hi = Some h \<longrightarrow> length s - i \<le> h) \<and> list_all P (drop i s)"
  using reps_class [of i s "Suc (length s)" "length s" P lo hi] all_from [of i s P] by simp

lemma fullmatch_class_star:
  "re_fullmatch (Rep lo hi (Cls P)) s \<longleftrightarrow> lo \<le> length s \<and> (\<forall>h. hi = Some h \<longrightarrow> length s \<le> h) \<and> list_all P s"
  using ends_class_star [of 0 s lo hi P] by (simp add: re_fullmatch_def)

lemma fullmatch_head_star:
  "re_fullmatch (Seq (Cls P) (Rep lo hi (Cls Q))) s \<longleftrightarrow>
     s \<noteq> [] \<and> P (hd s) \<and> lo \<le> length (tl s) \<and> (\<forall>h. hi = Some h \<longrightarrow> length (tl s) \<le> h) \<and> list_all Q (tl s)"
  using ends_class_star [of 1 s lo hi Q] by (cases s) (auto simp: re_fullmatch_def)

end
