(* ===== verification/RegexFast.thy ===== *)
theory RegexFast
  imports Regex
begin

text \<open>
  Evaluation of \<open>Regex\<close> on concrete texts: the matcher on zippers, a reversed prefix and the rest of the text, needs
  no indices and no arithmetic. It is proved equal to the matcher on positions and gives its code equations.
\<close>

lemma lower_char_code [code]: "lower_char (Char b0 b1 b2 b3 b4 b5 b6 b7) =
    Char b0 b1 b2 b3 b4 (b5 \<or> b6 \<and> (if b7 then \<not> (b4 \<and> b2 \<and> b1 \<and> b0) else (b4 \<or> b3 \<or> b2 \<or> b1 \<or> b0) \<and> \<not> (b4 \<and> b3 \<and> (b2 \<or> b1 \<and> b0)))) b6 b7"
  by (cases b0; cases b1; cases b2; cases b3; cases b4; cases b5; cases b6; cases b7; simp only: if_True if_False simp_thms; code_simp)

type_synonym zip_pos = "string \<times> string"

fun shorter :: "'a list \<Rightarrow> 'a list \<Rightarrow> bool" where
  "shorter [] ys = (ys \<noteq> [])"
| "shorter (x # xs) [] = False"
| "shorter (x # xs) (y # ys) = shorter xs ys"

lemma shorter_iff: "shorter xs ys \<longleftrightarrow> length xs < length ys"
  by (induction xs ys rule: shorter.induct) auto

primrec repsz :: "(zip_pos \<Rightarrow> zip_pos list) \<Rightarrow> string \<Rightarrow> nat \<Rightarrow> nat option \<Rightarrow> zip_pos \<Rightarrow> zip_pos list" where
  "repsz f [] lo hi z = (if lo = 0 then [z] else [])"
| "repsz f (x # fuel) lo hi z =
     (if hi = Some 0 then [] else concat (map (\<lambda>w. if shorter (snd w) (snd z) then repsz f fuel (lo - 1) (map_option (\<lambda>h. h - 1) hi) w else []) (f z)))
     @ (if lo = 0 then [z] else [])"

definition word_before :: "zip_pos \<Rightarrow> bool" where
  "word_before z = (case fst z of [] \<Rightarrow> False | c # _ \<Rightarrow> word_char c)"

definition word_after :: "zip_pos \<Rightarrow> bool" where
  "word_after z = (case snd z of [] \<Rightarrow> False | c # _ \<Rightarrow> word_char c)"

fun endz :: "regex \<Rightarrow> zip_pos \<Rightarrow> zip_pos list" where
  "endz (Cls P) z = (case snd z of [] \<Rightarrow> [] | c # cs \<Rightarrow> if P c then [(c # fst z, cs)] else [])"
| "endz Eps z = [z]"
| "endz (Seq a b) z = concat (map (endz b) (endz a z))"
| "endz (Alt a b) z = endz a z @ endz b z"
| "endz (Rep lo hi a) z = repsz (endz a) (CHR 0x00 # fst z @ snd z) lo hi z"
| "endz Bos z = (if fst z = [] then [z] else [])"
| "endz Eos z = (if snd z = [] then [z] else [])"
| "endz Dollar z = (if snd z = [] \<or> snd z = [CHR 0x0A] then [z] else [])"
| "endz (NotAfter P) z = (case fst z of [] \<Rightarrow> [z] | c # _ \<Rightarrow> if P c then [] else [z])"
| "endz WordBoundary z = (if word_before z \<noteq> word_after z then [z] else [])"

definition at_pos :: "string \<Rightarrow> nat \<Rightarrow> zip_pos" where
  "at_pos s i = (rev (take i s), drop i s)"

lemma reps_bound:
  assumes f: "\<And>k j. k \<le> n \<Longrightarrow> j \<in> set (f k) \<Longrightarrow> j \<le> n"
  shows "i \<le> n \<Longrightarrow> j \<in> set (reps f fuel lo hi i) \<Longrightarrow> j \<le> n"
proof (induction fuel arbitrary: lo hi i)
  case (Suc fuel)
  from Suc.prems(2) consider "j = i" | k lo' hi' where "k \<in> set (f i)" "j \<in> set (reps f fuel lo' hi' k)"
    by (auto split: if_split_asm)
  then show ?case
  proof cases
    case 2
    show ?thesis by (rule Suc.IH [OF f [OF Suc.prems(1) 2(1)] 2(2)])
  qed (use Suc.prems in simp)
qed (auto split: if_split_asm)

lemma ends_bound: "i \<le> length s \<Longrightarrow> j \<in> set (ends r s i) \<Longrightarrow> j \<le> length s"
proof (induction r arbitrary: i j)
  case (Rep lo hi r)
  have "j \<in> set (reps (ends r s) (Suc (length s)) lo hi i)" using Rep.prems(2) by (simp only: ends.simps)
  from reps_bound [where f = "ends r s" and n = "length s", OF _ Rep.prems(1) this] show ?case using Rep.IH by blast
next
  case (Seq a b)
  from Seq.prems(2) obtain k where "k \<in> set (ends a s i)" "j \<in> set (ends b s k)" by auto
  then show ?case using Seq.IH(2) [OF Seq.IH(1) [OF Seq.prems(1)]] by blast
next
  case (Alt a b)
  from Alt.prems(2) have "j \<in> set (ends a s i) \<or> j \<in> set (ends b s i)" by simp
  then show ?case using Alt.IH(1) [OF Alt.prems(1)] Alt.IH(2) [OF Alt.prems(1)] by blast
qed (simp_all split: if_split_asm)

lemma at_pos_shorter: "i \<le> length s \<Longrightarrow> j \<le> length s \<Longrightarrow> shorter (snd (at_pos s j)) (snd (at_pos s i)) \<longleftrightarrow> i < j"
  by (auto simp: shorter_iff at_pos_def)

lemma repsz_reps:
  assumes step: "\<And>k. k \<le> length s \<Longrightarrow> map (at_pos s) (f k) = g (at_pos s k)" and bound: "\<And>k j. k \<le> length s \<Longrightarrow> j \<in> set (f k) \<Longrightarrow> j \<le> length s"
  shows "i \<le> length s \<Longrightarrow> map (at_pos s) (reps f (length fuel) lo hi i) = repsz g fuel lo hi (at_pos s i)"
proof (induction fuel arbitrary: lo hi i)
  case (Cons x fuel)
  have go: "map (at_pos s) (if i < j then reps f (length fuel) lo' hi' j else [])
      = (if shorter (snd (at_pos s j)) (snd (at_pos s i)) then repsz g fuel lo' hi' (at_pos s j) else [])" if "j \<in> set (f i)" for j lo' hi'
    using Cons.IH [OF bound [OF Cons.prems that]] at_pos_shorter [OF Cons.prems bound [OF Cons.prems that]] by simp
  have "map (at_pos s) (concat (map (\<lambda>j. if i < j then reps f (length fuel) lo' hi' j else []) (f i)))
      = concat (map (\<lambda>w. if shorter (snd w) (snd (at_pos s i)) then repsz g fuel lo' hi' w else []) (g (at_pos s i)))" for lo' hi'
    unfolding step [OF Cons.prems, symmetric] map_concat map_map comp_def
    by (rule arg_cong [where f = concat], rule map_cong [OF refl], rule go)
  then show ?case by simp
qed simp

lemma at_pos_parts: "i \<le> length s \<Longrightarrow> fst (at_pos s i) = [] \<longleftrightarrow> i = 0" "snd (at_pos s i) = [] \<longleftrightarrow> length s \<le> i"
  by (auto simp: at_pos_def)

lemma drop_cases: "drop i s = (if i < length s then s ! i # drop (Suc i) s else [])"
  by (simp add: Cons_nth_drop_Suc)

lemma take_cases: "i \<le> length s \<Longrightarrow> rev (take i s) = (case i of 0 \<Rightarrow> [] | Suc j \<Rightarrow> s ! j # rev (take j s))"
  by (cases i) (simp_all add: take_Suc_conv_app_nth)

text \<open>The two matchers agree.\<close>

lemma endz_ends: "i \<le> length s \<Longrightarrow> map (at_pos s) (ends r s i) = endz r (at_pos s i)"
proof (induction r arbitrary: i)
  case (Cls P)
  then show ?case by (simp add: at_pos_def drop_cases [of i] take_Suc_conv_app_nth)
next
  case (Seq a b)
  have "map (map (at_pos s) \<circ> ends b s) (ends a s i) = map (endz b \<circ> at_pos s) (ends a s i)"
    by (rule map_cong [OF refl]) (use Seq.IH(2) ends_bound [OF Seq.prems] in auto)
  then show ?case using Seq.IH(1) [OF Seq.prems, symmetric] by (simp add: map_concat del: map_eq_conv)
next
  case (Rep lo hi r)
  have "length (CHR 0x00 # fst (at_pos s i) @ snd (at_pos s i)) = Suc (length s)" using Rep.prems by (simp add: at_pos_def)
  moreover have "map (at_pos s) (reps (ends r s) (length fuel) lo hi i) = repsz (endz r) fuel lo hi (at_pos s i)" for fuel
    by (rule repsz_reps [where f = "ends r s" and g = "endz r" and s = s, OF Rep.IH ends_bound Rep.prems])
  ultimately show ?case unfolding ends.simps endz.simps by metis
next
  case Dollar
  have "drop i s = [CHR 0x0A] \<longleftrightarrow> Suc i = length s \<and> s ! i = CHR 0x0A" by (subst drop_cases) auto
  then show ?case using Dollar by (auto simp: at_pos_def)
next
  case (NotAfter P)
  then show ?case by (cases i) (simp_all add: at_pos_def take_Suc_conv_app_nth)
next
  case WordBoundary
  have "word_before (at_pos s i) \<longleftrightarrow> 0 < i \<and> word_at s (i - 1)" using WordBoundary
    by (cases i) (simp_all add: at_pos_def word_before_def word_at_def take_Suc_conv_app_nth)
  moreover have "word_after (at_pos s i) \<longleftrightarrow> word_at s i"
    by (simp add: at_pos_def word_after_def word_at_def drop_cases [of i])
  ultimately show ?case by simp
qed (auto simp: at_pos_def)

primrec searchz :: "regex \<Rightarrow> string \<Rightarrow> string \<Rightarrow> bool" where
  "searchz r before [] = (endz r (before, []) \<noteq> [])"
| "searchz r before (c # cs) = (endz r (before, c # cs) \<noteq> [] \<or> searchz r (c # before) cs)"

lemma ex_first: "(\<exists>i \<le> Suc n. P i) \<longleftrightarrow> P 0 \<or> (\<exists>i \<le> n. P (Suc i))"
  by (metis Suc_le_mono le0 not0_implies_Suc)

lemma searchz_iff: "searchz r before cs \<longleftrightarrow> (\<exists>i \<le> length cs. endz r (rev (take i cs) @ before, drop i cs) \<noteq> [])"
  by (induction cs arbitrary: before) (simp_all add: ex_first)

lemma re_match_code [code]: "re_match r s \<longleftrightarrow> endz r ([], s) \<noteq> []"
  using endz_ends [of 0 s r] by (auto simp: re_match_def at_pos_def)

lemma re_fullmatch_code [code]: "re_fullmatch r s \<longleftrightarrow> list_ex (\<lambda>z. snd z = []) (endz r ([], s))"
proof -
  have "endz r ([], s) = map (at_pos s) (ends r s 0)" using endz_ends [of 0 s r] by (simp add: at_pos_def)
  then show ?thesis using ends_bound [of 0 s _ r] by (force simp: re_fullmatch_def list_ex_iff at_pos_def)
qed

lemma re_search_code [code]: "re_search r s \<longleftrightarrow> searchz r [] s"
proof -
  have "re_search r s \<longleftrightarrow> (\<exists>i \<le> length s. ends r s i \<noteq> [])" by (auto simp: re_search_def less_Suc_eq_le simp del: upt_Suc)
  also have "\<dots> \<longleftrightarrow> (\<exists>i \<le> length s. endz r (at_pos s i) \<noteq> [])" using endz_ends [of _ s r] by (metis map_is_Nil_conv)
  finally show ?thesis by (simp add: searchz_iff at_pos_def)
qed

end
