(* ===== verification/RunStore.thy ===== *)
theory RunStore
  imports RegexFast
begin

text \<open>
  Crash-safe persistence of fleet runs, \<open>scripts/pd_fleet/run_store.py\<close>. A run is one snapshot, kept in a
  primary and a backup file; every operation holds the store lock, reads the newest valid snapshot,
  computes a candidate and writes it. Three layers mirror this: operations on snapshots, the two files
  and the steps of a write, and the operations on the files.

  What the code takes from outside is the record \<open>store_env\<close>: the reading and printing of ISO-8601 UTC
  instants (microseconds since the epoch), SHA-256 of canonical JSON, the plan hash and the checksum.
  Clock readings and random lease ids are arguments. A file is missing, a symbolic link, a snapshot
  whose fields have the JSON types of the record below, or anything else (\<open>Garbage\<close>).
\<close>

section \<open>Constants, errors, environment\<close>

text \<open>
  \<open>BoundedCapacity\<close> is the \<open>RunStoreError\<close> with the text ``bounded capacity exceeded'', which the scheduler
  tells apart. A selector given to \<open>claim_many\<close> may raise the three errors of the scheduler, which are
  subclasses of \<open>RunStoreError\<close>, and \<open>PyTypeError\<close>, Python's \<open>TypeError\<close>.
\<close>

datatype store_error =
    RunStoreError | RunNotFoundError | OwnerMismatchError | GenerationConflictError | LeaseError
  | DuplicateCommitError | PathContainmentError | CorruptSnapshotError | BoundedCapacity
  | SchedulerError | OwnershipConflict | CapacityExceeded | PyTypeError

type_synonym 'a sres = "(store_error, 'a) result"

definition ID_RE :: regex where
  "ID_RE = Seq (Cls ascii_alnum) (star (Cls (\<lambda>c. ascii_alnum c \<or> one_of ''_.-'' c)))"

definition STATUSES :: "string list" where
  "STATUSES = [''created'', ''running'', ''completed'', ''failed'', ''cancelled'', ''blocked'']"

definition TASK_STATUSES :: "string list" where
  "TASK_STATUSES = STATUSES @ [''pending'', ''ready'', ''blocked'', ''orphaned'', ''skipped'']"

definition TERMINAL_TASK_STATUSES :: "string list" where
  "TERMINAL_TASK_STATUSES = [''completed'', ''failed'', ''blocked'', ''cancelled'', ''orphaned'', ''skipped'']"

definition TERMINAL_RUN_STATUSES :: "string list" where
  "TERMINAL_RUN_STATUSES = [''completed'', ''failed'', ''cancelled'']"

definition REPORT_STATUSES :: "string list" where
  "REPORT_STATUSES = [''completed'', ''failed'', ''blocked'']"

definition REPORT_FIELDS :: "string list" where
  "REPORT_FIELDS = [''status'', ''outputs'', ''evidence'', ''tests'', ''validation'', ''decision'', ''started_at'',
     ''completed_at'', ''reason'', ''error'', ''blocker'']"

record store_env =
  se_parse :: "string \<Rightarrow> int option"
  se_format :: "int \<Rightarrow> string"
  se_digest :: "pyval \<Rightarrow> string"
  se_plan_hash :: "pymap \<Rightarrow> string"

text \<open>The check of a clock reading; the value itself is what the operations use.\<close>

definition clock_value :: "store_env \<Rightarrow> string \<Rightarrow> string sres" where
  "clock_value env value = (if se_parse env value = None then Inl RunStoreError else Inr value)"

definition is_stamp :: "store_env \<Rightarrow> pyval \<Rightarrow> bool" where
  "is_stamp env v = (case as_str v of None \<Rightarrow> False | Some s \<Rightarrow> se_parse env s \<noteq> None)"

definition plus_seconds :: "store_env \<Rightarrow> string \<Rightarrow> rat \<Rightarrow> string sres" where
  "plus_seconds env value secs = (if secs \<le> 0 then Inl LeaseError else
     case se_parse env value of None \<Rightarrow> Inl RunStoreError | Some t \<Rightarrow> Inr (se_format env (t + micros secs)))"

definition safe_id :: "string \<Rightarrow> unit sres" where
  "safe_id value = guardR (value \<noteq> [] \<and> value \<noteq> ''.'' \<and> value \<noteq> ''..'' \<and> re_fullmatch ID_RE value) PathContainmentError"

section \<open>Redaction\<close>

definition KEY_RE :: "string \<Rightarrow> regex" where
  "KEY_RE w = seqs [ilit w, opt (Cls (one_of ''_ -'')), ilit ''key'']"

definition SENSITIVE :: regex where
  "SENSITIVE = alts [ilit ''token'', ilit ''secret'', ilit ''password'', ilit ''credential'', KEY_RE ''api'',
     ilit ''authorization'', KEY_RE ''private'']"

definition SECRET_HEAD :: regex where
  "SECRET_HEAD = Alt (Seq (ilit ''bearer'') (plus (Cls is_space)))
     (seqs [alts [ilit ''token'', ilit ''secret'', ilit ''password'', KEY_RE ''api'', ilit ''authorization''],
        star (Cls is_space), Cls (one_of '':=''), star (Cls is_space)])"

definition URL_RE :: regex where
  "URL_RE = seqs [alts [Seq (ilit ''http'') (opt (ilit ''s'')), ilit ''ftp'', Seq (ilit ''ws'') (opt (ilit ''s''))],
     lit ''://'', plus (Cls (\<lambda>c. \<not> is_space c \<and> \<not> one_of [CHR 0x22, CHR 0x27, CHR ''<'', CHR ''>''] c))]"

definition PATH_RE :: regex where
  "PATH_RE = (let slash = Cls (one_of [CHR ''/'', CHR 0x5C]); rest = plus (Cls (\<lambda>c. \<not> is_space c \<and> \<not> one_of '',;'' c))
     in Seq (NotAfter (\<lambda>c. word_char c \<or> c = CHR ''.''))
       (alts [seqs [lit ''~'', slash, rest], Seq (lit ''/'') rest,
          seqs [Cls (\<lambda>c. in_range 65 90 c \<or> in_range 97 122 c), lit '':'', slash, rest],
          Seq (lit [CHR 0x5C, CHR 0x5C]) rest]))"

definition redact_text :: "string \<Rightarrow> string" where
  "redact_text s = re_sub SECRET_HEAD (plus (Cls (\<lambda>c. \<not> is_space c))) ''[REDACTED]''
     (re_sub Eps PATH_RE ''[PATH REDACTED]'' (re_sub Eps URL_RE ''[URL REDACTED]'' s))"

text \<open>\<open>None\<close> is the \<open>RunStoreError\<close> of a payload that is not JSON-safe. Values cannot be cyclic here.\<close>

function (sequential) redact :: "pyval \<Rightarrow> pyval option" where
  "redact (PDict d) = map_option PDict (those (map (\<lambda>kv. case as_str (fst kv) of
       None \<Rightarrow> None
     | Some k \<Rightarrow> if re_search SENSITIVE k then Some (fst kv, PStr ''[REDACTED]'')
         else map_option (Pair (fst kv)) (redact (snd kv))) d))"
| "redact (PProxy d) = map_option PDict (those (map (\<lambda>kv. case as_str (fst kv) of
       None \<Rightarrow> None
     | Some k \<Rightarrow> if re_search SENSITIVE k then Some (fst kv, PStr ''[REDACTED]'')
         else map_option (Pair (fst kv)) (redact (snd kv))) d))"
| "redact (PList xs) = map_option PList (those (map redact xs))"
| "redact (PTuple xs) = map_option PList (those (map redact xs))"
| "redact (PStr s) = Some (PStr (redact_text s))"
| "redact (PFloat f) = (if as_finite f = None then None else Some (PFloat f))"
| "redact (POther n) = None"
| "redact v = Some v"
  by pat_completeness auto
termination
  by (relation "measure size")
     (auto dest: py_pair_size size_list_estimation' [of _ _ _ size, OF _ order_refl] simp: less_Suc_eq_le)

definition redact_map :: "pymap \<Rightarrow> pymap sres" where
  "redact_map d = (case redact (PDict d) of Some (PDict e) \<Rightarrow> Inr e | _ \<Rightarrow> Inl RunStoreError)"

section \<open>Snapshots\<close>

record lease =
  ls_owner :: string
  ls_lease_id :: string
  ls_expires_at :: string
  ls_generation :: int

record token =
  tn_run_id :: string
  tn_task_id :: string
  tn_lease_id :: string
  tn_generation :: int
  tn_expires_at :: string

record report_record =
  rc_status :: string
  rc_report :: pymap
  rc_digest :: string
  rc_attempt :: int
  rc_lease_id :: string
  rc_lease_generation :: int

record snapshot =
  sn_schema_version :: string
  sn_run_id :: string
  sn_plan_hash :: string
  sn_plan :: pymap
  sn_generation :: int
  sn_owner :: string
  sn_status :: string
  sn_waves :: "pymap list"
  sn_tasks :: "pymap dict"
  sn_leases :: "lease dict"
  sn_attempts :: "int dict"
  sn_checkpoints :: "pymap dict"
  sn_reports :: "report_record dict"
  sn_events :: "pymap list"
  sn_gates :: pyval
  sn_metrics :: pyval
  sn_audit :: pyval
  sn_event_sequence :: int
  sn_updated_at :: string

definition SNAPSHOT_SCHEMA :: string where "SNAPSHOT_SCHEMA = ''pd-fleet-run:v2''"

definition ID_OK :: "string \<Rightarrow> bool" where
  "ID_OK s = re_fullmatch ID_RE s"

text \<open>\<open>v not in (None, "", [], {})\<close>.\<close>

definition filled :: "pymap \<Rightarrow> string \<Rightarrow> bool" where
  "filled d k = (mget_or d k PNone \<notin> {PNone, PStr [], PList [], PDict []})"

definition valid_report :: "store_env \<Rightarrow> pymap \<Rightarrow> string \<Rightarrow> bool" where
  "valid_report env report status =
     (if \<not> (\<forall>k \<in> set (map fst report). case as_str k of None \<Rightarrow> False | Some s \<Rightarrow> s \<in> set REPORT_FIELDS) then False
      else if mget report ''status'' \<noteq> Some (PStr status) then False
      else if \<exists>k \<in> {''started_at'', ''completed_at''}. case mget report k of None \<Rightarrow> False | Some v \<Rightarrow> \<not> is_stamp env v then False
      else if status = ''completed'' then
        filled report ''outputs'' \<and> filled report ''evidence'' \<and> (filled report ''tests'' \<or> filled report ''validation'')
        \<and> filled report ''decision'' \<and> mhas report ''started_at'' \<and> mhas report ''completed_at''
      else filled report ''reason'' \<or> filled report ''error'' \<or> filled report ''blocker'')"

definition hex64 :: "string \<Rightarrow> bool" where
  "hex64 s = re_fullmatch (Rep 64 (Some 64) (Cls (\<lambda>c. in_range 48 57 c \<or> in_range 97 102 c))) s"

definition valid_report_record :: "store_env \<Rightarrow> report_record \<Rightarrow> bool" where
  "valid_report_record env r \<longleftrightarrow> rc_status r \<in> set REPORT_STATUSES
     \<and> (\<forall>k \<in> set (map fst (rc_report r)). case as_str k of None \<Rightarrow> False | Some s \<Rightarrow> s \<in> set REPORT_FIELDS)
     \<and> 1 \<le> rc_attempt r \<and> ID_OK (rc_lease_id r) \<and> 0 \<le> rc_lease_generation r \<and> hex64 (rc_digest r)
     \<and> se_digest env (PDict (rc_report r)) = rc_digest r \<and> valid_report env (rc_report r) (rc_status r)"

definition valid_event :: "pymap \<Rightarrow> bool" where
  "valid_event e \<longleftrightarrow>
     (case mget_or e ''sequence'' PNone of PInt n \<Rightarrow> 1 \<le> n | _ \<Rightarrow> False)
     \<and> (case mget_or e ''event_id'' PNone of PStr s \<Rightarrow> ID_OK s | _ \<Rightarrow> False)
     \<and> (case mget_or e ''ordering_key'' PNone of PStr s \<Rightarrow> s \<noteq> [] | _ \<Rightarrow> False)
     \<and> (case mget e ''generation'' of None \<Rightarrow> True | Some (PInt n) \<Rightarrow> 0 \<le> n | _ \<Rightarrow> False)
     \<and> (case mget e ''metadata'' of None \<Rightarrow> True | Some (PDict m) \<Rightarrow> True | _ \<Rightarrow> False)"

definition valid_lease :: "store_env \<Rightarrow> string \<Rightarrow> lease \<Rightarrow> bool" where
  "valid_lease env task_id l \<longleftrightarrow> ID_OK task_id \<and> ID_OK (ls_owner l) \<and> ID_OK (ls_lease_id l) \<and> 0 \<le> ls_generation l
     \<and> se_parse env (ls_expires_at l) \<noteq> None"

definition valid_task :: "pymap \<Rightarrow> bool" where
  "valid_task t = (case mget t ''status'' of None \<Rightarrow> True
     | Some v \<Rightarrow> case as_str v of None \<Rightarrow> False | Some s \<Rightarrow> s \<in> set TASK_STATUSES)"

definition event_sequence_of :: "pymap \<Rightarrow> int" where
  "event_sequence_of e = (case mget_or e ''sequence'' PNone of PInt n \<Rightarrow> n | _ \<Rightarrow> 0)"

text \<open>The checksum is a field of the file, not of the record, and is judged in \<open>validate_file\<close>.\<close>

definition validate :: "store_env \<Rightarrow> string \<Rightarrow> snapshot \<Rightarrow> bool" where
  "validate env rid s \<longleftrightarrow> sn_schema_version s = SNAPSHOT_SCHEMA \<and> sn_run_id s = rid
     \<and> 0 \<le> sn_generation s \<and> 0 \<le> sn_event_sequence s
     \<and> ID_OK (sn_owner s) \<and> sn_status s \<in> set STATUSES
     \<and> se_plan_hash env (sn_plan s) = sn_plan_hash s \<and> se_parse env (sn_updated_at s) \<noteq> None
     \<and> ditems_all (\<lambda>i t. valid_task t) (sn_tasks s) \<and> ditems_all (valid_lease env) (sn_leases s)
     \<and> ditems_all (\<lambda>i n. 0 \<le> n) (sn_attempts s)
     \<and> ditems_all (\<lambda>i r. ID_OK i \<and> valid_report_record env r) (sn_reports s)
     \<and> (\<forall>e \<in> set (sn_events s). valid_event e)
     \<and> map event_sequence_of (sn_events s) = [1..sn_event_sequence s]"

section \<open>The two files\<close>

datatype disk_file = Missing | Symlink | Garbage | Stored snapshot string

record disk =
  dk_primary :: disk_file
  dk_backup :: disk_file

text \<open>\<open>_seal\<close> adds the checksum of the snapshot.\<close>

definition seal :: "(snapshot \<Rightarrow> string) \<Rightarrow> snapshot \<Rightarrow> disk_file" where
  "seal checksum s = Stored s (checksum s)"

definition validate_file :: "store_env \<Rightarrow> (snapshot \<Rightarrow> string) \<Rightarrow> string \<Rightarrow> disk_file \<Rightarrow> snapshot option" where
  "validate_file env checksum rid f = (case f of
       Stored s c \<Rightarrow> if validate env rid s \<and> checksum s = c then Some s else None
     | _ \<Rightarrow> None)"

text \<open>The newest valid candidate; of two with equal generation the primary.\<close>

definition valid_snapshot :: "store_env \<Rightarrow> (snapshot \<Rightarrow> string) \<Rightarrow> string \<Rightarrow> disk \<Rightarrow> snapshot option" where
  "valid_snapshot env checksum rid d =
     (case (validate_file env checksum rid (dk_primary d), validate_file env checksum rid (dk_backup d)) of
        (Some a, Some b) \<Rightarrow> Some (if sn_generation b > sn_generation a then b else a)
      | (Some a, None) \<Rightarrow> Some a
      | (None, b) \<Rightarrow> b)"

definition store_load :: "store_env \<Rightarrow> (snapshot \<Rightarrow> string) \<Rightarrow> string \<Rightarrow> disk \<Rightarrow> snapshot sres" where
  "store_load env checksum rid d = (case valid_snapshot env checksum rid d of
       Some s \<Rightarrow> Inr s
     | None \<Rightarrow>
         if dk_primary d = Symlink \<or> dk_backup d = Symlink then Inl PathContainmentError
         else if dk_primary d = Missing \<and> dk_backup d = Missing then Inl RunNotFoundError
         else Inl CorruptSnapshotError)"

text \<open>
  A write makes two atomic renames: a valid primary replaces the backup, then the new snapshot replaces
  the primary. The disk passes through these states, and a crash leaves one of them.
\<close>

definition promote :: "store_env \<Rightarrow> (snapshot \<Rightarrow> string) \<Rightarrow> string \<Rightarrow> disk \<Rightarrow> disk" where
  "promote env checksum rid d = (case validate_file env checksum rid (dk_primary d) of
       None \<Rightarrow> d
     | Some _ \<Rightarrow> d\<lparr>dk_backup := dk_primary d\<rparr>)"

definition write_states :: "store_env \<Rightarrow> (snapshot \<Rightarrow> string) \<Rightarrow> string \<Rightarrow> snapshot \<Rightarrow> disk \<Rightarrow> disk list sres" where
  "write_states env checksum rid s d =
     (if dk_primary d = Symlink \<or> dk_backup d = Symlink then Inl PathContainmentError
      else let d1 = promote env checksum rid d in Inr [d, d1, d1\<lparr>dk_primary := seal checksum s\<rparr>])"

section \<open>Operations on snapshots\<close>

definition set_task_status :: "string \<Rightarrow> string \<Rightarrow> snapshot \<Rightarrow> snapshot" where
  "set_task_status task_id status s = s\<lparr>sn_tasks := dset task_id
     (AList.update (PStr ''status'') (PStr status) (dget_or (sn_tasks s) task_id [])) (sn_tasks s)\<rparr>"

definition bump :: "string \<Rightarrow> snapshot \<Rightarrow> snapshot" where
  "bump now s = s\<lparr>sn_generation := sn_generation s + 1, sn_updated_at := now\<rparr>"

definition known_tasks :: "snapshot \<Rightarrow> string set" where
  "known_tasks s = (case mget (sn_plan s) ''tasks'' of
       None \<Rightarrow> {}
     | Some v \<Rightarrow> case as_sequence v of None \<Rightarrow> {}
         | Some xs \<Rightarrow> set (concat (map (\<lambda>x. case as_mapping x of
               None \<Rightarrow> []
             | Some m \<Rightarrow> (case mget m ''id'' of Some (PStr i) \<Rightarrow> [i] | _ \<Rightarrow> [])) xs)))"

definition terminal_task :: "snapshot \<Rightarrow> string \<Rightarrow> bool" where
  "terminal_task s task_id \<longleftrightarrow>
     (case dget (sn_tasks s) task_id of None \<Rightarrow> False
        | Some t \<Rightarrow> (case mget_or t ''status'' PNone of PStr st \<Rightarrow> st \<in> set TERMINAL_TASK_STATUSES | _ \<Rightarrow> False))
     \<or> (case dget (sn_reports s) task_id of None \<Rightarrow> False | Some r \<Rightarrow> rc_status r \<in> set TERMINAL_TASK_STATUSES)"

definition token_of :: "string \<Rightarrow> string \<Rightarrow> lease \<Rightarrow> token" where
  "token_of rid task_id l = \<lparr>tn_run_id = rid, tn_task_id = task_id, tn_lease_id = ls_lease_id l,
     tn_generation = ls_generation l, tn_expires_at = ls_expires_at l\<rparr>"

definition validate_token_shape :: "store_env \<Rightarrow> snapshot \<Rightarrow> string \<Rightarrow> token \<Rightarrow> unit sres" where
  "validate_token_shape env s task_id tk =
     (if tn_run_id tk \<noteq> sn_run_id s \<or> tn_task_id tk \<noteq> task_id then Inl LeaseError
      else if se_parse env (tn_expires_at tk) = None then Inl LeaseError
      else Inr ())"

definition check_token :: "store_env \<Rightarrow> snapshot \<Rightarrow> string \<Rightarrow> token \<Rightarrow> string \<Rightarrow> lease sres" where
  "check_token env s task_id tk now =
     bindR (validate_token_shape env s task_id tk) (\<lambda>_.
     bindR (clock_value env now) (\<lambda>now.
     case dget (sn_leases s) task_id of
       None \<Rightarrow> Inl LeaseError
     | Some l \<Rightarrow> if ls_lease_id l \<noteq> tn_lease_id tk \<or> ls_generation l \<noteq> tn_generation tk
           \<or> ls_expires_at l \<noteq> tn_expires_at tk \<or> ls_expires_at l \<le> now then Inl LeaseError
         else Inr l))"

text \<open>\<open>claim\<close> as the change that \<open>_mutate\<close> applies to its copy.\<close>

definition claim_change :: "store_env \<Rightarrow> string \<Rightarrow> string \<Rightarrow> rat \<Rightarrow> string \<Rightarrow> string \<Rightarrow> snapshot \<Rightarrow> snapshot sres" where
  "claim_change env task_id owner lease_seconds now lease_id s =
     (if task_id \<notin> known_tasks s then Inl RunStoreError
      else if terminal_task s task_id then Inl RunStoreError
      else bindR (clock_value env now) (\<lambda>now.
        if (case dget (sn_leases s) task_id of None \<Rightarrow> False | Some l \<Rightarrow> ls_expires_at l > now) then Inl LeaseError
        else bindR (plus_seconds env now lease_seconds) (\<lambda>expiry.
          Inr (s\<lparr>sn_leases := dset task_id \<lparr>ls_owner = owner, ls_lease_id = lease_id, ls_expires_at = expiry,
                   ls_generation = sn_generation s + 1\<rparr> (sn_leases s),
                 sn_attempts := dset task_id (dget_or (sn_attempts s) task_id 0 + 1) (sn_attempts s)\<rparr>))))"

definition renew_change :: "store_env \<Rightarrow> string \<Rightarrow> token \<Rightarrow> rat \<Rightarrow> string \<Rightarrow> string \<Rightarrow> snapshot \<Rightarrow> snapshot sres" where
  "renew_change env task_id tk lease_seconds now lease_id s =
     bindR (clock_value env now) (\<lambda>now.
     bindR (check_token env s task_id tk now) (\<lambda>l.
     bindR (plus_seconds env now lease_seconds) (\<lambda>expiry.
     Inr (s\<lparr>sn_leases := dset task_id (l\<lparr>ls_lease_id := lease_id, ls_expires_at := expiry,
              ls_generation := sn_generation s + 1\<rparr>) (sn_leases s)\<rparr>))))"

definition transition_change :: "string \<Rightarrow> snapshot \<Rightarrow> snapshot sres" where
  "transition_change status s =
     (if status \<notin> set STATUSES then Inl RunStoreError
      else if sn_status s \<in> set TERMINAL_RUN_STATUSES \<and> sn_status s \<noteq> status then Inl RunStoreError
      else Inr (s\<lparr>sn_status := status\<rparr>))"

definition task_status_change :: "string \<Rightarrow> string \<Rightarrow> snapshot \<Rightarrow> snapshot sres" where
  "task_status_change task_id status s =
     (if task_id \<notin> known_tasks s then Inl RunStoreError
      else if dget (sn_reports s) task_id \<noteq> None then Inl RunStoreError
      else Inr ((set_task_status task_id status s)\<lparr>sn_leases := dpop task_id (sn_leases s)\<rparr>))"

definition append_event_change :: "store_env \<Rightarrow> pymap \<Rightarrow> snapshot \<Rightarrow> snapshot sres" where
  "append_event_change env event s = bindR (redact_map event) (\<lambda>item.
     let supplied = (case mget item ''ordering_key'' of Some v \<Rightarrow> v | None \<Rightarrow> mget_or item ''event_id'' PNone) in
     if (case mget item ''event_id'' of None \<Rightarrow> False | Some (PStr x) \<Rightarrow> x = [] | _ \<Rightarrow> True) then Inl RunStoreError
     else if supplied \<noteq> PNone \<and> (case as_str supplied of None \<Rightarrow> True | Some x \<Rightarrow> x = []) then Inl RunStoreError
     else let key = (if supplied = PNone then PStr (se_digest env (PDict (filter (\<lambda>(k, v).
                k \<notin> {PStr ''sequence'', PStr ''event_id'', PStr ''ordering_key''}) item))) else supplied);
              item1 = (if mhas item ''event_id'' then item else AList.update (PStr ''event_id'') key item);
              item2 = AList.update (PStr ''ordering_key'') key item1;
              item3 = AList.update (PStr ''sequence'') (PInt (sn_event_sequence s + 1)) item2
          in Inr (s\<lparr>sn_events := sn_events s @ [item3], sn_event_sequence := sn_event_sequence s + 1\<rparr>))"

text \<open>\<open>commit\<close>: \<open>None\<close> means that the identical report is already on record and nothing is written.\<close>

definition commit_change ::
  "store_env \<Rightarrow> string \<Rightarrow> token \<Rightarrow> pymap \<Rightarrow> string \<Rightarrow> string \<Rightarrow> snapshot \<Rightarrow> snapshot option sres" where
  "commit_change env task_id tk safe status now s =
     (let digest = se_digest env (PDict safe) in
      bindR (validate_token_shape env s task_id tk) (\<lambda>_.
      case dget (sn_reports s) task_id of
        Some existing \<Rightarrow>
          if rc_lease_id existing \<noteq> tn_lease_id tk \<or> rc_lease_generation existing \<noteq> tn_generation tk then Inl LeaseError
          else if rc_digest existing = digest \<and> rc_status existing = status then Inr None
          else Inl DuplicateCommitError
      | None \<Rightarrow>
          bindR (check_token env s task_id tk now) (\<lambda>l.
          Inr (Some ((set_task_status task_id status s)
            \<lparr>sn_reports := dset task_id \<lparr>rc_status = status, rc_report = safe, rc_digest = digest,
                 rc_attempt = dget_or (sn_attempts s) task_id 1, rc_lease_id = tn_lease_id tk,
                 rc_lease_generation = tn_generation tk\<rparr> (sn_reports s),
             sn_leases := dpop task_id (sn_leases s)\<rparr>)))))"

text \<open>\<open>append_terminal_event_if_absent\<close>: \<open>None\<close> when the event is already there.\<close>

definition event_str :: "pymap \<Rightarrow> string \<Rightarrow> string \<Rightarrow> bool" where
  "event_str e k v \<longleftrightarrow> mget_or e k PNone = PStr v"

definition terminal_event :: "string \<Rightarrow> string \<Rightarrow> int \<Rightarrow> pymap" where
  "terminal_event task_id status n = str_keyed [(''event_id'', PStr task_id), (''ordering_key'', PStr task_id),
     (''task_id'', PStr task_id), (''status'', PStr status), (''sequence'', PInt n)]"

definition terminal_event_change :: "string \<Rightarrow> snapshot \<Rightarrow> snapshot option sres" where
  "terminal_event_change task_id s = (case dget (sn_reports s) task_id of
       None \<Rightarrow> Inl RunStoreError
     | Some r \<Rightarrow>
         if rc_status r \<notin> set REPORT_STATUSES then Inl RunStoreError
         else let canonical = filter (\<lambda>e. event_str e ''event_id'' task_id \<and> event_str e ''ordering_key'' task_id) (sn_events s) in
           if canonical \<noteq> [] then
             (if \<exists>e \<in> set canonical. event_str e ''task_id'' task_id \<and> event_str e ''status'' (rc_status r)
              then Inr None else Inl RunStoreError)
           else Inr (Some (s\<lparr>sn_events := sn_events s @ [terminal_event task_id (rc_status r) (sn_event_sequence s + 1)],
                sn_event_sequence := sn_event_sequence s + 1\<rparr>)))"

text \<open>
  \<open>claim_many\<close>. The selector is given the snapshot without expired leases, the free task ids, the
  capacity and the clock reading; it may raise, and \<open>None\<close> is a result that is not a list. The lease ids are consumed in
  order. The flag tells whether something has to be written.
\<close>

type_synonym selector = "snapshot \<Rightarrow> string list \<Rightarrow> nat \<Rightarrow> string \<Rightarrow> string list option sres"

definition install_leases :: "string \<Rightarrow> string \<Rightarrow> string list \<Rightarrow> string list \<Rightarrow> snapshot \<Rightarrow> snapshot" where
  "install_leases owner expiry lease_ids chosen s =
     fold (\<lambda>(i, lid) c. c\<lparr>sn_leases := dset i \<lparr>ls_owner = owner, ls_lease_id = lid, ls_expires_at = expiry,
              ls_generation = sn_generation s + 1\<rparr> (sn_leases c),
            sn_attempts := dset i (dget_or (sn_attempts c) i 0 + 1) (sn_attempts c)\<rparr>) (zip chosen lease_ids) s"

definition claim_many_change ::
  "store_env \<Rightarrow> string list \<Rightarrow> string \<Rightarrow> int \<Rightarrow> rat \<Rightarrow> selector option \<Rightarrow> string \<Rightarrow> string list \<Rightarrow> snapshot
     \<Rightarrow> (snapshot option \<times> token list) sres" where
  "claim_many_change env ids owner max_parallel lease_seconds select now lease_ids s =
     (if \<exists>i \<in> set ids. i \<notin> known_tasks s then Inl RunStoreError
      else if \<exists>i \<in> set ids. terminal_task s i then Inl RunStoreError
      else bindR (clock_value env now) (\<lambda>now.
        let keep = filter (\<lambda>(i, l). \<not> ls_expires_at l \<le> now) (sn_leases s);
            reclaimed = (length keep < length (sn_leases s));
            s1 = s\<lparr>sn_leases := keep\<rparr>;
            capacity = max_parallel - int (length keep)
        in if capacity \<le> 0 then Inl BoundedCapacity
           else let available = filter (\<lambda>i. i \<notin> set (dkeys keep)) ids in
             bindR (case select of None \<Rightarrow> Inr (Some (take (nat capacity) available))
                    | Some f \<Rightarrow> f s1 available (nat capacity) now) (\<lambda>picked.
             case picked of
               None \<Rightarrow> Inl RunStoreError
             | Some chosen \<Rightarrow>
                 if length chosen > nat capacity \<or> \<not> set chosen \<subseteq> set available \<or> \<not> distinct chosen then Inl RunStoreError
                 else if chosen = [] then Inr (if reclaimed then Some s1 else None, [])
                 else bindR (plus_seconds env now lease_seconds) (\<lambda>expiry.
                   let s2 = install_leases owner expiry lease_ids chosen s1
                   in Inr (Some s2, map (\<lambda>(i, lid). \<lparr>tn_run_id = sn_run_id s, tn_task_id = i, tn_lease_id = lid,
                        tn_generation = sn_generation s + 1, tn_expires_at = expiry\<rparr>) (zip chosen lease_ids))))))"

section \<open>Operations on the files\<close>

text \<open>
  An operation that writes returns the disk states of the write: the last one when it completes, an
  earlier one when the process dies on the way. The parameters of one store are bundled.
\<close>

record store =
  st_env :: store_env
  st_checksum :: "snapshot \<Rightarrow> string"
  st_run :: string

abbreviation current :: "store \<Rightarrow> disk \<Rightarrow> snapshot option" where
  "current st d \<equiv> valid_snapshot (st_env st) (st_checksum st) (st_run st) d"

abbreviation written :: "store \<Rightarrow> snapshot \<Rightarrow> disk \<Rightarrow> disk list sres" where
  "written st s d \<equiv> write_states (st_env st) (st_checksum st) (st_run st) s d"

definition owned_snapshot :: "store \<Rightarrow> string \<Rightarrow> disk \<Rightarrow> snapshot sres" where
  "owned_snapshot st owner d = (case current st d of
       None \<Rightarrow> Inl RunNotFoundError
     | Some s \<Rightarrow> if sn_owner s \<noteq> owner then Inl OwnerMismatchError else Inr s)"

definition expect_generation :: "int option \<Rightarrow> snapshot \<Rightarrow> unit sres" where
  "expect_generation expected s = (case expected of
       None \<Rightarrow> Inr ()
     | Some n \<Rightarrow> if sn_generation s \<noteq> n then Inl GenerationConflictError else Inr ())"

definition store_mutate ::
  "store \<Rightarrow> string \<Rightarrow> int option \<Rightarrow> (snapshot \<Rightarrow> snapshot sres) \<Rightarrow> string \<Rightarrow> disk \<Rightarrow> (snapshot \<times> disk list) sres" where
  "store_mutate st owner expected fn now d =
     bindR (owned_snapshot st owner d) (\<lambda>s.
     bindR (expect_generation expected s) (\<lambda>_.
     bindR (fn s) (\<lambda>c.
     bindR (clock_value (st_env st) now) (\<lambda>now.
     bindR (written st (bump now c) d) (\<lambda>ds. Inr (bump now c, ds))))))"

text \<open>
  \<open>create\<close> without the optional initial state; \<open>canonical\<close> is what \<open>canonicalize\<close> returns for the plan. The hash
  is the one of the plan given, while loading compares with the hash of the plan stored: where the two differ
  the snapshot is written and returned, but not accepted again.
\<close>

definition fresh_snapshot :: "store \<Rightarrow> pymap \<Rightarrow> pymap \<Rightarrow> string \<Rightarrow> string \<Rightarrow> snapshot" where
  "fresh_snapshot st plan canonical owner now = \<lparr>sn_schema_version = SNAPSHOT_SCHEMA, sn_run_id = st_run st,
     sn_plan_hash = se_plan_hash (st_env st) plan, sn_plan = canonical, sn_generation = 0, sn_owner = owner,
     sn_status = ''created'', sn_waves = [], sn_tasks = [], sn_leases = [], sn_attempts = [], sn_checkpoints = [],
     sn_reports = [], sn_events = [], sn_gates = PDict [], sn_metrics = PDict [], sn_audit = PList [],
     sn_event_sequence = 0, sn_updated_at = now\<rparr>"

definition store_create :: "store \<Rightarrow> pymap \<Rightarrow> pymap \<Rightarrow> string \<Rightarrow> string \<Rightarrow> disk \<Rightarrow> (snapshot \<times> disk list) sres" where
  "store_create st plan canonical owner now d =
     bindR (safe_id (st_run st)) (\<lambda>_.
     bindR (case safe_id owner of Inl _ \<Rightarrow> Inl OwnerMismatchError | Inr _ \<Rightarrow> Inr ()) (\<lambda>_.
     bindR (clock_value (st_env st) now) (\<lambda>now.
     if dk_primary d \<noteq> Missing \<or> dk_backup d \<noteq> Missing then Inl RunStoreError
     else let s = fresh_snapshot st plan canonical owner now in
       bindR (written st s d) (\<lambda>ds. Inr (s, ds)))))"

definition store_transition :: "store \<Rightarrow> string \<Rightarrow> string \<Rightarrow> int option \<Rightarrow> string \<Rightarrow> disk \<Rightarrow> (snapshot \<times> disk list) sres" where
  "store_transition st status owner expected now d = store_mutate st owner expected (transition_change status) now d"

definition store_update_task_status ::
  "store \<Rightarrow> string \<Rightarrow> string \<Rightarrow> string \<Rightarrow> int option \<Rightarrow> string \<Rightarrow> disk \<Rightarrow> (snapshot \<times> disk list) sres" where
  "store_update_task_status st task_id status owner expected now d =
     bindR (safe_id task_id) (\<lambda>_.
     if status \<notin> set TASK_STATUSES then Inl RunStoreError
     else store_mutate st owner expected (task_status_change task_id status) now d)"

definition store_append_event :: "store \<Rightarrow> pymap \<Rightarrow> string \<Rightarrow> int option \<Rightarrow> string \<Rightarrow> disk \<Rightarrow> (snapshot \<times> disk list) sres" where
  "store_append_event st event owner expected now d =
     store_mutate st owner expected (append_event_change (st_env st) event) now d"

definition store_terminal_event ::
  "store \<Rightarrow> string \<Rightarrow> string \<Rightarrow> int option \<Rightarrow> string \<Rightarrow> disk \<Rightarrow> (snapshot \<times> disk list) sres" where
  "store_terminal_event st task_id owner expected now d =
     bindR (safe_id task_id) (\<lambda>_.
     bindR (owned_snapshot st owner d) (\<lambda>s.
     bindR (expect_generation expected s) (\<lambda>_.
     bindR (terminal_event_change task_id s) (\<lambda>r.
     case r of
       None \<Rightarrow> Inr (s, [d])
     | Some c \<Rightarrow> bindR (clock_value (st_env st) now) (\<lambda>now.
         bindR (written st (bump now c) d) (\<lambda>ds. Inr (bump now c, ds)))))))"

text \<open>\<open>claim\<close> reads the clock twice: for the lease and for \<open>updated_at\<close>.\<close>

definition store_claim ::
  "store \<Rightarrow> string \<Rightarrow> string \<Rightarrow> rat \<Rightarrow> int option \<Rightarrow> string \<Rightarrow> string \<Rightarrow> string \<Rightarrow> disk \<Rightarrow> (token \<times> snapshot \<times> disk list) sres" where
  "store_claim st task_id owner lease_seconds expected lease_id now now2 d =
     bindR (safe_id task_id) (\<lambda>_.
     bindR (store_mutate st owner expected (claim_change (st_env st) task_id owner lease_seconds now lease_id) now2 d) (\<lambda>(s, ds).
     case dget (sn_leases s) task_id of
       None \<Rightarrow> Inl RunStoreError
     | Some l \<Rightarrow> Inr (token_of (st_run st) task_id l, s, ds)))"

definition store_claim_many ::
  "store \<Rightarrow> string list \<Rightarrow> string \<Rightarrow> int \<Rightarrow> rat \<Rightarrow> selector option \<Rightarrow> string list \<Rightarrow> string \<Rightarrow> string \<Rightarrow> disk
     \<Rightarrow> (token list \<times> snapshot \<times> disk list) sres" where
  "store_claim_many st ids owner max_parallel lease_seconds select lease_ids now now2 d =
     (if max_parallel < 1 then Inl RunStoreError
      else if lease_seconds \<le> 0 then Inl LeaseError
      else if (\<exists>i \<in> set ids. \<not> ID_OK i) \<or> \<not> distinct ids then Inl RunStoreError
      else bindR (owned_snapshot st owner d) (\<lambda>s.
        bindR (claim_many_change (st_env st) ids owner max_parallel lease_seconds select now lease_ids s) (\<lambda>(c, tokens).
        case c of
          None \<Rightarrow> Inr ([], s, [d])
        | Some c \<Rightarrow> bindR (if tokens = [] then Inr now else clock_value (st_env st) now2) (\<lambda>stamp.
            bindR (written st (bump stamp c) d) (\<lambda>ds. Inr (tokens, bump stamp c, ds))))))"

definition store_use :: "store \<Rightarrow> string \<Rightarrow> token \<Rightarrow> string \<Rightarrow> string \<Rightarrow> disk \<Rightarrow> snapshot sres" where
  "store_use st task_id tk owner now d =
     bindR (owned_snapshot st owner d) (\<lambda>s.
     bindR (check_token (st_env st) s task_id tk now) (\<lambda>_. Inr s))"

definition store_renew ::
  "store \<Rightarrow> string \<Rightarrow> token \<Rightarrow> string \<Rightarrow> rat \<Rightarrow> string \<Rightarrow> string \<Rightarrow> string \<Rightarrow> disk \<Rightarrow> (token \<times> snapshot \<times> disk list) sres" where
  "store_renew st task_id tk owner lease_seconds lease_id now now2 d =
     (if lease_seconds \<le> 0 then Inl LeaseError else
      bindR (store_mutate st owner None (renew_change (st_env st) task_id tk lease_seconds now lease_id) now2 d) (\<lambda>(s, ds).
      case dget (sn_leases s) task_id of
        None \<Rightarrow> Inl RunStoreError
      | Some l \<Rightarrow> Inr (token_of (st_run st) task_id l, s, ds)))"

definition store_commit ::
  "store \<Rightarrow> string \<Rightarrow> token \<Rightarrow> string \<Rightarrow> pymap \<Rightarrow> string \<Rightarrow> string \<Rightarrow> string \<Rightarrow> disk \<Rightarrow> (snapshot \<times> disk list) sres" where
  "store_commit st task_id tk owner report status now now2 d =
     (if status \<notin> set REPORT_STATUSES then Inl RunStoreError else
      bindR (redact_map report) (\<lambda>safe.
      if \<not> valid_report (st_env st) safe status then Inl RunStoreError else
      bindR (owned_snapshot st owner d) (\<lambda>s.
      bindR (commit_change (st_env st) task_id tk safe status now s) (\<lambda>r.
      case r of
        None \<Rightarrow> Inr (s, [d])
      | Some c \<Rightarrow> bindR (clock_value (st_env st) now2) (\<lambda>now2.
          bindR (written st (bump now2 c) d) (\<lambda>ds. Inr (bump now2 c, ds)))))))"

text \<open>
  The runs of one store, with crashes. The second component lists the committed snapshots, newest
  first; it grows when a write completes. Two writes can complete with a file that loading rejects, and
  then commit nothing: \<open>append_event\<close> with an event that \<open>_valid_event\<close> refuses, and \<open>create\<close> with a plan whose
  hash is not the one of its canonical form.
\<close>

type_synonym store_config = "disk \<times> snapshot list"

definition landed :: "disk list \<Rightarrow> disk \<Rightarrow> snapshot \<Rightarrow> snapshot list \<Rightarrow> snapshot list" where
  "landed ds d' s hist = (if d' = last ds \<and> s \<noteq> hd hist then s # hist else hist)"

definition event_landed :: "disk list \<Rightarrow> disk \<Rightarrow> snapshot \<Rightarrow> snapshot list \<Rightarrow> snapshot list" where
  "event_landed ds d' s hist = (if valid_event (last (sn_events s)) then landed ds d' s hist else hist)"

text \<open>
  The scheduler also writes through \<open>_mutate\<close>, with functions that take one lease out of the snapshot or
  leave it as it is; the functions themselves are in the theory of the scheduler.
\<close>

definition drops_lease :: "(snapshot \<Rightarrow> snapshot sres) \<Rightarrow> bool" where
  "drops_lease fn \<longleftrightarrow> (\<forall>x c. fn x = Inr c \<longrightarrow> c = x \<or> (\<exists>i. c = x\<lparr>sn_leases := dpop i (sn_leases x)\<rparr>))"

inductive store_step :: "store \<Rightarrow> store_config \<Rightarrow> store_config \<Rightarrow> bool" for st where
  do_transition: "store_transition st status owner expected now d = Inr (s, ds) \<Longrightarrow> d' \<in> set ds \<Longrightarrow>
     store_step st (d, hist) (d', landed ds d' s hist)"
| do_task_status: "store_update_task_status st task_id status owner expected now d = Inr (s, ds) \<Longrightarrow> d' \<in> set ds \<Longrightarrow>
     store_step st (d, hist) (d', landed ds d' s hist)"
| do_terminal_event: "store_terminal_event st task_id owner expected now d = Inr (s, ds) \<Longrightarrow> d' \<in> set ds \<Longrightarrow>
     store_step st (d, hist) (d', landed ds d' s hist)"
| do_append_event: "store_append_event st event owner expected now d = Inr (s, ds) \<Longrightarrow> d' \<in> set ds \<Longrightarrow>
     store_step st (d, hist) (d', event_landed ds d' s hist)"
| do_mutate: "store_mutate st owner expected fn now d = Inr (s, ds) \<Longrightarrow> drops_lease fn \<Longrightarrow> d' \<in> set ds \<Longrightarrow>
     store_step st (d, hist) (d', landed ds d' s hist)"
| do_claim: "store_claim st task_id owner secs expected lease_id now now2 d = Inr (tk, s, ds) \<Longrightarrow> ID_OK lease_id \<Longrightarrow>
     d' \<in> set ds \<Longrightarrow> store_step st (d, hist) (d', landed ds d' s hist)"
| do_claim_many: "store_claim_many st ids owner maxp secs select lease_ids now now2 d = Inr (tks, s, ds) \<Longrightarrow>
     list_all ID_OK lease_ids \<Longrightarrow> length ids \<le> length lease_ids \<Longrightarrow> d' \<in> set ds \<Longrightarrow> store_step st (d, hist) (d', landed ds d' s hist)"
| do_renew: "store_renew st task_id tk owner secs lease_id now now2 d = Inr (tk', s, ds) \<Longrightarrow> ID_OK lease_id \<Longrightarrow>
     d' \<in> set ds \<Longrightarrow> store_step st (d, hist) (d', landed ds d' s hist)"
| do_commit: "store_commit st task_id tk owner report status now now2 d = Inr (s, ds) \<Longrightarrow> d' \<in> set ds \<Longrightarrow>
     store_step st (d, hist) (d', landed ds d' s hist)"

definition store_init :: "store \<Rightarrow> store_config \<Rightarrow> bool" where
  "store_init st c \<longleftrightarrow> (\<exists>plan canonical owner now s ds.
     store_create st plan canonical owner now \<lparr>dk_primary = Missing, dk_backup = Missing\<rparr> = Inr (s, ds)
     \<and> c = (last ds, if se_plan_hash (st_env st) plan = se_plan_hash (st_env st) canonical then [s] else []))"

end
