(* ===== verification/RunStorePattern.thy ===== *)
theory RunStorePattern
  imports RunStore
begin

text \<open>
  The sensitive-key pattern of \<open>run_store.py\<close> and \<open>checkpoint.py\<close>: a search for it is a search for one
  of thirteen words in the lower-case text. The equation also replaces the search when terms are evaluated.
\<close>

definition sensitive_words :: "string list" where
  "sensitive_words = [''token'', ''secret'', ''password'', ''credential'', ''apikey'', ''api_key'', ''api key'', ''api-key'',
     ''authorization'', ''privatekey'', ''private_key'', ''private key'', ''private-key'']"

fun has_word :: "string list \<Rightarrow> string \<Rightarrow> bool" where
  "has_word ws [] = list_ex (\<lambda>w. w = []) ws"
| "has_word ws (c # s) = (list_ex (startswith (c # s)) ws \<or> has_word ws s)"

lemma ends_ilit: "i \<le> length s \<Longrightarrow> ends (ilit w) s i = (if map lower_char (take (length w) (drop i s)) = map lower_char w then [i + length w] else [])"
proof (induction w arbitrary: i)
  case (Cons c w)
  show ?case
  proof (cases "i < length s")
    case True
    then have "take (length (c # w)) (drop i s) = s ! i # take (length w) (drop (Suc i) s)" by (simp add: Cons_nth_drop_Suc [symmetric])
    then show ?thesis using True Cons.IH [of "Suc i"] by (auto simp: ilit_def)
  qed (use Cons.prems in \<open>auto simp: ilit_def\<close>)
qed (simp add: ilit_def)

lemma ends_opt: "ends (opt (Cls P)) s i = (if i < length s \<and> P (s ! i) then [Suc i] else []) @ [i]"
  by (cases "length s") auto

definition low_at :: "string \<Rightarrow> nat \<Rightarrow> string \<Rightarrow> bool" where
  "low_at s i w \<longleftrightarrow> startswith (map lower_char (drop i s)) w"

lemma low_at_ilit: "i \<le> length s \<Longrightarrow> map lower_char w = w \<Longrightarrow> ends (ilit w) s i = (if low_at s i w then [i + length w] else [])"
  by (simp add: ends_ilit low_at_def startswith_def take_map)

lemma low_at_append: "low_at s i (v @ w) \<longleftrightarrow> low_at s i v \<and> low_at s (i + length v) w"
proof -
  have "startswith t (v @ w) \<longleftrightarrow> startswith t v \<and> startswith (drop (length v) t) w" for t
  proof (cases "length v \<le> length t")
    case True
    then show ?thesis by (auto simp: startswith_def take_add append_eq_append_conv)
  qed (auto simp: startswith_def dest: arg_cong [of _ _ length])
  then show ?thesis by (simp add: low_at_def drop_map add.commute)
qed

lemma low_at_length: "low_at s i w \<Longrightarrow> i \<le> length s \<Longrightarrow> i + length w \<le> length s"
  by (auto simp: low_at_def startswith_def dest!: arg_cong [of _ _ length])

lemma low_at_char: "low_at s i [c] \<longleftrightarrow> i < length s \<and> lower_char (s ! i) = c"
  by (cases "i < length s") (auto simp: low_at_def startswith_def Cons_nth_drop_Suc [symmetric])

lemma lower_char_kept: "lower_char x \<in> set ''_ -'' \<Longrightarrow> lower_char x = x"
proof (rule ccontr)
  assume c: "lower_char x \<in> set ''_ -''" and ne: "lower_char x \<noteq> x"
  have "97 \<le> (of_char (lower_char x) :: nat)"
    using ne by (auto simp: lower_char_def Let_def split: if_split_asm)
  with c show False by auto
qed

lemma ends_Seq: "ends (Seq r1 r2) s i = concat (map (ends r2 s) (ends r1 s i))"
  by simp

lemma KEY_RE_search: "i \<le> length s \<Longrightarrow> map lower_char w = w \<Longrightarrow>
    ends (KEY_RE w) s i \<noteq> [] \<longleftrightarrow> low_at s i (w @ ''key'') \<or> (\<exists>c \<in> set ''_ -''. low_at s i (w @ [c] @ ''key''))"
proof -
  assume i: "i \<le> length s" and w: "map lower_char w = w"
  have low: "lower_char x = c \<longleftrightarrow> x = c" if "c \<in> set ''_ -''" for x c
    using that lower_char_kept [of x] by (auto simp: lower_char_def)
  show ?thesis
  proof (cases "low_at s i w")
    case True
    let ?j = "i + length w"
    have j: "?j \<le> length s" using low_at_length [OF True i] .
    have key: "ends (ilit ''key'') s k = (if low_at s k ''key'' then [k + 3] else [])" if "k \<le> length s" for k
      using low_at_ilit [OF that, of "''key''"] by (simp add: lower_char_def)
    have "ends (KEY_RE w) s i \<noteq> [] \<longleftrightarrow> (?j < length s \<and> one_of ''_ -'' (s ! ?j) \<and> low_at s (Suc ?j) ''key'') \<or> low_at s ?j ''key''"
      using True i w j key [of ?j] key [of "Suc ?j"] by (auto simp: KEY_RE_def low_at_ilit ends_opt [unfolded One_nat_def] ends_Seq simp del: ends.simps)
    also have "\<dots> \<longleftrightarrow> low_at s i (w @ ''key'') \<or> (\<exists>c \<in> set ''_ -''. low_at s i (w @ [c] @ ''key''))"
      unfolding low_at_append low_at_char using True low by (auto simp: one_of_def)
    finally show ?thesis .
  next
    case False
    then show ?thesis using i w by (simp add: KEY_RE_def low_at_ilit low_at_append)
  qed
qed

lemma alts_search: "ends (alts (r # rs)) s i \<noteq> [] \<longleftrightarrow> ends r s i \<noteq> [] \<or> (rs \<noteq> [] \<and> ends (alts rs) s i \<noteq> [])"
  by (cases rs) auto

lemma has_word_drop: "has_word ws t \<longleftrightarrow> (\<exists>i \<le> length t. list_ex (startswith (drop i t)) ws)"
proof (induction t)
  case (Cons c t)
  have "(\<exists>i \<le> length (c # t). list_ex (startswith (drop i (c # t))) ws) \<longleftrightarrow> list_ex (startswith (c # t)) ws \<or> (\<exists>i \<le> length t. list_ex (startswith (drop i t)) ws)"
    (is "?l \<longleftrightarrow> ?r")
  proof
    assume ?l
    then obtain i where "i \<le> Suc (length t) \<and> list_ex (startswith (drop i (c # t))) ws" unfolding list.size add_Suc_right add_0_right by blast
    then show ?r by (cases i) (auto simp del: startswith_iff)
  next
    assume ?r
    then show ?l by (metis drop0 drop_Suc_Cons le0 length_Cons Suc_le_mono)
  qed
  then show ?case using Cons by simp
qed (simp add: startswith_def list_ex_iff)

lemma SENSITIVE_search [code_unfold]: "re_search SENSITIVE s \<longleftrightarrow> has_word sensitive_words (map lower_char s)"
proof -
  have words: "map lower_char ''token'' = ''token''" "map lower_char ''secret'' = ''secret''" "map lower_char ''password'' = ''password''"
    "map lower_char ''credential'' = ''credential''" "map lower_char ''authorization'' = ''authorization''"
    "map lower_char ''api'' = ''api''" "map lower_char ''private'' = ''private''"
    by (simp_all only: list.map) (simp_all add: lower_char_def)
  have "ends SENSITIVE s i \<noteq> [] \<longleftrightarrow> list_ex (low_at s i) sensitive_words" if i: "i \<le> length s" for i
    unfolding SENSITIVE_def alts_search sensitive_words_def low_at_ilit [OF i words(1)] low_at_ilit [OF i words(2)]
      low_at_ilit [OF i words(3)] low_at_ilit [OF i words(4)] low_at_ilit [OF i words(5)] KEY_RE_search [OF i words(6)] KEY_RE_search [OF i words(7)]
    by (simp add: list_ex_iff split: if_split)
  moreover have "re_search SENSITIVE s \<longleftrightarrow> (\<exists>i \<le> length s. ends SENSITIVE s i \<noteq> [])"
    unfolding re_search_def by (simp add: Bex_def less_Suc_eq_le del: upt_Suc)
  ultimately have "re_search SENSITIVE s \<longleftrightarrow> (\<exists>i \<le> length s. list_ex (low_at s i) sensitive_words)" by auto
  then show ?thesis by (simp add: has_word_drop low_at_def [abs_def] drop_map)
qed

end
