(* ===== verification/RunStoreFacts.thy ===== *)
theory RunStoreFacts
  imports RunStorePattern
begin

text \<open>
  Invariants of the run store: every operation turns a valid snapshot into a valid one, leases are
  numbered by generations, reports are final, and each crash point of a write leaves a disk from which
  the newest committed snapshot is read.
\<close>

text \<open>What is used of the environment: printed instants can be read back, digests are 64 hex digits.\<close>

definition env_ok :: "store_env \<Rightarrow> bool" where
  "env_ok env \<longleftrightarrow> (\<forall>t. se_parse env (se_format env t) = Some t) \<and> (\<forall>v. hex64 (se_digest env v))"

section \<open>Dictionaries\<close>

lemma mget_update: "mget (AList.update (PStr k) v d) k' = (if k' = k then Some v else mget d k')"
  by (simp add: mget_def update_conv')

section \<open>Snapshots in order\<close>

definition snap_ok :: "store \<Rightarrow> int \<Rightarrow> snapshot \<Rightarrow> bool" where
  "snap_ok st n s \<longleftrightarrow> validate (st_env st) (st_run st) s
     \<and> dict_wf (sn_leases s) \<and> dict_wf (sn_attempts s)
     \<and> (\<forall>i l. dget (sn_leases s) i = Some l \<longrightarrow> ls_generation l \<le> n \<and> 1 \<le> dget_or (sn_attempts s) i 0)"

definition good_change :: "store \<Rightarrow> snapshot \<Rightarrow> snapshot \<Rightarrow> bool" where
  "good_change st s c \<longleftrightarrow> snap_ok st (sn_generation s + 1) c \<and> sn_generation c = sn_generation s
     \<and> sn_owner c = sn_owner s \<and> sn_plan c = sn_plan s
     \<and> (\<forall>i l. dget (sn_leases c) i = Some l \<longrightarrow> dget (sn_leases s) i = Some l \<or> ls_generation l = sn_generation s + 1)
     \<and> (\<forall>i r. dget (sn_reports s) i = Some r \<longrightarrow> dget (sn_reports c) i = Some r)"

lemma bump_ok: "good_change st s c \<Longrightarrow> se_parse (st_env st) now \<noteq> None \<Longrightarrow> snap_ok st (sn_generation (bump now c)) (bump now c)"
  by (auto simp: good_change_def snap_ok_def bump_def validate_def)

lemma snap_ok_lease: "snap_ok st n s \<Longrightarrow> dget (sn_leases s) i = Some l \<Longrightarrow>
    valid_lease (st_env st) i l \<and> ls_generation l \<le> n \<and> 1 \<le> dget_or (sn_attempts s) i 0"
  by (auto simp: snap_ok_def validate_def dest: ditems_allD)

lemma snap_ok_attempts: "snap_ok st n s \<Longrightarrow> 0 \<le> dget_or (sn_attempts s) i 0"
  by (auto simp: snap_ok_def validate_def dget_or_def split: option.splits dest: ditems_allD)

lemma clock_value_Inr: "clock_value env now = Inr x \<longleftrightarrow> x = now \<and> se_parse env now \<noteq> None"
  by (auto simp: clock_value_def)

lemma plus_seconds_Inr: "plus_seconds env now secs = Inr e \<Longrightarrow> env_ok env \<Longrightarrow> se_parse env e \<noteq> None"
  by (auto simp: plus_seconds_def env_ok_def result_simps)

lemma safe_id_ok: "safe_id x = Inr u \<Longrightarrow> ID_OK x"
  by (auto simp: safe_id_def ID_OK_def)

text \<open>Installing a lease, the step shared by \<open>claim\<close> and \<open>claim_many\<close>.\<close>

definition install :: "string \<Rightarrow> lease \<Rightarrow> snapshot \<Rightarrow> snapshot" where
  "install i l s = s\<lparr>sn_leases := dset i l (sn_leases s),
     sn_attempts := dset i (dget_or (sn_attempts s) i 0 + 1) (sn_attempts s)\<rparr>"

lemma install_ok:
  assumes ok: "snap_ok st n s" and l: "valid_lease (st_env st) i l" "ls_generation l \<le> n"
  shows "snap_ok st n (install i l s)"
proof -
  have nn: "0 \<le> dget_or (sn_attempts s) k 0" for k using ok by (rule snap_ok_attempts)
  have "validate (st_env st) (st_run st) (install i l s)"
    using ok l nn [of i] unfolding snap_ok_def validate_def install_def
    by simp
  moreover have "1 \<le> dget_or (dset i (dget_or (sn_attempts s) i 0 + 1) (sn_attempts s)) k 0"
    if "k = i \<or> dget (sn_leases s) k \<noteq> None" for k
    using that ok nn [of i] by (auto simp: snap_ok_def dget_or_def dict_simps)
  ultimately show ?thesis using ok l by (auto simp: snap_ok_def install_def dict_simps split: if_splits)
qed

lemma install_lease [simp]: "dget (sn_leases (install i l s)) k = (if k = i then Some l else dget (sn_leases s) k)"
  by (simp add: install_def dict_simps)

lemma install_rest [simp]: "sn_generation (install i l s) = sn_generation s" "sn_reports (install i l s) = sn_reports s"
  "sn_owner (install i l s) = sn_owner s" "sn_plan (install i l s) = sn_plan s"
  by (simp_all add: install_def)

lemma snap_ok_mono: "snap_ok st n s \<Longrightarrow> n \<le> m \<Longrightarrow> snap_ok st m s"
  by (fastforce simp: snap_ok_def)

lemma snap_ok_owner: "snap_ok st n s \<Longrightarrow> ID_OK (sn_owner s)" "snap_ok st n s \<Longrightarrow> 0 \<le> sn_generation s"
  by (simp_all add: snap_ok_def validate_def)

section \<open>Each change is good\<close>

lemma claim_good:
  assumes ch: "claim_change (st_env st) i owner secs now lid s = Inr c" and env: "env_ok (st_env st)"
    and ok: "snap_ok st (sn_generation s) s" and ids: "ID_OK i" "ID_OK lid" "owner = sn_owner s"
  shows "good_change st s c"
proof -
  from ch obtain e where e: "plus_seconds (st_env st) now secs = Inr e"
    and c: "c = install i \<lparr>ls_owner = owner, ls_lease_id = lid, ls_expires_at = e, ls_generation = sn_generation s + 1\<rparr> s"
    by (auto simp: claim_change_def result_simps clock_value_Inr install_def)
  have "snap_ok st (sn_generation s + 1) c" unfolding c
    by (rule install_ok [OF snap_ok_mono [OF ok]])
       (use plus_seconds_Inr [OF e env] ids snap_ok_owner [OF ok] in \<open>auto simp: valid_lease_def\<close>)
  then show ?thesis by (auto simp: good_change_def c split: if_splits)
qed

lemma check_token_Inr: "check_token env s i tk now = Inr l \<Longrightarrow> dget (sn_leases s) i = Some l \<and> ls_lease_id l = tn_lease_id tk
    \<and> ls_generation l = tn_generation tk \<and> ls_expires_at l = tn_expires_at tk \<and> \<not> ls_expires_at l \<le> now"
  by (auto simp: check_token_def result_simps clock_value_Inr)

lemma replace_lease_ok:
  assumes ok: "snap_ok st n s" and old: "dget (sn_leases s) i = Some l0"
    and l: "valid_lease (st_env st) i l" "ls_generation l \<le> n"
  shows "snap_ok st n (s\<lparr>sn_leases := dset i l (sn_leases s)\<rparr>)"
proof -
  have "validate (st_env st) (st_run st) (s\<lparr>sn_leases := dset i l (sn_leases s)\<rparr>)"
    using ok l unfolding snap_ok_def validate_def by simp
  then show ?thesis using ok old l by (auto simp: snap_ok_def dict_simps split: if_splits)
qed

lemma renew_good:
  assumes ch: "renew_change (st_env st) i tk secs now lid s = Inr c" and env: "env_ok (st_env st)"
    and ok: "snap_ok st (sn_generation s) s" and lid: "ID_OK lid"
  shows "good_change st s c"
proof -
  from ch obtain e l where e: "plus_seconds (st_env st) now secs = Inr e" and l: "dget (sn_leases s) i = Some l"
    and c: "c = s\<lparr>sn_leases := dset i (l\<lparr>ls_lease_id := lid, ls_expires_at := e, ls_generation := sn_generation s + 1\<rparr>) (sn_leases s)\<rparr>"
    by (auto simp: renew_change_def result_simps clock_value_Inr dest: check_token_Inr)
  have "snap_ok st (sn_generation s + 1) c" unfolding c
    by (rule replace_lease_ok [OF snap_ok_mono [OF ok] l])
       (use plus_seconds_Inr [OF e env] lid snap_ok_lease [OF ok l] snap_ok_owner [OF ok] in \<open>auto simp: valid_lease_def\<close>)
  then show ?thesis by (auto simp: good_change_def c dict_simps split: if_splits)
qed

lemma transition_good:
  "transition_change status s = Inr c \<Longrightarrow> snap_ok st (sn_generation s) s \<Longrightarrow> good_change st s c"
  using snap_ok_mono [of st "sn_generation s" s "sn_generation s + 1"]
  by (auto simp: transition_change_def good_change_def result_simps snap_ok_def validate_def)

lemma drop_lease_ok: "snap_ok st n s \<Longrightarrow> snap_ok st n (s\<lparr>sn_leases := dpop i (sn_leases s)\<rparr>)"
  by (auto simp: snap_ok_def validate_def dict_simps split: if_splits)

lemma set_task_status_ok:
  assumes ok: "snap_ok st n s" and status: "status \<in> set TASK_STATUSES"
  shows "snap_ok st n (set_task_status i status s)"
proof -
  have "validate (st_env st) (st_run st) (set_task_status i status s)"
    using ok status unfolding snap_ok_def validate_def set_task_status_def
    by (simp add: valid_task_def mget_update)
  then show ?thesis using ok by (auto simp: snap_ok_def set_task_status_def)
qed

lemma set_task_status_rest [simp]:
  "sn_leases (set_task_status i status s) = sn_leases s" "sn_reports (set_task_status i status s) = sn_reports s"
  "sn_generation (set_task_status i status s) = sn_generation s" "sn_attempts (set_task_status i status s) = sn_attempts s"
  "sn_owner (set_task_status i status s) = sn_owner s" "sn_plan (set_task_status i status s) = sn_plan s"
  by (simp_all add: set_task_status_def)

lemma task_status_good:
  assumes ch: "task_status_change i status s = Inr c" and "status \<in> set TASK_STATUSES" and "snap_ok st (sn_generation s) s"
  shows "good_change st s c"
proof -
  have c: "c = (set_task_status i status s)\<lparr>sn_leases := dpop i (sn_leases (set_task_status i status s))\<rparr>"
    using ch by (simp add: task_status_change_def result_simps)
  have "snap_ok st (sn_generation s + 1) c" unfolding c
    by (intro drop_lease_ok set_task_status_ok snap_ok_mono [OF assms(3)] assms(2)) simp
  then show ?thesis by (auto simp: good_change_def c dict_simps split: if_splits)
qed

lemma terminal_event_good:
  assumes ch: "terminal_event_change i s = Inr (Some c)" and id: "ID_OK i" and ok: "snap_ok st (sn_generation s) s"
  shows "good_change st s c"
proof -
  from ch obtain status where c: "c = s\<lparr>sn_events := sn_events s @ [terminal_event i status (sn_event_sequence s + 1)],
      sn_event_sequence := sn_event_sequence s + 1\<rparr>"
  proof (cases "dget (sn_reports s) i")
    case None
    with ch show thesis by (simp add: terminal_event_change_def)
  next
    case (Some r)
    with ch have "s\<lparr>sn_events := sn_events s @ [terminal_event i (rc_status r) (sn_event_sequence s + 1)],
        sn_event_sequence := sn_event_sequence s + 1\<rparr> = c"
      by (simp add: terminal_event_change_def Let_def split: if_splits)
    from this [symmetric] show thesis by (rule that)
  qed
  have "i \<noteq> []" using id by (auto simp: ID_OK_def ID_RE_def fullmatch_head_star)
  moreover have "[1..sn_event_sequence s + 1] = [1..sn_event_sequence s] @ [sn_event_sequence s + 1]"
    if "0 \<le> sn_event_sequence s" using that by (simp add: upto_rec2)
  ultimately have "validate (st_env st) (st_run st) c"
    using ok id unfolding c by (simp add: snap_ok_def validate_def valid_event_def terminal_event_def str_keyed_def event_sequence_of_def)
  then show ?thesis using ok snap_ok_mono [OF ok, of "sn_generation s + 1"]
    by (auto simp: good_change_def c snap_ok_def)
qed

lemma append_event_change_Inr:
  assumes "append_event_change env event s = Inr c"
  obtains item where "c = s\<lparr>sn_events := sn_events s @ [item], sn_event_sequence := sn_event_sequence s + 1\<rparr>"
    and "mget item ''sequence'' = Some (PInt (sn_event_sequence s + 1))"
  using assms unfolding append_event_change_def Let_def bindR_eq_Inr if_eq_Inr sum.inject
  by (elim exE conjE) (rule that, erule sym, simp add: mget_update)

lemma append_event_good:
  assumes ch: "append_event_change (st_env st) event s = Inr c" and ok: "snap_ok st (sn_generation s) s"
    and ev: "valid_event (last (sn_events c))"
  shows "good_change st s c"
proof -
  from ch obtain item where c: "c = s\<lparr>sn_events := sn_events s @ [item], sn_event_sequence := sn_event_sequence s + 1\<rparr>"
    and sq: "mget item ''sequence'' = Some (PInt (sn_event_sequence s + 1))" by (rule append_event_change_Inr)
  have "[1..sn_event_sequence s + 1] = [1..sn_event_sequence s] @ [sn_event_sequence s + 1]"
    if "0 \<le> sn_event_sequence s" using that by (simp add: upto_rec2)
  moreover have "valid_event item" using ev by (simp add: c)
  moreover have "event_sequence_of item = sn_event_sequence s + 1" using sq by (simp add: event_sequence_of_def mget_or_def)
  ultimately have "validate (st_env st) (st_run st) c" using ok unfolding c by (simp add: snap_ok_def validate_def)
  then show ?thesis using ok snap_ok_mono [OF ok, of "sn_generation s + 1"]
    by (auto simp: good_change_def c snap_ok_def)
qed

lemma commit_good:
  assumes ch: "commit_change (st_env st) i tk safe status now s = Inr (Some c)" and env: "env_ok (st_env st)"
    and rep: "valid_report (st_env st) safe status" "status \<in> set REPORT_STATUSES"
    and ok: "snap_ok st (sn_generation s) s"
  shows "good_change st s c \<and> dget (sn_reports s) i = None \<and> dget (sn_leases c) i = None
    \<and> (\<exists>l. check_token (st_env st) s i tk now = Inr l)"
proof -
  from ch obtain l where l: "check_token (st_env st) s i tk now = Inr l" and new: "dget (sn_reports s) i = None"
    and c: "c = (set_task_status i status s)\<lparr>sn_reports := dset i \<lparr>rc_status = status, rc_report = safe,
       rc_digest = se_digest (st_env st) (PDict safe), rc_attempt = dget_or (sn_attempts s) i 1, rc_lease_id = tn_lease_id tk,
       rc_lease_generation = tn_generation tk\<rparr> (sn_reports s), sn_leases := dpop i (sn_leases s)\<rparr>"
    by (auto simp: commit_change_def result_simps Let_def split: option.splits if_splits)
  have dl: "dget (sn_leases s) i = Some l" "ls_lease_id l = tn_lease_id tk" "ls_generation l = tn_generation tk"
    using check_token_Inr [OF l] by auto
  have vl: "valid_lease (st_env st) i l" "1 \<le> dget_or (sn_attempts s) i 0" using snap_ok_lease [OF ok dl(1)] by auto
  then have att: "1 \<le> dget_or (sn_attempts s) i 1" by (auto simp: dget_or_def split: option.splits)
  define r where "r = \<lparr>rc_status = status, rc_report = safe, rc_digest = se_digest (st_env st) (PDict safe),
    rc_attempt = dget_or (sn_attempts s) i 1, rc_lease_id = tn_lease_id tk, rc_lease_generation = tn_generation tk\<rparr>"
  have keys: "\<forall>k \<in> set (map fst safe). case as_str k of None \<Rightarrow> False | Some s \<Rightarrow> s \<in> set REPORT_FIELDS"
    using rep(1) by (auto simp: valid_report_def split: if_splits)
  have rr: "ID_OK i \<and> valid_report_record (st_env st) r"
    using vl dl rep att keys env unfolding r_def by (auto simp: valid_report_record_def valid_lease_def env_ok_def)
  have st: "status \<in> set TASK_STATUSES" using rep(2) by (auto simp: REPORT_STATUSES_def TASK_STATUSES_def STATUSES_def)
  define s1 where "s1 = set_task_status i status s"
  have s1: "snap_ok st (sn_generation s + 1) (s1\<lparr>sn_leases := dpop i (sn_leases s1)\<rparr>)" unfolding s1_def
    by (intro drop_lease_ok set_task_status_ok snap_ok_mono [OF ok] st) simp
  have "snap_ok st (sn_generation s + 1) c"
  proof -
    have "c = s1\<lparr>sn_leases := dpop i (sn_leases s1), sn_reports := dset i r (sn_reports s1)\<rparr>"
      by (simp add: c r_def s1_def)
    with s1 rr show ?thesis by (simp add: snap_ok_def validate_def)
  qed
  then show ?thesis using new l by (auto simp: good_change_def c dict_simps split: if_splits)
qed

lemma good_refl: "snap_ok st (sn_generation s) s \<Longrightarrow> good_change st s s"
  using snap_ok_mono [of st "sn_generation s" s "sn_generation s + 1"] by (simp add: good_change_def)

lemma keep_leases_good:
  assumes ok: "snap_ok st (sn_generation s) s"
  shows "good_change st s (s\<lparr>sn_leases := filter Q (sn_leases s)\<rparr>)"
proof -
  have wf: "dict_wf (sn_leases s)" using ok by (simp add: snap_ok_def)
  have sub: "dget (filter Q (sn_leases s)) i = Some l \<Longrightarrow> dget (sn_leases s) i = Some l" for i l
    by (auto simp: dget_filter [OF wf] split: option.splits if_splits)
  have "snap_ok st (sn_generation s + 1) (s\<lparr>sn_leases := filter Q (sn_leases s)\<rparr>)"
    using snap_ok_mono [OF ok, of "sn_generation s + 1"] by (simp add: snap_ok_def validate_def) (use sub in blast)
  with sub show ?thesis by (auto simp: good_change_def)
qed

lemma install_good:
  assumes gc: "good_change st s c" and l: "valid_lease (st_env st) i l" "ls_generation l = sn_generation s + 1"
  shows "good_change st s (install i l c)"
  using gc l install_ok [of st "sn_generation s + 1" c i l] by (auto simp: good_change_def)

lemma install_leases_alt: "install_leases owner e lids chosen s =
    fold (\<lambda>(i, lid) c. install i \<lparr>ls_owner = owner, ls_lease_id = lid, ls_expires_at = e, ls_generation = sn_generation s + 1\<rparr> c)
      (zip chosen lids) s"
  by (simp add: install_leases_def install_def)

lemma fold_install_good:
  assumes "good_change st s c" and "ID_OK owner" and "se_parse (st_env st) e \<noteq> None" and "0 \<le> sn_generation s"
    and "\<forall>(i, lid) \<in> set ps. ID_OK i \<and> ID_OK lid"
  shows "good_change st s (fold (\<lambda>(i, lid) c. install i \<lparr>ls_owner = owner, ls_lease_id = lid, ls_expires_at = e,
      ls_generation = sn_generation s + 1\<rparr> c) ps c)"
  using assms
proof (induction ps arbitrary: c)
  case (Cons p ps)
  obtain i lid where p: "p = (i, lid)" by (cases p)
  have "good_change st s (install i \<lparr>ls_owner = owner, ls_lease_id = lid, ls_expires_at = e,
      ls_generation = sn_generation s + 1\<rparr> c)"
    by (rule install_good [OF Cons.prems(1)]) (use Cons.prems p in \<open>simp_all add: valid_lease_def\<close>)
  from Cons.IH [OF this] Cons.prems show ?case by (simp add: p)
qed simp

lemma claim_many_good:
  assumes ch: "claim_many_change (st_env st) ids owner maxp secs select now lids s = Inr (Some c, tks)"
    and env: "env_ok (st_env st)" and ok: "snap_ok st (sn_generation s) s"
    and ids: "\<forall>i \<in> set ids. ID_OK i" "list_all ID_OK lids" "ID_OK owner"
  shows "good_change st s c"
proof -
  let ?Q = "\<lambda>(i, l). \<not> ls_expires_at l \<le> now"
  let ?s1 = "s\<lparr>sn_leases := filter ?Q (sn_leases s)\<rparr>"
  have g1: "good_change st s ?s1" using ok by (rule keep_leases_good)
  from ch obtain chosen where "c = ?s1 \<or> (set chosen \<subseteq> set ids \<and> (\<exists>e. plus_seconds (st_env st) now secs = Inr e
      \<and> c = install_leases owner e lids chosen ?s1))"
    by (auto simp: claim_many_change_def result_simps clock_value_Inr Let_def split: if_splits option.splits)
  then show ?thesis
  proof
    assume "set chosen \<subseteq> set ids \<and> (\<exists>e. plus_seconds (st_env st) now secs = Inr e \<and> c = install_leases owner e lids chosen ?s1)"
    then obtain e where sub: "set chosen \<subseteq> set ids" and e: "plus_seconds (st_env st) now secs = Inr e"
      and c: "c = install_leases owner e lids chosen ?s1" by blast
    have "\<forall>(i, lid) \<in> set (zip chosen lids). ID_OK i \<and> ID_OK lid"
      using sub ids by (auto simp: list_all_iff dest: set_zip_leftD set_zip_rightD)
    from fold_install_good [OF g1 ids(3) plus_seconds_Inr [OF e env] snap_ok_owner(2) [OF ok] this]
    show ?thesis unfolding c install_leases_alt by simp
  qed (use g1 in simp)
qed

section \<open>The two files\<close>

definition file_ok :: "store \<Rightarrow> snapshot list \<Rightarrow> disk_file \<Rightarrow> bool" where
  "file_ok st hist f \<longleftrightarrow> f = Missing \<and> length hist = 1 \<or> (\<exists>b \<in> set (take 2 hist). f = seal (st_checksum st) b)"

text \<open>
  Either the primary is the newest committed snapshot and the backup one of the two newest, or the
  primary is a file that was written with an event that is not valid, and the backup is the newest
  committed snapshot, which the write promoted.
\<close>

definition stale_primary :: "store \<Rightarrow> snapshot \<Rightarrow> disk \<Rightarrow> bool" where
  "stale_primary st s d \<longleftrightarrow> (\<exists>x. dk_primary d = seal (st_checksum st) x \<and> \<not> validate (st_env st) (st_run st) x)
     \<and> dk_backup d = seal (st_checksum st) s"

definition cfg_inv :: "store \<Rightarrow> store_config \<Rightarrow> bool" where
  "cfg_inv st c \<longleftrightarrow> (\<exists>s older. snd c = s # older
     \<and> (dk_primary (fst c) = seal (st_checksum st) s \<and> file_ok st (snd c) (dk_backup (fst c)) \<or> stale_primary st s (fst c))
     \<and> (\<forall>x \<in> set (snd c). snap_ok st (sn_generation x) x)
     \<and> sorted_wrt (\<lambda>x y. sn_generation y < sn_generation x) (snd c))"

lemma validate_seal: "snap_ok st n s \<Longrightarrow> validate_file (st_env st) (st_checksum st) (st_run st) (seal (st_checksum st) s) = Some s"
  by (simp add: validate_file_def seal_def snap_ok_def)

lemma cfg_invD:
  assumes "cfg_inv st (d, hist)"
  obtains s older where "hist = s # older" and "\<forall>x \<in> set hist. snap_ok st (sn_generation x) x"
    and "sorted_wrt (\<lambda>x y. sn_generation y < sn_generation x) hist"
    and "dk_primary d = seal (st_checksum st) s \<and> file_ok st hist (dk_backup d) \<or> stale_primary st s d"
  using assms by (auto simp: cfg_inv_def)

lemma file_ok_valid:
  assumes "file_ok st hist f" and "\<forall>x \<in> set hist. snap_ok st (sn_generation x) x"
  shows "validate_file (st_env st) (st_checksum st) (st_run st) f = None
      \<or> (\<exists>x \<in> set (take 2 hist). validate_file (st_env st) (st_checksum st) (st_run st) f = Some x)"
proof (cases "f = Missing")
  case True
  then show ?thesis by (simp add: validate_file_def)
next
  case False
  then obtain x where x: "x \<in> set (take 2 hist)" "f = seal (st_checksum st) x" using assms(1) by (auto simp: file_ok_def)
  then have "x \<in> set hist" by (meson in_set_takeD)
  then have "validate_file (st_env st) (st_checksum st) (st_run st) f = Some x"
    unfolding x(2) by (intro validate_seal) (use assms(2) in auto)
  with x show ?thesis by blast
qed

lemma stale_primary_valid:
  assumes "stale_primary st s d" and "snap_ok st n s"
  shows "validate_file (st_env st) (st_checksum st) (st_run st) (dk_primary d) = None"
    and "validate_file (st_env st) (st_checksum st) (st_run st) (dk_backup d) = Some s"
  using assms validate_seal [OF assms(2)] by (auto simp: stale_primary_def validate_file_def seal_def)

lemma cfg_current:
  assumes "cfg_inv st (d, hist)"
  shows "hist \<noteq> []" and "current st d = Some (hd hist)" and "snap_ok st (sn_generation (hd hist)) (hd hist)"
proof -
  from assms obtain s older where h: "hist = s # older" and ok: "\<forall>x \<in> set hist. snap_ok st (sn_generation x) x"
    and srt: "sorted_wrt (\<lambda>x y. sn_generation y < sn_generation x) hist"
    and files: "dk_primary d = seal (st_checksum st) s \<and> file_ok st hist (dk_backup d) \<or> stale_primary st s d"
    by (rule cfg_invD)
  show "hist \<noteq> []" and sok: "snap_ok st (sn_generation (hd hist)) (hd hist)" using h ok by auto
  from files show "current st d = Some (hd hist)"
  proof
    assume p: "dk_primary d = seal (st_checksum st) s \<and> file_ok st hist (dk_backup d)"
    then have vp: "validate_file (st_env st) (st_checksum st) (st_run st) (dk_primary d) = Some s"
      using validate_seal [OF sok] h by simp
    have "sn_generation x \<le> sn_generation s" if "x \<in> set (take 2 hist)" for x
      using in_set_takeD [OF that] srt h by auto
    then show ?thesis using file_ok_valid [OF conjunct2 [OF p] ok] vp h by (force simp: valid_snapshot_def)
  next
    assume "stale_primary st s d"
    from stale_primary_valid [OF this] sok h show ?thesis by (simp add: valid_snapshot_def)
  qed
qed

text \<open>The states of the disk during a write, seen from the newest committed snapshot.\<close>

lemma write_disks:
  assumes inv: "cfg_inv st (d, hist)" and w: "written st s' d = Inr ds" and d': "d' \<in> set ds"
  shows "d' = last ds \<and> dk_primary d' = seal (st_checksum st) s' \<and> dk_backup d' = seal (st_checksum st) (hd hist)
    \<or> cfg_inv st (d', hist)"
proof -
  from inv obtain s older where h: "hist = s # older" and ok: "\<forall>x \<in> set hist. snap_ok st (sn_generation x) x"
    and srt: "sorted_wrt (\<lambda>x y. sn_generation y < sn_generation x) hist"
    and files: "dk_primary d = seal (st_checksum st) s \<and> file_ok st hist (dk_backup d) \<or> stale_primary st s d"
    by (rule cfg_invD)
  have sok: "snap_ok st (sn_generation s) s" using ok h by simp
  define d1 where "d1 = promote (st_env st) (st_checksum st) (st_run st) d"
  have ds: "ds = [d, d1, d1\<lparr>dk_primary := seal (st_checksum st) s'\<rparr>]"
    using w by (auto simp: write_states_def d1_def Let_def split: if_splits)
  have "dk_backup d1 = seal (st_checksum st) s \<and> cfg_inv st (d1, hist)"
    using files
  proof
    assume p: "dk_primary d = seal (st_checksum st) s \<and> file_ok st hist (dk_backup d)"
    then have "d1 = d\<lparr>dk_backup := seal (st_checksum st) s\<rparr>"
      using validate_seal [OF sok] by (simp add: d1_def promote_def)
    moreover have "file_ok st hist (seal (st_checksum st) s)" using h by (auto simp: file_ok_def numeral_2_eq_2)
    ultimately show ?thesis using p h ok srt by (auto simp: cfg_inv_def)
  next
    assume "stale_primary st s d"
    moreover from this have "d1 = d" using stale_primary_valid(1) [OF _ sok] by (simp add: d1_def promote_def)
    ultimately show ?thesis using inv by (simp add: stale_primary_def)
  qed
  with d' ds inv h show ?thesis by auto
qed

lemma write_cfg:
  assumes inv: "cfg_inv st (d, hist)" and good: "good_change st (hd hist) c"
    and now: "se_parse (st_env st) now \<noteq> None" and w: "written st (bump now c) d = Inr ds" and d': "d' \<in> set ds"
  shows "cfg_inv st (d', landed ds d' (bump now c) hist)"
proof -
  let ?s' = "bump now c"
  from inv obtain s older where h: "hist = s # older" and ok: "\<forall>x \<in> set hist. snap_ok st (sn_generation x) x"
    and srt: "sorted_wrt (\<lambda>x y. sn_generation y < sn_generation x) hist"
    by (rule cfg_invD)
  have gen: "sn_generation ?s' = sn_generation s + 1" using good h by (simp add: good_change_def bump_def)
  then have ne: "?s' \<noteq> s" by auto
  have ok': "snap_ok st (sn_generation ?s') ?s'" using good now by (rule bump_ok)
  have last: "dk_primary (last ds) = seal (st_checksum st) ?s' \<and> (d' = last ds \<longrightarrow> dk_backup d' = seal (st_checksum st) s)"
  proof -
    have lst: "last ds \<in> set ds" "dk_primary (last ds) = seal (st_checksum st) ?s'"
      using w by (auto simp: write_states_def Let_def split: if_splits)
    have "\<not> cfg_inv st (last ds, hist)"
    proof
      assume "cfg_inv st (last ds, hist)"
      then have "current st (last ds) = Some s" using cfg_current(2) h by simp
      moreover have "validate_file (st_env st) (st_checksum st) (st_run st) (dk_primary (last ds)) = Some ?s'"
        using lst(2) validate_seal [OF ok'] by simp
      ultimately have "sn_generation ?s' \<le> sn_generation s"
        using ne by (auto simp: valid_snapshot_def split: option.splits if_splits)
      with gen show False by simp
    qed
    then show ?thesis using write_disks [OF inv w lst(1)] lst h by auto
  qed
  show ?thesis
  proof (cases "d' = last ds")
    case True
    have "file_ok st (?s' # hist) (dk_backup d')" using True last h by (auto simp: file_ok_def numeral_2_eq_2)
    moreover have "sorted_wrt (\<lambda>x y. sn_generation y < sn_generation x) (?s' # hist)" using srt gen h by auto
    ultimately show ?thesis using True last ne ok ok' h by (auto simp: landed_def cfg_inv_def)
  next
    case False
    then show ?thesis using write_disks [OF inv w d'] by (simp add: landed_def)
  qed
qed

text \<open>A write of something that loading rejects leaves the newest committed snapshot where it is read.\<close>

lemma write_invalid_cfg:
  assumes inv: "cfg_inv st (d, hist)" and w: "written st s' d = Inr ds" and d': "d' \<in> set ds"
    and bad: "\<not> validate (st_env st) (st_run st) s'"
  shows "cfg_inv st (d', hist)"
  using write_disks [OF inv w d']
proof
  assume "d' = last ds \<and> dk_primary d' = seal (st_checksum st) s' \<and> dk_backup d' = seal (st_checksum st) (hd hist)"
  then have "stale_primary st (hd hist) d'" using bad by (auto simp: stale_primary_def)
  then show ?thesis using inv by (auto simp: cfg_inv_def)
qed

lemma same_cfg: "cfg_inv st (d, hist) \<Longrightarrow> d' \<in> set [d] \<Longrightarrow> cfg_inv st (d', landed [d] d' (hd hist) hist)"
  by (simp add: landed_def)

text \<open>Every operation that writes does so through a good change of the newest snapshot.\<close>

definition op_outcome :: "store \<Rightarrow> disk \<Rightarrow> snapshot \<Rightarrow> snapshot \<Rightarrow> disk list \<Rightarrow> bool" where
  "op_outcome st d s0 s ds \<longleftrightarrow> s = s0 \<and> ds = [d]
     \<or> (\<exists>c now. good_change st s0 c \<and> se_parse (st_env st) now \<noteq> None \<and> s = bump now c \<and> written st s d = Inr ds)"

lemma owned_Inr: "owned_snapshot st owner d = Inr s \<longleftrightarrow> current st d = Some s \<and> sn_owner s = owner"
  by (auto simp: owned_snapshot_def result_simps)

lemma mutate_outcome:
  assumes "store_mutate st owner expected fn now d = Inr (s, ds)" and "current st d = Some s0"
    and "\<And>c. fn s0 = Inr c \<Longrightarrow> sn_owner s0 = owner \<Longrightarrow> good_change st s0 c"
  shows "op_outcome st d s0 s ds"
  using assms by (auto simp: store_mutate_def result_simps owned_Inr clock_value_Inr op_outcome_def)

text \<open>What every operation may assume: a sound environment and a newest snapshot that is in order.\<close>

definition ready_state :: "store \<Rightarrow> disk \<Rightarrow> snapshot \<Rightarrow> bool" where
  "ready_state st d s \<longleftrightarrow> env_ok (st_env st) \<and> current st d = Some s \<and> snap_ok st (sn_generation s) s"

lemma ready_stateD: "ready_state st d s \<Longrightarrow> env_ok (st_env st)" "ready_state st d s \<Longrightarrow> current st d = Some s"
  "ready_state st d s \<Longrightarrow> snap_ok st (sn_generation s) s"
  by (simp_all add: ready_state_def)

lemma transition_outcome:
  "store_transition st status owner expected now d = Inr (s, ds) \<Longrightarrow> ready_state st d s0 \<Longrightarrow> op_outcome st d s0 s ds"
  unfolding store_transition_def by (erule mutate_outcome) (auto simp: ready_state_def intro: transition_good)

lemma task_status_outcome:
  "store_update_task_status st i status owner expected now d = Inr (s, ds) \<Longrightarrow> ready_state st d s0 \<Longrightarrow> op_outcome st d s0 s ds"
  unfolding store_update_task_status_def
  by (auto simp: result_simps ready_state_def intro: task_status_good elim!: mutate_outcome)

lemma terminal_event_outcome:
  assumes "store_terminal_event st i owner expected now d = Inr (s, ds)" and rs: "ready_state st d s0"
  shows "op_outcome st d s0 s ds"
proof -
  from assms(1) obtain r where id: "ID_OK i" and ch: "terminal_event_change i s0 = Inr r"
    and out: "(case r of None \<Rightarrow> Inr (s0, [d]) | Some c \<Rightarrow> bindR (clock_value (st_env st) now) (\<lambda>now.
         bindR (written st (bump now c) d) (\<lambda>ds. Inr (bump now c, ds)))) = Inr (s, ds)"
    using ready_stateD(2) [OF rs] by (auto simp: store_terminal_event_def result_simps owned_Inr dest: safe_id_ok)
  show ?thesis
  proof (cases r)
    case (Some c)
    then have "good_change st s0 c" using terminal_event_good [OF _ id ready_stateD(3) [OF rs]] ch by blast
    with out Some show ?thesis by (auto simp: op_outcome_def result_simps clock_value_Inr)
  qed (use out in \<open>auto simp: op_outcome_def\<close>)
qed

lemma claim_outcome:
  assumes "store_claim st i owner secs expected lid now now2 d = Inr (tk, s, ds)" and rs: "ready_state st d s0" and "ID_OK lid"
  shows "op_outcome st d s0 s ds"
proof -
  from assms(1) have id: "ID_OK i" and m: "store_mutate st owner expected (claim_change (st_env st) i owner secs now lid) now2 d = Inr (s, ds)"
    by (auto simp: store_claim_def result_simps dest: safe_id_ok split: option.splits)
  show ?thesis
    by (rule mutate_outcome [OF m ready_stateD(2) [OF rs]])
       (rule claim_good [OF _ ready_stateD(1) [OF rs] ready_stateD(3) [OF rs] id assms(3)], auto)
qed

lemma claim_many_outcome:
  assumes "store_claim_many st ids owner maxp secs select lids now now2 d = Inr (tks, s, ds)" and rs: "ready_state st d s0"
    and "list_all ID_OK lids"
  shows "op_outcome st d s0 s ds"
proof -
  from assms(1) ready_stateD(2) [OF rs] obtain r ts where ow: "sn_owner s0 = owner" and ids: "\<forall>i \<in> set ids. ID_OK i"
    and ch: "claim_many_change (st_env st) ids owner maxp secs select now lids s0 = Inr (r, ts)"
    and out: "(case r of None \<Rightarrow> Inr ([], s0, [d]) | Some c \<Rightarrow> bindR (if ts = [] then Inr now else clock_value (st_env st) now2) (\<lambda>stamp.
            bindR (written st (bump stamp c) d) (\<lambda>ds. Inr (ts, bump stamp c, ds)))) = Inr (tks, s, ds)"
    by (auto simp: store_claim_many_def result_simps owned_Inr split: if_splits)
  show ?thesis
  proof (cases r)
    case (Some c)
    have own: "ID_OK owner" using snap_ok_owner(1) [OF ready_stateD(3) [OF rs]] ow by simp
    have g: "good_change st s0 c"
      using claim_many_good [OF _ ready_stateD(1) [OF rs] ready_stateD(3) [OF rs] ids assms(3) own] ch Some by blast
    have "se_parse (st_env st) now \<noteq> None" using ch by (auto simp: claim_many_change_def result_simps clock_value_Inr)
    with out Some g show ?thesis by (auto simp: op_outcome_def result_simps clock_value_Inr split: if_splits)
  qed (use out in \<open>auto simp: op_outcome_def\<close>)
qed

lemma renew_outcome:
  assumes "store_renew st i tk owner secs lid now now2 d = Inr (tk', s, ds)" and rs: "ready_state st d s0" and "ID_OK lid"
  shows "op_outcome st d s0 s ds"
proof -
  from assms(1) have m: "store_mutate st owner None (renew_change (st_env st) i tk secs now lid) now2 d = Inr (s, ds)"
    by (auto simp: store_renew_def result_simps split: option.splits)
  show ?thesis
    by (rule mutate_outcome [OF m ready_stateD(2) [OF rs]])
       (rule renew_good [OF _ ready_stateD(1) [OF rs] ready_stateD(3) [OF rs] assms(3)])
qed

lemma commit_outcome:
  assumes "store_commit st i tk owner report status now now2 d = Inr (s, ds)" and rs: "ready_state st d s0"
  shows "op_outcome st d s0 s ds"
proof -
  from assms(1) ready_stateD(2) [OF rs] obtain safe r where rep: "status \<in> set REPORT_STATUSES" "valid_report (st_env st) safe status"
    and ch: "commit_change (st_env st) i tk safe status now s0 = Inr r"
    and out: "(case r of None \<Rightarrow> Inr (s0, [d]) | Some c \<Rightarrow> bindR (clock_value (st_env st) now2) (\<lambda>now2.
          bindR (written st (bump now2 c) d) (\<lambda>ds. Inr (bump now2 c, ds)))) = Inr (s, ds)"
    by (auto simp: store_commit_def result_simps owned_Inr)
  show ?thesis
  proof (cases r)
    case (Some c)
    then have "good_change st s0 c"
      using commit_good [OF _ ready_stateD(1) [OF rs] rep(2,1) ready_stateD(3) [OF rs]] ch by blast
    with out Some show ?thesis by (auto simp: op_outcome_def result_simps clock_value_Inr)
  qed (use out in \<open>auto simp: op_outcome_def\<close>)
qed

lemma append_event_outcome:
  assumes "store_append_event st event owner expected now d = Inr (s, ds)" and rs: "ready_state st d s0"
  shows "if valid_event (last (sn_events s)) then op_outcome st d s0 s ds
    else written st s d = Inr ds \<and> \<not> validate (st_env st) (st_run st) s"
proof -
  note m = assms(1) [unfolded store_append_event_def]
  from m ready_stateD(2) [OF rs] obtain c where ch: "append_event_change (st_env st) event s0 = Inr c"
    and s: "s = bump now c" and w: "written st s d = Inr ds"
    by (auto simp: store_mutate_def result_simps owned_Inr clock_value_Inr)
  have ev: "sn_events s = sn_events c" by (simp add: s bump_def)
  from ch obtain item where c: "sn_events c = sn_events s0 @ [item]" by (rule append_event_change_Inr) simp
  show ?thesis
  proof (cases "valid_event (last (sn_events s))")
    case True
    have "good_change st s0 c'" if "append_event_change (st_env st) event s0 = Inr c'" for c'
      using append_event_good [OF that ready_stateD(3) [OF rs]] that ch True ev by simp
    then show ?thesis using mutate_outcome [OF m ready_stateD(2) [OF rs]] True by simp
  next
    case False
    then have "\<not> validate (st_env st) (st_run st) s" using c ev by (simp add: validate_def)
    with w False show ?thesis by simp
  qed
qed

lemma drop_outcome:
  assumes "store_mutate st owner expected fn now d = Inr (s, ds)" and rs: "ready_state st d s0" and "drops_lease fn"
  shows "op_outcome st d s0 s ds"
proof (rule mutate_outcome [OF assms(1) ready_stateD(2) [OF rs]])
  fix c assume "fn s0 = Inr c"
  then have "c = s0 \<or> (\<exists>i. c = s0\<lparr>sn_leases := dpop i (sn_leases s0)\<rparr>)" using assms(3) unfolding drops_lease_def by blast
  then show "good_change st s0 c"
    using good_refl [OF ready_stateD(3) [OF rs]] keep_leases_good [OF ready_stateD(3) [OF rs]]
    by (auto simp: dpop_def AList.delete_eq)
qed

section \<open>Runs\<close>

definition follows :: "store \<Rightarrow> snapshot \<Rightarrow> snapshot \<Rightarrow> bool" where
  "follows st s s' \<longleftrightarrow> s' = s \<or> (\<exists>c now. good_change st s c \<and> s' = bump now c)"

lemma outcome_cfg:
  assumes inv: "cfg_inv st (d, hist)" and out: "op_outcome st d (hd hist) s ds" and d': "d' \<in> set ds"
  shows "cfg_inv st (d', landed ds d' s hist) \<and> follows st (hd hist) (hd (landed ds d' s hist))"
  using out unfolding op_outcome_def
proof
  assume "s = hd hist \<and> ds = [d]"
  then show ?thesis using inv d' by (auto simp: landed_def follows_def)
next
  assume "\<exists>c now. good_change st (hd hist) c \<and> se_parse (st_env st) now \<noteq> None \<and> s = bump now c \<and> written st s d = Inr ds"
  then obtain c now where g: "good_change st (hd hist) c" "se_parse (st_env st) now \<noteq> None" "s = bump now c" "written st s d = Inr ds"
    by blast
  from write_cfg [OF inv g(1,2)] g(3,4) d' have "cfg_inv st (d', landed ds d' s hist)" by simp
  moreover have "follows st (hd hist) (hd (landed ds d' s hist))" using g by (auto simp: landed_def follows_def)
  ultimately show ?thesis by blast
qed

lemma step_cfg:
  assumes "store_step st c c'" and env: "env_ok (st_env st)" and inv: "cfg_inv st c"
  shows "cfg_inv st c' \<and> follows st (hd (snd c)) (hd (snd c'))"
  using assms(1) inv
proof (induction rule: store_step.induct)
  have rs: "ready_state st d (hd hist)" if "cfg_inv st (d, hist)" for d hist
    using cfg_current [OF that] env by (simp add: ready_state_def)
  {
    case (do_transition status owner expected now d s ds d' hist)
    then show ?case using outcome_cfg [OF do_transition(3) transition_outcome [OF do_transition(1) rs [OF do_transition(3)]]] by simp
  next
    case (do_task_status i status owner expected now d s ds d' hist)
    then show ?case using outcome_cfg [OF do_task_status(3) task_status_outcome [OF do_task_status(1) rs [OF do_task_status(3)]]] by simp
  next
    case (do_terminal_event i owner expected now d s ds d' hist)
    then show ?case
      using outcome_cfg [OF do_terminal_event(3) terminal_event_outcome [OF do_terminal_event(1) rs [OF do_terminal_event(3)]]] by simp
  next
    case (do_append_event event owner expected now d s ds d' hist)
    note out = append_event_outcome [OF do_append_event(1) rs [OF do_append_event(3)]]
    show ?case
    proof (cases "valid_event (last (sn_events s))")
      case True
      then show ?thesis using outcome_cfg [OF do_append_event(3) _ do_append_event(2)] out by (simp add: event_landed_def)
    next
      case False
      with out have "cfg_inv st (d', hist)" by (intro write_invalid_cfg [OF do_append_event(3) _ do_append_event(2), of s]) simp_all
      then show ?thesis using False by (simp add: event_landed_def follows_def)
    qed
  next
    case (do_mutate owner expected fn now d s ds d' hist)
    then show ?case using outcome_cfg [OF do_mutate(4) drop_outcome [OF do_mutate(1) rs [OF do_mutate(4)] do_mutate(2)]] by simp
  next
    case (do_claim i owner secs expected lid now now2 d tk s ds d' hist)
    then show ?case using outcome_cfg [OF do_claim(4) claim_outcome [OF do_claim(1) rs [OF do_claim(4)] do_claim(2)]] by simp
  next
    case (do_claim_many ids owner maxp secs select lids now now2 d tks s ds d' hist)
    then show ?case
      using outcome_cfg [OF do_claim_many(5) claim_many_outcome [OF do_claim_many(1) rs [OF do_claim_many(5)] do_claim_many(2)]] by simp
  next
    case (do_renew i tk owner secs lid now now2 d tk' s ds d' hist)
    then show ?case using outcome_cfg [OF do_renew(4) renew_outcome [OF do_renew(1) rs [OF do_renew(4)] do_renew(2)]] by simp
  next
    case (do_commit i tk owner report status now now2 d s ds d' hist)
    then show ?case using outcome_cfg [OF do_commit(3) commit_outcome [OF do_commit(1) rs [OF do_commit(3)]]] by simp
  }
qed

text \<open>
  When the plan and its canonical form have different hashes, the file that \<open>create\<close> writes is rejected.
  No operation gets past reading it, so the run never has a step.
\<close>

definition unread :: "store \<Rightarrow> store_config \<Rightarrow> bool" where
  "unread st c \<longleftrightarrow> snd c = [] \<and> store_load (st_env st) (st_checksum st) (st_run st) (fst c) = Inl CorruptSnapshotError"

lemma unread_current: "unread st (d, hist) \<Longrightarrow> current st d = None"
  by (auto simp: unread_def store_load_def split: option.splits)

lemma no_owner: "current st d = None \<Longrightarrow> owned_snapshot st owner d \<noteq> Inr s"
  by (simp add: owned_snapshot_def)

lemma no_mutate: "current st d = None \<Longrightarrow> store_mutate st owner expected fn now d \<noteq> Inr x"
  by (simp add: store_mutate_def owned_snapshot_def)

lemma unread_stuck: "store_step st c c' \<Longrightarrow> \<not> unread st c"
proof
  assume "store_step st c c'" and un: "unread st c"
  then show False
    using unread_current [of st "fst c" "snd c"]
    by (cases rule: store_step.cases)
       (auto simp: store_transition_def store_update_task_status_def store_terminal_event_def store_append_event_def
          store_claim_def store_claim_many_def store_renew_def store_commit_def result_simps no_owner no_mutate
          split: if_splits)
qed

lemma init_cfg:
  assumes "store_init st c"
  shows "cfg_inv st c \<or> unread st c"
proof -
  from assms obtain plan canonical owner now ds where id: "safe_id (st_run st) = Inr ()" "safe_id owner = Inr ()"
    and now: "se_parse (st_env st) now \<noteq> None"
    and w: "written st (fresh_snapshot st plan canonical owner now) \<lparr>dk_primary = Missing, dk_backup = Missing\<rparr> = Inr ds"
    and c: "c = (last ds, if se_plan_hash (st_env st) plan = se_plan_hash (st_env st) canonical
      then [fresh_snapshot st plan canonical owner now] else [])"
    by (clarsimp simp: store_init_def store_create_def result_simps clock_value_Inr Let_def) blast
  let ?s = "fresh_snapshot st plan canonical owner now"
  have d: "last ds = \<lparr>dk_primary = seal (st_checksum st) ?s, dk_backup = Missing\<rparr>"
    using w by (auto simp: write_states_def promote_def validate_file_def Let_def)
  show ?thesis
  proof (cases "se_plan_hash (st_env st) plan = se_plan_hash (st_env st) canonical")
    case True
    then have "snap_ok st 0 ?s"
      using id [THEN safe_id_ok] now by (simp add: snap_ok_def validate_def fresh_snapshot_def STATUSES_def)
    then show ?thesis using True d by (simp add: c cfg_inv_def file_ok_def fresh_snapshot_def)
  next
    case False
    then have "\<not> validate (st_env st) (st_run st) ?s" by (simp add: validate_def fresh_snapshot_def)
    then show ?thesis using False d
      by (simp add: c unread_def store_load_def valid_snapshot_def validate_file_def seal_def)
  qed
qed

text \<open>A sound environment is part of the run, so that the invariant is one of the generic systems.\<close>

definition run_init :: "store \<Rightarrow> store_config \<Rightarrow> bool" where
  "run_init st c \<longleftrightarrow> env_ok (st_env st) \<and> store_init st c"

definition run_inv :: "store \<Rightarrow> store_config \<Rightarrow> bool" where
  "run_inv st c \<longleftrightarrow> env_ok (st_env st) \<and> (cfg_inv st c \<or> unread st c)"

interpretation rs: invariant_system "run_init st" "store_step st" "run_inv st" for st
proof
  show "run_init st s \<Longrightarrow> run_inv st s" for s by (simp add: run_init_def run_inv_def init_cfg)
  show "run_inv st s \<Longrightarrow> store_step st s t \<Longrightarrow> run_inv st t" for s t
    using step_cfg unread_stuck by (auto simp: run_inv_def)
qed

lemma runs_follow:
  assumes "(store_step st)\<^sup>*\<^sup>* c c'" and "run_inv st c" and keep: "\<And>s s'. follows st s s' \<Longrightarrow> P s \<Longrightarrow> P s'" and "P (hd (snd c))"
  shows "P (hd (snd c')) \<and> run_inv st c'"
  using assms(1)
proof (induction rule: rtranclp_induct)
  case base
  then show ?case using assms by simp
next
  case (step y z)
  then show ?case
    using step_cfg [OF step(2)] unread_stuck [OF step(2)] keep rs.inv_step [OF _ step(2)] by (auto simp: run_inv_def)
qed

lemma step_nonempty: "store_step st c c' \<Longrightarrow> snd c \<noteq> [] \<Longrightarrow> snd c' \<noteq> []"
  by (erule store_step.cases) (auto simp: landed_def event_landed_def)

lemma runs_nonempty: "(store_step st)\<^sup>*\<^sup>* c c' \<Longrightarrow> snd c \<noteq> [] \<Longrightarrow> snd c' \<noteq> []"
  by (induction rule: rtranclp_induct) (auto dest: step_nonempty)

text \<open>A generation is fenced for a task when no lease of the task carries it and none ever will.\<close>

definition fenced :: "string \<Rightarrow> int \<Rightarrow> snapshot \<Rightarrow> bool" where
  "fenced i g s \<longleftrightarrow> g \<le> sn_generation s \<and> (\<forall>l. dget (sn_leases s) i = Some l \<longrightarrow> ls_generation l \<noteq> g)"

lemma fenced_follows: "follows st s s' \<Longrightarrow> fenced i g s \<Longrightarrow> fenced i g s'"
  by (force simp: follows_def fenced_def good_change_def bump_def)

lemma report_follows: "follows st s s' \<Longrightarrow> dget (sn_reports s) i = Some r \<Longrightarrow> dget (sn_reports s') i = Some r"
  by (auto simp: follows_def good_change_def bump_def)

lemma fenced_check: "fenced i g s \<Longrightarrow> tn_generation tk = g \<Longrightarrow> \<exists>e. check_token env s i tk now = Inl e"
  by (cases "check_token env s i tk now") (auto simp: fenced_def dest: check_token_Inr)

section \<open>A concrete run\<close>

text \<open>
  An environment for the examples: an instant is its decimal text, all digests are equal. The run
  has one task; it is created, claimed and committed.
\<close>

definition demo_env :: store_env where
  "demo_env = \<lparr>se_parse = int_of_text, se_format = int_text, se_digest = (\<lambda>_. replicate 64 (CHR ''a'')),
     se_plan_hash = (\<lambda>_. ''h'')\<rparr>"

definition demo_store :: store where
  "demo_store = \<lparr>st_env = demo_env, st_checksum = (\<lambda>_. ''c''), st_run = ''r''\<rparr>"

lemma demo_env_ok: "env_ok (st_env demo_store)"
  by (simp add: env_ok_def demo_store_def demo_env_def int_of_text_int_text hex64_def fullmatch_class_star in_range_def list_all_iff)

definition demo_plan :: pymap where
  "demo_plan = str_keyed [(''tasks'', PList [PDict (str_keyed [(''id'', PStr ''t'')])])]"

definition started :: "pymap \<Rightarrow> snapshot" where
  "started plan = fresh_snapshot demo_store plan plan ''o'' ''0''"

definition started_disk :: "pymap \<Rightarrow> disk" where
  "started_disk plan = \<lparr>dk_primary = seal (\<lambda>_. ''c'') (started plan), dk_backup = Missing\<rparr>"

lemma started_init: "run_init demo_store (started_disk plan, [started plan])"
proof -
  have "safe_id ''r'' = Inr ()" "safe_id ''o'' = Inr ()"
    by (simp_all add: safe_id_def ID_RE_def fullmatch_head_star ascii_alnum_def in_range_def)
  moreover have "int_of_text ''0'' = Some 0" by code_simp
  ultimately have "store_create demo_store plan plan ''o'' ''0'' \<lparr>dk_primary = Missing, dk_backup = Missing\<rparr>
      = Inr (started plan, [\<lparr>dk_primary = Missing, dk_backup = Missing\<rparr>, \<lparr>dk_primary = Missing, dk_backup = Missing\<rparr>, started_disk plan])"
    by (simp add: store_create_def started_def started_disk_def clock_value_def write_states_def promote_def
        validate_file_def Let_def) (simp add: demo_store_def demo_env_def)
  then have "store_init demo_store (started_disk plan, [started plan])"
    unfolding store_init_def by (intro exI conjI) (assumption, simp)
  then show ?thesis by (simp add: run_init_def demo_env_ok)
qed

definition demo_snapshot :: snapshot where
  "demo_snapshot = fresh_snapshot demo_store demo_plan demo_plan ''o'' ''0''"

definition demo_disk :: disk where
  "demo_disk = \<lparr>dk_primary = seal (\<lambda>_. ''c'') demo_snapshot, dk_backup = Missing\<rparr>"

lemma demo_init: "run_init demo_store (demo_disk, [demo_snapshot])"
  using started_init [of demo_plan] by (simp add: started_disk_def started_def demo_disk_def demo_snapshot_def)

lemma run_demo_reachable: "reachable (run_init demo_store) (store_step demo_store) (demo_disk, [demo_snapshot])"
  by (rule reachable_start) (rule demo_init)

end
