(* ===== verification/RunStoreProperties.thy ===== *)
theory RunStoreProperties
  imports RunStoreFacts
begin

text \<open>
  What the run store guarantees: the newest committed snapshot survives crashes, replaced lease tokens
  are rejected for ever (a replayed commit apart), reports are final, \<open>claim_many\<close> respects the capacity; and
  one gap of \<open>append_event\<close>.
\<close>

section \<open>Supporting facts\<close>

lemma reachable_run: "reachable (run_init st) (store_step st) c \<Longrightarrow> run_inv st c"
  by (rule rs.reachable_inv)

lemma run_current: "run_inv st (d, hist) \<Longrightarrow> hist \<noteq> [] \<Longrightarrow> current st d = Some (hd hist)"
  using cfg_current(2) [of st d hist] by (auto simp: run_inv_def unread_def)

lemma run_ok: "run_inv st (d, hist) \<Longrightarrow> hist \<noteq> [] \<Longrightarrow> snap_ok st (sn_generation (hd hist)) (hd hist)"
  using cfg_current(3) [of st d hist] by (auto simp: run_inv_def unread_def)

lemma run_loaded: "run_inv st (d, hist) \<Longrightarrow> current st d = Some s \<Longrightarrow> hist \<noteq> [] \<and> s = hd hist"
  using cfg_current [of st d hist] unread_current [of st d hist] by (auto simp: run_inv_def)

lemma load_Inr: "store_load (st_env st) (st_checksum st) (st_run st) d = Inr s \<longleftrightarrow> current st d = Some s"
  by (auto simp: store_load_def split: option.splits)

lemma claim_many_loaded:
  "store_claim_many st ids owner maxp secs select lids now now2 d = Inr (tks, s, ds) \<Longrightarrow> run_inv st (d, hist) \<Longrightarrow> hist \<noteq> []"
  using run_loaded [of st d hist] by (auto simp: store_claim_many_def result_simps owned_Inr split: if_splits)

lemma renew_loaded:
  "store_renew st i tk owner secs lid now now2 d = Inr x \<Longrightarrow> run_inv st (d, hist) \<Longrightarrow> hist \<noteq> []"
  using run_loaded [of st d hist] by (auto simp: store_renew_def store_mutate_def result_simps owned_Inr split: if_splits)

lemma renew_change_Inr:
  assumes "renew_change env i tk secs now lid s = Inr c"
  shows "\<exists>l e. dget (sn_leases s) i = Some l \<and> ls_generation l = tn_generation tk
    \<and> c = s\<lparr>sn_leases := dset i (l\<lparr>ls_lease_id := lid, ls_expires_at := e, ls_generation := sn_generation s + 1\<rparr>) (sn_leases s)\<rparr>"
  using assms by (auto simp: renew_change_def result_simps clock_value_Inr dest: check_token_Inr)

lemma renew_result:
  assumes rn: "store_renew st i tk owner secs lid now now2 d = Inr (tk', s, ds)" and cur: "current st d = Some s0"
  shows "(\<exists>l. dget (sn_leases s0) i = Some l \<and> ls_generation l = tn_generation tk)
    \<and> sn_generation s = sn_generation s0 + 1 \<and> (\<forall>l. dget (sn_leases s) i = Some l \<longrightarrow> ls_generation l = sn_generation s0 + 1)"
proof -
  from rn cur obtain c where s: "s = bump now2 c" and ch: "renew_change (st_env st) i tk secs now lid s0 = Inr c"
    by (auto simp: store_renew_def store_mutate_def result_simps owned_Inr clock_value_Inr)
  obtain l e where l: "dget (sn_leases s0) i = Some l" "ls_generation l = tn_generation tk"
    and c: "c = s0\<lparr>sn_leases := dset i (l\<lparr>ls_lease_id := lid, ls_expires_at := e, ls_generation := sn_generation s0 + 1\<rparr>) (sn_leases s0)\<rparr>"
    using renew_change_Inr [OF ch] by blast
  show ?thesis using l by (simp add: s c bump_def dict_simps)
qed

lemma use_fenced: "current st d = Some s \<Longrightarrow> fenced i (tn_generation tk) s \<Longrightarrow> \<exists>e. store_use st i tk owner now d = Inl e"
  using fenced_check [of i "tn_generation tk" s tk "st_env st" now]
  by (auto simp: store_use_def owned_snapshot_def)

lemma renew_fenced: "current st d = Some s \<Longrightarrow> fenced i (tn_generation tk) s \<Longrightarrow>
    \<exists>e. store_renew st i tk owner secs lid now now2 d = Inl e"
proof (cases "store_renew st i tk owner secs lid now now2 d")
  case (Inr r)
  assume cur: "current st d = Some s" and f: "fenced i (tn_generation tk) s"
  obtain tk' s' ds where r: "r = (tk', s', ds)" by (cases r)
  from renew_result [OF Inr [unfolded r] cur] f have False by (auto simp: fenced_def)
  then show ?thesis ..
qed simp

lemma commit_result:
  assumes "store_commit st i tk owner report status now now2 d = Inr (s', ds)" and "current st d = Some s"
  shows "s' = s \<and> ds = [d] \<and> dget (sn_reports s) i \<noteq> None
    \<or> dget (sn_reports s) i = None \<and> (\<exists>l. check_token (st_env st) s i tk now = Inr l)"
  using assms by (auto simp: store_commit_def commit_change_def result_simps owned_Inr Let_def split: option.split_asm if_split_asm)

lemma commit_fenced:
  assumes "store_commit st i tk owner report status now now2 d = Inr (s', ds)" and "current st d = Some s"
    and "fenced i (tn_generation tk) s"
  shows "s' = s \<and> ds = [d] \<and> dget (sn_reports s) i \<noteq> None"
  using commit_result [OF assms(1,2)] fenced_check [OF assms(3) refl, of "st_env st" now] by auto

lemma damaged_primary:
  assumes "cfg_inv st (d, hist)" and two: "1 < length hist"
  shows "\<exists>x \<in> set (take 2 hist). current st (d\<lparr>dk_primary := Garbage\<rparr>) = Some x"
proof -
  from assms(1) obtain s older where h: "hist = s # older" and ok: "\<forall>x \<in> set hist. snap_ok st (sn_generation x) x"
    and files: "dk_primary d = seal (st_checksum st) s \<and> file_ok st hist (dk_backup d) \<or> stale_primary st s d"
    by (rule cfg_invD)
  from files two h obtain x where x: "x \<in> set (take 2 hist)" "dk_backup d = seal (st_checksum st) x"
    by (auto simp: file_ok_def stale_primary_def numeral_2_eq_2)
  then have "snap_ok st (sn_generation x) x" using ok by (auto dest: in_set_takeD)
  from validate_seal [OF this] x have "current st (d\<lparr>dk_primary := Garbage\<rparr>) = Some x"
    by (simp add: valid_snapshot_def validate_file_def)
  with x show ?thesis by blast
qed

lemma append_event_result:
  assumes "store_append_event st event owner expected now d = Inr (s, ds)" and "run_inv st (d, hist)"
  shows "hist \<noteq> []" and "s \<noteq> hd hist" and "ds \<noteq> []" and "length (sn_events s) = Suc (length (sn_events (hd hist)))"
    and "sn_generation s = sn_generation (hd hist) + 1"
proof -
  from assms(1) obtain s0 c where cur: "current st d = Some s0" and ch: "append_event_change (st_env st) event s0 = Inr c"
    and s: "s = bump now c" and w: "written st s d = Inr ds"
    by (auto simp: store_append_event_def store_mutate_def result_simps owned_Inr clock_value_Inr)
  show h: "hist \<noteq> []" and "ds \<noteq> []"
    using run_loaded [OF assms(2) cur] w by (auto simp: write_states_def Let_def split: if_splits)
  have s0: "s0 = hd hist" using run_loaded [OF assms(2) cur] by simp
  from ch show "length (sn_events s) = Suc (length (sn_events (hd hist)))" and g: "sn_generation s = sn_generation (hd hist) + 1"
    unfolding s s0 by (auto elim!: append_event_change_Inr simp: bump_def)
  from g show "s \<noteq> hd hist" by auto
qed

section \<open>Properties\<close>

text \<open>
  C16: crash consistency. In every run of the store's operations on a run that was created without an initial
  state, with a crash possible at every point of every write, loading returns the newest committed snapshot;
  the committed snapshots are valid and their generations strictly increase; and if the primary file is
  damaged, the backup still gives a committed snapshot, once there have been two. A write that completes commits its snapshot, with two exceptions that
  the theorem spells out: an \<open>append_event\<close> that completes with an event that is not valid commits nothing,
  and after it loading still returns the snapshot from before; and where \<open>create\<close> has written a plan whose
  canonical form has another hash, nothing is ever committed and loading always finds a corrupt file.
\<close>

theorem crash_consistent:
  assumes "reachable (run_init st) (store_step st) (d, hist)"
  shows "store_load (st_env st) (st_checksum st) (st_run st) d =
      (case hist of [] \<Rightarrow> Inl CorruptSnapshotError | s # _ \<Rightarrow> Inr s)
    \<and> (\<forall>x \<in> set hist. validate (st_env st) (st_run st) x)
    \<and> sorted_wrt (\<lambda>x y. sn_generation y < sn_generation x) hist
    \<and> (1 < length hist \<longrightarrow> (\<exists>x \<in> set (take 2 hist). current st (d\<lparr>dk_primary := Garbage\<rparr>) = Some x))
    \<and> (\<forall>event owner expected now s ds. store_append_event st event owner expected now d = Inr (s, ds) \<longrightarrow>
         store_load (st_env st) (st_checksum st) (st_run st) (last ds) =
           Inr (if valid_event (last (sn_events s)) then s else hd hist))"
proof -
  have run: "run_inv st (d, hist)" by (rule reachable_run [OF assms])
  have load: "store_load (st_env st) (st_checksum st) (st_run st) d =
      (case hist of [] \<Rightarrow> Inl CorruptSnapshotError | s # _ \<Rightarrow> Inr s)" if "run_inv st (d, hist)" for d hist
    using that cfg_current [of st d hist] by (auto simp: run_inv_def unread_def load_Inr split: list.split)
  have all: "(\<forall>x \<in> set hist. snap_ok st (sn_generation x) x) \<and> sorted_wrt (\<lambda>x y. sn_generation y < sn_generation x) hist"
    using run by (auto simp: run_inv_def unread_def elim!: cfg_invD)
  have "\<exists>x \<in> set (take 2 hist). current st (d\<lparr>dk_primary := Garbage\<rparr>) = Some x" if two: "1 < length hist"
    by (rule damaged_primary [OF _ two]) (use run two in \<open>auto simp: run_inv_def unread_def\<close>)
  moreover have "store_load (st_env st) (st_checksum st) (st_run st) (last ds) =
      Inr (if valid_event (last (sn_events s)) then s else hd hist)"
    if ap: "store_append_event st event owner expected now d = Inr (s, ds)" for event owner expected now s ds
  proof -
    note out = append_event_result [OF ap run]
    have "run_inv st (last ds, event_landed ds (last ds) s hist)"
      by (rule rs.inv_step [OF run do_append_event [OF ap last_in_set]]) (use out in simp)
    from load [OF this] show ?thesis using out by (auto simp: event_landed_def landed_def split: list.splits)
  qed
  ultimately show ?thesis using load [OF run] all by (auto simp: snap_ok_def)
qed

theorem crash_consistent_witness:
  "store_load demo_env (\<lambda>_. ''c'') ''r'' demo_disk = Inr demo_snapshot"
  using crash_consistent [OF run_demo_reachable] by (simp add: demo_store_def)

text \<open>The example run goes on: the task is claimed and the lease renewed.\<close>

lemma demo_ids: "safe_id ''t'' = Inr ()" "ID_OK ''l1''" "ID_OK ''l2''" "ID_OK ''t''"
  by (simp_all add: safe_id_def ID_OK_def ID_RE_def fullmatch_head_star ascii_alnum_def in_range_def)

lemma demo_times: "int_of_text ''1'' = Some 1" "int_of_text ''2'' = Some 2" "int_of_text ''3'' = Some 3"
  "int_text 60000001 = ''60000001''" "int_text 60000002 = ''60000002''" "micros 60 = 60000000"
proof -
  show "int_of_text ''1'' = Some 1" "int_of_text ''2'' = Some 2" "int_of_text ''3'' = Some 3" by code_simp+
  have ch: "char_of (54 :: nat) = CHR ''6''" "char_of (48 :: nat) = CHR ''0''" "char_of (49 :: nat) = CHR ''1''"
    "char_of (50 :: nat) = CHR ''2''" by code_simp+
  show "int_text 60000001 = ''60000001''" "int_text 60000002 = ''60000002''" 
    using ch by (simp_all add: int_text_def nat_digits.simps)
  show "micros 60 = 60000000" by (simp add: micros_def)
qed

definition demo_lease :: lease where
  "demo_lease = \<lparr>ls_owner = ''o'', ls_lease_id = ''l1'', ls_expires_at = ''60000001'', ls_generation = 1\<rparr>"

definition demo_claimed :: snapshot where
  "demo_claimed = bump ''1'' (install ''t'' demo_lease demo_snapshot)"

definition demo_token :: token where
  "demo_token = token_of ''r'' ''t'' demo_lease"

definition demo_disk2 :: disk where
  "demo_disk2 = \<lparr>dk_primary = seal (\<lambda>_. ''c'') demo_claimed, dk_backup = seal (\<lambda>_. ''c'') demo_snapshot\<rparr>"

lemma demo_known: "known_tasks demo_snapshot = {''t''}"
  by (auto simp: known_tasks_def demo_snapshot_def fresh_snapshot_def demo_plan_def str_keyed_def)

lemma demo_env_fields [simp]: "st_env demo_store = demo_env" "se_parse demo_env = int_of_text" "se_format demo_env = int_text"
  "st_run demo_store = ''r''" "st_checksum demo_store = (\<lambda>_. ''c'')"
  by (simp_all add: demo_store_def demo_env_def)

lemma demo_valid_file:
  "validate_file demo_env (\<lambda>_. ''c'') ''r'' (seal (\<lambda>_. ''c'') demo_snapshot) = Some demo_snapshot"
proof -
  have "cfg_inv demo_store (demo_disk, [demo_snapshot])" using demo_init rs.inv_start by (fastforce simp: run_inv_def unread_def)
  then have "snap_ok demo_store (sn_generation demo_snapshot) demo_snapshot" by (simp add: cfg_inv_def)
  from validate_seal [OF this] show ?thesis by simp
qed

lemma demo_current: "valid_snapshot demo_env (\<lambda>_. ''c'') ''r'' demo_disk = Some demo_snapshot"
  using run_current [OF reachable_run [OF run_demo_reachable]] by simp

lemma demo_claim:
  "store_claim demo_store ''t'' ''o'' 60 None ''l1'' ''1'' ''1'' demo_disk = Inr (demo_token, demo_claimed,
     [demo_disk, demo_disk\<lparr>dk_backup := dk_primary demo_disk\<rparr>, demo_disk2])"
proof -
  have sn: "sn_owner demo_snapshot = ''o''" "sn_generation demo_snapshot = 0" "sn_leases demo_snapshot = []"
    "\<not> terminal_task demo_snapshot ''t''"
    by (simp_all add: demo_snapshot_def fresh_snapshot_def terminal_task_def)
  have ch: "claim_change demo_env ''t'' ''o'' 60 ''1'' ''l1'' demo_snapshot = Inr (install ''t'' demo_lease demo_snapshot)"
    by (simp add: claim_change_def demo_known sn clock_value_def plus_seconds_def demo_times install_def demo_lease_def)
  have own: "owned_snapshot demo_store ''o'' demo_disk = Inr demo_snapshot"
    by (simp add: owned_snapshot_def demo_current sn)
  have "validate_file demo_env (\<lambda>_. ''c'') ''r'' (dk_primary demo_disk) = Some demo_snapshot"
    using demo_valid_file by (simp add: demo_disk_def)
  then have pr: "promote demo_env (\<lambda>_. ''c'') ''r'' demo_disk = demo_disk\<lparr>dk_backup := dk_primary demo_disk\<rparr>"
    by (simp add: promote_def)
  have w: "write_states demo_env (\<lambda>_. ''c'') ''r'' demo_claimed demo_disk
      = Inr [demo_disk, demo_disk\<lparr>dk_backup := dk_primary demo_disk\<rparr>, demo_disk2]"
    by (simp add: write_states_def pr Let_def) (simp add: demo_disk_def demo_disk2_def seal_def)
  have "store_mutate demo_store ''o'' None (claim_change demo_env ''t'' ''o'' 60 ''1'' ''l1'') ''1'' demo_disk
      = Inr (demo_claimed, [demo_disk, demo_disk\<lparr>dk_backup := dk_primary demo_disk\<rparr>, demo_disk2])"
    using w by (simp add: store_mutate_def own expect_generation_def ch clock_value_def demo_times demo_claimed_def)
  moreover have "dget (sn_leases demo_claimed) ''t'' = Some demo_lease" by (simp add: demo_claimed_def bump_def)
  ultimately show ?thesis by (simp add: store_claim_def demo_ids demo_token_def)
qed

lemma demo_claimed_reachable: "reachable (run_init demo_store) (store_step demo_store) (demo_disk2, [demo_claimed, demo_snapshot])"
proof (rule reachable_next [OF run_demo_reachable])
  have ne: "demo_claimed \<noteq> demo_snapshot"
    by (auto simp: demo_claimed_def bump_def install_def dest: arg_cong [where f = sn_generation])
  have "store_step demo_store (demo_disk, [demo_snapshot]) (demo_disk2,
      landed [demo_disk, demo_disk\<lparr>dk_backup := dk_primary demo_disk\<rparr>, demo_disk2] demo_disk2 demo_claimed [demo_snapshot])"
    by (rule do_claim [OF demo_claim demo_ids(2)]) simp
  then show "store_step demo_store (demo_disk, [demo_snapshot]) (demo_disk2, [demo_claimed, demo_snapshot])"
    using ne by (simp add: landed_def)
qed

text \<open>
  C17: fencing. In a run that was created without an initial state, once a lease has been renewed, after any further run of the store's operations the token
  it had before can be neither used nor renewed; a commit with it is refused, or it is a replay for a task
  whose report is already on record, and then it returns the snapshot that loading returns and writes
  nothing.
\<close>

theorem renewed_token_fenced:
  assumes "reachable (run_init st) (store_step st) (d, hist)" and "ID_OK lid"
    and rn: "store_renew st i tk owner secs lid now now2 d = Inr (tk', s, ds)"
    and run: "(store_step st)\<^sup>*\<^sup>* (last ds, s # hist) (d2, hist2)"
  shows "(\<exists>e. store_use st i tk own t1 d2 = Inl e) \<and> (\<exists>e. store_renew st i tk own sc li t1 t2 d2 = Inl e)
    \<and> (\<forall>s' ds'. store_commit st i tk own report status t1 t2 d2 = Inr (s', ds') \<longrightarrow>
         store_load (st_env st) (st_checksum st) (st_run st) d2 = Inr s' \<and> ds' = [d2] \<and> dget (sn_reports s') i \<noteq> None)"
proof -
  have inv: "run_inv st (d, hist)" using assms(1) by (rule reachable_run)
  have hist: "hist \<noteq> []" by (rule renew_loaded [OF rn inv])
  let ?s0 = "hd hist"
  have r: "(\<exists>l. dget (sn_leases ?s0) i = Some l \<and> ls_generation l = tn_generation tk) \<and> sn_generation s = sn_generation ?s0 + 1
      \<and> (\<forall>l. dget (sn_leases s) i = Some l \<longrightarrow> ls_generation l = sn_generation ?s0 + 1)"
    by (rule renew_result [OF rn run_current [OF inv hist]])
  then obtain l where "dget (sn_leases ?s0) i = Some l" "ls_generation l = tn_generation tk" by blast
  then have le: "tn_generation tk \<le> sn_generation ?s0" using snap_ok_lease [OF run_ok [OF inv hist], of i l] by simp
  with r have f: "fenced i (tn_generation tk) s" by (auto simp: fenced_def)
  have ne: "ds \<noteq> []" using rn by (auto simp: store_renew_def store_mutate_def result_simps write_states_def Let_def)
  have "s \<noteq> hd hist" using r by auto
  then have "store_step st (d, hist) (last ds, s # hist)"
    using do_renew [OF rn assms(2) last_in_set [OF ne], of hist] by (simp add: landed_def)
  then have "run_inv st (last ds, s # hist)" using inv rs.inv_step by blast
  from runs_follow [OF run this, of "fenced i (tn_generation tk)"] fenced_follows f
  have f2: "fenced i (tn_generation tk) (hd hist2)" and inv2: "run_inv st (d2, hist2)" by auto
  have "hist2 \<noteq> []" using runs_nonempty [OF run] by simp
  then have cur2: "current st d2 = Some (hd hist2)" by (rule run_current [OF inv2])
  from use_fenced [OF cur2 f2] renew_fenced [OF cur2 f2] commit_fenced [OF _ cur2 f2] cur2
  show ?thesis unfolding load_Inr by blast
qed

text \<open>The old token of the example run is refused after a renewal.\<close>

lemma demo_renew_ok: "\<exists>tk' s ds. store_renew demo_store ''t'' demo_token ''o'' 60 ''l2'' ''2'' ''2'' demo_disk2 = Inr (tk', s, ds)"
proof -
  have cur: "valid_snapshot demo_env (\<lambda>_. ''c'') ''r'' demo_disk2 = Some demo_claimed"
    using run_current [OF reachable_run [OF demo_claimed_reachable]] by simp
  have cl: "sn_owner demo_claimed = ''o''" "sn_run_id demo_claimed = ''r''" "dget (sn_leases demo_claimed) ''t'' = Some demo_lease"
    "int_of_text ''60000001'' = Some 60000001"
    using int_of_text_int_text [of 60000001]
    by (simp_all add: demo_claimed_def bump_def demo_snapshot_def fresh_snapshot_def demo_times install_def dict_simps)
  have "check_token demo_env demo_claimed ''t'' demo_token ''2'' = Inr demo_lease"
    by (simp add: check_token_def validate_token_shape_def cl clock_value_def demo_times demo_token_def token_of_def demo_lease_def)
  then obtain c where ch: "renew_change demo_env ''t'' demo_token 60 ''2'' ''l2'' demo_claimed = Inr c"
    and l: "dget (sn_leases c) ''t'' \<noteq> None"
    by (auto simp: renew_change_def clock_value_def plus_seconds_def demo_times dict_simps)
  obtain ds where w: "write_states demo_env (\<lambda>_. ''c'') ''r'' (bump ''2'' c) demo_disk2 = Inr ds"
    by (simp add: write_states_def demo_disk2_def seal_def Let_def)
  have "owned_snapshot demo_store ''o'' demo_disk2 = Inr demo_claimed" by (simp add: owned_snapshot_def cur cl)
  with ch w l show ?thesis
    by (auto simp: store_renew_def store_mutate_def expect_generation_def clock_value_def demo_times bump_def split: option.splits)
qed

theorem renewed_token_fenced_witness:
  "\<exists>tk' s ds. store_renew demo_store ''t'' demo_token ''o'' 60 ''l2'' ''2'' ''2'' demo_disk2 = Inr (tk', s, ds)
     \<and> (\<exists>e. store_use demo_store ''t'' demo_token ''o'' ''3'' (last ds) = Inl e)"
proof -
  obtain tk' s ds where rn: "store_renew demo_store ''t'' demo_token ''o'' 60 ''l2'' ''2'' ''2'' demo_disk2 = Inr (tk', s, ds)"
    using demo_renew_ok by blast
  have "(store_step demo_store)\<^sup>*\<^sup>* (last ds, s # [demo_claimed, demo_snapshot]) (last ds, s # [demo_claimed, demo_snapshot])" by simp
  from renewed_token_fenced [OF demo_claimed_reachable demo_ids(3) rn this] rn show ?thesis by blast
qed

text \<open>
  C18: reports are final. In a run that was created without an initial state, a report in the snapshot that loading returns is, after every later run of the
  store's operations (events appended included), still in the snapshot that loading returns, unchanged; the
  task can then be neither claimed nor moved to another status, and a commit for it that succeeds returns
  that snapshot and writes nothing.
\<close>

theorem report_final:
  assumes "reachable (run_init st) (store_step st) (d, hist)"
    and "store_load (st_env st) (st_checksum st) (st_run st) d = Inr s" and "dget (sn_reports s) i = Some r"
    and "(store_step st)\<^sup>*\<^sup>* (d, hist) (d2, hist2)"
  shows "\<exists>s2. store_load (st_env st) (st_checksum st) (st_run st) d2 = Inr s2 \<and> dget (sn_reports s2) i = Some r
    \<and> (\<forall>x. store_claim st i own secs expected lid t1 t2 d2 \<noteq> Inr x)
    \<and> (\<forall>x. store_update_task_status st i status own expected t1 d2 \<noteq> Inr x)
    \<and> (\<forall>s' ds'. store_commit st i tk own report status t1 t2 d2 = Inr (s', ds') \<longrightarrow> s' = s2 \<and> ds' = [d2])"
proof -
  have inv: "run_inv st (d, hist)" using assms(1) by (rule reachable_run)
  have h: "hist \<noteq> []" "s = hd hist" using run_loaded [OF inv] assms(2) by (auto simp: load_Inr)
  from runs_follow [OF assms(4) inv, of "\<lambda>s. dget (sn_reports s) i = Some r"] report_follows assms(3) h(2)
  have r2: "dget (sn_reports (hd hist2)) i = Some r" and inv2: "run_inv st (d2, hist2)" by auto
  have h2: "hist2 \<noteq> []" using runs_nonempty [OF assms(4)] h(1) by simp
  have cur2: "current st d2 = Some (hd hist2)" by (rule run_current [OF inv2 h2])
  have "rc_status r \<in> set REPORT_STATUSES"
    using run_ok [OF inv2 h2] r2 by (auto simp: snap_ok_def validate_def valid_report_record_def dest: ditems_allD)
  then have "terminal_task (hd hist2) i" using r2 by (auto simp: terminal_task_def REPORT_STATUSES_def TERMINAL_TASK_STATUSES_def)
  then have "store_claim st i own secs expected lid t1 t2 d2 \<noteq> Inr x" for x
    using cur2 by (auto simp: store_claim_def store_mutate_def claim_change_def result_simps owned_Inr)
  moreover have "store_update_task_status st i status own expected t1 d2 \<noteq> Inr x" for x
    using cur2 r2 by (auto simp: store_update_task_status_def store_mutate_def task_status_change_def result_simps owned_Inr)
  moreover have "s' = hd hist2 \<and> ds' = [d2]" if "store_commit st i tk own report status t1 t2 d2 = Inr (s', ds')" for s' ds'
    using commit_result [OF that cur2] r2 by auto
  ultimately show ?thesis using r2 cur2 by (intro exI [of _ "hd hist2"]) (simp add: load_Inr)
qed

definition demo_report :: pymap where
  "demo_report = str_keyed [(''status'', PStr ''blocked''), (''reason'', PStr ''x'')]"

lemma demo_redacted: "redact_map demo_report = Inr demo_report"
  by code_simp

lemma demo_commit_ok: "\<exists>s ds. store_commit demo_store ''t'' demo_token ''o'' demo_report ''blocked'' ''2'' ''2'' demo_disk2 = Inr (s, ds)
    \<and> dget (sn_reports s) ''t'' \<noteq> None \<and> ds \<noteq> []"
proof -
  have cur: "valid_snapshot demo_env (\<lambda>_. ''c'') ''r'' demo_disk2 = Some demo_claimed"
    using run_current [OF reachable_run [OF demo_claimed_reachable]] by simp
  have cl: "sn_owner demo_claimed = ''o''" "sn_run_id demo_claimed = ''r''" "dget (sn_leases demo_claimed) ''t'' = Some demo_lease"
    "dget (sn_reports demo_claimed) ''t'' = None" "int_of_text ''60000001'' = Some 60000001"
    using int_of_text_int_text [of 60000001]
    by (simp_all add: demo_claimed_def bump_def demo_snapshot_def fresh_snapshot_def demo_times install_def dict_simps)
  have shape: "validate_token_shape demo_env demo_claimed ''t'' demo_token = Inr ()"
    by (simp add: validate_token_shape_def cl demo_token_def token_of_def demo_lease_def)
  have chk: "check_token demo_env demo_claimed ''t'' demo_token ''2'' = Inr demo_lease"
    by (simp add: check_token_def shape cl clock_value_def demo_times) (simp add: demo_token_def token_of_def demo_lease_def)
  have vr: "valid_report demo_env demo_report ''blocked''"
    by (simp add: valid_report_def demo_report_def str_keyed_def REPORT_FIELDS_def filled_def)
  obtain c where ch: "commit_change demo_env ''t'' demo_token demo_report ''blocked'' ''2'' demo_claimed = Inr (Some c)"
    and rep: "dget (sn_reports c) ''t'' \<noteq> None"
    by (simp add: commit_change_def shape chk cl dict_simps Let_def)
  obtain ds where w: "write_states demo_env (\<lambda>_. ''c'') ''r'' (bump ''2'' c) demo_disk2 = Inr ds" and ne: "ds \<noteq> []"
    by (simp add: write_states_def demo_disk2_def seal_def Let_def)
  have "owned_snapshot demo_store ''o'' demo_disk2 = Inr demo_claimed" by (simp add: owned_snapshot_def cur cl)
  with ch w ne rep show ?thesis
    by (simp add: store_commit_def demo_redacted vr REPORT_STATUSES_def clock_value_def demo_times) (simp add: bump_def)
qed

theorem report_final_witness:
  "\<exists>s ds. store_commit demo_store ''t'' demo_token ''o'' demo_report ''blocked'' ''2'' ''2'' demo_disk2 = Inr (s, ds)
     \<and> (\<forall>x. store_claim demo_store ''t'' ''o'' 60 None ''l2'' ''3'' ''3'' (last ds) \<noteq> Inr x)"
proof -
  obtain s ds r where cm: "store_commit demo_store ''t'' demo_token ''o'' demo_report ''blocked'' ''2'' ''2'' demo_disk2 = Inr (s, ds)"
    and rep: "dget (sn_reports s) ''t'' = Some r" and ne: "ds \<noteq> []"
    using demo_commit_ok by blast
  let ?h = "landed ds (last ds) s [demo_claimed, demo_snapshot]"
  have "dget (sn_reports demo_claimed) ''t'' = None"
    by (simp add: demo_claimed_def bump_def demo_snapshot_def fresh_snapshot_def)
  then have "s \<noteq> demo_claimed" using rep by auto
  then have h: "hd ?h = s" by (simp add: landed_def)
  have "store_step demo_store (demo_disk2, [demo_claimed, demo_snapshot]) (last ds, ?h)"
    by (rule do_commit [OF cm last_in_set [OF ne]])
  then have rch: "reachable (run_init demo_store) (store_step demo_store) (last ds, ?h)"
    by (rule reachable_next [OF demo_claimed_reachable])
  have "?h \<noteq> []" by (simp add: landed_def)
  then have ld: "store_load (st_env demo_store) (st_checksum demo_store) (st_run demo_store) (last ds) = Inr s"
    unfolding load_Inr using run_current [OF reachable_run [OF rch]] h by simp
  from report_final [OF rch ld rep rtranclp.rtrancl_refl] cm show ?thesis by blast
qed

text \<open>The number of leases after an installation, and what the tokens stand for.\<close>

lemma install_length: "length (sn_leases (install i l s)) \<le> Suc (length (sn_leases s))"
  by (simp add: install_def length_dset)

definition install_all :: "string \<Rightarrow> string \<Rightarrow> int \<Rightarrow> (string \<times> string) list \<Rightarrow> snapshot \<Rightarrow> snapshot" where
  "install_all owner e g = fold (\<lambda>(i, lid). install i \<lparr>ls_owner = owner, ls_lease_id = lid, ls_expires_at = e, ls_generation = g\<rparr>)"

lemma install_all_length: "length (sn_leases (install_all owner e g ps s)) \<le> length (sn_leases s) + length ps"
proof (induction ps arbitrary: s)
  case (Cons p ps)
  obtain i lid where "p = (i, lid)" by (cases p)
  with Cons [of "install i \<lparr>ls_owner = owner, ls_lease_id = lid, ls_expires_at = e, ls_generation = g\<rparr> s"] show ?case
    using install_length [of i _ s] by (fastforce simp: install_all_def intro: order_trans)
qed (simp add: install_all_def)

lemma install_all_dget: "distinct (map fst ps) \<Longrightarrow> dget (sn_leases (install_all owner e g ps s)) i =
    (case map_of ps i of Some lid \<Rightarrow> Some \<lparr>ls_owner = owner, ls_lease_id = lid, ls_expires_at = e, ls_generation = g\<rparr>
       | None \<Rightarrow> dget (sn_leases s) i)"
proof (induction ps arbitrary: s)
  case (Cons p ps)
  then show ?case
    by (cases p) (auto simp: install_all_def map_of_eq_None_iff image_iff split: option.splits dest: map_of_SomeD)
qed (simp add: install_all_def)

lemma install_all_rest: "sn_generation (install_all owner e g ps s) = sn_generation s"
  by (induction ps arbitrary: s) (auto simp: install_all_def)

lemma install_leases_all: "install_leases owner e lids chosen s = install_all owner e (sn_generation s + 1) (zip chosen lids) s"
  by (simp add: install_leases_alt install_all_def)

lemma claim_many_change_tokens:
  assumes ch: "claim_many_change env ids owner maxp secs select now lids s = Inr (r, tks)" and ne: "tks \<noteq> []"
  defines "keep \<equiv> filter (\<lambda>(i, l). \<not> ls_expires_at l \<le> now) (sn_leases s)"
  obtains chosen e where "0 < maxp - int (length keep)" and "length chosen \<le> nat (maxp - int (length keep))"
    and "distinct chosen" and "set chosen \<subseteq> set ids" and "\<forall>i \<in> set chosen. dget keep i = None"
    and "r = Some (install_leases owner e lids chosen (s\<lparr>sn_leases := keep\<rparr>))"
    and "tks = map (\<lambda>(i, lid). \<lparr>tn_run_id = sn_run_id s, tn_task_id = i, tn_lease_id = lid,
          tn_generation = sn_generation s + 1, tn_expires_at = e\<rparr>) (zip chosen lids)"
proof -
  let ?cap = "maxp - int (length keep)"
  let ?av = "filter (\<lambda>i. i \<notin> set (dkeys keep)) ids"
  from ch obtain chosen where cap: "\<not> ?cap \<le> 0"
    and ok: "\<not> (length chosen > nat ?cap \<or> \<not> set chosen \<subseteq> set ?av \<or> \<not> distinct chosen)"
    and res: "(if chosen = [] then Inr (if length keep < length (sn_leases s) then Some (s\<lparr>sn_leases := keep\<rparr>) else None, [])
        else bindR (plus_seconds env now secs) (\<lambda>expiry.
          Inr (Some (install_leases owner expiry lids chosen (s\<lparr>sn_leases := keep\<rparr>)),
             map (\<lambda>(i, lid). \<lparr>tn_run_id = sn_run_id s, tn_task_id = i, tn_lease_id = lid,
                        tn_generation = sn_generation s + 1, tn_expires_at = expiry\<rparr>) (zip chosen lids)))) = Inr (r, tks)"
    unfolding claim_many_change_def Let_def keep_def by (simp only: result_simps clock_value_Inr) blast
  from res ne have "chosen \<noteq> []" by (auto split: if_splits)
  with res obtain e where "r = Some (install_leases owner e lids chosen (s\<lparr>sn_leases := keep\<rparr>))"
    and "tks = map (\<lambda>(i, lid). \<lparr>tn_run_id = sn_run_id s, tn_task_id = i, tn_lease_id = lid,
          tn_generation = sn_generation s + 1, tn_expires_at = e\<rparr>) (zip chosen lids)"
    by (auto simp: result_simps)
  moreover have "\<forall>i \<in> set chosen. dget keep i = None" "set chosen \<subseteq> set ids" using ok by (auto simp: dget_None_iff)
  ultimately show thesis using cap ok by - (rule that [of chosen e], auto)
qed

text \<open>
  C19: \<open>claim_many\<close> respects capacity and running work, whatever the selector does. If, in a
  run that was created without an initial state, it hands out tokens, then afterwards the run has at most \<open>max_parallel\<close> leases; the tokens are for different tasks
  among those asked for; no such task had an unexpired lease; each token is the one of the lease now
  stored; and every other unexpired lease is still in place.
\<close>

theorem claim_many_bounded:
  assumes "reachable (run_init st) (store_step st) (d, hist)"
    and "store_claim_many st ids owner maxp secs select lids now now2 d = Inr (tks, s, ds)" and "tks \<noteq> []"
  shows "int (length (sn_leases s)) \<le> maxp
    \<and> distinct (map tn_task_id tks) \<and> set (map tn_task_id tks) \<subseteq> set ids
    \<and> (\<forall>tk \<in> set tks. (\<forall>l. dget (sn_leases (hd hist)) (tn_task_id tk) = Some l \<longrightarrow> ls_expires_at l \<le> now)
         \<and> (\<exists>l. dget (sn_leases s) (tn_task_id tk) = Some l \<and> tk = token_of (sn_run_id (hd hist)) (tn_task_id tk) l))
    \<and> (\<forall>i l. dget (sn_leases (hd hist)) i = Some l \<and> \<not> ls_expires_at l \<le> now \<longrightarrow> dget (sn_leases s) i = Some l)"
proof -
  have inv: "run_inv st (d, hist)" using assms(1) by (rule reachable_run)
  have hist: "hist \<noteq> []" by (rule claim_many_loaded [OF assms(2) inv])
  let ?s0 = "hd hist"
  let ?keep = "filter (\<lambda>(i, l). \<not> ls_expires_at l \<le> now) (sn_leases ?s0)"
  let ?s1 = "?s0\<lparr>sn_leases := ?keep\<rparr>"
  have wf: "dict_wf (sn_leases ?s0)" using run_ok [OF inv hist] by (simp add: snap_ok_def)
  from assms(2,3) run_current [OF inv hist] obtain r stamp
    where ch: "claim_many_change (st_env st) ids owner maxp secs select now lids ?s0 = Inr (r, tks)"
      and s: "\<And>c. r = Some c \<Longrightarrow> \<exists>stamp. s = bump stamp c"
    by (auto simp: store_claim_many_def result_simps owned_Inr split: if_splits option.splits)
  from ch assms(3) obtain chosen e where cap: "0 < maxp - int (length ?keep)"
    and len: "length chosen \<le> nat (maxp - int (length ?keep))" and ds: "distinct chosen" "set chosen \<subseteq> set ids"
    and fr: "\<forall>i \<in> set chosen. dget ?keep i = None" and r: "r = Some (install_leases owner e lids chosen ?s1)"
    and tks: "tks = map (\<lambda>(i, lid). \<lparr>tn_run_id = sn_run_id ?s0, tn_task_id = i, tn_lease_id = lid,
          tn_generation = sn_generation ?s0 + 1, tn_expires_at = e\<rparr>) (zip chosen lids)"
    by (rule claim_many_change_tokens)
  define ps where "ps = zip chosen lids"
  define c where "c = install_all owner e (sn_generation ?s0 + 1) ps ?s1"
  have sl: "sn_leases s = sn_leases c" using s [OF r] by (auto simp: bump_def install_leases_all c_def ps_def)
  have dps: "distinct (map fst ps)" unfolding ps_def map_fst_zip_take using ds(1) by simp
  have sub: "fst ` set ps \<subseteq> set chosen" by (auto simp: ps_def dest: set_zip_leftD)
  have keep: "dget ?keep i = (case dget (sn_leases ?s0) i of None \<Rightarrow> None | Some l \<Rightarrow> if \<not> ls_expires_at l \<le> now then Some l else None)" for i
    by (simp add: dget_filter [OF wf] split: option.split)
  have get: "dget (sn_leases s) i = (case map_of ps i of Some lid \<Rightarrow> Some \<lparr>ls_owner = owner, ls_lease_id = lid, ls_expires_at = e,
      ls_generation = sn_generation ?s0 + 1\<rparr> | None \<Rightarrow> dget ?keep i)" for i
    unfolding sl c_def install_all_dget [OF dps] by (cases "map_of ps i") simp_all
  have "length (sn_leases c) \<le> length ?keep + length ps" unfolding c_def using install_all_length [of owner e _ ps ?s1] by simp
  moreover have "length ps \<le> length chosen" by (simp add: ps_def)
  ultimately have "int (length (sn_leases s)) \<le> maxp" using len cap unfolding sl by linarith
  moreover have ids: "map tn_task_id tks = map fst ps" unfolding tks ps_def by (auto simp: case_prod_beta)
  moreover have "(\<forall>l. dget (sn_leases ?s0) (tn_task_id tk) = Some l \<longrightarrow> ls_expires_at l \<le> now)
      \<and> (\<exists>l. dget (sn_leases s) (tn_task_id tk) = Some l \<and> tk = token_of (sn_run_id ?s0) (tn_task_id tk) l)" if "tk \<in> set tks" for tk
  proof -
    from that obtain i lid where p: "(i, lid) \<in> set ps" and tk: "tk = \<lparr>tn_run_id = sn_run_id ?s0, tn_task_id = i, tn_lease_id = lid,
        tn_generation = sn_generation ?s0 + 1, tn_expires_at = e\<rparr>" unfolding tks ps_def by auto
    have "map_of ps i = Some lid" using p dps by simp
    moreover have "dget ?keep i = None" using fr sub p by force
    ultimately show ?thesis using get [of i] keep [of i] by (auto simp: tk token_of_def split: option.splits if_splits)
  qed
  moreover have "dget (sn_leases s) i = Some l" if "dget (sn_leases ?s0) i = Some l" "\<not> ls_expires_at l \<le> now" for i l
  proof -
    have k: "dget ?keep i = Some l" using keep [of i] that by simp
    then have "map_of ps i = None" using fr sub by (force simp: map_of_eq_None_iff)
    with k get [of i] show ?thesis by simp
  qed
  ultimately show ?thesis using dps sub ds(2) by auto
qed

lemma demo_claim_many_change:
  "claim_many_change demo_env [''t''] ''o'' 1 60 None ''1'' [''l1''] demo_snapshot
     = Inr (Some (install_leases ''o'' ''60000001'' [''l1''] [''t''] demo_snapshot),
         [\<lparr>tn_run_id = ''r'', tn_task_id = ''t'', tn_lease_id = ''l1'', tn_generation = 1, tn_expires_at = ''60000001''\<rparr>])"
proof -
  have sn: "sn_generation demo_snapshot = 0" "sn_leases demo_snapshot = []" "sn_run_id demo_snapshot = ''r''"
    "\<not> terminal_task demo_snapshot ''t''"
    by (simp_all add: demo_snapshot_def fresh_snapshot_def terminal_task_def demo_store_def)
  have "clock_value demo_env ''1'' = Inr ''1''" by (simp add: clock_value_def demo_times)
  moreover have "plus_seconds demo_env ''1'' 60 = Inr ''60000001''" by (simp add: plus_seconds_def demo_times)
  moreover have upd: "demo_snapshot\<lparr>sn_leases := []\<rparr> = demo_snapshot" by (simp add: demo_snapshot_def fresh_snapshot_def)
  ultimately show ?thesis
    by (simp only: claim_many_change_def sn filter.simps dkeys_def list.map) (simp add: demo_known sn dkeys_def Let_def upd)
qed

lemma demo_claim_many:
  "\<exists>tks s ds. store_claim_many demo_store [''t''] ''o'' 1 60 None [''l1''] ''1'' ''1'' demo_disk = Inr (tks, s, ds) \<and> length tks = 1"
proof -
  have own: "owned_snapshot demo_store ''o'' demo_disk = Inr demo_snapshot"
    by (simp add: owned_snapshot_def demo_current demo_snapshot_def fresh_snapshot_def)
  let ?c = "install_leases ''o'' ''60000001'' [''l1''] [''t''] demo_snapshot"
  obtain ds where w: "write_states demo_env (\<lambda>_. ''c'') ''r'' (bump ''1'' ?c) demo_disk = Inr ds"
    by (simp add: write_states_def demo_disk_def seal_def Let_def)
  have "clock_value demo_env ''1'' = Inr ''1''" by (simp add: clock_value_def demo_times)
  then show ?thesis
    by (simp add: store_claim_many_def demo_ids own demo_claim_many_change w demo_env_fields)
qed

theorem claim_many_bounded_witness:
  "\<exists>tks s ds. store_claim_many demo_store [''t''] ''o'' 1 60 None [''l1''] ''1'' ''1'' demo_disk = Inr (tks, s, ds)
     \<and> length (sn_leases s) \<le> 1 \<and> set (map tn_task_id tks) \<subseteq> {''t''}"
proof -
  obtain tks s ds where cm: "store_claim_many demo_store [''t''] ''o'' 1 60 None [''l1''] ''1'' ''1'' demo_disk = Inr (tks, s, ds)"
    and "length tks = 1"
    using demo_claim_many by blast
  then have "tks \<noteq> []" by auto
  from claim_many_bounded [OF run_demo_reachable cm this] cm show ?thesis by auto
qed

text \<open>
  \<open>append_event\<close> can lose what it acknowledges. It does not check an event as reading back does (for
  example an \<open>event_id\<close> that is not an identifier): if the appended event is not valid, the call succeeds
  and returns a snapshot that contains the event, but the file it has written is rejected, and the next
  reader gets the snapshot from before the call.
\<close>

theorem append_event_lost:
  assumes "reachable (run_init st) (store_step st) (d, hist)"
    and "store_append_event st event owner expected now d = Inr (s, ds)" and "\<not> valid_event (last (sn_events s))"
  shows "store_load (st_env st) (st_checksum st) (st_run st) (last ds) = Inr (hd hist)
    \<and> length (sn_events s) = Suc (length (sn_events (hd hist))) \<and> sn_generation s = sn_generation (hd hist) + 1"
proof -
  have inv: "run_inv st (d, hist)" using assms(1) by (rule reachable_run)
  note out = append_event_result [OF assms(2) inv]
  have "run_inv st (last ds, event_landed ds (last ds) s hist)"
    by (rule rs.inv_step [OF inv do_append_event [OF assms(2) last_in_set]]) (use out in simp)
  then have "current st (last ds) = Some (hd hist)"
    using run_current [of st "last ds" hist] out(1) assms(3) by (simp add: event_landed_def)
  then show ?thesis using out by (simp add: load_Inr)
qed

definition demo_event :: pymap where
  "demo_event = str_keyed [(''event_id'', PStr ''a b'')]"

lemma demo_event_redacted: "redact_map demo_event = Inr demo_event"
  by code_simp

lemma demo_event_bad: "\<not> ID_OK ''a b''"
  by (simp add: ID_OK_def ID_RE_def fullmatch_head_star ascii_alnum_def in_range_def one_of_def)

theorem append_event_lost_witness:
  "\<exists>s ds. store_append_event demo_store demo_event ''o'' None ''1'' demo_disk = Inr (s, ds)
     \<and> store_load demo_env (\<lambda>_. ''c'') ''r'' (last ds) = Inr demo_snapshot \<and> sn_generation s = 1"
proof -
  have sn: "sn_owner demo_snapshot = ''o''" "sn_generation demo_snapshot = 0" "sn_events demo_snapshot = []"
    by (simp_all add: demo_snapshot_def fresh_snapshot_def)
  have own: "owned_snapshot demo_store ''o'' demo_disk = Inr demo_snapshot"
    by (simp add: owned_snapshot_def demo_current sn)
  obtain c where ch: "append_event_change demo_env demo_event demo_snapshot = Inr c"
    and ev: "mget_or (last (sn_events c)) ''event_id'' PNone = PStr ''a b''"
    by (simp add: append_event_change_def demo_event_redacted) (simp add: demo_event_def str_keyed_def Let_def)
  obtain ds where w: "write_states demo_env (\<lambda>_. ''c'') ''r'' (bump ''1'' c) demo_disk = Inr ds"
    by (simp add: write_states_def demo_disk_def seal_def Let_def)
  have ap: "store_append_event demo_store demo_event ''o'' None ''1'' demo_disk = Inr (bump ''1'' c, ds)"
    using w by (simp add: store_append_event_def store_mutate_def own expect_generation_def ch clock_value_def demo_times)
  have "\<not> valid_event (last (sn_events (bump ''1'' c)))"
    using ev demo_event_bad by (simp add: valid_event_def bump_def)
  from append_event_lost [OF run_demo_reachable ap this] ap sn show ?thesis by auto
qed

end
