(* ===== verification/Scheduler.thy ===== *)
theory Scheduler
  imports RunStoreProperties
begin

text \<open>
  Lease-backed task selection, \<open>scripts/pd_fleet/scheduler.py\<close>. A scheduler holds no state of the run:
  it reads the snapshot of the run store, computes the tasks that may start and claims them through
  \<open>claim_many\<close>, whose selector checks again under the lock that the claimed tasks own disjoint paths.
  The component shows that this keeps the files of all leased tasks disjoint, whatever schedulers and
  workers do and wherever they crash, but for tasks that own the whole repository as \<open>.\<close>.
\<close>

section \<open>Owned paths\<close>

text \<open>\<open>PurePosixPath(value.replace(backslash, "/"))\<close> of a relative path: its parts and its text.\<close>

definition posix_parts :: "string \<Rightarrow> string list" where
  "posix_parts value = filter (\<lambda>p. p \<noteq> [] \<and> p \<noteq> ''.'')
     (split_on (CHR ''/'') (map (\<lambda>c. if c = CHR 0x5C then CHR ''/'' else c) value))"

definition posix_text :: "string list \<Rightarrow> string" where
  "posix_text parts = (if parts = [] then ''.'' else join ''/'' parts)"

definition sched_path :: "pyval \<Rightarrow> string sres" where
  "sched_path v = (case as_str v of
       None \<Rightarrow> Inl SchedulerError
     | Some s \<Rightarrow> if s = [] \<or> startswith s ''/'' \<or> startswith s [CHR 0x5C] then Inl SchedulerError
         else if ''..'' \<in> set (posix_parts s) then Inl SchedulerError
         else Inr (posix_text (posix_parts s)))"

definition path_values :: "pymap \<Rightarrow> string \<Rightarrow> pyval list sres" where
  "path_values task key = (case mget task key of
       None \<Rightarrow> Inr []
     | Some PNone \<Rightarrow> Inr []
     | Some (PStr s) \<Rightarrow> Inr (if s = [] then [] else [PStr s])
     | Some v \<Rightarrow> (case as_sequence v of None \<Rightarrow> Inl SchedulerError | Some xs \<Rightarrow> Inr xs))"

definition sched_paths :: "pymap \<Rightarrow> string list sres" where
  "sched_paths task =
     bindR (path_values task ''allowed_paths'') (\<lambda>xs. bindR (mapR sched_path xs) (\<lambda>ps.
     bindR (path_values task ''paths'') (\<lambda>ys. bindR (mapR sched_path ys) (\<lambda>qs.
     Inr (remdups (ps @ qs))))))"

definition sched_overlap :: "string list \<Rightarrow> string list \<Rightarrow> bool" where
  "sched_overlap left right \<longleftrightarrow>
     (\<exists>a \<in> set left. \<exists>b \<in> set right. a = b \<or> startswith a (b @ ''/'') \<or> startswith b (a @ ''/''))"

section \<open>Ready tasks\<close>

definition sched_deps :: "pymap \<Rightarrow> pyval" where
  "sched_deps task = (case mget task ''depends_on'' of Some v \<Rightarrow> v | None \<Rightarrow> mget_or task ''dependencies'' (PTuple []))"

definition validate_task_dependencies :: "pymap \<Rightarrow> unit sres" where
  "validate_task_dependencies task = (case as_sequence (sched_deps task) of
       None \<Rightarrow> Inl SchedulerError
     | Some deps \<Rightarrow> guardR (\<forall>v \<in> set deps. is_str v) SchedulerError)"

definition sched_wave :: "pymap \<Rightarrow> int option" where
  "sched_wave task = (case as_int (mget_or task ''wave'' (PInt 0)) of
       None \<Rightarrow> None | Some n \<Rightarrow> if n < 0 then None else Some n)"

text \<open>The plan's list of tasks; a dictionary or a string iterates over strings, which are no tasks.\<close>

definition plan_tasks :: "snapshot \<Rightarrow> pyval list sres" where
  "plan_tasks s = (case mget_or (sn_plan s) ''tasks'' (PList []) of
       PList xs \<Rightarrow> Inr xs | PTuple xs \<Rightarrow> Inr xs | PDict d \<Rightarrow> Inr [] | PProxy d \<Rightarrow> Inr [] | PStr x \<Rightarrow> Inr []
     | _ \<Rightarrow> Inl PyTypeError)"

fun add_tasks :: "pyval list \<Rightarrow> pymap dict \<Rightarrow> pymap dict sres" where
  "add_tasks [] d = Inr d"
| "add_tasks (x # xs) d = (case as_mapping x of
       None \<Rightarrow> add_tasks xs d
     | Some t \<Rightarrow> bindR (validate_task_dependencies t) (\<lambda>_.
         if sched_wave t = None then Inl SchedulerError
         else add_tasks xs (case mget t ''id'' of Some (PStr i) \<Rightarrow> dset i t d | _ \<Rightarrow> d)))"

definition task_map :: "snapshot \<Rightarrow> pymap dict sres" where
  "task_map s = bindR (plan_tasks s) (\<lambda>xs. add_tasks xs [])"

definition sched_terminal :: "string list" where
  "sched_terminal = [''completed'', ''failed'', ''blocked'', ''orphaned'', ''cancelled'', ''skipped'']"

text \<open>\<open>status in terminal\<close>: a list or a dictionary cannot be looked up in a set.\<close>

definition status_terminal :: "pyval \<Rightarrow> bool sres" where
  "status_terminal v = (case v of
       PStr s \<Rightarrow> Inr (s \<in> set sched_terminal)
     | PList xs \<Rightarrow> Inl PyTypeError | PDict d \<Rightarrow> Inl PyTypeError | PProxy d \<Rightarrow> Inl PyTypeError
     | _ \<Rightarrow> Inr False)"

definition task_status :: "snapshot \<Rightarrow> string \<Rightarrow> pymap \<Rightarrow> pyval" where
  "task_status s i task = (case mget (dget_or (sn_tasks s) i []) ''status'' of
       Some v \<Rightarrow> v | None \<Rightarrow> mget_or task ''status'' (PStr ''pending''))"

definition sched_completed :: "snapshot \<Rightarrow> string \<Rightarrow> bool" where
  "sched_completed s i \<longleftrightarrow>
     (case dget (sn_tasks s) i of None \<Rightarrow> False | Some t \<Rightarrow> mget t ''status'' = Some (PStr ''completed''))
     \<or> (case dget (sn_reports s) i of None \<Rightarrow> False | Some r \<Rightarrow> rc_status r = ''completed'')"

text \<open>With no clock (\<open>None\<close>) every lease is a barrier.\<close>

definition lease_active :: "snapshot \<Rightarrow> string option \<Rightarrow> string \<Rightarrow> bool" where
  "lease_active s now i = (case dget (sn_leases s) i of
       None \<Rightarrow> False
     | Some l \<Rightarrow> (case now of None \<Rightarrow> True | Some n \<Rightarrow> ls_expires_at l > n))"

definition ready_ids_from_state :: "snapshot \<Rightarrow> string option \<Rightarrow> string list sres" where
  "ready_ids_from_state s now =
     bindR (task_map s) (\<lambda>tasks.
     bindR (mapR (\<lambda>(i, t). bindR (status_terminal (task_status s i t)) (\<lambda>b. Inr (i, t, b))) tasks) (\<lambda>judged.
     let waves = map (\<lambda>(i, t, b). the (sched_wave t)) (filter (\<lambda>(i, t, b). \<not> b) judged) in
     if waves = [] then Inr []
     else Inr (sort (map fst (filter (\<lambda>(i, t, b).
            \<not> b \<and> \<not> lease_active s now i \<and> the (sched_wave t) = Min (set waves)
            \<and> (\<forall>v \<in> set (the (as_sequence (sched_deps t))). case as_str v of None \<Rightarrow> True | Some dep \<Rightarrow> sched_completed s dep))
          judged)))))"

section \<open>Claims\<close>

definition paths_of :: "pymap dict \<Rightarrow> string \<Rightarrow> string list" where
  "paths_of tasks i = (case dget tasks i of
       None \<Rightarrow> []
     | Some t \<Rightarrow> (case sched_paths t of Inl e \<Rightarrow> [] | Inr ps \<Rightarrow> ps))"

text \<open>The loop of the selector: tasks in order, until \<open>requested\<close> are selected or two overlap.\<close>

fun select_loop ::
  "pymap dict \<Rightarrow> string list \<Rightarrow> string list list \<Rightarrow> int \<Rightarrow> string list \<Rightarrow> string list \<Rightarrow> string list sres" where
  "select_loop tasks ready occupied requested [] selected = Inr selected"
| "select_loop tasks ready occupied requested (i # is) selected =
     (if int (length selected) \<ge> requested then Inr selected
      else if i \<notin> set ready then select_loop tasks ready occupied requested is selected
      else bindR (case dget tasks i of None \<Rightarrow> Inl PyTypeError | Some t \<Rightarrow> sched_paths t) (\<lambda>ps.
        if (\<exists>qs \<in> set occupied. sched_overlap ps qs) \<or> (\<exists>j \<in> set selected. sched_overlap ps (paths_of tasks j))
        then Inl OwnershipConflict
        else select_loop tasks ready occupied requested is (selected @ [i])))"

definition occupied_paths :: "snapshot \<Rightarrow> pymap dict \<Rightarrow> string \<Rightarrow> string list list sres" where
  "occupied_paths s tasks now = mapR (\<lambda>(i, l). sched_paths (the (dget tasks i)))
     (filter (\<lambda>(i, l). dget tasks i \<noteq> None \<and> ls_expires_at l > now) (sn_leases s))"

definition sched_select :: "int \<Rightarrow> selector" where
  "sched_select requested s available capacity now =
     (if requested > int capacity then Inl CapacityExceeded else
      bindR (task_map s) (\<lambda>tasks.
      bindR (ready_ids_from_state s (Some now)) (\<lambda>ready.
      bindR (occupied_paths s tasks now) (\<lambda>occupied.
      bindR (select_loop tasks ready occupied requested (sort available) []) (\<lambda>chosen. Inr (Some chosen))))))"

record sched =
  sc_store :: store
  sc_owner :: string
  sc_max_parallel :: int
  sc_worker_claims :: "(string \<times> token) dict"

definition sched_create :: "store \<Rightarrow> string \<Rightarrow> int \<Rightarrow> sched sres" where
  "sched_create st owner max_parallel = (if max_parallel < 1 then Inl SchedulerError
     else Inr \<lparr>sc_store = st, sc_owner = owner, sc_max_parallel = max_parallel, sc_worker_claims = []\<rparr>)"

abbreviation sched_load :: "sched \<Rightarrow> disk \<Rightarrow> snapshot sres" where
  "sched_load sc d \<equiv> store_load (st_env (sc_store sc)) (st_checksum (sc_store sc)) (st_run (sc_store sc)) d"

definition ready_ids :: "sched \<Rightarrow> string option \<Rightarrow> disk \<Rightarrow> string list sres" where
  "ready_ids sc now d = bindR (sched_load sc d) (\<lambda>s. ready_ids_from_state s now)"

definition active_claims :: "sched \<Rightarrow> string option \<Rightarrow> disk \<Rightarrow> lease dict sres" where
  "active_claims sc now d = bindR (sched_load sc d) (\<lambda>s. Inr (case now of
       None \<Rightarrow> sn_leases s
     | Some n \<Rightarrow> filter (\<lambda>(i, l). ls_expires_at l > n) (sn_leases s)))"

text \<open>
  \<open>claim\<close>: \<open>now\<close> is the scheduler's clock, the other readings are the store's. The result is the
  scheduler with the new worker claims, the tokens, the snapshot they are in and the disk states.
\<close>

definition sched_claim ::
  "sched \<Rightarrow> string \<Rightarrow> int option \<Rightarrow> rat \<Rightarrow> string option \<Rightarrow> string list \<Rightarrow> string \<Rightarrow> string \<Rightarrow> disk
     \<Rightarrow> (sched \<times> token list \<times> snapshot \<times> disk list) sres" where
  "sched_claim sc worker limit lease_seconds now lease_ids snow snow2 d =
     (let requested = (case limit of None \<Rightarrow> sc_max_parallel sc | Some n \<Rightarrow> n) in
      if worker = [] then Inl SchedulerError
      else if requested < 0 then Inl SchedulerError
      else if requested > sc_max_parallel sc then Inl CapacityExceeded
      else bindR (sched_load sc d) (\<lambda>s0. bindR (ready_ids_from_state s0 now) (\<lambda>candidates.
        case store_claim_many (sc_store sc) candidates (sc_owner sc) (sc_max_parallel sc) lease_seconds
               (Some (sched_select requested)) lease_ids snow snow2 d of
          Inl e \<Rightarrow> if e = BoundedCapacity \<or> e = CapacityExceeded
            then (if candidates \<noteq> [] then Inr (sc, [], s0, [d]) else Inl CapacityExceeded)
            else Inl e
        | Inr (tokens, s, ds) \<Rightarrow>
            Inr (sc\<lparr>sc_worker_claims := fold (\<lambda>tk. dset (tn_lease_id tk) (worker, tk)) tokens (sc_worker_claims sc)\<rparr>,
                 tokens, s, ds))))"

definition sched_renew ::
  "sched \<Rightarrow> token \<Rightarrow> rat \<Rightarrow> string \<Rightarrow> string \<Rightarrow> string \<Rightarrow> disk \<Rightarrow> (token \<times> snapshot \<times> disk list) sres" where
  "sched_renew sc tk lease_seconds lease_id snow snow2 d =
     (case store_renew (sc_store sc) (tn_task_id tk) tk (sc_owner sc) lease_seconds lease_id snow snow2 d of
        Inl e \<Rightarrow> Inl (if e = GenerationConflictError then LeaseError else e)
      | Inr r \<Rightarrow> Inr r)"

definition release_change :: "store_env \<Rightarrow> token \<Rightarrow> string \<Rightarrow> snapshot \<Rightarrow> snapshot sres" where
  "release_change env tk now s = bindR (check_token env s (tn_task_id tk) tk now) (\<lambda>_.
     Inr (s\<lparr>sn_leases := dpop (tn_task_id tk) (sn_leases s)\<rparr>))"

definition sched_release :: "sched \<Rightarrow> token \<Rightarrow> string \<Rightarrow> string \<Rightarrow> disk \<Rightarrow> (sched \<times> snapshot \<times> disk list) sres" where
  "sched_release sc tk snow snow2 d =
     bindR (store_mutate (sc_store sc) (sc_owner sc) None (release_change (st_env (sc_store sc)) tk snow) snow2 d) (\<lambda>(s, ds).
     Inr (sc\<lparr>sc_worker_claims := dpop (tn_lease_id tk) (sc_worker_claims sc)\<rparr>, s, ds))"

text \<open>\<open>recover_stale\<close>: one mutation for each lease that was expired when the loop began.\<close>

definition recover_change :: "string \<Rightarrow> string \<Rightarrow> snapshot \<Rightarrow> snapshot sres" where
  "recover_change now i s = Inr (case dget (sn_leases s) i of
       None \<Rightarrow> s
     | Some l \<Rightarrow> if ls_expires_at l \<le> now then s\<lparr>sn_leases := dpop i (sn_leases s)\<rparr> else s)"

definition recover_one :: "sched \<Rightarrow> string \<Rightarrow> string \<Rightarrow> string \<Rightarrow> disk \<Rightarrow> (snapshot \<times> disk list) sres" where
  "recover_one sc now i snow d = bindR (sched_load sc d) (\<lambda>current.
     if dget (sn_leases current) i = None then Inr (current, [d])
     else store_mutate (sc_store sc) (sc_owner sc) (Some (sn_generation current)) (recover_change now i) snow d)"

definition stale_ids :: "string \<Rightarrow> snapshot \<Rightarrow> string list" where
  "stale_ids now s = sort (map fst (filter (\<lambda>(i, l). ls_expires_at l \<le> now) (sn_leases s)))"

fun recover_all :: "sched \<Rightarrow> string \<Rightarrow> (string \<times> string) list \<Rightarrow> disk \<Rightarrow> disk sres" where
  "recover_all sc now [] d = Inr d"
| "recover_all sc now ((i, snow) # ps) d = bindR (recover_one sc now i snow d) (\<lambda>(s, ds). recover_all sc now ps (last ds))"

definition recover_stale :: "sched \<Rightarrow> string option \<Rightarrow> string list \<Rightarrow> disk \<Rightarrow> (string list \<times> disk) sres" where
  "recover_stale sc now snows d = bindR (sched_load sc d) (\<lambda>s. case now of
       None \<Rightarrow> Inr ([], d)
     | Some n \<Rightarrow> bindR (recover_all sc n (zip (stale_ids n s) snows) d) (\<lambda>d'. Inr (stale_ids n s, d')))"


section \<open>Leases own disjoint paths\<close>

lemma sched_overlap_sym: "sched_overlap a b \<longleftrightarrow> sched_overlap b a"
  by (auto simp: sched_overlap_def)

lemma sched_overlap_Nil [simp]: "\<not> sched_overlap [] b" "\<not> sched_overlap a []"
  by (simp_all add: sched_overlap_def)

definition owned :: "snapshot \<Rightarrow> string \<Rightarrow> string list" where
  "owned s i = (case task_map s of Inl e \<Rightarrow> [] | Inr tasks \<Rightarrow> paths_of tasks i)"

definition leased :: "snapshot \<Rightarrow> string set" where
  "leased s = set (dkeys (sn_leases s))"

text \<open>The task is in the plan and its paths are well formed, so that \<open>owned\<close> is what the code computes.\<close>

definition owns_paths :: "snapshot \<Rightarrow> string \<Rightarrow> bool" where
  "owns_paths s i \<longleftrightarrow> (\<exists>tasks t. task_map s = Inr tasks \<and> dget tasks i = Some t \<and> sched_paths t = Inr (owned s i))"

definition leases_disjoint :: "snapshot \<Rightarrow> bool" where
  "leases_disjoint s \<longleftrightarrow> (\<forall>i \<in> leased s. owns_paths s i)
     \<and> (\<forall>i \<in> leased s. \<forall>j \<in> leased s. i \<noteq> j \<longrightarrow> \<not> sched_overlap (owned s i) (owned s j))"

text \<open>What it means for a file, given by its path, to lie at or below an owned path.\<close>

definition path_holds :: "string \<Rightarrow> string \<Rightarrow> bool" where
  "path_holds p f \<longleftrightarrow> p = ''.'' \<or> f = p \<or> startswith f (p @ ''/'')"

lemma holds_ext: "path_holds p f \<Longrightarrow> p \<noteq> ''.'' \<Longrightarrow> \<exists>x. f @ ''/'' = (p @ ''/'') @ x"
  by (auto simp: path_holds_def startswith_iff)

lemma holds_comparable:
  assumes "path_holds p f" and "path_holds q f" and "p \<noteq> ''.''" and "q \<noteq> ''.''"
  shows "p = q \<or> startswith p (q @ ''/'') \<or> startswith q (p @ ''/'')"
proof -
  from holds_ext [OF assms(1,3)] holds_ext [OF assms(2,4)]
  obtain us where "p @ ''/'' = (q @ ''/'') @ us \<or> q @ ''/'' = (p @ ''/'') @ us" by (metis append_eq_append_conv2)
  then show ?thesis by (cases us rule: rev_cases) (auto simp: startswith_iff)
qed

text \<open>A change is narrow when it leaves the plan and adds no lease.\<close>

definition narrow :: "snapshot \<Rightarrow> snapshot \<Rightarrow> bool" where
  "narrow s c \<longleftrightarrow> sn_plan c = sn_plan s \<and> leased c \<subseteq> leased s"

lemma owned_plan: "sn_plan c = sn_plan s \<Longrightarrow> owned c = owned s"
  by (rule ext) (simp add: owned_def task_map_def plan_tasks_def)

lemma owns_plan: "sn_plan c = sn_plan s \<Longrightarrow> owns_paths c = owns_paths s"
  by (rule ext) (simp add: owns_paths_def owned_plan [of c s] task_map_def plan_tasks_def)

lemma narrow_disjoint: "narrow s c \<Longrightarrow> leases_disjoint s \<Longrightarrow> leases_disjoint c"
  unfolding narrow_def leases_disjoint_def using owned_plan [of c s] owns_plan [of c s] by (metis subsetD)

lemma bump_disjoint [simp]: "leases_disjoint (bump now c) = leases_disjoint c"
  by (simp add: leases_disjoint_def leased_def bump_def owned_def owns_paths_def task_map_def plan_tasks_def)

lemma narrow_refl [simp]: "narrow s s"
  by (simp add: narrow_def)

lemma narrow_pop: "narrow s (s\<lparr>sn_leases := dpop i (sn_leases s)\<rparr>)"
  by (auto simp: narrow_def leased_def)

lemma narrow_transition: "transition_change status s = Inr c \<Longrightarrow> narrow s c"
  by (auto simp: transition_change_def result_simps narrow_def leased_def)

lemma narrow_task_status: "task_status_change i status s = Inr c \<Longrightarrow> narrow s c"
  by (auto simp: task_status_change_def result_simps narrow_def leased_def)

lemma check_token_leased: "check_token env s i tk now = Inr l \<Longrightarrow> i \<in> leased s"
  by (auto simp: leased_def dest!: check_token_Inr dget_Some_key)

lemma narrow_renew: "renew_change env i tk secs now lid s = Inr c \<Longrightarrow> narrow s c"
  using check_token_leased by (auto simp: renew_change_def result_simps narrow_def leased_def)

lemma narrow_release: "release_change env tk now s = Inr c \<Longrightarrow> narrow s c"
  by (auto simp: release_change_def result_simps intro: narrow_pop)

lemma narrow_recover: "recover_change now i s = Inr c \<Longrightarrow> narrow s c"
  by (auto simp: recover_change_def narrow_pop split: option.splits if_splits)

lemma narrow_commit: "commit_change env i tk safe status now s = Inr (Some c) \<Longrightarrow> narrow s c"
  by (auto simp: commit_change_def result_simps Let_def narrow_def leased_def split: option.splits if_splits)

lemma narrow_terminal_event: "terminal_event_change i s = Inr (Some c) \<Longrightarrow> narrow s c"
  by (auto simp: terminal_event_change_def Let_def narrow_def leased_def split: option.splits if_splits)

lemma narrow_append_event: "append_event_change env event s = Inr c \<Longrightarrow> narrow s c"
  by (erule append_event_change_Inr) (simp add: narrow_def leased_def)

section \<open>The selector\<close>

definition disjoint_on :: "pymap dict \<Rightarrow> string set \<Rightarrow> bool" where
  "disjoint_on tasks I \<longleftrightarrow> (\<forall>i \<in> I. \<forall>j \<in> I. i \<noteq> j \<longrightarrow> \<not> sched_overlap (paths_of tasks i) (paths_of tasks j))"

lemma disjoint_on_insert:
  "disjoint_on tasks I \<Longrightarrow> \<forall>j \<in> I. \<not> sched_overlap (paths_of tasks i) (paths_of tasks j) \<Longrightarrow> disjoint_on tasks (insert i I)"
  by (auto simp: disjoint_on_def sched_overlap_sym)

lemma select_loop_disjoint:
  assumes "select_loop tasks ready occ req is sel = Inr res" and "disjoint_on tasks (set sel)"
    and "\<forall>i \<in> set sel. \<forall>qs \<in> set occ. \<not> sched_overlap (paths_of tasks i) qs"
  shows "disjoint_on tasks (set res) \<and> (\<forall>i \<in> set res. \<forall>qs \<in> set occ. \<not> sched_overlap (paths_of tasks i) qs)"
  using assms
proof (induction tasks ready occ req "is" sel rule: select_loop.induct)
  case (2 tasks ready occ req i "is" sel)
  show ?case
  proof (cases "int (length sel) \<ge> req \<or> i \<notin> set ready")
    case True
    with 2 show ?thesis by (auto split: if_splits)
  next
    case False
    with "2.prems"(1) obtain t ps where t: "dget tasks i = Some t" "sched_paths t = Inr ps"
      and free: "\<not> (\<exists>qs \<in> set occ. sched_overlap ps qs)" "\<not> (\<exists>j \<in> set sel. sched_overlap ps (paths_of tasks j))"
      and rest: "select_loop tasks ready occ req is (sel @ [i]) = Inr res"
      by (auto simp: result_simps)
    have pi: "paths_of tasks i = ps" using t by (simp add: paths_of_def)
    have "disjoint_on tasks (set (sel @ [i]))"
      using disjoint_on_insert [OF "2.prems"(2)] free(2) pi by simp
    then show ?thesis
      using "2.IH"(2) [of ps] rest False t free pi "2.prems"(3) by auto
  qed
qed auto

lemma select_loop_known:
  assumes "select_loop tasks ready occ req is sel = Inr res"
    and "\<forall>i \<in> set sel. \<exists>t. dget tasks i = Some t \<and> sched_paths t = Inr (paths_of tasks i)"
  shows "\<forall>i \<in> set res. \<exists>t. dget tasks i = Some t \<and> sched_paths t = Inr (paths_of tasks i)"
  using assms
proof (induction tasks ready occ req "is" sel rule: select_loop.induct)
  case (2 tasks ready occ req i "is" sel)
  show ?case
  proof (cases "int (length sel) \<ge> req \<or> i \<notin> set ready")
    case True
    with 2 show ?thesis by (auto split: if_splits)
  next
    case False
    with "2.prems"(1) obtain t ps where t: "dget tasks i = Some t" "sched_paths t = Inr ps"
      and free: "\<not> (\<exists>qs \<in> set occ. sched_overlap ps qs)" "\<not> (\<exists>j \<in> set sel. sched_overlap ps (paths_of tasks j))"
      and rest: "select_loop tasks ready occ req is (sel @ [i]) = Inr res"
      by (auto simp: result_simps)
    have "paths_of tasks i = ps" using t by (simp add: paths_of_def)
    then show ?thesis
      using "2.IH"(2) [of ps] rest False t free "2.prems"(2) by auto
  qed
qed auto

lemma occupied_mem:
  assumes "occupied_paths s tasks now = Inr occ" and "(i, l) \<in> set (sn_leases s)" and "dget tasks i = Some t" and "ls_expires_at l > now"
  shows "paths_of tasks i \<in> set occ"
proof -
  have "(i, l) \<in> set (filter (\<lambda>(i, l). dget tasks i \<noteq> None \<and> ls_expires_at l > now) (sn_leases s))"
    using assms by simp
  from mapR_mem [OF assms(1) [unfolded occupied_paths_def] this] show ?thesis using assms(3) by (auto simp: paths_of_def)
qed

lemma leased_install [simp]: "leased (install i l s) = insert i (leased s)"
  by (simp add: leased_def install_def)

lemma install_leased: "leased (install_leases owner e lids chosen s) \<subseteq> leased s \<union> set chosen"
    and install_plan: "sn_plan (install_leases owner e lids chosen s) = sn_plan s"
proof -
  have "leased (fold (\<lambda>(i, lid) c. install i (f lid) c) ps c) \<subseteq> leased c \<union> set (map fst ps)
      \<and> sn_plan (fold (\<lambda>(i, lid) c. install i (f lid) c) ps c) = sn_plan c" for ps f c
  proof (induction ps arbitrary: c)
    case (Cons p ps)
    show ?case using Cons.IH [of "install (fst p) (f (snd p)) c"] by (cases p) auto
  qed simp
  note this [of "\<lambda>lid. \<lparr>ls_owner = owner, ls_lease_id = lid, ls_expires_at = e, ls_generation = sn_generation s + 1\<rparr>"
      "zip chosen lids" s]
  moreover have "set (map fst (zip chosen lids)) \<subseteq> set chosen" by (auto dest: set_zip_leftD)
  ultimately show "leased (install_leases owner e lids chosen s) \<subseteq> leased s \<union> set chosen"
    and "sn_plan (install_leases owner e lids chosen s) = sn_plan s"
    unfolding install_leases_alt by blast+
qed

text \<open>What a claim with a selector does to the leases.\<close>

lemma claim_many_select:
  assumes "claim_many_change env ids owner maxp secs (Some f) now lids s = Inr (Some c, tks)"
  defines "s1 \<equiv> s\<lparr>sn_leases := filter (\<lambda>(i, l). \<not> ls_expires_at l \<le> now) (sn_leases s)\<rparr>"
  obtains av cap chosen where "f s1 av cap now = Inr (Some chosen)" and "sn_plan c = sn_plan s"
    and "leased c \<subseteq> leased s1 \<union> set chosen"
proof -
  from assms(1) obtain chosen av cap where f: "f s1 av cap now = Inr (Some chosen)"
    and c: "c = s1 \<or> (\<exists>e. c = install_leases owner e lids chosen s1)"
    unfolding claim_many_change_def Let_def s1_def
    by (auto simp: result_simps clock_value_Inr split: if_splits option.splits)
  show thesis
    by (rule that [OF f]) (use c install_leased [of owner _ lids chosen s1] install_plan [of owner _ lids chosen s1] in
      \<open>auto simp: s1_def\<close>)
qed

lemma claim_many_disjoint:
  assumes ch: "claim_many_change env ids owner maxp secs (Some (sched_select req)) now lids s = Inr (Some c, tks)"
    and dj: "leases_disjoint s"
  shows "leases_disjoint c"
proof -
  let ?s1 = "s\<lparr>sn_leases := filter (\<lambda>(i, l). \<not> ls_expires_at l \<le> now) (sn_leases s)\<rparr>"
  from ch obtain av cap chosen where sel: "sched_select req ?s1 av cap now = Inr (Some chosen)" and pl: "sn_plan c = sn_plan s"
    and sub: "leased c \<subseteq> leased ?s1 \<union> set chosen" by (rule claim_many_select)
  from sel obtain tasks ready occ where tm: "task_map ?s1 = Inr tasks" and occ: "occupied_paths ?s1 tasks now = Inr occ"
    and lp: "select_loop tasks ready occ req (sort av) [] = Inr chosen"
    by (auto simp: sched_select_def result_simps)
  have tm': "task_map s = Inr tasks" using tm by (simp add: task_map_def plan_tasks_def)
  have ow: "owned c = paths_of tasks" "owned s = paths_of tasks" using owned_plan [OF pl] tm' by (auto simp: owned_def fun_eq_iff)
  have known: "\<forall>i \<in> set chosen. \<exists>t. dget tasks i = Some t \<and> sched_paths t = Inr (paths_of tasks i)"
    using select_loop_known [OF lp] by simp
  have new: "disjoint_on tasks (set chosen)" "\<forall>i \<in> set chosen. \<forall>qs \<in> set occ. \<not> sched_overlap (paths_of tasks i) qs"
    using select_loop_disjoint [OF lp] by (simp_all add: disjoint_on_def)
  have old: "paths_of tasks j = [] \<or> paths_of tasks j \<in> set occ" if "j \<in> leased ?s1" for j
  proof -
    from that obtain l where "(j, l) \<in> set (sn_leases ?s1)" by (auto simp: leased_def dkeys_def)
    moreover from this have "ls_expires_at l > now" by (simp add: not_le)
    ultimately show ?thesis using occupied_mem [OF occ] by (cases "dget tasks j") (auto simp: paths_of_def)
  qed
  have "\<not> sched_overlap (paths_of tasks i) (paths_of tasks j)" if "i \<in> leased c" "j \<in> leased c" "i \<noteq> j" for i j
  proof -
    have "leased ?s1 \<subseteq> leased s" by (auto simp: leased_def dkeys_def)
    then have both_old: "i \<in> leased ?s1 \<Longrightarrow> j \<in> leased ?s1 \<Longrightarrow> ?thesis"
      using dj that(3) ow by (auto simp: leases_disjoint_def)
    have mixed: "k \<in> set chosen \<Longrightarrow> m \<in> leased ?s1 \<Longrightarrow> \<not> sched_overlap (paths_of tasks k) (paths_of tasks m)" for k m
      using new(2) old [of m] by (auto simp: sched_overlap_def)
    show ?thesis
      using that sub both_old mixed [of i j] mixed [of j i] new(1) unfolding disjoint_on_def
      by (auto simp: sched_overlap_sym)
  qed
  moreover have "owns_paths c i" if "i \<in> leased c" for i
  proof (cases "i \<in> set chosen")
    case True
    then have "owns_paths s i" using known tm' ow by (auto simp: owns_paths_def)
    then show ?thesis using owns_plan [OF pl] by simp
  next
    case False
    then have "i \<in> leased s" using that sub by (auto simp: leased_def dkeys_def)
    then show ?thesis using dj owns_plan [OF pl] by (simp add: leases_disjoint_def)
  qed
  ultimately show ?thesis by (simp add: leases_disjoint_def ow)
qed

section \<open>Runs of schedulers\<close>

text \<open>
  Any number of schedulers and workers work on one run, with crashes: a lease is only installed by a
  scheduler's claim. A claim computes its candidates from a snapshot it loads before it takes the lock, so
  another operation may come in between: \<open>by_late_claim\<close> is the locked part with any candidates. Each
  iteration of \<open>recover_stale\<close> is a step of its own.
\<close>

inductive sched_step :: "store \<Rightarrow> store_config \<Rightarrow> store_config \<Rightarrow> bool" for st where
  by_transition: "store_transition st status owner expected now d = Inr (s, ds) \<Longrightarrow> d' \<in> set ds \<Longrightarrow>
     sched_step st (d, hist) (d', landed ds d' s hist)"
| by_task_status: "store_update_task_status st task_id status owner expected now d = Inr (s, ds) \<Longrightarrow> d' \<in> set ds \<Longrightarrow>
     sched_step st (d, hist) (d', landed ds d' s hist)"
| by_terminal_event: "store_terminal_event st task_id owner expected now d = Inr (s, ds) \<Longrightarrow> d' \<in> set ds \<Longrightarrow>
     sched_step st (d, hist) (d', landed ds d' s hist)"
| by_append_event: "store_append_event st event owner expected now d = Inr (s, ds) \<Longrightarrow> d' \<in> set ds \<Longrightarrow>
     sched_step st (d, hist) (d', event_landed ds d' s hist)"
| by_late_claim: "store_claim_many st candidates owner maxp secs (Some (sched_select requested)) lease_ids snow snow2 d
       = Inr (tks, s, ds) \<Longrightarrow> list_all ID_OK lease_ids \<Longrightarrow> d' \<in> set ds \<Longrightarrow> sched_step st (d, hist) (d', landed ds d' s hist)"
| by_commit: "store_commit st task_id tk owner report status now now2 d = Inr (s, ds) \<Longrightarrow> d' \<in> set ds \<Longrightarrow>
     sched_step st (d, hist) (d', landed ds d' s hist)"
| by_renew: "sched_renew sc tk secs lease_id snow snow2 d = Inr (tk', s, ds) \<Longrightarrow> sc_store sc = st \<Longrightarrow> ID_OK lease_id \<Longrightarrow>
     d' \<in> set ds \<Longrightarrow> sched_step st (d, hist) (d', landed ds d' s hist)"
| by_claim: "sched_claim sc worker limit secs now lease_ids snow snow2 d = Inr (sc', tks, s, ds) \<Longrightarrow> sc_store sc = st \<Longrightarrow>
     list_all ID_OK lease_ids \<Longrightarrow> d' \<in> set ds \<Longrightarrow> sched_step st (d, hist) (d', landed ds d' s hist)"
| by_release: "sched_release sc tk snow snow2 d = Inr (sc', s, ds) \<Longrightarrow> sc_store sc = st \<Longrightarrow> d' \<in> set ds \<Longrightarrow>
     sched_step st (d, hist) (d', landed ds d' s hist)"
| by_recover: "recover_one sc now i snow d = Inr (s, ds) \<Longrightarrow> sc_store sc = st \<Longrightarrow> d' \<in> set ds \<Longrightarrow>
     sched_step st (d, hist) (d', landed ds d' s hist)"

definition sched_inv :: "store \<Rightarrow> store_config \<Rightarrow> bool" where
  "sched_inv st c \<longleftrightarrow> env_ok (st_env st) \<and> cfg_inv st c \<and> leases_disjoint (hd (snd c))"

text \<open>An operation whose outcome is known and that keeps disjointness keeps the invariant.\<close>

lemma outcome_inv:
  assumes "sched_inv st (d, hist)" and "op_outcome st d (hd hist) s ds" and "leases_disjoint (hd hist) \<Longrightarrow> leases_disjoint s"
    and "d' \<in> set ds"
  shows "sched_inv st (d', landed ds d' s hist)"
  using assms outcome_cfg [of st d hist s ds d'] by (auto simp: sched_inv_def landed_def)

lemma mutate_narrow:
  assumes "store_mutate st owner expected fn now d = Inr (s, ds)" and "current st d = Some s0"
    and "\<And>c. fn s0 = Inr c \<Longrightarrow> narrow s0 c"
  shows "leases_disjoint s0 \<Longrightarrow> leases_disjoint s"
  using assms narrow_disjoint by (auto simp: store_mutate_def result_simps owned_Inr)

lemma release_outcome:
  assumes "store_mutate st owner expected fn now d = Inr (s, ds)" and rs: "ready_state st d s0"
    and "fn = release_change env tk snow \<or> fn = recover_change n i"
  shows "op_outcome st d s0 s ds" and "leases_disjoint s0 \<Longrightarrow> leases_disjoint s"
proof -
  have drop: "good_change st s0 (s0\<lparr>sn_leases := dpop k (sn_leases s0)\<rparr>)" for k
    using keep_leases_good [OF ready_stateD(3) [OF rs], of "\<lambda>(k', v). k \<noteq> k'"] by (simp add: dpop_def AList.delete_eq)
  have "good_change st s0 c" if "fn s0 = Inr c" for c
    using that assms(3) drop good_refl [OF ready_stateD(3) [OF rs]]
    by (auto simp: release_change_def recover_change_def result_simps split: option.splits if_splits)
  then show "op_outcome st d s0 s ds" using mutate_outcome [OF assms(1) ready_stateD(2) [OF rs]] by blast
  show "leases_disjoint s" if "leases_disjoint s0"
    using mutate_narrow [OF assms(1) ready_stateD(2) [OF rs] _ that] assms(3) narrow_release narrow_recover by blast
qed

lemma select_claim_disjoint:
  assumes "store_claim_many st cand owner maxp secs (Some (sched_select req)) lids snow snow2 d = Inr (tks, s, ds)"
    and rs: "ready_state st d s0" and "leases_disjoint s0"
  shows "leases_disjoint s"
proof -
  from assms(1) ready_stateD(2) [OF rs] obtain r ts
    where ch: "claim_many_change (st_env st) cand owner maxp secs (Some (sched_select req)) snow lids s0 = Inr (r, ts)"
    and s: "s = s0 \<or> (\<exists>c stamp. r = Some c \<and> s = bump stamp c)"
    by (auto simp: store_claim_many_def result_simps owned_Inr split: if_splits option.splits)
  show ?thesis using s ch claim_many_disjoint assms(3) by auto
qed

lemma load_current: "current st d = Some s0 \<Longrightarrow> store_load (st_env st) (st_checksum st) (st_run st) d = Inr s0"
  by (simp add: store_load_def)

lemma sched_claim_outcome:
  assumes "sched_claim sc worker limit secs now lids snow snow2 d = Inr (sc', tks, s, ds)" and "sc_store sc = st"
    and rs: "ready_state st d s0" and "list_all ID_OK lids"
  shows "op_outcome st d s0 s ds" and "leases_disjoint s0 \<Longrightarrow> leases_disjoint s"
proof -
  define req where "req = (case limit of None \<Rightarrow> sc_max_parallel sc | Some n \<Rightarrow> n)"
  have cur: "sched_load sc d = Inr s0" using ready_stateD(2) [OF rs] load_current assms(2) by simp
  from assms(1) cur obtain cand where
    "s = s0 \<and> ds = [d] \<or> (\<exists>tks. store_claim_many st cand (sc_owner sc) (sc_max_parallel sc) secs
        (Some (sched_select req)) lids snow snow2 d = Inr (tks, s, ds))"
    by (auto simp: sched_claim_def req_def [symmetric] assms(2) result_simps Let_def split: if_splits sum.splits)
  then consider (none) "s = s0" "ds = [d]"
    | (some) tks where "store_claim_many st cand (sc_owner sc) (sc_max_parallel sc) secs (Some (sched_select req)) lids snow snow2 d
        = Inr (tks, s, ds)" by blast
  then have "op_outcome st d s0 s ds \<and> (leases_disjoint s0 \<longrightarrow> leases_disjoint s)"
  proof cases
    case none
    then show ?thesis by (simp add: op_outcome_def)
  next
    case some
    have "leases_disjoint s0 \<longrightarrow> leases_disjoint s" using select_claim_disjoint [OF some rs] by blast
    then show ?thesis using claim_many_outcome [OF some rs assms(4)] by blast
  qed
  then show "op_outcome st d s0 s ds" and "leases_disjoint s0 \<Longrightarrow> leases_disjoint s" by auto
qed

lemma sched_step_inv: "sched_step st c c' \<Longrightarrow> sched_inv st c \<Longrightarrow> sched_inv st c'"
proof (induction rule: sched_step.induct)
  have rs: "ready_state st d (hd hist)" if "sched_inv st (d, hist)" for d hist
    using that cfg_current [of st d hist] by (simp add: ready_state_def sched_inv_def)
  {
    case (by_transition status owner expected now d s ds d' hist)
    note m = by_transition(1) [unfolded store_transition_def]
    show ?case
      by (rule outcome_inv [OF by_transition(3) transition_outcome [OF by_transition(1) rs [OF by_transition(3)]] _ by_transition(2)])
         (rule mutate_narrow [OF m ready_stateD(2) [OF rs [OF by_transition(3)]] narrow_transition])
  next
    case (by_task_status i status owner expected now d s ds d' hist)
    then have m: "store_mutate st owner expected (task_status_change i status) now d = Inr (s, ds)"
      by (simp add: store_update_task_status_def result_simps)
    show ?case
      by (rule outcome_inv [OF by_task_status(3) task_status_outcome [OF by_task_status(1) rs [OF by_task_status(3)]] _ by_task_status(2)])
         (rule mutate_narrow [OF m ready_stateD(2) [OF rs [OF by_task_status(3)]] narrow_task_status])
  next
    case (by_terminal_event i owner expected now d s ds d' hist)
    note r = rs [OF by_terminal_event(3)]
    have "leases_disjoint (hd hist) \<Longrightarrow> leases_disjoint s"
      using by_terminal_event(1) ready_stateD(2) [OF r] narrow_disjoint [OF narrow_terminal_event]
      by (auto simp: store_terminal_event_def result_simps owned_Inr split: option.splits)
    then show ?case
      by (rule outcome_inv [OF by_terminal_event(3) terminal_event_outcome [OF by_terminal_event(1) r] _ by_terminal_event(2)])
  next
    case (by_append_event event owner expected now d s ds d' hist)
    note r = rs [OF by_append_event(3)] and m = by_append_event(1) [unfolded store_append_event_def]
    note out = append_event_outcome [OF by_append_event(1) r]
    show ?case
    proof (cases "valid_event (last (sn_events s))")
      case True
      have "leases_disjoint (hd hist) \<Longrightarrow> leases_disjoint s"
        by (rule mutate_narrow [OF m ready_stateD(2) [OF r] narrow_append_event])
      then show ?thesis
        using outcome_inv [OF by_append_event(3) _ _ by_append_event(2)] out True by (simp add: event_landed_def)
    next
      case False
      have "cfg_inv st (d', hist)"
        by (rule write_invalid_cfg [OF _ _ by_append_event(2), where d = d and s' = s])
           (use by_append_event(3) out False in \<open>simp_all add: sched_inv_def\<close>)
      then show ?thesis using False by_append_event(3) by (simp add: event_landed_def sched_inv_def)
    qed
  next
    case (by_late_claim cand owner maxp secs req lids snow snow2 d tks s ds d' hist)
    note r = rs [OF by_late_claim(4)]
    show ?case
      by (rule outcome_inv [OF by_late_claim(4) claim_many_outcome [OF by_late_claim(1) r by_late_claim(2)] _ by_late_claim(3)])
         (rule select_claim_disjoint [OF by_late_claim(1) r])
  next
    case (by_commit i tk owner report status now now2 d s ds d' hist)
    note r = rs [OF by_commit(3)]
    have "leases_disjoint (hd hist) \<Longrightarrow> leases_disjoint s"
      using by_commit(1) ready_stateD(2) [OF r] narrow_disjoint [OF narrow_commit]
      by (auto simp: store_commit_def result_simps owned_Inr split: option.splits)
    then show ?case
      by (rule outcome_inv [OF by_commit(3) commit_outcome [OF by_commit(1) r] _ by_commit(2)])
  next
    case (by_renew sc tk secs lid snow snow2 d tk' s ds d' hist)
    note r = rs [OF by_renew(5)]
    have sr: "store_renew st (tn_task_id tk) tk (sc_owner sc) secs lid snow snow2 d = Inr (tk', s, ds)"
      using by_renew(1,2) by (auto simp: sched_renew_def split: sum.splits)
    then have m: "store_mutate st (sc_owner sc) None (renew_change (st_env st) (tn_task_id tk) tk secs snow lid) snow2 d = Inr (s, ds)"
      by (auto simp: store_renew_def result_simps split: option.splits)
    show ?case
      by (rule outcome_inv [OF by_renew(5) renew_outcome [OF sr r by_renew(3)] _ by_renew(4)])
         (rule mutate_narrow [OF m ready_stateD(2) [OF r] narrow_renew])
  next
    case (by_claim sc worker limit secs now lids snow snow2 d sc' tks s ds d' hist)
    note o = sched_claim_outcome [OF by_claim(1,2) rs [OF by_claim(5)] by_claim(3)]
    show ?case by (rule outcome_inv [OF by_claim(5) o(1) o(2) by_claim(4)])
  next
    case (by_release sc tk snow snow2 d sc' s ds d' hist)
    then have "store_mutate st (sc_owner sc) None (release_change (st_env st) tk snow) snow2 d = Inr (s, ds)"
      by (auto simp: sched_release_def result_simps)
    note o = release_outcome [OF this rs [OF by_release(4)] disjI1 [OF refl]]
    show ?case by (rule outcome_inv [OF by_release(4) o(1) o(2) by_release(3)])
  next
    case (by_recover sc now i snow d s ds d' hist)
    note r = rs [OF by_recover(4)]
    have "s = hd hist \<and> ds = [d] \<or> store_mutate st (sc_owner sc) (Some (sn_generation (hd hist))) (recover_change now i) snow d = Inr (s, ds)"
      using by_recover(1,2) load_current [OF ready_stateD(2) [OF r]] by (auto simp: recover_one_def split: if_splits)
    then have "op_outcome st d (hd hist) s ds \<and> (leases_disjoint (hd hist) \<longrightarrow> leases_disjoint s)"
    proof
      assume "s = hd hist \<and> ds = [d]"
      then show ?thesis by (simp add: op_outcome_def)
    next
      assume "store_mutate st (sc_owner sc) (Some (sn_generation (hd hist))) (recover_change now i) snow d = Inr (s, ds)"
      from release_outcome [OF this r disjI2 [OF refl]] show ?thesis by blast
    qed
    then show ?case using outcome_inv [OF by_recover(4) _ _ by_recover(3)] by blast
  }
qed

text \<open>What the scheduler writes through \<open>_mutate\<close> is covered by the steps of the store.\<close>

lemma scheduler_drops: "drops_lease (release_change env tk now)" "drops_lease (recover_change now i)"
  by (auto simp: drops_lease_def release_change_def recover_change_def result_simps split: option.splits if_splits)

text \<open>A run whose plan is not read back has no step.\<close>

lemma unread_no_step: "sched_step st c c' \<Longrightarrow> \<not> unread st c"
proof
  assume "sched_step st c c'" and un: "unread st c"
  then show False
    using unread_current [of st "fst c" "snd c"]
    by (cases rule: sched_step.cases)
       (auto simp: store_transition_def store_update_task_status_def store_terminal_event_def store_append_event_def
          store_claim_many_def sched_renew_def store_renew_def store_commit_def sched_claim_def sched_release_def
          recover_one_def store_load_def result_simps no_owner no_mutate unread_def Let_def split: if_splits sum.splits)
qed

lemma fresh_disjoint: "run_init st (d, hist) \<Longrightarrow> hist \<noteq> [] \<Longrightarrow> leases_disjoint (hd hist)"
  by (auto simp: run_init_def store_init_def store_create_def result_simps Let_def leases_disjoint_def leased_def
      fresh_snapshot_def dkeys_def split: if_splits)

interpretation sched: invariant_system "run_init st" "sched_step st" "\<lambda>c. sched_inv st c \<or> unread st c" for st
proof
  show "run_init st s \<Longrightarrow> sched_inv st s \<or> unread st s" for s
    using fresh_disjoint [of st "fst s" "snd s"] rs.inv_start [of st s] cfg_current(1) [of st "fst s" "snd s"]
    by (auto simp: sched_inv_def run_inv_def)
  show "sched_inv st s \<or> unread st s \<Longrightarrow> sched_step st s t \<Longrightarrow> sched_inv st t \<or> unread st t" for s t
    using sched_step_inv unread_no_step by blast
qed

text \<open>
  C20: however many schedulers and workers operate on a run that was created without an initial state, in any order and wherever they crash (leases
  being installed by claims of schedulers only), in the snapshot that loading returns every task that holds
  a lease is in the plan with well-formed paths, and no file lies at or below an owned path of two different
  such tasks, unless one of the two paths is \<open>.\<close>, the whole repository, which at most one of them owns: the
  code compares it as a text like any other.
\<close>

theorem scheduled_paths_disjoint:
  assumes "reachable (run_init st) (sched_step st) (d, hist)"
    and "store_load (st_env st) (st_checksum st) (st_run st) d = Inr s" and "i \<in> leased s"
  shows "owns_paths s i \<and> (\<forall>j \<in> leased s. i \<noteq> j \<longrightarrow> (\<forall>p \<in> set (owned s i). \<forall>q \<in> set (owned s j).
     (p \<noteq> ''.'' \<and> q \<noteq> ''.'' \<longrightarrow> \<not> (\<exists>f. path_holds p f \<and> path_holds q f)) \<and> \<not> (p = ''.'' \<and> q = ''.'')))"
proof -
  have "current st d = Some s" using assms(2) by (simp add: load_Inr)
  then have "leases_disjoint s"
    using sched.reachable_inv [OF assms(1)] cfg_current(2) [of st d hist] unread_current [of st d hist]
    by (auto simp: sched_inv_def)
  then have own: "owns_paths s i" and no: "\<And>j. j \<in> leased s \<Longrightarrow> i \<noteq> j \<Longrightarrow> \<not> sched_overlap (owned s i) (owned s j)"
    using assms(3) by (auto simp: leases_disjoint_def)
  have "p \<noteq> q \<and> \<not> startswith p (q @ ''/'') \<and> \<not> startswith q (p @ ''/'')"
    if "j \<in> leased s" "i \<noteq> j" "p \<in> set (owned s i)" "q \<in> set (owned s j)" for j p q
    using no [OF that(1,2)] that(3,4) by (auto simp: sched_overlap_def)
  then show ?thesis using own holds_comparable by blast
qed

section \<open>A concrete run\<close>

definition two_plan :: pymap where
  "two_plan = str_keyed [(''tasks'', PList
     [PDict (str_keyed [(''id'', PStr ''t''), (''paths'', PList [PStr ''src/t''])]),
      PDict (str_keyed [(''id'', PStr ''u''), (''paths'', PList [PStr ''src/u''])])])]"

definition two_sched :: sched where
  "two_sched = \<lparr>sc_store = demo_store, sc_owner = ''o'', sc_max_parallel = 2, sc_worker_claims = []\<rparr>"

lemma two_fields: "sn_owner (started two_plan) = ''o''" "sn_generation (started two_plan) = 0" "sn_leases (started two_plan) = []"
    "\<not> terminal_task (started two_plan) i" "sn_run_id (started two_plan) = ''r''" "started two_plan\<lparr>sn_leases := []\<rparr> = started two_plan"
  by (simp_all add: started_def fresh_snapshot_def terminal_task_def)

lemma two_known: "known_tasks (started two_plan) = {''t'', ''u''}"
  by (auto simp: known_tasks_def started_def fresh_snapshot_def two_plan_def str_keyed_def)

lemma two_ready: "ready_ids_from_state (started two_plan) (Some ''1'') = Inr [''t'', ''u'']"
  by code_simp

lemma two_select: "sched_select 2 (started two_plan) [''t'', ''u''] 2 ''1'' = Inr (Some [''t'', ''u''])"
  by code_simp

definition two_claimed :: snapshot where
  "two_claimed = bump ''1'' (install_leases ''o'' ''60000001'' [''l1'', ''l2''] [''t'', ''u''] (started two_plan))"

lemma two_change: "\<exists>tks. claim_many_change demo_env [''t'', ''u''] ''o'' 2 60 (Some (sched_select 2)) ''1'' [''l1'', ''l2''] (started two_plan)
    = Inr (Some (install_leases ''o'' ''60000001'' [''l1'', ''l2''] [''t'', ''u''] (started two_plan)), tks) \<and> tks \<noteq> []"
proof -
  have "clock_value demo_env ''1'' = Inr ''1''" by (simp add: clock_value_def demo_times)
  moreover have "plus_seconds demo_env ''1'' 60 = Inr ''60000001''" by (simp add: plus_seconds_def demo_times)
  ultimately show ?thesis
    by (simp only: claim_many_change_def two_fields filter.simps dkeys_def list.map)
       (simp add: two_known two_fields two_select dkeys_def Let_def)
qed

lemma two_claim: "\<exists>sc' tks ds. sched_claim two_sched ''w'' None 60 (Some ''1'') [''l1'', ''l2''] ''1'' ''1'' (started_disk two_plan)
    = Inr (sc', tks, two_claimed, ds)"
proof -
  have cur: "valid_snapshot demo_env (\<lambda>_. ''c'') ''r'' (started_disk two_plan) = Some (started two_plan)"
    using cfg_current [of demo_store "started_disk two_plan" "[started two_plan]"] rs.inv_start [OF started_init, of two_plan]
    by (fastforce simp: run_inv_def unread_def)
  have ids: "ID_OK ''t''" "ID_OK ''u''"
    by (simp_all add: ID_OK_def ID_RE_def fullmatch_head_star ascii_alnum_def in_range_def)
  obtain tks where ch: "claim_many_change demo_env [''t'', ''u''] ''o'' 2 60 (Some (sched_select 2)) ''1'' [''l1'', ''l2''] (started two_plan)
    = Inr (Some (install_leases ''o'' ''60000001'' [''l1'', ''l2''] [''t'', ''u''] (started two_plan)), tks)" "tks \<noteq> []"
    using two_change by blast
  obtain ds where w: "write_states demo_env (\<lambda>_. ''c'') ''r'' two_claimed (started_disk two_plan) = Inr ds"
    by (simp add: write_states_def started_disk_def seal_def Let_def)
  have "store_claim_many demo_store [''t'', ''u''] ''o'' 2 60 (Some (sched_select 2)) [''l1'', ''l2''] ''1'' ''1'' (started_disk two_plan)
      = Inr (tks, two_claimed, ds)"
    using w by (simp add: store_claim_many_def ids owned_snapshot_def cur two_fields ch clock_value_def demo_times two_claimed_def)
  moreover have "store_load demo_env (\<lambda>_. ''c'') ''r'' (started_disk two_plan) = Inr (started two_plan)"
    using cur by (simp add: store_load_def)
  ultimately show ?thesis by (simp add: sched_claim_def two_sched_def two_ready)
qed

theorem scheduled_paths_disjoint_witness:
  "\<exists>d. reachable (run_init demo_store) (sched_step demo_store) (d, [two_claimed, started two_plan])
     \<and> leased two_claimed = {''t'', ''u''} \<and> owns_paths two_claimed ''t''
     \<and> (\<forall>p \<in> set (owned two_claimed ''t''). \<forall>q \<in> set (owned two_claimed ''u''). \<not> (p = ''.'' \<and> q = ''.''))"
proof -
  obtain sc' tks ds where cl: "sched_claim two_sched ''w'' None 60 (Some ''1'') [''l1'', ''l2''] ''1'' ''1'' (started_disk two_plan)
    = Inr (sc', tks, two_claimed, ds)" using two_claim by blast
  have ld: "leased two_claimed = {''t'', ''u''}"
    by (auto simp: two_claimed_def bump_def install_leases_def leased_def two_fields dkeys_def dset_def)
  have ld0: "leased (started two_plan) = {}" by (simp add: leased_def two_fields dkeys_def)
  have ne: "two_claimed \<noteq> started two_plan"
  proof
    assume "two_claimed = started two_plan"
    with ld0 have "leased two_claimed = {}" by simp
    with ld show False by simp
  qed
  have rs: "ready_state demo_store (started_disk two_plan) (started two_plan)"
    using cfg_current [of demo_store "started_disk two_plan" "[started two_plan]"] rs.inv_start [OF started_init, of two_plan]
    by (fastforce simp: run_inv_def ready_state_def unread_def)
  have "list_all ID_OK [''l1'', ''l2'']" using demo_ids by simp
  note out = sched_claim_outcome(1) [OF cl _ rs this]
  have ds: "ds \<noteq> []" using out ne by (auto simp: op_outcome_def two_sched_def write_states_def Let_def split: if_splits)
  have "sched_step demo_store (started_disk two_plan, [started two_plan])
      (last ds, landed ds (last ds) two_claimed [started two_plan])"
    by (rule by_claim [OF cl]) (use ds demo_ids in \<open>simp_all add: two_sched_def\<close>)
  then have "sched_step demo_store (started_disk two_plan, [started two_plan]) (last ds, [two_claimed, started two_plan])"
    using ne by (simp add: landed_def)
  then have r: "reachable (run_init demo_store) (sched_step demo_store) (last ds, [two_claimed, started two_plan])"
    by (rule reachable_next [OF reachable_start, rotated]) (rule started_init)
  have "sched_inv demo_store (last ds, [two_claimed, started two_plan])"
    using sched.reachable_inv [OF r] by (auto simp: unread_def)
  then have "store_load (st_env demo_store) (st_checksum demo_store) (st_run demo_store) (last ds) = Inr two_claimed"
    unfolding load_Inr using cfg_current(2) by (fastforce simp: sched_inv_def)
  from scheduled_paths_disjoint [OF r this, of "''t''"] ld
  have "owns_paths two_claimed ''t'' \<and> (\<forall>p \<in> set (owned two_claimed ''t''). \<forall>q \<in> set (owned two_claimed ''u''). \<not> (p = ''.'' \<and> q = ''.''))"
    by simp
  with r ld show ?thesis by blast
qed

text \<open>
  A task that owns \<open>.\<close>, the whole repository, is not seen to overlap with any other path: both checks
  compare texts, and no path begins with \<open>./\<close> after normalisation.
\<close>

lemma whole_repository_unseen:
  "sched_path (PStr ''./'') = Inr ''.'' \<and> sched_path (PStr ''src'') = Inr ''src'' \<and> \<not> sched_overlap [''.''] [''src'']"
  by code_simp

end
