(* ===== verification/JsonValue.thy ===== *)
theory JsonValue
  imports PyValue
begin

text \<open>
  Values on their way to JSON: the validating deep copies with which the fleet modules take payloads
  in, and the compact text of \<open>json.dumps\<close> with sorted keys. The text of a float is a parameter.
\<close>

section \<open>Validated copies\<close>

text \<open>
  The copy that \<open>contracts._json_safe\<close> and \<open>gates._safe\<close> make: mappings become dictionaries, sequences
  become lists, keys must be non-empty strings and floats finite. With \<open>plain\<close> only exact dictionaries
  are taken for mappings, as \<open>gates._plain_json\<close> does. \<open>None\<close> is a rejected value; cyclic values do not
  occur.
\<close>

function (sequential) json_copy :: "bool \<Rightarrow> pyval \<Rightarrow> pyval option" where
  "json_copy plain (PDict d) = map_option PDict (those (map (\<lambda>kv. case as_str (fst kv) of
       None \<Rightarrow> None
     | Some k \<Rightarrow> if k = [] then None else map_option (Pair (fst kv)) (json_copy plain (snd kv))) d))"
| "json_copy plain (PProxy d) = (if plain then None else map_option PDict (those (map (\<lambda>kv. case as_str (fst kv) of
       None \<Rightarrow> None
     | Some k \<Rightarrow> if k = [] then None else map_option (Pair (fst kv)) (json_copy plain (snd kv))) d)))"
| "json_copy plain (PList xs) = map_option PList (those (map (json_copy plain) xs))"
| "json_copy plain (PTuple xs) = map_option PList (those (map (json_copy plain) xs))"
| "json_copy plain (PFloat f) = (if as_finite f = None then None else Some (PFloat f))"
| "json_copy plain (POther n) = None"
| "json_copy plain v = Some v"
  by pat_completeness auto
termination
  by (relation "measure (size \<circ> snd)")
     (auto dest: py_pair_size size_list_estimation' [of _ _ _ size, OF _ order_refl] simp: less_Suc_eq_le)

text \<open>The values that such a copy produces.\<close>

function (sequential) is_json :: "pyval \<Rightarrow> bool" where
  "is_json (PDict d) = (\<forall>kv \<in> set d. (case as_str (fst kv) of None \<Rightarrow> False | Some k \<Rightarrow> k \<noteq> []) \<and> is_json (snd kv))"
| "is_json (PProxy d) = False"
| "is_json (PList xs) = (\<forall>x \<in> set xs. is_json x)"
| "is_json (PTuple xs) = False"
| "is_json (PFloat f) = (as_finite f \<noteq> None)"
| "is_json (POther n) = False"
| "is_json v = True"
  by pat_completeness auto
termination
  by (relation "measure size")
     (auto dest: py_pair_size size_list_estimation' [of _ _ _ size, OF _ order_refl] simp: less_Suc_eq_le)

lemma those_Some: "those xs = Some ys \<longleftrightarrow> xs = map Some ys"
proof (induction xs arbitrary: ys)
  case (Cons x xs)
  then show ?case by (cases x) (auto simp: Cons_eq_map_conv)
qed auto

lemma those_map_Some: "(\<And>x. x \<in> set xs \<Longrightarrow> f x = Some (g x)) \<Longrightarrow> those (map f xs) = Some (map g xs)"
  by (induction xs) auto

lemma those_map_id: "(\<And>x. x \<in> set xs \<Longrightarrow> f x = Some x) \<Longrightarrow> those (map f xs) = Some xs"
  using those_map_Some [of xs f id] by simp

lemma those_mapD: "those (map f xs) = Some ys \<Longrightarrow> list_all2 (\<lambda>x y. f x = Some y) xs ys"
  by (simp add: those_Some list_all2_conv_all_nth) (metis length_map nth_map)

lemma those_map_set: "those (map f xs) = Some ys \<Longrightarrow> y \<in> set ys \<Longrightarrow> \<exists>x \<in> set xs. f x = Some y"
  by (induction xs arbitrary: ys) (auto split: option.splits)

lemma json_copy_id: "is_json v \<Longrightarrow> json_copy plain v = Some v"
proof (induction v rule: is_json.induct)
  case (1 d)
  have "those (map (\<lambda>kv. case as_str (fst kv) of None \<Rightarrow> None
     | Some k \<Rightarrow> if k = [] then None else map_option (Pair (fst kv)) (json_copy plain (snd kv))) d) = Some d"
    by (rule those_map_id) (use 1 in \<open>auto split: option.splits\<close>)
  then show ?case by simp
next
  case (3 xs)
  have "those (map (json_copy plain) xs) = Some xs" by (rule those_map_id) (use 3 in auto)
  then show ?case by simp
qed auto

lemma json_copy_is_json: "json_copy plain v = Some w \<Longrightarrow> is_json w"
proof (induction plain v arbitrary: w rule: json_copy.induct)
  case (1 plain d)
  then obtain e where w: "w = PDict e" and e: "those (map (\<lambda>kv. case as_str (fst kv) of None \<Rightarrow> None
     | Some k \<Rightarrow> if k = [] then None else map_option (Pair (fst kv)) (json_copy plain (snd kv))) d) = Some e" by auto
  have "(case as_str (fst kw) of None \<Rightarrow> False | Some k \<Rightarrow> k \<noteq> []) \<and> is_json (snd kw)" if "kw \<in> set e" for kw
    using those_map_set [OF e that] "1.IH" by (auto split: option.splits if_splits)
  then show ?case by (simp add: w)
next
  case (2 plain d)
  then obtain e where w: "w = PDict e" and e: "those (map (\<lambda>kv. case as_str (fst kv) of None \<Rightarrow> None
     | Some k \<Rightarrow> if k = [] then None else map_option (Pair (fst kv)) (json_copy plain (snd kv))) d) = Some e"
    and np: "\<not> plain" by (auto split: if_splits)
  have "(case as_str (fst kw) of None \<Rightarrow> False | Some k \<Rightarrow> k \<noteq> []) \<and> is_json (snd kw)" if "kw \<in> set e" for kw
    using those_map_set [OF e that] "2.IH" np by (auto split: option.splits if_splits)
  then show ?case by (simp add: w)
next
  case (3 plain xs)
  then obtain ys where w: "w = PList ys" and ys: "those (map (json_copy plain) xs) = Some ys" by auto
  then show ?case using those_map_set [OF ys] "3.IH" by auto
next
  case (4 plain xs)
  then obtain ys where w: "w = PList ys" and ys: "those (map (json_copy plain) xs) = Some ys" by auto
  then show ?case using those_map_set [OF ys] "4.IH" by auto
qed (auto split: if_splits)

text \<open>\<open>d[k] = v\<close>.\<close>

definition mset_key :: "pyval \<Rightarrow> pyval \<Rightarrow> pymap \<Rightarrow> pymap" where
  "mset_key k v d = AList.update k v d"

text \<open>\<open>d.setdefault(k, v)\<close> for a text key.\<close>

definition mset_default :: "string \<Rightarrow> pyval \<Rightarrow> pymap \<Rightarrow> pymap" where
  "mset_default k v d = (if mhas d k then d else d @ [(PStr k, v)])"

section \<open>JSON text\<close>

text \<open>\<open>json.dumps\<close> of a string with \<open>ensure_ascii=False\<close>.\<close>

definition json_hex :: "nat \<Rightarrow> char" where
  "json_hex n = (if n < 10 then char_of (48 + n) else char_of (87 + n))"

definition json_escape :: "char \<Rightarrow> string" where
  "json_escape c = (let n = (of_char c :: nat); bs = CHR 0x5C in
     if n = 34 \<or> n = 92 then [bs, c]
     else if n = 10 then [bs, CHR ''n''] else if n = 13 then [bs, CHR ''r''] else if n = 9 then [bs, CHR ''t'']
     else if n = 8 then [bs, CHR ''b''] else if n = 12 then [bs, CHR ''f'']
     else if n < 32 then bs # ''u00'' @ [json_hex (n div 16), json_hex (n mod 16)]
     else [c])"

definition json_str :: "string \<Rightarrow> string" where
  "json_str s = CHR 0x22 # concat (map json_escape s) @ [CHR 0x22]"

text \<open>
  Keys: a key that is a number, a truth value or \<open>None\<close> is written as its text, and the items are sorted
  by key, which raises for keys that do not compare. Keys of a dictionary are pairwise different.
\<close>

fun key_text :: "(rat \<Rightarrow> string) \<Rightarrow> pyval \<Rightarrow> string option" where
  "key_text rep (PStr s) = Some s"
| "key_text rep PNone = Some ''null''"
| "key_text rep (PBool b) = Some (if b then ''true'' else ''false'')"
| "key_text rep (PInt n) = Some (int_text n)"
| "key_text rep (PFloat f) = map_option rep (as_finite f)"
| "key_text rep v = None"

definition key_number :: "pyval \<Rightarrow> rat option" where
  "key_number v = Option.bind (as_number v) as_finite"

definition sort_items :: "(pyval \<times> 'a) list \<Rightarrow> (pyval \<times> 'a) list option" where
  "sort_items its = (if list_all (\<lambda>kt. as_str (fst kt) \<noteq> None) its then Some (sort_key (\<lambda>kt. the (as_str (fst kt))) its)
     else if list_all (\<lambda>kt. key_number (fst kt) \<noteq> None) its then Some (sort_key (\<lambda>kt. the (key_number (fst kt))) its)
     else if length its \<le> 1 then Some its else None)"

text \<open>
  \<open>json.dumps(v, sort_keys=True, ensure_ascii=False, separators=(",", ":"), allow_nan=False)\<close>. \<open>None\<close> is a
  \<open>TypeError\<close> or a \<open>ValueError\<close>.
\<close>

function (sequential) json_text :: "(rat \<Rightarrow> string) \<Rightarrow> pyval \<Rightarrow> string option" where
  "json_text rep (PDict d) = Option.bind (those (map (\<lambda>kv. case key_text rep (fst kv) of None \<Rightarrow> None
       | Some k \<Rightarrow> map_option (\<lambda>t. (fst kv, json_str k @ '':'' @ t)) (json_text rep (snd kv))) d)) (\<lambda>its.
     map_option (\<lambda>ts. ''{'' @ join '','' (map snd ts) @ ''}'') (sort_items its))"
| "json_text rep (PList xs) = map_option (\<lambda>ts. ''['' @ join '','' ts @ '']'') (those (map (json_text rep) xs))"
| "json_text rep (PTuple xs) = map_option (\<lambda>ts. ''['' @ join '','' ts @ '']'') (those (map (json_text rep) xs))"
| "json_text rep PNone = Some ''null''"
| "json_text rep (PBool b) = Some (if b then ''true'' else ''false'')"
| "json_text rep (PInt n) = Some (int_text n)"
| "json_text rep (PFloat f) = map_option rep (as_finite f)"
| "json_text rep (PStr s) = Some (json_str s)"
| "json_text rep v = None"
  by pat_completeness auto
termination
  by (relation "measure (size \<circ> snd)")
     (auto dest: py_pair_size size_list_estimation' [of _ _ _ size, OF _ order_refl] simp: less_Suc_eq_le)

lemma key_text_str: "as_str v \<noteq> None \<Longrightarrow> key_text rep v = as_str v"
  by (cases v) auto

lemma insort_key_map: "insort_key f (g x) (map g xs) = map g (insort_key (\<lambda>y. f (g y)) x xs)"
  by (induction xs) auto

lemma sort_key_map: "sort_key f (map g xs) = map g (sort_key (\<lambda>y. f (g y)) xs)"
  by (induction xs) (simp_all add: insort_key_map)

lemma sort_map: "sort (map g xs) = map g (sort_key g xs)"
  using sort_key_map [of "\<lambda>x. x" g xs] by simp

text \<open>The text of a dictionary with string keys: the items in the order of their keys.\<close>

lemma json_text_items:
  assumes "\<And>x. x \<in> set xs \<Longrightarrow> as_str (fst (h x)) = Some (k x) \<and> json_text rep (snd (h x)) = Some (s x)"
  shows "json_text rep (PDict (map h xs))
    = Some (''{'' @ join '','' (map (\<lambda>(k, t). json_str k @ '':'' @ t) (sort_key fst (map (\<lambda>x. (k x, s x)) xs))) @ ''}'')"
proof -
  let ?f = "\<lambda>kv. case key_text rep (fst kv) of None \<Rightarrow> None
       | Some k \<Rightarrow> map_option (\<lambda>t. (fst kv, json_str k @ '':'' @ t)) (json_text rep (snd kv))"
  let ?e = "\<lambda>(k, t). (PStr k, json_str k @ '':'' @ t)"
  have "?f (h x) = Some (?e (k x, s x))" if "x \<in> set xs" for x using assms [OF that] by simp
  then have "those (map ?f (map h xs)) = Some (map (\<lambda>x. ?e (k x, s x)) xs)"
    using those_map_Some [of xs "\<lambda>x. ?f (h x)" "\<lambda>x. ?e (k x, s x)"] by (simp add: comp_def)
  moreover have "sort_items (map (\<lambda>x. ?e (k x, s x)) xs) = Some (map ?e (sort_key fst (map (\<lambda>x. (k x, s x)) xs)))"
    by (simp add: sort_items_def list_all_iff sort_key_map comp_def)
  ultimately show ?thesis by (simp add: comp_def case_prod_unfold)
qed

lemma json_text_total: "is_json v \<Longrightarrow> \<exists>t. json_text rep v = Some t"
proof (induction v rule: is_json.induct)
  case (1 d)
  have "as_str (fst (id kv)) = Some (the (as_str (fst kv))) \<and> json_text rep (snd (id kv)) = Some (the (json_text rep (snd kv)))"
    if "kv \<in> set d" for kv
  proof -
    have "as_str (fst kv) \<noteq> None" "is_json (snd kv)" using 1(2) that by (auto split: option.splits)
    then show ?thesis using 1(1) that by fastforce
  qed
  then have "\<exists>t. json_text rep (PDict (map id d)) = Some t" using json_text_items [of d id "\<lambda>kv. the (as_str (fst kv))" rep "\<lambda>kv. the (json_text rep (snd kv))"] by simp
  then show ?case by simp
next
  case (3 xs)
  have "those (map (json_text rep) xs) = Some (map (the \<circ> json_text rep) xs)"
    by (rule those_map_Some) (use 3 in fastforce)
  then show ?case by simp
qed auto

end
