(* ===== verification/Gates.thy ===== *)
theory Gates
  imports JsonValue RegexFast "HOL-Library.Multiset"
begin

text \<open>
  The gate policy engine, \<open>scripts/pd_fleet/gates.py\<close>: gate results with their state machine, policies
  that decide whether a result lets work pass, and human verification gates that are bound to a run, a
  scope, two digests and a freshness window. Instants are microseconds since the epoch; the reading of
  ISO-8601 texts and the text of floats are parameters. All diagnostics are \<open>GateError\<close>; the other errors
  are the \<open>OverflowError\<close> of date arithmetic and the \<open>ValueError\<close> of a bad clock (\<open>clock.py\<close>).
\<close>

datatype gate_error = GateError | GateOverflow | ClockError

type_synonym 'a gres = "(gate_error, 'a) result"

datatype GateStatus = G_PENDING | G_RUNNING | G_PASSED | G_FAILED | G_BLOCKED

datatype HumanDecision = H_APPROVED | H_REJECTED | H_PENDING

definition GATE_TYPES :: "string list" where
  "GATE_TYPES = [''review'', ''grill'', ''smoke_test'', ''evidence'']"

definition REQUIREMENT_KEYS :: "string list" where
  "REQUIREMENT_KEYS = [''owner'', ''decision'', ''evidence'', ''reports'', ''no_blockers'']"

fun gate_status_value :: "GateStatus \<Rightarrow> string" where
  "gate_status_value G_PENDING = ''pending''"
| "gate_status_value G_RUNNING = ''running''"
| "gate_status_value G_PASSED = ''passed''"
| "gate_status_value G_FAILED = ''failed''"
| "gate_status_value G_BLOCKED = ''blocked''"

fun human_value :: "HumanDecision \<Rightarrow> string" where
  "human_value H_APPROVED = ''APPROVED''"
| "human_value H_REJECTED = ''REJECTED''"
| "human_value H_PENDING = ''PENDING''"

section \<open>Field checks\<close>

text \<open>A time argument: a text, an aware datetime with offset zero, or anything else.\<close>

datatype stamp_arg = StampText string | StampUtc int | StampBad

definition utc_datetime :: "(string \<Rightarrow> int option) \<Rightarrow> stamp_arg \<Rightarrow> int gres" where
  "utc_datetime parse a = (case a of
       StampText s \<Rightarrow> (case parse s of None \<Rightarrow> Inl GateError | Some t \<Rightarrow> Inr t)
     | StampUtc t \<Rightarrow> Inr t
     | StampBad \<Rightarrow> Inl GateError)"

definition clock_now :: "(string \<Rightarrow> int option) \<Rightarrow> stamp_arg \<Rightarrow> int gres" where
  "clock_now parse a = (case a of
       StampText s \<Rightarrow> (case parse s of None \<Rightarrow> Inl ClockError | Some t \<Rightarrow> Inr t)
     | StampUtc t \<Rightarrow> Inr t
     | StampBad \<Rightarrow> Inl ClockError)"

definition SHA256 :: regex where
  "SHA256 = seqs [Bos, Rep 64 (Some 64) (Cls (\<lambda>c. in_range 48 57 c \<or> in_range 97 102 c)), Dollar]"

definition gate_digest :: "pyval \<Rightarrow> string gres" where
  "gate_digest v = (case as_str v of None \<Rightarrow> Inl GateError
     | Some s \<Rightarrow> if re_fullmatch SHA256 s then Inr s else Inl GateError)"

text \<open>\<open>str(value).upper()\<close>; only the three ASCII texts matter.\<close>

definition upper_char :: "char \<Rightarrow> char" where
  "upper_char c = (if in_range 97 122 c then char_of ((of_char c :: nat) - 32) else c)"

definition human_decision :: "pyval \<Rightarrow> HumanDecision gres" where
  "human_decision v = (case as_str v of None \<Rightarrow> Inl GateError
     | Some s \<Rightarrow> let u = map upper_char s in
         if u = ''APPROVED'' then Inr H_APPROVED else if u = ''REJECTED'' then Inr H_REJECTED
         else if u = ''PENDING'' then Inr H_PENDING else Inl GateError)"

definition gate_safe :: "pyval \<Rightarrow> pyval gres" where
  "gate_safe v = (case json_copy False v of None \<Rightarrow> Inl GateError | Some w \<Rightarrow> Inr w)"

definition plain_json :: "pyval \<Rightarrow> pyval gres" where
  "plain_json v = (case json_copy True v of None \<Rightarrow> Inl GateError | Some w \<Rightarrow> Inr w)"

definition gate_text :: "pyval \<Rightarrow> string gres" where
  "gate_text v = (case as_str v of None \<Rightarrow> Inl GateError | Some s \<Rightarrow> if blank s then Inl GateError else Inr (strip s))"

definition gate_opt_text :: "pyval \<Rightarrow> string option gres" where
  "gate_opt_text v = (if v = PNone then Inr None else
     case as_str v of None \<Rightarrow> Inl GateError | Some s \<Rightarrow> Inr (Some (strip s)))"

definition gate_status :: "pyval \<Rightarrow> GateStatus gres" where
  "gate_status v = (case v of
       PStr s \<Rightarrow> if s = ''pending'' then Inr G_PENDING else if s = ''running'' then Inr G_RUNNING
         else if s = ''passed'' then Inr G_PASSED else if s = ''failed'' then Inr G_FAILED
         else if s = ''blocked'' then Inr G_BLOCKED else Inl GateError
     | _ \<Rightarrow> Inl GateError)"

definition gate_items :: "pyval \<Rightarrow> pyval list gres" where
  "gate_items v = (if v = PNone then Inr [] else case as_sequence v of None \<Rightarrow> Inl GateError | Some xs \<Rightarrow> Inr xs)"

definition gate_list :: "pyval \<Rightarrow> pyval list gres" where
  "gate_list v = bindR (gate_items v) (\<lambda>xs. bindR (gate_safe (PList xs)) (\<lambda>w.
     case as_plist w of None \<Rightarrow> Inl GateError | Some ys \<Rightarrow> Inr ys))"

definition reference_ok :: "pyval \<Rightarrow> bool" where
  "reference_ok v = (case v of
       PStr s \<Rightarrow> \<not> blank s
     | PDict d \<Rightarrow> (\<exists>k \<in> {''ref'', ''id'', ''path'', ''name''}. case mget d k of Some (PStr s) \<Rightarrow> \<not> blank s | _ \<Rightarrow> False)
     | _ \<Rightarrow> False)"

definition gate_references :: "pyval \<Rightarrow> pyval list gres" where
  "gate_references v = bindR (gate_list v) (\<lambda>xs. if \<forall>x \<in> set xs. reference_ok x then Inr xs else Inl GateError)"

section \<open>Scopes and blockers\<close>

text \<open>\<open>_frozen_policy\<close> of a copied value: dictionaries become read-only views, lists tuples.\<close>

function (sequential) freeze :: "pyval \<Rightarrow> pyval" where
  "freeze (PDict d) = PProxy (map (\<lambda>kv. (fst kv, freeze (snd kv))) d)"
| "freeze (PList xs) = PTuple (map freeze xs)"
| "freeze v = v"
  by pat_completeness auto
termination
  by (relation "measure size")
     (auto dest: py_pair_size size_list_estimation' [of _ _ _ size, OF _ order_refl] simp: less_Suc_eq_le)

definition frozen_policy :: "pyval \<Rightarrow> pyval gres" where
  "frozen_policy v = bindR (gate_safe v) (\<lambda>w. Inr (freeze w))"

definition text_key :: "(rat \<Rightarrow> string) \<Rightarrow> pyval \<Rightarrow> string" where
  "text_key rep v = (case json_text rep v of None \<Rightarrow> [] | Some t \<Rightarrow> t)"

definition item_key :: "pyval \<times> pyval \<Rightarrow> string" where
  "item_key kv = (case as_str (fst kv) of None \<Rightarrow> [] | Some k \<Rightarrow> k)"

function (sequential) norm_scope :: "(rat \<Rightarrow> string) \<Rightarrow> pyval \<Rightarrow> pyval" where
  "norm_scope rep (PDict d) = PDict (map (\<lambda>kv. (fst kv, norm_scope rep (snd kv))) (sort_key item_key d))"
| "norm_scope rep (PList xs) = PList (sort_key (text_key rep) (map (norm_scope rep) xs))"
| "norm_scope rep v = v"
  by pat_completeness auto
termination
  by (relation "measure (size \<circ> snd)")
     (auto dest: py_pair_size size_list_estimation' [of _ _ _ size, OF _ order_refl] simp: less_Suc_eq_le)

definition canonical_scope :: "(rat \<Rightarrow> string) \<Rightarrow> pyval \<Rightarrow> string option" where
  "canonical_scope rep v = (case plain_json v of Inl e \<Rightarrow> None | Inr p \<Rightarrow> json_text rep (norm_scope rep p))"

definition open_blocker :: "pyval \<Rightarrow> bool" where
  "open_blocker item = (case as_mapping item of
       None \<Rightarrow> True
     | Some m \<Rightarrow>
         (case (as_str (mget_or m ''severity'' (mget_or m ''level'' PNone)), as_str (mget_or m ''status'' PNone)) of
            (Some sev, Some st) \<Rightarrow>
              (let severity = casefold (strip sev); status = casefold (strip st) in
               if severity \<notin> {''blocker'', ''critical'', ''high'', ''medium'', ''low'', ''info''}
                 \<or> status \<notin> {''open'', ''pending'', ''active'', ''in_progress'', ''in-progress'', ''unresolved'',
                              ''closed'', ''resolved'', ''done'', ''passed''} then True
               else status \<notin> {''closed'', ''resolved'', ''done'', ''passed''} \<and> severity \<in> {''blocker'', ''critical'', ''high''})
          | _ \<Rightarrow> True))"

section \<open>Gate results\<close>

record GateResult =
  gr_gate_id :: string
  gr_gate_type :: string
  gr_status :: GateStatus
  gr_owner :: "string option"
  gr_decision :: "string option"
  gr_blockers :: "pyval list"
  gr_evidence :: "pyval list"
  gr_reports :: "pyval list"
  gr_details :: pymap

definition filled_text :: "string option \<Rightarrow> bool" where
  "filled_text x \<longleftrightarrow> x \<noteq> None \<and> x \<noteq> Some []"

definition passes_gate_contract :: "GateResult \<Rightarrow> bool" where
  "passes_gate_contract g \<longleftrightarrow> filled_text (gr_owner g) \<and> filled_text (gr_decision g) \<and> gr_evidence g \<noteq> []
     \<and> gr_reports g \<noteq> [] \<and> \<not> (\<exists>x \<in> set (gr_blockers g). open_blocker x)"

text \<open>The constructor with its \<open>__post_init__\<close>.\<close>

definition GateResult_new ::
  "pyval \<Rightarrow> pyval \<Rightarrow> pyval \<Rightarrow> pyval \<Rightarrow> pyval \<Rightarrow> pyval \<Rightarrow> pyval \<Rightarrow> pyval \<Rightarrow> pyval \<Rightarrow> GateResult gres" where
  "GateResult_new gate_id gate_type status owner decision blockers evidence reports details =
     bindR (gate_text gate_id) (\<lambda>i.
     bindR (gate_text gate_type) (\<lambda>ty.
     if ty \<notin> set GATE_TYPES then Inl GateError else
     bindR (gate_status status) (\<lambda>st.
     bindR (gate_opt_text owner) (\<lambda>ow.
     bindR (gate_opt_text decision) (\<lambda>de.
     bindR (gate_list blockers) (\<lambda>bl.
     bindR (gate_references evidence) (\<lambda>ev.
     bindR (gate_references reports) (\<lambda>re.
     if as_mapping details = None then Inl GateError else
     bindR (gate_safe details) (\<lambda>dt. case as_pdict dt of
       None \<Rightarrow> Inl GateError
     | Some d \<Rightarrow>
         (let g = \<lparr>gr_gate_id = i, gr_gate_type = ty, gr_status = st, gr_owner = ow, gr_decision = de, gr_blockers = bl,
                   gr_evidence = ev, gr_reports = re, gr_details = d\<rparr>
          in if st = G_PASSED \<and> \<not> passes_gate_contract g then Inl GateError else Inr g))))))))))"

definition GateResult_from_dict :: "pyval \<Rightarrow> GateResult gres" where
  "GateResult_from_dict v = (case as_mapping v of
       None \<Rightarrow> Inl GateError
     | Some m \<Rightarrow> GateResult_new (mget_or m ''gate_id'' (mget_or m ''id'' PNone))
         (mget_or m ''gate_type'' (mget_or m ''kind'' (mget_or m ''type'' PNone)))
         (mget_or m ''status'' (PStr ''pending'')) (mget_or m ''owner'' PNone) (mget_or m ''decision'' PNone)
         (mget_or m ''blockers'' (PList [])) (mget_or m ''evidence'' (mget_or m ''evidence_refs'' (PList [])))
         (mget_or m ''reports'' (PList [])) (mget_or m ''details'' (PDict [])))"

definition gate_opt_str :: "string option \<Rightarrow> pyval" where
  "gate_opt_str x = (case x of None \<Rightarrow> PNone | Some s \<Rightarrow> PStr s)"

definition GateResult_to_dict :: "GateResult \<Rightarrow> pyval" where
  "GateResult_to_dict g = PDict (str_keyed [(''gate_id'', PStr (gr_gate_id g)), (''gate_type'', PStr (gr_gate_type g)),
     (''status'', PStr (gate_status_value (gr_status g))), (''owner'', gate_opt_str (gr_owner g)),
     (''decision'', gate_opt_str (gr_decision g)), (''blockers'', PList (gr_blockers g)), (''evidence'', PList (gr_evidence g)),
     (''reports'', PList (gr_reports g)), (''details'', PDict (gr_details g))])"

fun gate_allowed :: "GateStatus \<Rightarrow> GateStatus list" where
  "gate_allowed G_PENDING = [G_RUNNING, G_BLOCKED]"
| "gate_allowed G_RUNNING = [G_PASSED, G_FAILED, G_BLOCKED]"
| "gate_allowed G_FAILED = [G_RUNNING]"
| "gate_allowed G_BLOCKED = [G_RUNNING]"
| "gate_allowed G_PASSED = []"

text \<open>
  \<open>transition\<close> changes the object: the result is the object afterwards together with the outcome. A
  reason that is not a text is rejected after the status has been assigned.
\<close>

definition gate_transition :: "GateResult \<Rightarrow> pyval \<Rightarrow> pyval \<Rightarrow> GateResult \<times> unit gres" where
  "gate_transition g target reason = (case gate_status target of
       Inl e \<Rightarrow> (g, Inl e)
     | Inr t \<Rightarrow>
         if t \<notin> set (gate_allowed (gr_status g)) then (g, Inl GateError)
         else if t \<in> {G_PASSED, G_FAILED} \<and> (\<not> filled_text (gr_owner g) \<or> \<not> filled_text (gr_decision g)) then (g, Inl GateError)
         else if t = G_PASSED \<and> \<not> passes_gate_contract g then (g, Inl GateError)
         else let g1 = g\<lparr>gr_status := t\<rparr> in
           if reason = PNone then (g1, Inr ())
           else (case gate_text reason of
               Inl e \<Rightarrow> (g1, Inl e)
             | Inr r \<Rightarrow> (g1\<lparr>gr_details := AList.update (PStr ''reason'') (PStr r) (gr_details g1)\<rparr>, Inr ())))"

section \<open>Policies\<close>

record GatePolicy =
  gp_requirements :: "bool dict dict"
  gp_default_requirements :: "bool dict"

definition default_requirements :: "bool dict" where
  "default_requirements = map (\<lambda>k. (k, True)) REQUIREMENT_KEYS"

text \<open>A dictionary of requirements: known keys with booleans.\<close>

definition requirement_item :: "pyval \<times> pyval \<Rightarrow> (string \<times> bool) gres" where
  "requirement_item kv = (case as_str (fst kv) of
       None \<Rightarrow> Inl GateError
     | Some k \<Rightarrow> if k = [] \<or> k \<notin> set REQUIREMENT_KEYS then Inl GateError
         else (case as_bool (snd kv) of None \<Rightarrow> Inl GateError | Some b \<Rightarrow> Inr (k, b)))"

definition requirement_map :: "pyval \<Rightarrow> bool dict gres" where
  "requirement_map v = (case as_pdict v of None \<Rightarrow> Inl GateError | Some d \<Rightarrow> mapR requirement_item d)"

definition kind_item :: "pyval \<times> pyval \<Rightarrow> (string \<times> bool dict) gres" where
  "kind_item kv = (case as_str (fst kv) of
       None \<Rightarrow> Inl GateError
     | Some k \<Rightarrow> if k = [] \<or> k \<notin> set GATE_TYPES then Inl GateError
         else bindR (requirement_map (snd kv)) (\<lambda>r. Inr (k, r)))"

definition GatePolicy_new :: "pyval \<Rightarrow> pyval \<Rightarrow> GatePolicy gres" where
  "GatePolicy_new requirements defaults = (case as_pdict requirements of
       None \<Rightarrow> Inl GateError
     | Some d \<Rightarrow> bindR (mapR kind_item d) (\<lambda>rs. bindR (requirement_map defaults) (\<lambda>ds.
         Inr \<lparr>gp_requirements = rs, gp_default_requirements = ds\<rparr>)))"

definition GatePolicy_default :: GatePolicy where
  "GatePolicy_default = \<lparr>gp_requirements = [], gp_default_requirements = default_requirements\<rparr>"

definition bool_dict_value :: "bool dict \<Rightarrow> pyval" where
  "bool_dict_value d = PDict (map (\<lambda>(k, b). (PStr k, PBool b)) d)"

definition plain_dict :: "pyval \<Rightarrow> pyval gres" where
  "plain_dict v = (if as_pdict v = None then Inl GateError else plain_json v)"

text \<open>The two spellings of the requirements; when both are given they must be equal.\<close>

definition policy_requirements :: "pymap \<Rightarrow> pyval gres" where
  "policy_requirements d = (case (mget d ''requirements'', mget d ''gates'') of
       (Some r, Some g) \<Rightarrow> bindR (plain_dict r) (\<lambda>r. bindR (plain_dict g) (\<lambda>g.
         if \<not> py_eq r g then Inl GateError else Inr r))
     | (Some r, None) \<Rightarrow> plain_dict r
     | (None, Some g) \<Rightarrow> plain_dict g
     | (None, None) \<Rightarrow> Inr (PDict []))"

definition GatePolicy_from_dict :: "pyval \<Rightarrow> GatePolicy gres" where
  "GatePolicy_from_dict v = (if v = PNone then Inr GatePolicy_default else case as_pdict v of
       None \<Rightarrow> Inl GateError
     | Some d \<Rightarrow>
         if \<not> (\<forall>k \<in> set (map fst d). case as_str k of None \<Rightarrow> False
                | Some s \<Rightarrow> s \<in> {''requirements'', ''gates'', ''default_requirements''}) then Inl GateError
         else bindR (policy_requirements d) (\<lambda>req.
           bindR (case mget d ''default_requirements'' of None \<Rightarrow> Inr (bool_dict_value default_requirements)
                    | Some x \<Rightarrow> plain_dict x) (\<lambda>defaults.
           GatePolicy_new req defaults)))"

definition GatePolicy_to_dict :: "GatePolicy \<Rightarrow> pyval" where
  "GatePolicy_to_dict p = PDict (str_keyed
     [(''requirements'', PDict (map (\<lambda>(k, r). (PStr k, bool_dict_value r)) (gp_requirements p))),
      (''default_requirements'', bool_dict_value (gp_default_requirements p))])"

definition requirement :: "GatePolicy \<Rightarrow> string \<Rightarrow> string \<Rightarrow> bool" where
  "requirement p kind key = (case dget (dget_or (gp_requirements p) kind []) key of
       Some b \<Rightarrow> b
     | None \<Rightarrow> dget_or (gp_default_requirements p) key True)"

definition gate_evaluate :: "GatePolicy \<Rightarrow> GateResult \<Rightarrow> GateStatus" where
  "gate_evaluate p g = (let req = requirement p (gr_gate_type g) in
     if gr_status g \<in> {G_PENDING, G_RUNNING} then gr_status g
     else if (case gr_decision g of None \<Rightarrow> False
        | Some d \<Rightarrow> d \<noteq> [] \<and> lower d \<in> {''human'', ''human_required'', ''needs_approval'', ''pending''}) then G_PENDING
     else if gr_status g \<noteq> G_PASSED then gr_status g
     else if req ''owner'' \<and> \<not> filled_text (gr_owner g) then G_BLOCKED
     else if req ''decision'' \<and> \<not> filled_text (gr_decision g) then G_PENDING
     else if req ''evidence'' \<and> gr_evidence g = [] then G_BLOCKED
     else if req ''reports'' \<and> gr_reports g = [] then G_BLOCKED
     else if req ''no_blockers'' \<and> (\<exists>x \<in> set (gr_blockers g). open_blocker x) then G_BLOCKED
     else G_PASSED)"

definition gate_allows :: "GatePolicy \<Rightarrow> GateResult \<Rightarrow> bool" where
  "gate_allows p g \<longleftrightarrow> gate_evaluate p g = G_PASSED"

text \<open>\<open>evaluate\<close> of a mapping, which may be rejected.\<close>

definition gate_evaluate_value :: "GatePolicy \<Rightarrow> pyval \<Rightarrow> GateStatus gres" where
  "gate_evaluate_value p v = bindR (GateResult_from_dict v) (\<lambda>g. Inr (gate_evaluate p g))"

section \<open>Human verification\<close>

record HumanVerificationGate =
  hg_owner :: string
  hg_identity :: string
  hg_decision :: HumanDecision
  hg_scope :: pyval
  hg_run :: string
  hg_evidence_digest :: string
  hg_artifact_digest :: string
  hg_created_at :: int
  hg_updated_at :: int
  hg_freshness_window :: int
  hg_blockers :: "pyval list"

text \<open>
  A freshness window: a \<open>timedelta\<close> in microseconds (exact up to \<open>2 ^ 53\<close> of them) or any other value.
  \<open>timedelta\<close> holds at most 999999999 days, \<open>datetime\<close> ends with the year 9999; beyond, Python raises
  \<open>OverflowError\<close>.
\<close>

datatype window_arg = WindowDelta int | WindowValue pyval

definition TIMEDELTA_MAX :: int where "TIMEDELTA_MAX = 86399999999999999999"
definition DATETIME_MAX :: int where "DATETIME_MAX = 253402300799999999"

definition timedelta_seconds :: "rat \<Rightarrow> int gres" where
  "timedelta_seconds q = (if micros q > TIMEDELTA_MAX then Inl GateOverflow else Inr (micros q))"

definition freshness_micros :: "window_arg \<Rightarrow> int gres" where
  "freshness_micros w = (case w of
       WindowDelta m \<Rightarrow> if m \<le> 0 then Inl GateError else Inr m
     | WindowValue (PInt n) \<Rightarrow> (case float_of_int n of None \<Rightarrow> Inl GateOverflow
         | Some q \<Rightarrow> if q \<le> 0 then Inl GateError else timedelta_seconds q)
     | WindowValue (PFloat (Fin q)) \<Rightarrow> if q \<le> 0 then Inl GateError else timedelta_seconds q
     | WindowValue v \<Rightarrow> Inl GateError)"

definition frozen_scope :: "pyval \<Rightarrow> pyval gres" where
  "frozen_scope v = (case v of
       PStr s \<Rightarrow> bindR (gate_text v) (\<lambda>t. Inr (PStr t))
     | _ \<Rightarrow> bindR (plain_json v) (\<lambda>p. case freeze p of
         PProxy d \<Rightarrow> Inr (PProxy d) | PTuple xs \<Rightarrow> Inr (PTuple xs) | _ \<Rightarrow> Inl GateError))"

definition frozen_blockers :: "pyval \<Rightarrow> pyval list gres" where
  "frozen_blockers v = bindR (gate_items v) (\<lambda>xs. bindR (plain_json (PList xs)) (\<lambda>p.
     case freeze p of PTuple ys \<Rightarrow> Inr ys | _ \<Rightarrow> Inl GateError))"

definition HumanVerificationGate_new ::
  "(string \<Rightarrow> int option) \<Rightarrow> pyval \<Rightarrow> pyval \<Rightarrow> pyval \<Rightarrow> pyval \<Rightarrow> pyval \<Rightarrow> pyval \<Rightarrow> pyval \<Rightarrow> stamp_arg \<Rightarrow> stamp_arg
     \<Rightarrow> window_arg \<Rightarrow> pyval \<Rightarrow> HumanVerificationGate gres" where
  "HumanVerificationGate_new parse owner identity decision scope run evidence artifact created updated window blockers =
     bindR (gate_text owner) (\<lambda>ow.
     bindR (gate_text identity) (\<lambda>idn.
     bindR (gate_text run) (\<lambda>rn.
     bindR (human_decision decision) (\<lambda>de.
     bindR (gate_digest evidence) (\<lambda>ev.
     bindR (gate_digest artifact) (\<lambda>ar.
     bindR (utc_datetime parse created) (\<lambda>cr.
     bindR (utc_datetime parse updated) (\<lambda>up.
     if up < cr then Inl GateError else
     bindR (freshness_micros window) (\<lambda>w.
     bindR (frozen_scope scope) (\<lambda>sc.
     bindR (frozen_blockers blockers) (\<lambda>bl.
     Inr \<lparr>hg_owner = ow, hg_identity = idn, hg_decision = de, hg_scope = sc, hg_run = rn, hg_evidence_digest = ev,
          hg_artifact_digest = ar, hg_created_at = cr, hg_updated_at = up, hg_freshness_window = w, hg_blockers = bl\<rparr>)))))))))))"

text \<open>
  \<open>evaluate\<close>. \<open>now\<close> is the explicit instant, \<open>clock\<close> what the clock returns without one; a digest or blockers
  argument that is \<open>PNone\<close> stands for the gate's own.
\<close>

definition human_evaluate ::
  "(rat \<Rightarrow> string) \<Rightarrow> (string \<Rightarrow> int option) \<Rightarrow> HumanVerificationGate \<Rightarrow> stamp_arg option \<Rightarrow> stamp_arg \<Rightarrow> pyval \<Rightarrow> pyval \<Rightarrow> pyval
     \<Rightarrow> pyval \<Rightarrow> pyval \<Rightarrow> GateStatus gres" where
  "human_evaluate rep parse g now clock artifact evidence blockers expected_run expected_scope =
     bindR (case now of None \<Rightarrow> clock_now parse clock | Some a \<Rightarrow> utc_datetime parse a) (\<lambda>now_value.
     bindR (gate_safe (hg_scope g)) (\<lambda>scope.
     let expected = canonical_scope rep expected_scope; actual = canonical_scope rep scope in
     if (case as_str expected_run of None \<Rightarrow> True | Some r \<Rightarrow> blank r \<or> hg_run g \<noteq> r)
        \<or> expected_scope = PNone \<or> expected = None \<or> actual = None \<or> actual \<noteq> expected then Inr G_PENDING
     else bindR (if blockers = PNone then Inr (hg_blockers g) else frozen_blockers blockers) (\<lambda>current.
       if \<exists>x \<in> set current. open_blocker x then Inr G_BLOCKED
       else if hg_decision g \<noteq> H_APPROVED then Inr (if hg_decision g = H_REJECTED then G_BLOCKED else G_PENDING)
       else if artifact \<noteq> PNone \<and> artifact \<noteq> PStr (hg_artifact_digest g) then Inr G_PENDING
       else if evidence \<noteq> PNone \<and> evidence \<noteq> PStr (hg_evidence_digest g) then Inr G_PENDING
       else if hg_updated_at g + hg_freshness_window g > DATETIME_MAX then Inl GateOverflow
       else if now_value > hg_updated_at g + hg_freshness_window g then Inr G_PENDING
       else Inr G_PASSED)))"

definition human_allows ::
  "(rat \<Rightarrow> string) \<Rightarrow> (string \<Rightarrow> int option) \<Rightarrow> HumanVerificationGate \<Rightarrow> stamp_arg option \<Rightarrow> stamp_arg \<Rightarrow> pyval \<Rightarrow> pyval \<Rightarrow> pyval
     \<Rightarrow> pyval \<Rightarrow> pyval \<Rightarrow> bool gres" where
  "human_allows rep parse g now clock artifact evidence blockers expected_run expected_scope =
     bindR (human_evaluate rep parse g now clock artifact evidence blockers expected_run expected_scope) (\<lambda>s. Inr (s = G_PASSED))"

definition human_to_dict :: "(int \<Rightarrow> string) \<Rightarrow> HumanVerificationGate \<Rightarrow> pyval gres" where
  "human_to_dict fmt g = bindR (gate_safe (hg_scope g)) (\<lambda>scope. bindR (gate_safe (PTuple (hg_blockers g))) (\<lambda>blockers.
     Inr (PDict (str_keyed [(''owner'', PStr (hg_owner g)), (''identity'', PStr (hg_identity g)),
       (''decision'', PStr (human_value (hg_decision g))), (''scope'', scope), (''run'', PStr (hg_run g)),
       (''run_id'', PStr (hg_run g)), (''evidence_digest'', PStr (hg_evidence_digest g)),
       (''artifact_digest'', PStr (hg_artifact_digest g)), (''created_at'', PStr (fmt (hg_created_at g))),
       (''updated_at'', PStr (fmt (hg_updated_at g))),
       (''freshness_window'', PFloat (Fin (of_int (hg_freshness_window g) / 1000000))), (''blockers'', blockers)]))))"

definition human_fields :: "string list" where
  "human_fields = [''owner'', ''identity'', ''decision'', ''scope'', ''run'', ''run_id'', ''evidence_digest'',
     ''artifact_digest'', ''created_at'', ''updated_at'', ''freshness_window'', ''blockers'']"

definition stamp_of :: "pyval \<Rightarrow> stamp_arg" where
  "stamp_of v = (case as_str v of None \<Rightarrow> StampBad | Some s \<Rightarrow> StampText s)"

definition human_run :: "pymap \<Rightarrow> pyval gres" where
  "human_run d = (case (mget d ''run'', mget d ''run_id'') of
       (Some a, Some b) \<Rightarrow> if \<not> is_str a \<or> \<not> is_str b then Inl GateError else if a \<noteq> b then Inl GateError else Inr a
     | (Some a, None) \<Rightarrow> Inr a
     | (None, _) \<Rightarrow> Inr (mget_or d ''run_id'' PNone))"

definition human_from_dict :: "(string \<Rightarrow> int option) \<Rightarrow> bool \<Rightarrow> pyval \<Rightarrow> HumanVerificationGate gres" where
  "human_from_dict parse reject_unknown v = (case as_pdict v of
       None \<Rightarrow> Inl GateError
     | Some d \<Rightarrow>
         if reject_unknown \<and> \<not> (\<forall>k \<in> set (map fst d). case as_str k of None \<Rightarrow> False | Some s \<Rightarrow> s \<in> set human_fields)
         then Inl GateError
         else bindR (human_run d) (\<lambda>run.
           HumanVerificationGate_new parse (mget_or d ''owner'' PNone) (mget_or d ''identity'' PNone)
             (mget_or d ''decision'' PNone) (mget_or d ''scope'' PNone) run (mget_or d ''evidence_digest'' PNone)
             (mget_or d ''artifact_digest'' PNone) (stamp_of (mget_or d ''created_at'' PNone))
             (stamp_of (mget_or d ''updated_at'' PNone)) (WindowValue (mget_or d ''freshness_window'' PNone))
             (mget_or d ''blockers'' (PTuple []))))"

section \<open>Human verification passes only on every explicit condition\<close>

text \<open>
  C21: a human verification gate passes exactly when the instant can be read and is at most the freshness
  window after the last update (which must not leave the calendar), the expected run is the gate's run,
  the expected scope is the gate's scope up to order, no given or recorded blocker is open, the decision
  is approved, and a given artifact or evidence digest is the gate's own.
\<close>

theorem human_gate_exact:
  "human_evaluate rep parse g now clock artifact evidence blockers run scope = Inr G_PASSED \<longleftrightarrow>
     (\<exists>t. (case now of None \<Rightarrow> clock_now parse clock | Some a \<Rightarrow> utc_datetime parse a) = Inr t
        \<and> t \<le> hg_updated_at g + hg_freshness_window g \<and> hg_updated_at g + hg_freshness_window g \<le> DATETIME_MAX)
     \<and> run = PStr (hg_run g) \<and> \<not> blank (hg_run g)
     \<and> scope \<noteq> PNone \<and> (\<exists>s c. gate_safe (hg_scope g) = Inr s \<and> canonical_scope rep s = Some c \<and> canonical_scope rep scope = Some c)
     \<and> (\<exists>bs. (if blockers = PNone then Inr (hg_blockers g) else frozen_blockers blockers) = Inr bs \<and> \<not> list_ex open_blocker bs)
     \<and> hg_decision g = H_APPROVED
     \<and> artifact \<in> {PNone, PStr (hg_artifact_digest g)} \<and> evidence \<in> {PNone, PStr (hg_evidence_digest g)}"
proof -
  define bad_run where "bad_run \<longleftrightarrow> (case as_str run of None \<Rightarrow> True | Some r \<Rightarrow> blank r \<or> hg_run g \<noteq> r)"
  have run: "bad_run \<longleftrightarrow> \<not> (run = PStr (hg_run g) \<and> \<not> blank (hg_run g))"
    by (cases run) (auto simp: bad_run_def)
  show ?thesis
    unfolding human_evaluate_def Let_def bad_run_def [symmetric] list_ex_iff
    by (cases "case now of None \<Rightarrow> clock_now parse clock | Some a \<Rightarrow> utc_datetime parse a"; cases "gate_safe (hg_scope g)";
        cases "if blockers = PNone then Inr (hg_blockers g) else frozen_blockers blockers")
       (auto simp: not_less run split: if_splits)
qed

definition demo_human_gate :: HumanVerificationGate where
  "demo_human_gate = \<lparr>hg_owner = ''ana'', hg_identity = ''ana@x'', hg_decision = H_APPROVED, hg_scope = PStr ''s'',
     hg_run = ''run'', hg_evidence_digest = ''e'', hg_artifact_digest = ''a'', hg_created_at = 1, hg_updated_at = 2,
     hg_freshness_window = 10, hg_blockers = []\<rparr>"

theorem human_gate_exact_witness:
  "human_evaluate (\<lambda>_. []) int_of_text demo_human_gate (Some (StampUtc 12)) StampBad PNone PNone PNone (PStr ''run'') (PStr ''s'')
     = Inr G_PASSED
   \<and> human_evaluate (\<lambda>_. []) int_of_text demo_human_gate (Some (StampUtc 13)) StampBad PNone PNone PNone (PStr ''run'') (PStr ''s'')
     \<noteq> Inr G_PASSED"
  unfolding human_gate_exact
  by (simp add: demo_human_gate_def utc_datetime_def DATETIME_MAX_def gate_safe_def canonical_scope_def plain_json_def is_space_def)

section \<open>Gate results\<close>

text \<open>What the constructor establishes and every transition keeps.\<close>

definition trimmed :: "string option \<Rightarrow> bool" where
  "trimmed x \<longleftrightarrow> (\<forall>s. x = Some s \<longrightarrow> strip s = s)"

definition gate_result_wf :: "GateResult \<Rightarrow> bool" where
  "gate_result_wf g \<longleftrightarrow> \<not> blank (gr_gate_id g) \<and> strip (gr_gate_id g) = gr_gate_id g \<and> gr_gate_type g \<in> set GATE_TYPES
     \<and> trimmed (gr_owner g) \<and> trimmed (gr_decision g)
     \<and> is_json (PList (gr_blockers g)) \<and> is_json (PList (gr_evidence g)) \<and> is_json (PList (gr_reports g))
     \<and> list_all reference_ok (gr_evidence g) \<and> list_all reference_ok (gr_reports g) \<and> is_json (PDict (gr_details g))
     \<and> (gr_status g = G_PASSED \<longrightarrow> passes_gate_contract g)"

lemma gate_text_Inr: "gate_text v = Inr s \<Longrightarrow> \<not> blank s \<and> strip s = s"
  by (auto simp: gate_text_def blank_def result_simps)

lemma gate_opt_text_Inr: "gate_opt_text v = Inr x \<Longrightarrow> trimmed x"
  by (auto simp: gate_opt_text_def trimmed_def result_simps split: if_splits)

lemma gate_safe_Inr: "gate_safe v = Inr w \<Longrightarrow> is_json w"
  by (auto simp: gate_safe_def result_simps dest: json_copy_is_json)

lemma gate_safe_id: "is_json v \<Longrightarrow> gate_safe v = Inr v"
  by (simp add: gate_safe_def json_copy_id)

lemma gate_list_Inr: "gate_list v = Inr xs \<Longrightarrow> is_json (PList xs)"
  by (auto simp: gate_list_def result_simps dest: gate_safe_Inr)

lemma gate_references_Inr: "gate_references v = Inr xs \<Longrightarrow> is_json (PList xs) \<and> list_all reference_ok xs"
  by (auto simp: gate_references_def result_simps list_all_iff dest!: gate_list_Inr)

lemma GateResult_new_ok:
  assumes "GateResult_new i ty st ow de bl ev re dt = Inr g"
  shows "gate_result_wf g"
proof -
  from assms obtain i' ty' st' ow' de' bl' ev' re' d where
    f: "gate_text i = Inr i'" "gate_text ty = Inr ty'" "ty' \<in> set GATE_TYPES" "gate_opt_text ow = Inr ow'"
      "gate_opt_text de = Inr de'" "gate_list bl = Inr bl'" "gate_references ev = Inr ev'" "gate_references re = Inr re'"
      "gate_safe dt = Inr (PDict d)"
    and g: "g = \<lparr>gr_gate_id = i', gr_gate_type = ty', gr_status = st', gr_owner = ow', gr_decision = de', gr_blockers = bl',
                   gr_evidence = ev', gr_reports = re', gr_details = d\<rparr>"
    and c: "\<not> (st' = G_PASSED \<and> \<not> passes_gate_contract g)"
    unfolding GateResult_new_def by (clarsimp simp: result_simps Let_def)
  show ?thesis
    unfolding gate_result_wf_def
    using c gate_text_Inr [OF f(1)] f(3) gate_opt_text_Inr [OF f(4)] gate_opt_text_Inr [OF f(5)] gate_list_Inr [OF f(6)]
      gate_references_Inr [OF f(7)] gate_references_Inr [OF f(8)] gate_safe_Inr [OF f(9)]
    by (simp add: g)
qed

lemma is_json_update: "is_json (PDict d) \<Longrightarrow> is_json v \<Longrightarrow> k \<noteq> [] \<Longrightarrow> is_json (PDict (AList.update (PStr k) v d))"
proof (induction d)
  case (Cons kv d)
  then show ?case by (cases kv) auto
qed simp

lemma gate_transition_wf: "gate_result_wf g \<Longrightarrow> gate_transition g t r = (g', res) \<Longrightarrow> gate_result_wf g'"
proof -
  assume wf: "gate_result_wf g" and tr: "gate_transition g t r = (g', res)"
  have st: "gate_result_wf (g\<lparr>gr_status := s\<rparr>)" if "s = G_PASSED \<longrightarrow> passes_gate_contract g" for s
    using wf that by (simp add: gate_result_wf_def passes_gate_contract_def)
  have rs: "gate_result_wf (h\<lparr>gr_details := AList.update (PStr ''reason'') (PStr x) (gr_details h)\<rparr>)" if "gate_result_wf h" for h x
    using that is_json_update [of "gr_details h" "PStr x" "''reason''"]
    by (simp add: gate_result_wf_def passes_gate_contract_def del: is_json.simps) simp
  show ?thesis
    using tr wf unfolding gate_transition_def Let_def
    by (auto intro: st rs [of "g\<lparr>gr_status := _\<rparr>", simplified] split: sum.split_asm if_split_asm)
qed

lemma gate_status_roundtrip: "gate_status (PStr (gate_status_value s)) = Inr s"
  by (cases s) (simp_all add: gate_status_def)

lemma gate_opt_roundtrip: "trimmed x \<Longrightarrow> gate_opt_text (gate_opt_str x) = Inr x"
  by (cases x) (simp_all add: gate_opt_text_def gate_opt_str_def trimmed_def)

lemma gate_list_roundtrip: "is_json (PList xs) \<Longrightarrow> gate_list (PList xs) = Inr xs"
  by (simp add: gate_list_def gate_items_def gate_safe_id del: is_json.simps)

lemma gate_references_roundtrip: "is_json (PList xs) \<Longrightarrow> list_all reference_ok xs \<Longrightarrow> gate_references (PList xs) = Inr xs"
  by (simp add: gate_references_def gate_list_roundtrip list_all_iff del: is_json.simps)

text \<open>
  Gate results are closed under their operations and survive a round trip: a result that was parsed
  from any value and then went through any transitions, failed ones included, is parsed from its own
  dictionary unchanged, and when its status is passed it has an owner, a decision, evidence, reports and
  no open blocker.
\<close>

theorem gate_result_round_trip:
  assumes "GateResult_from_dict v = Inr g0" and "g = fold (\<lambda>(t, r) g. fst (gate_transition g t r)) moves g0"
  shows "GateResult_from_dict (GateResult_to_dict g) = Inr g \<and> (gr_status g = G_PASSED \<longrightarrow> passes_gate_contract g)"
proof -
  have g0: "gate_result_wf g0" using assms(1) by (auto simp: GateResult_from_dict_def result_simps intro: GateResult_new_ok)
  have wf: "gate_result_wf h \<Longrightarrow> gate_result_wf (fold (\<lambda>(t, r) g. fst (gate_transition g t r)) ms h)" for ms h
  proof (induction ms arbitrary: h)
    case (Cons m ms)
    obtain t r where m: "m = (t, r)" by (cases m)
    have "gate_result_wf (fst (gate_transition h t r))"
      using gate_transition_wf [OF Cons.prems] by (metis prod.collapse)
    then show ?case using Cons.IH by (simp add: m)
  qed simp
  then have wf: "gate_result_wf g" using g0 assms(2) by blast
  then have "gate_text (PStr (gr_gate_id g)) = Inr (gr_gate_id g)" by (simp add: gate_result_wf_def gate_text_def)
  moreover have "gate_text (PStr (gr_gate_type g)) = Inr (gr_gate_type g)"
    using wf by (auto simp: gate_result_wf_def gate_text_def GATE_TYPES_def blank_def strip_def is_space_def)
  moreover have "gate_safe (PDict (gr_details g)) = Inr (PDict (gr_details g))"
    by (rule gate_safe_id) (use wf in \<open>simp add: gate_result_wf_def del: is_json.simps\<close>)
  ultimately show ?thesis
    using wf unfolding GateResult_from_dict_def GateResult_to_dict_def
    by (simp add: str_keyed_def GateResult_new_def gate_status_roundtrip gate_opt_roundtrip gate_list_roundtrip
        gate_references_roundtrip gate_result_wf_def passes_gate_contract_def Let_def del: is_json.simps)
qed

definition demo_gate_value :: pyval where
  "demo_gate_value = PDict (str_keyed [(''id'', PStr '' g1 ''), (''kind'', PStr ''review''), (''status'', PStr ''running''),
     (''owner'', PStr ''ana''), (''decision'', PStr ''approved''), (''evidence'', PTuple [PStr ''e1'']),
     (''reports'', PList [PDict (str_keyed [(''id'', PStr ''r1'')])])])"

theorem gate_result_round_trip_witness:
  "\<exists>g0 g. GateResult_from_dict demo_gate_value = Inr g0
     \<and> g = fold (\<lambda>(t, r) g. fst (gate_transition g t r)) [(PStr ''running'', PNone), (PStr ''passed'', PStr ''ok'')] g0
     \<and> gr_status g = G_PASSED \<and> GateResult_from_dict (GateResult_to_dict g) = Inr g \<and> passes_gate_contract g"
proof -
  have ok: "isOK (GateResult_from_dict demo_gate_value)" by code_simp
  then obtain g0 where g0: "GateResult_from_dict demo_gate_value = Inr g0"
    by (auto simp: isOK_def split: sum.splits)
  define g where "g = fold (\<lambda>(t, r) g. fst (gate_transition g t r)) [(PStr ''running'', PNone), (PStr ''passed'', PStr ''ok'')] g0"
  have "mapR (\<lambda>g. Inr (gr_status (fold (\<lambda>(t, r) g. fst (gate_transition g t r)) [(PStr ''running'', PNone), (PStr ''passed'', PStr ''ok'')] g)) :: GateStatus gres)
     [projr (GateResult_from_dict demo_gate_value)] = Inr [G_PASSED]" by code_simp
  then have "gr_status g = G_PASSED" by (simp add: g0 g_def)
  with gate_result_round_trip [OF g0 g_def] g0 g_def show ?thesis by blast
qed

text \<open>
  A transition whose reason is rejected raises, yet the gate has already moved: a running gate that
  meets the contract is passed by a call that fails.
\<close>

lemma failed_transition_moves:
  "passes_gate_contract g \<Longrightarrow> gr_status g = G_RUNNING \<Longrightarrow>
     gate_transition g (PStr ''passed'') (PStr '' '') = (g\<lparr>gr_status := G_PASSED\<rparr>, Inl GateError)"
  by (simp add: gate_transition_def gate_status_def passes_gate_contract_def gate_text_def blank_def strip_def is_space_def)

section \<open>The order of a scope does not matter\<close>

lemma sort_mset: "mset xs = mset ys \<Longrightarrow> sort xs = sort ys"
  by (rule properties_for_sort) simp_all

text \<open>The canonical text computed in one pass: the texts of the elements sorted, the items by key.\<close>

function (sequential) scope_text :: "(rat \<Rightarrow> string) \<Rightarrow> pyval \<Rightarrow> string" where
  "scope_text rep (PDict d) = ''{'' @ join '','' (map (\<lambda>(k, t). json_str k @ '':'' @ t)
     (sort_key fst (map (\<lambda>kv. (item_key kv, scope_text rep (snd kv))) d))) @ ''}''"
| "scope_text rep (PList xs) = ''['' @ join '','' (sort (map (scope_text rep) xs)) @ '']''"
| "scope_text rep v = text_key rep v"
  by pat_completeness auto
termination
  by (relation "measure (size \<circ> snd)")
     (auto dest: py_pair_size size_list_estimation' [of _ _ _ size, OF _ order_refl] simp: less_Suc_eq_le)

lemma norm_scope_text: "is_json v \<Longrightarrow> json_text rep (norm_scope rep v) = Some (scope_text rep v)"
proof (induction v rule: is_json.induct)
  case (1 d)
  let ?g = "\<lambda>kv. (item_key kv, scope_text rep (snd kv))"
  have "json_text rep (PDict (map (\<lambda>kv. (fst kv, norm_scope rep (snd kv))) (sort_key item_key d)))
    = Some (''{'' @ join '','' (map (\<lambda>(k, t). json_str k @ '':'' @ t) (sort_key fst (map ?g (sort_key item_key d)))) @ ''}'')"
    by (rule json_text_items) (use 1 in \<open>auto simp: item_key_def split: option.splits\<close>)
  moreover have "sort_key fst (map ?g (sort_key item_key d)) = sort_key fst (map ?g d)"
    by (simp add: sort_key_map sort_key_id_if_sorted)
  ultimately show ?case by simp
next
  case (3 xs)
  let ?s = "sort_key (text_key rep) (map (norm_scope rep) xs)"
  have j: "json_text rep y = Some (text_key rep y)" if "y \<in> set ?s" for y
    using that 3 by (auto simp: text_key_def)
  have "those (map (json_text rep) ?s) = Some (map (text_key rep) ?s)" by (rule those_map_Some) (rule j)
  moreover have "map (text_key rep) ?s = sort (map (\<lambda>x. text_key rep (norm_scope rep x)) xs)"
    using sort_map [of "text_key rep" "map (norm_scope rep) xs"] by (simp add: comp_def)
  moreover have "map (\<lambda>x. text_key rep (norm_scope rep x)) xs = map (scope_text rep) xs"
    by (rule map_cong) (use 3 in \<open>auto simp: text_key_def\<close>)
  ultimately show ?case by simp
qed (auto simp: text_key_def split: option.splits dest: json_text_total)

inductive reordered :: "pyval \<Rightarrow> pyval \<Rightarrow> bool" where
  reordered_same: "reordered v v"
| reordered_list: "list_all2 reordered xs zs \<Longrightarrow> mset zs = mset ys \<Longrightarrow> reordered (PList xs) (PList ys)"
| reordered_dict: "list_all2 (\<lambda>a b. fst a = fst b \<and> reordered (snd a) (snd b)) d f \<Longrightarrow> mset f = mset e \<Longrightarrow>
     distinct (map item_key d) \<Longrightarrow> reordered (PDict d) (PDict e)"

lemma reordered_text: "reordered v w \<Longrightarrow> scope_text rep v = scope_text rep w"
proof (induction rule: reordered.induct)
  case (reordered_list xs zs ys)
  then have "map (scope_text rep) xs = map (scope_text rep) zs"
    by (auto simp: list_all2_conv_all_nth intro!: nth_equalityI)
  moreover have "sort (map (scope_text rep) zs) = sort (map (scope_text rep) ys)"
    by (rule sort_mset) (simp add: reordered_list(2))
  ultimately show ?case by simp
next
  case (reordered_dict d f e)
  let ?g = "\<lambda>kv. (item_key kv, scope_text rep (snd kv))"
  have "map ?g d = map ?g f" "map item_key d = map item_key f"
    using reordered_dict(1) by (auto simp: list_all2_conv_all_nth item_key_def intro!: nth_equalityI)
  moreover have "sort_key fst (map ?g f) = sort_key fst (map ?g e)"
    by (rule sort_key_inj_key_eq)
       (use reordered_dict(2,3) \<open>map item_key d = map item_key f\<close> in \<open>auto simp: distinct_map inj_on_def\<close>)
  ultimately show ?case by simp
qed simp

lemma canonical_scope_json: "is_json v \<Longrightarrow> canonical_scope rep v = Some (scope_text rep v)"
  by (simp add: canonical_scope_def plain_json_def json_copy_id norm_scope_text)

text \<open>
  The canonical form of a scope is the text computed in one pass, and two scopes that differ only in
  the order of lists and of dictionary items, at any depth, have the same canonical form, so a gate
  judges them alike.
\<close>

theorem scope_order_irrelevant:
  assumes "is_json v" and "is_json w" and "reordered v w"
  shows "canonical_scope rep v = Some (scope_text rep v) \<and> canonical_scope rep w = canonical_scope rep v"
  using assms by (simp add: canonical_scope_json reordered_text)

theorem scope_order_irrelevant_witness:
  "canonical_scope (\<lambda>_. []) (PDict (str_keyed [(''a'', PList [PInt 2, PInt 1]), (''b'', PNone)]))
     = canonical_scope (\<lambda>_. []) (PDict (str_keyed [(''b'', PNone), (''a'', PList [PInt 1, PInt 2])]))"
proof -
  have l: "reordered (PList [PInt 2, PInt 1]) (PList [PInt 1, PInt 2])"
    by (rule reordered_list [where zs = "[PInt 2, PInt 1]"]) (auto intro: reordered_same)
  have "reordered (PDict (str_keyed [(''a'', PList [PInt 2, PInt 1]), (''b'', PNone)]))
      (PDict (str_keyed [(''b'', PNone), (''a'', PList [PInt 1, PInt 2])]))"
    by (rule reordered_dict [where f = "str_keyed [(''a'', PList [PInt 1, PInt 2]), (''b'', PNone)]"])
       (auto simp: str_keyed_def item_key_def intro: l reordered_same)
  from scope_order_irrelevant [OF _ _ this, of "\<lambda>_. []"] show ?thesis by (simp add: str_keyed_def)
qed


end
