(* ===== verification/Secrets.thy ===== *)
theory Secrets
  imports RegexFast JsonValue
begin

text \<open>
  The redaction layer of \<open>scripts/pd_fleet/contracts.py\<close>: which labels are sensitive, and how paths,
  assignments of credentials and YAML block scalars are removed from texts. Patterns with named groups
  are split at the groups; the matching of the parts is that of \<open>Regex\<close>.
\<close>

section \<open>Sensitive labels\<close>

definition SENSITIVE_KEYS :: "string list" where
  "SENSITIVE_KEYS = [''credential'', ''secret'', ''token'', ''password'', ''api_key'', ''access_key'', ''access_token'',
     ''private_key'', ''client_secret'', ''authorization'', ''bearer'']"

definition is_lower :: "char \<Rightarrow> bool" where "is_lower = in_range 97 122"
definition is_upper :: "char \<Rightarrow> bool" where "is_upper = in_range 65 90"
definition is_num :: "char \<Rightarrow> bool" where "is_num = in_range 48 57"

text \<open>The two splits of camel case: before an upper letter after a lower one or a digit, and before the last upper letter of a run that a lower one follows.\<close>

fun camel_boundary :: "string \<Rightarrow> string" where
  "camel_boundary (a # b # s) = (if (is_lower a \<or> is_num a) \<and> is_upper b then a # CHR ''_'' # camel_boundary (b # s)
     else a # camel_boundary (b # s))"
| "camel_boundary s = s"

fun acronym_boundary :: "string \<Rightarrow> string" where
  "acronym_boundary (a # b # c # s) =
     (if is_upper a \<and> is_upper b \<and> is_lower c then a # CHR ''_'' # acronym_boundary (b # c # s)
      else a # acronym_boundary (b # c # s))"
| "acronym_boundary s = s"

fun squeeze :: "string \<Rightarrow> string" where
  "squeeze [] = []"
| "squeeze (c # s) = (if is_lower c \<or> is_num c then c # squeeze s
     else case squeeze s of
       [] \<Rightarrow> ''_''
     | d # r \<Rightarrow> if d = CHR ''_'' then d # r else CHR ''_'' # d # r)"

definition normalize_sensitive_key :: "string \<Rightarrow> string" where
  "normalize_sensitive_key label =
     strip_by (\<lambda>c. c = CHR ''_'') (squeeze (lower (acronym_boundary (camel_boundary (strip label)))))"

definition drop_underscores :: "string \<Rightarrow> string" where
  "drop_underscores s = filter (\<lambda>c. c \<noteq> CHR ''_'') s"

definition is_sensitive_label :: "string \<Rightarrow> bool" where
  "is_sensitive_label label = (let n = normalize_sensitive_key label in
     (\<exists>key \<in> set SENSITIVE_KEYS. n = key \<or> startswith n (key @ ''_'') \<or> endswith n (''_'' @ key))
     \<or> (\<exists>part \<in> set (split_on (CHR ''_'') n). part \<in> set SENSITIVE_KEYS)
     \<or> (\<exists>key \<in> set SENSITIVE_KEYS. drop_underscores n = drop_underscores key))"

section \<open>Patterns\<close>

definition not_in :: "string \<Rightarrow> char \<Rightarrow> bool" where
  "not_in cs c \<longleftrightarrow> \<not> is_space c \<and> c \<notin> set cs"

definition quotes :: string where "quotes = [CHR 0x22, CHR 0x27]"

definition SECRET_VALUE :: regex where
  "SECRET_VALUE = alts
     [seqs [ilit ''bearer'', plus (Cls is_space), plus (Cls (\<lambda>c. \<not> is_space c))],
      seqs [ilit ''sk-'', Rep 8 None (Cls (\<lambda>c. ascii_alnum c \<or> one_of ''_-'' c))],
      seqs [ilit ''gh'', Cls (\<lambda>c. one_of ''pousr'' (lower_char c)), lit ''_'', Rep 8 None (Cls (\<lambda>c. ascii_alnum c \<or> c = CHR ''_''))],
      seqs [ilit ''AKIA'', Rep 12 None (Cls ascii_alnum)]]"

definition EXTERNAL_URL :: regex where
  "EXTERNAL_URL = seqs [alts [Seq (ilit ''http'') (opt (ilit ''s'')), ilit ''ftp'', Seq (ilit ''ws'') (opt (ilit ''s''))],
     lit ''://'', plus (Cls (not_in (quotes @ ''<>'')))]"

text \<open>\<open>api[_ -]?key\<close> and its kin; the labels of the three scanners.\<close>

definition joined :: "string \<Rightarrow> string \<Rightarrow> regex" where
  "joined a b = seqs [ilit a, opt (Cls (one_of ''_ -'')), ilit b]"

definition LABEL :: regex where
  "LABEL = alts [ilit ''credential'', ilit ''secret'', ilit ''token'', ilit ''password'', joined ''api'' ''key'',
     joined ''access'' ''key'', joined ''access'' ''token'', joined ''private'' ''key'', joined ''client'' ''secret'',
     ilit ''authorization'', ilit ''bearer'']"

definition BARE :: regex where
  "BARE = Seq (opt (Seq (ilit ''bearer'') (plus (Cls is_space)))) (plus (Cls (not_in '',;}'')))"

definition SEPARATOR :: regex where
  "SEPARATOR = seqs [star (Cls is_space), Cls (one_of '':=''), star (Cls is_space)]"

definition CREDENTIAL_SHAPE :: "string \<Rightarrow> bool" where
  "CREDENTIAL_SHAPE s \<longleftrightarrow>
     8 \<le> length s \<and> list_all (\<lambda>c. ascii_alnum c \<or> one_of ''._-'' c) s
     \<or> re_fullmatch (seqs [star (Cls ascii_alnum), Cls (\<lambda>c. is_num c \<or> one_of ''_-'' c),
          star (Cls (\<lambda>c. ascii_alnum c \<or> one_of ''_-'' c))]) s"

definition PATH_ASSIGNMENT :: regex where
  "PATH_ASSIGNMENT = seqs [NotAfter (\<lambda>c. ascii_alnum c \<or> c = CHR ''_''), alts [ilit ''source'', ilit ''path''],
     star (Cls is_space), Cls (one_of '':=''), star (Cls is_space), plus (Cls (not_in '',;''))]"

definition BLOCK_SCALAR_HEADER :: regex where
  "BLOCK_SCALAR_HEADER = Seq (Cls (one_of ''|>''))
     (Alt (Seq (Cls (in_range 49 57)) (opt (Cls (one_of ''+-'')))) (Seq (opt (Cls (one_of ''+-''))) (opt (Cls (in_range 49 57)))))"

definition BLOCK_SCALAR_TOKEN :: regex where
  "BLOCK_SCALAR_TOKEN = Seq (Cls (one_of ''|>'')) (star (Cls (\<lambda>c. \<not> is_space c)))"

definition path_stop :: string where
  "path_stop = [CHR '' '', CHR 0x09, CHR 0x0A, CHR 0x0D, CHR 0x0C, CHR 0x0B, CHR 0x22, CHR 0x27, CHR ''<'', CHR ''>'', CHR '';'', CHR '','']"

definition EMBEDDED_PATH :: regex where
  "EMBEDDED_PATH = (let slash = Cls (one_of [CHR 0x5C, CHR ''/'']); body = Cls (\<lambda>c. c \<notin> set path_stop)
     in Seq (NotAfter (\<lambda>c. word_char c \<or> c = CHR ''.''))
       (alts [seqs [lit ''~'', slash, star body], Seq (lit ''/'') (plus body),
          seqs [Cls (\<lambda>c. in_range 65 90 c \<or> in_range 97 122 c), lit '':'', slash, star body],
          Seq (lit [CHR 0x5C, CHR 0x5C]) (plus body)]))"

definition redact_paths :: "string \<Rightarrow> string" where
  "redact_paths s = re_sub Eps EMBEDDED_PATH ''[PATH REDACTED]'' s"

section \<open>Lines\<close>

definition line_break :: "char \<Rightarrow> bool" where
  "line_break c \<longleftrightarrow> (of_char c :: nat) \<in> {10, 11, 12, 13, 28, 29, 30, 133}"

text \<open>\<open>splitlines(keepends=True)\<close>.\<close>

fun split_lines :: "string \<Rightarrow> string list" where
  "split_lines [] = []"
| "split_lines (c # s) = (if line_break c then
       (if c = CHR 0x0D \<and> s \<noteq> [] \<and> hd s = CHR 0x0A
        then (case split_lines s of [] \<Rightarrow> [[c]] | l # ls \<Rightarrow> (c # l) # ls)
        else [c] # split_lines s)
     else (case split_lines s of [] \<Rightarrow> [[c]] | l # ls \<Rightarrow> (c # l) # ls))"

definition crlf :: "char \<Rightarrow> bool" where
  "crlf c \<longleftrightarrow> c = CHR 0x0D \<or> c = CHR 0x0A"

definition rstrip_newline :: "string \<Rightarrow> string" where
  "rstrip_newline s = rev (dropWhile crlf (rev s))"

definition newline_of :: "string \<Rightarrow> string" where
  "newline_of s = drop (length (rstrip_newline s)) s"

definition leading :: "string \<Rightarrow> string" where
  "leading s = takeWhile (\<lambda>c. c = CHR '' '' \<or> c = CHR 0x09) s"

section \<open>Block scalars\<close>

definition parse_block_scalar_header :: "string \<Rightarrow> nat \<Rightarrow> bool \<times> nat" where
  "parse_block_scalar_header header key_indent = (if \<not> re_fullmatch BLOCK_SCALAR_HEADER header then (False, key_indent + 1)
     else (case filter is_num (tl header) of
         [] \<Rightarrow> (True, key_indent + 1)
       | c # _ \<Rightarrow> (True, key_indent + ((of_char c :: nat) - 48))))"

definition block_scalar_owns_continuation :: "string \<Rightarrow> nat \<Rightarrow> nat \<Rightarrow> bool" where
  "block_scalar_owns_continuation content key_indent declared_indent \<longleftrightarrow>
     (if blank content then True
      else if CHR 0x09 \<in> set (leading content) then True
      else length (leading content) > key_indent)"

definition redact_block_scalar_line :: "string \<Rightarrow> string" where
  "redact_block_scalar_line continuation = (let content = rstrip_newline continuation in
     if blank content then continuation else leading content @ ''[REDACTED]'' @ newline_of continuation)"

text \<open>How many of the following lines belong to the scalar; the source counts from the assignment's index.\<close>

fun block_scalar_length :: "string list \<Rightarrow> nat \<Rightarrow> nat \<Rightarrow> nat" where
  "block_scalar_length [] key_indent declared = 0"
| "block_scalar_length (l # ls) key_indent declared =
     (if \<not> block_scalar_owns_continuation (rstrip_newline l) key_indent declared then 0
      else Suc (block_scalar_length ls key_indent declared))"

section \<open>Assignments\<close>

text \<open>
  \<open>_SENSITIVE_ASSIGNMENT\<close> at one position: the ends of label and separator, and the end of a bare value
  (\<open>None\<close> for a quoted one, terminated or not, which runs on to the end of the line).
\<close>

definition quoted_label :: "string \<Rightarrow> regex" where
  "quoted_label q = seqs [NotAfter word_char, lit q, LABEL, WordBoundary, lit q]"

definition assignment_at :: "string \<Rightarrow> nat \<Rightarrow> (nat \<times> nat \<times> nat option) option" where
  "assignment_at s i =
     (case [(a, b, v). q \<leftarrow> [[CHR 0x22], [CHR 0x27], []], a \<leftarrow> ends (quoted_label q) s i, b \<leftarrow> ends SEPARATOR s a,
              v \<leftarrow> (if b < length s \<and> s ! b \<in> set quotes then [None] else map Some (ends BARE s b))] of
        [] \<Rightarrow> None
      | m # _ \<Rightarrow> Some m)"

fun search_assignment :: "string \<Rightarrow> nat \<Rightarrow> nat \<Rightarrow> (nat \<times> nat \<times> nat \<times> nat option) option" where
  "search_assignment s 0 i = None"
| "search_assignment s (Suc n) i = (case assignment_at s i of
       Some (a, b, v) \<Rightarrow> Some (i, a, b, v)
     | None \<Rightarrow> search_assignment s n (Suc i))"

definition slice :: "nat \<Rightarrow> nat \<Rightarrow> string \<Rightarrow> string" where
  "slice a b s = take (b - a) (drop a s)"

definition remove_bearer :: "string \<Rightarrow> string" where
  "remove_bearer s = strip (if startswith s ''Bearer '' then drop 7 s else s)"

text \<open>The replacement of a match, \<open>None\<close> when it stays as it is.\<close>

definition replace_assignment :: "string \<Rightarrow> nat \<Rightarrow> nat \<Rightarrow> nat \<Rightarrow> nat option \<Rightarrow> string option" where
  "replace_assignment s i a b v = (let label = slice i a s; separator = slice a b s; new = label @ separator @ ''[REDACTED]'' in
     case v of
       None \<Rightarrow> Some new
     | Some e \<Rightarrow>
         (let bare = remove_bearer (slice b e s);
              collection = (bare \<noteq> [] \<and> hd bare \<in> set ''[{|>'') \<or> (\<exists>c \<in> set bare. c \<in> set '']}#'')
          in if \<not> CREDENTIAL_SHAPE bare \<and> CHR ''='' \<notin> set separator \<and> \<not> collection then None
             else if new = slice i e s then None else Some new))"

function redact_assignments :: "string list \<Rightarrow> string list" where
  "redact_assignments [] = []"
| "redact_assignments (line # ls) = (case search_assignment line (Suc (length line)) 0 of
       None \<Rightarrow> line # redact_assignments ls
     | Some (i, a, b, v) \<Rightarrow>
         (let shown = (case replace_assignment line i a b v of
                None \<Rightarrow> line
              | Some new \<Rightarrow> take i line @ new @ (if line \<noteq> [] \<and> crlf (last line) then newline_of line else []));
              bare = (case v of None \<Rightarrow> [] | Some e \<Rightarrow> strip (slice b e line))
          in if re_fullmatch BLOCK_SCALAR_TOKEN bare then
               (let physical = rstrip_newline line;
                    key_indent = length (takeWhile (\<lambda>c. c = CHR '' '') physical);
                    n = block_scalar_length ls key_indent (snd (parse_block_scalar_header bare key_indent))
                in shown # map redact_block_scalar_line (take n ls) @ redact_assignments (drop n ls))
             else shown # redact_assignments ls))"
  by pat_completeness auto
termination by (relation "measure length") auto

text \<open>\<open>_SENSITIVE_WHITESPACE.sub\<close>: a label, white space and a value with the shape of a credential.\<close>

definition whitespace_at :: "string \<Rightarrow> nat \<Rightarrow> (nat \<times> nat \<times> nat) option" where
  "whitespace_at s i = (case [(a, b, e). a \<leftarrow> ends (Seq (NotAfter word_char) LABEL) s i, b \<leftarrow> ends (plus (Cls is_space)) s a,
       e \<leftarrow> ends BARE s b] of [] \<Rightarrow> None | m # _ \<Rightarrow> Some m)"

fun redact_whitespace :: "string \<Rightarrow> nat \<Rightarrow> nat \<Rightarrow> string" where
  "redact_whitespace s 0 i = drop i s"
| "redact_whitespace s (Suc n) i = (if length s \<le> i then [] else
     case whitespace_at s i of
       None \<Rightarrow> s ! i # redact_whitespace s n (Suc i)
     | Some (a, b, e) \<Rightarrow>
         (if \<not> CREDENTIAL_SHAPE (remove_bearer (slice b e s)) then slice i e s else slice i a s @ '' [REDACTED]'')
         @ redact_whitespace s n (max e (Suc i)))"

definition redact_sensitive_text :: "string \<Rightarrow> string" where
  "redact_sensitive_text text = (let t = concat (redact_assignments (split_lines text))
     in re_sub Eps SECRET_VALUE ''[REDACTED]'' (redact_whitespace t (Suc (length t)) 0))"

end
