(* ===== verification/Canonical.thy ===== *)
theory Canonical
  imports Secrets
begin

text \<open>
  The canonical identity of V2 plans and the reconciliation of tokens, \<open>scripts/pd_fleet/contracts.py\<close>:
  alias normalisation, removal of runtime and sensitive fields, redaction of texts, the canonical bytes
  that are hashed, and the comparison of expected with actual tokens. The text of a float and SHA-256 are
  parameters. Rejections are \<open>ContractValidationError\<close>s; the other two errors are exceptions of the interpreter
  that the code lets through.
\<close>

datatype contract_error = ContractValidationError | ContractOverflow | ContractTypeError

type_synonym 'a cres = "(contract_error, 'a) result"

definition V2_SCHEMA_VERSION :: string where "V2_SCHEMA_VERSION = ''pd-fleet-plan:v2''"
definition V2_HASH_DOMAIN :: string where "V2_HASH_DOMAIN = ''pd-fleet-plan:v2'' @ [CHR 0x00]"

definition RUNTIME_KEYS :: "string list" where
  "RUNTIME_KEYS = [''timestamp'', ''timestamps'', ''created_at'', ''updated_at'', ''started_at'', ''finished_at'',
     ''completed_at'', ''heartbeat_at'', ''expires_at'', ''lease_expiry'', ''runtime'', ''wall_time'', ''monotonic_time'']"

definition V2_ALIASES :: "string dict" where
  "V2_ALIASES = [(''schemaVersion'', ''schema_version''), (''planHash'', ''plan_hash''), (''runId'', ''run_id''),
     (''taskId'', ''task_id''), (''agentId'', ''agent_id''), (''maxParallel'', ''max_parallel''),
     (''eventSequence'', ''event_sequence''), (''checkpointId'', ''checkpoint_id''), (''leaseId'', ''lease_id'')]"

definition V2_PLAN_FIELDS :: "string list" where
  "V2_PLAN_FIELDS = [''schema_version'', ''plan_hash'', ''generation'', ''run_id'', ''owner'', ''status'', ''waves'', ''tasks'',
     ''dependencies'', ''gates'', ''agents'', ''capabilities'', ''inputs'', ''constraints'', ''context'', ''commands'',
     ''validation_commands'', ''max_parallel'', ''checkpoints'', ''leases'', ''attempts'', ''reports'', ''events'',
     ''event_sequence'', ''checkpoint_id'', ''lease_id'', ''audit'', ''metrics'', ''project'', ''name'', ''description'',
     ''path'', ''source'', ''cwd'', ''task_id'', ''agent_id'', ''role'']"

section \<open>Aliases\<close>

definition canonical_key :: "string \<Rightarrow> string" where
  "canonical_key k = dget_or V2_ALIASES k k"

text \<open>A second spelling of a key must carry a value with the same JSON text; the first one is kept.\<close>

fun alias_fold :: "(rat \<Rightarrow> string) \<Rightarrow> pymap \<Rightarrow> pyval dict \<Rightarrow> pyval dict cres" where
  "alias_fold rep [] acc = Inr acc"
| "alias_fold rep (kv # d) acc = (case as_str (fst kv) of
       None \<Rightarrow> Inl ContractValidationError
     | Some raw \<Rightarrow> if raw = [] then Inl ContractValidationError
         else (let key = canonical_key raw in case dget acc key of
             None \<Rightarrow> alias_fold rep d (acc @ [(key, snd kv)])
           | Some old \<Rightarrow> (case (json_text rep old, json_text rep (snd kv)) of
                 (Some a, Some b) \<Rightarrow> if a \<noteq> b then Inl ContractValidationError else alias_fold rep d acc
               | _ \<Rightarrow> Inl ContractValidationError)))"

definition normalized_aliases :: "(rat \<Rightarrow> string) \<Rightarrow> pymap \<Rightarrow> pyval dict cres" where
  "normalized_aliases rep d = alias_fold rep d []"

lemma alias_fold_values: "alias_fold rep d acc = Inr n \<Longrightarrow> (k, v) \<in> set n \<Longrightarrow> (k, v) \<in> set acc \<or> (\<exists>k'. (k', v) \<in> set d)"
  by (induction d arbitrary: acc) (fastforce simp: Let_def split: option.split_asm if_split_asm)+

lemma normalized_values: "normalized_aliases rep d = Inr n \<Longrightarrow> kv \<in> set n \<Longrightarrow> \<exists>kw \<in> set d. snd kw = snd kv"
  using alias_fold_values [of rep d "[]" n "fst kv" "snd kv"] by (cases kv) (force simp: normalized_aliases_def)

section \<open>Canonical values\<close>

definition canonical_string :: "string \<Rightarrow> pyval" where
  "canonical_string s = (if re_search EXTERNAL_URL s then PNone
     else let t = redact_sensitive_text (redact_paths s) in if re_search SECRET_VALUE t then PNone else PStr t)"

definition json_key :: "(rat \<Rightarrow> string) \<Rightarrow> pyval \<Rightarrow> string" where
  "json_key rep v = (case json_text rep v of None \<Rightarrow> [] | Some t \<Rightarrow> t)"

text \<open>\<open>capabilities\<close> and \<open>dependencies\<close> are sets: they are put in the order of their JSON texts.\<close>

definition order_collection :: "(rat \<Rightarrow> string) \<Rightarrow> string \<times> pyval \<Rightarrow> pyval \<times> pyval" where
  "order_collection rep kv = (PStr (fst kv), if fst kv \<in> {''capabilities'', ''dependencies''}
     then (case as_plist (snd kv) of None \<Rightarrow> snd kv | Some xs \<Rightarrow> PList (sort_key (json_key rep) xs)) else snd kv)"

definition kept_items :: "pyval dict \<Rightarrow> pyval dict" where
  "kept_items n = filter (\<lambda>kv. \<not> (fst kv \<in> set RUNTIME_KEYS \<or> is_sensitive_label (fst kv))) n"

definition unknown_field :: "bool \<Rightarrow> pyval dict \<Rightarrow> bool" where
  "unknown_field at_root n \<longleftrightarrow> at_root \<and> ''schema_version'' \<in> set (dkeys n)
     \<and> (\<exists>kv \<in> set (kept_items n). fst kv \<notin> set V2_PLAN_FIELDS)"

lemma item_size: "normalized_aliases rep d = Inr n \<Longrightarrow> kv \<in> set (kept_items n) \<Longrightarrow>
    size (snd kv) < Suc (size_list (size_prod size size) d)"
  using normalized_values [of rep d n kv] py_pair_size by (fastforce simp: kept_items_def)

function (sequential) canonical_value :: "(rat \<Rightarrow> string) \<Rightarrow> bool \<Rightarrow> pyval \<Rightarrow> pyval cres" where
  "canonical_value rep at_root (PDict d) =
     bindR (normalized_aliases rep d) (\<lambda>n.
     if unknown_field at_root n then Inl ContractValidationError
     else bindR (mapR (\<lambda>kv. bindR (canonical_value rep False (snd kv)) (\<lambda>v. Inr (fst kv, v))) (kept_items n)) (\<lambda>its.
       Inr (PDict (map (order_collection rep) its))))"
| "canonical_value rep at_root (PProxy d) =
     bindR (normalized_aliases rep d) (\<lambda>n.
     if unknown_field at_root n then Inl ContractValidationError
     else bindR (mapR (\<lambda>kv. bindR (canonical_value rep False (snd kv)) (\<lambda>v. Inr (fst kv, v))) (kept_items n)) (\<lambda>its.
       Inr (PDict (map (order_collection rep) its))))"
| "canonical_value rep at_root (PList xs) = bindR (mapR (canonical_value rep False) xs) (\<lambda>ys. Inr (PList ys))"
| "canonical_value rep at_root (PTuple xs) = bindR (mapR (canonical_value rep False) xs) (\<lambda>ys. Inr (PList ys))"
| "canonical_value rep at_root (PStr s) = Inr (canonical_string s)"
| "canonical_value rep at_root (PFloat f) = (if as_finite f = None then Inl ContractValidationError else Inr (PFloat f))"
| "canonical_value rep at_root (POther n) = Inl ContractValidationError"
| "canonical_value rep at_root v = Inr v"
  by pat_completeness auto
termination
  by (relation "measure (size \<circ> snd \<circ> snd)")
     (auto dest: item_size size_list_estimation' [of _ _ _ size, OF _ order_refl] simp: less_Suc_eq_le)

definition canonicalize :: "(rat \<Rightarrow> string) \<Rightarrow> pyval \<Rightarrow> pyval cres" where
  "canonicalize rep v = (case as_mapping v of
       None \<Rightarrow> Inl ContractValidationError
     | Some d \<Rightarrow> bindR (normalized_aliases rep d) (\<lambda>n.
         if dget n ''schema_version'' \<noteq> Some (PStr V2_SCHEMA_VERSION) then Inl ContractValidationError
         else canonical_value rep True (PDict (str_keyed n))))"

definition canonical_json :: "(rat \<Rightarrow> string) \<Rightarrow> pyval \<Rightarrow> string cres" where
  "canonical_json rep v = bindR (canonicalize rep v) (\<lambda>w. case json_text rep w of
       None \<Rightarrow> Inl ContractValidationError | Some t \<Rightarrow> Inr t)"

definition plan_hash :: "(rat \<Rightarrow> string) \<Rightarrow> (string \<Rightarrow> string) \<Rightarrow> pyval \<Rightarrow> string cres" where
  "plan_hash rep sha256 v = bindR (canonical_json rep v) (\<lambda>t. Inr (sha256 (V2_HASH_DOMAIN @ t)))"

section \<open>Reconciliation\<close>

record ReconciliationInput =
  expected_plan_hash :: pyval
  actual_plan_hash :: pyval
  expected_generation :: pyval
  actual_generation :: pyval
  expected_run_id :: pyval
  actual_run_id :: pyval
  expected_checkpoint :: pyval
  actual_checkpoint :: pyval
  expected_lease :: pyval
  actual_lease :: pyval
  expected_event_sequence :: pyval
  actual_event_sequence :: pyval

datatype token_label = L_plan_hash | L_generation | L_run_id | L_checkpoint | L_lease | L_event_sequence

text \<open>The codes of a reconciliation error: the token is malformed or it has drifted.\<close>

datatype reconciliation_error = Invalid token_label | Drift token_label

record ReconciliationResult =
  rr_allowed :: bool
  rr_errors :: "reconciliation_error list"

definition TOKEN_HASH :: regex where
  "TOKEN_HASH = seqs [Bos, Rep 64 (Some 64) (Cls (\<lambda>c. in_range 48 57 c \<or> in_range 97 102 c)), Dollar]"

definition TOKEN_LEASE :: regex where
  "TOKEN_LEASE = seqs [Bos, Cls ascii_alnum, Rep 0 (Some 255) (Cls (\<lambda>c. ascii_alnum c \<or> one_of ''._:-'' c)), Dollar]"

fun token_valid :: "token_label \<Rightarrow> pyval \<Rightarrow> bool" where
  "token_valid L_plan_hash v = (case as_str v of None \<Rightarrow> False | Some s \<Rightarrow> re_fullmatch TOKEN_HASH s)"
| "token_valid L_run_id v = (case as_str v of None \<Rightarrow> False | Some s \<Rightarrow> s \<noteq> [])"
| "token_valid L_lease v = (case as_str v of None \<Rightarrow> False | Some s \<Rightarrow> re_fullmatch TOKEN_LEASE s)"
| "token_valid _ v = (case as_int v of None \<Rightarrow> False | Some n \<Rightarrow> 0 \<le> n)"

fun token_pair :: "ReconciliationInput \<Rightarrow> token_label \<Rightarrow> pyval \<times> pyval" where
  "token_pair i L_plan_hash = (expected_plan_hash i, actual_plan_hash i)"
| "token_pair i L_generation = (expected_generation i, actual_generation i)"
| "token_pair i L_run_id = (expected_run_id i, actual_run_id i)"
| "token_pair i L_checkpoint = (expected_checkpoint i, actual_checkpoint i)"
| "token_pair i L_lease = (expected_lease i, actual_lease i)"
| "token_pair i L_event_sequence = (expected_event_sequence i, actual_event_sequence i)"

definition all_labels :: "token_label list" where
  "all_labels = [L_plan_hash, L_generation, L_run_id, L_checkpoint, L_lease, L_event_sequence]"

definition pair_error :: "ReconciliationInput \<Rightarrow> token_label \<Rightarrow> reconciliation_error option" where
  "pair_error i l = (let (e, a) = token_pair i l in
     if l = L_lease \<and> e = PNone \<and> a = PNone then None
     else if \<not> (token_valid l e \<and> token_valid l a) then Some (Invalid l)
     else if e \<noteq> a then Some (Drift l) else None)"

definition reconcile :: "ReconciliationInput \<Rightarrow> ReconciliationResult" where
  "reconcile i = (let errors = List.map_filter (pair_error i) all_labels in \<lparr>rr_allowed = (errors = []), rr_errors = errors\<rparr>)"

section \<open>What a canonical plan contains\<close>

text \<open>
  A canonical value has string keys, each once, none of them an alias, a runtime field or a sensitive
  label, no text with a recognisable secret, and only finite numbers.
\<close>

definition clean_key :: "string \<Rightarrow> bool" where
  "clean_key k \<longleftrightarrow> k \<noteq> [] \<and> canonical_key k = k \<and> k \<notin> set RUNTIME_KEYS \<and> \<not> is_sensitive_label k"

function (sequential) clean_plan :: "pyval \<Rightarrow> bool" where
  "clean_plan (PDict d) = (distinct (map fst d)
     \<and> (\<forall>kv \<in> set d. (case as_str (fst kv) of None \<Rightarrow> False | Some k \<Rightarrow> clean_key k) \<and> clean_plan (snd kv)))"
| "clean_plan (PList xs) = (\<forall>x \<in> set xs. clean_plan x)"
| "clean_plan (PStr s) = (\<not> re_search SECRET_VALUE s)"
| "clean_plan (PFloat f) = (as_finite f \<noteq> None)"
| "clean_plan (PProxy d) = False"
| "clean_plan (PTuple xs) = False"
| "clean_plan (POther n) = False"
| "clean_plan v = True"
  by pat_completeness auto
termination
  by (relation "measure size")
     (auto dest: py_pair_size size_list_estimation' [of _ _ _ size, OF _ order_refl] simp: less_Suc_eq_le)

lemma clean_is_json: "clean_plan v \<Longrightarrow> is_json v"
proof (induction v rule: clean_plan.induct)
  case (1 d)
  then show ?case by (auto simp: clean_key_def split: option.split_asm)
qed auto

lemma canonical_key_idem: "canonical_key (canonical_key k) = canonical_key k"
  by (simp add: canonical_key_def dget_or_def dget_def V2_ALIASES_def)

lemma alias_fold_keys: "alias_fold rep d acc = Inr n \<Longrightarrow>
    dict_wf acc \<and> (\<forall>k \<in> set (dkeys acc). k \<noteq> [] \<and> canonical_key k = k) \<Longrightarrow>
    dict_wf n \<and> (\<forall>k \<in> set (dkeys n). k \<noteq> [] \<and> canonical_key k = k)"
proof (induction d arbitrary: acc)
  case (Cons kv d)
  then obtain raw where raw: "as_str (fst kv) = Some raw" "raw \<noteq> []" by (auto split: option.split_asm if_split_asm)
  let ?k = "canonical_key raw"
  have ne: "?k \<noteq> []" using raw(2) by (auto simp: canonical_key_def dget_or_def dget_def V2_ALIASES_def split: if_splits)
  show ?case
  proof (cases "dget acc ?k")
    case None
    with Cons.prems(1) raw have n: "alias_fold rep d (acc @ [(?k, snd kv)]) = Inr n" by (simp add: Let_def)
    have "dict_wf (acc @ [(?k, snd kv)]) \<and> (\<forall>k \<in> set (dkeys (acc @ [(?k, snd kv)])). k \<noteq> [] \<and> canonical_key k = k)"
      using Cons.prems(2) None ne by (auto simp: dict_wf_def dkeys_def dget_None_iff canonical_key_idem)
    from Cons.IH [OF n this] show ?thesis .
  next
    case (Some old)
    with Cons.prems(1) raw have "alias_fold rep d acc = Inr n" by (auto simp: Let_def split: option.split_asm if_split_asm)
    from Cons.IH [OF this Cons.prems(2)] show ?thesis .
  qed
qed simp

lemma normalized_keys: "normalized_aliases rep d = Inr n \<Longrightarrow>
    distinct (map fst n) \<and> (\<forall>kv \<in> set n. fst kv \<noteq> [] \<and> canonical_key (fst kv) = fst kv)"
  using alias_fold_keys [of rep d "[]" n] by (auto simp: normalized_aliases_def dict_wf_def dkeys_def)

lemma canonical_string_clean: "clean_plan (canonical_string s)"
  by (simp add: canonical_string_def Let_def)

lemma order_collection_clean: "clean_plan (snd kv) \<Longrightarrow> clean_plan (snd (order_collection rep kv))"
  by (auto simp: order_collection_def split: option.split)

lemma mapR_keys: "mapR (\<lambda>kv. bindR (f (snd kv)) (\<lambda>v. Inr (fst kv, v))) xs = Inr ys \<Longrightarrow> map fst ys = map fst xs"
  by (induction xs arbitrary: ys) (auto simp: result_simps)

lemma canonical_items_clean:
  assumes n: "normalized_aliases rep d = Inr n"
    and its: "mapR (\<lambda>kv. bindR (canonical_value rep False (snd kv)) (\<lambda>v. Inr (fst kv, v))) (kept_items n) = Inr its"
    and IH: "\<And>kv w. kv \<in> set (kept_items n) \<Longrightarrow> canonical_value rep False (snd kv) = Inr w \<Longrightarrow> clean_plan w"
  shows "clean_plan (PDict (map (order_collection rep) its))"
proof -
  have keys: "map fst its = map fst (kept_items n)" using its by (rule mapR_keys)
  have "clean_key (fst kv) \<and> clean_plan (snd kv)" if kv: "kv \<in> set its" for kv
  proof -
    from kv have "fst kv \<in> set (map fst (kept_items n))" unfolding keys [symmetric] by simp
    then have "clean_key (fst kv)" using normalized_keys [OF n] by (auto simp: kept_items_def clean_key_def)
    moreover from mapR_set [OF its kv] have "clean_plan (snd kv)" using IH by (auto simp: result_simps)
    ultimately show ?thesis by simp
  qed
  note item = this
  have "map fst (map (order_collection rep) its) = map PStr (map fst its)" by (simp add: order_collection_def)
  moreover have "distinct (map fst its)" unfolding keys using normalized_keys [OF n] by (simp add: kept_items_def distinct_map_filter)
  ultimately have "distinct (map fst (map (order_collection rep) its))"
    using distinct_map [of PStr "map fst its"] by (simp only:) (simp add: inj_on_def)
  moreover have "(case as_str (fst kw) of None \<Rightarrow> False | Some k \<Rightarrow> clean_key k) \<and> clean_plan (snd kw)"
    if kw: "kw \<in> set (map (order_collection rep) its)" for kw
    using kw item order_collection_clean by (auto simp: order_collection_def)
  ultimately show ?thesis by simp
qed

lemma canonical_value_clean: "canonical_value rep r v = Inr w \<Longrightarrow> clean_plan w"
proof (induction rep r v arbitrary: w rule: canonical_value.induct)
  case (1 rep r d)
  then obtain n its where n: "normalized_aliases rep d = Inr n" and nu: "\<not> unknown_field r n"
    and its: "mapR (\<lambda>kv. bindR (canonical_value rep False (snd kv)) (\<lambda>v. Inr (fst kv, v))) (kept_items n) = Inr its"
    and w: "w = PDict (map (order_collection rep) its)"
    by (auto simp: result_simps)
  show ?case unfolding w by (rule canonical_items_clean [OF n its]) (rule "1.IH" [OF n nu])
next
  case (2 rep r d)
  then obtain n its where n: "normalized_aliases rep d = Inr n" and nu: "\<not> unknown_field r n"
    and its: "mapR (\<lambda>kv. bindR (canonical_value rep False (snd kv)) (\<lambda>v. Inr (fst kv, v))) (kept_items n) = Inr its"
    and w: "w = PDict (map (order_collection rep) its)"
    by (auto simp: result_simps)
  show ?case unfolding w by (rule canonical_items_clean [OF n its]) (rule "2.IH" [OF n nu])
next
  case (3 rep r xs)
  then obtain ys where w: "w = PList ys" and ys: "mapR (canonical_value rep False) xs = Inr ys" by (auto simp: result_simps)
  then show ?case using mapR_set [OF ys] "3.IH" by auto
next
  case (4 rep r xs)
  then obtain ys where w: "w = PList ys" and ys: "mapR (canonical_value rep False) xs = Inr ys" by (auto simp: result_simps)
  then show ?case using mapR_set [OF ys] "4.IH" by auto
next
  case (5 rep r s)
  then show ?case using canonical_string_clean by auto
qed (auto split: if_split_asm)

lemma canonicalize_clean: "canonicalize rep v = Inr w \<Longrightarrow> clean_plan w"
  by (auto simp: canonicalize_def result_simps simp del: canonical_value.simps clean_plan.simps
      split: option.split_asm if_split_asm dest: canonical_value_clean)

section \<open>Tokens\<close>

definition hex_char :: "char \<Rightarrow> bool" where
  "hex_char c \<longleftrightarrow> in_range 48 57 c \<or> in_range 97 102 c"

lemma token_hash_iff: "re_fullmatch TOKEN_HASH s \<longleftrightarrow> length s = 64 \<and> list_all hex_char s"
proof -
  have "re_fullmatch TOKEN_HASH s \<longleftrightarrow> re_fullmatch (Rep 64 (Some 64) (Cls hex_char)) s"
    by (auto simp: TOKEN_HASH_def re_fullmatch_def hex_char_def [abs_def] simp del: ends.simps(5))
  then show ?thesis by (auto simp: fullmatch_class_star)
qed

definition lease_char :: "char \<Rightarrow> bool" where
  "lease_char c \<longleftrightarrow> ascii_alnum c \<or> one_of ''._:-'' c"

lemma token_lease_iff: "re_fullmatch TOKEN_LEASE s \<longleftrightarrow>
    s \<noteq> [] \<and> length s \<le> 256 \<and> ascii_alnum (hd s) \<and> list_all lease_char (tl s)"
proof -
  have "re_fullmatch TOKEN_LEASE s \<longleftrightarrow> re_fullmatch (Seq (Cls ascii_alnum) (Rep 0 (Some 255) (Cls lease_char))) s"
    by (auto simp: TOKEN_LEASE_def re_fullmatch_def lease_char_def [abs_def] simp del: ends.simps(5))
  then show ?thesis by (auto simp: fullmatch_head_star)
qed

text \<open>
  C22: a canonical plan holds no key that is an alias, a runtime field or a sensitive label, each key
  once, no text with a recognisable secret and no infinite number, at any depth; so it always has a JSON
  text, and the hash is that of the text behind the domain separator.
\<close>

theorem canonical_clean:
  assumes "canonicalize rep v = Inr w"
  shows "clean_plan w \<and> (\<exists>t. json_text rep w = Some t \<and> Canonical.plan_hash rep sha256 v = Inr (sha256 (V2_HASH_DOMAIN @ t)))"
proof -
  have c: "clean_plan w" using assms by (rule canonicalize_clean)
  obtain t where "json_text rep w = Some t" using json_text_total [OF clean_is_json [OF c]] by blast
  with c assms show ?thesis by (simp add: plan_hash_def canonical_json_def del: clean_plan.simps)
qed

definition demo_v2 :: pyval where
  "demo_v2 = PDict (str_keyed [(''schemaVersion'', PStr V2_SCHEMA_VERSION), (''created_at'', PInt 7), (''apiKey'', PStr ''x''),
     (''tasks'', PList [PStr ''see http://a.b/c'', PDict (str_keyed [(''taskId'', PStr ''a''), (''password'', PNone)])])])"

definition demo_canonical :: pyval where
  "demo_canonical = PDict (str_keyed [(''schema_version'', PStr V2_SCHEMA_VERSION),
     (''tasks'', PList [PNone, PDict (str_keyed [(''task_id'', PStr ''a'')])])])"

lemma demo_canonical: "canonicalize (\<lambda>_. []) demo_v2 = Inr demo_canonical"
  by code_simp

theorem canonical_clean_witness: "clean_plan demo_canonical"
  using canonical_clean [OF demo_canonical, of "\<lambda>s. s"] by blast

text \<open>All pairs of tokens are present, well formed and equal; the lease may be absent on both sides.\<close>

definition tokens_match :: "ReconciliationInput \<Rightarrow> bool" where
  "tokens_match i \<longleftrightarrow>
     (\<exists>h. expected_plan_hash i = PStr h \<and> actual_plan_hash i = PStr h \<and> length h = 64 \<and> list_all hex_char h)
     \<and> (\<exists>n \<ge> 0. expected_generation i = PInt n \<and> actual_generation i = PInt n)
     \<and> (\<exists>r. expected_run_id i = PStr r \<and> actual_run_id i = PStr r \<and> r \<noteq> [])
     \<and> (\<exists>n \<ge> 0. expected_checkpoint i = PInt n \<and> actual_checkpoint i = PInt n)
     \<and> (expected_lease i = PNone \<and> actual_lease i = PNone
        \<or> (\<exists>l. expected_lease i = PStr l \<and> actual_lease i = PStr l \<and> l \<noteq> [] \<and> length l \<le> 256 \<and> ascii_alnum (hd l) \<and> list_all lease_char (tl l)))
     \<and> (\<exists>n \<ge> 0. expected_event_sequence i = PInt n \<and> actual_event_sequence i = PInt n)"

definition pair_ok :: "ReconciliationInput \<Rightarrow> token_label \<Rightarrow> bool" where
  "pair_ok i l \<longleftrightarrow> pair_error i l = None"

lemma as_int_Some: "as_int v = Some n \<longleftrightarrow> v = PInt n"
  by (cases v) auto

lemma pair_ok_hash: "pair_ok i L_plan_hash \<longleftrightarrow>
    (\<exists>h. expected_plan_hash i = PStr h \<and> actual_plan_hash i = PStr h \<and> length h = 64 \<and> list_all hex_char h)"
  by (auto simp: pair_ok_def pair_error_def Let_def token_hash_iff split: option.splits)

lemma pair_ok_run: "pair_ok i L_run_id \<longleftrightarrow> (\<exists>r. expected_run_id i = PStr r \<and> actual_run_id i = PStr r \<and> r \<noteq> [])"
  by (auto simp: pair_ok_def pair_error_def Let_def split: option.splits)

lemma pair_ok_number:
  "pair_ok i L_generation \<longleftrightarrow> (\<exists>n \<ge> 0. expected_generation i = PInt n \<and> actual_generation i = PInt n)"
  "pair_ok i L_checkpoint \<longleftrightarrow> (\<exists>n \<ge> 0. expected_checkpoint i = PInt n \<and> actual_checkpoint i = PInt n)"
  "pair_ok i L_event_sequence \<longleftrightarrow> (\<exists>n \<ge> 0. expected_event_sequence i = PInt n \<and> actual_event_sequence i = PInt n)"
  by (auto simp: pair_ok_def pair_error_def Let_def as_int_Some split: option.splits)

lemma pair_ok_lease: "pair_ok i L_lease \<longleftrightarrow> expected_lease i = PNone \<and> actual_lease i = PNone
    \<or> (\<exists>l. expected_lease i = PStr l \<and> actual_lease i = PStr l \<and> l \<noteq> [] \<and> length l \<le> 256 \<and> ascii_alnum (hd l) \<and> list_all lease_char (tl l))"
  by (auto simp: pair_ok_def pair_error_def Let_def token_lease_iff split: option.splits)

lemma map_filter_mem: "y \<in> set (List.map_filter f xs) \<longleftrightarrow> (\<exists>x \<in> set xs. f x = Some y)"
  by (induction xs) (auto simp: map_filter_simps split: option.splits)

lemma all_labels_all: "set all_labels = UNIV"
  by (auto simp: all_labels_def) (metis token_label.exhaust)

lemma reconcile_errors: "e \<in> set (rr_errors (reconcile i)) \<longleftrightarrow> (\<exists>l. pair_error i l = Some e)"
  by (simp add: reconcile_def Let_def map_filter_mem all_labels_all)

lemma reconcile_allowed: "rr_allowed (reconcile i) \<longleftrightarrow> (\<forall>l. pair_ok i l)"
proof -
  have "rr_allowed (reconcile i) \<longleftrightarrow> set (rr_errors (reconcile i)) = {}" by (simp add: reconcile_def Let_def)
  also have "\<dots> \<longleftrightarrow> (\<forall>l. pair_error i l = None)" using reconcile_errors [of _ i] by (metis all_not_in_conv not_Some_eq)
  finally show ?thesis by (simp add: pair_ok_def)
qed

lemma all_pairs: "(\<forall>l. pair_ok i l) \<longleftrightarrow> tokens_match i"
proof -
  have "(\<forall>l. pair_ok i l) \<longleftrightarrow> list_all (pair_ok i) all_labels" by (simp add: list_all_iff all_labels_all)
  then show ?thesis by (simp add: all_labels_def tokens_match_def pair_ok_hash pair_ok_run pair_ok_number pair_ok_lease)
qed

text \<open>
  Reconciliation allows exactly when every token is well formed and equal on both sides, the lease
  possibly absent on both; otherwise each pair is reported as malformed or, only if both tokens are well
  formed, as drifted.
\<close>

theorem reconcile_exact:
  "(rr_allowed (reconcile i) \<longleftrightarrow> tokens_match i)
   \<and> (rr_allowed (reconcile i) \<longleftrightarrow> rr_errors (reconcile i) = [])
   \<and> (Drift l \<in> set (rr_errors (reconcile i)) \<longleftrightarrow>
        token_valid l (fst (token_pair i l)) \<and> token_valid l (snd (token_pair i l)) \<and> fst (token_pair i l) \<noteq> snd (token_pair i l))
   \<and> (Invalid l \<in> set (rr_errors (reconcile i)) \<longleftrightarrow>
        \<not> (token_valid l (fst (token_pair i l)) \<and> token_valid l (snd (token_pair i l)))
        \<and> \<not> (l = L_lease \<and> expected_lease i = PNone \<and> actual_lease i = PNone))"
proof -
  have d: "pair_error i k = Some (Drift l) \<longleftrightarrow> k = l \<and> token_valid l (fst (token_pair i l)) \<and> token_valid l (snd (token_pair i l))
      \<and> fst (token_pair i l) \<noteq> snd (token_pair i l)" for k
    by (auto simp: pair_error_def Let_def case_prod_beta)
  have e: "pair_error i k = Some (Invalid l) \<longleftrightarrow> k = l \<and> \<not> (token_valid l (fst (token_pair i l)) \<and> token_valid l (snd (token_pair i l)))
      \<and> \<not> (l = L_lease \<and> expected_lease i = PNone \<and> actual_lease i = PNone)" for k
    by (auto simp: pair_error_def Let_def case_prod_beta)
  have "rr_allowed (reconcile i) \<longleftrightarrow> rr_errors (reconcile i) = []" by (simp add: reconcile_def Let_def)
  then show ?thesis by (simp add: reconcile_allowed all_pairs [symmetric] reconcile_errors d e)
qed

text \<open>
  The canonical form is not a fixed point: the credential that ends before a slash is replaced by a mark,
  and after the mark the slash starts a path, which the next pass redacts. A plan that holds such a text
  hashes differently from its own canonical form.
\<close>

definition unstable_plan :: pyval where
  "unstable_plan = PDict (str_keyed [(''schema_version'', PStr V2_SCHEMA_VERSION), (''name'', PStr ''sk-abcdefgh/x'')])"

lemma canonical_not_idempotent:
  "\<exists>w t u. canonicalize (\<lambda>_. []) unstable_plan = Inr w \<and> canonical_json (\<lambda>_. []) unstable_plan = Inr t
     \<and> canonical_json (\<lambda>_. []) w = Inr u \<and> t \<noteq> u"
proof -
  let ?w = "\<lambda>s. PDict (str_keyed [(''schema_version'', PStr V2_SCHEMA_VERSION), (''name'', PStr s)])"
  have a: "canonicalize (\<lambda>_. []) unstable_plan = Inr (?w ''[REDACTED]/x'')" by code_simp
  have b: "canonicalize (\<lambda>_. []) (?w ''[REDACTED]/x'') = Inr (?w ''[REDACTED][PATH REDACTED]'')" by code_simp
  obtain t u where t: "json_text (\<lambda>_. []) (?w ''[REDACTED]/x'') = Some t" "json_text (\<lambda>_. []) (?w ''[REDACTED][PATH REDACTED]'') = Some u" "t \<noteq> u"
  proof -
    have "(case (json_text (\<lambda>_. []) (?w ''[REDACTED]/x''), json_text (\<lambda>_. []) (?w ''[REDACTED][PATH REDACTED]'')) of
       (Some t, Some u) \<Rightarrow> t \<noteq> u | _ \<Rightarrow> False)" by code_simp
    then show thesis using that by (auto split: option.splits)
  qed
  then show ?thesis using a b by (simp add: canonical_json_def)
qed

end
