(* ===== verification/CanonicalOrder.thy ===== *)
theory CanonicalOrder
  imports Canonical "HOL-Library.Multiset"
begin

text \<open>
  The canonical text of a V2 plan does not depend on how the plan is written down: the order of object
  items, the spelling of aliased keys, lists or tuples, and the order of the set-like collections
  \<open>capabilities\<close> and \<open>dependencies\<close>.
\<close>

definition same_key :: "pyval \<Rightarrow> pyval \<Rightarrow> bool" where
  "same_key a b \<longleftrightarrow> map_option canonical_key (as_str a) = map_option canonical_key (as_str b) \<and> (as_str a = Some [] \<longleftrightarrow> as_str b = Some [])"

definition raw_key :: "pyval \<times> pyval \<Rightarrow> string" where
  "raw_key kv = (case as_str (fst kv) of None \<Rightarrow> [] | Some k \<Rightarrow> canonical_key k)"

definition set_like :: "string \<Rightarrow> bool" where
  "set_like k \<longleftrightarrow> k \<in> {''capabilities'', ''dependencies''}"

inductive same_plan :: "pyval \<Rightarrow> pyval \<Rightarrow> bool" where
  same_refl: "same_plan v v"
| same_list: "as_sequence v = Some xs \<Longrightarrow> as_sequence w = Some ys \<Longrightarrow> list_all2 same_plan xs ys \<Longrightarrow> same_plan v w"
| same_dict: "as_mapping v = Some d \<Longrightarrow> as_mapping w = Some e \<Longrightarrow> distinct (map raw_key d) \<Longrightarrow>
    list_all2 (\<lambda>a b. same_key (fst a) (fst b) \<and> (same_plan (snd a) (snd b)
      \<or> set_like (raw_key a) \<and> (\<exists>xs ys zs. as_sequence (snd a) = Some xs \<and> as_sequence (snd b) = Some ys
           \<and> list_all2 same_plan xs zs \<and> mset zs = mset ys))) d f \<Longrightarrow>
    mset f = mset e \<Longrightarrow> same_plan v w"

lemma list_all2_left: "list_all2 R xs ys \<Longrightarrow> x \<in> set xs \<Longrightarrow> \<exists>y \<in> set ys. R x y"
  by (induction rule: list_all2_induct) auto

lemma list_all2_right: "list_all2 R xs ys \<Longrightarrow> y \<in> set ys \<Longrightarrow> \<exists>x \<in> set xs. R x y"
  by (induction rule: list_all2_induct) auto

lemma list_all2_map_eq: "list_all2 R xs ys \<Longrightarrow> (\<And>a b. R a b \<Longrightarrow> f a = g b) \<Longrightarrow> map f xs = map g ys"
  by (induction rule: list_all2_induct) auto

section \<open>Canonical items\<close>

definition key_ok :: "pyval \<times> pyval \<Rightarrow> bool" where
  "key_ok kv \<longleftrightarrow> as_str (fst kv) \<noteq> None \<and> as_str (fst kv) \<noteq> Some []"

text \<open>With distinct canonical keys the aliases are renamed one by one.\<close>

lemma alias_fold_distinct:
  "distinct (map raw_key d) \<Longrightarrow> (\<forall>kv \<in> set d. raw_key kv \<notin> set (dkeys acc)) \<Longrightarrow>
     alias_fold rep d acc = (if list_all key_ok d then Inr (acc @ map (\<lambda>kv. (raw_key kv, snd kv)) d) else Inl ContractValidationError)"
proof (induction d arbitrary: acc)
  case (Cons kv d)
  show ?case
  proof (cases "key_ok kv")
    case True
    then obtain k where k: "as_str (fst kv) = Some k" "k \<noteq> []" by (auto simp: key_ok_def)
    have acc: "dget acc (raw_key kv) = None" using Cons.prems(2) by (simp add: dget_None_iff)
    have "alias_fold rep (kv # d) acc = alias_fold rep d (acc @ [(raw_key kv, snd kv)])"
      using k acc by (simp add: raw_key_def Let_def)
    also have "\<dots> = (if list_all key_ok d then Inr ((acc @ [(raw_key kv, snd kv)]) @ map (\<lambda>kv. (raw_key kv, snd kv)) d)
        else Inl ContractValidationError)"
    proof (rule Cons.IH)
      show "distinct (map raw_key d)" using Cons.prems(1) by simp
      have ne: "raw_key kw \<noteq> raw_key kv" if "kw \<in> set d" for kw
      proof
        assume "raw_key kw = raw_key kv"
        with that have "raw_key kv \<in> set (map raw_key d)" by (metis image_eqI list.set_map)
        with Cons.prems(1) show False by simp
      qed
      show "\<forall>kw \<in> set d. raw_key kw \<notin> set (dkeys (acc @ [(raw_key kv, snd kv)]))"
        using Cons.prems(2) ne by (simp add: dkeys_def)
    qed
    finally show ?thesis using True by simp
  next
    case False
    then show ?thesis by (auto simp: key_ok_def split: option.split)
  qed
qed simp

lemma normalized_distinct: "distinct (map raw_key d) \<Longrightarrow> normalized_aliases rep d =
    (if list_all key_ok d then Inr (map (\<lambda>kv. (raw_key kv, snd kv)) d) else Inl ContractValidationError)"
  using alias_fold_distinct [of d "[]" rep] by (simp add: normalized_aliases_def dkeys_def)

text \<open>Results are compared by their texts, and lists also by the texts of their elements.\<close>

definition same_text :: "(rat \<Rightarrow> string) \<Rightarrow> pyval \<Rightarrow> pyval \<Rightarrow> bool" where
  "same_text rep a b \<longleftrightarrow> json_text rep a = json_text rep b
     \<and> map_option (map (json_key rep)) (as_plist a) = map_option (map (json_key rep)) (as_plist b)"

definition same_res :: "(rat \<Rightarrow> string) \<Rightarrow> pyval cres \<Rightarrow> pyval cres \<Rightarrow> bool" where
  "same_res rep r s \<longleftrightarrow> r = s \<and> \<not> isOK r \<or> (\<exists>a b. r = Inr a \<and> s = Inr b \<and> same_text rep a b)"

lemma same_text_refl [simp]: "same_text rep a a"
  by (simp add: same_text_def)

lemma same_res_refl [simp]: "same_res rep r r"
  by (cases r) (auto simp: same_res_def)

lemma mapR_error:
  assumes "\<And>x e. x \<in> set xs \<Longrightarrow> f x = Inl e \<Longrightarrow> e = ContractValidationError"
  shows "mapR f xs = (if list_all (\<lambda>x. isOK (f x)) xs then Inr (map (\<lambda>x. projr (f x)) xs) else Inl ContractValidationError)"
  using assms
proof (induction xs)
  case (Cons x xs)
  have "mapR f xs = (if list_all (\<lambda>x. isOK (f x)) xs then Inr (map (\<lambda>x. projr (f x)) xs) else Inl ContractValidationError)"
    by (rule Cons.IH) (use Cons.prems in auto)
  then show ?case using Cons.prems [of x] by (cases "f x") auto
qed simp

lemma alias_fold_error: "alias_fold rep d acc = Inl e \<Longrightarrow> e = ContractValidationError"
  by (induction d arbitrary: acc) (auto simp: Let_def split: option.split_asm if_split_asm)

lemma mapR_Inl: "mapR f xs = Inl e \<Longrightarrow> \<exists>x \<in> set xs. f x = Inl e"
  by (induction xs) (auto simp: result_simps)

lemma canonical_value_error: "canonical_value rep r v = Inl e \<Longrightarrow> e = ContractValidationError"
proof (induction rep r v rule: canonical_value.induct)
  case (1 rep r d)
  then show ?case
    by (auto simp: result_simps normalized_aliases_def split: if_split_asm dest!: mapR_Inl alias_fold_error)
next
  case (2 rep r d)
  then show ?case
    by (auto simp: result_simps normalized_aliases_def split: if_split_asm dest!: mapR_Inl alias_fold_error)
next
  case (3 rep r xs)
  then show ?case by (auto simp: result_simps dest!: mapR_Inl)
next
  case (4 rep r xs)
  then show ?case by (auto simp: result_simps dest!: mapR_Inl)
qed (auto split: if_split_asm)

lemma canonical_sequence: "as_sequence v = Some xs \<Longrightarrow>
    canonical_value rep r v = bindR (mapR (canonical_value rep False) xs) (\<lambda>ys. Inr (PList ys))"
  by (cases v) auto

lemma canonical_mapping: "as_mapping v = Some d \<Longrightarrow> canonical_value rep r v = canonical_value rep r (PDict d)"
  by (cases v) auto

lemma json_key_Some: "is_json x \<Longrightarrow> json_text rep x = Some (json_key rep x)"
  using json_text_total [of x rep] by (auto simp: json_key_def)

lemma list_text: "(\<And>x. x \<in> set xs \<Longrightarrow> is_json x) \<Longrightarrow>
    json_text rep (PList xs) = Some (''['' @ join '','' (map (json_key rep) xs) @ '']'')"
  using those_map_Some [of xs "json_text rep" "json_key rep"] by (simp add: json_key_Some)

definition item_text :: "(rat \<Rightarrow> string) \<Rightarrow> string \<Rightarrow> pyval \<Rightarrow> string" where
  "item_text rep k x = json_key rep (snd (order_collection rep (k, x)))"

lemma item_text: "is_json x \<Longrightarrow> item_text rep k x = (case as_plist x of
      Some xs \<Rightarrow> if set_like k then ''['' @ join '','' (sort (map (json_key rep) xs)) @ '']'' else json_key rep x
    | None \<Rightarrow> json_key rep x)"
proof (cases "as_plist x")
  case None
  then show ?thesis by (simp add: item_text_def order_collection_def)
next
  case (Some xs)
  moreover assume "is_json x"
  ultimately have "json_key rep (PList (sort_key (json_key rep) xs)) = ''['' @ join '','' (map (json_key rep) (sort_key (json_key rep) xs)) @ '']''"
    using list_text [of "sort_key (json_key rep) xs" rep] by (auto simp: json_key_def [of rep "PList _"] simp del: json_text.simps)
  with Some show ?thesis by (simp add: item_text_def order_collection_def set_like_def sort_map)
qed

lemma same_text_item: "same_text rep x y \<Longrightarrow> is_json x \<Longrightarrow> is_json y \<Longrightarrow> item_text rep k x = item_text rep k y"
proof -
  assume s: "same_text rep x y" and j: "is_json x" "is_json y"
  from s have k: "json_key rep x = json_key rep y" by (simp add: same_text_def json_key_def)
  from s have l: "map_option (map (json_key rep)) (as_plist x) = map_option (map (json_key rep)) (as_plist y)" by (simp add: same_text_def)
  show ?thesis unfolding item_text [OF j(1)] item_text [OF j(2)]
    using l by (cases "as_plist x"; cases "as_plist y") (simp_all add: k del: as_plist_Some)
qed

text \<open>Pairwise equal texts of elements.\<close>

lemma mapR_same:
  "list_all2 (\<lambda>x y. same_res rep (f x) (f y)) xs ys \<Longrightarrow>
     (\<exists>e. mapR f xs = Inl e \<and> mapR f ys = Inl e) \<or> (\<exists>as bs. mapR f xs = Inr as \<and> mapR f ys = Inr bs \<and> list_all2 (same_text rep) as bs)"
proof (induction rule: list_all2_induct)
  case (Cons x xs y ys)
  then show ?case by (cases "f x"; cases "f y") (auto simp: same_res_def)
qed simp

lemma same_text_lists: "list_all2 (same_text rep) as bs \<Longrightarrow> same_text rep (PList as) (PList bs)"
proof -
  assume "list_all2 (same_text rep) as bs"
  then have t: "map (json_text rep) as = map (json_text rep) bs"
    by (auto simp: list_all2_conv_all_nth same_text_def intro!: nth_equalityI)
  have "map (json_key rep) as = map (json_key rep) bs"
    using arg_cong [OF t, of "map (\<lambda>t. case t of None \<Rightarrow> [] | Some u \<Rightarrow> u)"] by (simp add: json_key_def [abs_def] comp_def)
  with t show ?thesis by (simp add: same_text_def)
qed

section \<open>Objects through the summary of their items\<close>

text \<open>All that the canonical text of an object depends on: key, validity of the key and of the value, text of the item.\<close>

type_synonym summary = "(string \<times> bool \<times> bool \<times> string) list"

definition val_of :: "(rat \<Rightarrow> string) \<Rightarrow> pyval \<Rightarrow> pyval" where
  "val_of rep v = projr (canonical_value rep False v)"

definition summarize :: "(rat \<Rightarrow> string) \<Rightarrow> pyval \<times> pyval \<Rightarrow> string \<times> bool \<times> bool \<times> string" where
  "summarize rep kv = (raw_key kv, key_ok kv, isOK (canonical_value rep False (snd kv)),
     if isOK (canonical_value rep False (snd kv)) then item_text rep (raw_key kv) (val_of rep (snd kv)) else [])"

definition kept_key :: "string \<Rightarrow> bool" where
  "kept_key k \<longleftrightarrow> \<not> (k \<in> set RUNTIME_KEYS \<or> is_sensitive_label k)"

definition object_text :: "bool \<Rightarrow> summary \<Rightarrow> string option" where
  "object_text r s = (let kept = filter (\<lambda>x. kept_key (fst x)) s in
     if \<not> list_all (\<lambda>x. fst (snd x)) s then None
     else if r \<and> ''schema_version'' \<in> fst ` set s \<and> \<not> fst ` set kept \<subseteq> set V2_PLAN_FIELDS then None
     else if \<not> list_all (\<lambda>x. fst (snd (snd x))) kept then None
     else Some (''{'' @ join '','' (map (\<lambda>(k, t). json_str k @ '':'' @ t)
       (sort_key fst (map (\<lambda>x. (fst x, snd (snd (snd x)))) kept))) @ ''}''))"

lemma object_text_mset: "mset s = mset t \<Longrightarrow> distinct (map fst s) \<Longrightarrow> object_text r s = object_text r t"
proof -
  assume m: "mset s = mset t" and d: "distinct (map fst s)"
  have all: "set s = set t" using m by (rule mset_eq_setD)
  have f: "mset (filter P s) = mset (filter P t)" for P using m by simp
  have "sort_key fst (map (\<lambda>x. (fst x, snd (snd (snd x)))) (filter P s)) = sort_key fst (map (\<lambda>x. (fst x, snd (snd (snd x)))) (filter P t))" for P
  proof -
    have "distinct (map fst (filter P s))" using d by (rule distinct_map_filter)
    then have i: "inj_on fst (set (map (\<lambda>x. (fst x, snd (snd (snd x)))) (filter P s)))"
      by (auto simp: distinct_map inj_on_def)
    show ?thesis by (rule sort_key_inj_key_eq) (use f [of P] i in auto)
  qed
  note sorted = this
  have la: "list_all P s = list_all P t" "list_all P (filter Q s) = list_all P (filter Q t)" for P Q
    by (simp_all add: list_all_iff all)
  show ?thesis unfolding object_text_def Let_def la sorted by (simp only: all set_filter)
qed

definition text_result :: "(rat \<Rightarrow> string) \<Rightarrow> pyval cres \<Rightarrow> string option" where
  "text_result rep c = (case c of Inl _ \<Rightarrow> None | Inr w \<Rightarrow> json_text rep w)"

lemma clean_order: "canonical_value rep False v = Inr w \<Longrightarrow> is_json w \<and> is_json (snd (order_collection rep (k, w)))"
  using order_collection_clean [of "(k, w)" rep] by (auto dest!: canonical_value_clean intro: clean_is_json)

lemma canonical_object:
  assumes d: "distinct (map raw_key d)"
  shows "text_result rep (canonical_value rep r (PDict d)) = object_text r (map (summarize rep) d)"
proof (cases "list_all key_ok d")
  case False
  then have "\<not> list_all (\<lambda>x. fst (snd x)) (map (summarize rep) d)" by (auto simp: list_all_iff summarize_def)
  then have "object_text r (map (summarize rep) d) = None" unfolding object_text_def Let_def by (rule if_P)
  with False show ?thesis by (simp add: normalized_distinct [OF d] text_result_def)
next
  case True
  let ?n = "map (\<lambda>kv. (raw_key kv, snd kv)) d"
  let ?c = "\<lambda>kv :: string \<times> pyval. bindR (canonical_value rep False (snd kv)) (\<lambda>v. Inr (fst kv, v))"
  have n: "normalized_aliases rep d = Inr ?n" using True normalized_distinct [OF d] by simp
  have kept: "kept_items ?n = map (\<lambda>kv. (raw_key kv, snd kv)) (filter (\<lambda>kv. kept_key (raw_key kv)) d)"
    by (simp add: kept_items_def filter_map comp_def kept_key_def)
  have u: "unknown_field r ?n \<longleftrightarrow> r \<and> ''schema_version'' \<in> raw_key ` set d
      \<and> \<not> raw_key ` set (filter (\<lambda>kv. kept_key (raw_key kv)) d) \<subseteq> set V2_PLAN_FIELDS"
    unfolding unknown_field_def kept by (auto simp: dkeys_def image_iff)
  have m: "mapR ?c xs = (if list_all (\<lambda>kv. isOK (canonical_value rep False (snd kv))) xs
      then Inr (map (\<lambda>kv. (fst kv, val_of rep (snd kv))) xs) else Inl ContractValidationError)" for xs
  proof -
    have "mapR ?c xs = (if list_all (\<lambda>x. isOK (?c x)) xs then Inr (map (\<lambda>x. projr (?c x)) xs) else Inl ContractValidationError)"
      by (rule mapR_error) (auto simp: result_simps dest: canonical_value_error)
    moreover have "isOK (?c x) = isOK (canonical_value rep False (snd x))" for x
      by (cases "canonical_value rep False (snd x)") auto
    moreover have p: "projr (?c x) = (fst x, val_of rep (snd x))" if "isOK (canonical_value rep False (snd x))" for x
      using that by (cases "canonical_value rep False (snd x)") (auto simp: val_of_def)
    moreover have "map (\<lambda>x. projr (?c x)) xs = map (\<lambda>kv. (fst kv, val_of rep (snd kv))) xs"
      if "list_all (\<lambda>kv. isOK (canonical_value rep False (snd kv))) xs"
      using that p unfolding list_all_iff map_eq_conv by blast
    ultimately show ?thesis by simp
  qed
  let ?f = "\<lambda>kv. order_collection rep (raw_key kv, val_of rep (snd kv))"
  let ?K = "filter (\<lambda>kv. kept_key (raw_key kv)) d"
  have v: "canonical_value rep r (PDict d) = (if r \<and> ''schema_version'' \<in> raw_key ` set d \<and> \<not> raw_key ` set ?K \<subseteq> set V2_PLAN_FIELDS
      then Inl ContractValidationError
      else if list_all (\<lambda>kv. isOK (canonical_value rep False (snd kv))) ?K then Inr (PDict (map ?f ?K)) else Inl ContractValidationError)"
    by (simp add: n u kept m list_all_iff comp_def del: filter_filter)
  have jt: "json_text rep (PDict (map ?f ?K)) = Some (''{'' @ join '','' (map (\<lambda>(k, t). json_str k @ '':'' @ t)
      (sort_key fst (map (\<lambda>kv. (raw_key kv, item_text rep (raw_key kv) (val_of rep (snd kv)))) ?K))) @ ''}'')"
    if ok: "list_all (\<lambda>kv. isOK (canonical_value rep False (snd kv))) ?K"
  proof (rule json_text_items)
    fix kv assume kv: "kv \<in> set ?K"
    with ok have "isOK (canonical_value rep False (snd kv))" by (simp only: list_all_iff)
    then obtain w where "canonical_value rep False (snd kv) = Inr w" by (cases "canonical_value rep False (snd kv)") auto
    then have "is_json (snd (?f kv))" using clean_order [of rep "snd kv" w "raw_key kv"] by (simp add: val_of_def)
    then show "as_str (fst (?f kv)) = Some (raw_key kv) \<and> json_text rep (snd (?f kv)) = Some (item_text rep (raw_key kv) (val_of rep (snd kv)))"
      by (simp add: item_text_def json_key_Some) (simp add: order_collection_def)
  qed
  have S: "filter (\<lambda>x. kept_key (fst x)) (map (summarize rep) d) = map (summarize rep) ?K"
    by (simp add: filter_map comp_def summarize_def)
  have T: "map (\<lambda>x. (fst x, snd (snd (snd x)))) (map (summarize rep) ?K) = map (\<lambda>kv. (raw_key kv, item_text rep (raw_key kv) (val_of rep (snd kv)))) ?K"
    if "list_all (\<lambda>kv. isOK (canonical_value rep False (snd kv))) ?K"
    using that by (auto simp: list_all_iff summarize_def)
  have ok: "list_all (\<lambda>x. fst (snd (snd x))) (map (summarize rep) ?K) = list_all (\<lambda>kv. isOK (canonical_value rep False (snd kv))) ?K"
    "list_all (\<lambda>x. fst (snd x)) (map (summarize rep) d)"
    "fst ` set (map (summarize rep) xs) = raw_key ` set xs" for xs
    using True by (auto simp: list_all_iff summarize_def image_iff)
  let ?U = "r \<and> ''schema_version'' \<in> raw_key ` set d \<and> \<not> raw_key ` set ?K \<subseteq> set V2_PLAN_FIELDS"
  let ?ok = "list_all (\<lambda>kv. isOK (canonical_value rep False (snd kv))) ?K"
  have o: "object_text r (map (summarize rep) d) = (if ?U then None else if ?ok then json_text rep (PDict (map ?f ?K)) else None)"
  proof (cases ?ok)
    case True
    show ?thesis unfolding object_text_def Let_def S ok(1,3) T [OF True] jt [OF True] using ok(2) True by (simp only: if_True if_False simp_thms)
  next
    case False
    show ?thesis unfolding object_text_def Let_def S ok(1,3) using ok(2) False by (simp only: if_True if_False simp_thms)
  qed
  show ?thesis unfolding v o text_result_def by (simp del: json_text.simps set_filter)
qed

section \<open>Equivalent plans have the same text\<close>

lemma same_key_facts: "same_key (fst a) (fst b) \<Longrightarrow> raw_key a = raw_key b \<and> key_ok a = key_ok b"
  by (auto simp: same_key_def raw_key_def key_ok_def split: option.splits)

lemma same_res_OK: "same_res rep r s \<Longrightarrow> isOK r = isOK s"
  by (auto simp: same_res_def)

lemma same_res_item:
  "same_res rep (canonical_value rep False v) (canonical_value rep False w) \<Longrightarrow> isOK (canonical_value rep False v) \<Longrightarrow>
     item_text rep k (val_of rep v) = item_text rep k (val_of rep w)"
  by (auto simp: same_res_def val_of_def intro!: same_text_item dest: clean_order)

lemma same_res_lists:
  "list_all2 (\<lambda>x y. same_res rep (canonical_value rep False x) (canonical_value rep False y)) xs ys \<Longrightarrow>
     as_sequence v = Some xs \<Longrightarrow> as_sequence w = Some ys \<Longrightarrow> same_res rep (canonical_value rep r v) (canonical_value rep r w)"
  using mapR_same [of rep "canonical_value rep False" xs ys]
  by (auto simp: canonical_sequence same_res_def intro: same_text_lists)

text \<open>Lists that are permuted after they were made equal element by element, below a set-like key.\<close>

lemma set_like_item:
  assumes p: "list_all2 (\<lambda>x y. same_res rep (canonical_value rep False x) (canonical_value rep False y)) xs zs"
    and m: "mset zs = mset ys" and k: "set_like k" and v: "as_sequence v = Some xs" and w: "as_sequence w = Some ys"
  shows "isOK (canonical_value rep False v) = isOK (canonical_value rep False w)
    \<and> (isOK (canonical_value rep False v) \<longrightarrow> item_text rep k (val_of rep v) = item_text rep k (val_of rep w))"
proof -
  let ?c = "canonical_value rep False"
  have seq: "?c (PList zs) = bindR (mapR ?c zs) (\<lambda>ys. Inr (PList ys))" by simp
  have s: "same_res rep (?c v) (?c (PList zs))" by (rule same_res_lists [OF p v]) simp
  have e: "mapR ?c us = (if list_all (\<lambda>x. isOK (?c x)) us then Inr (map (val_of rep) us) else Inl ContractValidationError)" for us
    using mapR_error [of us ?c] canonical_value_error by (simp add: val_of_def [abs_def])
  have all: "list_all (\<lambda>x. isOK (?c x)) zs = list_all (\<lambda>x. isOK (?c x)) ys"
    using mset_eq_setD [OF m] by (simp add: list_all_iff)
  have zy: "item_text rep k (PList (map (val_of rep) zs)) = item_text rep k (PList (map (val_of rep) ys))"
    if ok: "list_all (\<lambda>x. isOK (?c x)) zs"
  proof -
    have j: "is_json (val_of rep u)" if "u \<in> set us" "list_all (\<lambda>x. isOK (?c x)) us" for u us
    proof -
      from that obtain w where "?c u = Inr w" by (cases "?c u") (auto simp: list_all_iff)
      then show ?thesis using clean_order [of rep u w] by (simp add: val_of_def)
    qed
    have "sort (map (json_key rep) (map (val_of rep) zs)) = sort (map (json_key rep) (map (val_of rep) ys))"
      by (rule properties_for_sort) (simp_all add: m)
    moreover have "is_json (PList (map (val_of rep) zs))" "is_json (PList (map (val_of rep) ys))" using j ok all by auto
    ultimately show ?thesis using k by (simp add: item_text del: is_json.simps map_map)
  qed
  have "isOK (?c (PList zs)) = isOK (?c w) \<and> (isOK (?c (PList zs)) \<longrightarrow>
      item_text rep k (val_of rep (PList zs)) = item_text rep k (val_of rep w))"
    unfolding val_of_def [of rep "PList zs"] val_of_def [of rep w] canonical_sequence [OF w] seq e all [symmetric] using zy by simp
  then show ?thesis using same_res_OK [OF s] same_res_item [OF s] by auto
qed

lemma summarize_eq:
  assumes "same_key (fst a) (fst b)"
    and "isOK (canonical_value rep False (snd a)) = isOK (canonical_value rep False (snd b))"
    and "isOK (canonical_value rep False (snd a)) \<Longrightarrow> item_text rep (raw_key a) (val_of rep (snd a)) = item_text rep (raw_key a) (val_of rep (snd b))"
  shows "summarize rep a = summarize rep b"
  using assms same_key_facts [OF assms(1)] by (auto simp: summarize_def)

lemma same_plan_result: "same_plan v w \<Longrightarrow> same_res rep (canonical_value rep r v) (canonical_value rep r w)"
proof (induction arbitrary: r rule: same_plan.induct)
  case (same_refl v)
  then show ?case by simp
next
  case (same_list v xs w ys)
  have "list_all2 (\<lambda>x y. same_res rep (canonical_value rep False x) (canonical_value rep False y)) xs ys"
    using same_list.IH by (rule list_all2_mono) simp
  then show ?case by (rule same_res_lists) (use same_list.hyps in auto)
next
  case (same_dict v d w e f)
  have eq: "summarize rep a = summarize rep b" if ab: "(a, b) \<in> set (zip d f)" for a b
  proof -
    let ?c = "canonical_value rep False"
    from same_dict.IH ab have key: "same_key (fst a) (fst b)"
      and alt: "(\<forall>r. same_res rep (canonical_value rep r (snd a)) (canonical_value rep r (snd b)))
        \<or> set_like (raw_key a) \<and> (\<exists>xs ys zs. as_sequence (snd a) = Some xs \<and> as_sequence (snd b) = Some ys
           \<and> list_all2 (\<lambda>x y. same_plan x y \<and> (\<forall>r. same_res rep (canonical_value rep r x) (canonical_value rep r y))) xs zs \<and> mset zs = mset ys)"
      by (auto simp: list_all2_iff)
    from alt show ?thesis
    proof (elim disjE conjE exE)
      assume "\<forall>r. same_res rep (canonical_value rep r (snd a)) (canonical_value rep r (snd b))"
      then have s: "same_res rep (?c (snd a)) (?c (snd b))" by blast
      show ?thesis by (rule summarize_eq [OF key same_res_OK [OF s] same_res_item [OF s]])
    next
      fix xs ys zs
      assume k: "set_like (raw_key a)" and v: "as_sequence (snd a) = Some xs" and w: "as_sequence (snd b) = Some ys"
        and l: "list_all2 (\<lambda>x y. same_plan x y \<and> (\<forall>r. same_res rep (canonical_value rep r x) (canonical_value rep r y))) xs zs"
        and m: "mset zs = mset ys"
      have "list_all2 (\<lambda>x y. same_res rep (?c x) (?c y)) xs zs" using l by (rule list_all2_mono) simp
      from set_like_item [OF this m k v w] show ?thesis by (intro summarize_eq [OF key]) auto
    qed
  qed
  have S: "map (summarize rep) d = map (summarize rep) f"
  proof (rule nth_equalityI)
    have len: "length d = length f" using same_dict.IH by (rule list_all2_lengthD)
    then show "length (map (summarize rep) d) = length (map (summarize rep) f)" by simp
    fix i assume "i < length (map (summarize rep) d)"
    moreover from this have "(d ! i, f ! i) \<in> set (zip d f)" using len by (auto simp: set_zip)
    ultimately show "map (summarize rep) d ! i = map (summarize rep) f ! i" using eq len by simp
  qed
  have keys: "map fst (map (summarize rep) d) = map raw_key d" for d by (simp add: summarize_def)
  have "mset (map (summarize rep) d) = mset (map (summarize rep) e)" unfolding S using same_dict.hyps(4) by simp
  then have O: "object_text r (map (summarize rep) d) = object_text r (map (summarize rep) e)"
    by (rule object_text_mset) (simp only: keys same_dict.hyps(3))
  have "map raw_key d = map raw_key f" unfolding keys [symmetric] S ..
  then have de: "distinct (map raw_key e)"
    using same_dict.hyps(3,4) by (metis mset_eq_imp_distinct_iff mset_map)
  have t: "text_result rep (canonical_value rep r v) = text_result rep (canonical_value rep r w)"
    unfolding canonical_mapping [OF same_dict.hyps(1)] canonical_mapping [OF same_dict.hyps(2)]
    by (simp only: canonical_object [OF same_dict.hyps(3)] canonical_object [OF de] O)
  have res: "(\<exists>u. canonical_value rep r x = Inr u \<and> as_plist u = None \<and> (\<exists>s. json_text rep u = Some s))
      \<or> canonical_value rep r x = Inl ContractValidationError" if "as_mapping x = Some g" for x g
  proof (cases "canonical_value rep r x")
    case (Inl e)
    then show ?thesis using canonical_value_error by blast
  next
    case (Inr u)
    then have "as_plist u = None" using canonical_mapping [OF that] by (auto simp: result_simps)
    moreover have "\<exists>s. json_text rep u = Some s" using Inr by (intro json_text_total clean_is_json) (rule canonical_value_clean)
    ultimately show ?thesis using Inr by blast
  qed
  from res [OF same_dict.hyps(1)] res [OF same_dict.hyps(2)] t show ?case
    by (auto simp: text_result_def same_res_def same_text_def simp del: json_text.simps)
qed

text \<open>The normalised items of an object, and the check of the schema version.\<close>

definition renamed :: "pymap \<Rightarrow> pyval dict" where
  "renamed d = map (\<lambda>kv. (raw_key kv, snd kv)) d"

lemma canonicalize_distinct: "as_mapping v = Some d \<Longrightarrow> distinct (map raw_key d) \<Longrightarrow> canonicalize rep v =
    (if list_all key_ok d \<and> dget (renamed d) ''schema_version'' = Some (PStr V2_SCHEMA_VERSION)
     then canonical_value rep True (PDict (str_keyed (renamed d))) else Inl ContractValidationError)"
  by (simp add: canonicalize_def normalized_distinct renamed_def)

lemma same_plan_str: "same_plan v w \<Longrightarrow> v = PStr s \<longleftrightarrow> w = PStr s"
  by (auto elim: same_plan.cases)

lemma renamed_get: "distinct (map raw_key d) \<Longrightarrow> dget (renamed d) k = Some v \<longleftrightarrow> (\<exists>a \<in> set d. raw_key a = k \<and> snd a = v)"
  using dget_in_wf [of "renamed d" k v] dget_Some_in [of "renamed d" k v]
  by (auto simp: renamed_def dict_wf_def dkeys_def comp_def)

lemma renamed_raw: "key_ok a \<Longrightarrow> raw_key (PStr (raw_key a), x) = raw_key a"
  by (auto simp: key_ok_def raw_key_def canonical_key_idem)

lemma same_plan_canonicalize:
  assumes "same_plan v w"
  shows "same_res rep (canonicalize rep v) (canonicalize rep w)"
  using assms
proof cases
  case same_refl
  then show ?thesis by simp
next
  case (same_list xs ys)
  then show ?thesis by (cases v; cases w) (auto simp: canonicalize_def)
next
  case (same_dict d e f)
  let ?R = "\<lambda>a b. same_key (fst a) (fst b) \<and> (same_plan (snd a) (snd b)
      \<or> set_like (raw_key a) \<and> (\<exists>xs ys zs. as_sequence (snd a) = Some xs \<and> as_sequence (snd b) = Some ys
           \<and> list_all2 same_plan xs zs \<and> mset zs = mset ys))"
  have keys: "map raw_key d = map raw_key f" "map key_ok d = map key_ok f"
    by (rule list_all2_map_eq [OF same_dict(4)]; use same_key_facts in blast)+
  have fe: "set f = set e" using same_dict(5) by (rule mset_eq_setD)
  have de: "distinct (map raw_key e)"
    using same_dict(3,5) keys(1) by (metis mset_eq_imp_distinct_iff mset_map)
  have ok: "list_all key_ok d = list_all key_ok e"
    using arg_cong [OF keys(2), of "list_all (\<lambda>b. b)"] by (simp add: list_all_iff fe comp_def)
  have sv: "\<not> set_like ''schema_version''" by (simp add: set_like_def)
  have "(\<exists>a \<in> set d. raw_key a = ''schema_version'' \<and> snd a = PStr V2_SCHEMA_VERSION)
      \<longleftrightarrow> (\<exists>b \<in> set f. raw_key b = ''schema_version'' \<and> snd b = PStr V2_SCHEMA_VERSION)"
    using list_all2_left [OF same_dict(4)] list_all2_right [OF same_dict(4)] same_key_facts same_plan_str sv by metis
  then have schema: "dget (renamed d) ''schema_version'' = Some (PStr V2_SCHEMA_VERSION)
      \<longleftrightarrow> dget (renamed e) ''schema_version'' = Some (PStr V2_SCHEMA_VERSION)"
    by (simp add: renamed_get [OF same_dict(3)] renamed_get [OF de] fe)
  have plan: "same_plan (PDict (str_keyed (renamed d))) (PDict (str_keyed (renamed e)))" if "list_all key_ok d"
  proof (rule same_plan.same_dict [where f = "str_keyed (renamed f)"])
    let ?N = "\<lambda>kv. (PStr (raw_key kv), snd kv)"
    have N: "str_keyed (renamed g) = map ?N g" for g by (simp add: str_keyed_def renamed_def)
    show "as_mapping (PDict (str_keyed (renamed d))) = Some (str_keyed (renamed d))" by simp
    show "as_mapping (PDict (str_keyed (renamed e))) = Some (str_keyed (renamed e))" by simp
    show "mset (str_keyed (renamed f)) = mset (str_keyed (renamed e))" unfolding N using same_dict(5) by simp
    have raw: "map raw_key (str_keyed (renamed d)) = map raw_key d"
      unfolding N using that renamed_raw by (auto simp: list_all_iff)
    show "distinct (map raw_key (str_keyed (renamed d)))" unfolding raw by (rule same_dict(3))
    have "list_all2 (\<lambda>a b. key_ok a \<and> ?R a b) d f"
      using same_dict(4) that by (auto simp: list_all2_conv_all_nth list_all_length)
    then show "list_all2 ?R (str_keyed (renamed d)) (str_keyed (renamed f))"
      unfolding N list_all2_map1 list_all2_map2
    proof (rule list_all2_mono)
      fix a b assume R: "key_ok a \<and> ?R a b"
      then have k: "raw_key (?N a) = raw_key a" using renamed_raw by blast
      have s: "same_key (fst (?N a)) (fst (?N b))" using R same_key_facts [of a b] by (simp add: same_key_def)
      show "?R (?N a) (?N b)" unfolding k using R s by simp
    qed
  qed
  show ?thesis
    unfolding canonicalize_distinct [OF same_dict(1,3)] canonicalize_distinct [OF same_dict(2) de] ok schema
    using plan same_plan_result [of "PDict (str_keyed (renamed d))" "PDict (str_keyed (renamed e))" rep True]
    by (simp add: ok del: canonical_value.simps)
qed

text \<open>
  C23: plans that differ in the order of items, in the spelling of aliased keys, in lists written as
  tuples, or in the order of the capabilities and dependencies, at any depth, have the same canonical
  text and the same hash, or are rejected alike.
\<close>

theorem plan_hash_spelling:
  assumes "same_plan v w"
  shows "canonical_json rep v = canonical_json rep w \<and> Canonical.plan_hash rep sha256 v = Canonical.plan_hash rep sha256 w"
proof -
  have "canonical_json rep v = canonical_json rep w"
    using same_plan_canonicalize [OF assms, of rep]
    by (cases "canonicalize rep v"; cases "canonicalize rep w") (auto simp: same_res_def same_text_def canonical_json_def)
  then show ?thesis by (simp add: plan_hash_def)
qed

definition spelled_a :: pyval where
  "spelled_a = PDict [(PStr ''schemaVersion'', PStr V2_SCHEMA_VERSION), (PStr ''capabilities'', PList [PInt 2, PInt 1]), (PStr ''name'', PNone)]"

definition spelled_b :: pyval where
  "spelled_b = PDict [(PStr ''name'', PNone), (PStr ''schema_version'', PStr V2_SCHEMA_VERSION), (PStr ''capabilities'', PTuple [PInt 1, PInt 2])]"

theorem plan_hash_spelling_witness:
  "Canonical.plan_hash (\<lambda>_. []) (\<lambda>s. s) spelled_a = Canonical.plan_hash (\<lambda>_. []) (\<lambda>s. s) spelled_b"
proof -
  have c: "\<exists>zs. list_all2 same_plan [PInt 2, PInt 1] zs \<and> mset zs = mset [PInt 1, PInt 2]"
    by (rule exI [of _ "[PInt 2, PInt 1]"]) (simp add: same_refl add_mset_commute)
  have "same_plan spelled_a spelled_b"
    by (rule same_dict [where d = "the (as_mapping spelled_a)" and e = "the (as_mapping spelled_b)"
         and f = "[(PStr ''schema_version'', PStr V2_SCHEMA_VERSION), (PStr ''capabilities'', PTuple [PInt 1, PInt 2]), (PStr ''name'', PNone)]"])
       (use c in \<open>simp_all add: spelled_a_def spelled_b_def raw_key_def same_key_def canonical_key_def dget_or_def V2_ALIASES_def
         set_like_def same_refl add_mset_commute\<close>)
  from plan_hash_spelling [OF this] show ?thesis by blast
qed

end
