(* ===== verification/AgentContracts.thy ===== *)
theory AgentContracts
  imports Canonical
begin

text \<open>
  The V1 agent contract and agent report of \<open>scripts/pd_fleet/contracts.py\<close>: text, path and secret
  checks, path conflicts with shell patterns, the retry policy and the sanitised error text. The text of
  values other than strings, numbers and truth values is the parameter \<open>rep\<close>; opaque objects are not
  sets.
\<close>

section \<open>Checks\<close>

definition CONTRACT_SCHEMA :: string where "CONTRACT_SCHEMA = ''1''"
definition MAX_RETRY_ATTEMPTS :: int where "MAX_RETRY_ATTEMPTS = 100"

definition contract_text :: "pyval \<Rightarrow> string cres" where
  "contract_text v = (case as_str v of None \<Rightarrow> Inl ContractValidationError
     | Some s \<Rightarrow> if blank s then Inl ContractValidationError else Inr (strip s))"

definition contract_texts :: "pyval \<Rightarrow> string list cres" where
  "contract_texts v = (if v = PNone then Inr [] else case as_sequence v of
       None \<Rightarrow> Inl ContractValidationError
     | Some xs \<Rightarrow> mapR contract_text xs)"

definition json_safe :: "pyval \<Rightarrow> pyval cres" where
  "json_safe v = (case json_copy False v of None \<Rightarrow> Inl ContractValidationError | Some w \<Rightarrow> Inr w)"

definition required_key :: "pymap \<Rightarrow> string \<Rightarrow> unit cres" where
  "required_key d k = (case mget d k of
       None \<Rightarrow> Inl ContractValidationError
     | Some v \<Rightarrow> guardR (v \<noteq> PNone \<and> (case as_str v of None \<Rightarrow> True | Some s \<Rightarrow> \<not> blank s)) ContractValidationError)"

text \<open>\<open>_check_secrets\<close>: the payloads that pass.\<close>

function (sequential) secret_free :: "(pyval \<Rightarrow> string) \<Rightarrow> pyval \<Rightarrow> bool" where
  "secret_free rep (PDict d) = (\<forall>kv \<in> set d. \<not> is_sensitive_label (py_str rep (fst kv)) \<and> secret_free rep (snd kv))"
| "secret_free rep (PProxy d) = (\<forall>kv \<in> set d. \<not> is_sensitive_label (py_str rep (fst kv)) \<and> secret_free rep (snd kv))"
| "secret_free rep (PList xs) = (\<forall>x \<in> set xs. secret_free rep x)"
| "secret_free rep (PTuple xs) = (\<forall>x \<in> set xs. secret_free rep x)"
| "secret_free rep (PStr s) = (\<not> re_search SECRET_VALUE s \<and> \<not> re_search EXTERNAL_URL s \<and> redact_sensitive_text s = s)"
| "secret_free rep v = True"
  by pat_completeness auto
termination
  by (relation "measure (size \<circ> snd)")
     (auto dest: py_pair_size size_list_estimation' [of _ _ _ size, OF _ order_refl] simp: less_Suc_eq_le)

definition check_secrets :: "(pyval \<Rightarrow> string) \<Rightarrow> pyval \<Rightarrow> unit cres" where
  "check_secrets rep v = guardR (secret_free rep v) ContractValidationError"

section \<open>Paths\<close>

definition forward :: "string \<Rightarrow> string" where
  "forward s = map (\<lambda>c. if c = CHR 0x5C then CHR ''/'' else c) s"

definition rstrip_slash :: "string \<Rightarrow> string" where
  "rstrip_slash s = rev (dropWhile (\<lambda>c. c = CHR ''/'') (rev s))"

definition SCHEME :: regex where
  "SCHEME = seqs [Bos, Cls (\<lambda>c. in_range 65 90 c \<or> in_range 97 122 c), star (Cls (\<lambda>c. ascii_alnum c \<or> one_of ''+.-'' c)), lit '':'']"

definition safe_path :: "string \<Rightarrow> bool" where
  "safe_path path \<longleftrightarrow> (let normalized = forward path; parts = split_on (CHR ''/'') normalized in
     \<not> (CHR 0x00 \<in> set path \<or> startswith normalized ''/'' \<or> startswith normalized ''~''
        \<or> (\<exists>p \<in> set parts. p \<in> {''.'', ''..''}) \<or> (\<exists>p \<in> set (butlast parts). p = []))
     \<and> \<not> re_match SCHEME normalized \<and> \<not> is_sensitive_label normalized)"

definition contract_paths :: "pyval \<Rightarrow> string list cres" where
  "contract_paths v = bindR (contract_texts v) (\<lambda>values.
     if list_all safe_path values
     then Inr (map (\<lambda>p. let q = rstrip_slash (forward p) in if q = [] then ''.'' else q) values)
     else Inl ContractValidationError)"

section \<open>Shell patterns\<close>

text \<open>
  \<open>fnmatch.fnmatchcase\<close>. A bracket expression is cut at the hyphens that make ranges; ranges whose ends
  are in the wrong order disappear.
\<close>

datatype glob = Any_run | Any_char | One_of bool "string list" | Exactly char

fun cut_hyphen :: "nat \<Rightarrow> string \<Rightarrow> string \<times> string option" where
  "cut_hyphen n [] = ([], None)"
| "cut_hyphen n (c # s) = (if n = 0 \<and> c = CHR ''-'' then ([], Some s)
     else (let (a, r) = cut_hyphen (n - 1) s in (c # a, r)))"

lemma cut_hyphen_length: "cut_hyphen n s = (a, Some r) \<Longrightarrow> length r < length s"
  by (induction n s arbitrary: a rule: cut_hyphen.induct) (auto split: if_split_asm prod.split_asm)

function chunks :: "nat \<Rightarrow> string \<Rightarrow> string list" where
  "chunks n s = (case cut_hyphen n s of
       (a, None) \<Rightarrow> [a]
     | (a, Some r) \<Rightarrow> if r = [] then [a @ ''-''] else a # chunks 2 r)"
  by auto
termination by (relation "measure (length \<circ> snd)") (auto dest: cut_hyphen_length [OF sym])

declare chunks.simps [simp del]

fun drop_empty_ranges :: "string list \<Rightarrow> string list" where
  "drop_empty_ranges [] = []"
| "drop_empty_ranges (x # xs) = (case drop_empty_ranges xs of
       [] \<Rightarrow> [x]
     | y # ys \<Rightarrow> if last x > hd y then (butlast x @ tl y) # ys else x # y # ys)"

fun in_chunks :: "string list \<Rightarrow> char \<Rightarrow> bool" where
  "in_chunks [] c = False"
| "in_chunks [x] c = (c \<in> set x)"
| "in_chunks (x # y # zs) c = (c \<in> set x \<or> last x \<le> c \<and> c \<le> hd y \<or> in_chunks (y # zs) c)"

text \<open>The body of a bracket expression that starts after \<open>[\<close> and what follows its \<open>]\<close>; a \<open>]\<close> in front belongs to it.\<close>

fun upto_bracket :: "string \<Rightarrow> (string \<times> string) option" where
  "upto_bracket [] = None"
| "upto_bracket (c # s) = (if c = CHR '']'' then Some ([], s) else map_option (\<lambda>(b, r). (c # b, r)) (upto_bracket s))"

fun bracket_body :: "string \<Rightarrow> (string \<times> string) option" where
  "bracket_body [] = None"
| "bracket_body (c # s) = (if c = CHR '']'' then map_option (\<lambda>(b, r). (c # b, r)) (upto_bracket s) else upto_bracket (c # s))"

definition bracket :: "string \<Rightarrow> (bool \<times> string \<times> string) option" where
  "bracket s = (let negated = (s \<noteq> [] \<and> hd s = CHR ''!'')
     in map_option (Pair negated) (bracket_body (if negated then tl s else s)))"

lemma upto_bracket_length: "upto_bracket s = Some (b, r) \<Longrightarrow> length r < length s"
  by (induction s arbitrary: b) (auto split: if_split_asm)

lemma bracket_body_length: "bracket_body s = Some (b, r) \<Longrightarrow> length r < length s"
  by (cases s) (auto dest: upto_bracket_length split: if_split_asm)

lemma bracket_length: "bracket s = Some (n, b, r) \<Longrightarrow> length r < length s"
  by (auto simp: bracket_def Let_def simp del: bracket_body.simps dest!: bracket_body_length split: if_split_asm)

function parse_glob :: "string \<Rightarrow> glob list" where
  "parse_glob [] = []"
| "parse_glob (c # s) =
     (if c = CHR ''*'' then Any_run # parse_glob s
      else if c = CHR ''?'' then Any_char # parse_glob s
      else if c = CHR ''['' then (case bracket s of
          None \<Rightarrow> Exactly c # parse_glob s
        | Some (negated, body, r) \<Rightarrow> One_of negated (drop_empty_ranges (chunks 1 body)) # parse_glob r)
      else Exactly c # parse_glob s)"
  by pat_completeness auto
termination by (relation "measure length") (auto dest: bracket_length)

fun glob_match :: "glob list \<Rightarrow> string \<Rightarrow> bool" where
  "glob_match [] s = (s = [])"
| "glob_match (Any_run # g) [] = glob_match g []"
| "glob_match (Any_run # g) (c # s) = (glob_match g (c # s) \<or> glob_match (Any_run # g) s)"
| "glob_match (p # g) [] = False"
| "glob_match (Any_char # g) (c # s) = glob_match g s"
| "glob_match (One_of negated cs # g) (c # s) = (in_chunks cs c \<noteq> negated \<and> glob_match g s)"
| "glob_match (Exactly a # g) (c # s) = (a = c \<and> glob_match g s)"

definition fnmatchcase :: "string \<Rightarrow> string \<Rightarrow> bool" where
  "fnmatchcase name pat = glob_match (parse_glob pat) name"

definition base_path :: "string \<Rightarrow> string" where
  "base_path s = rstrip_slash (takeWhile (\<lambda>c. c \<notin> set ''*?['') s)"

definition paths_overlap :: "string \<Rightarrow> string \<Rightarrow> bool" where
  "paths_overlap l r = (let left = rstrip_slash (forward l); right = rstrip_slash (forward r);
       everything = [[], ''.'', ''*'', ''**''] in
     if left \<in> set everything \<or> right \<in> set everything then True
     else if fnmatchcase left right \<or> fnmatchcase right left then True
     else (let lb = base_path left; rb = base_path right in
       lb = rb \<or> startswith lb (rb @ ''/'') \<or> startswith rb (lb @ ''/'')))"

definition conflicts :: "string list \<Rightarrow> string list \<Rightarrow> bool" where
  "conflicts allowed forbidden \<longleftrightarrow> (\<exists>a \<in> set allowed. \<exists>f \<in> set forbidden. paths_overlap a f)"

section \<open>Retry policies\<close>

record RetryPolicy =
  max_attempts :: int
  backoff_seconds :: rat
  retryable_errors :: "string list"

text \<open>\<open>float(v)\<close> of an \<open>int\<close> or a \<open>float\<close> that must be finite, and its exact value for comparisons.\<close>

fun finite_float :: "pyval \<Rightarrow> rat cres" where
  "finite_float (PInt n) = (case float_of_int n of None \<Rightarrow> Inl ContractOverflow | Some q \<Rightarrow> Inr q)"
| "finite_float (PFloat f) = (case as_finite f of None \<Rightarrow> Inl ContractValidationError | Some q \<Rightarrow> Inr q)"
| "finite_float _ = Inl ContractValidationError"

fun exact_number :: "pyval \<Rightarrow> rat" where
  "exact_number (PInt n) = of_int n"
| "exact_number (PFloat (Fin q)) = q"
| "exact_number _ = 0"

definition attempts_arg :: "pyval \<Rightarrow> int cres" where
  "attempts_arg v = (case as_int v of None \<Rightarrow> Inl ContractValidationError
     | Some n \<Rightarrow> if 1 \<le> n \<and> n \<le> MAX_RETRY_ATTEMPTS then Inr n else Inl ContractValidationError)"

definition backoff_arg :: "pyval \<Rightarrow> rat cres" where
  "backoff_arg v = bindR (finite_float v) (\<lambda>q. if exact_number v < 0 then Inl ContractValidationError else Inr q)"

definition RetryPolicy_new :: "pyval \<Rightarrow> pyval \<Rightarrow> pyval \<Rightarrow> RetryPolicy cres" where
  "RetryPolicy_new attempts backoff errs =
     bindR (attempts_arg attempts) (\<lambda>n. bindR (backoff_arg backoff) (\<lambda>q. bindR (contract_texts errs) (\<lambda>es.
       Inr \<lparr>max_attempts = n, backoff_seconds = q, retryable_errors = es\<rparr>)))"

definition RetryPolicy_to_dict :: "RetryPolicy \<Rightarrow> pyval" where
  "RetryPolicy_to_dict p = PDict (str_keyed [(''max_attempts'', PInt (max_attempts p)),
     (''backoff_seconds'', PFloat (Fin (backoff_seconds p))), (''retryable_errors'', PList (map PStr (retryable_errors p)))])"

definition RetryPolicy_from_dict :: "(pyval \<Rightarrow> string) \<Rightarrow> pyval \<Rightarrow> RetryPolicy cres" where
  "RetryPolicy_from_dict rep v = (if v = PNone then RetryPolicy_new (PInt 1) (PFloat (Fin 0)) (PList []) else
     case as_mapping v of
       None \<Rightarrow> Inl ContractValidationError
     | Some d \<Rightarrow> bindR (attempts_arg (mget_or d ''max_attempts'' (PInt 1))) (\<lambda>n.
         bindR (backoff_arg (mget_or d ''backoff_seconds'' (PFloat (Fin 0)))) (\<lambda>q.
         bindR (contract_texts (mget_or d ''retryable_errors'' (mget_or d ''retry_on'' PNone))) (\<lambda>es.
         bindR (RetryPolicy_new (PInt n) (PFloat (Fin q)) (PList (map PStr es))) (\<lambda>p.
         bindR (check_secrets rep (RetryPolicy_to_dict p)) (\<lambda>_. Inr p))))))"

section \<open>Agent contracts\<close>

text \<open>The constructor's arguments; the retry policy is an object or a value.\<close>

record contract_args =
  arg_task_id :: pyval
  arg_agent_id :: pyval
  arg_role :: pyval
  arg_capabilities :: pyval
  arg_context :: pyval
  arg_constraints :: pyval
  arg_allowed_paths :: pyval
  arg_forbidden_paths :: pyval
  arg_expected_outputs :: pyval
  arg_validation_commands :: pyval
  arg_timeout :: pyval
  arg_retry_policy :: "RetryPolicy + pyval"
  arg_schema_version :: pyval

record AgentContract =
  c_task_id :: string
  c_agent_id :: string
  c_role :: string
  c_capabilities :: "string list"
  c_context :: pyval
  c_constraints :: pyval
  c_allowed_paths :: "string list"
  c_forbidden_paths :: "string list"
  c_expected_outputs :: pyval
  c_validation_commands :: "string list"
  c_timeout_seconds :: rat
  c_retry_policy :: RetryPolicy
  c_schema_version :: pyval

definition pstrs :: "string list \<Rightarrow> pyval" where "pstrs xs = PList (map PStr xs)"

definition AgentContract_to_dict :: "AgentContract \<Rightarrow> pyval cres" where
  "AgentContract_to_dict c = json_safe (PDict (str_keyed [(''schema_version'', c_schema_version c), (''task_id'', PStr (c_task_id c)),
     (''agent_id'', PStr (c_agent_id c)), (''role'', PStr (c_role c)), (''capabilities'', pstrs (c_capabilities c)),
     (''context'', c_context c), (''constraints'', c_constraints c), (''allowed_paths'', pstrs (c_allowed_paths c)),
     (''forbidden_paths'', pstrs (c_forbidden_paths c)), (''expected_outputs'', c_expected_outputs c),
     (''validation_commands'', pstrs (c_validation_commands c)), (''timeout_seconds'', PFloat (Fin (c_timeout_seconds c))),
     (''retry_policy'', RetryPolicy_to_dict (c_retry_policy c))]))"

definition timeout_arg :: "pyval \<Rightarrow> rat cres" where
  "timeout_arg v = bindR (finite_float v) (\<lambda>q. if exact_number v \<le> 0 then Inl ContractValidationError else Inr q)"

definition retry_arg :: "(pyval \<Rightarrow> string) \<Rightarrow> RetryPolicy + pyval \<Rightarrow> RetryPolicy cres" where
  "retry_arg rep a = (case a of Inl p \<Rightarrow> RetryPolicy_from_dict rep (RetryPolicy_to_dict p) | Inr v \<Rightarrow> RetryPolicy_from_dict rep v)"

definition payload_arg :: "(pyval \<Rightarrow> string) \<Rightarrow> (string \<times> pyval) list \<Rightarrow> unit cres" where
  "payload_arg rep kvs = (let p = PDict (str_keyed kvs) in bindR (json_safe p) (\<lambda>_. check_secrets rep p))"

definition AgentContract_new :: "(pyval \<Rightarrow> string) \<Rightarrow> contract_args \<Rightarrow> AgentContract cres" where
  "AgentContract_new rep a =
     bindR (contract_text (arg_task_id a)) (\<lambda>task. bindR (contract_text (arg_agent_id a)) (\<lambda>agent.
     bindR (contract_text (arg_role a)) (\<lambda>role. bindR (contract_texts (arg_capabilities a)) (\<lambda>caps.
     bindR (contract_paths (arg_allowed_paths a)) (\<lambda>allowed. bindR (contract_paths (arg_forbidden_paths a)) (\<lambda>forbidden.
     if conflicts allowed forbidden then Inl ContractValidationError else
     bindR (timeout_arg (arg_timeout a)) (\<lambda>timeout. bindR (retry_arg rep (arg_retry_policy a)) (\<lambda>retry.
     bindR (payload_arg rep [(''context'', arg_context a), (''constraints'', arg_constraints a),
       (''expected_outputs'', arg_expected_outputs a), (''validation_commands'', arg_validation_commands a)]) (\<lambda>_.
     bindR (json_safe (arg_context a)) (\<lambda>context. bindR (json_safe (arg_constraints a)) (\<lambda>constraints.
     bindR (json_safe (arg_expected_outputs a)) (\<lambda>outputs. bindR (contract_texts (arg_validation_commands a)) (\<lambda>commands.
     let c = \<lparr>c_task_id = task, c_agent_id = agent, c_role = role, c_capabilities = caps, c_context = context,
       c_constraints = constraints, c_allowed_paths = allowed, c_forbidden_paths = forbidden, c_expected_outputs = outputs,
       c_validation_commands = commands, c_timeout_seconds = timeout, c_retry_policy = retry,
       c_schema_version = arg_schema_version a\<rparr> in
     bindR (AgentContract_to_dict c) (\<lambda>d. bindR (check_secrets rep d) (\<lambda>_.
     if arg_schema_version a \<noteq> PStr CONTRACT_SCHEMA then Inl ContractValidationError else Inr c)))))))))))))))"

definition AgentContract_from_dict :: "(pyval \<Rightarrow> string) \<Rightarrow> pyval \<Rightarrow> AgentContract cres" where
  "AgentContract_from_dict rep v = (case as_mapping v of
       None \<Rightarrow> Inl ContractValidationError
     | Some d \<Rightarrow> bindR (required_key d ''task_id'') (\<lambda>_. bindR (required_key d ''agent_id'') (\<lambda>_. bindR (required_key d ''role'') (\<lambda>_.
         bindR (RetryPolicy_from_dict rep (mget_or d ''retry_policy'' PNone)) (\<lambda>retry.
         AgentContract_new rep \<lparr>arg_task_id = mget_or d ''task_id'' PNone, arg_agent_id = mget_or d ''agent_id'' PNone,
           arg_role = mget_or d ''role'' PNone, arg_capabilities = mget_or d ''capabilities'' (PList []),
           arg_context = mget_or d ''context'' (PDict []), arg_constraints = mget_or d ''constraints'' (PDict []),
           arg_allowed_paths = mget_or d ''allowed_paths'' (PList []), arg_forbidden_paths = mget_or d ''forbidden_paths'' (PList []),
           arg_expected_outputs = mget_or d ''expected_outputs'' (PList []),
           arg_validation_commands = mget_or d ''validation_commands'' (PList []), arg_timeout = mget_or d ''timeout_seconds'' (PInt 300),
           arg_retry_policy = Inl retry, arg_schema_version = mget_or d ''schema_version'' (PStr CONTRACT_SCHEMA)\<rparr>)))))"

end
