(* ===== verification/AgentReports.thy ===== *)
theory AgentReports
  imports AgentContracts
begin

text \<open>
  Agent reports of \<open>scripts/pd_fleet/contracts.py\<close>: the sanitised error text, the V1 report and the
  immutable V2 report with its parser. Reading an ISO instant (UTC microseconds, \<open>None\<close> when the text is
  not an aware instant) and printing one are parameters.
\<close>

section \<open>Sanitised errors\<close>

text \<open>A line without its line break.\<close>

definition line_content :: "string \<Rightarrow> string" where
  "line_content l = (if endswith l [CHR 0x0D, CHR 0x0A] then take (length l - 2) l
     else if l \<noteq> [] \<and> line_break (last l) then butlast l else l)"

definition TRACEBACK :: regex where "TRACEBACK = ilit ''traceback (most recent call last)''"

definition TRACE_LINE :: regex where
  "TRACE_LINE = Alt
     (seqs [Bos, star (Cls is_space), ilit ''file'', plus (Cls is_space), Cls (one_of quotes)])
     (seqs [Bos, star (Cls is_space), opt (Seq (ilit ''at'') (plus (Cls is_space))),
        Alt (lit ''/'') (seqs [Cls (\<lambda>c. in_range 65 90 c \<or> in_range 97 122 c), lit '':'', Cls (one_of [CHR 0x5C, CHR ''/''])])])"

fun first_line :: "string list \<Rightarrow> string" where
  "first_line [] = []"
| "first_line (line # ls) =
     (if re_search TRACEBACK line then []
      else if re_search TRACE_LINE line then first_line ls
      else (let l = re_sub Eps PATH_ASSIGNMENT [] line in if blank l then first_line ls else l))"

text \<open>\<open>_ASSIGNMENT.sub\<close>: an assignment to a sensitive label loses its value.\<close>

definition ASSIGNED :: regex where
  "ASSIGNED = Seq (Cls (\<lambda>c. in_range 65 90 c \<or> in_range 97 122 c)) (Rep 1 (Some 80) (Cls (\<lambda>c. ascii_alnum c \<or> one_of ''_. -'' c)))"

definition assigned_at :: "string \<Rightarrow> nat \<Rightarrow> (nat \<times> nat) option" where
  "assigned_at s i = (case [(a, e). a \<leftarrow> ends ASSIGNED s i, b \<leftarrow> ends SEPARATOR s a, e \<leftarrow> ends (plus (Cls (\<lambda>c. \<not> is_space c))) s b] of
       [] \<Rightarrow> None | m # _ \<Rightarrow> Some m)"

fun redact_assigned :: "string \<Rightarrow> nat \<Rightarrow> nat \<Rightarrow> string" where
  "redact_assigned s 0 i = drop i s"
| "redact_assigned s (Suc n) i = (if length s \<le> i then [] else
     case assigned_at s i of
       None \<Rightarrow> s ! i # redact_assigned s n (Suc i)
     | Some (a, e) \<Rightarrow>
         (if is_sensitive_label (slice i a s) then strip (slice i a s) @ ''=[REDACTED]'' else slice i e s)
         @ redact_assigned s n (max e (Suc i)))"

definition agent_error :: string where "agent_error = ''erro do agente''"

definition sanitize_error :: "pyval \<Rightarrow> string" where
  "sanitize_error v = (let text = (case as_str v of None \<Rightarrow> agent_error | Some s \<Rightarrow> s);
       text = first_line (map line_content (split_lines text));
       text = re_sub Eps EXTERNAL_URL ''[URL REDACTED]'' text;
       text = redact_paths text;
       text = re_sub Eps SECRET_VALUE ''[REDACTED]'' text;
       text = redact_sensitive_text text;
       text = redact_assigned text (Suc (length text)) 0;
       text = take 2000 (strip (re_sub Eps (plus (Cls is_space)) '' '' text))
     in if text = [] then agent_error else text)"

section \<open>Meaningful values\<close>

function (sequential) meaningful :: "pyval \<Rightarrow> bool" where
  "meaningful PNone = False"
| "meaningful (PBool b) = b"
| "meaningful (PInt n) = (n \<noteq> 0)"
| "meaningful (PFloat f) = (f \<noteq> Fin 0)"
| "meaningful (PStr s) = (\<not> blank s)"
| "meaningful (PDict d) = (\<exists>kv \<in> set d. meaningful (snd kv))"
| "meaningful (PProxy d) = (\<exists>kv \<in> set d. meaningful (snd kv))"
| "meaningful (PList xs) = (\<exists>x \<in> set xs. meaningful x)"
| "meaningful (PTuple xs) = (\<exists>x \<in> set xs. meaningful x)"
| "meaningful (POther n) = True"
  by pat_completeness auto
termination
  by (relation "measure size")
     (auto dest: py_pair_size size_list_estimation' [of _ _ _ size, OF _ order_refl] simp: less_Suc_eq_le)

section \<open>V1 reports\<close>

record AgentReport =
  r_task_id :: string
  r_agent_id :: string
  r_status :: string
  r_outputs :: pyval
  r_evidence :: pyval
  r_tests :: pyval
  r_blockers :: pyval
  r_assumptions :: pyval
  r_decisions :: pyval
  r_timestamps :: pyval
  r_error :: "string option"
  r_schema_version :: pyval

text \<open>The constructor's arguments, with the defaults of the fields.\<close>

record report_args =
  ra_task_id :: pyval
  ra_agent_id :: pyval
  ra_status :: pyval
  ra_outputs :: pyval
  ra_evidence :: pyval
  ra_tests :: pyval
  ra_blockers :: pyval
  ra_assumptions :: pyval
  ra_decisions :: pyval
  ra_timestamps :: pyval
  ra_error :: pyval
  ra_schema_version :: pyval

definition REPORT_STATUSES :: "string list" where
  "REPORT_STATUSES = [''pending'', ''running'', ''completed'', ''failed'', ''blocked'', ''skipped'']"

definition AgentReport_new :: "(pyval \<Rightarrow> string) \<Rightarrow> report_args \<Rightarrow> AgentReport cres" where
  "AgentReport_new rep a =
     bindR (contract_text (ra_task_id a)) (\<lambda>task. bindR (contract_text (ra_agent_id a)) (\<lambda>agent.
     bindR (contract_text (ra_status a)) (\<lambda>st. let status = lower st in
     if status \<notin> set REPORT_STATUSES then Inl ContractValidationError
     else if status = ''completed'' \<and> \<not> meaningful (ra_evidence a) then Inl ContractValidationError else
     bindR (payload_arg rep [(''outputs'', ra_outputs a), (''evidence'', ra_evidence a), (''tests'', ra_tests a),
       (''blockers'', ra_blockers a), (''assumptions'', ra_assumptions a), (''decisions'', ra_decisions a),
       (''timestamps'', ra_timestamps a)]) (\<lambda>_.
     bindR (json_safe (ra_outputs a)) (\<lambda>outputs. bindR (json_safe (ra_evidence a)) (\<lambda>evidence. bindR (json_safe (ra_tests a)) (\<lambda>tests.
     bindR (json_safe (ra_blockers a)) (\<lambda>blockers. bindR (json_safe (ra_assumptions a)) (\<lambda>assumptions.
     bindR (json_safe (ra_decisions a)) (\<lambda>decisions. bindR (json_safe (ra_timestamps a)) (\<lambda>timestamps.
     if ra_schema_version a \<noteq> PStr CONTRACT_SCHEMA then Inl ContractValidationError else
     Inr \<lparr>r_task_id = task, r_agent_id = agent, r_status = status, r_outputs = outputs, r_evidence = evidence, r_tests = tests,
       r_blockers = blockers, r_assumptions = assumptions, r_decisions = decisions, r_timestamps = timestamps,
       r_error = (if ra_error a = PNone then None else Some (sanitize_error (ra_error a))),
       r_schema_version = ra_schema_version a\<rparr>)))))))))))"

definition AgentReport_from_dict :: "(pyval \<Rightarrow> string) \<Rightarrow> pyval \<Rightarrow> AgentReport cres" where
  "AgentReport_from_dict rep v = (case as_mapping v of
       None \<Rightarrow> Inl ContractValidationError
     | Some d \<Rightarrow> bindR (required_key d ''task_id'') (\<lambda>_. bindR (required_key d ''agent_id'') (\<lambda>_. bindR (required_key d ''status'') (\<lambda>_.
         AgentReport_new rep \<lparr>ra_task_id = mget_or d ''task_id'' PNone, ra_agent_id = mget_or d ''agent_id'' PNone,
           ra_status = mget_or d ''status'' PNone, ra_outputs = mget_or d ''outputs'' (PDict []),
           ra_evidence = mget_or d ''evidence'' (PList []), ra_tests = mget_or d ''tests'' (PList []),
           ra_blockers = mget_or d ''blockers'' (PList []), ra_assumptions = mget_or d ''assumptions'' (PList []),
           ra_decisions = mget_or d ''decisions'' (PList []), ra_timestamps = mget_or d ''timestamps'' (PDict []),
           ra_error = mget_or d ''error'' PNone, ra_schema_version = mget_or d ''schema_version'' (PStr CONTRACT_SCHEMA)\<rparr>))))"

definition AgentReport_to_dict :: "AgentReport \<Rightarrow> pyval cres" where
  "AgentReport_to_dict r = json_safe (PDict (str_keyed [(''schema_version'', r_schema_version r), (''task_id'', PStr (r_task_id r)),
     (''agent_id'', PStr (r_agent_id r)), (''status'', PStr (r_status r)), (''outputs'', r_outputs r), (''evidence'', r_evidence r),
     (''tests'', r_tests r), (''blockers'', r_blockers r), (''assumptions'', r_assumptions r), (''decisions'', r_decisions r),
     (''timestamps'', r_timestamps r), (''error'', (case r_error r of None \<Rightarrow> PNone | Some e \<Rightarrow> PStr e))]))"

section \<open>V2 reports\<close>

definition REPORT_V2_SCHEMA :: string where "REPORT_V2_SCHEMA = ''pd-fleet-report:v2''"

definition REPORT_V2_FIELDS :: "string list" where
  "REPORT_V2_FIELDS = [''schema_version'', ''task_id'', ''attempt'', ''agent_id'', ''agent'', ''role'', ''capabilities'',
     ''status'', ''outputs'', ''evidence'', ''tests'', ''validation'', ''decision'', ''started_at'', ''completed_at'',
     ''timestamps'', ''reason'', ''error'', ''blocker'', ''diagnostics'', ''retry'', ''metadata'', ''extensions'']"

definition REPORT_V2_RETRY_FIELDS :: "string list" where
  "REPORT_V2_RETRY_FIELDS = [''recommended'', ''max_attempts'', ''backoff_seconds'', ''reason'']"

definition REPORT_V2_TIMESTAMP :: regex where
  "REPORT_V2_TIMESTAMP = (let d = (\<lambda>n. Rep n (Some n) (Cls is_num)) in
     seqs [Bos, d 4, lit ''-'', d 2, lit ''-'', d 2, lit ''T'', d 2, lit '':'', d 2, lit '':'', d 2,
       opt (Seq (lit ''.'') (plus (Cls is_num))),
       Alt (lit ''Z'') (seqs [Cls (one_of ''+-''), d 2, opt (lit '':''), d 2]), Dollar])"

definition redact_report_text :: "string \<Rightarrow> string" where
  "redact_report_text s = redact_sensitive_text (redact_paths (re_sub Eps EXTERNAL_URL ''[URL REDACTED]'' s))"

function (sequential) redact_report_value :: "pyval \<Rightarrow> pyval cres" where
  "redact_report_value (PDict d) = bindR (mapR (\<lambda>kv. case as_str (fst kv) of
       None \<Rightarrow> Inl ContractValidationError
     | Some k \<Rightarrow> if k = [] \<or> is_sensitive_label k then Inl ContractValidationError
         else bindR (redact_report_value (snd kv)) (\<lambda>v. Inr (k, v))) d) (\<lambda>its. Inr (PDict (str_keyed (sort_key fst its))))"
| "redact_report_value (PProxy d) = bindR (mapR (\<lambda>kv. case as_str (fst kv) of
       None \<Rightarrow> Inl ContractValidationError
     | Some k \<Rightarrow> if k = [] \<or> is_sensitive_label k then Inl ContractValidationError
         else bindR (redact_report_value (snd kv)) (\<lambda>v. Inr (k, v))) d) (\<lambda>its. Inr (PDict (str_keyed (sort_key fst its))))"
| "redact_report_value (PList xs) = bindR (mapR redact_report_value xs) (\<lambda>ys. Inr (PList ys))"
| "redact_report_value (PTuple xs) = bindR (mapR redact_report_value xs) (\<lambda>ys. Inr (PList ys))"
| "redact_report_value (PStr s) = Inr (PStr (redact_report_text s))"
| "redact_report_value (PFloat f) = (if as_finite f = None then Inl ContractValidationError else Inr (PFloat f))"
| "redact_report_value (POther n) = Inl ContractValidationError"
| "redact_report_value v = Inr v"
  by pat_completeness auto
termination
  by (relation "measure size")
     (auto dest: py_pair_size size_list_estimation' [of _ _ _ size, OF _ order_refl] simp: less_Suc_eq_le)

function (sequential) report_meaningful :: "pyval \<Rightarrow> bool" where
  "report_meaningful PNone = False"
| "report_meaningful (PBool b) = b"
| "report_meaningful (PStr s) = (\<not> blank s)"
| "report_meaningful (PDict d) = (\<exists>kv \<in> set d. report_meaningful (snd kv))"
| "report_meaningful (PProxy d) = (\<exists>kv \<in> set d. report_meaningful (snd kv))"
| "report_meaningful (PList xs) = (\<exists>x \<in> set xs. report_meaningful x)"
| "report_meaningful (PTuple xs) = (\<exists>x \<in> set xs. report_meaningful x)"
| "report_meaningful v = True"
  by pat_completeness auto
termination
  by (relation "measure size")
     (auto dest: py_pair_size size_list_estimation' [of _ _ _ size, OF _ order_refl] simp: less_Suc_eq_le)

definition report_timestamp :: "pyval \<Rightarrow> string cres" where
  "report_timestamp v = (case as_str v of None \<Rightarrow> Inl ContractValidationError
     | Some s \<Rightarrow> if re_fullmatch REPORT_V2_TIMESTAMP (strip s) then Inr (strip s) else Inl ContractValidationError)"

definition read_instant :: "(string \<Rightarrow> int option) \<Rightarrow> string \<Rightarrow> int cres" where
  "read_instant readt text = (case readt (re_sub Eps (lit ''Z'') ''+00:00'' text) of
       None \<Rightarrow> Inl ContractValidationError | Some t \<Rightarrow> Inr t)"

definition report_instant :: "(string \<Rightarrow> int option) \<Rightarrow> pyval \<Rightarrow> int cres" where
  "report_instant readt v = bindR (report_timestamp v) (read_instant readt)"

definition validate_report_retry :: "pyval \<Rightarrow> unit cres" where
  "validate_report_retry v = (if v = PNone then Inr () else case as_mapping v of
       None \<Rightarrow> Inl ContractValidationError
     | Some d \<Rightarrow> if \<exists>kv \<in> set d. fst kv \<notin> PStr ` set REPORT_V2_RETRY_FIELDS then Inl ContractValidationError
         else bindR (attempts_arg (mget_or d ''max_attempts'' (PInt 1))) (\<lambda>_.
           if as_bool (mget_or d ''recommended'' (PBool False)) = None then Inl ContractValidationError
           else bindR (backoff_arg (mget_or d ''backoff_seconds'' (PFloat (Fin 0)))) (\<lambda>_.
             case mget d ''reason'' of None \<Rightarrow> Inr ()
             | Some r \<Rightarrow> bindR (contract_text r) (\<lambda>_. Inr ()))))"

record AgentReportV2 =
  v_task_id :: string
  v_attempt :: int
  v_agent_id :: string
  v_role :: string
  v_capabilities :: "string list"
  v_status :: string
  v_outputs :: pyval
  v_evidence :: pyval
  v_tests :: pyval
  v_validation :: pyval
  v_decision :: pyval
  v_started_at :: string
  v_completed_at :: string
  v_agent :: "string option"
  v_reason :: pyval
  v_error :: pyval
  v_blocker :: pyval
  v_diagnostics :: pyval
  v_retry :: pyval
  v_metadata :: pyval
  v_extensions :: pyval

record v2_args =
  va_schema_version :: pyval
  va_task_id :: pyval
  va_attempt :: pyval
  va_agent_id :: pyval
  va_role :: pyval
  va_capabilities :: pyval
  va_status :: pyval
  va_outputs :: pyval
  va_evidence :: pyval
  va_tests :: pyval
  va_validation :: pyval
  va_decision :: pyval
  va_started_at :: pyval
  va_completed_at :: pyval
  va_agent :: pyval
  va_reason :: pyval
  va_error :: pyval
  va_blocker :: pyval
  va_diagnostics :: pyval
  va_retry :: pyval
  va_metadata :: pyval
  va_extensions :: pyval

text \<open>Reading a detached field copies it deeply.\<close>

definition detached :: "pyval \<Rightarrow> pyval cres" where
  "detached v = (if has_proxy v then Inl ContractTypeError else Inr v)"

fun all_meaningful :: "pyval list \<Rightarrow> bool cres" where
  "all_meaningful [] = Inr True"
| "all_meaningful (v # vs) = bindR (detached v) (\<lambda>w. if report_meaningful w then all_meaningful vs else Inr False)"

fun any_meaningful :: "pyval list \<Rightarrow> bool cres" where
  "any_meaningful [] = Inr False"
| "any_meaningful (v # vs) = bindR (detached v) (\<lambda>w. if report_meaningful w then Inr True else any_meaningful vs)"

definition nonblank :: "pyval \<Rightarrow> bool" where
  "nonblank v \<longleftrightarrow> (case as_str v of None \<Rightarrow> False | Some s \<Rightarrow> \<not> blank s)"

definition text_of :: "pyval \<Rightarrow> string" where
  "text_of v = (case as_str v of None \<Rightarrow> [] | Some s \<Rightarrow> s)"

definition V2_STATUSES :: "string list" where "V2_STATUSES = [''completed'', ''failed'', ''blocked'']"

definition redact_field :: "pyval \<Rightarrow> pyval cres" where
  "redact_field v = (if v = PNone then Inr PNone else redact_report_value v)"

text \<open>A completed report shows its results, another one a reason and its evidence.\<close>

definition terminal_complete :: "v2_args \<Rightarrow> string \<Rightarrow> unit cres" where
  "terminal_complete a status = (if status = ''completed''
     then bindR (all_meaningful [va_outputs a, va_evidence a, va_tests a, va_validation a, va_decision a]) (\<lambda>ok. guardR ok ContractValidationError)
     else bindR (any_meaningful [va_reason a, va_error a, va_blocker a]) (\<lambda>some_reason.
       if \<not> some_reason then Inl ContractValidationError
       else bindR (all_meaningful [va_evidence a]) (\<lambda>ok. guardR ok ContractValidationError)))"

definition v2_payload :: "v2_args \<Rightarrow> (string \<times> pyval) list" where
  "v2_payload a = filter (\<lambda>kv. snd kv \<noteq> PNone) [(''outputs'', va_outputs a), (''evidence'', va_evidence a), (''tests'', va_tests a),
     (''validation'', va_validation a), (''decision'', va_decision a), (''reason'', va_reason a), (''error'', va_error a),
     (''blocker'', va_blocker a), (''diagnostics'', va_diagnostics a), (''retry'', va_retry a), (''metadata'', va_metadata a),
     (''extensions'', va_extensions a)]"

definition redact_v2 :: "v2_args \<Rightarrow> v2_args cres" where
  "redact_v2 a = bindR (redact_field (va_outputs a)) (\<lambda>outputs. bindR (redact_field (va_evidence a)) (\<lambda>evidence.
     bindR (redact_field (va_tests a)) (\<lambda>tests. bindR (redact_field (va_validation a)) (\<lambda>validation.
     bindR (redact_field (va_decision a)) (\<lambda>decision. bindR (redact_field (va_reason a)) (\<lambda>reason.
     bindR (redact_field (va_error a)) (\<lambda>err. bindR (redact_field (va_blocker a)) (\<lambda>blocker.
     bindR (redact_field (va_diagnostics a)) (\<lambda>diagnostics. bindR (redact_field (va_retry a)) (\<lambda>retry.
     bindR (redact_field (va_metadata a)) (\<lambda>metadata. bindR (redact_field (va_extensions a)) (\<lambda>extensions.
     Inr (a\<lparr>va_outputs := outputs, va_evidence := evidence, va_tests := tests, va_validation := validation, va_decision := decision,
       va_reason := reason, va_error := (if err = PNone then PNone else PStr (sanitize_error err)), va_blocker := blocker,
       va_diagnostics := (if is_str diagnostics then PStr (sanitize_error diagnostics) else diagnostics), va_retry := retry,
       va_metadata := metadata, va_extensions := extensions\<rparr>)))))))))))))"

definition v2_identity :: "v2_args \<Rightarrow> bool" where
  "v2_identity a \<longleftrightarrow> nonblank (va_task_id a) \<and> nonblank (va_agent_id a) \<and> nonblank (va_role a)
     \<and> (va_agent a = PNone \<or> nonblank (va_agent a) \<and> strip (text_of (va_agent a)) = strip (text_of (va_agent_id a)))"

definition AgentReportV2_new :: "(string \<Rightarrow> int option) \<Rightarrow> (pyval \<Rightarrow> string) \<Rightarrow> v2_args \<Rightarrow> AgentReportV2 cres" where
  "AgentReportV2_new readt rep a =
     (if va_schema_version a \<noteq> PStr REPORT_V2_SCHEMA \<or> \<not> v2_identity a then Inl ContractValidationError
      else case as_int (va_attempt a) of None \<Rightarrow> Inl ContractValidationError | Some attempt \<Rightarrow>
      if attempt < 1 \<or> va_status a \<notin> PStr ` set V2_STATUSES then Inl ContractValidationError
      else bindR (detached (va_capabilities a)) (\<lambda>capabilities. case as_sequence capabilities of None \<Rightarrow> Inl ContractValidationError | Some cs \<Rightarrow>
      if \<not> list_all nonblank cs then Inl ContractValidationError
      else bindR (report_instant readt (va_started_at a)) (\<lambda>started. bindR (report_instant readt (va_completed_at a)) (\<lambda>completed.
      if completed < started then Inl ContractValidationError
      else bindR (terminal_complete a (text_of (va_status a))) (\<lambda>_. bindR (detached (va_retry a)) (\<lambda>retry. bindR (validate_report_retry retry) (\<lambda>_.
      bindR (mapR (\<lambda>kv. detached (snd kv)) (v2_payload a)) (\<lambda>_. bindR (payload_arg rep (v2_payload a)) (\<lambda>_. bindR (redact_v2 a) (\<lambda>b.
      Inr \<lparr>v_task_id = text_of (va_task_id a), v_attempt = attempt, v_agent_id = text_of (va_agent_id a), v_role = text_of (va_role a),
        v_capabilities = map text_of cs, v_status = text_of (va_status a), v_outputs = va_outputs b, v_evidence = va_evidence b,
        v_tests = va_tests b, v_validation = va_validation b, v_decision = va_decision b, v_started_at = text_of (va_started_at a),
        v_completed_at = text_of (va_completed_at a), v_agent = as_str (va_agent a), v_reason = va_reason b, v_error = va_error b,
        v_blocker = va_blocker b, v_diagnostics = va_diagnostics b, v_retry = va_retry b, v_metadata = va_metadata b,
        v_extensions = va_extensions b\<rparr>))))))))))"

definition AgentReportV2_to_dict :: "AgentReportV2 \<Rightarrow> pyval cres" where
  "AgentReportV2_to_dict r = redact_report_value (PDict (str_keyed ([(''schema_version'', PStr REPORT_V2_SCHEMA), (''task_id'', PStr (v_task_id r)),
     (''attempt'', PInt (v_attempt r)), (''agent_id'', PStr (v_agent_id r)), (''role'', PStr (v_role r)),
     (''capabilities'', pstrs (v_capabilities r)), (''status'', PStr (v_status r)), (''outputs'', v_outputs r),
     (''evidence'', v_evidence r), (''tests'', v_tests r), (''validation'', v_validation r), (''decision'', v_decision r),
     (''started_at'', PStr (v_started_at r)), (''completed_at'', PStr (v_completed_at r))]
     @ filter (\<lambda>kv. snd kv \<noteq> PNone) [(''reason'', v_reason r), (''error'', v_error r), (''blocker'', v_blocker r),
       (''diagnostics'', v_diagnostics r), (''retry'', v_retry r), (''metadata'', v_metadata r), (''extensions'', v_extensions r)])))"

section \<open>Parsing V2 reports\<close>

definition str_in :: "string list \<Rightarrow> pyval \<Rightarrow> bool" where
  "str_in ks v \<longleftrightarrow> (case as_str v of None \<Rightarrow> False | Some s \<Rightarrow> s \<in> set ks)"

text \<open>Unknown fields are rejected or become extensions.\<close>

definition unknown_items :: "pymap \<Rightarrow> pymap" where
  "unknown_items d = filter (\<lambda>kv. \<not> str_in REPORT_V2_FIELDS (fst kv)) d"

definition collect_unknown :: "bool \<Rightarrow> pymap \<Rightarrow> pymap cres" where
  "collect_unknown reject d = (let unknown = unknown_items d in
     if unknown = [] then Inr d
     else if reject then Inl ContractValidationError
     else if \<not> list_all (\<lambda>kv. case as_str (fst kv) of None \<Rightarrow> False | Some k \<Rightarrow> k \<noteq> [] \<and> \<not> is_sensitive_label k) unknown
       then Inl ContractValidationError
     else (let extensions = mget_or d ''extensions'' PNone in
       case as_mapping (if extensions = PNone then PDict [] else extensions) of
         None \<Rightarrow> Inl ContractValidationError
       | Some e \<Rightarrow> Inr (mset_key (PStr ''extensions'') (PDict (fold (\<lambda>kv. mset_key (fst kv) (snd kv)) unknown e)) d)))"

text \<open>The instant of a time stamp, printed in UTC.\<close>

definition utc_text :: "(string \<Rightarrow> int option) \<Rightarrow> (int \<Rightarrow> string option) \<Rightarrow> string \<Rightarrow> string cres" where
  "utc_text readt show text = bindR (read_instant readt text) (\<lambda>t. case show t of
       None \<Rightarrow> Inl ContractValidationError
     | Some s \<Rightarrow> Inr (re_sub Eps (lit ''+00:00'') ''Z'' s))"

definition present :: "pyval \<Rightarrow> pyval \<Rightarrow> pyval" where
  "present a b = (if a \<noteq> PNone then a else b)"

definition same_instant :: "(string \<Rightarrow> int option) \<Rightarrow> (int \<Rightarrow> string option) \<Rightarrow> pyval \<Rightarrow> pyval \<Rightarrow> unit cres" where
  "same_instant readt show outer inner = (if outer = PNone \<or> inner = PNone then Inr () else
     bindR (report_timestamp outer) (\<lambda>a. bindR (utc_text readt show a) (\<lambda>x.
     bindR (report_timestamp inner) (\<lambda>b. bindR (utc_text readt show b) (\<lambda>y. guardR (x = y) ContractValidationError)))))"

definition report_times :: "(string \<Rightarrow> int option) \<Rightarrow> (int \<Rightarrow> string option) \<Rightarrow> pymap \<Rightarrow> (string \<times> string) cres" where
  "report_times readt show d = (let outer = (\<lambda>k. mget_or d k PNone); ts = outer ''timestamps'' in
     if as_mapping ts = None \<and> ts \<noteq> PNone then Inl ContractValidationError
     else (let m = (case as_mapping ts of None \<Rightarrow> [] | Some m \<Rightarrow> m); inner = (\<lambda>k. mget_or m k PNone);
         started = present (outer ''started_at'') (inner ''started_at'');
         completed = present (outer ''completed_at'') (inner ''completed_at'')
       in if \<not> list_all (\<lambda>kv. str_in [''started_at'', ''completed_at''] (fst kv)) m then Inl ContractValidationError
          else if started = PNone \<or> completed = PNone then Inl ContractValidationError
          else bindR (report_timestamp started) (\<lambda>s. bindR (report_timestamp completed) (\<lambda>c.
            bindR (same_instant readt show (outer ''started_at'') (inner ''started_at'')) (\<lambda>_.
            bindR (same_instant readt show (outer ''completed_at'') (inner ''completed_at'')) (\<lambda>_.
            bindR (utc_text readt show s) (\<lambda>s'. bindR (utc_text readt show c) (\<lambda>c'. Inr (s', c')))))))))"

definition report_agent :: "pymap \<Rightarrow> pyval" where
  "report_agent d = mget_or d ''agent_id'' (mget_or d ''agent'' PNone)"

definition agent_aliases_agree :: "pymap \<Rightarrow> bool" where
  "agent_aliases_agree d \<longleftrightarrow> (case (mget d ''agent_id'', mget d ''agent'') of
       (Some a, Some b) \<Rightarrow> (case (as_str a, as_str b) of (Some s, Some t) \<Rightarrow> strip s = strip t | _ \<Rightarrow> False)
     | _ \<Rightarrow> True)"

definition report_payload :: "pymap \<Rightarrow> pyval dict cres" where
  "report_payload d = bindR (mapR (\<lambda>kv. bindR (redact_report_value (snd kv)) (\<lambda>v. Inr (text_of (fst kv), v)))
       (filter (\<lambda>kv. str_in (filter (\<lambda>k. k \<noteq> ''timestamps'') REPORT_V2_FIELDS) (fst kv)) d)) (\<lambda>p.
     Inr (map (\<lambda>kv. (fst kv, if fst kv = ''error'' \<and> snd kv \<noteq> PNone then PStr (sanitize_error (snd kv))
       else if fst kv = ''diagnostics'' \<and> is_str (snd kv) then PStr (sanitize_error (snd kv)) else snd kv)) p))"

definition payload_complete :: "string \<Rightarrow> (string \<Rightarrow> pyval) \<Rightarrow> bool" where
  "payload_complete status p \<longleftrightarrow> (if status = ''completed''
     then list_all (\<lambda>k. report_meaningful (p k)) [''outputs'', ''evidence'', ''tests'', ''validation'', ''decision'']
     else list_ex (\<lambda>k. report_meaningful (p k)) [''reason'', ''error'', ''blocker''] \<and> report_meaningful (p ''evidence''))"

definition parse_agent_report_v2 ::
  "(string \<Rightarrow> int option) \<Rightarrow> (int \<Rightarrow> string option) \<Rightarrow> (pyval \<Rightarrow> string) \<Rightarrow> bool \<Rightarrow> pyval \<Rightarrow> AgentReportV2 cres" where
  "parse_agent_report_v2 readt show rep reject v = (case as_mapping v of None \<Rightarrow> Inl ContractValidationError | Some raw \<Rightarrow>
     bindR (collect_unknown reject raw) (\<lambda>d. let get = (\<lambda>k. mget_or d k PNone) in
     if get ''schema_version'' \<noteq> PStr REPORT_V2_SCHEMA \<or> \<not> str_in V2_STATUSES (get ''status'') then Inl ContractValidationError
     else if list_ex (\<lambda>k. get k = PNone) [''task_id'', ''attempt'', ''role'', ''capabilities''] then Inl ContractValidationError
     else if \<not> agent_aliases_agree d \<or> \<not> (nonblank (get ''task_id'') \<and> nonblank (report_agent d) \<and> nonblank (get ''role''))
       then Inl ContractValidationError
     else case as_int (get ''attempt'') of None \<Rightarrow> Inl ContractValidationError | Some attempt \<Rightarrow>
     if attempt < 1 then Inl ContractValidationError
     else case as_sequence (get ''capabilities'') of None \<Rightarrow> Inl ContractValidationError | Some cs \<Rightarrow>
     if \<not> list_all nonblank cs then Inl ContractValidationError
     else bindR (report_times readt show d) (\<lambda>(started, completed). bindR (report_payload d) (\<lambda>payload.
       let p = (\<lambda>k. dget_or payload k PNone) in
       if \<not> payload_complete (text_of (get ''status'')) p then Inl ContractValidationError
       else bindR (validate_report_retry (p ''retry'')) (\<lambda>_.
       AgentReportV2_new readt rep \<lparr>va_schema_version = PStr REPORT_V2_SCHEMA, va_task_id = PStr (strip (text_of (get ''task_id''))),
         va_attempt = PInt attempt, va_agent_id = PStr (strip (text_of (report_agent d))), va_role = PStr (strip (text_of (get ''role''))),
         va_capabilities = PTuple (map PStr (sort (map text_of cs))), va_status = get ''status'', va_outputs = p ''outputs'',
         va_evidence = p ''evidence'', va_tests = p ''tests'', va_validation = p ''validation'', va_decision = p ''decision'',
         va_started_at = PStr started, va_completed_at = PStr completed, va_agent = get ''agent'', va_reason = p ''reason'',
         va_error = p ''error'', va_blocker = p ''blocker'', va_diagnostics = p ''diagnostics'', va_retry = p ''retry'',
         va_metadata = p ''metadata'', va_extensions = p ''extensions''\<rparr>)))))"

end
