(* ===== verification/ContractProperties.thy ===== *)
theory ContractProperties
  imports AgentReports
begin

text \<open>
  What an accepted agent contract guarantees: its write scope is disjoint from the forbidden paths, it is
  read back unchanged from its own dictionary; and where the check of overlapping patterns falls short.
\<close>

section \<open>Texts and paths that were accepted are accepted again\<close>

definition tidy :: "string \<Rightarrow> bool" where
  "tidy s \<longleftrightarrow> \<not> blank s \<and> strip s = s"

lemma contract_text_tidy: "contract_text v = Inr s \<Longrightarrow> tidy s"
  by (auto simp: contract_text_def tidy_def blank_def split: option.split_asm if_split_asm)

lemma contract_text_id: "tidy s \<Longrightarrow> contract_text (PStr s) = Inr s"
  by (simp add: contract_text_def tidy_def)

lemma contract_texts_tidy: "contract_texts v = Inr xs \<Longrightarrow> list_all tidy xs"
  by (auto simp: contract_texts_def list_all_iff split: if_split_asm option.split_asm dest: mapR_set contract_text_tidy)

lemma contract_texts_id: "list_all tidy xs \<Longrightarrow> contract_texts (pstrs xs) = Inr xs"
  by (simp add: contract_texts_def pstrs_def list_all_iff mapR_id contract_text_id)

lemma forward_idem [simp]: "forward (forward s) = forward s"
  by (simp add: forward_def)

lemma rstrip_slash_id: "s = [] \<or> last s \<noteq> CHR ''/'' \<Longrightarrow> rstrip_slash s = s"
  by (auto simp: rstrip_slash_def hd_rev dropWhile_hd_id)

lemma rstrip_slash_last: "rstrip_slash s = [] \<or> last (rstrip_slash s) \<noteq> CHR ''/''"
  using hd_dropWhile [of "\<lambda>c. c = CHR ''/''" "rev s"] by (auto simp: rstrip_slash_def last_rev)

lemma rstrip_slash_split: "\<exists>n. s = rstrip_slash s @ replicate n (CHR ''/'')"
proof -
  have "rev s = takeWhile (\<lambda>c. c = CHR ''/'') (rev s) @ dropWhile (\<lambda>c. c = CHR ''/'') (rev s)" by simp
  moreover have "takeWhile (\<lambda>c. c = CHR ''/'') (rev s) = replicate (length (takeWhile (\<lambda>c. c = CHR ''/'') (rev s))) (CHR ''/'')"
    by (rule replicate_eqI) (auto dest: set_takeWhileD)
  ultimately have "s = rev (dropWhile (\<lambda>c. c = CHR ''/'') (rev s)) @ rev (replicate (length (takeWhile (\<lambda>c. c = CHR ''/'') (rev s))) (CHR ''/''))"
    by (metis rev_append rev_rev_ident)
  then show ?thesis by (auto simp: rstrip_slash_def)
qed

lemma forward_rstrip: "forward (rstrip_slash (forward s)) = rstrip_slash (forward s)"
proof -
  have "forward t = t" if "CHR 0x5C \<notin> set t" for t using that by (induction t) (auto simp: forward_def)
  moreover have "CHR 0x5C \<notin> set (rstrip_slash (forward s))"
    by (auto simp: rstrip_slash_def forward_def dest!: set_dropWhileD)
  ultimately show ?thesis .
qed

section \<open>Labels of paths with a trailing slash\<close>

lemma camel_slash: "camel_boundary (s @ ''/'') = camel_boundary s @ ''/''"
  by (induction s rule: camel_boundary.induct) (auto simp: is_upper_def in_range_def)

lemma acronym_slash: "acronym_boundary (s @ ''/'') = acronym_boundary s @ ''/''"
  by (induction s rule: acronym_boundary.induct) (auto simp: is_lower_def in_range_def)

lemma squeeze_slash: "squeeze (s @ ''/'') = squeeze s \<or> squeeze (s @ ''/'') = squeeze s @ ''_''"
proof (induction s)
  case Nil
  then show ?case by (simp add: is_lower_def is_num_def in_range_def)
next
  case (Cons c s)
  then show ?case by (cases "squeeze s") (auto split: list.split)
qed

lemma tidy_ne: "tidy s \<Longrightarrow> s \<noteq> []"
  unfolding tidy_def blank_def by metis

lemma strip_slash: "tidy s \<Longrightarrow> strip (s @ ''/'') = s @ ''/''"
proof (rule strip_id, rule disjI2)
  assume "tidy s"
  then have "strip s \<noteq> []" "strip s = s" "s \<noteq> []" unfolding tidy_def blank_def by metis+
  then show "\<not> is_space (hd (s @ ''/'')) \<and> \<not> is_space (last (s @ ''/''))"
    using strip_edges(1) [of s] by (simp add: is_space_def)
qed

lemma normalize_slash: "tidy s \<Longrightarrow> normalize_sensitive_key (s @ ''/'') = normalize_sensitive_key s"
proof -
  assume t: "tidy s"
  then have "strip (s @ ''/'') = s @ ''/''" by (rule strip_slash)
  moreover have "lower (s @ ''/'') = lower s @ ''/''" for s by (simp add: lower_def lower_char_def)
  moreover have "strip_by (\<lambda>c. c = CHR ''_'') (s @ ''_'') = strip_by (\<lambda>c. c = CHR ''_'') s" for s by (simp add: strip_by_def)
  ultimately show ?thesis
    using t squeeze_slash [of "lower (acronym_boundary (camel_boundary s))"]
    by (auto simp: normalize_sensitive_key_def camel_slash acronym_slash tidy_def)
qed

lemma label_slash: "tidy s \<Longrightarrow> is_sensitive_label (s @ ''/'') = is_sensitive_label s"
  by (simp add: is_sensitive_label_def normalize_slash)

lemma tidy_slash: "tidy s \<Longrightarrow> tidy (s @ ''/'')"
  unfolding tidy_def [of "s @ ''/''"] blank_def using strip_slash [of s] by simp

lemma label_slashes: "tidy s \<Longrightarrow> is_sensitive_label (s @ replicate n (CHR ''/'')) = is_sensitive_label s"
proof (induction n arbitrary: s)
  case (Suc n)
  have "is_sensitive_label ((s @ ''/'') @ replicate n (CHR ''/'')) = is_sensitive_label (s @ ''/'')"
    by (rule Suc.IH) (rule tidy_slash [OF Suc.prems])
  then show ?case using label_slash [OF Suc.prems] by simp
qed simp

lemma split_on_append: "split_on c (s @ c # t) = split_on c s @ split_on c t"
proof (induction s)
  case (Cons x s)
  have "split_on c s \<noteq> []" by (cases s) (auto split: list.split)
  with Cons show ?case by (auto split: list.split)
qed simp

lemma split_on_slashes: "set (split_on c s) \<subseteq> set (split_on c (s @ replicate n c))
    \<and> (0 < n \<longrightarrow> set (split_on c s) \<subseteq> set (butlast (split_on c (s @ replicate n c))))"
proof (cases n)
  case (Suc m)
  have "split_on c (replicate m c) \<noteq> []" by (cases m) (auto split: list.split)
  then show ?thesis by (simp add: Suc split_on_append butlast_append)
qed simp

lemma scheme_iff: "re_match SCHEME s \<longleftrightarrow> (\<exists>k > 0. k < length s \<and> s ! k = CHR '':'' \<and> (in_range 65 90 (s ! 0) \<or> in_range 97 122 (s ! 0))
    \<and> (\<forall>j. Suc 0 \<le> j \<and> j < k \<longrightarrow> ascii_alnum (s ! j) \<or> one_of ''+.-'' (s ! j)))"
proof (cases "s \<noteq> [] \<and> (in_range 65 90 (s ! 0) \<or> in_range 97 122 (s ! 0))")
  case True
  let ?P = "\<lambda>c. ascii_alnum c \<or> one_of ''+.-'' c"
  have r: "j \<in> set (reps (ends (Cls ?P) s) (Suc (length s)) 0 None (Suc 0)) \<longleftrightarrow>
      Suc 0 \<le> j \<and> j \<le> length s \<and> (\<forall>k. Suc 0 \<le> k \<and> k < j \<longrightarrow> ?P (s ! k))" for j
    using True reps_class [of "Suc 0" s "Suc (length s)" j ?P 0 None] by (simp add: Suc_leI del: reps.simps)
  have "re_match SCHEME s \<longleftrightarrow> (\<exists>j \<in> set (reps (ends (Cls ?P) s) (Suc (length s)) 0 None (Suc 0)). j < length s \<and> s ! j = CHR '':'')"
    using True by (auto simp: re_match_def SCHEME_def lit_def simp del: reps.simps)
  also have "\<dots> \<longleftrightarrow> (\<exists>k > 0. k < length s \<and> s ! k = CHR '':'' \<and> (\<forall>j. Suc 0 \<le> j \<and> j < k \<longrightarrow> ?P (s ! j)))"
    unfolding Bex_def r by (auto simp: Suc_le_eq)
  finally show ?thesis using True by simp
qed (auto simp: re_match_def SCHEME_def lit_def)

lemma scheme_prefix: "re_match SCHEME p \<Longrightarrow> re_match SCHEME (p @ q)"
  unfolding scheme_iff
proof (elim exE conjE)
  fix k assume "0 < k" "k < length p" "p ! k = CHR '':''" "in_range 65 90 (p ! 0) \<or> in_range 97 122 (p ! 0)"
    "\<forall>j. Suc 0 \<le> j \<and> j < k \<longrightarrow> ascii_alnum (p ! j) \<or> one_of ''+.-'' (p ! j)"
  moreover from this have "(p @ q) ! 0 = p ! 0" "\<And>j. j \<le> k \<Longrightarrow> (p @ q) ! j = p ! j" by (auto simp: nth_append)
  ultimately show "\<exists>k > 0. k < length (p @ q) \<and> (p @ q) ! k = CHR '':'' \<and> (in_range 65 90 ((p @ q) ! 0) \<or> in_range 97 122 ((p @ q) ! 0))
      \<and> (\<forall>j. Suc 0 \<le> j \<and> j < k \<longrightarrow> ascii_alnum ((p @ q) ! j) \<or> one_of ''+.-'' ((p @ q) ! j))"
    by (intro exI [of _ k]) simp
qed

lemma safe_path_norm:
  assumes p0: "safe_path p0" and ne: "rstrip_slash (forward p0) \<noteq> []" and tidy: "tidy (rstrip_slash (forward p0))"
  shows "safe_path (rstrip_slash (forward p0))"
proof -
  let ?p = "rstrip_slash (forward p0)"
  obtain n where n: "forward p0 = ?p @ replicate n (CHR ''/'')" using rstrip_slash_split by blast
  have fp: "forward ?p = ?p" by (rule forward_rstrip)
  have nul: "CHR 0x00 \<notin> set ?p"
  proof
    assume "CHR 0x00 \<in> set ?p"
    then have "CHR 0x00 \<in> set (forward p0)" by (subst n) simp
    then show False using p0 by (auto simp: safe_path_def forward_def split: if_split_asm)
  qed
  have start: "startswith ?p [c] \<Longrightarrow> startswith (forward p0) [c]" for c
    using ne by (subst n) (cases ?p, auto simp: startswith_def)
  have label: "is_sensitive_label ?p = is_sensitive_label (forward p0)"
    using label_slashes [OF tidy, of n] n by simp
  have scheme: "re_match SCHEME ?p \<Longrightarrow> re_match SCHEME (forward p0)"
    by (subst n) (rule scheme_prefix)
  have parts: "set (split_on (CHR ''/'') ?p) \<subseteq> set (split_on (CHR ''/'') (forward p0))"
    using split_on_slashes [of "CHR ''/''" ?p n] n by simp
  have front: "set (butlast (split_on (CHR ''/'') ?p)) \<subseteq> set (butlast (split_on (CHR ''/'') (forward p0)))"
    using split_on_slashes [of "CHR ''/''" ?p n] n in_set_butlastD by (cases "n = 0") fastforce+
  show ?thesis using p0 nul start label scheme parts front unfolding safe_path_def Let_def fp by blast
qed

lemma contract_paths_normal:
  assumes "contract_paths v = Inr ps" and "p \<in> set ps"
  shows "\<exists>p0. safe_path p0 \<and> p = rstrip_slash (forward p0) \<and> p \<noteq> [] \<or> p = ''.''"
proof -
  obtain xs where xs: "list_all safe_path xs"
    and psx: "ps = map (\<lambda>p. let q = rstrip_slash (forward p) in if q = [] then ''.'' else q) xs"
    using assms(1) by (auto simp: contract_paths_def result_simps split: if_split_asm)
  from assms(2) psx obtain p0 where "p0 \<in> set xs" "p = (if rstrip_slash (forward p0) = [] then ''.'' else rstrip_slash (forward p0))"
    by (auto simp: Let_def)
  with xs show ?thesis by (auto simp: list_all_iff)
qed

lemma path_forward: "contract_paths v = Inr ps \<Longrightarrow> p \<in> set ps \<Longrightarrow> forward p = p \<and> rstrip_slash p = p \<and> p \<noteq> []"
proof -
  assume "contract_paths v = Inr ps" "p \<in> set ps"
  from contract_paths_normal [OF this] obtain p0 where "p = rstrip_slash (forward p0) \<and> p \<noteq> [] \<or> p = ''.''" by blast
  then show ?thesis
  proof
    assume p: "p = rstrip_slash (forward p0) \<and> p \<noteq> []"
    then have "forward p = p" using forward_rstrip by blast
    moreover have "rstrip_slash p = p" using p rstrip_slash_last rstrip_slash_id by blast
    ultimately show ?thesis using p by blast
  next
    assume "p = ''.''"
    then show ?thesis by (simp add: forward_def rstrip_slash_def)
  qed
qed

text \<open>A safe path has a component: \<open>safe_path\<close> fails for a path that is empty up to slashes.\<close>

lemma safe_path_component: "safe_path p0 \<Longrightarrow> rstrip_slash (forward p0) = [] \<Longrightarrow> p0 = []"
proof -
  assume p0: "safe_path p0" and "rstrip_slash (forward p0) = []"
  with rstrip_slash_split [of "forward p0"] obtain n where "forward p0 = replicate n (CHR ''/'')" by auto
  with p0 have "n = 0" by (cases n) (auto simp: safe_path_def startswith_def)
  with \<open>forward p0 = replicate n (CHR ''/'')\<close> show ?thesis by (simp add: forward_def)
qed

lemma contract_paths_id:
  assumes ps: "contract_paths v = Inr ps" and t: "list_all (\<lambda>p. strip p = p) ps"
  shows "contract_paths (pstrs ps) = Inr ps"
proof -
  obtain xs where xs: "contract_texts v = Inr xs" "list_all safe_path xs"
    and psx: "ps = map (\<lambda>p. let q = rstrip_slash (forward p) in if q = [] then ''.'' else q) xs"
    using ps by (auto simp: contract_paths_def result_simps split: if_split_asm)
  have all: "safe_path p \<and> tidy p" if p: "p \<in> set ps" for p
  proof -
    from p psx obtain p0 where p0: "p0 \<in> set xs" and pq: "p = (if rstrip_slash (forward p0) = [] then ''.'' else rstrip_slash (forward p0))"
      by (auto simp: Let_def)
    have s0: "safe_path p0" "p0 \<noteq> []" using xs p0 contract_texts_tidy [OF xs(1)] tidy_ne by (auto simp: list_all_iff)
    then have ne: "rstrip_slash (forward p0) \<noteq> []" using safe_path_component by blast
    have "p \<noteq> []" "strip p = p" using path_forward [OF ps p] t p by (auto simp: list_all_iff)
    then have tidy: "tidy p" by (simp add: tidy_def blank_def)
    with safe_path_norm [OF s0(1) ne] pq ne show ?thesis by simp
  qed
  have tp: "contract_texts (pstrs ps) = Inr ps" by (rule contract_texts_id) (use all in \<open>simp add: list_all_iff\<close>)
  have "map (\<lambda>p. let q = rstrip_slash (forward p) in if q = [] then ''.'' else q) ps = ps"
    by (rule map_idI) (use path_forward [OF ps] in \<open>simp add: Let_def\<close>)
  then show ?thesis using tp all by (simp add: contract_paths_def list_all_iff)
qed

section \<open>The write scope\<close>

definition literal :: "string \<Rightarrow> bool" where
  "literal p \<longleftrightarrow> list_all (\<lambda>c. c \<notin> set ''*?['') p"

text \<open>The files at or below a path.\<close>

definition covers :: "string \<Rightarrow> string \<Rightarrow> bool" where
  "covers p q \<longleftrightarrow> q = p \<or> startswith q (p @ ''/'')"

lemma base_literal: "literal p \<Longrightarrow> rstrip_slash p = p \<Longrightarrow> base_path p = p"
proof -
  assume "literal p" "rstrip_slash p = p"
  moreover from \<open>literal p\<close> have tw: "takeWhile (\<lambda>c. c \<notin> set ''*?['') p = p"
    unfolding takeWhile_eq_all_conv by (auto simp: literal_def list_all_iff)
  ultimately show ?thesis unfolding base_path_def tw by simp
qed

lemma covers_ext: "covers a q \<Longrightarrow> \<exists>x. q @ ''/'' = (a @ ''/'') @ x"
  by (auto simp: covers_def startswith_iff)

lemma covers_comparable: "covers a q \<Longrightarrow> covers f q \<Longrightarrow> a = f \<or> startswith a (f @ ''/'') \<or> startswith f (a @ ''/'')"
proof -
  assume "covers a q" "covers f q"
  from covers_ext [OF this(1)] covers_ext [OF this(2)] obtain us where "a @ ''/'' = (f @ ''/'') @ us \<or> f @ ''/'' = (a @ ''/'') @ us" by (metis append_eq_append_conv2)
  then show ?thesis by (cases us rule: rev_cases) (auto simp: startswith_iff)
qed

lemma contract_new_parts:
  assumes "AgentContract_new rep a = Inr c"
  shows "contract_paths (arg_allowed_paths a) = Inr (c_allowed_paths c)" "contract_paths (arg_forbidden_paths a) = Inr (c_forbidden_paths c)"
    "\<not> conflicts (c_allowed_paths c) (c_forbidden_paths c)"
  using assms by (auto simp: AgentContract_new_def result_simps Let_def)

lemma contract_from_new: "AgentContract_from_dict rep v = Inr c \<Longrightarrow> \<exists>a. AgentContract_new rep a = Inr c"
  by (auto simp: AgentContract_from_dict_def result_simps)

text \<open>
  C24: in an accepted contract whose paths hold no shell patterns, no file lies both at or below an
  allowed path and at or below a forbidden one.
\<close>

theorem write_scope_disjoint:
  assumes c: "AgentContract_from_dict rep v = Inr c" and l: "list_all literal (c_allowed_paths c @ c_forbidden_paths c)"
    and a: "a \<in> set (c_allowed_paths c)" and f: "f \<in> set (c_forbidden_paths c)"
  shows "\<not> (covers a q \<and> covers f q)"
proof
  assume "covers a q \<and> covers f q"
  then have cmp: "a = f \<or> startswith a (f @ ''/'') \<or> startswith f (a @ ''/'')" using covers_comparable by blast
  obtain args where n: "AgentContract_new rep args = Inr c" using contract_from_new [OF c] by blast
  note parts = contract_new_parts [OF n]
  have na: "forward a = a" "rstrip_slash a = a" "base_path a = a"
    using path_forward [OF parts(1) a] base_literal [of a] l a by (auto simp: list_all_iff)
  have nf: "forward f = f" "rstrip_slash f = f" "base_path f = f"
    using path_forward [OF parts(2) f] base_literal [of f] l f by (auto simp: list_all_iff)
  from cmp have "paths_overlap a f" by (auto simp: paths_overlap_def Let_def na nf)
  with parts(3) a f show False by (auto simp: conflicts_def)
qed

section \<open>Reading a contract back\<close>

lemma round53_pos: "n \<noteq> 0 \<Longrightarrow> round53 n \<noteq> 0"
proof -
  assume n: "n \<noteq> 0"
  have "(2::nat) ^ (bit_length n - 53) \<le> 2 ^ (bit_length n - 1)" by (rule power_increasing) auto
  then have "2 ^ (bit_length n - 53) \<le> n" using bit_length_bound [OF n] by (rule order_trans)
  then have "n div 2 ^ (bit_length n - 53) \<noteq> 0" by (simp add: div_eq_0_iff)
  with n show ?thesis by (auto simp: round53_def Let_def)
qed

lemma float_of_int_sign: "float_of_int n = Some q \<Longrightarrow> (0 \<le> n \<longrightarrow> 0 \<le> q) \<and> (0 < n \<longrightarrow> 0 < q)"
  using round53_pos [of "nat n"] by (auto simp: float_of_int_def Let_def split: if_split_asm)

lemma backoff_nonneg: "backoff_arg v = Inr q \<Longrightarrow> 0 \<le> q"
  by (cases v rule: exact_number.cases)
     (auto simp: backoff_arg_def result_simps dest: float_of_int_sign split: if_split_asm option.split_asm)

lemma timeout_pos: "timeout_arg v = Inr q \<Longrightarrow> 0 < q"
  by (cases v rule: exact_number.cases)
     (auto simp: timeout_arg_def result_simps dest: float_of_int_sign split: if_split_asm option.split_asm)

lemma backoff_id: "0 \<le> q \<Longrightarrow> backoff_arg (PFloat (Fin q)) = Inr q"
  by (simp add: backoff_arg_def)

lemma timeout_id: "0 < q \<Longrightarrow> timeout_arg (PFloat (Fin q)) = Inr q"
  by (simp add: timeout_arg_def)

definition retry_valid :: "(pyval \<Rightarrow> string) \<Rightarrow> RetryPolicy \<Rightarrow> bool" where
  "retry_valid rep p \<longleftrightarrow> 1 \<le> max_attempts p \<and> max_attempts p \<le> MAX_RETRY_ATTEMPTS \<and> 0 \<le> backoff_seconds p
     \<and> list_all tidy (retryable_errors p) \<and> secret_free rep (RetryPolicy_to_dict p)"

lemma retry_new_parts: "RetryPolicy_new a b e = Inr p \<Longrightarrow>
    1 \<le> max_attempts p \<and> max_attempts p \<le> MAX_RETRY_ATTEMPTS \<and> 0 \<le> backoff_seconds p \<and> list_all tidy (retryable_errors p)"
  by (auto simp: RetryPolicy_new_def attempts_arg_def result_simps split: option.split_asm if_split_asm
      dest: backoff_nonneg contract_texts_tidy)

lemma plain_labels:
  "\<not> is_sensitive_label ''max_attempts''" "\<not> is_sensitive_label ''backoff_seconds''" "\<not> is_sensitive_label ''retryable_errors''"
  by code_simp+

lemma retry_from_valid: "RetryPolicy_from_dict rep v = Inr p \<Longrightarrow> retry_valid rep p"
proof (cases "v = PNone")
  case True
  moreover assume "RetryPolicy_from_dict rep v = Inr p"
  ultimately have "RetryPolicy_new (PInt 1) (PFloat (Fin 0)) (PList []) = Inr p" by (simp add: RetryPolicy_from_dict_def)
  moreover from this have "retryable_errors p = []" by (auto simp: RetryPolicy_new_def result_simps contract_texts_def)
  ultimately show ?thesis using retry_new_parts
    by (auto simp: retry_valid_def RetryPolicy_to_dict_def str_keyed_def plain_labels)
next
  case False
  moreover assume "RetryPolicy_from_dict rep v = Inr p"
  ultimately show ?thesis
    by (auto simp: RetryPolicy_from_dict_def result_simps retry_valid_def check_secrets_def dest: retry_new_parts)
qed

lemma retry_id: "retry_valid rep p \<Longrightarrow> RetryPolicy_from_dict rep (RetryPolicy_to_dict p) = Inr p"
proof -
  assume v: "retry_valid rep p"
  have m: "RetryPolicy_to_dict p \<noteq> PNone" by (simp add: RetryPolicy_to_dict_def)
  have t: "contract_texts (PList (map PStr (retryable_errors p))) = Inr (retryable_errors p)"
    using v contract_texts_id [of "retryable_errors p"] by (simp add: retry_valid_def pstrs_def)
  have n: "RetryPolicy_new (PInt (max_attempts p)) (PFloat (Fin (backoff_seconds p))) (PList (map PStr (retryable_errors p))) = Inr p"
    using v by (simp add: RetryPolicy_new_def attempts_arg_def backoff_id t retry_valid_def)
  have d: "as_mapping (RetryPolicy_to_dict p) = Some (str_keyed [(''max_attempts'', PInt (max_attempts p)),
     (''backoff_seconds'', PFloat (Fin (backoff_seconds p))), (''retryable_errors'', PList (map PStr (retryable_errors p)))])"
    by (simp add: RetryPolicy_to_dict_def)
  have c: "check_secrets rep (RetryPolicy_to_dict p) = Inr ()" using v by (simp add: check_secrets_def retry_valid_def)
  show ?thesis unfolding RetryPolicy_from_dict_def
    using v by (simp add: m d n t c) (simp add: str_keyed_def t n c attempts_arg_def backoff_id retry_valid_def)
qed

text \<open>An accepted contract and its dictionary.\<close>

definition contract_dict :: "AgentContract \<Rightarrow> pyval" where
  "contract_dict c = PDict (str_keyed [(''schema_version'', c_schema_version c), (''task_id'', PStr (c_task_id c)),
     (''agent_id'', PStr (c_agent_id c)), (''role'', PStr (c_role c)), (''capabilities'', pstrs (c_capabilities c)),
     (''context'', c_context c), (''constraints'', c_constraints c), (''allowed_paths'', pstrs (c_allowed_paths c)),
     (''forbidden_paths'', pstrs (c_forbidden_paths c)), (''expected_outputs'', c_expected_outputs c),
     (''validation_commands'', pstrs (c_validation_commands c)), (''timeout_seconds'', PFloat (Fin (c_timeout_seconds c))),
     (''retry_policy'', RetryPolicy_to_dict (c_retry_policy c))])"

lemma to_dict_safe: "AgentContract_to_dict c = json_safe (contract_dict c)"
  by (simp add: AgentContract_to_dict_def contract_dict_def)

lemma json_safe_json: "json_safe v = Inr w \<Longrightarrow> is_json w"
  by (auto simp: json_safe_def split: option.split_asm dest: json_copy_is_json)

lemma json_safe_id: "is_json v \<Longrightarrow> json_safe v = Inr v"
  by (simp add: json_safe_def json_copy_id)

definition contract_valid :: "(pyval \<Rightarrow> string) \<Rightarrow> AgentContract \<Rightarrow> bool" where
  "contract_valid rep c \<longleftrightarrow> tidy (c_task_id c) \<and> tidy (c_agent_id c) \<and> tidy (c_role c) \<and> list_all tidy (c_capabilities c)
     \<and> list_all tidy (c_validation_commands c) \<and> is_json (c_context c) \<and> is_json (c_constraints c) \<and> is_json (c_expected_outputs c)
     \<and> \<not> conflicts (c_allowed_paths c) (c_forbidden_paths c) \<and> 0 < c_timeout_seconds c \<and> retry_valid rep (c_retry_policy c)
     \<and> c_schema_version c = PStr CONTRACT_SCHEMA \<and> secret_free rep (contract_dict c)"

lemma contract_dict_json: "is_json (c_context c) \<Longrightarrow> is_json (c_constraints c) \<Longrightarrow> is_json (c_expected_outputs c) \<Longrightarrow>
    c_schema_version c = PStr CONTRACT_SCHEMA \<Longrightarrow> is_json (contract_dict c)"
  by (auto simp: contract_dict_def str_keyed_def pstrs_def RetryPolicy_to_dict_def)

lemma contract_new_valid:
  assumes "AgentContract_new rep a = Inr c"
  shows "contract_valid rep c"
proof -
  have "tidy (c_task_id c) \<and> tidy (c_agent_id c) \<and> tidy (c_role c) \<and> list_all tidy (c_capabilities c) \<and> list_all tidy (c_validation_commands c)"
    using assms by (auto simp: AgentContract_new_def result_simps Let_def dest: contract_text_tidy contract_texts_tidy)
  moreover have json: "is_json (c_context c) \<and> is_json (c_constraints c) \<and> is_json (c_expected_outputs c)"
    using assms by (auto simp: AgentContract_new_def result_simps Let_def dest: json_safe_json)
  moreover have "0 < c_timeout_seconds c \<and> retry_valid rep (c_retry_policy c)"
    using assms by (auto simp: AgentContract_new_def retry_arg_def result_simps Let_def dest: timeout_pos retry_from_valid split: sum.split_asm)
  moreover have s: "c_schema_version c = PStr CONTRACT_SCHEMA"
    using assms by (auto simp: AgentContract_new_def result_simps Let_def)
  moreover have "\<exists>d. AgentContract_to_dict c = Inr d \<and> secret_free rep d"
    using assms by (auto simp: AgentContract_new_def result_simps Let_def check_secrets_def)
  moreover from this have "secret_free rep (contract_dict c)"
    using json_safe_id [OF contract_dict_json [of c]] json s by (auto simp: to_dict_safe)
  ultimately show ?thesis using contract_new_parts(3) [OF assms] by (simp add: contract_valid_def)
qed

lemma contract_labels:
  "\<not> is_sensitive_label ''context''" "\<not> is_sensitive_label ''constraints''" "\<not> is_sensitive_label ''expected_outputs''"
  "\<not> is_sensitive_label ''validation_commands''"
  by code_simp+

lemma contract_read_back:
  assumes v: "contract_valid rep c"
    and pa: "contract_paths (pstrs (c_allowed_paths c)) = Inr (c_allowed_paths c)"
    and pf: "contract_paths (pstrs (c_forbidden_paths c)) = Inr (c_forbidden_paths c)"
  shows "AgentContract_from_dict rep (contract_dict c) = Inr c"
proof -
  let ?a = "\<lparr>arg_task_id = PStr (c_task_id c), arg_agent_id = PStr (c_agent_id c), arg_role = PStr (c_role c),
     arg_capabilities = pstrs (c_capabilities c), arg_context = c_context c, arg_constraints = c_constraints c,
     arg_allowed_paths = pstrs (c_allowed_paths c), arg_forbidden_paths = pstrs (c_forbidden_paths c),
     arg_expected_outputs = c_expected_outputs c, arg_validation_commands = pstrs (c_validation_commands c),
     arg_timeout = PFloat (Fin (c_timeout_seconds c)), arg_retry_policy = Inl (c_retry_policy c),
     arg_schema_version = c_schema_version c\<rparr>"
  have json: "is_json (c_context c)" "is_json (c_constraints c)" "is_json (c_expected_outputs c)" "c_schema_version c = PStr CONTRACT_SCHEMA"
    "is_json (contract_dict c)"
    using v contract_dict_json by (auto simp: contract_valid_def)
  have tidies: "tidy (c_task_id c)" "tidy (c_agent_id c)" "tidy (c_role c)" "list_all tidy (c_capabilities c)"
    "list_all tidy (c_validation_commands c)"
    using v by (simp_all add: contract_valid_def)
  have retry: "RetryPolicy_from_dict rep (RetryPolicy_to_dict (c_retry_policy c)) = Inr (c_retry_policy c)"
    using v by (intro retry_id) (simp add: contract_valid_def)
  have payload: "payload_arg rep [(''context'', c_context c), (''constraints'', c_constraints c),
      (''expected_outputs'', c_expected_outputs c), (''validation_commands'', pstrs (c_validation_commands c))] = Inr ()"
  proof -
    let ?p = "PDict (str_keyed [(''context'', c_context c), (''constraints'', c_constraints c),
      (''expected_outputs'', c_expected_outputs c), (''validation_commands'', pstrs (c_validation_commands c))])"
    have "is_json ?p" using json by (auto simp: str_keyed_def pstrs_def)
    moreover have "secret_free rep ?p" using v by (simp add: contract_valid_def contract_dict_def str_keyed_def)
    ultimately show ?thesis by (simp add: payload_arg_def json_safe_id check_secrets_def del: is_json.simps secret_free.simps)
  qed
  have c: "c = \<lparr>c_task_id = c_task_id c, c_agent_id = c_agent_id c, c_role = c_role c, c_capabilities = c_capabilities c,
      c_context = c_context c, c_constraints = c_constraints c, c_allowed_paths = c_allowed_paths c,
      c_forbidden_paths = c_forbidden_paths c, c_expected_outputs = c_expected_outputs c,
      c_validation_commands = c_validation_commands c, c_timeout_seconds = c_timeout_seconds c,
      c_retry_policy = c_retry_policy c, c_schema_version = PStr CONTRACT_SCHEMA\<rparr>" using json(4) by (cases c) simp
  have dict: "AgentContract_to_dict c = Inr (contract_dict c)" using json_safe_id [OF json(5)] by (simp add: to_dict_safe)
  have check: "check_secrets rep (contract_dict c) = Inr ()" using v by (simp add: check_secrets_def contract_valid_def)
  have new: "AgentContract_new rep ?a = Inr c"
    using v by (simp add: AgentContract_new_def retry_arg_def retry payload contract_text_id tidies contract_texts_id pa pf
        json_safe_id json timeout_id contract_valid_def Let_def c [symmetric] dict check)
  have req: "required_key d k = Inr ()" if "mget d k = Some (PStr s)" "tidy s" for d k s
    using that by (simp add: required_key_def tidy_def)
  show ?thesis
    using new req [OF _ tidies(1)] req [OF _ tidies(2)] req [OF _ tidies(3)]
    by (simp add: AgentContract_from_dict_def contract_dict_def str_keyed_def retry)
qed

text \<open>
  C25: an accepted contract none of whose paths, as normalised, begins or ends in white space has a
  dictionary, and the dictionary is read back as the same contract. (A path such as \<open>a /\<close> is accepted, loses
  its trailing slash and then ends in white space, which reading it again strips.)
\<close>

theorem contract_round_trip:
  assumes c: "AgentContract_from_dict rep v = Inr c"
    and t: "list_all (\<lambda>p. strip p = p) (c_allowed_paths c @ c_forbidden_paths c)"
  shows "\<exists>d. AgentContract_to_dict c = Inr d \<and> AgentContract_from_dict rep d = Inr c"
proof -
  obtain args where n: "AgentContract_new rep args = Inr c" using contract_from_new [OF c] by blast
  note v = contract_new_valid [OF n]
  then have "AgentContract_to_dict c = Inr (contract_dict c)"
    using json_safe_id [OF contract_dict_json [of c]] by (simp add: to_dict_safe contract_valid_def)
  moreover have "AgentContract_from_dict rep (contract_dict c) = Inr c"
    using contract_read_back [OF v] contract_paths_id contract_new_parts [OF n] t by simp
  ultimately show ?thesis by blast
qed

section \<open>A concrete contract\<close>

definition demo_contract_value :: "pyval \<Rightarrow> pyval \<Rightarrow> pyval" where
  "demo_contract_value allowed forbidden = PDict (str_keyed [(''task_id'', PStr ''t''), (''agent_id'', PStr ''t''), (''role'', PStr ''t''),
     (''allowed_paths'', allowed), (''forbidden_paths'', forbidden), (''timeout_seconds'', PFloat (Fin 5))])"

definition demo_contract :: "string list \<Rightarrow> string list \<Rightarrow> AgentContract" where
  "demo_contract allowed forbidden = \<lparr>c_task_id = ''t'', c_agent_id = ''t'', c_role = ''t'', c_capabilities = [], c_context = PDict [],
     c_constraints = PDict [], c_allowed_paths = allowed, c_forbidden_paths = forbidden, c_expected_outputs = PList [],
     c_validation_commands = [], c_timeout_seconds = 5,
     c_retry_policy = \<lparr>max_attempts = 1, backoff_seconds = 0, retryable_errors = []\<rparr>, c_schema_version = PStr ''1''\<rparr>"

lemma demo_labels:
  "\<not> is_sensitive_label ''schema_version''" "\<not> is_sensitive_label ''task_id''" "\<not> is_sensitive_label ''agent_id''"
  "\<not> is_sensitive_label ''role''" "\<not> is_sensitive_label ''capabilities''" "\<not> is_sensitive_label ''allowed_paths''"
  "\<not> is_sensitive_label ''forbidden_paths''" "\<not> is_sensitive_label ''timeout_seconds''" "\<not> is_sensitive_label ''retry_policy''"
  by code_simp+

lemma demo_texts:
  "secret_free rep (PStr ''t'')" "secret_free rep (PStr ''b'')" "secret_free rep (PStr ''c'')" "secret_free rep (PStr ''1'')"
  by code_simp+

lemma demo_contract_valid: "secret_free rep (pstrs ps) \<Longrightarrow> secret_free rep (pstrs fs) \<Longrightarrow> secret_free rep (contract_dict (demo_contract ps fs))"
  using demo_texts [of rep]
  by (simp add: contract_dict_def demo_contract_def str_keyed_def pstrs_def RetryPolicy_to_dict_def demo_labels contract_labels plain_labels)

lemma demo_contract_read:
  assumes ps: "contract_paths a = Inr ps" "contract_paths f = Inr fs" "\<not> conflicts ps fs"
    and s: "secret_free (\<lambda>_. []) (pstrs ps)" "secret_free (\<lambda>_. []) (pstrs fs)"
  shows "AgentContract_from_dict (\<lambda>_. []) (demo_contract_value a f) = Inr (demo_contract ps fs)"
proof -
  have t: "tidy ''t''" by (simp add: tidy_def blank_def strip_def is_space_def)
  have r: "RetryPolicy_from_dict (\<lambda>_. []) PNone = Inr \<lparr>max_attempts = 1, backoff_seconds = 0, retryable_errors = []\<rparr>"
    by (simp add: RetryPolicy_from_dict_def RetryPolicy_new_def attempts_arg_def backoff_id contract_texts_def MAX_RETRY_ATTEMPTS_def)
  note r' = retry_id [OF retry_from_valid [OF r]]
  have j: "is_json (contract_dict (demo_contract ps fs))" by (rule contract_dict_json) (simp_all add: demo_contract_def CONTRACT_SCHEMA_def)
  have d: "AgentContract_to_dict (demo_contract ps fs) = Inr (contract_dict (demo_contract ps fs))" using j by (simp add: to_dict_safe json_safe_id)
  have p: "payload_arg (\<lambda>_. []) [(''context'', PDict []), (''constraints'', PDict []), (''expected_outputs'', PList []),
      (''validation_commands'', PList [])] = Inr ()"
    by (simp add: payload_arg_def json_safe_def str_keyed_def check_secrets_def contract_labels)
  show ?thesis using d demo_contract_valid [OF s]
    by (simp add: demo_contract_value_def AgentContract_from_dict_def str_keyed_def required_key_def t [unfolded tidy_def] r
        AgentContract_new_def contract_text_id t contract_texts_def ps timeout_id retry_arg_def r' p json_safe_def
        demo_contract_def CONTRACT_SCHEMA_def check_secrets_def)
qed

lemma demo_read: "AgentContract_from_dict (\<lambda>_. []) (demo_contract_value (PList [PStr ''b/'']) (PList [PStr ''c'']))
    = Inr (demo_contract [''b''] [''c''])"
proof (rule demo_contract_read)
  show "contract_paths (PList [PStr ''b/'']) = Inr [''b'']" "contract_paths (PList [PStr ''c'']) = Inr [''c'']" "\<not> conflicts [''b''] [''c'']"
    by code_simp+
  show "secret_free (\<lambda>_. []) (pstrs [''b''])" "secret_free (\<lambda>_. []) (pstrs [''c''])" using demo_texts by (simp_all add: pstrs_def)
qed

theorem write_scope_disjoint_witness: "\<not> (covers ''b'' ''b/x'' \<and> covers ''c'' ''b/x'')"
  by (rule write_scope_disjoint [OF demo_read]) (simp_all add: demo_contract_def literal_def)

theorem contract_round_trip_witness: "\<exists>d. AgentContract_to_dict (demo_contract [''b''] [''c'']) = Inr d
    \<and> AgentContract_from_dict (\<lambda>_. []) d = Inr (demo_contract [''b''] [''c''])"
  by (rule contract_round_trip [OF demo_read]) (simp add: demo_contract_def strip_def is_space_def)

text \<open>
  Patterns on both sides escape the check: an allowed and a forbidden pattern that match the same file are
  accepted together.
\<close>

theorem glob_overlap_missed:
  "AgentContract_from_dict (\<lambda>_. []) (demo_contract_value (PList [PStr ''a*c'']) (PList [PStr ''ab*'']))
     = Inr (demo_contract [''a*c''] [''ab*'']) \<and> fnmatchcase ''abc'' ''a*c'' \<and> fnmatchcase ''abc'' ''ab*''"
proof (intro conjI demo_contract_read)
  show "contract_paths (PList [PStr ''a*c'']) = Inr [''a*c'']" "contract_paths (PList [PStr ''ab*'']) = Inr [''ab*'']"
    "\<not> conflicts [''a*c''] [''ab*'']" "fnmatchcase ''abc'' ''a*c''" "fnmatchcase ''abc'' ''ab*''"
    by code_simp+
  show "secret_free (\<lambda>_. []) (pstrs [''a*c''])" "secret_free (\<lambda>_. []) (pstrs [''ab*''])" by code_simp+
qed

end
