(* ===== verification/ReportProperties.thy ===== *)
theory ReportProperties
  imports ContractProperties
begin

text \<open>
  What an accepted V2 report guarantees: identity, attempt, capabilities, times in order, fields without
  sensitive keys, and a bounded error text.
\<close>

section \<open>Redacted values\<close>

text \<open>JSON values whose keys are non-empty and not sensitive, at any depth.\<close>

function (sequential) report_safe :: "pyval \<Rightarrow> bool" where
  "report_safe (PDict d) = (\<forall>kv \<in> set d. (case as_str (fst kv) of None \<Rightarrow> False | Some k \<Rightarrow> k \<noteq> [] \<and> \<not> is_sensitive_label k) \<and> report_safe (snd kv))"
| "report_safe (PList xs) = (\<forall>x \<in> set xs. report_safe x)"
| "report_safe (PFloat f) = (as_finite f \<noteq> None)"
| "report_safe (PProxy d) = False"
| "report_safe (PTuple xs) = False"
| "report_safe (POther n) = False"
| "report_safe v = True"
  by pat_completeness auto
termination
  by (relation "measure size")
     (auto dest: py_pair_size size_list_estimation' [of _ _ _ size, OF _ order_refl] simp: less_Suc_eq_le)

abbreviation redact_item :: "pyval \<times> pyval \<Rightarrow> (string \<times> pyval) cres" where
  "redact_item kv \<equiv> (case as_str (fst kv) of
       None \<Rightarrow> Inl ContractValidationError
     | Some k \<Rightarrow> if k = [] \<or> is_sensitive_label k then Inl ContractValidationError
         else bindR (redact_report_value (snd kv)) (\<lambda>v. Inr (k, v)))"

lemma redact_item_safe:
  assumes its: "mapR redact_item d = Inr its"
    and IH: "\<And>kv k w. kv \<in> set d \<Longrightarrow> fst kv = PStr k \<Longrightarrow> k \<noteq> [] \<Longrightarrow> \<not> is_sensitive_label k \<Longrightarrow>
        redact_report_value (snd kv) = Inr w \<Longrightarrow> report_safe w"
  shows "report_safe (PDict (str_keyed (sort_key fst its)))"
proof -
  have "fst it \<noteq> [] \<and> \<not> is_sensitive_label (fst it) \<and> report_safe (snd it)" if "it \<in> set its" for it
    using mapR_set [OF its that] IH by (auto simp: result_simps split: option.split_asm if_split_asm)
  then show ?thesis by (auto simp: str_keyed_def)
qed

lemma redact_report_safe: "redact_report_value v = Inr w \<Longrightarrow> report_safe w"
proof (induction v arbitrary: w rule: redact_report_value.induct)
  case (1 d)
  then obtain its where its: "mapR redact_item d = Inr its" and w: "w = PDict (str_keyed (sort_key fst its))"
    by (auto simp: result_simps)
  show ?case unfolding w by (rule redact_item_safe [OF its]) (use "1.IH" in auto)
next
  case (2 d)
  then obtain its where its: "mapR redact_item d = Inr its" and w: "w = PDict (str_keyed (sort_key fst its))"
    by (auto simp: result_simps)
  show ?case unfolding w by (rule redact_item_safe [OF its]) (use "2.IH" in auto)
next
  case (3 xs)
  then obtain ys where w: "w = PList ys" and ys: "mapR redact_report_value xs = Inr ys" by (auto simp: result_simps)
  then show ?case using mapR_set [OF ys] "3.IH" by auto
next
  case (4 xs)
  then obtain ys where w: "w = PList ys" and ys: "mapR redact_report_value xs = Inr ys" by (auto simp: result_simps)
  then show ?case using mapR_set [OF ys] "4.IH" by auto
qed (auto split: if_split_asm)

lemma redact_field_safe: "redact_field v = Inr w \<Longrightarrow> report_safe w"
  by (auto simp: redact_field_def split: if_split_asm dest: redact_report_safe)

lemma sanitize_error_bounded: "sanitize_error v \<noteq> [] \<and> length (sanitize_error v) \<le> 2000"
  by (simp add: sanitize_error_def Let_def agent_error_def)

lemma redact_v2_safe:
  assumes "redact_v2 a = Inr b"
  shows "list_all report_safe [va_outputs b, va_evidence b, va_tests b, va_validation b, va_decision b, va_reason b, va_error b,
      va_blocker b, va_diagnostics b, va_retry b, va_metadata b, va_extensions b]
    \<and> (va_error b = PNone \<or> (\<exists>e. va_error b = PStr e \<and> e \<noteq> [] \<and> length e \<le> 2000))"
proof
  show "list_all report_safe [va_outputs b, va_evidence b, va_tests b, va_validation b, va_decision b, va_reason b, va_error b,
      va_blocker b, va_diagnostics b, va_retry b, va_metadata b, va_extensions b]"
    using assms unfolding redact_v2_def bindR_eq_Inr
    by - (elim exE conjE, (drule redact_field_safe)+, drule sum.inject(2) [THEN iffD1], erule subst, simp)
  show "va_error b = PNone \<or> (\<exists>e. va_error b = PStr e \<and> e \<noteq> [] \<and> length e \<le> 2000)"
    using assms unfolding redact_v2_def bindR_eq_Inr
    by - (elim exE conjE, drule sum.inject(2) [THEN iffD1], erule subst, simp add: sanitize_error_bounded)
qed

section \<open>Accepted reports\<close>

lemma new_v2_parts:
  assumes "AgentReportV2_new readt rep a = Inr r"
  obtains b s t cs where "redact_v2 a = Inr b" "report_instant readt (va_started_at a) = Inr s" "report_instant readt (va_completed_at a) = Inr t"
    "s \<le> t" "as_sequence (va_capabilities a) = Some cs" "list_all nonblank cs"
    "v_started_at r = text_of (va_started_at a)" "v_completed_at r = text_of (va_completed_at a)"
    "v_task_id r = text_of (va_task_id a)" "v_agent_id r = text_of (va_agent_id a)" "v_role r = text_of (va_role a)"
    "v_capabilities r = map text_of cs" "va_status a = PStr (v_status r)" "v_status r \<in> set V2_STATUSES"
    "as_int (va_attempt a) = Some (v_attempt r)" "1 \<le> v_attempt r"
    "[v_outputs r, v_evidence r, v_tests r, v_validation r, v_decision r, v_reason r, v_error r, v_blocker r, v_diagnostics r,
      v_retry r, v_metadata r, v_extensions r] = [va_outputs b, va_evidence b, va_tests b, va_validation b, va_decision b,
      va_reason b, va_error b, va_blocker b, va_diagnostics b, va_retry b, va_metadata b, va_extensions b]"
  using assms
  by (auto simp: AgentReportV2_new_def result_simps detached_def text_of_def split: if_split_asm option.split_asm)

lemma text_of_PStr [simp]: "text_of (PStr s) = s"
  by (simp add: text_of_def)

lemma nonblank_tidy: "nonblank v \<Longrightarrow> tidy (strip (text_of v))"
  by (auto simp: nonblank_def text_of_def tidy_def blank_def split: option.split_asm)

text \<open>
  C26: an accepted V2 report has tidy identities, a positive attempt, a terminal status, sorted capabilities
  that are not blank, an end that is not before its start, fields without sensitive keys at any depth and an
  error text of at most 2000 characters; and its payload was complete for its status.
\<close>

theorem report_v2_accepted:
  assumes "parse_agent_report_v2 readt show rep reject v = Inr r"
  shows "tidy (v_task_id r) \<and> tidy (v_agent_id r) \<and> tidy (v_role r) \<and> 1 \<le> v_attempt r \<and> v_status r \<in> set V2_STATUSES
    \<and> sorted (v_capabilities r) \<and> list_all (\<lambda>s. \<not> blank s) (v_capabilities r)
    \<and> (\<exists>s t. report_instant readt (PStr (v_started_at r)) = Inr s \<and> report_instant readt (PStr (v_completed_at r)) = Inr t \<and> s \<le> t)
    \<and> list_all report_safe [v_outputs r, v_evidence r, v_tests r, v_validation r, v_decision r, v_reason r, v_error r, v_blocker r,
        v_diagnostics r, v_retry r, v_metadata r, v_extensions r]
    \<and> (v_error r = PNone \<or> (\<exists>e. v_error r = PStr e \<and> e \<noteq> [] \<and> length e \<le> 2000))
    \<and> (\<exists>raw d p. as_mapping v = Some raw \<and> collect_unknown reject raw = Inr d \<and> report_payload d = Inr p
        \<and> payload_complete (v_status r) (\<lambda>k. dget_or p k PNone))"
proof -
  obtain raw d p cs started completed a where raw: "as_mapping v = Some raw" and d: "collect_unknown reject raw = Inr d"
    and p: "report_payload d = Inr p" and pc: "payload_complete (text_of (mget_or d ''status'' PNone)) (\<lambda>k. dget_or p k PNone)"
    and cs: "list_all nonblank cs" and new: "AgentReportV2_new readt rep a = Inr r"
    and ids: "nonblank (mget_or d ''task_id'' PNone)" "nonblank (report_agent d)" "nonblank (mget_or d ''role'' PNone)"
    and a: "va_task_id a = PStr (strip (text_of (mget_or d ''task_id'' PNone)))" "va_agent_id a = PStr (strip (text_of (report_agent d)))"
      "va_role a = PStr (strip (text_of (mget_or d ''role'' PNone)))" "va_capabilities a = PTuple (map PStr (sort (map text_of cs)))"
      "va_status a = mget_or d ''status'' PNone" "va_started_at a = PStr started" "va_completed_at a = PStr completed"
    using assms that
    by (auto simp: parse_agent_report_v2_def result_simps Let_def split: if_split_asm option.split_asm)
  from new show ?thesis
  proof (rule new_v2_parts)
    fix b s t cs'
    assume b: "redact_v2 a = Inr b" and s: "report_instant readt (va_started_at a) = Inr s" and t: "report_instant readt (va_completed_at a) = Inr t"
      and st: "s \<le> t" and cs': "as_sequence (va_capabilities a) = Some cs'"
      and r: "v_started_at r = text_of (va_started_at a)" "v_completed_at r = text_of (va_completed_at a)"
        "v_task_id r = text_of (va_task_id a)" "v_agent_id r = text_of (va_agent_id a)" "v_role r = text_of (va_role a)"
        "v_capabilities r = map text_of cs'" "va_status a = PStr (v_status r)" "v_status r \<in> set V2_STATUSES" "1 \<le> v_attempt r"
      and fields: "[v_outputs r, v_evidence r, v_tests r, v_validation r, v_decision r, v_reason r, v_error r, v_blocker r, v_diagnostics r,
          v_retry r, v_metadata r, v_extensions r] = [va_outputs b, va_evidence b, va_tests b, va_validation b, va_decision b,
          va_reason b, va_error b, va_blocker b, va_diagnostics b, va_retry b, va_metadata b, va_extensions b]"
    have caps: "v_capabilities r = sort (map text_of cs)" using r(6) cs' a(4) by (auto simp: comp_def)
    have "list_all (\<lambda>s. \<not> blank s) (v_capabilities r)"
      unfolding caps using cs by (auto simp: list_all_iff nonblank_def text_of_def split: option.split_asm)
    moreover have "list_all report_safe [v_outputs r, v_evidence r, v_tests r, v_validation r, v_decision r, v_reason r, v_error r, v_blocker r,
        v_diagnostics r, v_retry r, v_metadata r, v_extensions r]"
      unfolding fields using redact_v2_safe [OF b] by blast
    moreover have "v_error r = PNone \<or> (\<exists>e. v_error r = PStr e \<and> e \<noteq> [] \<and> length e \<le> 2000)"
      using fields redact_v2_safe [OF b] by simp
    moreover have "tidy (v_task_id r) \<and> tidy (v_agent_id r) \<and> tidy (v_role r)" using r(3-5) a(1-3) ids nonblank_tidy by simp
    moreover have "\<exists>s t. report_instant readt (PStr (v_started_at r)) = Inr s \<and> report_instant readt (PStr (v_completed_at r)) = Inr t \<and> s \<le> t"
      using s t st r(1,2) a(6,7) by auto
    moreover have "payload_complete (v_status r) (\<lambda>k. dget_or p k PNone)" proof -
      have "mget_or d ''status'' PNone = PStr (v_status r)" using a(5) r(7) by simp
      with pc show ?thesis by simp
    qed
    ultimately show ?thesis using raw d p r(8,9) by (simp only: caps sorted_sort simp_thms) blast
  qed
qed

definition demo_items :: pymap where
  "demo_items = str_keyed [(''schema_version'', PStr REPORT_V2_SCHEMA), (''task_id'', PStr ''t''), (''attempt'', PInt 2),
     (''agent_id'', PStr ''t''), (''role'', PStr ''t''), (''capabilities'', PList []), (''status'', PStr ''failed''),
     (''reason'', PBool True), (''evidence'', PBool True),
     (''timestamps'', PDict (str_keyed [(''started_at'', PStr ''2024-01-01T00:00:00Z''), (''completed_at'', PStr ''2024-01-01T00:00:00Z'')]))]"

definition demo_read :: "string \<Rightarrow> int option" where "demo_read s = Some 0"
definition demo_show :: "int \<Rightarrow> string option" where "demo_show t = Some ''2024-01-01T00:00:00+00:00''"

lemma demo_redaction:
  "redact_report_value (PStr REPORT_V2_SCHEMA) = Inr (PStr REPORT_V2_SCHEMA)" "redact_report_value (PStr ''t'') = Inr (PStr ''t'')"
  "redact_report_value (PStr ''failed'') = Inr (PStr ''failed'')"
  by code_simp+

lemma demo_stamp: "report_timestamp (PStr ''2024-01-01T00:00:00Z'') = Inr ''2024-01-01T00:00:00Z''"
  by code_simp

lemma demo_utc: "utc_text demo_read demo_show ''2024-01-01T00:00:00Z'' = Inr ''2024-01-01T00:00:00Z''"
  by code_simp

lemma demo_report_times: "report_times demo_read demo_show demo_items = Inr (''2024-01-01T00:00:00Z'', ''2024-01-01T00:00:00Z'')"
  by (simp add: report_times_def demo_items_def str_keyed_def str_in_def present_def same_instant_def demo_stamp demo_utc Let_def)

lemma demo_report_payload: "report_payload demo_items = Inr [(''schema_version'', PStr REPORT_V2_SCHEMA), (''task_id'', PStr ''t''), (''attempt'', PInt 2),
     (''agent_id'', PStr ''t''), (''role'', PStr ''t''), (''capabilities'', PList []), (''status'', PStr ''failed''),
     (''reason'', PBool True), (''evidence'', PBool True)]"
  using demo_redaction
  by (simp add: report_payload_def demo_items_def str_keyed_def str_in_def REPORT_V2_FIELDS_def del: redact_report_value.simps(5))

definition demo_args :: v2_args where
  "demo_args = \<lparr>va_schema_version = PStr REPORT_V2_SCHEMA, va_task_id = PStr ''t'', va_attempt = PInt 2, va_agent_id = PStr ''t'',
     va_role = PStr ''t'', va_capabilities = PTuple [], va_status = PStr ''failed'', va_outputs = PNone, va_evidence = PBool True,
     va_tests = PNone, va_validation = PNone, va_decision = PNone, va_started_at = PStr ''2024-01-01T00:00:00Z'',
     va_completed_at = PStr ''2024-01-01T00:00:00Z'', va_agent = PNone, va_reason = PBool True, va_error = PNone, va_blocker = PNone,
     va_diagnostics = PNone, va_retry = PNone, va_metadata = PNone, va_extensions = PNone\<rparr>"

lemma demo_new: "\<exists>r. AgentReportV2_new demo_read (\<lambda>_. []) demo_args = Inr r \<and> v_status r = ''failed'' \<and> v_reason r = PBool True"
proof -
  have l: "\<not> is_sensitive_label ''evidence''" "\<not> is_sensitive_label ''reason''" by code_simp+
  have i: "report_instant demo_read (PStr ''2024-01-01T00:00:00Z'') = Inr 0"
    by (simp add: report_instant_def demo_stamp read_instant_def demo_read_def)
  have n: "\<not> blank ''t''" by (simp add: blank_def strip_def is_space_def)
  show ?thesis
    by (simp add: AgentReportV2_new_def demo_args_def v2_identity_def nonblank_def V2_STATUSES_def detached_def i terminal_complete_def
        validate_report_retry_def v2_payload_def payload_arg_def json_safe_def check_secrets_def str_keyed_def l redact_v2_def
        redact_field_def is_str_def Let_def n)
qed

lemma demo_parse: "\<exists>r. parse_agent_report_v2 demo_read demo_show (\<lambda>_. []) True (PDict demo_items) = Inr r \<and> v_status r = ''failed'' \<and> v_reason r = PBool True"
proof -
  have t: "strip ''t'' = ''t''" "\<not> blank ''t''" by (simp_all add: blank_def strip_def is_space_def)
  have u: "collect_unknown True demo_items = Inr demo_items"
    by (simp add: collect_unknown_def unknown_items_def demo_items_def str_keyed_def str_in_def REPORT_V2_FIELDS_def)
  have get: "mget_or demo_items ''schema_version'' PNone = PStr REPORT_V2_SCHEMA" "mget_or demo_items ''status'' PNone = PStr ''failed''"
    "mget_or demo_items ''task_id'' PNone = PStr ''t''" "mget_or demo_items ''attempt'' PNone = PInt 2" "mget_or demo_items ''role'' PNone = PStr ''t''"
    "mget_or demo_items ''capabilities'' PNone = PList []" "mget_or demo_items ''agent'' PNone = PNone" "report_agent demo_items = PStr ''t''"
    "agent_aliases_agree demo_items"
    by (simp_all add: demo_items_def str_keyed_def report_agent_def agent_aliases_agree_def)
  show ?thesis using demo_new
    by (simp add: parse_agent_report_v2_def u get str_in_def V2_STATUSES_def nonblank_def t demo_report_times demo_report_payload payload_complete_def
        dget_or_def Let_def validate_report_retry_def demo_args_def)
qed

theorem report_v2_accepted_witness:
  "\<exists>r. parse_agent_report_v2 demo_read demo_show (\<lambda>_. []) True (PDict demo_items) = Inr r \<and> v_status r = ''failed'' \<and> 1 \<le> v_attempt r"
  using demo_parse report_v2_accepted [of demo_read demo_show "\<lambda>_. []" True "PDict demo_items"] by blast

end
