(* ===== verification/FleetText.thy ===== *)
theory FleetText
  imports AgentReports SafeRendering
begin

text \<open>
  How \<open>scripts/pd_fleet/orchestrator.py\<close> copies and redacts the values that enter and leave a run: the
  strict copy of untrusted mappings, the runtime spelling of V2 keys, and the texts and payloads that go
  into reports, hooks and checkpoints. Values cannot be cyclic here.
\<close>

section \<open>Copies of untrusted values\<close>

text \<open>\<open>None\<close> is the \<open>ValueError\<close> of a value that is not JSON with non-blank keys.\<close>

function (sequential) strict_copy :: "pyval \<Rightarrow> pyval option" where
  "strict_copy (PDict d) = map_option PDict (those (map (\<lambda>kv. case as_str (fst kv) of
       None \<Rightarrow> None
     | Some k \<Rightarrow> if blank k then None else map_option (Pair (fst kv)) (strict_copy (snd kv))) d))"
| "strict_copy (PProxy d) = map_option PDict (those (map (\<lambda>kv. case as_str (fst kv) of
       None \<Rightarrow> None
     | Some k \<Rightarrow> if blank k then None else map_option (Pair (fst kv)) (strict_copy (snd kv))) d))"
| "strict_copy (PList xs) = map_option PList (those (map strict_copy xs))"
| "strict_copy (PTuple xs) = map_option PList (those (map strict_copy xs))"
| "strict_copy (PFloat f) = (if as_finite f = None then None else Some (PFloat f))"
| "strict_copy (POther n) = None"
| "strict_copy v = Some v"
  by pat_completeness auto
termination
  by (relation "measure size")
     (auto dest: py_pair_size size_list_estimation' [of _ _ _ size, OF _ order_refl] simp: less_Suc_eq_le)

definition V2_KEY_ALIASES :: "string dict" where
  "V2_KEY_ALIASES = [(''schemaVersion'', ''schema_version''), (''planHash'', ''plan_hash''), (''runId'', ''run_id''),
     (''taskId'', ''task_id''), (''agentId'', ''agent_id''), (''maxParallel'', ''max_parallel''),
     (''eventSequence'', ''event_sequence''), (''checkpointId'', ''checkpoint_id''), (''leaseId'', ''lease_id''),
     (''dependsOn'', ''depends_on''), (''allowedPaths'', ''allowed_paths''),
     (''acceptanceCriteria'', ''acceptance_criteria''), (''validationCommands'', ''validation_commands''),
     (''blockedWhen'', ''blocked_when''), (''retryPolicy'', ''retry_policy''), (''maxAttempts'', ''max_attempts''),
     (''backoffSeconds'', ''backoff_seconds''), (''retryableErrors'', ''retryable_errors''), (''agentRole'', ''agent_role'')]"

definition runtime_key :: "pyval \<Rightarrow> pyval" where
  "runtime_key k = (case as_str k of None \<Rightarrow> k | Some s \<Rightarrow> PStr (dget_or V2_KEY_ALIASES s s))"

text \<open>Keys in order; \<open>None\<close> when two spellings of one key disagree.\<close>

fun alias_items :: "(pyval \<times> pyval) list \<Rightarrow> pymap \<Rightarrow> pymap option" where
  "alias_items [] r = Some r"
| "alias_items ((k, v) # its) r =
     (case map_of r k of
        Some w \<Rightarrow> if \<not> py_eq w v then None else alias_items its (mset_key k v r)
      | None \<Rightarrow> alias_items its (mset_key k v r))"

function (sequential) runtime_aliases :: "pyval \<Rightarrow> pyval option" where
  "runtime_aliases (PDict d) = (case those (map (\<lambda>kv. map_option (Pair (runtime_key (fst kv))) (runtime_aliases (snd kv))) d) of
       None \<Rightarrow> None | Some its \<Rightarrow> map_option PDict (alias_items its []))"
| "runtime_aliases (PProxy d) = (case those (map (\<lambda>kv. map_option (Pair (runtime_key (fst kv))) (runtime_aliases (snd kv))) d) of
       None \<Rightarrow> None | Some its \<Rightarrow> map_option PDict (alias_items its []))"
| "runtime_aliases (PList xs) = map_option PList (those (map runtime_aliases xs))"
| "runtime_aliases v = Some v"
  by pat_completeness auto
termination
  by (relation "measure size")
     (auto dest: py_pair_size size_list_estimation' [of _ _ _ size, OF _ order_refl] simp: less_Suc_eq_le)

section \<open>Redacted texts\<close>

definition FLEET_PATH :: regex where
  "FLEET_PATH = (let body = plus (Cls (not_in (quotes @ ''<>;,'')))
     in Seq (NotAfter (\<lambda>c. word_char c \<or> c = CHR ''.''))
       (alts [seqs [Cls (\<lambda>c. in_range 65 90 c \<or> in_range 97 122 c), lit '':'', Cls (one_of [CHR 0x5C, CHR ''/'']), body],
          Seq (lit ''/'') body, Seq (lit [CHR 0x5C, CHR 0x5C]) body]))"

definition FLEET_SECRET :: regex where
  "FLEET_SECRET = Seq WordBoundary (Alt
     (seqs [ilit ''bearer'', plus (Cls is_space), plus (Cls (\<lambda>c. \<not> is_space c))])
     (Seq (ilit ''sk-'') (plus (Cls (\<lambda>c. ascii_alnum c \<or> one_of ''_-'' c)))))"

definition FLEET_SENSITIVE :: "string list" where
  "FLEET_SENSITIVE = [''secret'', ''token'', ''password'', ''credential'', ''apikey'', ''accesskey'', ''privatekey'',
     ''authorization'', ''bearer'']"

definition contains :: "string \<Rightarrow> string \<Rightarrow> bool" where
  "contains s w \<longleftrightarrow> list_ex (\<lambda>i. startswith (drop i s) w) [0..<Suc (length s)]"

definition sensitive_word :: "string \<Rightarrow> bool" where
  "sensitive_word s \<longleftrightarrow> list_ex (contains s) FLEET_SENSITIVE"

definition ASSIGNED_KEY :: regex where
  "ASSIGNED_KEY = seqs [NotAfter ascii_alnum, Cls (\<lambda>c. in_range 65 90 c \<or> in_range 97 122 c),
     Rep 1 (Some 80) (Cls (\<lambda>c. ascii_alnum c \<or> one_of ''_.-'' c))]"

definition assignment_match :: "string \<Rightarrow> nat \<Rightarrow> (nat \<times> nat) option" where
  "assignment_match s i = (case [(a, e). a \<leftarrow> ends ASSIGNED_KEY s i, b \<leftarrow> ends SEPARATOR s a,
       e \<leftarrow> ends (plus (Cls (not_in '',;''))) s b] of [] \<Rightarrow> None | m # _ \<Rightarrow> Some m)"

fun sanitize_assignments :: "string \<Rightarrow> nat \<Rightarrow> nat \<Rightarrow> string" where
  "sanitize_assignments s 0 i = drop i s"
| "sanitize_assignments s (Suc n) i = (if length s \<le> i then [] else
     case assignment_match s i of
       None \<Rightarrow> s ! i # sanitize_assignments s n (Suc i)
     | Some (a, e) \<Rightarrow>
         (if sensitive_word (filter (\<lambda>c. c \<noteq> CHR ''_'' \<and> c \<noteq> CHR ''-'') (lower (slice i a s)))
          then slice i a s @ ''=[redacted-secret]'' else slice i e s) @ sanitize_assignments s n (max e (Suc i)))"

definition sanitize_str :: "string \<Rightarrow> string" where
  "sanitize_str s = (let t = re_sub Eps EXTERNAL_URL ''[redacted-url]'' s;
       t = re_sub Eps FLEET_PATH ''[redacted-path]'' t;
       t = re_sub Eps FLEET_SECRET ''[redacted-secret]'' t
     in sanitize_assignments t (Suc (length t)) 0)"

text \<open>\<open>_sanitize_text(value, default)\<close>.\<close>

definition sanitize_text :: "pyval \<Rightarrow> string option \<Rightarrow> string option" where
  "sanitize_text v dflt = (if v = PNone then dflt else
     case (case as_str v of Some s \<Rightarrow> Some s | None \<Rightarrow> dflt) of None \<Rightarrow> dflt | Some t \<Rightarrow> Some (sanitize_str t))"

text \<open>\<open>_sanitize_text(value, default) or default\<close> for a text default.\<close>

definition sanitize_or :: "pyval \<Rightarrow> string \<Rightarrow> string" where
  "sanitize_or v dflt = (case sanitize_text v (Some dflt) of None \<Rightarrow> dflt | Some t \<Rightarrow> if t = [] then dflt else t)"

section \<open>Redacted payloads\<close>

definition plain_letters :: "string \<Rightarrow> string" where
  "plain_letters s = filter (\<lambda>c. is_lower c \<or> is_num c) (lower s)"

definition payload_name :: "pyval \<Rightarrow> string" where
  "payload_name k = sanitize_or k ''key''"

text \<open>The items put into a new dictionary one after another.\<close>

definition collect_items :: "(pyval \<times> pyval) list \<Rightarrow> pymap" where
  "collect_items its = fold (\<lambda>kv r. mset_key (fst kv) (snd kv) r) its []"

function (sequential) sanitize_payload :: "pyval \<Rightarrow> pyval" where
  "sanitize_payload (PDict d) = PDict (collect_items (map (\<lambda>kv. (PStr (payload_name (fst kv)),
     if sensitive_word (plain_letters (payload_name (fst kv))) then PStr ''[redacted-secret]'' else sanitize_payload (snd kv))) d))"
| "sanitize_payload (PProxy d) = PDict (collect_items (map (\<lambda>kv. (PStr (payload_name (fst kv)),
     if sensitive_word (plain_letters (payload_name (fst kv))) then PStr ''[redacted-secret]'' else sanitize_payload (snd kv))) d))"
| "sanitize_payload (PList xs) = PList (map sanitize_payload xs)"
| "sanitize_payload (PTuple xs) = PList (map sanitize_payload xs)"
| "sanitize_payload (PStr s) = PStr (sanitize_str s)"
| "sanitize_payload (PFloat f) = (if as_finite f = None then PNone else PFloat f)"
| "sanitize_payload (POther n) = PStr (sanitize_or (POther n) ''[redacted-value]'')"
| "sanitize_payload v = v"
  by pat_completeness auto
termination
  by (relation "measure size")
     (auto dest: py_pair_size size_list_estimation' [of _ _ _ size, OF _ order_refl] simp: less_Suc_eq_le)

section \<open>What a redacted payload contains\<close>

text \<open>JSON with text keys, and nothing but a mark under a key with a sensitive word.\<close>

function (sequential) payload_clean :: "pyval \<Rightarrow> bool" where
  "payload_clean (PDict d) = (\<forall>kv \<in> set d. is_str (fst kv) \<and> payload_clean (snd kv)
     \<and> (\<forall>k. fst kv = PStr k \<longrightarrow> sensitive_word (plain_letters k) \<longrightarrow> snd kv = PStr ''[redacted-secret]''))"
| "payload_clean (PProxy d) = False"
| "payload_clean (PList xs) = (\<forall>x \<in> set xs. payload_clean x)"
| "payload_clean (PTuple xs) = False"
| "payload_clean (PFloat f) = (as_finite f \<noteq> None)"
| "payload_clean (POther n) = False"
| "payload_clean v = True"
  by pat_completeness auto
termination
  by (relation "measure size")
     (auto dest: py_pair_size size_list_estimation' [of _ _ _ size, OF _ order_refl] simp: less_Suc_eq_le)

lemma mset_key_items: "y \<in> set (mset_key k v r) \<Longrightarrow> y = (k, v) \<or> y \<in> set r"
  by (induction r) (auto simp: mset_key_def split: if_splits)

lemma mset_key_nonempty [simp]: "mset_key k v r \<noteq> []"
  by (cases r) (auto simp: mset_key_def)

lemma fold_items: "y \<in> set (fold (\<lambda>kv r. mset_key (fst kv) (snd kv) r) its r) \<Longrightarrow> y \<in> set its \<or> y \<in> set r"
  by (induction its arbitrary: r) (fastforce dest: mset_key_items)+

lemma collect_items_subset: "set (collect_items its) \<subseteq> set its"
  using fold_items by (fastforce simp: collect_items_def)

lemma fold_items_nonempty: "r \<noteq> [] \<Longrightarrow> fold (\<lambda>kv r. mset_key (fst kv) (snd kv) r) its r \<noteq> []"
  by (induction its arbitrary: r) simp_all

lemma collect_items_nonempty: "its \<noteq> [] \<Longrightarrow> collect_items its \<noteq> []"
  by (cases its) (simp_all add: collect_items_def fold_items_nonempty)

lemma collected_clean: "(\<And>kv. kv \<in> set its \<Longrightarrow> is_str (fst kv) \<and> payload_clean (snd kv)
     \<and> (\<forall>k. fst kv = PStr k \<longrightarrow> sensitive_word (plain_letters k) \<longrightarrow> snd kv = PStr ''[redacted-secret]''))
   \<Longrightarrow> payload_clean (PDict (collect_items its))"
  using collect_items_subset [of its] by fastforce

lemma sanitize_payload_clean: "payload_clean (sanitize_payload v)"
proof (induction v rule: sanitize_payload.induct)
  case (1 d)
  show ?case unfolding sanitize_payload.simps by (rule collected_clean) (use 1 in \<open>auto simp: is_str_def\<close>)
next
  case (2 d)
  show ?case unfolding sanitize_payload.simps by (rule collected_clean) (use 2 in \<open>auto simp: is_str_def\<close>)
qed auto

end
