(* ===== verification/Procedure.thy ===== *)
theory Procedure
  imports Prelude "HOL-Library.Monad_Syntax"
begin

text \<open>
  Procedures that change a state, may raise an exception and may fail to return. The state at the time of
  an exception is kept, as an object that a method has changed stays changed. \<open>None\<close> is a loop that does
  not end. \<open>triple\<close> is partial correctness with a postcondition for normal and one for exceptional exits.
\<close>

type_synonym ('s, 'e, 'a) proc = "'s \<Rightarrow> (('e, 'a) result \<times> 's) option"

definition liftP :: "('e, 'a) result \<Rightarrow> ('s, 'e, 'a) proc" where
  "liftP r s = Some (r, s)"

definition retP :: "'a \<Rightarrow> ('s, 'e, 'a) proc" where
  "retP a s = Some (Inr a, s)"

definition raiseP :: "'e \<Rightarrow> ('s, 'e, 'a) proc" where
  "raiseP e s = Some (Inl e, s)"

definition getP :: "('s \<Rightarrow> 'a) \<Rightarrow> ('s, 'e, 'a) proc" where
  "getP f s = Some (Inr (f s), s)"

definition modP :: "('s \<Rightarrow> 's) \<Rightarrow> ('s, 'e, unit) proc" where
  "modP f s = Some (Inr (), f s)"

definition bindP :: "('s, 'e, 'a) proc \<Rightarrow> ('a \<Rightarrow> ('s, 'e, 'b) proc) \<Rightarrow> ('s, 'e, 'b) proc" where
  "bindP m f s = (case m s of None \<Rightarrow> None | Some (r, t) \<Rightarrow> (case r of Inl e \<Rightarrow> Some (Inl e, t) | Inr a \<Rightarrow> f a t))"

definition thenP :: "('s, 'e, unit) proc \<Rightarrow> ('s, 'e, 'b) proc \<Rightarrow> ('s, 'e, 'b) proc" where
  "thenP m n = bindP m (\<lambda>_. n)"

definition whenP :: "bool \<Rightarrow> ('s, 'e, unit) proc \<Rightarrow> ('s, 'e, unit) proc" where
  "whenP c m = (if c then m else retP ())"

primrec forP :: "('a \<Rightarrow> ('s, 'e, unit) proc) \<Rightarrow> 'a list \<Rightarrow> ('s, 'e, unit) proc" where
  "forP f [] = retP ()"
| "forP f (x # xs) = thenP (f x) (forP f xs)"

lemma bindP_mono [partial_function_mono]:
  fixes B :: "('c \<Rightarrow> 'd option) \<Rightarrow> ('s, 'e, 'a) proc" and C :: "('c \<Rightarrow> 'd option) \<Rightarrow> 'a \<Rightarrow> ('s, 'e, 'b) proc"
  assumes "\<And>s. mono_option (\<lambda>f. B f s)" and "\<And>a s. mono_option (\<lambda>f. C f a s)"
  shows "mono_option (\<lambda>f. bindP (B f) (C f) s)"
proof (rule monotoneI)
  fix f g :: "'c \<Rightarrow> 'd option"
  assume fg: "fun_ord option_ord f g"
  have B: "option_ord (B f s) (B g s)" and C: "option_ord (C f a t) (C g a t)" for a t
    using assms(1) [of s] assms(2) [of a t] fg unfolding monotone_def by blast+
  show "option_ord (bindP (B f) (C f) s) (bindP (B g) (C g) s)"
  proof (cases "B f s")
    case None
    then show ?thesis by (simp add: bindP_def flat_ord_def)
  next
    case (Some rt)
    then have "B g s = Some rt" using B by (auto simp: flat_ord_def)
    with Some show ?thesis using C by (cases rt) (auto simp: bindP_def flat_ord_def split: sum.split)
  qed
qed

named_theorems proc_simps \<open>evaluation of procedures\<close>

lemmas proc_defs = liftP_def retP_def raiseP_def getP_def modP_def bindP_def thenP_def whenP_def

lemma bindP_assoc [proc_simps]: "bindP (bindP m f) g = bindP m (\<lambda>a. bindP (f a) g)"
  by (rule ext) (simp add: bindP_def split: option.split sum.split)

lemma bindP_retP [proc_simps]: "bindP (retP a) f = f a" "bindP (raiseP e) f = raiseP e"
  by (rule ext, simp add: proc_defs)+

section \<open>Loops\<close>

text \<open>\<open>while True\<close> around a body whose result says whether to go on.\<close>

partial_function (option) repeatP :: "('s, 'e, bool) proc \<Rightarrow> 's \<Rightarrow> (('e, unit) result \<times> 's) option" where
  "repeatP m s = bindP m (\<lambda>again t. if again then repeatP m t else retP () t) s"

lemma repeatP_code [code]: "repeatP m s = (case m s of None \<Rightarrow> None | Some rt \<Rightarrow> (case fst rt of Inl e \<Rightarrow> Some (Inl e, snd rt)
    | Inr again \<Rightarrow> if again then repeatP m (snd rt) else Some (Inr (), snd rt)))"
  by (subst repeatP.simps) (simp add: bindP_def retP_def split: option.split sum.split prod.split)

section \<open>Procedures that return\<close>

definition returns :: "('s \<Rightarrow> bool) \<Rightarrow> ('s, 'e, 'a) proc \<Rightarrow> bool" where
  "returns P m \<longleftrightarrow> (\<forall>s. P s \<longrightarrow> m s \<noteq> None)"

named_theorems returns_rules \<open>procedures without loops return\<close>

lemma returns_simple [returns_rules]: "returns P (retP a)" "returns P (raiseP e)" "returns P (modP g)" "returns P (getP h)" "returns P (liftP r)"
  by (simp_all add: returns_def proc_defs)

lemma returns_pre: "returns P' m \<Longrightarrow> (\<And>s. P s \<Longrightarrow> P' s) \<Longrightarrow> returns P m"
  by (simp add: returns_def)

section \<open>Partial correctness\<close>

definition triple :: "('s \<Rightarrow> bool) \<Rightarrow> ('s, 'e, 'a) proc \<Rightarrow> ('a \<Rightarrow> 's \<Rightarrow> bool) \<Rightarrow> ('s \<Rightarrow> bool) \<Rightarrow> bool" where
  "triple P m Q X \<longleftrightarrow> (\<forall>s. P s \<longrightarrow> (\<forall>e t. m s = Some (Inl e, t) \<longrightarrow> X t) \<and> (\<forall>a t. m s = Some (Inr a, t) \<longrightarrow> Q a t))"

named_theorems triple_intro \<open>rules for the parts of a procedure\<close>

lemma tripleI: "(\<And>s e t. P s \<Longrightarrow> m s = Some (Inl e, t) \<Longrightarrow> X t) \<Longrightarrow> (\<And>s a t. P s \<Longrightarrow> m s = Some (Inr a, t) \<Longrightarrow> Q a t)
    \<Longrightarrow> triple P m Q X"
  by (simp add: triple_def)

lemma triple_Inr: "triple P m Q X \<Longrightarrow> P s \<Longrightarrow> m s = Some (Inr a, t) \<Longrightarrow> Q a t"
  by (simp add: triple_def)

lemma triple_Inl: "triple P m Q X \<Longrightarrow> P s \<Longrightarrow> m s = Some (Inl e, t) \<Longrightarrow> X t"
  by (simp add: triple_def)

lemma triple_pre: "triple P' m Q X \<Longrightarrow> (\<And>s. P s \<Longrightarrow> P' s) \<Longrightarrow> triple P m Q X"
  unfolding triple_def by blast

lemma triple_post: "triple P m Q' X' \<Longrightarrow> (\<And>a s. Q' a s \<Longrightarrow> Q a s) \<Longrightarrow> (\<And>s. X' s \<Longrightarrow> X s) \<Longrightarrow> triple P m Q X"
  by (simp add: triple_def)

lemma triple_ret [triple_intro]: "(\<And>s. P s \<Longrightarrow> Q a s) \<Longrightarrow> triple P (retP a) Q X"
  by (simp add: triple_def retP_def)

lemma triple_raise [triple_intro]: "(\<And>s. P s \<Longrightarrow> X s) \<Longrightarrow> triple P (raiseP e) Q X"
  by (simp add: triple_def raiseP_def)

lemma triple_mod [triple_intro]: "(\<And>s. P s \<Longrightarrow> Q () (f s)) \<Longrightarrow> triple P (modP f) Q X"
  by (simp add: triple_def modP_def)

lemma triple_get: "(\<And>s. P s \<Longrightarrow> Q (f s) s) \<Longrightarrow> triple P (getP f) Q X"
  by (simp add: triple_def getP_def)

lemma triple_lift: "(\<And>s. P s \<Longrightarrow> X s) \<Longrightarrow> (\<And>a s. r = Inr a \<Longrightarrow> P s \<Longrightarrow> Q a s) \<Longrightarrow> triple P (liftP r) Q X"
  by (auto simp: triple_def liftP_def)

lemma triple_bind: "triple P m R X \<Longrightarrow> (\<And>a. triple (R a) (f a) Q X) \<Longrightarrow> triple P (bindP m f) Q X"
  by (fastforce simp: triple_def bindP_def split: option.split_asm sum.split_asm prod.split_asm)

lemma triple_bind_get: "(\<And>a. triple (\<lambda>s. P s \<and> f s = a) (g a) Q X) \<Longrightarrow> triple P (bindP (getP f) g) Q X"
  by (auto simp: triple_def bindP_def getP_def)

lemma triple_bind_lift: "(\<And>s. P s \<Longrightarrow> X s) \<Longrightarrow> (\<And>a. r = Inr a \<Longrightarrow> triple P (g a) Q X) \<Longrightarrow> triple P (bindP (liftP r) g) Q X"
  by (cases r) (auto simp: triple_def bindP_def liftP_def)

lemma triple_if: "(c \<Longrightarrow> triple P m Q X) \<Longrightarrow> (\<not> c \<Longrightarrow> triple P n Q X) \<Longrightarrow> triple P (if c then m else n) Q X"
  by simp

lemma triple_case_option: "(x = None \<Longrightarrow> triple P m Q X) \<Longrightarrow> (\<And>a. x = Some a \<Longrightarrow> triple P (n a) Q X)
    \<Longrightarrow> triple P (case x of None \<Rightarrow> m | Some a \<Rightarrow> n a) Q X"
  by (cases x) simp_all

lemma triple_case_sum: "(\<And>e. x = Inl e \<Longrightarrow> triple P (m e) Q X) \<Longrightarrow> (\<And>a. x = Inr a \<Longrightarrow> triple P (n a) Q X)
    \<Longrightarrow> triple P (case x of Inl e \<Rightarrow> m e | Inr a \<Rightarrow> n a) Q X"
  by (cases x) simp_all

lemma triple_case_prod: "(\<And>a b. x = (a, b) \<Longrightarrow> triple P (m a b) Q X) \<Longrightarrow> triple P (case x of (a, b) \<Rightarrow> m a b) Q X"
  by (cases x) simp_all

lemmas triple_splits = triple_if triple_case_option triple_case_sum triple_case_prod

lemma triple_then: "triple P m (\<lambda>_. R) X \<Longrightarrow> triple R n Q X \<Longrightarrow> triple P (thenP m n) Q X"
  unfolding thenP_def by (rule triple_bind)

lemma triple_when: "(c \<Longrightarrow> triple P m (\<lambda>_. Q) X) \<Longrightarrow> (\<And>s. \<not> c \<Longrightarrow> P s \<Longrightarrow> Q s) \<Longrightarrow> triple P (whenP c m) (\<lambda>_. Q) X"
  by (auto simp: whenP_def intro: triple_ret)

lemma triple_for: "(\<And>x. x \<in> set xs \<Longrightarrow> triple I (f x) (\<lambda>_. I) X) \<Longrightarrow> triple I (forP f xs) (\<lambda>_. I) X"
  by (induction xs) (auto intro: triple_ret triple_then)

lemma triple_conj: "triple P m Q X \<Longrightarrow> triple P' m Q' X' \<Longrightarrow>
    triple (\<lambda>s. P s \<and> P' s) m (\<lambda>a s. Q a s \<and> Q' a s) (\<lambda>s. X s \<and> X' s)"
  unfolding triple_def by blast

text \<open>An invariant of a procedure, whether it returns or raises.\<close>

abbreviation keeps :: "('s \<Rightarrow> bool) \<Rightarrow> ('s, 'e, 'a) proc \<Rightarrow> bool" where
  "keeps I m \<equiv> triple I m (\<lambda>_. I) I"

lemma keeps_get: "(\<And>a. keeps I (g a)) \<Longrightarrow> keeps I (bindP (getP f) g)"
  by (rule triple_bind_get) (auto intro: triple_pre)

lemma keeps_lift: "(\<And>a. r = Inr a \<Longrightarrow> keeps I (g a)) \<Longrightarrow> keeps I (bindP (liftP r) g)"
  by (rule triple_bind_lift) auto

lemma keeps_bind: "keeps I m \<Longrightarrow> (\<And>a. keeps I (f a)) \<Longrightarrow> keeps I (bindP m f)"
  by (rule triple_bind)

lemma keeps_then: "keeps I m \<Longrightarrow> keeps I n \<Longrightarrow> keeps I (thenP m n)"
  by (rule triple_then)

lemma keeps_when: "(c \<Longrightarrow> keeps I m) \<Longrightarrow> keeps I (whenP c m)"
  by (rule triple_when)

lemma keeps_for: "(\<And>x. x \<in> set xs \<Longrightarrow> keeps I (f x)) \<Longrightarrow> keeps I (forP f xs)"
  by (rule triple_for)

lemma keeps_simple: "keeps I (retP a)" "keeps I (raiseP e)" "keeps I (getP f)" "keeps I (liftP r)"
  by (auto intro: triple_ret triple_raise triple_get triple_lift)

lemmas keeps_intro = keeps_get keeps_lift keeps_then keeps_when keeps_for keeps_simple triple_splits

section \<open>Rules for loops\<close>

lemma repeatP_cases:
  assumes "bindP m (\<lambda>again t. if again then f t else retP () t) s = Some rt"
  obtains e t where "m s = Some (Inl e, t)" "rt = (Inl e, t)"
  | t where "m s = Some (Inr True, t)" "f t = Some rt"
  | t where "m s = Some (Inr False, t)" "rt = (Inr (), t)"
  using assms by (auto simp: bindP_def retP_def split: option.split_asm sum.split_asm prod.split_asm if_split_asm)

lemma triple_repeat:
  fixes m :: "('s, 'e, bool) proc"
  assumes m: "triple I m (\<lambda>again s. if again then I s else Q s) X"
  shows "triple I (repeatP m) (\<lambda>_. Q) X"
proof -
  define P where "P = (\<lambda>(m' :: ('s, 'e, bool) proc) s (rt :: ('e, unit) result \<times> 's). m' = m \<longrightarrow> I s \<longrightarrow>
     (\<forall>e. fst rt = Inl e \<longrightarrow> X (snd rt)) \<and> (\<forall>u. fst rt = Inr u \<longrightarrow> Q (snd rt)))"
  have step: "P m' s rt" if IH: "\<And>m' s y. f m' s = Some y \<Longrightarrow> P m' s y"
    and run: "bindP m' (\<lambda>again t. if again then f m' t else retP () t) s = Some rt" for f m' s rt
    unfolding P_def
  proof (intro impI)
    assume m': "m' = m" and I: "I s"
    from run show "(\<forall>e. fst rt = Inl e \<longrightarrow> X (snd rt)) \<and> (\<forall>u. fst rt = Inr u \<longrightarrow> Q (snd rt))"
    proof (cases rule: repeatP_cases)
      case (1 e t)
      then show ?thesis using triple_Inl [OF m I] m' by simp
    next
      case (2 t)
      then have "I t" using triple_Inr [OF m I] m' by force
      with IH [OF 2(2)] m' show ?thesis by (simp add: P_def)
    next
      case (3 t)
      then show ?thesis using triple_Inr [OF m I] m' by force
    qed
  qed
  have "P m s rt" if "repeatP m s = Some rt" for s rt
    by (rule repeatP.raw_induct [OF step that])
  then show ?thesis by (fastforce simp: triple_def P_def)
qed

text \<open>A loop returns when its body does and every round that goes on decreases a measure.\<close>

lemma returns_repeat:
  assumes body: "returns I m" and step: "triple I m (\<lambda>again s. again \<longrightarrow> I s) (\<lambda>_. True)"
    and less: "\<And>s t. I s \<Longrightarrow> m s = Some (Inr True, t) \<Longrightarrow> (f t :: nat) < f s"
  shows "returns I (repeatP m)"
  unfolding returns_def
proof (intro allI impI)
  fix s assume "I s"
  then show "repeatP m s \<noteq> None"
  proof (induction "f s" arbitrary: s rule: less_induct)
    case less
    then obtain r t where m: "m s = Some (r, t)" using body by (auto simp: returns_def)
    show ?case
    proof (cases r)
      case (Inr again)
      show ?thesis
      proof (cases again)
        case True
        then have "I t" using triple_Inr [OF step less(2)] m Inr by simp
        moreover have "f t < f s" using less(2) m Inr True assms(3) by simp
        ultimately have "repeatP m t \<noteq> None" using less(1) by simp
        then show ?thesis using m Inr True by (simp add: repeatP.simps [of m s] bindP_def)
      qed (use m Inr in \<open>simp add: repeatP.simps [of m s] bindP_def retP_def\<close>)
    qed (use m in \<open>simp add: repeatP.simps [of m s] bindP_def\<close>)
  qed
qed

lemma returns_bind: "returns P m \<Longrightarrow> triple P m R (\<lambda>_. True) \<Longrightarrow> (\<And>a. returns (R a) (f a)) \<Longrightarrow> returns P (bindP m f)"
  by (fastforce simp: returns_def triple_def bindP_def split: option.split sum.split)

lemma returns_bind_any: "returns P m \<Longrightarrow> (\<And>a. returns (\<lambda>_. True) (f a)) \<Longrightarrow> returns P (bindP m f)"
  by (fastforce simp: returns_def bindP_def split: option.split sum.split)

lemma returns_then: "returns P m \<Longrightarrow> triple P m (\<lambda>_. R) (\<lambda>_. True) \<Longrightarrow> returns R n \<Longrightarrow> returns P (thenP m n)"
  unfolding thenP_def by (rule returns_bind)

lemma returns_for: "(\<And>x. x \<in> set xs \<Longrightarrow> returns I (f x)) \<Longrightarrow> (\<And>x. x \<in> set xs \<Longrightarrow> triple I (f x) (\<lambda>_. I) (\<lambda>_. True))
    \<Longrightarrow> returns I (forP f xs)"
  by (induction xs) (auto intro: returns_then returns_simple)

end
