(* ===== verification/LifecycleValue.thy ===== *)
theory LifecycleValue
  imports Lifecycle
begin

text \<open>
  Task lifecycles as dynamic values: what the orchestrator and the checkpoints write of a lifecycle, and
  the fields they read back.
\<close>

definition opt_num :: "rat option \<Rightarrow> pyval" where
  "opt_num x = (case x of None \<Rightarrow> PNone | Some q \<Rightarrow> PFloat (Fin q))"

definition opt_text :: "string option \<Rightarrow> pyval" where
  "opt_text x = (case x of None \<Rightarrow> PNone | Some s \<Rightarrow> PStr s)"

definition history_dict :: "history_entry \<Rightarrow> pyval" where
  "history_dict h = PDict (str_keyed [(''from'', PStr (state_value (h_from h))), (''to'', PStr (state_value (h_to h))),
     (''reason'', opt_text (h_reason h))])"

text \<open>A value that a set or a dictionary can hold.\<close>

fun hashable :: "pyval \<Rightarrow> bool" where
  "hashable (PList xs) = False"
| "hashable (PDict d) = False"
| "hashable (PProxy d) = False"
| "hashable (PTuple xs) = (\<forall>x \<in> set xs. hashable x)"
| "hashable v = True"

text \<open>Fields of a lifecycle that are read from a value; \<open>None\<close> is a value of another type than a run writes.\<close>

definition read_time :: "pyval \<Rightarrow> rat option option" where
  "read_time v = (if v = PNone then Some None else case as_number v of Some (Fin q) \<Rightarrow> Some (Some q) | _ \<Rightarrow> None)"

definition read_text :: "pyval \<Rightarrow> string option option" where
  "read_text v = (if v = PNone then Some None else map_option Some (as_str v))"

definition read_history_entry :: "pyval \<Rightarrow> history_entry option" where
  "read_history_entry v = (case as_pdict v of None \<Rightarrow> None | Some d \<Rightarrow>
     (case (lc_state_of (StateOther (mget_or d ''from'' PNone)), lc_state_of (StateOther (mget_or d ''to'' PNone))) of
       (Inr f, Inr t) \<Rightarrow> map_option (\<lambda>r. \<lparr>h_from = f, h_to = t, h_reason = r\<rparr>) (read_text (mget_or d ''reason'' PNone))
     | _ \<Rightarrow> None))"

definition read_history :: "pyval \<Rightarrow> history_entry list option" where
  "read_history v = Option.bind (as_plist v) (\<lambda>hs. those (map read_history_entry hs))"

lemma read_history_dict: "read_history_entry (history_dict h) = Some h"
proof -
  have "lc_state_of (StateOther (PStr (state_value s))) = Inr s" for s by simp
  moreover have "read_text (opt_text r) = Some r" for r by (cases r) (simp_all add: read_text_def opt_text_def)
  ultimately show ?thesis by (simp add: read_history_entry_def history_dict_def str_keyed_def)
qed

lemma read_history_back: "read_history (PList (map history_dict hs)) = Some hs"
  by (induction hs) (simp_all add: read_history_def read_history_dict comp_def)

lemma read_time_back: "read_time (opt_num x) = Some x"
  by (cases x) (simp_all add: read_time_def opt_num_def)

end
