(* ===== verification/Orchestrator.thy ===== *)
theory Orchestrator
  imports FleetText Procedure PlanProperties Gates LifecycleValue
begin

text \<open>
  The V1 run loop of \<open>scripts/pd_fleet/orchestrator.py\<close>. An orchestrator is its configuration (plan, limits,
  gates, context, hooks) and a state (lifecycles, reports, the waves run); every method is a procedure on
  the state that may raise. What lies outside, the dispatcher, the clocks and the durable commit, is an
  environment: the \<open>n\<close>-th consultation of the run may answer anything. The state also keeps a trace of what
  the run does to the outside: dispatches, hook calls, sleeps. Hooks return normally and do not change the
  objects they are given.
\<close>

section \<open>Configuration, environment and state\<close>

datatype orch_error = OrchestratorError | LifecycleFault lc_error | ValidationFault validation_error
  | RunTypeError | RunValueError | NotRepresented

datatype gate_value = HumanGate HumanVerificationGate | ResultGate GateResult | SpecGate GateSpec | ValueGate pyval

record orchestrator =
  oc_plan :: FleetPlan
  oc_canonical :: "pyval option"
  oc_max_parallel :: int
  oc_timeout :: "rat option"
  oc_dry_run :: bool
  oc_gates :: "gate_value dict"
  oc_context :: pymap
  oc_context_supplied :: bool
  oc_run_id :: pyval
  oc_feature :: string
  oc_created_at :: string
  oc_hooks :: "string list"

text \<open>What a dispatcher hands back: an object with the five attributes, a mapping, another object, or an exception.\<close>

datatype dispatch_reply = ReplyRaise | ReplyObject pyval pyval pyval pyval pyval | ReplyMap pymap | ReplyOther

record orch_env =
  oe_str :: "pyval \<Rightarrow> string"
  oe_float :: "rat \<Rightarrow> string"
  oe_sha :: "string \<Rightarrow> string"
  oe_parse :: "string \<Rightarrow> int option"
  oe_read :: "string \<Rightarrow> int option"
  oe_show :: "int \<Rightarrow> string option"
  oe_now :: "nat \<Rightarrow> stamp_arg"
  oe_clock :: "nat \<Rightarrow> rat"
  oe_dispatch :: "nat \<Rightarrow> TaskSpec \<Rightarrow> pymap \<Rightarrow> dispatch_reply"
  oe_commit :: "nat \<Rightarrow> bool"

record task_report =
  tr_task_id :: string
  tr_wave :: pyval
  tr_status :: string
  tr_attempt :: int
  tr_output :: pyval
  tr_evidence :: pyval
  tr_error :: "string option"
  tr_reason :: "string option"
  tr_agent_id :: "string option"
  tr_role :: "string option"
  tr_outputs :: pyval
  tr_blockers :: "string list"

datatype run_event =
    RunBatch "string list"
  | Dispatched string int
  | Recorded task_report
  | HookLifecycle string task_lifecycle
  | HookReport pyval
  | HookEvidence string pyval
  | HookSnapshot string pyval
  | Slept pyval
  | CommitCall string int

record orch_state =
  os_lifecycles :: "task_lifecycle dict"
  os_reports :: "pyval list"
  os_dry_seen :: "string list"
  os_current_wave :: int
  os_last_wave :: int
  os_committed :: "(string \<times> int) list"
  os_tick :: nat
  os_trace :: "run_event list"

type_synonym 'a orch = "(orch_state, orch_error, 'a) proc"

definition is_v2 :: "orchestrator \<Rightarrow> bool" where
  "is_v2 oc \<longleftrightarrow> oc_canonical oc \<noteq> None"

definition emit :: "run_event \<Rightarrow> unit orch" where
  "emit ev = modP (\<lambda>st. st\<lparr>os_trace := os_trace st @ [ev]\<rparr>)"

definition tick :: "nat \<Rightarrow> unit orch" where
  "tick n = modP (\<lambda>st. st\<lparr>os_tick := os_tick st + n\<rparr>)"

definition orch_clock :: "orch_env \<Rightarrow> rat orch" where
  "orch_clock env = bindP (getP os_tick) (\<lambda>k. thenP (tick 1) (retP (oe_clock env k)))"

definition life_of :: "string \<Rightarrow> orch_state \<Rightarrow> task_lifecycle" where
  "life_of i st = the (dget (os_lifecycles st) i)"

text \<open>A lifecycle method called on the object of task \<open>i\<close>.\<close>

definition on_life :: "string \<Rightarrow> (task_lifecycle \<Rightarrow> (lc_error, task_lifecycle) result) \<Rightarrow> unit orch" where
  "on_life i f = bindP (getP (life_of i)) (\<lambda>l. case f l of
     Inl e \<Rightarrow> raiseP (LifecycleFault e)
   | Inr l' \<Rightarrow> modP (\<lambda>st. st\<lparr>os_lifecycles := dset i l' (os_lifecycles st)\<rparr>))"

definition is_hook :: "orchestrator \<Rightarrow> string \<Rightarrow> bool" where
  "is_hook oc name \<longleftrightarrow> name \<in> set (oc_hooks oc)"

section \<open>Waves\<close>

definition task_wave :: "orch_env \<Rightarrow> TaskSpec \<Rightarrow> string" where
  "task_wave env t = py_str (oe_str env) (tk_wave t)"

definition orch_wave_key :: "string \<Rightarrow> string" where
  "orch_wave_key v = (let v = lower (strip v) in if startswith v ''wave-'' then drop 5 v else v)"

definition wave_number :: "string \<Rightarrow> int" where
  "wave_number v = (case int_of_text (orch_wave_key v) of None \<Rightarrow> 0 | Some n \<Rightarrow> max 0 n)"

text \<open>\<open>str.isdigit\<close> on code points below 256 also accepts the three superscript digits, which \<open>int\<close> rejects.\<close>

definition py_isdigit :: "string \<Rightarrow> bool" where
  "py_isdigit s \<longleftrightarrow> s \<noteq> [] \<and> list_all (\<lambda>c. is_num c \<or> (of_char c :: nat) \<in> {178, 179, 185}) s"

definition wave_sort_key :: "string \<Rightarrow> (orch_error, nat \<times> int \<times> string) result" where
  "wave_sort_key x = (let d = (if startswith x ''wave-'' then drop 5 x else x) in
     if py_isdigit d then (case int_of_text d of None \<Rightarrow> Inl RunValueError | Some n \<Rightarrow> Inr (0, n, []))
     else Inr (1, 0, x))"

text \<open>Waves with equal keys come in plan order; the iteration order of a Python set of strings is arbitrary.\<close>

definition ordered_waves :: "orch_env \<Rightarrow> orchestrator \<Rightarrow> (orch_error, string list) result" where
  "ordered_waves env oc = bindR (mapR (\<lambda>x. bindR (wave_sort_key x) (\<lambda>k. Inr (k, x)))
     (remdups (map (task_wave env) (fp_tasks (oc_plan oc))))) (\<lambda>kxs. Inr (map snd (sort_key fst kxs)))"

text \<open>The values of \<open>by_id\<close> in the order of their ids.\<close>

definition sorted_tasks :: "orchestrator \<Rightarrow> TaskSpec list" where
  "sorted_tasks oc = (let g = by_id (fp_tasks (oc_plan oc)) in map (\<lambda>i. the (dget g i)) (sort (dkeys g)))"

section \<open>Gates\<close>

definition plan_digest :: "orch_env \<Rightarrow> orchestrator \<Rightarrow> (orch_error, string) result" where
  "plan_digest env oc =
     bindR (case oc_canonical oc of Some v \<Rightarrow> Inr v
       | None \<Rightarrow> (case FleetPlan_to_dict (oc_plan oc) of Inl e \<Rightarrow> Inl RunTypeError | Inr v \<Rightarrow> Inr v)) (\<lambda>v.
     case as_pdict v of None \<Rightarrow> Inl RunTypeError | Some d \<Rightarrow>
     (case Canonical.plan_hash (oe_float env) (oe_sha env) (PDict (mset_key (PStr ''schema_version'') (PStr V2_SCHEMA_VERSION) d)) of
        Inl e \<Rightarrow> Inl OrchestratorError | Inr h \<Rightarrow> Inr h))"

definition orch_gate_scope :: "orch_env \<Rightarrow> orchestrator \<Rightarrow> (orch_error, pyval) result" where
  "orch_gate_scope env oc = bindR (plan_digest env oc) (\<lambda>h. Inr (PDict (str_keyed
     [(''schema_version'', PStr ''pd-fleet-gate-scope:v1''), (''plan_hash'', PStr h),
      (''tasks'', strs (sort (map tk_id (fp_tasks (oc_plan oc))))),
      (''waves'', strs (sorted_set (map (task_wave env) (fp_tasks (oc_plan oc)))))])))"

definition scope_strs :: "pyval \<Rightarrow> string list option" where
  "scope_strs v = (case as_sequence v of None \<Rightarrow> None | Some xs \<Rightarrow> those (map as_str xs))"

text \<open>\<open>_canonical_gate_scope\<close>: schema, plan hash, sorted tasks and sorted waves without repetition.\<close>

definition canonical_gate_scope :: "pyval \<Rightarrow> (string \<times> string \<times> string list \<times> string list) option" where
  "canonical_gate_scope v = (case as_mapping v of None \<Rightarrow> None | Some d \<Rightarrow>
     if set (map fst d) \<noteq> PStr ` {''schema_version'', ''plan_hash'', ''tasks'', ''waves''} then None
     else (case (as_str (mget_or d ''schema_version'' PNone), as_str (mget_or d ''plan_hash'' PNone),
                 scope_strs (mget_or d ''tasks'' PNone), scope_strs (mget_or d ''waves'' PNone)) of
       (Some s, Some h, Some ts, Some ws) \<Rightarrow> Some (s, h, sort ts, sorted_set ws)
     | _ \<Rightarrow> None))"

definition scope_bound :: "pyval \<Rightarrow> pyval \<Rightarrow> pyval \<Rightarrow> pyval \<Rightarrow> bool" where
  "scope_bound gate_run gate_scope run scope \<longleftrightarrow>
     (case as_str run of None \<Rightarrow> False | Some r \<Rightarrow> \<not> blank r) \<and> canonical_gate_scope scope \<noteq> None
     \<and> gate_run = run \<and> canonical_gate_scope gate_scope = canonical_gate_scope scope"

definition human_gate_open :: "orch_env \<Rightarrow> stamp_arg \<Rightarrow> HumanVerificationGate \<Rightarrow> pyval \<Rightarrow> pyval \<Rightarrow> bool" where
  "human_gate_open env now g run scope \<longleftrightarrow>
     human_allows (oe_float env) (oe_parse env) g None now PNone PNone PNone run scope = Inr True"

definition human_keys :: "string list" where
  "human_keys = [''owner'', ''identity'', ''decision'', ''scope'', ''evidence_digest'', ''artifact_digest'', ''freshness_window'']"

fun orch_gate_passed :: "orch_env \<Rightarrow> stamp_arg \<Rightarrow> pyval \<Rightarrow> pyval \<Rightarrow> gate_value \<Rightarrow> bool" where
  "orch_gate_passed env now run scope (HumanGate g) =
     (scope_bound (PStr (hg_run g)) (hg_scope g) run scope \<and> human_gate_open env now g run scope)"
| "orch_gate_passed env now run scope (ResultGate g) =
     (gr_gate_type g \<notin> {''review'', ''grill''} \<and> gate_allows GatePolicy_default g)"
| "orch_gate_passed env now run scope (SpecGate g) = False"
| "orch_gate_passed env now run scope (ValueGate v) = (case as_mapping v of
       None \<Rightarrow> False
     | Some d \<Rightarrow>
         if list_all (mhas d) human_keys \<and> (mhas d ''run'' \<or> mhas d ''run_id'')
         then scope_bound (mget_or d ''run'' (mget_or d ''run_id'' PNone)) (mget_or d ''scope'' PNone) run scope
           \<and> (case human_from_dict (oe_parse env) True v of Inl e \<Rightarrow> False | Inr g \<Rightarrow> human_gate_open env now g run scope)
         else if py_str (oe_str env) (mget_or d ''gate_type'' (mget_or d ''kind'' (mget_or d ''type'' PNone))) \<in> {''review'', ''grill''}
         then False
         else (mhas d ''gate_id'' \<or> mhas d ''gate_type'') \<and> gate_evaluate_value GatePolicy_default v = Inr G_PASSED)"

text \<open>The ids of the gates that pass now; every gate reads the clock once.\<close>

fun gates_open :: "orch_env \<Rightarrow> pyval \<Rightarrow> pyval \<Rightarrow> nat \<Rightarrow> gate_value dict \<Rightarrow> string list" where
  "gates_open env run scope k [] = []"
| "gates_open env run scope k ((i, g) # gs) =
     (if orch_gate_passed env (oe_now env k) run scope g then [i] else []) @ gates_open env run scope (Suc k) gs"

definition passed_gates :: "orch_env \<Rightarrow> orchestrator \<Rightarrow> string list orch" where
  "passed_gates env oc = (if oc_gates oc = [] then retP [] else
     bindP (liftP (orch_gate_scope env oc)) (\<lambda>scope.
     bindP (getP os_tick) (\<lambda>k. thenP (tick (length (oc_gates oc)))
       (retP (gates_open env (oc_run_id oc) scope k (oc_gates oc))))))"

text \<open>\<open>_current_gate_passed(self.gates.get(g))\<close>.\<close>

definition gate_open_now :: "orch_env \<Rightarrow> orchestrator \<Rightarrow> string \<Rightarrow> bool orch" where
  "gate_open_now env oc i = bindP (liftP (orch_gate_scope env oc)) (\<lambda>scope.
     bindP (getP os_tick) (\<lambda>k. thenP (tick 1) (retP (case dget (oc_gates oc) i of
       None \<Rightarrow> False | Some g \<Rightarrow> orch_gate_passed env (oe_now env k) (oc_run_id oc) scope g))))"

section \<open>What a task needs before it is dispatched\<close>

definition agent_match :: "(string \<times> pyval) list \<Rightarrow> pyval" where
  "agent_match kvs = PDict [(PStr ''agent_matching'', PDict (str_keyed kvs))]"

text \<open>\<open>_agent_block\<close>: the reason and evidence of a task that no declared agent may run.\<close>

definition agent_block :: "orchestrator \<Rightarrow> TaskSpec \<Rightarrow> (string \<times> pyval) option" where
  "agent_block oc t = (let agents = fp_agents (oc_plan oc); required = sorted_set (tk_capabilities t);
       candidates = filter (\<lambda>a. ag_role a = tk_role t \<and> set required \<subseteq> set (ag_capabilities a)) agents
     in if agents = [] then None
        else case tk_owner t of
          Some ow \<Rightarrow> (case find (\<lambda>a. ag_id a = ow) agents of
              None \<Rightarrow> Some (''owner incompat'' @ [CHR 0xED] @ ''vel: agente '' @ repr_text ow @ '' n'' @ [CHR 0xE3] @ ''o existe'',
                agent_match [(''owner'', PStr ow), (''role'', PStr (tk_role t)), (''capabilities'', strs required), (''candidates'', PList [])])
            | Some a \<Rightarrow> if a \<notin> set candidates then
                Some (''owner incompat'' @ [CHR 0xED] @ ''vel: agente '' @ repr_text ow @ '' n'' @ [CHR 0xE3] @ ''o atende role/capabilities'',
                  agent_match [(''owner'', PStr (ag_id a)), (''role'', PStr (tk_role t)), (''capabilities'', strs required),
                    (''missing_capabilities'', strs (filter (\<lambda>c. c \<notin> set (ag_capabilities a)) required)), (''agent_role'', PStr (ag_role a))])
                else None)
        | None \<Rightarrow> if candidates \<noteq> [] then None else
            Some (''nenhum agente compat'' @ [CHR 0xED] @ ''vel para role '' @ repr_text (tk_role t) @ '' e capabilities ''
                @ safe_repr_list (Some (map PStr required)) UNSUPPORTED_TYPE 128,
              agent_match [(''role'', PStr (tk_role t)), (''capabilities'', strs required), (''candidates'', strs (map ag_id agents))]))"

definition agent_compatible :: "orchestrator \<Rightarrow> TaskSpec \<Rightarrow> bool" where
  "agent_compatible oc t \<longleftrightarrow> agent_block oc t = None"

text \<open>The declared inputs: the keys of a mapping, or the items of any other iterable.\<close>

definition declared_inputs :: "pyval \<Rightarrow> (orch_error, pyval list) result" where
  "declared_inputs v = (case as_mapping v of Some d \<Rightarrow> Inr (map fst d)
     | None \<Rightarrow> if \<not> truthy v then Inr [] else (case as_sequence v of Some xs \<Rightarrow> Inr xs
     | None \<Rightarrow> (case as_str v of Some s \<Rightarrow> Inr (map (\<lambda>c. PStr [c]) s) | None \<Rightarrow> Inl RunTypeError)))"

definition missing_inputs :: "orch_env \<Rightarrow> orchestrator \<Rightarrow> TaskSpec \<Rightarrow> (orch_error, string list) result" where
  "missing_inputs env oc t = (if \<not> oc_context_supplied oc then Inr [] else
     bindR (declared_inputs (tk_inputs t)) (\<lambda>items.
     let available = (case as_sequence (mget_or (oc_context oc) ''available_inputs'' PNone) of None \<Rightarrow> [] | Some xs \<Rightarrow> xs)
     in Inr (filter (\<lambda>n. \<not> mhas (oc_context oc) n \<and> PStr n \<notin> set available) (map (py_str (oe_str env)) items))))"

text \<open>\<open>^([\w.-]+)\s*(?:==|=|is)\s*(.+)$\<close>: the ends of the name and the start of the expected text.\<close>

definition condition_match :: "string \<Rightarrow> (nat \<times> nat \<times> nat) option" where
  "condition_match s = (case [(a, d, e). a \<leftarrow> ends (plus (Cls (\<lambda>c. word_char c \<or> one_of ''.-'' c))) s 0,
       b \<leftarrow> ends (star (Cls is_space)) s a, c \<leftarrow> ends (Alt (lit ''=='') (Alt (lit ''='') (ilit ''is''))) s b,
       d \<leftarrow> ends (star (Cls is_space)) s c, e \<leftarrow> ends (Seq (plus (Cls (\<lambda>c. c \<noteq> CHR 0x0A))) Dollar) s d] of
     [] \<Rightarrow> None | m # _ \<Rightarrow> Some m)"

definition strip_quotes :: "string \<Rightarrow> string" where
  "strip_quotes = strip_by (\<lambda>c. c \<in> set quotes)"

definition condition_blocks :: "orch_env \<Rightarrow> pymap \<Rightarrow> string \<Rightarrow> bool" where
  "condition_blocks env ctx condition = (let s = strip condition in
     case mget ctx s of Some v \<Rightarrow> truthy v
     | None \<Rightarrow> (case condition_match s of
         None \<Rightarrow> True
       | Some (a, d, e) \<Rightarrow> (case mget ctx (take a s) of
             None \<Rightarrow> True
           | Some v \<Rightarrow> lower (py_str (oe_str env) v) = lower (strip_quotes (strip (slice d e s))))))"

definition blocked_condition :: "orch_env \<Rightarrow> orchestrator \<Rightarrow> TaskSpec \<Rightarrow> bool" where
  "blocked_condition env oc t \<longleftrightarrow> oc_context_supplied oc \<and> list_ex (condition_blocks env (oc_context oc)) (tk_blocked_when t)"

section \<open>The completion contract\<close>

definition empty_value :: "pyval \<Rightarrow> bool" where
  "empty_value v \<longleftrightarrow> list_ex (py_eq v) [PNone, PStr [], PList [], PDict [], PTuple []]"

definition or_else :: "pyval \<Rightarrow> pyval \<Rightarrow> pyval" where
  "or_else a b = (if truthy a then a else b)"

definition evidence_acceptance :: "pymap \<Rightarrow> pyval" where
  "evidence_acceptance ev = or_else (mget_or ev ''acceptance'' PNone) (or_else (mget_or ev ''acceptance_metadata'' PNone)
     (or_else (mget_or ev ''acceptance_criteria'' PNone) (mget_or ev ''validation'' PNone)))"

definition simulated_evidence :: "pyval \<Rightarrow> bool" where
  "simulated_evidence evidence \<longleftrightarrow> (case as_mapping evidence of None \<Rightarrow> False | Some ev \<Rightarrow> mget ev ''adapter'' = Some (PStr ''simulated''))"

definition completion_output :: "string list \<Rightarrow> pyval \<Rightarrow> pyval \<Rightarrow> pyval option" where
  "completion_output names out evidence = (case as_mapping out of
       Some d \<Rightarrow> if set (map fst d) = PStr ` set names
           then Some (PDict (collect_items (map (\<lambda>n. (PStr n, mget_or d n PNone)) names)))
         else if length names = 1 \<and> mhas d ''output'' \<and> simulated_evidence evidence
           then Some (PDict [(PStr (hd names), mget_or d ''output'' PNone)])
         else None
     | None \<Rightarrow> if length names = 1 then Some (PDict [(PStr (hd names), out)]) else None)"

definition acceptance_met :: "string list \<Rightarrow> pymap \<Rightarrow> bool" where
  "acceptance_met criteria ev \<longleftrightarrow> (let a = evidence_acceptance ev in
     (criteria = [] \<or> truthy a \<or> mget ev ''adapter'' = Some (PStr ''simulated'')
        \<and> mget ev ''deterministic'' = Some (PBool True) \<and> truthy (mget_or ev ''fingerprint'' PNone))
     \<and> a \<noteq> PBool False
     \<and> (case as_mapping a of None \<Rightarrow> True | Some m \<Rightarrow> mget m ''passed'' \<noteq> Some (PBool False)))"

definition normalize_completion :: "TaskSpec \<Rightarrow> pyval \<Rightarrow> pyval \<Rightarrow> (pyval \<times> pyval) option" where
  "normalize_completion t out evidence = (let names = map ou_name (tk_outputs t) in
     if names = [] \<or> out = PNone \<or> evidence = PNone then None
     else case completion_output names out evidence of None \<Rightarrow> None | Some outs \<Rightarrow>
     (case as_mapping evidence of None \<Rightarrow> None | Some ev \<Rightarrow>
       if ev = [] \<or> list_all (\<lambda>kv. empty_value (snd kv)) ev then None
       else if \<not> acceptance_met (tk_acceptance_criteria t) ev then None
       else Some (sanitize_payload outs, sanitize_payload evidence)))"

text \<open>\<open>_retry_error_matches\<close>: whole words of the error, or the phrase between word boundaries.\<close>

definition error_words :: "string \<Rightarrow> string" where
  "error_words s = strip (re_sub Eps (plus (Cls (\<lambda>c. \<not> is_lower c \<and> \<not> is_num c))) '' '' (lower s))"

definition between_spaces :: "regex \<Rightarrow> regex" where
  "between_spaces r = seqs [Alt Bos (lit '' ''), r, Alt Dollar (lit '' '')]"

definition error_token_matches :: "string \<Rightarrow> string \<Rightarrow> bool" where
  "error_token_matches ws candidate \<longleftrightarrow> candidate \<noteq> [] \<and>
     (if CHR '' '' \<in> set candidate
      then candidate = ws \<or> re_search (between_spaces (lit candidate)) ws
      else candidate \<in> set (split_on (CHR '' '') ws)
        \<and> \<not> re_search (between_spaces (seqs [lit ''not '', opt (Alt (lit ''transient'') (lit ''retryable'')), opt (lit '' ''), lit candidate])) ws)"

definition retry_error_matches :: "string \<Rightarrow> string list \<Rightarrow> bool" where
  "retry_error_matches err tokens \<longleftrightarrow> list_ex (\<lambda>t. error_token_matches (error_words err) (error_words t)) tokens"

end
