(* ===== verification/OrchestratorRun.thy ===== *)
theory OrchestratorRun
  imports Orchestrator
begin

text \<open>
  Running a plan: reports, hooks and checkpoints of \<open>FleetOrchestrator\<close>, the retry loop of one task, the
  waves, resumption from a checkpoint's lifecycle mapping, and the V1 \<open>run\<close>. The two \<open>while True\<close> loops are
  \<open>repeatP\<close>: a run that does not end would be \<open>None\<close>.
\<close>

section \<open>Reports, hooks and checkpoints\<close>

definition task_report_dict :: "task_report \<Rightarrow> pyval" where
  "task_report_dict r = PDict (str_keyed [(''task_id'', PStr (tr_task_id r)), (''wave'', tr_wave r), (''status'', PStr (tr_status r)),
     (''attempt'', PInt (tr_attempt r)), (''output'', tr_output r),
     (''outputs'', if tr_outputs r \<noteq> PNone then tr_outputs r else tr_output r),
     (''agent_id'', opt_str (tr_agent_id r)), (''role'', opt_str (tr_role r)), (''evidence'', tr_evidence r),
     (''error'', opt_str (tr_error r)), (''reason'', opt_str (tr_reason r)), (''tests'', PList []),
     (''blockers'', strs (tr_blockers r)), (''assumptions'', PList []), (''decisions'', PList []), (''timestamps'', PDict [])])"

definition call_hook :: "orchestrator \<Rightarrow> string \<Rightarrow> run_event \<Rightarrow> unit orch" where
  "call_hook oc name ev = whenP (is_hook oc name) (emit ev)"

text \<open>\<open>_notify\<close>: V1 calls both lifecycle hooks, V2 the first that exists.\<close>

definition notify :: "orchestrator \<Rightarrow> string \<Rightarrow> unit orch" where
  "notify oc i = bindP (getP (life_of i)) (\<lambda>l.
     if is_v2 oc then
       (if is_hook oc ''lifecycle'' then emit (HookLifecycle ''lifecycle'' l)
        else whenP (is_hook oc ''on_lifecycle'') (emit (HookLifecycle ''on_lifecycle'' l)))
     else thenP (call_hook oc ''lifecycle'' (HookLifecycle ''lifecycle'' l))
       (call_hook oc ''on_lifecycle'' (HookLifecycle ''on_lifecycle'' l)))"

text \<open>\<open>self.reports.append\<close>, then the report and evidence hooks; the copy of the wave may fail.\<close>

definition add_report :: "orchestrator \<Rightarrow> task_report \<Rightarrow> pyval \<Rightarrow> unit orch" where
  "add_report oc r evidence = (if has_proxy (tr_wave r) then raiseP RunTypeError else
     thenP (modP (\<lambda>st. st\<lparr>os_reports := os_reports st @ [task_report_dict r]\<rparr>))
     (thenP (emit (Recorded r))
     (thenP (call_hook oc ''report'' (HookReport (task_report_dict r)))
       (call_hook oc ''evidence'' (HookEvidence (tr_task_id r) evidence)))))"

definition record_report :: "orchestrator \<Rightarrow> TaskSpec \<Rightarrow> pyval \<Rightarrow> pyval \<Rightarrow> string option \<Rightarrow> string option \<Rightarrow> unit orch" where
  "record_report oc t out evidence err rsn = bindP (getP (life_of (tk_id t))) (\<lambda>l.
     add_report oc \<lparr>tr_task_id = tk_id t, tr_wave = tk_wave t, tr_status = state_value (lc_state l), tr_attempt = lc_attempt l,
       tr_output = sanitize_payload out, tr_evidence = sanitize_payload evidence,
       tr_error = sanitize_text (opt_str err) None, tr_reason = sanitize_text (opt_str rsn) None,
       tr_agent_id = tk_owner t, tr_role = Some (tk_role t), tr_outputs = sanitize_payload out,
       tr_blockers = (if lc_state l = BLOCKED \<and> filled_text rsn then [the rsn] else [])\<rparr> evidence)"

definition mark_dry_run :: "orchestrator \<Rightarrow> TaskSpec \<Rightarrow> unit orch" where
  "mark_dry_run oc t = thenP (modP (\<lambda>st. st\<lparr>os_dry_seen := tk_id t # os_dry_seen st\<rparr>))
     (bindP (getP (life_of (tk_id t))) (\<lambda>l.
     let evidence = PDict [(PStr ''dry_run'', PBool True)] in
     add_report oc \<lparr>tr_task_id = tk_id t, tr_wave = tk_wave t, tr_status = ''dry_run'', tr_attempt = lc_attempt l,
       tr_output = PDict [(PStr ''would_dispatch'', PBool True)], tr_evidence = evidence, tr_error = None,
       tr_reason = Some ''dry_run'', tr_agent_id = None, tr_role = None, tr_outputs = PNone, tr_blockers = []\<rparr> evidence))"

definition lifecycle_entry :: "string \<times> task_lifecycle \<Rightarrow> pyval" where
  "lifecycle_entry il = (let l = snd il in PDict (str_keyed [(''task_id'', PStr (fst il)), (''status'', PStr (state_value (lc_state l))),
     (''attempt'', PInt (lc_attempt l)), (''max_attempts'', PInt (lc_max_attempts l)),
     (''outputs'', sanitize_payload (lc_outputs l)), (''evidence'', sanitize_payload (lc_evidence l)),
     (''reason'', opt_str (sanitize_text (opt_str (lc_reason l)) None)), (''error'', opt_str (sanitize_text (opt_str (lc_error l)) None)),
     (''retryable'', PBool (lc_retryable l)), (''history'', sanitize_payload (PList (map history_dict (lc_history l)))),
     (''agent'', opt_str (lc_agent l)), (''heartbeat'', opt_num (lc_heartbeat l)), (''started_at'', opt_num (lc_started_at l)),
     (''finished_at'', opt_num (lc_finished_at l)), (''final_report'', sanitize_payload (lc_final_report l)),
     (''report_final'', sanitize_payload (lc_report_final l))]))"

text \<open>The attributes of a gate object; enumeration members, instants and durations are opaque to the redaction.\<close>

fun gate_attributes :: "gate_value \<Rightarrow> pyval" where
  "gate_attributes (HumanGate g) = PDict (str_keyed [(''owner'', PStr (hg_owner g)), (''identity'', PStr (hg_identity g)),
     (''decision'', POther 0), (''scope'', hg_scope g), (''run'', PStr (hg_run g)), (''evidence_digest'', PStr (hg_evidence_digest g)),
     (''artifact_digest'', PStr (hg_artifact_digest g)), (''created_at'', POther 0), (''updated_at'', POther 0),
     (''freshness_window'', POther 0), (''blockers'', PTuple (hg_blockers g)), (''clock'', PNone)])"
| "gate_attributes (ResultGate g) = PDict (str_keyed [(''gate_id'', PStr (gr_gate_id g)), (''gate_type'', PStr (gr_gate_type g)),
     (''status'', POther 0), (''owner'', opt_str (gr_owner g)), (''decision'', opt_str (gr_decision g)), (''blockers'', PList (gr_blockers g)),
     (''evidence'', PList (gr_evidence g)), (''reports'', PList (gr_reports g)), (''details'', PDict (gr_details g))])"
| "gate_attributes (SpecGate g) = GateSpec_to_dict g"
| "gate_attributes (ValueGate v) = v"

definition checkpoint_snapshot :: "orchestrator \<Rightarrow> orch_state \<Rightarrow> pyval" where
  "checkpoint_snapshot oc st = (let p = oc_plan oc; ls = os_lifecycles st in PDict (str_keyed
     [(''schema_version'', PInt 1), (''feature'', PStr (oc_feature oc)), (''wave'', PInt (os_current_wave st)),
      (''last_wave'', PInt (os_last_wave st)), (''created_at'', PStr (oc_created_at oc)),
      (''tasks'', PDict (str_keyed (map (\<lambda>t. (tk_id t, PDict [(PStr ''id'', PStr (tk_id t))])) (fp_tasks p)))),
      (''lifecycle'', PDict (str_keyed (map (\<lambda>il. (fst il, lifecycle_entry il)) ls))),
      (''reports'', sanitize_payload (PList (os_reports st))),
      (''evidence'', PList (map (\<lambda>r. case as_mapping r of None \<Rightarrow> PNone | Some d \<Rightarrow> sanitize_payload (mget_or d ''evidence'' PNone)) (os_reports st))),
      (''blockers'', strs (map fst (filter (\<lambda>il. lc_state (snd il) = BLOCKED) ls))),
      (''attempts'', PDict (str_keyed (map (\<lambda>il. (fst il, PInt (lc_attempt (snd il)))) ls))),
      (''gates'', PDict (str_keyed (map (\<lambda>ig. (fst ig, sanitize_payload (gate_attributes (snd ig)))) (oc_gates oc)))),
      (''agents'', PDict (str_keyed (map (\<lambda>a. (ag_id a, AgentSpec_to_dict a)) (fp_agents p))))]))"

definition orch_checkpoint :: "orchestrator \<Rightarrow> unit orch" where
  "orch_checkpoint oc = bindP (getP (checkpoint_snapshot oc)) (\<lambda>s.
     thenP (call_hook oc ''checkpoint'' (HookSnapshot ''checkpoint'' s)) (call_hook oc ''save'' (HookSnapshot ''save'' s)))"

definition block_with_report :: "orchestrator \<Rightarrow> TaskSpec \<Rightarrow> string \<Rightarrow> pyval \<Rightarrow> unit orch" where
  "block_with_report oc t rsn evidence = thenP (on_life (tk_id t) (\<lambda>l. block l rsn))
     (thenP (record_report oc t PNone evidence None (Some rsn)) (thenP (notify oc (tk_id t)) (orch_checkpoint oc)))"

section \<open>One attempt\<close>

text \<open>Status, result, evidence, error and reason of a reply.\<close>

fun reply_fields :: "dispatch_reply \<Rightarrow> pyval \<times> pyval \<times> pyval \<times> pyval \<times> pyval" where
  "reply_fields ReplyRaise = (PStr ''failed'', PNone, PDict [], opt_str (sanitize_text (POther 0) (Some ''dispatch failed'')), PNone)"
| "reply_fields (ReplyObject status out evidence err rsn) = (status, out, evidence, err, rsn)"
| "reply_fields (ReplyMap d) = (mget_or d ''status'' PNone, mget_or d ''result'' (mget_or d ''output'' PNone),
     mget_or d ''evidence'' PNone, mget_or d ''error'' PNone, mget_or d ''reason'' PNone)"
| "reply_fields ReplyOther = (PStr ''failed'', PNone, PDict [], PNone, PNone)"

definition timed_out :: "pyval \<Rightarrow> bool" where
  "timed_out status \<longleftrightarrow> status \<in> {PStr ''timeout'', PStr ''timed_out''}"

definition dispatch_context :: "orchestrator \<Rightarrow> int \<Rightarrow> pymap" where
  "dispatch_context oc n = str_keyed [(''attempt'', PInt n), (''dry_run'', PBool False), (''report_v2'', PBool (is_v2 oc)),
     (''inputs'', PDict (oc_context oc))]"

definition dispatch_task :: "orch_env \<Rightarrow> orchestrator \<Rightarrow> TaskSpec \<Rightarrow> dispatch_reply orch" where
  "dispatch_task env oc t = bindP (getP (life_of (tk_id t))) (\<lambda>l.
     if has_proxy (PDict (oc_context oc)) then retP ReplyRaise
     else bindP (getP os_tick) (\<lambda>k. thenP (tick 1) (thenP (emit (Dispatched (tk_id t) (lc_attempt l)))
       (retP (oe_dispatch env k t (dispatch_context oc (lc_attempt l)))))))"

text \<open>\<open>_commit_v2_report\<close>: true when the report is committed now or was before, false when it raises.\<close>

definition commit_report :: "orch_env \<Rightarrow> orchestrator \<Rightarrow> TaskSpec \<Rightarrow> AgentReportV2 \<Rightarrow> bool orch" where
  "commit_report env oc t r = (let key = (tk_id t, v_attempt r) in
     bindP (getP os_committed) (\<lambda>done.
     if key \<in> set done then retP True
     else if \<not> is_hook oc ''commit_report'' \<and> \<not> is_hook oc ''commit'' then retP False
     else if \<not> isOK (AgentReportV2_to_dict r) then retP False
     else bindP (getP os_tick) (\<lambda>k. thenP (tick 1) (thenP (emit (CommitCall (fst key) (snd key)))
       (if oe_commit env k then thenP (modP (\<lambda>st. st\<lparr>os_committed := key # os_committed st\<rparr>)) (retP True)
        else retP False)))))"

text \<open>The V2 part of an attempt: status, output, evidence, error, reason and whether a report was committed.\<close>

type_synonym outcome = "pyval \<times> pyval \<times> pyval \<times> pyval \<times> pyval \<times> bool"

definition incomplete_report :: "outcome \<Rightarrow> outcome" where
  "incomplete_report x = (case x of (status, out, evidence, err, rsn, v) \<Rightarrow>
     if status = PStr ''completed''
     then (PStr ''failed'', out, evidence, PStr ''incomplete AgentReportV2'', PStr ''invalid terminal report'', False)
     else (status, out, evidence, err, rsn, False))"

definition report_candidate :: "pyval \<Rightarrow> pyval" where
  "report_candidate out = (case as_mapping out of None \<Rightarrow> PNone | Some d \<Rightarrow> mget_or d ''report'' PNone)"

definition v2_outcome :: "orch_env \<Rightarrow> orchestrator \<Rightarrow> TaskSpec \<Rightarrow> outcome \<Rightarrow> outcome orch" where
  "v2_outcome env oc t x = (case x of (status, out, evidence, err, rsn, v) \<Rightarrow>
     bindP (getP (life_of (tk_id t))) (\<lambda>l.
     case parse_agent_report_v2 (oe_read env) (oe_show env) (oe_str env) True (report_candidate out) of
       Inl e \<Rightarrow> retP (incomplete_report x)
     | Inr p \<Rightarrow> if v_task_id p \<noteq> tk_id t \<or> v_attempt p \<noteq> lc_attempt l then retP (incomplete_report x)
         else if v_status p = ''completed'' then
           bindP (commit_report env oc t p) (\<lambda>ok.
             if ok then retP (PStr ''completed'', v_outputs p, v_evidence p, err, rsn, True)
             else retP (incomplete_report (status, v_outputs p, v_evidence p, err, rsn, False)))
         else retP (PStr (v_status p), v_outputs p, v_evidence p, or_else (v_error p) (v_reason p), v_reason p, False)))"

definition completion_invalid :: "pyval \<times> pyval" where
  "completion_invalid = (PStr (''completed report contract inv'' @ [CHR 0xE1] @ ''lido''),
     PStr (''outputs/evidence ausentes ou acceptance n'' @ [CHR 0xE3] @ ''o atendida''))"

text \<open>A failed attempt; the result says whether the task is tried again.\<close>

definition fail_attempt :: "orch_env \<Rightarrow> orchestrator \<Rightarrow> TaskSpec \<Rightarrow> pyval \<Rightarrow> pyval \<Rightarrow> pyval \<Rightarrow> pyval \<Rightarrow> bool orch" where
  "fail_attempt env oc t status evidence err rsn = (let safe_error = sanitize_or err ''dispatch failed'';
       safe_reason = sanitize_text rsn None; policy = tk_retry_policy t in
     bindP (orch_clock env) (\<lambda>now.
     thenP (on_life (tk_id t) (\<lambda>l. fail l safe_error (\<not> timed_out status) (Some now)))
     (thenP (record_report oc t PNone (or_else evidence (PDict [(PStr ''error'', PStr safe_error)])) (Some safe_error) safe_reason)
     (bindP (getP (life_of (tk_id t))) (\<lambda>l.
       if \<not> (lc_retryable l \<and> (rp_retryable_errors policy = [] \<or> retry_error_matches safe_error (rp_retryable_errors policy)))
          \<or> lc_attempt l \<ge> rp_max_attempts policy then retP False
       else thenP (emit (Slept (rp_backoff_seconds policy))) (bindP (orch_clock env) (\<lambda>_.
         thenP (on_life (tk_id t) retry) (thenP (notify oc (tk_id t)) (retP True)))))))))"

definition complete_attempt :: "orch_env \<Rightarrow> orchestrator \<Rightarrow> TaskSpec \<Rightarrow> pyval \<Rightarrow> pyval \<Rightarrow> bool orch" where
  "complete_attempt env oc t out evidence = bindP (orch_clock env) (\<lambda>now.
     thenP (on_life (tk_id t) (\<lambda>l. complete l out evidence (Some now)))
     (thenP (record_report oc t out evidence None None) (retP False)))"

definition finish_attempt :: "orch_env \<Rightarrow> orchestrator \<Rightarrow> TaskSpec \<Rightarrow> outcome \<Rightarrow> bool orch" where
  "finish_attempt env oc t x = (case x of (status, out, evidence, err, rsn, v2_valid) \<Rightarrow>
     (case (if status = PStr ''completed'' then (if v2_valid then Some (out, evidence) else normalize_completion t out evidence) else None) of
       Some (o', e') \<Rightarrow> complete_attempt env oc t o' e'
     | None \<Rightarrow>
         if status = PStr ''completed'' then fail_attempt env oc t status evidence (fst completion_invalid) (snd completion_invalid)
         else if \<not> hashable status then raiseP RunTypeError
         else if timed_out status then fail_attempt env oc t status evidence (PStr ''timeout'') (PStr ''timeout'')
         else fail_attempt env oc t status evidence err rsn))"

definition agent_name :: "TaskSpec \<Rightarrow> string" where
  "agent_name t = (if filled_text (tk_owner t) then the (tk_owner t) else tk_role t)"

definition attempt_once :: "orch_env \<Rightarrow> orchestrator \<Rightarrow> TaskSpec \<Rightarrow> bool orch" where
  "attempt_once env oc t =
     bindP (orch_clock env) (\<lambda>started.
     thenP (on_life (tk_id t) (\<lambda>l. lc_start l (agent_name t) (Some started)))
     (thenP (notify oc (tk_id t))
     (bindP (dispatch_task env oc t) (\<lambda>reply.
     bindP (orch_clock env) (\<lambda>ended.
     case reply_fields reply of (status, out, evidence, err, rsn) \<Rightarrow>
     let status = (case oc_timeout oc of None \<Rightarrow> status | Some limit \<Rightarrow> if ended - started \<ge> limit then PStr ''timeout'' else status);
         x = (status, out, evidence, err, rsn, False)
     in bindP (if is_v2 oc then v2_outcome env oc t x else retP x) (finish_attempt env oc t))))))"

definition attempts :: "orch_env \<Rightarrow> orchestrator \<Rightarrow> TaskSpec \<Rightarrow> unit orch" where
  "attempts env oc t = repeatP (attempt_once env oc t)"

section \<open>One task\<close>

definition execute_task :: "orch_env \<Rightarrow> orchestrator \<Rightarrow> TaskSpec \<Rightarrow> unit orch" where
  "execute_task env oc t = bindP (getP (life_of (tk_id t))) (\<lambda>l.
     if lc_state l = COMPLETED then retP ()
     else case agent_block oc t of
       Some (rsn, evidence) \<Rightarrow> block_with_report oc t rsn evidence
     | None \<Rightarrow> bindP (liftP (missing_inputs env oc t)) (\<lambda>missing.
         if missing \<noteq> [] then block_with_report oc t ''input ausente'' (PDict [(PStr ''missing_inputs'', strs missing)])
         else if blocked_condition env oc t
           then block_with_report oc t (''blocked_when n'' @ [CHR 0xE3] @ ''o resolvido'') (PDict [(PStr ''blocked_when'', strs (tk_blocked_when t))])
         else thenP (whenP (lc_state l = PENDING) (thenP (on_life (tk_id t) mark_ready) (notify oc (tk_id t))))
           (thenP (attempts env oc t) (thenP (notify oc (tk_id t)) (orch_checkpoint oc)))))"

section \<open>Waves\<close>

definition with_states :: "LifecycleState set \<Rightarrow> orch_state \<Rightarrow> string list" where
  "with_states S st = map fst (filter (\<lambda>il. lc_state (snd il) \<in> S) (os_lifecycles st))"

definition task_of :: "orchestrator \<Rightarrow> string \<Rightarrow> TaskSpec" where
  "task_of oc i = the (dget (by_id (fp_tasks (oc_plan oc))) i)"

definition orch_ready_ids :: "orch_env \<Rightarrow> orchestrator \<Rightarrow> string list orch" where
  "orch_ready_ids env oc = bindP (passed_gates env oc) (\<lambda>passed.
     bindP (getP (\<lambda>st. st)) (\<lambda>st.
     case compute_ready_tasks (oe_str env) (Plan (oc_plan oc)) (with_states {COMPLETED, SKIPPED} st) (with_states {SKIPPED} st) passed of
       Inl e \<Rightarrow> raiseP (ValidationFault e)
     | Inr ids \<Rightarrow> retP (filter (\<lambda>i. lc_state (life_of i st) \<in> {PENDING, READY} \<and> i \<notin> set (os_dry_seen st)
         \<and> agent_compatible oc (task_of oc i)) ids)))"

definition block_unresolved :: "orchestrator \<Rightarrow> TaskSpec \<Rightarrow> unit orch" where
  "block_unresolved oc t = bindP (getP (\<lambda>st. st)) (\<lambda>st.
     if lc_state (life_of (tk_id t) st) \<in> {COMPLETED, FAILED, BLOCKED, SKIPPED} then retP ()
     else case agent_block oc t of
       Some (rsn, evidence) \<Rightarrow> block_with_report oc t rsn evidence
     | None \<Rightarrow> whenP (list_ex (\<lambda>d. lc_state (life_of d st) \<in> {FAILED, BLOCKED}) (tk_depends_on t))
         (thenP (on_life (tk_id t) (\<lambda>l. block l ''dependency failed or blocked'')) (thenP (notify oc (tk_id t)) (orch_checkpoint oc))))"

definition block_unresolvable :: "orchestrator \<Rightarrow> unit orch" where
  "block_unresolvable oc = forP (block_unresolved oc) (sorted_tasks oc)"

definition wave_gates :: "orchestrator \<Rightarrow> string \<Rightarrow> string list" where
  "wave_gates oc wave = concat (map wv_gates (filter (\<lambda>w. orch_wave_key (wv_id w) = orch_wave_key wave) (fp_waves (oc_plan oc))))"

primrec missing_gates :: "orch_env \<Rightarrow> orchestrator \<Rightarrow> string list \<Rightarrow> string list orch" where
  "missing_gates env oc [] = retP []"
| "missing_gates env oc (g # gs) = bindP (gate_open_now env oc g) (\<lambda>ok.
     bindP (missing_gates env oc gs) (\<lambda>ms. retP (if ok then ms else g # ms)))"

definition block_stalled :: "orch_env \<Rightarrow> orchestrator \<Rightarrow> string \<Rightarrow> TaskSpec \<Rightarrow> unit orch" where
  "block_stalled env oc wave t = bindP (getP (life_of (tk_id t))) (\<lambda>l.
     if orch_wave_key (task_wave env t) \<noteq> orch_wave_key wave \<or> lc_state l \<notin> {PENDING, READY} then retP ()
     else bindP (missing_gates env oc (wave_gates oc wave)) (\<lambda>missing.
       whenP (missing \<noteq> []) (thenP (on_life (tk_id t) (\<lambda>l. block l (''gate: '' @ join '', '' (sort missing))))
         (thenP (notify oc (tk_id t)) (orch_checkpoint oc)))))"

definition block_wave_stalls :: "orch_env \<Rightarrow> orchestrator \<Rightarrow> string \<Rightarrow> unit orch" where
  "block_wave_stalls env oc wave = forP (block_stalled env oc wave) (sorted_tasks oc)"

definition run_batch :: "orch_env \<Rightarrow> orchestrator \<Rightarrow> string list \<Rightarrow> unit orch" where
  "run_batch env oc batch = thenP (emit (RunBatch batch))
     (thenP (if oc_dry_run oc then forP (\<lambda>i. mark_dry_run oc (task_of oc i)) batch
             else forP (\<lambda>i. execute_task env oc (task_of oc i)) batch)
       (block_unresolvable oc))"

definition wave_ready :: "orch_env \<Rightarrow> orchestrator \<Rightarrow> string \<Rightarrow> string list orch" where
  "wave_ready env oc wave = bindP (orch_ready_ids env oc) (\<lambda>ids.
     retP (filter (\<lambda>i. orch_wave_key (task_wave env (task_of oc i)) = orch_wave_key wave) ids))"

definition wave_round :: "orch_env \<Rightarrow> orchestrator \<Rightarrow> string \<Rightarrow> bool orch" where
  "wave_round env oc wave = bindP (wave_ready env oc wave) (\<lambda>ready. if ready = [] then retP False
     else thenP (run_batch env oc (take (nat (oc_max_parallel oc)) ready)) (retP True))"

definition wave_loop :: "orch_env \<Rightarrow> orchestrator \<Rightarrow> string \<Rightarrow> unit orch" where
  "wave_loop env oc wave = repeatP (wave_round env oc wave)"

definition run_wave :: "orch_env \<Rightarrow> orchestrator \<Rightarrow> string \<Rightarrow> unit orch" where
  "run_wave env oc wave = thenP (modP (\<lambda>st. st\<lparr>os_current_wave := wave_number wave, os_last_wave := wave_number wave\<rparr>))
     (thenP (wave_loop env oc wave) (block_wave_stalls env oc wave))"

definition run_plan :: "orch_env \<Rightarrow> orchestrator \<Rightarrow> unit orch" where
  "run_plan env oc = thenP (block_unresolvable oc) (bindP (liftP (ordered_waves env oc)) (\<lambda>waves.
     thenP (forP (run_wave env oc) waves) (block_unresolvable oc)))"

text \<open>\<open>{i: self.lifecycles[i].status for i in sorted(self.lifecycles)}\<close>.\<close>

definition final_statuses :: "orch_state \<Rightarrow> string dict" where
  "final_statuses st = map (\<lambda>i. (i, state_value (lc_state (life_of i st)))) (sort (dkeys (os_lifecycles st)))"

section \<open>Construction and resumption\<close>

definition represented :: "'a option \<Rightarrow> (orch_error, 'a) result" where
  "represented x = (case x of None \<Rightarrow> Inl NotRepresented | Some a \<Rightarrow> Inr a)"

definition as_state :: "pyval \<Rightarrow> (orch_error, LifecycleState) result" where
  "as_state v = (case lc_state_of (StateOther v) of Inl e \<Rightarrow> Inl OrchestratorError | Inr s \<Rightarrow> Inr s)"

text \<open>
  One task of \<open>_resume\<close>, from the task's entry in the checkpoint's lifecycle mapping (empty without one).
  The checkpoint has validated the entry; agents and histories of other types than a run writes are not
  represented.
\<close>

definition resume_status :: "TaskSpec \<Rightarrow> pymap \<Rightarrow> pyval" where
  "resume_status t snap = (let s = mget_or snap ''status'' (mget_or snap ''state'' (PStr (tk_status t))) in
     if s = PStr (state_value RUNNING) then PStr (state_value READY) else s)"

definition resume_task :: "TaskSpec \<Rightarrow> pymap \<Rightarrow> (orch_error, task_lifecycle) result" where
  "resume_task t snap = (let get = (\<lambda>k. mget_or snap k PNone) in
     bindR (represented (as_int (mget_or snap ''attempt'' (PInt 0)))) (\<lambda>attempt.
     bindR (represented (read_text (get ''agent''))) (\<lambda>agent. bindR (represented (read_time (get ''heartbeat''))) (\<lambda>hb.
     bindR (represented (read_time (get ''started_at''))) (\<lambda>sa. bindR (represented (read_time (get ''finished_at''))) (\<lambda>fa.
     bindR (represented (read_history (mget_or snap ''history'' (PList [])))) (\<lambda>hist.
     bindR (as_state (resume_status t snap)) (\<lambda>s.
     case TaskLifecycle_post_init \<lparr>lc_task_id = tk_id t, lc_state = s, lc_attempt = attempt,
         lc_max_attempts = rp_max_attempts (tk_retry_policy t), lc_agent = agent, lc_heartbeat = hb, lc_started_at = sa,
         lc_finished_at = fa, lc_outputs = get ''outputs'', lc_evidence = get ''evidence'',
         lc_reason = sanitize_text (get ''reason'') None, lc_error = sanitize_text (get ''error'') None, lc_history = hist,
         lc_final_report = mget_or snap ''final_report'' (get ''report_final''), lc_report_final = get ''report_final'',
         lc_retryable = truthy (mget_or snap ''retryable'' (PBool True))\<rparr> of
       Inl e \<Rightarrow> Inl OrchestratorError | Inr l \<Rightarrow> Inr l))))))))"

text \<open>\<open>_resume\<close>: \<open>lifecycle\<close> and \<open>reports\<close> of the checkpoint, empty without one.\<close>

definition resume_entry :: "pyval dict \<Rightarrow> TaskSpec \<Rightarrow> (orch_error, string \<times> task_lifecycle) result" where
  "resume_entry lifecycle t = (case as_mapping (dget_or lifecycle (tk_id t) (PDict [])) of
     None \<Rightarrow> Inl NotRepresented
   | Some snap \<Rightarrow> if has_proxy (PDict snap) then Inl RunTypeError else bindR (resume_task t snap) (\<lambda>l. Inr (tk_id t, l)))"

definition resume_report :: "pyval \<Rightarrow> pyval" where
  "resume_report r = (case as_pdict r of None \<Rightarrow> sanitize_payload r
     | Some d \<Rightarrow> sanitize_payload (PDict
         (mset_key (PStr ''reason'') (opt_str (sanitize_text (mget_or d ''reason'' PNone) None))
         (mset_key (PStr ''error'') (opt_str (sanitize_text (mget_or d ''error'' PNone) None)) d))))"

definition orch_resume :: "orchestrator \<Rightarrow> pyval dict \<Rightarrow> pyval list \<Rightarrow> (orch_error, orch_state) result" where
  "orch_resume oc lifecycle reports = bindR (mapR (resume_entry lifecycle) (fp_tasks (oc_plan oc))) (\<lambda>ls.
     if has_proxy (PList reports) then Inl RunTypeError else
     Inr \<lparr>os_lifecycles = fold (\<lambda>il d. dset (fst il) (snd il) d) ls [], os_reports = map resume_report reports, os_dry_seen = [],
       os_current_wave = 0, os_last_wave = 0, os_committed = [], os_tick = 0, os_trace = []\<rparr>)"

text \<open>The plan argument of the constructor: an object, or a mapping that is copied and may be a V2 plan.\<close>

definition orch_plan :: "plan_input \<Rightarrow> (orch_error, FleetPlan \<times> pyval option) result" where
  "orch_plan inp = (case inp of Plan p \<Rightarrow> Inr (p, None)
   | RawPlan v \<Rightarrow> (case as_mapping v of None \<Rightarrow> Inl OrchestratorError | Some _ \<Rightarrow>
       (case strict_copy v of None \<Rightarrow> Inl OrchestratorError | Some c \<Rightarrow>
       (case (as_pdict c, runtime_aliases c) of (Some cd, Some r) \<Rightarrow>
          (case as_pdict r of None \<Rightarrow> Inl OrchestratorError | Some rd \<Rightarrow>
           (let v2 = (mget_or cd ''schema_version'' (mget_or cd ''schemaVersion'' PNone) = PStr V2_SCHEMA_VERSION);
                rd = (if v2 then AList.delete (PStr ''run_id'') (mset_key (PStr ''schema_version'') (PStr ''1'') rd) else rd)
            in case FleetPlan_from_dict (PDict rd) of Inl e \<Rightarrow> Inl OrchestratorError
               | Inr p \<Rightarrow> Inr (p, if v2 then Some c else None)))
        | _ \<Rightarrow> Inl OrchestratorError))))"

definition run_parallel_arg :: "pyval \<Rightarrow> (orch_error, int) result" where
  "run_parallel_arg v = (case as_int v of None \<Rightarrow> Inl OrchestratorError | Some n \<Rightarrow> if n < 1 then Inl OrchestratorError else Inr n)"

definition run_timeout_arg :: "pyval \<Rightarrow> (orch_error, rat option) result" where
  "run_timeout_arg v = (if v = PNone then Inr None else
     case (case v of PInt n \<Rightarrow> float_of_int n | PFloat f \<Rightarrow> as_finite f | _ \<Rightarrow> None) of
       None \<Rightarrow> Inl OrchestratorError
     | Some q \<Rightarrow> if q < 0 then Inl OrchestratorError else Inr (Some q))"

definition text_or :: "pyval \<Rightarrow> string \<Rightarrow> string" where
  "text_or v d = (case as_str v of None \<Rightarrow> d | Some s \<Rightarrow> if blank s then d else strip s)"

definition context_arg :: "pyval \<Rightarrow> (orch_error, pymap) result" where
  "context_arg v = (if v = PNone then Inr [] else case as_mapping v of None \<Rightarrow> Inl OrchestratorError | Some d \<Rightarrow> Inr d)"

record orch_args =
  ag_plan :: plan_input
  ag_max_parallel :: pyval
  ag_timeout :: pyval
  ag_dry_run :: bool
  ag_gates :: "gate_value dict option"
  ag_context :: pyval
  ag_input_values :: pyval
  ag_run_id :: pyval
  ag_feature :: pyval
  ag_created_at :: pyval
  ag_hooks :: "string list"
  ag_lifecycle :: "pyval dict"
  ag_reports :: "pyval list"

definition FleetOrchestrator_new :: "orch_args \<Rightarrow> (orch_error, orchestrator \<times> orch_state) result" where
  "FleetOrchestrator_new a = bindR (orch_plan (ag_plan a)) (\<lambda>(p, canonical).
     bindR (case validate_plan (Plan p) of Inl e \<Rightarrow> Inl (ValidationFault e) | Inr r \<Rightarrow> Inr r) (\<lambda>_.
     bindR (run_parallel_arg (ag_max_parallel a)) (\<lambda>par. bindR (run_timeout_arg (ag_timeout a)) (\<lambda>tmo.
     bindR (context_arg (ag_context a)) (\<lambda>ctx. bindR (context_arg (ag_input_values a)) (\<lambda>inputs.
     let oc = \<lparr>oc_plan = p, oc_canonical = canonical, oc_max_parallel = par, oc_timeout = tmo, oc_dry_run = ag_dry_run a,
         oc_gates = (case ag_gates a of None \<Rightarrow> fold (\<lambda>g d. dset (gt_id g) (SpecGate g) d) (fp_gates p) [] | Some gs \<Rightarrow> gs),
         oc_context = fold (\<lambda>kv d. mset_key (fst kv) (snd kv) d) inputs ctx,
         oc_context_supplied = (ag_context a \<noteq> PNone \<or> ag_input_values a \<noteq> PNone), oc_run_id = ag_run_id a,
         oc_feature = text_or (ag_feature a) ''fleet'', oc_created_at = text_or (ag_created_at a) ''1970-01-01T00:00:00+00:00'',
         oc_hooks = ag_hooks a\<rparr>
     in bindR (orch_resume oc (ag_lifecycle a) (ag_reports a)) (\<lambda>st. Inr (oc, st))))))))"

text \<open>\<open>run\<close> without reconciliation context: construction, the run, and the statuses it reports.\<close>

record run_result =
  rn_statuses :: "string dict"
  rn_reports :: "pyval list"
  rn_waves :: "string list list"

definition executed_waves :: "run_event list \<Rightarrow> string list list" where
  "executed_waves tr = List.map_filter (\<lambda>ev. case ev of RunBatch b \<Rightarrow> Some b | _ \<Rightarrow> None) tr"

definition orch_run :: "orch_env \<Rightarrow> orchestrator \<Rightarrow> run_result orch" where
  "orch_run env oc = thenP (run_plan env oc) (getP (\<lambda>st. \<lparr>rn_statuses = final_statuses st, rn_reports = os_reports st,
     rn_waves = executed_waves (os_trace st)\<rparr>))"

end
