(* ===== verification/OrchestratorFacts.thy ===== *)
theory OrchestratorFacts
  imports OrchestratorRun
begin

text \<open>
  Facts about the run loop: every procedure moves the lifecycles only by the six operations the
  orchestrator calls and only extends the trace, the retry loop and the wave loop return, and the
  invariant that links dispatches, attempts and recorded completions.
\<close>

section \<open>How the state evolves\<close>

inductive run_step :: "task_lifecycle \<Rightarrow> task_lifecycle \<Rightarrow> bool" where
  run_ready: "mark_ready l = Inr l' \<Longrightarrow> lc_state l = PENDING \<Longrightarrow> run_step l l'"
| run_start: "lc_start l agent (Some now) = Inr l' \<Longrightarrow> run_step l l'"
| run_complete: "complete l out evidence (Some now) = Inr l' \<Longrightarrow> lc_state l = RUNNING \<Longrightarrow> run_step l l'"
| run_fail: "fail l err retryable (Some now) = Inr l' \<Longrightarrow> run_step l l'"
| run_retry: "retry l = Inr l' \<Longrightarrow> run_step l l'"
| run_block: "block l rsn = Inr l' \<Longrightarrow> run_step l l'"

lemma run_step_lc: "run_step l l' \<Longrightarrow> lc_step l l'"
  by (induction rule: run_step.induct) (auto intro: step_op lc_op.intros)

definition lives_evolve :: "task_lifecycle dict \<Rightarrow> task_lifecycle dict \<Rightarrow> bool" where
  "lives_evolve a b \<longleftrightarrow> dkeys b = dkeys a \<and> (\<forall>i l. dget a i = Some l \<longrightarrow> (\<exists>l'. dget b i = Some l' \<and> run_step\<^sup>*\<^sup>* l l'))"

definition evolves :: "orch_state \<Rightarrow> orch_state \<Rightarrow> bool" where
  "evolves a b \<longleftrightarrow> lives_evolve (os_lifecycles a) (os_lifecycles b) \<and> (\<exists>new. os_trace b = os_trace a @ new)
     \<and> set (os_dry_seen a) \<subseteq> set (os_dry_seen b)"

lemma evolves_refl [simp, intro]: "evolves a a"
  by (auto simp: evolves_def lives_evolve_def)

lemma lives_evolve_trans: "lives_evolve a b \<Longrightarrow> lives_evolve b c \<Longrightarrow> lives_evolve a c"
  unfolding lives_evolve_def by (metis rtranclp_trans)

lemma evolves_trans: "evolves a b \<Longrightarrow> evolves b c \<Longrightarrow> evolves a c"
  unfolding evolves_def by (metis lives_evolve_trans append_assoc subset_trans)

lemma dkeys_dset: "k \<in> set (dkeys d) \<Longrightarrow> dkeys (dset k v d) = dkeys d"
  by (induction d) (auto simp: dkeys_def dset_def)

lemma lives_evolve_dset: "dget a i = Some l \<Longrightarrow> run_step\<^sup>*\<^sup>* l l' \<Longrightarrow> lives_evolve a (dset i l' a)"
  by (auto simp: lives_evolve_def dict_simps dkeys_dset dget_Some_key)

text \<open>Procedures that keep the task ids and evolve the state, however they end.\<close>

definition has_task :: "string \<Rightarrow> orch_state \<Rightarrow> bool" where
  "has_task i st \<longleftrightarrow> i \<in> set (dkeys (os_lifecycles st))"

lemma has_task_life: "has_task i st \<Longrightarrow> dget (os_lifecycles st) i = Some (life_of i st)"
  using dget_None_iff [of "os_lifecycles st" i] by (auto simp: has_task_def life_of_def)

lemma evolves_has_task: "evolves a b \<Longrightarrow> has_task i b \<longleftrightarrow> has_task i a"
  by (simp add: evolves_def lives_evolve_def has_task_def)

lemma evolves_life: "evolves a b \<Longrightarrow> has_task i a \<Longrightarrow> run_step\<^sup>*\<^sup>* (life_of i a) (life_of i b)"
  using has_task_life [of i a] by (fastforce simp: evolves_def lives_evolve_def life_of_def)

named_theorems evolve_rules \<open>procedures along which the state evolves\<close>

lemma evolve_mod: "(\<And>st. evolves st (f st)) \<Longrightarrow> keeps (evolves a) (modP f)"
  by (rule triple_mod) (blast intro: evolves_trans)

lemma evolve_emit [evolve_rules]: "keeps (evolves a) (emit ev)"
  unfolding emit_def by (rule evolve_mod) (simp add: evolves_def lives_evolve_def)

lemma evolve_tick [evolve_rules]: "keeps (evolves a) (tick n)"
  unfolding tick_def by (rule evolve_mod) (simp add: evolves_def lives_evolve_def)

lemma evolves_set_life: "has_task i a \<Longrightarrow> evolves a st \<Longrightarrow> run_step\<^sup>*\<^sup>* (life_of i st) l' \<Longrightarrow>
    evolves a (st\<lparr>os_lifecycles := dset i l' (os_lifecycles st)\<rparr>)"
proof -
  assume i: "has_task i a" and ev: "evolves a st" and run: "run_step\<^sup>*\<^sup>* (life_of i st) l'"
  have "dget (os_lifecycles st) i = Some (life_of i st)" using i ev has_task_life evolves_has_task by auto
  with run have "evolves st (st\<lparr>os_lifecycles := dset i l' (os_lifecycles st)\<rparr>)"
    by (auto simp: evolves_def intro!: lives_evolve_dset)
  with ev show ?thesis by (rule evolves_trans)
qed

lemma evolve_on_life:
  assumes "\<And>l'. f l = Inr l' \<Longrightarrow> run_step\<^sup>*\<^sup>* l l'" and "has_task i a"
  shows "triple (\<lambda>st. evolves a st \<and> life_of i st = l) (on_life i f) (\<lambda>_. evolves a) (evolves a)"
  unfolding on_life_def
  by (intro triple_bind_get triple_case_sum triple_mod triple_raise) (use assms in \<open>auto intro!: evolves_set_life\<close>)

lemma evolve_life:
  assumes "\<And>l l'. f l = Inr l' \<Longrightarrow> run_step\<^sup>*\<^sup>* l l'" and "has_task i a"
  shows "keeps (evolves a) (on_life i f)"
  using evolve_on_life [where f = f and i = i and a = a] assms unfolding triple_def by blast

lemma complete_run: "complete l out evidence (Some now) = Inr l' \<Longrightarrow> run_step\<^sup>*\<^sup>* l l'"
  using run_complete [of l out evidence now l'] by (cases "lc_state l = RUNNING") (auto simp: complete_def split: if_splits)

lemma evolve_life_ops:
  assumes "has_task i a"
  shows "keeps (evolves a) (on_life i (\<lambda>l. lc_start l agent (Some now)))"
    "keeps (evolves a) (on_life i (\<lambda>l. complete l out evidence (Some now)))"
    "keeps (evolves a) (on_life i (\<lambda>l. fail l err retryable (Some now)))"
    "keeps (evolves a) (on_life i retry)" "keeps (evolves a) (on_life i (\<lambda>l. block l rsn))"
  using assms by (auto intro!: evolve_life intro: run_step.intros complete_run)

lemma evolve_clock [evolve_rules]: "keeps (evolves a) (orch_clock env)"
  unfolding orch_clock_def by (intro keeps_intro evolve_rules)

lemma evolve_hook [evolve_rules]: "keeps (evolves a) (call_hook oc name ev)"
  unfolding call_hook_def by (intro keeps_intro evolve_rules)

lemma evolve_notify [evolve_rules]: "keeps (evolves a) (notify oc i)"
  unfolding notify_def by (intro keeps_intro evolve_rules)

lemma evolve_add_report [evolve_rules]: "keeps (evolves a) (add_report oc r evidence)"
  unfolding add_report_def by (intro keeps_intro evolve_rules evolve_mod) (simp add: evolves_def lives_evolve_def)

lemma evolve_record_report [evolve_rules]: "keeps (evolves a) (record_report oc t out evidence err rsn)"
  unfolding record_report_def by (intro keeps_intro evolve_rules)

lemma evolve_dry_run [evolve_rules]: "keeps (evolves a) (mark_dry_run oc t)"
  unfolding mark_dry_run_def Let_def by (intro keeps_intro evolve_rules evolve_mod) (auto simp: evolves_def lives_evolve_def)

lemma evolve_checkpoint [evolve_rules]: "keeps (evolves a) (orch_checkpoint oc)"
  unfolding orch_checkpoint_def by (intro keeps_intro evolve_rules)

lemma evolve_block_report: "has_task (tk_id t) a \<Longrightarrow> keeps (evolves a) (block_with_report oc t rsn evidence)"
  unfolding block_with_report_def by (intro keeps_intro evolve_rules evolve_life_ops)

lemma evolve_passed_gates [evolve_rules]: "keeps (evolves a) (passed_gates env oc)" "keeps (evolves a) (gate_open_now env oc i)"
  unfolding passed_gates_def gate_open_now_def by (intro keeps_intro evolve_rules)+

lemma evolve_dispatch [evolve_rules]: "keeps (evolves a) (dispatch_task env oc t)"
  unfolding dispatch_task_def by (intro keeps_intro evolve_rules)

lemma evolve_commit [evolve_rules]: "keeps (evolves a) (commit_report env oc t r)"
  unfolding commit_report_def Let_def by (intro keeps_intro evolve_rules evolve_mod) (simp add: evolves_def lives_evolve_def)

lemma evolve_v2_outcome [evolve_rules]: "keeps (evolves a) (v2_outcome env oc t x)"
  unfolding v2_outcome_def by (intro keeps_bind keeps_intro evolve_rules)

lemma evolve_fail_attempt: "has_task (tk_id t) a \<Longrightarrow> keeps (evolves a) (fail_attempt env oc t status evidence err rsn)"
  unfolding fail_attempt_def Let_def by (intro keeps_bind [OF evolve_clock] keeps_intro evolve_rules evolve_life_ops)

lemma evolve_complete_attempt: "has_task (tk_id t) a \<Longrightarrow> keeps (evolves a) (complete_attempt env oc t out evidence)"
  unfolding complete_attempt_def by (intro keeps_bind [OF evolve_clock] keeps_intro evolve_rules evolve_life_ops)

lemma evolve_attempt: "has_task (tk_id t) a \<Longrightarrow> keeps (evolves a) (attempt_once env oc t)"
  unfolding attempt_once_def finish_attempt_def Let_def
  by (intro keeps_bind [OF evolve_clock] keeps_bind [OF evolve_dispatch] keeps_intro evolve_rules evolve_life_ops
      keeps_bind [OF triple_if] evolve_complete_attempt evolve_fail_attempt)

lemma evolve_attempts: "has_task (tk_id t) a \<Longrightarrow> keeps (evolves a) (attempts env oc t)"
  unfolding attempts_def by (rule triple_repeat) (use evolve_attempt in simp)

definition make_ready :: "orchestrator \<Rightarrow> string \<Rightarrow> task_lifecycle \<Rightarrow> unit orch" where
  "make_ready oc i l = whenP (lc_state l = PENDING) (thenP (on_life i mark_ready) (notify oc i))"

lemma evolve_make_ready: "has_task i a \<Longrightarrow>
    triple (\<lambda>st. evolves a st \<and> life_of i st = l) (make_ready oc i l) (\<lambda>_. evolves a) (evolves a)"
  unfolding make_ready_def
  by (intro triple_when triple_then [where R = "evolves a"] evolve_notify evolve_on_life) (auto intro: run_ready)

lemmas execute_task_alt = execute_task_def [folded make_ready_def]

lemma triple_strengthen: "triple P m Q X \<Longrightarrow> triple (\<lambda>s. P s \<and> R s) m Q X"
  unfolding triple_def by blast

lemma evolve_execute: "has_task (tk_id t) a \<Longrightarrow> keeps (evolves a) (execute_task env oc t)"
  unfolding execute_task_alt
  by (intro triple_bind_get triple_splits triple_bind_lift triple_then [OF evolve_make_ready] triple_strengthen
      evolve_attempts evolve_block_report evolve_rules keeps_then) (auto intro: triple_ret)

lemma evolve_ready_ids [evolve_rules]: "keeps (evolves a) (orch_ready_ids env oc)"
  unfolding orch_ready_ids_def by (intro keeps_bind [OF evolve_passed_gates(1)] keeps_intro)

lemma evolve_wave_ready [evolve_rules]: "keeps (evolves a) (wave_ready env oc wave)"
  unfolding wave_ready_def by (intro keeps_bind [OF evolve_ready_ids] keeps_intro)

lemma evolve_unresolved: "has_task (tk_id t) a \<Longrightarrow> keeps (evolves a) (block_unresolved oc t)"
  unfolding block_unresolved_def by (intro keeps_intro evolve_rules evolve_life_ops evolve_block_report)

lemma evolve_missing_gates [evolve_rules]: "keeps (evolves a) (missing_gates env oc gs)"
proof (induction gs)
  case (Cons g gs)
  then show ?case by (simp) (intro keeps_bind [OF evolve_passed_gates(2)] keeps_bind [OF Cons.IH] keeps_intro)
qed (simp add: keeps_simple)

lemma evolve_stalled: "has_task (tk_id t) a \<Longrightarrow> keeps (evolves a) (block_stalled env oc wave t)"
  unfolding block_stalled_def by (intro keeps_get triple_if keeps_bind [OF evolve_missing_gates] keeps_intro evolve_rules evolve_life_ops)

text \<open>The state has a lifecycle for every task of the plan.\<close>

definition all_tasks :: "orchestrator \<Rightarrow> orch_state \<Rightarrow> bool" where
  "all_tasks oc st \<longleftrightarrow> (\<forall>t \<in> set (fp_tasks (oc_plan oc)). has_task (tk_id t) st)"

lemma by_id_Some: "dget (by_id ts) i = Some t \<Longrightarrow> t \<in> set ts \<and> tk_id t = i"
proof -
  have "dget (fold (\<lambda>t d. dset (tk_id t) t d) ts d) i = Some t \<Longrightarrow> t \<in> set ts \<and> tk_id t = i \<or> dget d i = Some t" for d
    by (induction ts arbitrary: d) (fastforce simp: dict_simps split: if_splits)+
  from this [of "[]"] show "dget (by_id ts) i = Some t \<Longrightarrow> t \<in> set ts \<and> tk_id t = i" by (simp add: by_id_def)
qed

lemma sorted_tasks_plan: "t \<in> set (sorted_tasks oc) \<Longrightarrow> t \<in> set (fp_tasks (oc_plan oc))"
proof -
  assume "t \<in> set (sorted_tasks oc)"
  then obtain i where i: "i \<in> set (dkeys (by_id (fp_tasks (oc_plan oc))))" "t = the (dget (by_id (fp_tasks (oc_plan oc))) i)"
    by (auto simp: sorted_tasks_def Let_def)
  then have "dget (by_id (fp_tasks (oc_plan oc))) i = Some t"
    using dget_None_iff [of "by_id (fp_tasks (oc_plan oc))" i] by auto
  then show ?thesis using by_id_Some by blast
qed

lemma evolve_unresolvable: "all_tasks oc a \<Longrightarrow> keeps (evolves a) (block_unresolvable oc)"
  unfolding block_unresolvable_def
  by (intro keeps_for evolve_unresolved) (use sorted_tasks_plan in \<open>auto simp: all_tasks_def\<close>)

lemma evolve_wave_stalls: "all_tasks oc a \<Longrightarrow> keeps (evolves a) (block_wave_stalls env oc wave)"
  unfolding block_wave_stalls_def
  by (intro keeps_for evolve_stalled) (use sorted_tasks_plan in \<open>auto simp: all_tasks_def\<close>)

definition plan_ids :: "orchestrator \<Rightarrow> string set" where
  "plan_ids oc = tk_id ` set (fp_tasks (oc_plan oc))"

lemma task_of_plan: "i \<in> plan_ids oc \<Longrightarrow> task_of oc i \<in> set (fp_tasks (oc_plan oc)) \<and> tk_id (task_of oc i) = i"
proof -
  assume i: "i \<in> plan_ids oc"
  have "dget (fold (\<lambda>t d. dset (tk_id t) t d) ts d) i \<noteq> None" if "i \<in> tk_id ` set ts \<or> dget d i \<noteq> None" for ts d
    using that by (induction ts arbitrary: d) (auto simp: dict_simps split: if_splits)
  from this [of "fp_tasks (oc_plan oc)" "[]"] i obtain t where "dget (by_id (fp_tasks (oc_plan oc))) i = Some t"
    by (auto simp: by_id_def plan_ids_def)
  then show ?thesis using by_id_Some by (auto simp: task_of_def)
qed

lemma all_tasks_has: "all_tasks oc a \<Longrightarrow> i \<in> plan_ids oc \<Longrightarrow> has_task i a"
  by (auto simp: all_tasks_def plan_ids_def)

lemma evolve_batch: "all_tasks oc a \<Longrightarrow> set batch \<subseteq> plan_ids oc \<Longrightarrow> keeps (evolves a) (run_batch env oc batch)"
  unfolding run_batch_def
  by (intro keeps_then evolve_emit keeps_for triple_if evolve_dry_run evolve_execute evolve_unresolvable)
     (auto simp: task_of_plan subset_iff intro: all_tasks_has)

lemma ready_ids_plan: "triple P (orch_ready_ids env oc) (\<lambda>ids _. set ids \<subseteq> plan_ids oc) (\<lambda>_. True)"
proof -
  have "compute_ready_tasks rep (Plan (oc_plan oc)) c s g = Inr ids \<Longrightarrow> set ids \<subseteq> plan_ids oc" for rep c s g ids
    by (auto simp: compute_ready_tasks_def result_simps plan_ids_def)
  then show ?thesis
    unfolding orch_ready_ids_def
    by (intro triple_bind [where R = "\<lambda>_ _. True"] triple_bind_get triple_case_sum triple_raise triple_ret)
       (use subsetD in \<open>fastforce simp: triple_def\<close>)+
qed

lemma wave_ready_plan: "triple P (wave_ready env oc wave) (\<lambda>ids _. set ids \<subseteq> plan_ids oc) (\<lambda>_. True)"
  unfolding wave_ready_def
  by (rule triple_bind [OF ready_ids_plan], rule triple_ret) auto

lemma evolve_round: "all_tasks oc a \<Longrightarrow> keeps (evolves a) (wave_round env oc wave)"
  unfolding wave_round_def
proof (rule triple_bind [where R = "\<lambda>ids s. evolves a s \<and> set ids \<subseteq> plan_ids oc"])
  show "triple (evolves a) (wave_ready env oc wave) (\<lambda>ids s. evolves a s \<and> set ids \<subseteq> plan_ids oc) (evolves a)"
    using triple_conj [OF evolve_wave_ready wave_ready_plan] by (rule triple_pre [OF triple_post]) auto
  fix ids assume all: "all_tasks oc a"
  have "keeps (evolves a) (run_batch env oc (take n ids))" if "set ids \<subseteq> plan_ids oc" for n
    using that by (intro evolve_batch [OF all]) (auto dest: in_set_takeD)
  then show "triple (\<lambda>s. evolves a s \<and> set ids \<subseteq> plan_ids oc)
      (if ids = [] then retP False else thenP (run_batch env oc (take (nat (oc_max_parallel oc)) ids)) (retP True)) (\<lambda>_. evolves a) (evolves a)"
    by (cases "set ids \<subseteq> plan_ids oc") (auto intro!: triple_if keeps_then keeps_simple, auto simp: triple_def)
qed

lemma evolve_wave_loop: "all_tasks oc a \<Longrightarrow> keeps (evolves a) (wave_loop env oc wave)"
  unfolding wave_loop_def by (rule triple_repeat) (use evolve_round in simp)

lemma evolve_run: "all_tasks oc a \<Longrightarrow> keeps (evolves a) (run_plan env oc)"
  unfolding run_plan_def run_wave_def
  by (intro keeps_intro evolve_unresolvable evolve_wave_loop evolve_wave_stalls evolve_mod) (auto simp: evolves_def lives_evolve_def)

end
