(* ===== verification/OrchestratorReturn.thy ===== *)
theory OrchestratorReturn
  imports OrchestratorFacts
begin

text \<open>
  The run returns. Every lifecycle operation of the run lowers the potential of its task: attempts that
  are left count four, and the states on the way of one attempt count down. A round of the retry loop
  starts the task, a round of the wave loop starts or blocks a task or marks it in a dry run, so the sum of
  the potentials bounds both loops.
\<close>

fun state_rank :: "LifecycleState \<Rightarrow> nat" where
  "state_rank PENDING = 4"
| "state_rank READY = 3"
| "state_rank RUNNING = 2"
| "state_rank FAILED = 1"
| "state_rank _ = 0"

definition potential :: "task_lifecycle \<Rightarrow> nat" where
  "potential l = 4 * nat (lc_max_attempts l - lc_attempt l) + state_rank (lc_state l)"

lemma run_step_potential: "run_step l l' \<Longrightarrow> potential l' < potential l"
proof (induction rule: run_step.induct)
  case (run_ready l l')
  then show ?case by (auto simp: mark_ready_def lc_transition_defs potential_def result_simps split: if_splits)
next
  case (run_start l agent now l')
  then show ?case
    by (cases "lc_state l") (auto simp: lc_start_def lc_transition_defs potential_def result_simps Let_def split: if_splits)
next
  case (run_complete l out evidence now l')
  then show ?case by (auto simp: complete_def stamp_finished_def lc_transition_defs potential_def result_simps split: if_splits)
next
  case (run_fail l err retryable now l')
  then show ?case by (auto simp: fail_def stamp_finished_def lc_transition_defs potential_def result_simps split: if_splits)
next
  case (run_retry l l')
  then show ?case by (auto simp: retry_def lc_transition_defs potential_def result_simps split: if_splits)
next
  case (run_block l rsn l')
  then show ?case
    by (cases "lc_state l") (auto simp: block_def lc_transition_defs potential_def result_simps split: if_splits)
qed

lemma run_steps_potential: "run_step\<^sup>*\<^sup>* l l' \<Longrightarrow> potential l' \<le> potential l"
  by (induction rule: rtranclp_induct) (auto dest: run_step_potential)

definition open_keys :: "orch_state \<Rightarrow> string set" where
  "open_keys st = set (dkeys (os_lifecycles st)) - set (os_dry_seen st)"

definition total :: "orch_state \<Rightarrow> nat" where
  "total st = (\<Sum>i \<in> set (dkeys (os_lifecycles st)). potential (life_of i st)) + card (open_keys st)"

lemma evolves_dkeys: "evolves a b \<Longrightarrow> dkeys (os_lifecycles b) = dkeys (os_lifecycles a)"
  by (simp add: evolves_def lives_evolve_def)

lemma evolves_dry_seen: "evolves a b \<Longrightarrow> set (os_dry_seen a) \<subseteq> set (os_dry_seen b)"
  by (simp add: evolves_def)

lemma evolves_open_keys: "evolves a b \<Longrightarrow> open_keys b \<subseteq> open_keys a"
  using evolves_dry_seen [of a b] by (auto simp: open_keys_def evolves_dkeys)

lemma evolves_potential: "evolves a b \<Longrightarrow> i \<in> set (dkeys (os_lifecycles a)) \<Longrightarrow> potential (life_of i b) \<le> potential (life_of i a)"
  using evolves_life run_steps_potential by (simp add: has_task_def)

lemma finite_open_keys [simp]: "finite (open_keys st)"
  by (simp add: open_keys_def)

lemma evolves_total: "evolves a b \<Longrightarrow> total b \<le> total a"
  unfolding total_def
  by (intro add_mono card_mono) (simp_all add: evolves_dkeys evolves_potential evolves_open_keys sum_mono)

lemma total_set_life:
  assumes "has_task i st" and "run_step (life_of i st) l'"
  shows "total (st\<lparr>os_lifecycles := dset i l' (os_lifecycles st)\<rparr>) < total st"
proof -
  let ?t = "st\<lparr>os_lifecycles := dset i l' (os_lifecycles st)\<rparr>"
  have k: "i \<in> set (dkeys (os_lifecycles st))" using assms(1) by (simp add: has_task_def)
  have life: "life_of j ?t = (if j = i then l' else life_of j st)" for j by (simp add: life_of_def dict_simps)
  have "(\<Sum>j \<in> set (dkeys (os_lifecycles st)). potential (life_of j ?t)) < (\<Sum>j \<in> set (dkeys (os_lifecycles st)). potential (life_of j st))"
    by (rule sum_strict_mono_ex1) (use k assms(2) run_step_potential in \<open>auto simp: life intro: less_imp_le\<close>)
  then show ?thesis using k by (simp add: total_def open_keys_def dkeys_dset insert_absorb)
qed

section \<open>Rounds that make progress\<close>

text \<open>Normal exits below a bound, once the state is below it or through the first operation.\<close>

definition below :: "orchestrator \<Rightarrow> nat \<Rightarrow> orch_state \<Rightarrow> bool" where
  "below oc k st \<longleftrightarrow> all_tasks oc st \<and> total st < k"

definition at_most :: "orchestrator \<Rightarrow> nat \<Rightarrow> orch_state \<Rightarrow> bool" where
  "at_most oc k st \<longleftrightarrow> all_tasks oc st \<and> total st \<le> k"

lemma evolves_all_tasks: "evolves a b \<Longrightarrow> all_tasks oc b \<longleftrightarrow> all_tasks oc a"
  by (simp add: all_tasks_def evolves_has_task)

lemma below_keep: "(\<And>a. all_tasks oc a \<Longrightarrow> keeps (evolves a) m) \<Longrightarrow> triple (below oc k) m (\<lambda>_. below oc k) (\<lambda>_. True)"
  unfolding triple_def below_def by (metis evolves_all_tasks evolves_refl evolves_total le_less_trans)

lemma at_most_keep: "(\<And>a. all_tasks oc a \<Longrightarrow> keeps (evolves a) m) \<Longrightarrow> triple (at_most oc k) m (\<lambda>_. at_most oc k) (\<lambda>_. True)"
  unfolding triple_def at_most_def by (metis evolves_all_tasks evolves_refl evolves_total le_trans)

lemma below_on_life:
  assumes f: "\<And>l'. f l = Inr l' \<Longrightarrow> run_step l l'" and i: "i \<in> plan_ids oc"
  shows "triple (\<lambda>s. at_most oc k s \<and> life_of i s = l) (on_life i f) (\<lambda>_. below oc k) (\<lambda>_. True)"
  unfolding on_life_def
proof (intro triple_bind_get triple_case_sum triple_mod)
  fix l2 l' s
  assume f': "f l2 = Inr l'" and s: "(at_most oc k s \<and> life_of i s = l) \<and> life_of i s = l2"
  then have h: "has_task i s" and st: "run_step (life_of i s) l'"
    using f i all_tasks_has by (auto simp: at_most_def)
  have "evolves s (s\<lparr>os_lifecycles := dset i l' (os_lifecycles s)\<rparr>)" by (rule evolves_set_life [OF h]) (use st in auto)
  then show "below oc k (s\<lparr>os_lifecycles := dset i l' (os_lifecycles s)\<rparr>)"
    using total_set_life [OF h st] s evolves_all_tasks by (fastforce simp: below_def at_most_def)
qed (simp add: triple_raise)

lemma below_life_op:
  assumes "\<And>l l'. f l = Inr l' \<Longrightarrow> run_step l l'" and "i \<in> plan_ids oc"
  shows "triple (at_most oc k) (on_life i f) (\<lambda>_. below oc k) (\<lambda>_. True)"
  using below_on_life [where f = f and i = i and oc = oc and k = k] assms unfolding triple_def by blast

lemma below_attempt:
  assumes "t \<in> set (fp_tasks (oc_plan oc))"
  shows "triple (at_most oc k) (attempt_once env oc t) (\<lambda>_. below oc k) (\<lambda>_. True)"
proof -
  have i: "tk_id t \<in> plan_ids oc" using assms by (simp add: plan_ids_def)
  have clock: "triple (at_most oc k) (orch_clock env) (\<lambda>_. at_most oc k) (\<lambda>_. True)" by (rule at_most_keep) (rule evolve_rules)
  have start: "triple (at_most oc k) (on_life (tk_id t) (\<lambda>l. lc_start l ag (Some now))) (\<lambda>_. below oc k) (\<lambda>_. True)" for ag now
    by (rule below_life_op [OF _ i]) (rule run_start)
  have rest: "triple (below oc k) (finish_attempt env oc t x) (\<lambda>_. below oc k) (\<lambda>_. True)" for x
    by (rule below_keep) (use i all_tasks_has in \<open>auto simp: finish_attempt_def split: prod.split
        intro!: triple_splits keeps_simple evolve_complete_attempt evolve_fail_attempt\<close>)
  show ?thesis
    unfolding attempt_once_def Let_def
    by (intro triple_bind [OF clock] triple_then [OF start] triple_then [OF below_keep [OF evolve_notify]]
        triple_bind [OF below_keep [OF evolve_dispatch]] triple_bind [OF below_keep [OF evolve_clock]] triple_case_prod
        triple_bind [OF below_keep, OF triple_if] evolve_v2_outcome keeps_simple rest)
qed

section \<open>Everything but the loops returns\<close>

abbreviation always :: "('s, 'e, 'a) proc \<Rightarrow> bool" where
  "always m \<equiv> returns (\<lambda>_. True) m"

lemma always_bind: "always m \<Longrightarrow> (\<And>a. always (f a)) \<Longrightarrow> always (bindP m f)"
  by (rule returns_bind_any)

lemma always_then: "always m \<Longrightarrow> always n \<Longrightarrow> always (thenP m n)"
  by (simp add: thenP_def always_bind)

lemma always_when: "(c \<Longrightarrow> always m) \<Longrightarrow> always (whenP c m)"
  by (simp add: whenP_def returns_rules)

lemma always_if: "(c \<Longrightarrow> always m) \<Longrightarrow> (\<not> c \<Longrightarrow> always n) \<Longrightarrow> always (if c then m else n)"
  by simp

lemma always_option: "(x = None \<Longrightarrow> always m) \<Longrightarrow> (\<And>a. x = Some a \<Longrightarrow> always (n a)) \<Longrightarrow> always (case x of None \<Rightarrow> m | Some a \<Rightarrow> n a)"
  by (cases x) simp_all

lemma always_sum: "(\<And>e. x = Inl e \<Longrightarrow> always (m e)) \<Longrightarrow> (\<And>a. x = Inr a \<Longrightarrow> always (n a)) \<Longrightarrow> always (case x of Inl e \<Rightarrow> m e | Inr a \<Rightarrow> n a)"
  by (cases x) simp_all

lemma always_prod: "(\<And>a b. x = (a, b) \<Longrightarrow> always (m a b)) \<Longrightarrow> always (case x of (a, b) \<Rightarrow> m a b)"
  by (cases x) simp_all

lemma always_for: "(\<And>x. x \<in> set xs \<Longrightarrow> always (f x)) \<Longrightarrow> always (forP f xs)"
  by (induction xs) (auto intro: always_then returns_rules)

lemmas always_intro = always_then always_when always_if always_option always_sum always_prod always_for always_bind returns_simple

lemma always_small [returns_rules]: "always (emit ev)" "always (tick n)" "always (orch_clock env)" "always (on_life i f)"
    "always (call_hook oc name ev)" "always (notify oc i)"
  unfolding emit_def tick_def orch_clock_def on_life_def call_hook_def notify_def by (intro always_intro)+

lemma always_reports [returns_rules]: "always (add_report oc r ev)" "always (record_report oc t out ev err rsn)" "always (mark_dry_run oc t)"
    "always (orch_checkpoint oc)" "always (block_with_report oc t rsn' ev)"
  unfolding add_report_def record_report_def mark_dry_run_def orch_checkpoint_def block_with_report_def Let_def
  by (intro always_intro returns_rules)+

lemma always_gates [returns_rules]: "always (passed_gates env oc)" "always (gate_open_now env oc i)"
  unfolding passed_gates_def gate_open_now_def by (intro always_intro returns_rules)+

lemma always_attempt: "always (attempt_once env oc t)"
  unfolding attempt_once_def finish_attempt_def complete_attempt_def fail_attempt_def v2_outcome_def commit_report_def dispatch_task_def Let_def
  by (intro always_intro returns_rules)

lemma always_ready: "always (wave_ready env oc wave)"
  unfolding wave_ready_def orch_ready_ids_def by (intro always_intro returns_rules)

lemma always_unresolvable: "always (block_unresolvable oc)"
  unfolding block_unresolvable_def block_unresolved_def by (intro always_intro returns_rules)

lemma always_missing_gates: "always (missing_gates env oc gs)"
proof (induction gs)
  case (Cons g gs)
  then show ?case by simp (intro always_intro returns_rules Cons.IH)
qed (simp add: returns_rules)

lemma always_stalls: "always (block_wave_stalls env oc wave)"
  unfolding block_wave_stalls_def block_stalled_def by (intro always_intro returns_rules always_missing_gates)

section \<open>The loops\<close>

lemma attempts_return:
  assumes "t \<in> set (fp_tasks (oc_plan oc))"
  shows "returns (all_tasks oc) (attempts env oc t)"
  unfolding attempts_def
proof (rule returns_repeat [where f = total])
  have h: "has_task (tk_id t) a" if "all_tasks oc a" for a using assms that by (simp add: all_tasks_def)
  show "returns (all_tasks oc) (attempt_once env oc t)" using always_attempt by (simp add: returns_def)
  show "triple (all_tasks oc) (attempt_once env oc t) (\<lambda>again s. again \<longrightarrow> all_tasks oc s) (\<lambda>_. True)"
    using evolve_attempt [OF h] unfolding triple_def by (metis evolves_all_tasks evolves_refl)
  fix s s' assume "all_tasks oc s" "attempt_once env oc t s = Some (Inr True, s')"
  then show "total s' < total s"
    using triple_Inr [OF below_attempt [OF assms, of "total s"]] by (fastforce simp: at_most_def below_def)
qed

lemma at_most_all: "at_most oc k s \<Longrightarrow> all_tasks oc s"
  by (simp add: at_most_def)

text \<open>The first operation of a task that is open lowers the total.\<close>

lemma below_attempts:
  assumes "t \<in> set (fp_tasks (oc_plan oc))"
  shows "triple (at_most oc k) (attempts env oc t) (\<lambda>_. below oc k) (\<lambda>_. True)"
proof (rule tripleI)
  fix s r s' assume pre: "at_most oc k s" and run: "attempts env oc t s = Some (Inr r, s')"
  have i: "\<And>a. all_tasks oc a \<Longrightarrow> has_task (tk_id t) a" using assms by (simp add: all_tasks_def)
  from run have "bindP (attempt_once env oc t) (\<lambda>again u. if again then attempts env oc t u else retP () u) s = Some (Inr r, s')"
    unfolding attempts_def by (subst (asm) repeatP.simps)
  then obtain again u where u: "attempt_once env oc t s = Some (Inr again, u)"
    and rest: "u = s' \<or> attempts env oc t u = Some (Inr r, s')"
    by (cases rule: repeatP_cases) auto
  have below: "below oc k u" using triple_Inr [OF below_attempt [OF assms] pre u] .
  with rest show "below oc k s'"
    using triple_Inr [OF below_keep [of oc "attempts env oc t" k]] evolve_attempts i by blast
qed simp

lemma below_block:
  assumes "t \<in> set (fp_tasks (oc_plan oc))"
  shows "triple (at_most oc k) (block_with_report oc t rsn ev) (\<lambda>_. below oc k) (\<lambda>_. True)"
  unfolding block_with_report_def
  by (intro triple_then [OF below_life_op] triple_then [OF below_keep] below_keep evolve_record_report evolve_notify evolve_checkpoint
      run_block) (use assms in \<open>auto simp: plan_ids_def\<close>)

lemma below_execute:
  assumes t: "t \<in> set (fp_tasks (oc_plan oc))"
  shows "triple (\<lambda>s. at_most oc k s \<and> lc_state (life_of (tk_id t) s) \<noteq> COMPLETED) (execute_task env oc t) (\<lambda>_. below oc k) (\<lambda>_. True)"
proof -
  have h: "all_tasks oc a \<Longrightarrow> has_task (tk_id t) a" for a using t by (simp add: all_tasks_def)
  have ready: "triple (\<lambda>s. at_most oc k s \<and> life_of (tk_id t) s = l) (make_ready oc (tk_id t) l) (\<lambda>_. at_most oc k) (\<lambda>_. True)" for l
  proof (rule tripleI)
    fix s r s' assume "at_most oc k s \<and> life_of (tk_id t) s = l" "make_ready oc (tk_id t) l s = Some (Inr r, s')"
    then have "evolves s s'" and "all_tasks oc s" and "total s \<le> k"
      using triple_Inr [OF evolve_make_ready [OF h], of s s l oc r s'] by (auto simp: at_most_def)
    then show "at_most oc k s'" using evolves_total by (fastforce simp: at_most_def evolves_all_tasks)
  qed simp
  have rest: "triple (\<lambda>s. at_most oc k s \<and> life_of (tk_id t) s = l)
      (thenP (make_ready oc (tk_id t) l) (thenP (attempts env oc t) (thenP (notify oc (tk_id t)) (orch_checkpoint oc)))) (\<lambda>_. below oc k) (\<lambda>_. True)" for l
    by (intro triple_then [OF ready] triple_then [OF below_attempts [OF t]] triple_then [OF below_keep] below_keep evolve_rules)
  show ?thesis
    unfolding execute_task_alt
    by (intro triple_bind_get triple_if triple_case_option triple_case_prod triple_bind_lift triple_pre [OF rest] triple_pre [OF below_block [OF t]])
       (auto simp: triple_def)
qed

lemma below_dry_run:
  assumes t: "t \<in> set (fp_tasks (oc_plan oc))"
  shows "triple (\<lambda>s. at_most oc k s \<and> tk_id t \<notin> set (os_dry_seen s)) (mark_dry_run oc t) (\<lambda>_. below oc k) (\<lambda>_. True)"
proof -
  have "below oc k (s\<lparr>os_dry_seen := tk_id t # os_dry_seen s\<rparr>)" if "at_most oc k s" "tk_id t \<notin> set (os_dry_seen s)" for s
  proof -
    let ?u = "s\<lparr>os_dry_seen := tk_id t # os_dry_seen s\<rparr>"
    have "tk_id t \<in> open_keys s" using that t by (auto simp: open_keys_def at_most_def all_tasks_def has_task_def)
    moreover have "open_keys ?u = open_keys s - {tk_id t}" by (auto simp: open_keys_def)
    moreover have "finite (open_keys s)" by (simp add: open_keys_def)
    ultimately have "card (open_keys ?u) < card (open_keys s)" by (metis card_Diff1_less)
    moreover have "life_of j ?u = life_of j s" for j by (simp add: life_of_def)
    ultimately have "total ?u < total s" by (simp add: total_def)
    then show ?thesis using that by (simp add: below_def at_most_def all_tasks_def has_task_def)
  qed
  then have first: "triple (\<lambda>s. at_most oc k s \<and> tk_id t \<notin> set (os_dry_seen s)) (modP (\<lambda>s. s\<lparr>os_dry_seen := tk_id t # os_dry_seen s\<rparr>))
      (\<lambda>_. below oc k) (\<lambda>_. True)" by (intro triple_mod) auto
  show ?thesis
    unfolding mark_dry_run_def Let_def
    by (intro triple_then [OF first] triple_bind_get triple_strengthen below_keep evolve_rules)
qed

text \<open>A round that goes on has run a batch whose first task was open.\<close>

definition dispatchable :: "string \<Rightarrow> orch_state \<Rightarrow> bool" where
  "dispatchable i s \<longleftrightarrow> lc_state (life_of i s) \<noteq> COMPLETED \<and> i \<notin> set (os_dry_seen s)"

lemma ready_dispatchable: "triple P (orch_ready_ids env oc) (\<lambda>ids s. \<forall>i \<in> set ids. dispatchable i s) (\<lambda>_. True)"
  unfolding orch_ready_ids_def
  by (intro triple_bind [where R = "\<lambda>_ _. True"] triple_bind_get triple_case_sum triple_raise triple_ret)
     (auto simp: triple_def dispatchable_def)

lemma wave_ready_dispatchable: "triple P (wave_ready env oc wave) (\<lambda>ids s. \<forall>i \<in> set ids. dispatchable i s) (\<lambda>_. True)"
  unfolding wave_ready_def by (rule triple_bind [OF ready_dispatchable], rule triple_ret) auto

lemma below_batch:
  assumes sub: "set (i # is) \<subseteq> plan_ids oc"
  shows "triple (\<lambda>s. at_most oc k s \<and> dispatchable i s) (run_batch env oc (i # is)) (\<lambda>_. below oc k) (\<lambda>_. True)"
proof -
  have t: "task_of oc j \<in> set (fp_tasks (oc_plan oc))" "tk_id (task_of oc j) = j" if "j \<in> set (i # is)" for j
    using sub that task_of_plan by auto
  have h: "has_task j a" if "all_tasks oc a" "j \<in> set (i # is)" for a j using sub that all_tasks_has by blast
  have e: "triple (\<lambda>s. at_most oc k s \<and> dispatchable i s) (emit (RunBatch (i # is))) (\<lambda>_ s. at_most oc k s \<and> dispatchable i s) (\<lambda>_. True)"
    unfolding emit_def
    by (rule triple_mod)
       (simp add: at_most_def dispatchable_def all_tasks_def has_task_def total_def open_keys_def life_of_def)
  have ex: "keeps (evolves a) (execute_task env oc (task_of oc j))" if "all_tasks oc a" "j \<in> set (i # is)" for a j
    using evolve_execute [of "task_of oc j" a env oc] h [OF that] t(2) [OF that(2)] by simp
  have one: "triple (\<lambda>s. at_most oc k s \<and> dispatchable i s) (forP (\<lambda>i. execute_task env oc (task_of oc i)) (i # is)) (\<lambda>_. below oc k) (\<lambda>_. True)"
    unfolding forP.simps
  proof (rule triple_then)
    show "triple (\<lambda>s. at_most oc k s \<and> dispatchable i s) (execute_task env oc (task_of oc i)) (\<lambda>_. below oc k) (\<lambda>_. True)"
      by (rule triple_pre [OF below_execute]) (use t [of i] in \<open>auto simp: dispatchable_def\<close>)
    show "triple (below oc k) (forP (\<lambda>i. execute_task env oc (task_of oc i)) is) (\<lambda>_. below oc k) (\<lambda>_. True)"
      by (rule triple_for, rule below_keep) (use ex in auto)
  qed
  have dry: "triple (\<lambda>s. at_most oc k s \<and> dispatchable i s) (forP (\<lambda>i. mark_dry_run oc (task_of oc i)) (i # is)) (\<lambda>_. below oc k) (\<lambda>_. True)"
    unfolding forP.simps
  proof (rule triple_then)
    show "triple (\<lambda>s. at_most oc k s \<and> dispatchable i s) (mark_dry_run oc (task_of oc i)) (\<lambda>_. below oc k) (\<lambda>_. True)"
      by (rule triple_pre [OF below_dry_run]) (use t [of i] in \<open>auto simp: dispatchable_def\<close>)
    show "triple (below oc k) (forP (\<lambda>i. mark_dry_run oc (task_of oc i)) is) (\<lambda>_. below oc k) (\<lambda>_. True)"
      by (rule triple_for, rule below_keep) (rule evolve_rules)
  qed
  show ?thesis
    unfolding run_batch_def
    by (rule triple_then [OF e], rule triple_then [OF triple_if [OF dry one]]) (rule below_keep, rule evolve_unresolvable)
qed

lemma below_round: "1 \<le> oc_max_parallel oc \<Longrightarrow>
    triple (at_most oc k) (wave_round env oc wave) (\<lambda>again s. again \<longrightarrow> below oc k s) (\<lambda>_. True)"
  unfolding wave_round_def
proof (rule triple_bind)
  show "triple (at_most oc k) (wave_ready env oc wave)
      (\<lambda>ids s. (at_most oc k s \<and> set ids \<subseteq> plan_ids oc) \<and> (\<forall>i \<in> set ids. dispatchable i s)) (\<lambda>_. True)"
    using triple_conj [OF triple_conj [OF at_most_keep wave_ready_plan] wave_ready_dispatchable, OF evolve_wave_ready]
    by (rule triple_pre [OF triple_post]) auto
  fix ids assume par: "1 \<le> oc_max_parallel oc"
  show "triple (\<lambda>s. (at_most oc k s \<and> set ids \<subseteq> plan_ids oc) \<and> (\<forall>i \<in> set ids. dispatchable i s))
      (if ids = [] then retP False else thenP (run_batch env oc (take (nat (oc_max_parallel oc)) ids)) (retP True))
      (\<lambda>again s. again \<longrightarrow> below oc k s) (\<lambda>_. True)"
  proof (cases ids)
    case (Cons i rest)
    obtain n where n: "nat (oc_max_parallel oc) = Suc n" using par by (cases "nat (oc_max_parallel oc)") auto
    show ?thesis
    proof (cases "set ids \<subseteq> plan_ids oc")
      case True
      then have sub: "set (i # take n rest) \<subseteq> plan_ids oc" using Cons by (auto dest: in_set_takeD)
      show ?thesis
        using triple_pre [OF triple_then [OF below_batch [OF sub, of k env] triple_ret [of "below oc k" "\<lambda>again s. again \<longrightarrow> below oc k s" True]],
          of "\<lambda>s. (at_most oc k s \<and> set ids \<subseteq> plan_ids oc) \<and> (\<forall>i \<in> set ids. dispatchable i s)"]
        by (simp add: Cons n)
    qed (simp add: triple_def)
  qed (simp add: triple_ret)
qed

lemma execute_returns:
  assumes "t \<in> set (fp_tasks (oc_plan oc))"
  shows "returns (all_tasks oc) (execute_task env oc t)"
proof -
  have h: "all_tasks oc a \<Longrightarrow> has_task (tk_id t) a" for a using assms by (simp add: all_tasks_def)
  have keep: "triple (all_tasks oc) m (\<lambda>_. all_tasks oc) (\<lambda>_. True)" if "\<And>a. all_tasks oc a \<Longrightarrow> keeps (evolves a) m" for m :: "unit orch"
    using that unfolding triple_def by (metis evolves_all_tasks evolves_refl)
  show ?thesis
    unfolding execute_task_alt returns_def
  proof (intro allI impI)
    fix s assume s: "all_tasks oc s"
    let ?l = "life_of (tk_id t) s"
    have tail: "thenP (make_ready oc (tk_id t) ?l) (thenP (attempts env oc t) (thenP (notify oc (tk_id t)) (orch_checkpoint oc))) s \<noteq> None"
    proof -
      have al: "always (make_ready oc (tk_id t) ?l)" unfolding make_ready_def by (intro always_intro returns_rules)
      have mk: "triple (\<lambda>u. all_tasks oc u \<and> life_of (tk_id t) u = ?l) (make_ready oc (tk_id t) ?l) (\<lambda>_. all_tasks oc) (\<lambda>_. True)"
        using evolve_make_ready [OF h] unfolding triple_def by (metis evolves_all_tasks evolves_refl)
      have at: "triple (all_tasks oc) (attempts env oc t) (\<lambda>_ _. True) (\<lambda>_. True)" by (simp add: triple_def)
      have "returns (\<lambda>u. all_tasks oc u \<and> life_of (tk_id t) u = ?l)
          (thenP (make_ready oc (tk_id t) ?l) (thenP (attempts env oc t) (thenP (notify oc (tk_id t)) (orch_checkpoint oc))))"
        by (rule returns_then [OF returns_pre [OF al] mk], simp, rule returns_then [OF attempts_return [OF assms] at])
           (intro always_intro returns_rules)
      with s show ?thesis by (simp add: returns_def)
    qed
    have other: "m s \<noteq> None" if "always m" for m :: "unit orch" using that by (simp add: returns_def)
    show "bindP (getP (life_of (tk_id t))) (\<lambda>l. if lc_state l = COMPLETED then retP () else case agent_block oc t of
           None \<Rightarrow> bindP (liftP (missing_inputs env oc t)) (\<lambda>missing. if missing \<noteq> [] then
               block_with_report oc t ''input ausente'' (PDict [(PStr ''missing_inputs'', strs missing)])
             else if blocked_condition env oc t then block_with_report oc t (''blocked_when n'' @ [CHR 0xE3] @ ''o resolvido'')
               (PDict [(PStr ''blocked_when'', strs (tk_blocked_when t))])
             else thenP (make_ready oc (tk_id t) l) (thenP (attempts env oc t) (thenP (notify oc (tk_id t)) (orch_checkpoint oc))))
         | Some (rsn, evidence) \<Rightarrow> block_with_report oc t rsn evidence) s \<noteq> None"
      using tail other [OF always_reports(5)] other [OF returns_simple(1)]
      by (auto simp: bindP_def getP_def liftP_def split: option.split sum.split)
  qed
qed

lemma keep_tasks: "(\<And>a. all_tasks oc a \<Longrightarrow> keeps (evolves a) m) \<Longrightarrow> triple (all_tasks oc) m (\<lambda>_. all_tasks oc) (\<lambda>_. True)"
  unfolding triple_def by (metis evolves_all_tasks evolves_refl)

lemma batch_returns:
  assumes "set batch \<subseteq> plan_ids oc"
  shows "returns (all_tasks oc) (run_batch env oc batch)"
proof -
  have t: "task_of oc j \<in> set (fp_tasks (oc_plan oc))" "tk_id (task_of oc j) = j" if "j \<in> set batch" for j
    using assms that task_of_plan by auto
  have ex: "keeps (evolves a) (execute_task env oc (task_of oc j))" if "all_tasks oc a" "j \<in> set batch" for a j
    using evolve_execute [of "task_of oc j" a env oc] t(2) [OF that(2)] all_tasks_has [OF that(1)] assms that(2) by auto
  have "returns (all_tasks oc) (if oc_dry_run oc then forP (\<lambda>i. mark_dry_run oc (task_of oc i)) batch
      else forP (\<lambda>i. execute_task env oc (task_of oc i)) batch)"
    using t(1) ex
    by (auto intro!: returns_for execute_returns keep_tasks returns_pre [OF always_reports(3)] evolve_rules)
  moreover have "returns (all_tasks oc) (thenP (emit (RunBatch batch)) m)" if "returns (all_tasks oc) m" for m
    using that by (intro returns_then [OF returns_pre [OF always_small(1)] keep_tasks]) (auto intro: evolve_rules)
  moreover have "returns (all_tasks oc) (thenP m (block_unresolvable oc))" if "returns (all_tasks oc) m" for m
    using that by (intro returns_then [where R = "\<lambda>_. True"] always_unresolvable) (simp_all add: triple_def)
  ultimately show ?thesis unfolding run_batch_def by blast
qed

lemma round_returns: "returns (all_tasks oc) (wave_round env oc wave)"
  unfolding wave_round_def
proof (rule returns_bind)
  show "returns (all_tasks oc) (wave_ready env oc wave)" by (rule returns_pre [OF always_ready]) simp
  show "triple (all_tasks oc) (wave_ready env oc wave) (\<lambda>ids s. all_tasks oc s \<and> set ids \<subseteq> plan_ids oc) (\<lambda>_. True)"
    using triple_conj [OF keep_tasks wave_ready_plan, OF evolve_wave_ready] by (rule triple_pre [OF triple_post]) auto
  fix ids
  have "returns (all_tasks oc) (thenP (run_batch env oc (take n ids)) (retP True))" if "set ids \<subseteq> plan_ids oc" for n
    using that by (intro returns_then [where R = "\<lambda>_. True"] batch_returns returns_simple) (auto simp: triple_def dest: in_set_takeD)
  then show "returns (\<lambda>s. all_tasks oc s \<and> set ids \<subseteq> plan_ids oc)
      (if ids = [] then retP False else thenP (run_batch env oc (take (nat (oc_max_parallel oc)) ids)) (retP True))"
    by (auto simp: returns_def retP_def)
qed

lemma wave_loop_returns: "1 \<le> oc_max_parallel oc \<Longrightarrow> returns (all_tasks oc) (wave_loop env oc wave)"
  unfolding wave_loop_def
proof (rule returns_repeat [where f = total])
  show "returns (all_tasks oc) (wave_round env oc wave)" by (rule round_returns)
  show "triple (all_tasks oc) (wave_round env oc wave) (\<lambda>again s. again \<longrightarrow> all_tasks oc s) (\<lambda>_. True)"
    by (rule triple_post [OF keep_tasks [OF evolve_round]]) auto
  fix s s' assume "1 \<le> oc_max_parallel oc" "all_tasks oc s" "wave_round env oc wave s = Some (Inr True, s')"
  then show "total s' < total s"
    using triple_Inr [OF below_round, of oc "total s" s] by (fastforce simp: at_most_def below_def)
qed

lemma run_wave_returns: "1 \<le> oc_max_parallel oc \<Longrightarrow> returns (all_tasks oc) (run_wave env oc wave)"
  unfolding run_wave_def
proof (rule returns_then)
  assume par: "1 \<le> oc_max_parallel oc"
  show "triple (all_tasks oc) (modP (\<lambda>st. st\<lparr>os_current_wave := wave_number wave, os_last_wave := wave_number wave\<rparr>)) (\<lambda>_. all_tasks oc) (\<lambda>_. True)"
    by (rule triple_mod) (simp add: all_tasks_def has_task_def)
  show "returns (all_tasks oc) (thenP (wave_loop env oc wave) (block_wave_stalls env oc wave))"
    by (rule returns_then [OF wave_loop_returns [OF par], where R = "\<lambda>_. True"]) (auto simp: triple_def intro: always_stalls)
qed (rule returns_simple)

lemma evolve_run_wave: "all_tasks oc a \<Longrightarrow> keeps (evolves a) (run_wave env oc wave)"
  unfolding run_wave_def by (intro keeps_then evolve_wave_loop evolve_wave_stalls evolve_mod) (auto simp: evolves_def lives_evolve_def)

lemma run_plan_returns: "1 \<le> oc_max_parallel oc \<Longrightarrow> returns (all_tasks oc) (run_plan env oc)"
  unfolding run_plan_def
proof (rule returns_then)
  assume par: "1 \<le> oc_max_parallel oc"
  show "returns (all_tasks oc) (block_unresolvable oc)" by (rule returns_pre [OF always_unresolvable]) simp
  show "triple (all_tasks oc) (block_unresolvable oc) (\<lambda>_. all_tasks oc) (\<lambda>_. True)" by (rule keep_tasks) (rule evolve_unresolvable)
  have "returns (all_tasks oc) (thenP (forP (run_wave env oc) waves) (block_unresolvable oc))" for waves
    by (rule returns_then [where R = "\<lambda>_. True"])
       (auto simp: triple_def intro!: returns_for run_wave_returns [OF par] keep_tasks always_unresolvable evolve_run_wave)
  then show "returns (all_tasks oc) (bindP (liftP (ordered_waves env oc)) (\<lambda>waves. thenP (forP (run_wave env oc) waves) (block_unresolvable oc)))"
    by (cases "ordered_waves env oc") (auto simp: returns_def bindP_def liftP_def)
qed

section \<open>Orchestrators that the constructor makes\<close>

lemma resume_keys:
  assumes "mapR (resume_entry lc) ts = Inr ls"
  shows "map fst ls = map tk_id ts"
  using assms
proof (induction ts arbitrary: ls)
  case (Cons t ts)
  then obtain l ls' where l: "resume_entry lc t = Inr l" and ls: "mapR (resume_entry lc) ts = Inr ls'" "ls = l # ls'"
    by (auto simp: result_simps)
  from l have "fst l = tk_id t" by (auto simp: resume_entry_def result_simps split: option.split_asm if_split_asm)
  with ls Cons.IH show ?case by simp
qed simp

lemma fold_dset_keys: "set (dkeys (fold (\<lambda>il d. dset (fst il) (snd il) d) ls d)) = set (dkeys d) \<union> fst ` set ls"
  by (induction ls arbitrary: d) auto

lemma orch_resume_tasks:
  assumes "orch_resume oc lc reports = Inr st"
  shows "set (dkeys (os_lifecycles st)) = plan_ids oc"
proof -
  obtain ls where ls: "mapR (resume_entry lc) (fp_tasks (oc_plan oc)) = Inr ls"
    and st: "os_lifecycles st = fold (\<lambda>il d. dset (fst il) (snd il) d) ls []"
    using assms by (auto simp: orch_resume_def result_simps split: if_splits)
  have "set (dkeys (os_lifecycles st)) = fst ` set ls" unfolding st fold_dset_keys by (simp add: dkeys_def)
  then show ?thesis using arg_cong [OF resume_keys [OF ls], of set] by (simp add: plan_ids_def)
qed

lemma new_orchestrator:
  assumes "FleetOrchestrator_new a = Inr (oc, st)"
  shows "1 \<le> oc_max_parallel oc" "all_tasks oc st" "orch_resume oc (ag_lifecycle a) (ag_reports a) = Inr st"
    "\<exists>v. validate_plan (Plan (oc_plan oc)) = Inr v"
proof -
  obtain p canonical v par where p: "orch_plan (ag_plan a) = Inr (p, canonical)" and v: "validate_plan (Plan p) = Inr v"
    and par: "run_parallel_arg (ag_max_parallel a) = Inr par" "oc_max_parallel oc = par" "oc_plan oc = p"
    and st: "orch_resume oc (ag_lifecycle a) (ag_reports a) = Inr st"
    using assms by (auto simp: FleetOrchestrator_new_def result_simps Let_def split: sum.split_asm)
  from par show "1 \<le> oc_max_parallel oc" by (auto simp: run_parallel_arg_def result_simps)
  show "orch_resume oc (ag_lifecycle a) (ag_reports a) = Inr st" by (rule st)
  from orch_resume_tasks [OF st] show "all_tasks oc st" by (auto simp: all_tasks_def has_task_def plan_ids_def)
  from v par show "\<exists>v. validate_plan (Plan (oc_plan oc)) = Inr v" by auto
qed

end
