(* ===== verification/OrchestratorSafety.thy ===== *)
theory OrchestratorSafety
  imports OrchestratorReturn
begin

text \<open>
  The invariant of a run: attempts stay within the task's limit, a task is dispatched at most once for
  each attempt number, a dispatch comes after the recorded completion of every dependency, a completed
  task has a recorded report, and between tasks nothing is running. When a run raises, all of it but the
  last two still holds.
\<close>

section \<open>Quiet procedures\<close>

fun is_dispatch :: "run_event \<Rightarrow> bool" where
  "is_dispatch (Dispatched i n) = True"
| "is_dispatch _ = False"

definition quiet :: "orch_state \<Rightarrow> orch_state \<Rightarrow> bool" where
  "quiet a b \<longleftrightarrow> os_lifecycles b = os_lifecycles a \<and> set (os_dry_seen a) \<subseteq> set (os_dry_seen b)
     \<and> (\<exists>new. os_trace b = os_trace a @ new \<and> list_all (\<lambda>ev. \<not> is_dispatch ev) new)"

lemma quiet_refl [simp, intro]: "quiet a a"
  by (auto simp: quiet_def)

lemma quiet_trans: "quiet a b \<Longrightarrow> quiet b c \<Longrightarrow> quiet a c"
proof -
  assume "quiet a b" "quiet b c"
  then obtain x y where x: "os_trace b = os_trace a @ x" "list_all (\<lambda>ev. \<not> is_dispatch ev) x"
    and y: "os_trace c = os_trace b @ y" "list_all (\<lambda>ev. \<not> is_dispatch ev) y"
    by (auto simp: quiet_def)
  then have "os_trace c = os_trace a @ (x @ y)" "list_all (\<lambda>ev. \<not> is_dispatch ev) (x @ y)" by simp_all
  then have "\<exists>new. os_trace c = os_trace a @ new \<and> list_all (\<lambda>ev. \<not> is_dispatch ev) new" by blast
  then show ?thesis using \<open>quiet a b\<close> \<open>quiet b c\<close> by (auto simp only: quiet_def)
qed

named_theorems quiet_rules \<open>procedures that dispatch nothing and change no lifecycle\<close>

lemma quiet_mod: "(\<And>st. quiet st (f st)) \<Longrightarrow> keeps (quiet a) (modP f)"
  by (rule triple_mod) (blast intro: quiet_trans)

lemma quiet_emit: "\<not> is_dispatch ev \<Longrightarrow> keeps (quiet a) (emit ev)"
  unfolding emit_def by (rule quiet_mod) (simp add: quiet_def)

lemma quiet_tick [quiet_rules]: "keeps (quiet a) (tick n)"
  unfolding tick_def by (rule quiet_mod) (simp add: quiet_def)

lemma quiet_clock [quiet_rules]: "keeps (quiet a) (orch_clock env)"
  unfolding orch_clock_def by (intro keeps_intro quiet_rules)

lemma quiet_hook: "\<not> is_dispatch ev \<Longrightarrow> keeps (quiet a) (call_hook oc name ev)"
  unfolding call_hook_def by (intro keeps_intro quiet_emit)

lemma quiet_notify [quiet_rules]: "keeps (quiet a) (notify oc i)"
  unfolding notify_def by (intro keeps_intro quiet_rules quiet_hook quiet_emit) simp_all

lemma quiet_add_report [quiet_rules]: "keeps (quiet a) (add_report oc r evidence)"
  unfolding add_report_def by (intro keeps_intro quiet_hook quiet_emit quiet_mod) (simp_all add: quiet_def)

lemma quiet_record_report [quiet_rules]: "keeps (quiet a) (record_report oc t out evidence err rsn)"
  unfolding record_report_def by (intro keeps_intro quiet_rules)

lemma quiet_dry_run [quiet_rules]: "keeps (quiet a) (mark_dry_run oc t)"
  unfolding mark_dry_run_def Let_def by (intro keeps_intro quiet_rules quiet_mod) (auto simp: quiet_def)

lemma quiet_checkpoint [quiet_rules]: "keeps (quiet a) (orch_checkpoint oc)"
  unfolding orch_checkpoint_def by (intro keeps_intro quiet_hook) simp_all

lemma quiet_gates [quiet_rules]: "keeps (quiet a) (passed_gates env oc)" "keeps (quiet a) (gate_open_now env oc i)"
  unfolding passed_gates_def gate_open_now_def by (intro keeps_intro quiet_rules)+

lemma quiet_commit [quiet_rules]: "keeps (quiet a) (commit_report env oc t r)"
  unfolding commit_report_def Let_def by (intro keeps_intro quiet_rules quiet_emit quiet_mod) (simp_all add: quiet_def)

lemma quiet_v2_outcome [quiet_rules]: "keeps (quiet a) (v2_outcome env oc t x)"
  unfolding v2_outcome_def by (intro keeps_bind keeps_intro quiet_rules)

lemma quiet_ready [quiet_rules]: "keeps (quiet a) (orch_ready_ids env oc)" "keeps (quiet a) (wave_ready env oc wave)"
proof -
  show "keeps (quiet a) (orch_ready_ids env oc)"
    unfolding orch_ready_ids_def by (intro keeps_bind [OF quiet_gates(1)] keeps_intro)
  then show "keeps (quiet a) (wave_ready env oc wave)"
    unfolding wave_ready_def by (intro keeps_bind keeps_intro)
qed

lemma quiet_missing_gates [quiet_rules]: "keeps (quiet a) (missing_gates env oc gs)"
proof (induction gs)
  case (Cons g gs)
  then show ?case by simp (intro keeps_bind [OF quiet_gates(2)] keeps_bind [OF Cons.IH] keeps_intro)
qed (simp add: keeps_simple)

definition loose :: "(orch_state \<Rightarrow> bool) \<Rightarrow> bool" where
  "loose I \<longleftrightarrow> (\<forall>a b. I a \<longrightarrow> quiet a b \<longrightarrow> I b)"

lemma loose_keeps: "loose I \<Longrightarrow> (\<And>a. keeps (quiet a) m) \<Longrightarrow> triple I m (\<lambda>_. I) I"
  unfolding triple_def loose_def by (metis quiet_refl)

lemma looseD: "loose I \<Longrightarrow> I a \<Longrightarrow> quiet a b \<Longrightarrow> I b"
  unfolding loose_def by blast

lemma loose_conj [intro]: "loose I \<Longrightarrow> loose J \<Longrightarrow> loose (\<lambda>s. I s \<and> J s)"
  unfolding loose_def by blast

section \<open>The invariant\<close>

definition recorded :: "string \<Rightarrow> run_event list \<Rightarrow> bool" where
  "recorded i tr \<longleftrightarrow> (\<exists>r. Recorded r \<in> set tr \<and> tr_task_id r = i \<and> tr_status r = state_value COMPLETED)"

text \<open>What counts as done before the run: by the plan's status or by the resumed lifecycle.\<close>

definition done_before :: "orchestrator \<Rightarrow> orch_state \<Rightarrow> string set" where
  "done_before oc a = terminal_ids (oc_plan oc) (with_states {COMPLETED, SKIPPED} a) (with_states {SKIPPED} a)"

definition deps_ok :: "orchestrator \<Rightarrow> orch_state \<Rightarrow> string \<Rightarrow> run_event list \<Rightarrow> bool" where
  "deps_ok oc a i tr \<longleftrightarrow> (\<forall>d \<in> set (tk_depends_on (task_of oc i)). d \<in> done_before oc a \<or> recorded d tr)"

definition order_ok :: "orchestrator \<Rightarrow> orch_state \<Rightarrow> run_event list \<Rightarrow> bool" where
  "order_ok oc a tr \<longleftrightarrow> (\<forall>k i n. k < length tr \<longrightarrow> tr ! k = Dispatched i n \<longrightarrow> deps_ok oc a i (take k tr))"

definition dispatch_ok :: "orch_state \<Rightarrow> bool" where
  "dispatch_ok st \<longleftrightarrow> distinct (filter is_dispatch (os_trace st))
     \<and> (\<forall>i n. Dispatched i n \<in> set (os_trace st) \<longrightarrow> has_task i st \<and> 1 \<le> n \<and> n \<le> lc_attempt (life_of i st)
          \<and> (lc_state (life_of i st) \<in> {PENDING, READY} \<longrightarrow> n < lc_attempt (life_of i st)))"

definition limits_ok :: "orchestrator \<Rightarrow> orch_state \<Rightarrow> bool" where
  "limits_ok oc st \<longleftrightarrow> (\<forall>i. has_task i st \<longrightarrow> (let l = life_of i st in
     lc_max_attempts l = rp_max_attempts (tk_retry_policy (task_of oc i)) \<and> 1 \<le> lc_max_attempts l \<and> 0 \<le> lc_attempt l \<and> lc_attempt l \<le> lc_max_attempts l))"

definition core :: "orchestrator \<Rightarrow> orch_state \<Rightarrow> orch_state \<Rightarrow> bool" where
  "core oc a st \<longleftrightarrow> evolves a st \<and> limits_ok oc st \<and> dispatch_ok st \<and> order_ok oc a (os_trace st)"

definition completed_ok :: "orchestrator \<Rightarrow> orch_state \<Rightarrow> string set \<Rightarrow> orch_state \<Rightarrow> bool" where
  "completed_ok oc a X st \<longleftrightarrow> (\<forall>i. has_task i st \<longrightarrow> i \<notin> X \<longrightarrow> lc_state (life_of i st) = COMPLETED \<longrightarrow>
     i \<in> done_before oc a \<or> recorded i (os_trace st))"

definition idle :: "string set \<Rightarrow> orch_state \<Rightarrow> bool" where
  "idle X st \<longleftrightarrow> (\<forall>i. has_task i st \<longrightarrow> i \<notin> X \<longrightarrow> lc_state (life_of i st) \<noteq> RUNNING)"

definition run_inv :: "orchestrator \<Rightarrow> orch_state \<Rightarrow> orch_state \<Rightarrow> bool" where
  "run_inv oc a st \<longleftrightarrow> core oc a st \<and> completed_ok oc a {} st \<and> idle {} st"

section \<open>Quiet steps keep the invariant\<close>

lemma recorded_append: "recorded i tr \<Longrightarrow> recorded i (tr @ new)"
  by (auto simp: recorded_def)

lemma deps_ok_append: "deps_ok oc a i tr \<Longrightarrow> deps_ok oc a i (tr @ new)"
  by (auto simp: deps_ok_def recorded_append)

lemma order_ok_snoc: "order_ok oc a (tr @ [ev]) \<longleftrightarrow> order_ok oc a tr \<and> (\<forall>i n. ev = Dispatched i n \<longrightarrow> deps_ok oc a i tr)"
  by (auto simp: order_ok_def nth_append less_Suc_eq)

lemma order_ok_quiet: "order_ok oc a tr \<Longrightarrow> list_all (\<lambda>ev. \<not> is_dispatch ev) new \<Longrightarrow> order_ok oc a (tr @ new)"
proof (induction new rule: rev_induct)
  case (snoc ev new)
  then have "order_ok oc a (tr @ new)" "\<not> is_dispatch ev" by auto
  then show ?case using order_ok_snoc [of oc a "tr @ new" ev] by auto
qed simp

lemma quiet_life: "quiet a b \<Longrightarrow> life_of i b = life_of i a" "quiet a b \<Longrightarrow> has_task i b \<longleftrightarrow> has_task i a"
  by (simp_all add: quiet_def life_of_def has_task_def)

lemma quiet_trace: "quiet a b \<Longrightarrow> \<exists>new. os_trace b = os_trace a @ new \<and> list_all (\<lambda>ev. \<not> is_dispatch ev) new"
  by (simp add: quiet_def)

lemma quiet_evolves: "quiet a b \<Longrightarrow> evolves a b"
  by (auto simp: quiet_def evolves_def lives_evolve_def)

lemma quiet_dispatched: "quiet a b \<Longrightarrow> Dispatched i n \<in> set (os_trace b) \<longleftrightarrow> Dispatched i n \<in> set (os_trace a)"
  by (fastforce simp: list_all_iff dest!: quiet_trace)

lemma quiet_filter: "quiet a b \<Longrightarrow> filter is_dispatch (os_trace b) = filter is_dispatch (os_trace a)"
  by (auto simp: list_all_iff filter_empty_conv dest!: quiet_trace)

lemma loose_core: "loose (core oc a)"
  unfolding loose_def
proof (intro allI impI)
  fix s u assume s: "core oc a s" and q: "quiet s u"
  have "evolves a u" using s evolves_trans quiet_evolves [OF q] by (auto simp: core_def)
  moreover have "limits_ok oc u" using s by (simp add: core_def limits_ok_def quiet_life [OF q])
  moreover have "dispatch_ok u" using s by (simp add: core_def dispatch_ok_def quiet_life [OF q] quiet_dispatched [OF q] quiet_filter [OF q])
  moreover have "order_ok oc a (os_trace u)" using s quiet_trace [OF q] by (auto simp: core_def intro: order_ok_quiet)
  ultimately show "core oc a u" by (simp add: core_def)
qed

lemma loose_completed: "loose (completed_ok oc a X)"
  by (auto simp: loose_def completed_ok_def quiet_life intro: recorded_append dest!: quiet_trace)
     (metis quiet_life(1) quiet_life(2) quiet_trace recorded_append)

lemma loose_deps: "loose (\<lambda>s. deps_ok oc a i (os_trace s))"
  by (auto simp: loose_def intro: deps_ok_append dest!: quiet_trace)

lemma loose_idle: "loose (idle X)"
  by (simp add: loose_def idle_def quiet_life)

lemma loose_life: "loose (\<lambda>s. P (life_of i s))"
  by (simp add: loose_def quiet_life)

lemmas loose_rules = loose_conj loose_core loose_completed loose_deps loose_idle loose_life

lemma loose_run_inv: "loose (run_inv oc a)"
  unfolding run_inv_def by (intro loose_rules)

section \<open>Lifecycle operations keep the invariant\<close>

lemma run_step_spec:
  assumes "run_step l l'"
  shows "lc_max_attempts l' = lc_max_attempts l" "lc_attempt l \<le> lc_attempt l'" "lc_state l' \<noteq> SKIPPED" "lc_state l' \<noteq> PENDING"
    "lc_state l' = READY \<Longrightarrow> lc_state l \<noteq> PENDING \<Longrightarrow> lc_attempt l < lc_attempt l'"
    "1 \<le> lc_max_attempts l \<Longrightarrow> lc_attempt l \<le> lc_max_attempts l \<Longrightarrow> lc_attempt l' \<le> lc_max_attempts l"
    "lc_state l' = COMPLETED \<longleftrightarrow> lc_state l = RUNNING \<and> lc_state l' = COMPLETED"
  using assms
  by (induction rule: run_step.induct)
    (auto simp: lc_op_defs lc_transition_defs result_simps stamp_finished_def Let_def split: if_split_asm option.split_asm)

lemma run_steps_max: "run_step\<^sup>*\<^sup>* l l' \<Longrightarrow> lc_state l' = SKIPPED \<Longrightarrow> lc_state l = SKIPPED"
  by (induction rule: rtranclp_induct) (use run_step_spec(3) in blast)+

definition set_life :: "string \<Rightarrow> task_lifecycle \<Rightarrow> orch_state \<Rightarrow> orch_state" where
  "set_life i l st = st\<lparr>os_lifecycles := dset i l (os_lifecycles st)\<rparr>"

lemma set_life_sel [simp]: "os_trace (set_life i l st) = os_trace st" "os_dry_seen (set_life i l st) = os_dry_seen st"
  "life_of j (set_life i l st) = (if j = i then l else life_of j st)"
  by (simp_all add: set_life_def life_of_def dict_simps)

lemma has_task_set_life: "has_task i st \<Longrightarrow> has_task j (set_life i l st) \<longleftrightarrow> has_task j st"
  by (simp add: has_task_def set_life_def dkeys_dset)

lemma triple_on_life:
  assumes "\<And>s. P s \<Longrightarrow> X s" and "\<And>s l'. P s \<Longrightarrow> f (life_of i s) = Inr l' \<Longrightarrow> Q (set_life i l' s)"
  shows "triple P (on_life i f) (\<lambda>_. Q) X"
  unfolding on_life_def set_life_def [symmetric]
  by (intro triple_bind_get triple_case_sum triple_mod triple_raise) (use assms in auto)

lemma core_set_life:
  assumes s: "core oc a s" and i: "has_task i a" and step: "run_step (life_of i s) l'"
  shows "core oc a (set_life i l' s)"
proof -
  have ev: "evolves a s" and lim: "limits_ok oc s" and dis: "dispatch_ok s" and ord: "order_ok oc a (os_trace s)"
    using s by (simp_all add: core_def)
  have it: "has_task i s" using i evolves_has_task [OF ev] by simp
  note spec = run_step_spec [OF step]
  have "evolves a (set_life i l' s)" unfolding set_life_def by (rule evolves_set_life [OF i ev]) (use step in blast)
  moreover have "limits_ok oc (set_life i l' s)"
    using lim it spec(1,2,6) by (auto simp: limits_ok_def Let_def has_task_set_life [OF it])
  moreover have "dispatch_ok (set_life i l' s)"
  proof -
    have "n \<le> lc_attempt l' \<and> (lc_state l' \<in> {PENDING, READY} \<longrightarrow> n < lc_attempt l')" if "Dispatched i n \<in> set (os_trace s)" for n
    proof -
      have n: "n \<le> lc_attempt (life_of i s)" "lc_state (life_of i s) \<in> {PENDING, READY} \<Longrightarrow> n < lc_attempt (life_of i s)"
        using dis that by (auto simp: dispatch_ok_def)
      show ?thesis using n spec(2,4,5) by (cases "lc_state (life_of i s) = PENDING") auto
    qed
    then show ?thesis using dis by (auto simp: dispatch_ok_def has_task_set_life [OF it])
  qed
  ultimately show ?thesis using ord by (simp add: core_def)
qed

text \<open>The state while task \<open>i\<close> is worked on, and a task that is neither running nor completed without a report.\<close>

definition busy :: "orchestrator \<Rightarrow> orch_state \<Rightarrow> string \<Rightarrow> orch_state \<Rightarrow> bool" where
  "busy oc a i st \<longleftrightarrow> core oc a st \<and> completed_ok oc a {i} st \<and> idle {i} st \<and> deps_ok oc a i (os_trace st)"

definition in_state :: "LifecycleState \<Rightarrow> string \<Rightarrow> orch_state \<Rightarrow> bool" where
  "in_state s i st \<longleftrightarrow> lc_state (life_of i st) = s"

definition task_settled :: "orchestrator \<Rightarrow> orch_state \<Rightarrow> string \<Rightarrow> orch_state \<Rightarrow> bool" where
  "task_settled oc a i st \<longleftrightarrow> completed_ok oc a (- {i}) st \<and> idle (- {i}) st"

lemma run_inv_busy: "run_inv oc a st \<and> deps_ok oc a i (os_trace st) \<longleftrightarrow> busy oc a i st \<and> task_settled oc a i st"
  unfolding run_inv_def busy_def task_settled_def completed_ok_def idle_def by blast

lemma busy_core: "busy oc a i st \<Longrightarrow> core oc a st"
  by (simp add: busy_def)

lemma run_inv_core: "run_inv oc a st \<Longrightarrow> core oc a st"
  by (simp add: run_inv_def)

lemma loose_in_state: "loose (in_state s i)"
  by (simp add: loose_def in_state_def quiet_life)

lemma loose_busy: "loose (busy oc a i)" "loose (task_settled oc a i)" "loose (\<lambda>st. busy oc a i st \<and> in_state s i st)"
  "loose (\<lambda>st. busy oc a i st \<and> task_settled oc a i st)" "loose (\<lambda>st. run_inv oc a st \<and> deps_ok oc a i (os_trace st))"
  unfolding busy_def task_settled_def by (intro loose_rules loose_in_state loose_run_inv)+

lemma loose_triple:
  assumes "loose I" and "\<And>a. keeps (quiet a) m" and "\<And>s. I s \<Longrightarrow> X s"
  shows "triple I m (\<lambda>_. I) X"
  by (rule triple_post [OF loose_keeps [OF assms(1,2)]]) (use assms(3) in auto)

lemma completed_set_life: "has_task i s \<Longrightarrow> completed_ok oc a {i} s \<Longrightarrow> completed_ok oc a {i} (set_life i l s)"
  by (auto simp: completed_ok_def has_task_set_life)

lemma idle_set_life: "has_task i s \<Longrightarrow> idle {i} s \<Longrightarrow> idle {i} (set_life i l s)"
  by (auto simp: idle_def has_task_set_life)

lemma busy_set_life: "busy oc a i s \<Longrightarrow> has_task i a \<Longrightarrow> run_step (life_of i s) l' \<Longrightarrow> busy oc a i (set_life i l' s)"
  using evolves_has_task [of a s i] completed_set_life [of i s oc a l'] idle_set_life [of i s l']
  by (auto simp: busy_def core_set_life) (simp_all add: core_def)

lemma task_settled_state: "in_state s i st \<Longrightarrow> s \<notin> {RUNNING, COMPLETED} \<Longrightarrow> task_settled oc a i st"
  by (auto simp: task_settled_def completed_ok_def idle_def in_state_def)

section \<open>One attempt\<close>

lemma busy_life_op:
  assumes "has_task i a" and "\<And>l l'. f l = Inr l' \<Longrightarrow> lc_state l \<noteq> COMPLETED \<Longrightarrow> run_step l l' \<and> lc_state l' = t"
  shows "triple (\<lambda>st. busy oc a i st \<and> lc_state (life_of i st) \<noteq> COMPLETED) (on_life i f) (\<lambda>_ st. busy oc a i st \<and> in_state t i st) (core oc a)"
  by (rule triple_on_life) (use assms busy_set_life busy_core in \<open>auto simp: in_state_def\<close>)

lemma life_results:
  "lc_start l agent (Some now) = Inr l' \<Longrightarrow> run_step l l' \<and> lc_state l' = RUNNING"
  "complete l out evidence (Some now) = Inr l' \<Longrightarrow> lc_state l \<noteq> COMPLETED \<Longrightarrow> run_step l l' \<and> lc_state l' = COMPLETED"
  "fail l err retryable (Some now) = Inr l' \<Longrightarrow> run_step l l' \<and> lc_state l' = FAILED"
  "retry l = Inr l' \<Longrightarrow> run_step l l' \<and> lc_state l' = READY"
  "block l rsn = Inr l' \<Longrightarrow> run_step l l' \<and> lc_state l' = BLOCKED"
  "mark_ready l = Inr l' \<Longrightarrow> lc_state l = PENDING \<Longrightarrow> run_step l l' \<and> lc_state l' = READY"
proof -
  show "complete l out evidence (Some now) = Inr l' \<Longrightarrow> lc_state l \<noteq> COMPLETED \<Longrightarrow> run_step l l' \<and> lc_state l' = COMPLETED"
    using run_complete [of l out evidence now l']
    by (auto simp: complete_def lc_transition_defs result_simps stamp_finished_def split: if_split_asm)
qed (auto intro: run_step.intros simp: lc_op_defs lc_transition_defs result_simps stamp_finished_def Let_def split: if_split_asm option.split_asm)

definition unsent :: "string \<Rightarrow> orch_state \<Rightarrow> bool" where
  "unsent i st \<longleftrightarrow> lc_state (life_of i st) = RUNNING \<and> 1 \<le> lc_attempt (life_of i st)
     \<and> (\<forall>n. Dispatched i n \<in> set (os_trace st) \<longrightarrow> n < lc_attempt (life_of i st))"

lemma loose_unsent: "loose (\<lambda>st. busy oc a i st \<and> unsent i st)"
  using loose_busy(1) [of oc a i] by (auto simp: loose_def unsent_def quiet_life quiet_dispatched)

lemma lc_start_ready: "lc_start l agent (Some now) = Inr l' \<Longrightarrow>
    lc_state l = READY \<and> lc_attempt l' = (if lc_attempt l = 0 then 1 else lc_attempt l)"
  by (cases "lc_state l") (auto simp: lc_start_def lc_transition_defs result_simps Let_def split: if_split_asm option.split_asm)

lemma start_unsent:
  assumes "has_task i a"
  shows "triple (busy oc a i) (on_life i (\<lambda>l. lc_start l agent (Some now))) (\<lambda>_ st. busy oc a i st \<and> unsent i st) (core oc a)"
proof (rule triple_on_life)
  fix s l' assume s: "busy oc a i s" and st: "lc_start (life_of i s) agent (Some now) = Inr l'"
  have dis: "dispatch_ok s" and lim: "limits_ok oc s" using s by (simp_all add: busy_def core_def)
  have b: "busy oc a i (set_life i l' s)" using busy_set_life [OF s assms] life_results(1) [OF st] by simp
  have "has_task i s" using s assms evolves_has_task [of a s i] by (simp add: busy_def core_def)
  then have zero: "0 \<le> lc_attempt (life_of i s)" using lim by (simp add: limits_ok_def Let_def)
  have "1 \<le> n \<and> n < lc_attempt (life_of i s)" if "Dispatched i n \<in> set (os_trace s)" for n
    using that dis lc_start_ready [OF st] by (auto simp: dispatch_ok_def)
  then have "unsent i (set_life i l' s)"
    using life_results(1) [OF st] lc_start_ready [OF st] zero by (force simp: unsent_def)
  with b have "busy oc a i (set_life i l' s) \<and> unsent i (set_life i l' s)" by simp
  moreover note b
  ultimately show "busy oc a i (set_life i l' s) \<and> unsent i (set_life i l' s)" by simp
qed (rule busy_core)

text \<open>The dispatch itself: the one step that is not quiet.\<close>

lemma emit_dispatch:
  assumes "has_task i a"
  shows "busy oc a i s \<Longrightarrow> unsent i s \<Longrightarrow>
    busy oc a i (s\<lparr>os_trace := os_trace s @ [Dispatched i (lc_attempt (life_of i s))]\<rparr>)"
proof -
  assume b: "busy oc a i s" and u: "unsent i s"
  let ?t = "s\<lparr>os_trace := os_trace s @ [Dispatched i (lc_attempt (life_of i s))]\<rparr>"
  have ev: "evolves a s" and lim: "limits_ok oc s" and dis: "dispatch_ok s" and ord: "order_ok oc a (os_trace s)"
    and comp: "completed_ok oc a {i} s" and idl: "idle {i} s" and dep: "deps_ok oc a i (os_trace s)"
    using b by (simp_all add: busy_def core_def)
  have same [simp]: "life_of j ?t = life_of j s" "has_task j ?t = has_task j s" for j
    by (simp_all add: life_of_def has_task_def)
  have "evolves s ?t" by (auto simp: evolves_def lives_evolve_def)
  then have 1: "evolves a ?t" using ev evolves_trans by blast
  have 2: "limits_ok oc ?t" using lim by (simp add: limits_ok_def)
  have "has_task i s" using ev assms evolves_has_task by simp
  moreover have "Dispatched i (lc_attempt (life_of i s)) \<notin> set (os_trace s)" using u by (auto simp: unsent_def)
  ultimately have 3: "dispatch_ok ?t" using dis u by (auto simp: dispatch_ok_def unsent_def)
  have 4: "order_ok oc a (os_trace ?t)" using ord dep by (simp add: order_ok_snoc)
  have 5: "completed_ok oc a {i} ?t" using comp by (auto simp: completed_ok_def intro: recorded_append)
  have 6: "idle {i} ?t" using idl by (simp add: idle_def)
  have 7: "deps_ok oc a i (os_trace ?t)" using dep by (simp add: deps_ok_append)
  show ?thesis using 1 2 3 4 5 6 7 by (simp add: busy_def core_def)
qed

lemma running_dispatch:
  assumes "has_task (tk_id t) a"
  shows "triple (\<lambda>st. busy oc a (tk_id t) st \<and> unsent (tk_id t) st) (dispatch_task env oc t)
    (\<lambda>_ st. busy oc a (tk_id t) st \<and> in_state RUNNING (tk_id t) st) (core oc a)"
proof (rule tripleI)
  let ?i = "tk_id t"
  fix s e u assume s: "busy oc a ?i s \<and> unsent ?i s"
  show "core oc a u" if "dispatch_task env oc t s = Some (Inl e, u)"
    using that by (auto simp: dispatch_task_def proc_defs tick_def emit_def split: if_split_asm)
next
  let ?i = "tk_id t"
  fix s r u assume s: "busy oc a ?i s \<and> unsent ?i s" and run: "dispatch_task env oc t s = Some (Inr r, u)"
  define s1 where "s1 = s\<lparr>os_tick := os_tick s + 1\<rparr>"
  have "quiet s s1" by (simp add: s1_def quiet_def)
  then have b: "busy oc a ?i s1" "unsent ?i s1" using looseD [OF loose_unsent s] by simp_all
  have same: "life_of ?i s1 = life_of ?i s" by (simp add: s1_def life_of_def)
  have "u = s \<or> u = s1\<lparr>os_trace := os_trace s1 @ [Dispatched ?i (lc_attempt (life_of ?i s1))]\<rparr>"
    using run unfolding same by (cases "has_proxy (PDict (oc_context oc))") (simp_all add: dispatch_task_def proc_defs tick_def emit_def s1_def)
  then show "busy oc a ?i u \<and> in_state RUNNING ?i u"
  proof
    assume "u = s"
    then show ?thesis using s by (simp add: unsent_def in_state_def)
  next
    assume u: "u = s1\<lparr>os_trace := os_trace s1 @ [Dispatched ?i (lc_attempt (life_of ?i s1))]\<rparr>"
    have "life_of ?i u = life_of ?i s1" unfolding u by (simp add: life_of_def)
    then have "in_state RUNNING ?i u" using b(2) by (simp add: unsent_def in_state_def)
    moreover have "busy oc a ?i u" unfolding u by (rule emit_dispatch [OF assms b])
    ultimately show ?thesis by simp
  qed
qed

lemma quiet_triple:
  assumes "\<And>a. keeps (quiet a) m" and "loose I" and "\<And>s. I s \<Longrightarrow> core oc a s"
  shows "triple I m (\<lambda>_. I) (core oc a)"
  by (rule loose_triple [OF assms(2,1,3)])

lemma record_completed:
  assumes "has_task (tk_id t) a"
  shows "triple (\<lambda>st. busy oc a (tk_id t) st \<and> in_state COMPLETED (tk_id t) st) (record_report oc t out evidence err rsn)
    (\<lambda>_ st. busy oc a (tk_id t) st \<and> task_settled oc a (tk_id t) st) (core oc a)"
proof (rule tripleI)
  let ?I = "\<lambda>st. busy oc a (tk_id t) st \<and> in_state COMPLETED (tk_id t) st"
  have keep: "triple ?I (record_report oc t out evidence err rsn) (\<lambda>_. ?I) (core oc a)"
    by (rule quiet_triple) (auto intro: quiet_record_report loose_busy busy_core)
  show "core oc a u" if "?I s" "record_report oc t out evidence err rsn s = Some (Inl e, u)" for s e u
    using triple_Inl [OF keep that] .
  fix s r u assume s: "?I s" and run: "record_report oc t out evidence err rsn s = Some (Inr r, u)"
  have u: "?I u" using triple_Inr [OF keep s run] .
  have "recorded (tk_id t) (os_trace u)"
    using run s unfolding record_report_def add_report_def
    by (cases "has_proxy (tk_wave t)")
      (auto simp: proc_defs emit_def call_hook_def recorded_def in_state_def split: if_split_asm)
  then show "busy oc a (tk_id t) u \<and> task_settled oc a (tk_id t) u"
    using u by (auto simp: task_settled_def completed_ok_def idle_def in_state_def)
qed

lemma complete_attempt_inv:
  assumes "has_task (tk_id t) a"
  shows "triple (\<lambda>st. busy oc a (tk_id t) st \<and> in_state RUNNING (tk_id t) st) (complete_attempt env oc t out evidence)
    (\<lambda>_ st. busy oc a (tk_id t) st \<and> task_settled oc a (tk_id t) st) (core oc a)"
  unfolding complete_attempt_def
proof (rule triple_bind [OF quiet_triple [OF quiet_clock]])
  show "loose (\<lambda>st. busy oc a (tk_id t) st \<and> in_state RUNNING (tk_id t) st)" by (rule loose_busy)
  fix now
  show "triple (\<lambda>st. busy oc a (tk_id t) st \<and> in_state RUNNING (tk_id t) st)
     (thenP (on_life (tk_id t) (\<lambda>l. complete l out evidence (Some now))) (thenP (record_report oc t out evidence None None) (retP False)))
     (\<lambda>_ st. busy oc a (tk_id t) st \<and> task_settled oc a (tk_id t) st) (core oc a)"
    by (rule triple_then [OF triple_pre [OF busy_life_op [OF assms life_results(2)]]])
      (auto simp: in_state_def intro!: triple_then [OF record_completed [OF assms, unfolded in_state_def]] triple_ret)
qed (use busy_core in auto)

lemma busy_quiet:
  assumes "\<And>a. keeps (quiet a) m"
  shows "triple (\<lambda>st. busy oc a i st \<and> in_state s i st) m (\<lambda>_ st. busy oc a i st \<and> in_state s i st) (core oc a)"
  by (rule quiet_triple [OF assms loose_busy(3)]) (auto dest: busy_core)

lemma busy_settled: "s \<notin> {RUNNING, COMPLETED} \<Longrightarrow> busy oc a i st \<and> in_state s i st \<Longrightarrow> busy oc a i st \<and> task_settled oc a i st"
  by (auto intro: task_settled_state)

lemma busy_op:
  assumes "has_task i a" and "\<And>l l'. f l = Inr l' \<Longrightarrow> lc_state l \<noteq> COMPLETED \<Longrightarrow> run_step l l' \<and> lc_state l' = t" and "s \<noteq> COMPLETED"
  shows "triple (\<lambda>st. busy oc a i st \<and> in_state s i st) (on_life i f) (\<lambda>_ st. busy oc a i st \<and> in_state t i st) (core oc a)"
  by (rule triple_pre [OF busy_life_op [OF assms(1,2)]]) (use assms(3) in \<open>auto simp: in_state_def\<close>)

lemma fail_attempt_inv:
  assumes "has_task (tk_id t) a"
  shows "triple (\<lambda>st. busy oc a (tk_id t) st \<and> in_state RUNNING (tk_id t) st) (fail_attempt env oc t status evidence err rsn)
    (\<lambda>_ st. busy oc a (tk_id t) st \<and> task_settled oc a (tk_id t) st) (core oc a)"
  unfolding fail_attempt_def Let_def
proof (rule triple_bind [OF busy_quiet [OF quiet_clock]],
    rule triple_then [OF busy_op [OF assms life_results(3)]], assumption, simp,
    rule triple_then [OF busy_quiet [OF quiet_record_report]], rule triple_bind_get, rule triple_if)
  let ?b = "\<lambda>s st. busy oc a (tk_id t) st \<and> in_state s (tk_id t) st"
  let ?q = "\<lambda>(_ :: bool) st. busy oc a (tk_id t) st \<and> task_settled oc a (tk_id t) st"
  fix l
  show "triple (\<lambda>s. ?b FAILED s \<and> life_of (tk_id t) s = l) (retP False) ?q (core oc a)"
    by (rule triple_ret) (auto intro: task_settled_state)
  have "triple (?b FAILED) (thenP (emit (Slept x)) (bindP (orch_clock env) (\<lambda>_.
          thenP (on_life (tk_id t) retry) (thenP (notify oc (tk_id t)) (retP True))))) ?q (core oc a)" for x
    by (rule triple_then [OF busy_quiet [OF quiet_emit]], simp, rule triple_bind [OF busy_quiet [OF quiet_clock]],
        rule triple_then [OF busy_op [OF assms life_results(4)]], assumption, simp,
        rule triple_then [OF busy_quiet [OF quiet_notify]], rule triple_ret) (auto intro: task_settled_state)
  then show "triple (\<lambda>s. ?b FAILED s \<and> life_of (tk_id t) s = l) (thenP (emit (Slept (rp_backoff_seconds (tk_retry_policy t)))) (bindP (orch_clock env) (\<lambda>_.
          thenP (on_life (tk_id t) retry) (thenP (notify oc (tk_id t)) (retP True))))) ?q (core oc a)"
    by (rule triple_strengthen)
qed

lemma finish_attempt_inv:
  assumes "has_task (tk_id t) a"
  shows "triple (\<lambda>st. busy oc a (tk_id t) st \<and> in_state RUNNING (tk_id t) st) (finish_attempt env oc t x)
    (\<lambda>_ st. busy oc a (tk_id t) st \<and> task_settled oc a (tk_id t) st) (core oc a)"
  unfolding finish_attempt_def
  by (intro triple_splits complete_attempt_inv fail_attempt_inv assms triple_raise) (auto simp: busy_core)

lemma attempt_once_inv:
  assumes "has_task (tk_id t) a"
  shows "triple (busy oc a (tk_id t)) (attempt_once env oc t)
    (\<lambda>_ st. busy oc a (tk_id t) st \<and> task_settled oc a (tk_id t) st) (core oc a)"
proof -
  let ?r = "\<lambda>st. busy oc a (tk_id t) st \<and> in_state RUNNING (tk_id t) st"
  have v2: "triple ?r (if is_v2 oc then v2_outcome env oc t x else retP x) (\<lambda>_. ?r) (core oc a)" for x
    by (intro triple_if busy_quiet quiet_rules triple_ret)
  note rest = triple_bind [OF v2 finish_attempt_inv [OF assms]]
  show ?thesis
    unfolding attempt_once_def Let_def
    by (rule triple_bind [OF quiet_triple [OF quiet_clock loose_busy(1)]], erule busy_core,
        rule triple_then [OF start_unsent [OF assms]],
        rule triple_then [OF quiet_triple [OF quiet_notify loose_unsent]], erule busy_core [OF conjunct1],
        rule triple_bind [OF running_dispatch [OF assms]], rule triple_bind [OF busy_quiet [OF quiet_clock]],
        intro triple_case_prod rest)
qed

lemma attempts_inv:
  assumes "has_task (tk_id t) a"
  shows "triple (busy oc a (tk_id t)) (attempts env oc t) (\<lambda>_ st. busy oc a (tk_id t) st \<and> task_settled oc a (tk_id t) st) (core oc a)"
  unfolding attempts_def
  by (rule triple_repeat, rule triple_post [OF attempt_once_inv [OF assms]]) auto

section \<open>One task\<close>

definition ready_inv :: "orchestrator \<Rightarrow> orch_state \<Rightarrow> string \<Rightarrow> orch_state \<Rightarrow> bool" where
  "ready_inv oc a i st \<longleftrightarrow> run_inv oc a st \<and> deps_ok oc a i (os_trace st)"

lemma ready_inv_busy: "ready_inv oc a i st \<longleftrightarrow> busy oc a i st \<and> task_settled oc a i st"
  by (simp add: ready_inv_def run_inv_busy)

lemma ready_inv_loose: "loose (ready_inv oc a i)"
  unfolding ready_inv_busy by (rule loose_busy)

lemma ready_inv_core: "ready_inv oc a i st \<Longrightarrow> core oc a st"
  by (simp add: ready_inv_def run_inv_core)

lemma ready_op:
  assumes "has_task i a" and "\<And>l l'. f l = Inr l' \<Longrightarrow> lc_state l = s \<Longrightarrow> run_step l l' \<and> lc_state l' = t" and "t \<notin> {RUNNING, COMPLETED}"
  shows "triple (\<lambda>st. ready_inv oc a i st \<and> in_state s i st) (on_life i f) (\<lambda>_. ready_inv oc a i) (core oc a)"
proof (rule triple_on_life)
  fix st l' assume st: "ready_inv oc a i st \<and> in_state s i st" "f (life_of i st) = Inr l'"
  then have step: "run_step (life_of i st) l'" and t: "lc_state l' = t" using assms(2) by (auto simp: in_state_def)
  have "in_state t i (set_life i l' st)" using t by (simp add: in_state_def)
  then show "ready_inv oc a i (set_life i l' st)"
    using st busy_set_life [OF _ assms(1) step] task_settled_state [OF _ assms(3)] by (simp add: ready_inv_busy)
qed (auto dest: ready_inv_core)

lemma block_op:
  assumes "has_task i a"
  shows "triple (ready_inv oc a i) (on_life i (\<lambda>l. block l rsn)) (\<lambda>_. ready_inv oc a i) (core oc a)"
proof (rule triple_on_life)
  fix st l' assume st: "ready_inv oc a i st" "block (life_of i st) rsn = Inr l'"
  then have step: "run_step (life_of i st) l'" and t: "in_state BLOCKED i (set_life i l' st)"
    using life_results(5) by (auto simp: in_state_def)
  then show "ready_inv oc a i (set_life i l' st)"
    using st busy_set_life [OF _ assms step] task_settled_state by (simp add: ready_inv_busy)
qed (auto dest: ready_inv_core)

lemma ready_quiet: "(\<And>a. keeps (quiet a) m) \<Longrightarrow> triple (ready_inv oc a i) m (\<lambda>_. ready_inv oc a i) (core oc a)"
  by (rule quiet_triple) (auto intro: ready_inv_loose ready_inv_core)

lemma block_with_report_inv:
  assumes "has_task (tk_id t) a"
  shows "triple (ready_inv oc a (tk_id t)) (block_with_report oc t rsn evidence) (\<lambda>_. ready_inv oc a (tk_id t)) (core oc a)"
  unfolding block_with_report_def
  by (intro triple_then [where R = "ready_inv oc a (tk_id t)"] block_op [OF assms] ready_quiet quiet_rules)

lemma make_ready_inv:
  assumes "has_task i a"
  shows "triple (\<lambda>st. ready_inv oc a i st \<and> life_of i st = l) (make_ready oc i l) (\<lambda>_. ready_inv oc a i) (core oc a)"
proof (cases "lc_state l = PENDING")
  case True
  have "triple (\<lambda>st. ready_inv oc a i st \<and> in_state PENDING i st) (thenP (on_life i mark_ready) (notify oc i)) (\<lambda>_. ready_inv oc a i) (core oc a)"
    by (rule triple_then [OF ready_op [OF assms life_results(6)] ready_quiet [OF quiet_notify]]) auto
  then show ?thesis unfolding make_ready_def using True by (auto simp: whenP_def in_state_def intro: triple_pre)
qed (auto simp: make_ready_def whenP_def intro: triple_ret)

lemma execute_task_inv:
  assumes "has_task (tk_id t) a"
  shows "triple (ready_inv oc a (tk_id t)) (execute_task env oc t) (\<lambda>_. ready_inv oc a (tk_id t)) (core oc a)"
proof -
  let ?I = "ready_inv oc a (tk_id t)"
  have tries: "triple ?I (attempts env oc t) (\<lambda>_. ?I) (core oc a)"
    by (rule triple_pre [OF triple_post [OF attempts_inv [OF assms]]]) (simp_all add: ready_inv_busy)
  have go: "triple (\<lambda>st. ?I st \<and> life_of (tk_id t) st = l) (thenP (make_ready oc (tk_id t) l)
      (thenP (attempts env oc t) (thenP (notify oc (tk_id t)) (orch_checkpoint oc)))) (\<lambda>_. ?I) (core oc a)" for l
    by (intro triple_then [OF make_ready_inv [OF assms]] triple_then [OF tries] triple_then [OF ready_quiet] ready_quiet quiet_rules)
  have blocked: "triple (\<lambda>st. ?I st \<and> life_of (tk_id t) st = l) (block_with_report oc t rsn ev) (\<lambda>_. ?I) (core oc a)" for l rsn ev
    by (rule triple_strengthen [OF block_with_report_inv [OF assms]])
  show ?thesis
    unfolding execute_task_alt
    by (intro triple_bind_get triple_splits triple_bind_lift blocked go triple_ret) (auto dest: ready_inv_core)
qed

section \<open>Batches and waves\<close>

lemma run_quiet: "(\<And>a. keeps (quiet a) m) \<Longrightarrow> triple (run_inv oc a) m (\<lambda>_. run_inv oc a) (core oc a)"
  by (rule quiet_triple) (auto intro: loose_run_inv run_inv_core)

lemma run_block:
  assumes "has_task i a"
  shows "triple (run_inv oc a) (on_life i (\<lambda>l. block l rsn)) (\<lambda>_. run_inv oc a) (core oc a)"
proof (rule triple_on_life)
  fix s l' assume s: "run_inv oc a s" and b: "block (life_of i s) rsn = Inr l'"
  from life_results(5) [OF b] have step: "run_step (life_of i s) l'" and t: "lc_state l' = BLOCKED" by simp_all
  have "has_task i s" using s assms evolves_has_task [of a s i] by (simp add: run_inv_def core_def)
  then have "completed_ok oc a {} (set_life i l' s)" "idle {} (set_life i l' s)"
    using s t by (auto simp: run_inv_def completed_ok_def idle_def has_task_set_life)
  moreover have "core oc a (set_life i l' s)" by (rule core_set_life [OF run_inv_core [OF s] assms step])
  ultimately show "run_inv oc a (set_life i l' s)" by (simp add: run_inv_def)
qed (rule run_inv_core)

lemma block_unresolved_inv:
  assumes "has_task (tk_id t) a"
  shows "triple (run_inv oc a) (block_unresolved oc t) (\<lambda>_. run_inv oc a) (core oc a)"
  unfolding block_unresolved_def block_with_report_def
  by (intro triple_bind_get triple_splits triple_when triple_ret triple_strengthen triple_then [where R = "run_inv oc a"]
      run_block assms run_quiet quiet_rules) auto

lemma block_stalled_inv:
  assumes "has_task (tk_id t) a"
  shows "triple (run_inv oc a) (block_stalled env oc wave t) (\<lambda>_. run_inv oc a) (core oc a)"
  unfolding block_stalled_def
  by (intro triple_bind_get triple_splits triple_when triple_ret triple_strengthen triple_then [where R = "run_inv oc a"]
      triple_bind [where R = "\<lambda>_. run_inv oc a"] run_block assms run_quiet quiet_rules) auto

lemma sweeps_inv:
  assumes "all_tasks oc a"
  shows "triple (run_inv oc a) (block_unresolvable oc) (\<lambda>_. run_inv oc a) (core oc a)"
    "triple (run_inv oc a) (block_wave_stalls env oc wave) (\<lambda>_. run_inv oc a) (core oc a)"
  unfolding block_unresolvable_def block_wave_stalls_def
  by (intro triple_for block_unresolved_inv block_stalled_inv; use assms sorted_tasks_plan in \<open>auto simp: all_tasks_def\<close>)+

lemma deps_ok_evolves: "evolves s t \<Longrightarrow> deps_ok oc a i (os_trace s) \<Longrightarrow> deps_ok oc a i (os_trace t)"
  by (auto simp: evolves_def deps_ok_append)

definition batch_inv :: "orchestrator \<Rightarrow> orch_state \<Rightarrow> string list \<Rightarrow> orch_state \<Rightarrow> bool" where
  "batch_inv oc a batch st \<longleftrightarrow> run_inv oc a st \<and> (\<forall>i \<in> set batch. deps_ok oc a i (os_trace st))"

lemma batch_step:
  assumes i: "i \<in> set batch" and m: "triple (ready_inv oc a i) m (\<lambda>_. ready_inv oc a i) (core oc a)"
    and ev: "\<And>s. has_task i s \<Longrightarrow> keeps (evolves s) m" and has: "has_task i a"
  shows "triple (batch_inv oc a batch) m (\<lambda>_. batch_inv oc a batch) (core oc a)"
proof (rule tripleI)
  fix s r u assume s: "batch_inv oc a batch s" and run: "m s = Some (Inr r, u)"
  have "has_task i s" using s has evolves_has_task [of a s i] by (simp add: batch_inv_def run_inv_def core_def)
  then have "evolves s u" using triple_Inr [OF ev evolves_refl run] by blast
  moreover have "ready_inv oc a i u" using triple_Inr [OF m _ run] s i by (simp add: batch_inv_def ready_inv_def)
  ultimately show "batch_inv oc a batch u" using s deps_ok_evolves by (auto simp: batch_inv_def ready_inv_def)
next
  fix s e u assume s: "batch_inv oc a batch s" and run: "m s = Some (Inl e, u)"
  have "ready_inv oc a i s" using s i by (simp add: batch_inv_def ready_inv_def)
  from triple_Inl [OF m this run] show "core oc a u" .
qed

lemma run_batch_inv:
  assumes all: "all_tasks oc a" and ids: "set batch \<subseteq> plan_ids oc"
  shows "triple (batch_inv oc a batch) (run_batch env oc batch) (\<lambda>_. run_inv oc a) (core oc a)"
proof -
  have "triple (batch_inv oc a batch) (execute_task env oc (task_of oc i)) (\<lambda>_. batch_inv oc a batch) (core oc a)" if "i \<in> set batch" for i
  proof -
    have t: "tk_id (task_of oc i) = i" and has: "has_task i a" using task_of_plan all_tasks_has [OF all] ids that by blast+
    show ?thesis using batch_step [OF that, of oc a "execute_task env oc (task_of oc i)"] execute_task_inv [of "task_of oc i" a]
        evolve_execute [of "task_of oc i"] has unfolding t by simp
  qed
  moreover have "triple (batch_inv oc a batch) (mark_dry_run oc (task_of oc i)) (\<lambda>_. batch_inv oc a batch) (core oc a)" if "i \<in> set batch" for i
    using that ids all_tasks_has [OF all] by (intro batch_step [OF that] ready_quiet quiet_dry_run evolve_dry_run) auto
  moreover have "triple (batch_inv oc a batch) (emit (RunBatch batch)) (\<lambda>_. batch_inv oc a batch) (core oc a)"
  proof (rule quiet_triple [OF quiet_emit])
    show "loose (batch_inv oc a batch)"
      using loose_run_inv [of oc a] deps_ok_evolves [OF quiet_evolves] unfolding loose_def batch_inv_def by blast
  qed (auto simp: batch_inv_def run_inv_core)
  moreover have "triple (batch_inv oc a batch) (block_unresolvable oc) (\<lambda>_. run_inv oc a) (core oc a)"
    by (rule triple_pre [OF sweeps_inv(1) [OF all]]) (simp add: batch_inv_def)
  ultimately show ?thesis
    unfolding run_batch_def
    by (intro triple_then [where R = "batch_inv oc a batch"] triple_if triple_for)
qed

lemma with_states_iff:
  assumes "distinct (dkeys (os_lifecycles st))"
  shows "i \<in> set (with_states S st) \<longleftrightarrow> has_task i st \<and> lc_state (life_of i st) \<in> S"
proof -
  have "dget (os_lifecycles st) i = Some l \<longleftrightarrow> (i, l) \<in> set (os_lifecycles st)" for l
    using assms by (simp add: dget_def dkeys_def)
  then show ?thesis
    by (force simp: with_states_def has_task_def life_of_def dkeys_def)
qed

lemma ready_deps:
  assumes inv: "run_inv oc a s" and keys: "distinct (dkeys (os_lifecycles a))" and ids: "distinct (map tk_id (fp_tasks (oc_plan oc)))"
    and ready: "compute_ready_tasks rep (Plan (oc_plan oc)) (with_states {COMPLETED, SKIPPED} s) (with_states {SKIPPED} s) passed = Inr out"
    and i: "i \<in> set out"
  shows "deps_ok oc a i (os_trace s)"
proof -
  let ?D = "terminal_ids (oc_plan oc) (with_states {COMPLETED, SKIPPED} s) (with_states {SKIPPED} s)"
  obtain t where t: "t \<in> set (fp_tasks (oc_plan oc))" "tk_id t = i" "set (tk_depends_on t) \<subseteq> ?D"
    using ready i by (auto simp: compute_ready_tasks_def result_simps is_ready_def split: if_split_asm)
  then have same: "task_of oc i = t" using dget_by_id [OF ids, of i t] by (simp add: task_of_def)
  have ev: "evolves a s" and comp: "completed_ok oc a {} s" using inv by (simp_all add: run_inv_def core_def)
  have ks: "distinct (dkeys (os_lifecycles s))" using keys evolves_dkeys [OF ev] by simp
  have "d \<in> done_before oc a \<or> recorded d (os_trace s)" if "d \<in> set (tk_depends_on t)" for d
  proof -
    have "d \<in> ?D" using that t(3) by blast
    then consider "d \<in> done_before oc a" | "has_task d s" "lc_state (life_of d s) = COMPLETED" | "has_task d s" "lc_state (life_of d s) = SKIPPED"
      unfolding terminal_ids_def done_before_def Un_iff with_states_iff [OF ks] by auto
    then show ?thesis
    proof cases
      case 2
      then show ?thesis using comp by (auto simp: completed_ok_def)
    next
      case 3
      then have "has_task d a" using evolves_has_task [OF ev] by simp
      moreover from this have "lc_state (life_of d a) = SKIPPED" using run_steps_max [OF evolves_life [OF ev]] 3(2) by simp
      ultimately show ?thesis by (simp add: done_before_def terminal_ids_def with_states_iff [OF keys])
    qed simp
  qed
  then show ?thesis by (simp add: deps_ok_def same)
qed

lemma wave_ready_inv:
  assumes "distinct (dkeys (os_lifecycles a))" and "distinct (map tk_id (fp_tasks (oc_plan oc)))"
  shows "triple (run_inv oc a) (wave_ready env oc wave) (batch_inv oc a) (core oc a)"
proof -
  have "triple (run_inv oc a) (orch_ready_ids env oc) (batch_inv oc a) (core oc a)"
    unfolding orch_ready_ids_def
    by (rule triple_bind [OF run_quiet [OF quiet_gates(1)]], intro triple_bind_get triple_case_sum triple_raise triple_ret)
      (auto simp: batch_inv_def intro: run_inv_core ready_deps [OF _ assms])
  then show ?thesis
    unfolding wave_ready_def by (rule triple_bind) (auto simp: batch_inv_def intro!: triple_ret)
qed

definition good_start :: "orchestrator \<Rightarrow> orch_state \<Rightarrow> bool" where
  "good_start oc a \<longleftrightarrow> all_tasks oc a \<and> distinct (dkeys (os_lifecycles a)) \<and> distinct (map tk_id (fp_tasks (oc_plan oc)))"

lemma wave_round_inv:
  assumes "good_start oc a"
  shows "triple (run_inv oc a) (wave_round env oc wave) (\<lambda>_. run_inv oc a) (core oc a)"
  unfolding wave_round_def
proof (rule triple_bind)
  have all: "all_tasks oc a" and d: "distinct (dkeys (os_lifecycles a))" "distinct (map tk_id (fp_tasks (oc_plan oc)))"
    using assms by (simp_all add: good_start_def)
  let ?R = "\<lambda>ids s. batch_inv oc a ids s \<and> set ids \<subseteq> plan_ids oc"
  show "triple (run_inv oc a) (wave_ready env oc wave) ?R (core oc a)"
    by (rule triple_pre [OF triple_post [OF triple_conj [OF wave_ready_inv [OF d] wave_ready_plan]]]) auto
  fix ids
  have "triple (?R ids) (run_batch env oc (take n ids)) (\<lambda>_. run_inv oc a) (core oc a)" for n
  proof (cases "set ids \<subseteq> plan_ids oc")
    case True
    then have "set (take n ids) \<subseteq> plan_ids oc" by (auto dest: in_set_takeD)
    from run_batch_inv [OF all this] show ?thesis by (rule triple_pre) (auto simp: batch_inv_def dest: in_set_takeD)
  qed (simp add: triple_def)
  then show "triple (?R ids) (if ids = [] then retP False else thenP (run_batch env oc (take (nat (oc_max_parallel oc)) ids)) (retP True))
      (\<lambda>_. run_inv oc a) (core oc a)"
    by (intro triple_if triple_then [where R = "run_inv oc a"] triple_ret) (auto simp: batch_inv_def)
qed

lemma run_plan_inv:
  assumes "good_start oc a"
  shows "triple (run_inv oc a) (run_plan env oc) (\<lambda>_. run_inv oc a) (core oc a)"
proof -
  have all: "all_tasks oc a" using assms by (simp add: good_start_def)
  have loop: "triple (run_inv oc a) (wave_loop env oc wave) (\<lambda>_. run_inv oc a) (core oc a)" for wave
    unfolding wave_loop_def by (rule triple_repeat) (use wave_round_inv [OF assms] in simp)
  have set: "triple (run_inv oc a) (modP (\<lambda>st. st\<lparr>os_current_wave := n, os_last_wave := n\<rparr>)) (\<lambda>_. run_inv oc a) (core oc a)" for n
    by (rule run_quiet, rule quiet_mod) (simp add: quiet_def)
  show ?thesis
    unfolding run_plan_def run_wave_def
    by (intro triple_then [where R = "run_inv oc a"] triple_bind_lift triple_for loop set sweeps_inv all) (auto intro: run_inv_core)
qed

section \<open>The start of a run\<close>

lemma resume_entry_spec:
  assumes "resume_entry lc t = Inr il"
  shows "fst il = tk_id t \<and> lc_max_attempts (snd il) = rp_max_attempts (tk_retry_policy t) \<and> 1 \<le> lc_max_attempts (snd il)
    \<and> 0 \<le> lc_attempt (snd il) \<and> lc_attempt (snd il) \<le> lc_max_attempts (snd il)"
  using assms
  by (auto simp: resume_entry_def resume_task_def Let_def result_simps TaskLifecycle_post_init_def
      split: option.split_asm if_split_asm sum.split_asm)

lemma resume_status_running: "as_state (resume_status t snap) \<noteq> Inr RUNNING"
proof -
  have "lc_state_of (StateOther v) = Inr s \<Longrightarrow> v = PStr (state_value s)" for v s
    by (cases v) (auto split: option.split_asm dest: state_of_value_SomeD)
  from this [of "resume_status t snap" RUNNING] show ?thesis
    by (auto simp: as_state_def resume_status_def Let_def split: sum.split if_split_asm)
qed

lemma resume_entry_idle:
  assumes "resume_entry lc t = Inr il"
  shows "lc_state (snd il) \<noteq> RUNNING"
  using assms resume_status_running [of t]
  by (auto simp: resume_entry_def resume_task_def Let_def result_simps TaskLifecycle_post_init_def
      split: option.split_asm if_split_asm sum.split_asm)

lemma fold_dset_dget: "dget (fold (\<lambda>il d. dset (fst il) (snd il) d) ls d) i = Some l \<Longrightarrow> (i, l) \<in> set ls \<or> dget d i = Some l"
  by (induction ls arbitrary: d) (fastforce simp: dict_simps split: if_splits)+

lemma fold_dset_distinct: "distinct (dkeys d) \<Longrightarrow> distinct (dkeys (fold (\<lambda>il d. dset (fst il) (snd il) d) ls d))"
  by (induction ls arbitrary: d) (auto simp: dkeys_def dset_def distinct_update)

lemma mapR_origin: "mapR f xs = Inr ys \<Longrightarrow> y \<in> set ys \<Longrightarrow> \<exists>x \<in> set xs. f x = Inr y"
  by (induction xs arbitrary: ys) (auto simp: result_simps)

lemma run_start_inv:
  assumes ids: "distinct (map tk_id (fp_tasks (oc_plan oc)))" and "orch_resume oc lc reports = Inr st"
  shows "good_start oc st \<and> run_inv oc st st"
proof -
  obtain ls where ls: "mapR (resume_entry lc) (fp_tasks (oc_plan oc)) = Inr ls"
    and lives: "os_lifecycles st = fold (\<lambda>il d. dset (fst il) (snd il) d) ls []" and trace: "os_trace st = []"
    using assms(2) by (auto simp: orch_resume_def result_simps split: if_splits)
  have keys: "distinct (dkeys (os_lifecycles st))" unfolding lives by (rule fold_dset_distinct) (simp add: dkeys_def)
  have all: "all_tasks oc st" using orch_resume_tasks [OF assms(2)] by (auto simp: all_tasks_def has_task_def plan_ids_def)
  have life: "\<exists>t. task_of oc i = t \<and> resume_entry lc t = Inr (i, life_of i st)" if "has_task i st" for i
  proof -
    have "(i, life_of i st) \<in> set ls" using has_task_life [OF that] fold_dset_dget [of ls "[]" i] by (auto simp: lives dict_simps)
    then obtain t where t: "t \<in> set (fp_tasks (oc_plan oc))" "resume_entry lc t = Inr (i, life_of i st)" using mapR_origin [OF ls] by blast
    then have "tk_id t = i" using resume_entry_spec by fastforce
    then show ?thesis using t dget_by_id [OF ids, of i t] by (simp add: task_of_def)
  qed
  have "core oc st st"
    using resume_entry_spec life by (fastforce simp: core_def limits_ok_def dispatch_ok_def order_ok_def trace Let_def)
  moreover have "completed_ok oc st {} st"
    by (auto simp: completed_ok_def done_before_def terminal_ids_def with_states_iff [OF keys])
  moreover have "idle {} st" using resume_entry_idle life by (fastforce simp: idle_def)
  ultimately show ?thesis using keys all ids by (simp add: run_inv_def good_start_def)
qed

end
