(* ===== verification/OrchestratorCommit.thy ===== *)
theory OrchestratorCommit
  imports OrchestratorSafety
begin

text \<open>
  Runs of V2 plans: a task completes only on a report that the commit hook has accepted. \<open>silent\<close> steps
  record no completed report and commit nothing; the others are the lifecycle operations, the commit and the
  report of an attempt.
\<close>

section \<open>Silent procedures\<close>

fun completion_event :: "run_event \<Rightarrow> bool" where
  "completion_event (Recorded r) = (tr_status r = state_value COMPLETED)"
| "completion_event _ = False"

definition silent :: "orch_state \<Rightarrow> orch_state \<Rightarrow> bool" where
  "silent a b \<longleftrightarrow> os_lifecycles b = os_lifecycles a \<and> os_committed b = os_committed a
     \<and> (\<exists>new. os_trace b = os_trace a @ new \<and> list_all (\<lambda>ev. \<not> completion_event ev) new)"

lemma silent_refl [simp, intro]: "silent a a"
  by (auto simp: silent_def)

lemma silent_trans: "silent a b \<Longrightarrow> silent b c \<Longrightarrow> silent a c"
proof -
  assume "silent a b" "silent b c"
  then obtain x y where x: "os_trace b = os_trace a @ x" "list_all (\<lambda>ev. \<not> completion_event ev) x"
    and y: "os_trace c = os_trace b @ y" "list_all (\<lambda>ev. \<not> completion_event ev) y"
    by (auto simp: silent_def)
  then have "os_trace c = os_trace a @ (x @ y)" "list_all (\<lambda>ev. \<not> completion_event ev) (x @ y)" by simp_all
  then have "\<exists>new. os_trace c = os_trace a @ new \<and> list_all (\<lambda>ev. \<not> completion_event ev) new" by blast
  then show ?thesis using \<open>silent a b\<close> \<open>silent b c\<close> by (auto simp only: silent_def)
qed

named_theorems silent_rules \<open>procedures that complete nothing and commit nothing\<close>

lemma silent_mod: "(\<And>st. silent st (f st)) \<Longrightarrow> keeps (silent a) (modP f)"
  by (rule triple_mod) (blast intro: silent_trans)

lemma silent_emit: "\<not> completion_event ev \<Longrightarrow> keeps (silent a) (emit ev)"
  unfolding emit_def by (rule silent_mod) (simp add: silent_def)

lemma silent_tick [silent_rules]: "keeps (silent a) (tick n)"
  unfolding tick_def by (rule silent_mod) (simp add: silent_def)

lemma silent_clock [silent_rules]: "keeps (silent a) (orch_clock env)"
  unfolding orch_clock_def by (intro keeps_intro silent_rules)

lemma silent_hook: "\<not> completion_event ev \<Longrightarrow> keeps (silent a) (call_hook oc name ev)"
  unfolding call_hook_def by (intro keeps_intro silent_emit)

lemma silent_notify [silent_rules]: "keeps (silent a) (notify oc i)"
  unfolding notify_def by (intro keeps_intro silent_rules silent_hook silent_emit) simp_all

lemma silent_add_report: "tr_status r \<noteq> state_value COMPLETED \<Longrightarrow> keeps (silent a) (add_report oc r evidence)"
  unfolding add_report_def by (intro keeps_intro silent_hook silent_emit silent_mod) (simp_all add: silent_def)

lemma silent_dry_run [silent_rules]: "keeps (silent a) (mark_dry_run oc t)"
  unfolding mark_dry_run_def Let_def by (intro keeps_intro silent_add_report silent_mod) (auto simp: silent_def)

lemma silent_checkpoint [silent_rules]: "keeps (silent a) (orch_checkpoint oc)"
  unfolding orch_checkpoint_def by (intro keeps_intro silent_hook) simp_all

lemma silent_gates [silent_rules]: "keeps (silent a) (passed_gates env oc)" "keeps (silent a) (gate_open_now env oc i)"
  unfolding passed_gates_def gate_open_now_def by (intro keeps_intro silent_rules)+

lemma silent_ready [silent_rules]: "keeps (silent a) (wave_ready env oc wave)"
  unfolding wave_ready_def orch_ready_ids_def bindP_assoc by (intro keeps_bind [OF silent_gates(1)] keeps_intro)
     (auto simp: bindP_retP intro!: keeps_simple split: sum.split)

lemma silent_dispatch [silent_rules]: "keeps (silent a) (dispatch_task env oc t)"
  unfolding dispatch_task_def by (intro keeps_intro silent_rules silent_emit) simp_all

lemma silent_missing_gates [silent_rules]: "keeps (silent a) (missing_gates env oc gs)"
proof (induction gs)
  case (Cons g gs)
  then show ?case by simp (intro keeps_bind [OF silent_gates(2)] keeps_bind [OF Cons.IH] keeps_intro)
qed (simp add: keeps_simple)

section \<open>The invariant\<close>

definition commit_ok :: "orchestrator \<Rightarrow> orch_state \<Rightarrow> bool" where
  "commit_ok oc st \<longleftrightarrow>
     (is_v2 oc \<longrightarrow> (\<forall>r. Recorded r \<in> set (os_trace st) \<and> tr_status r = state_value COMPLETED \<longrightarrow>
        (tr_task_id r, tr_attempt r) \<in> set (os_committed st))) \<and>
     (\<forall>k \<in> set (os_committed st). CommitCall (fst k) (snd k) \<in> set (os_trace st)) \<and> distinct (os_committed st)"

definition has_commit :: "orchestrator \<Rightarrow> string \<Rightarrow> orch_state \<Rightarrow> bool" where
  "has_commit oc i st \<longleftrightarrow> commit_ok oc st \<and> (is_v2 oc \<longrightarrow> (i, lc_attempt (life_of i st)) \<in> set (os_committed st))"

definition not_complete :: "orchestrator \<Rightarrow> string \<Rightarrow> orch_state \<Rightarrow> bool" where
  "not_complete oc i st \<longleftrightarrow> commit_ok oc st \<and> lc_state (life_of i st) \<noteq> COMPLETED"

lemma commit_ok_silent: "commit_ok oc a \<Longrightarrow> silent a b \<Longrightarrow> commit_ok oc b"
  by (fastforce simp: commit_ok_def silent_def list_all_iff)

lemma silent_keeps: "(\<And>a. keeps (silent a) m) \<Longrightarrow> (\<And>a b. I a \<Longrightarrow> silent a b \<Longrightarrow> I b) \<Longrightarrow> (\<And>s. I s \<Longrightarrow> X s) \<Longrightarrow> triple I m (\<lambda>_. I) X"
  unfolding triple_def by (metis silent_refl)

lemma silent_invariants:
  assumes "\<And>a. keeps (silent a) m"
  shows "triple (commit_ok oc) m (\<lambda>_. commit_ok oc) (commit_ok oc)" "triple (has_commit oc i) m (\<lambda>_. has_commit oc i) (commit_ok oc)"
    "triple (not_complete oc i) m (\<lambda>_. not_complete oc i) (commit_ok oc)"
    "triple (\<lambda>s. commit_ok oc s \<and> lc_attempt (life_of i s) = n) m (\<lambda>_ s. commit_ok oc s \<and> lc_attempt (life_of i s) = n) (commit_ok oc)"
  by (rule silent_keeps [OF assms]; use commit_ok_silent in \<open>auto simp: has_commit_def not_complete_def silent_def life_of_def\<close>)+

lemma commit_life: "keeps (commit_ok oc) (on_life i f)"
  by (rule triple_on_life) (auto simp: commit_ok_def set_life_def)

lemma commit_life_to:
  assumes "\<And>l l'. f l = Inr l' \<Longrightarrow> lc_state l' \<noteq> COMPLETED"
  shows "triple (commit_ok oc) (on_life i f) (\<lambda>_. not_complete oc i) (commit_ok oc)"
  by (rule triple_on_life) (use assms in \<open>auto simp: not_complete_def commit_ok_def set_life_def life_of_def dict_simps\<close>)

lemma report_not_complete: "triple (not_complete oc (tk_id t)) (record_report oc t out evidence err rsn) (\<lambda>_. not_complete oc (tk_id t)) (commit_ok oc)"
  unfolding record_report_def
proof (rule triple_bind_get, cases)
  fix l :: task_lifecycle assume "lc_state l = COMPLETED"
  then show "triple (\<lambda>s. not_complete oc (tk_id t) s \<and> life_of (tk_id t) s = l) m (\<lambda>_. not_complete oc (tk_id t)) (commit_ok oc)" for m
    by (auto simp: triple_def not_complete_def)
next
  fix l :: task_lifecycle assume "lc_state l \<noteq> COMPLETED"
  then have "state_value (lc_state l) \<noteq> state_value COMPLETED" by (cases "lc_state l") simp_all
  then show "triple (\<lambda>s. not_complete oc (tk_id t) s \<and> life_of (tk_id t) s = l) (add_report oc
      \<lparr>tr_task_id = tk_id t, tr_wave = tk_wave t, tr_status = state_value (lc_state l), tr_attempt = lc_attempt l,
       tr_output = sanitize_payload out, tr_evidence = sanitize_payload evidence,
       tr_error = sanitize_text (opt_str err) None, tr_reason = sanitize_text (opt_str rsn) None,
       tr_agent_id = tk_owner t, tr_role = Some (tk_role t), tr_outputs = sanitize_payload out,
       tr_blockers = (if lc_state l = BLOCKED \<and> filled_text rsn then [the rsn] else [])\<rparr> evidence)
     (\<lambda>_. not_complete oc (tk_id t)) (commit_ok oc)"
    by (intro triple_strengthen silent_invariants silent_add_report) simp
qed

lemma commit_block_report: "keeps (commit_ok oc) (block_with_report oc t rsn evidence)"
proof -
  have "triple (commit_ok oc) (on_life (tk_id t) (\<lambda>l. block l rsn)) (\<lambda>_. not_complete oc (tk_id t)) (commit_ok oc)"
    by (rule commit_life_to) (use life_results(5) in fastforce)
  moreover have "triple (not_complete oc (tk_id t)) (thenP (record_report oc t PNone evidence None (Some rsn)) (thenP (notify oc (tk_id t)) (orch_checkpoint oc)))
     (\<lambda>_. commit_ok oc) (commit_ok oc)"
    by (rule triple_then [OF triple_post [OF report_not_complete, where Q = "\<lambda>_. commit_ok oc"]])
      (auto simp: not_complete_def intro!: keeps_then silent_invariants silent_rules)
  ultimately show ?thesis unfolding block_with_report_def by (rule triple_then)
qed

section \<open>An attempt of a V2 task\<close>

lemma commit_complete:
  "triple (has_commit oc (tk_id t)) (complete_attempt env oc t out evidence) (\<lambda>_. commit_ok oc) (commit_ok oc)"
proof -
  have life: "triple (has_commit oc (tk_id t)) (on_life (tk_id t) (\<lambda>l. complete l out evidence (Some now))) (\<lambda>_. has_commit oc (tk_id t)) (commit_ok oc)" for now
  proof (rule triple_on_life)
    fix s l' assume s: "has_commit oc (tk_id t) s" and c: "complete (life_of (tk_id t) s) out evidence (Some now) = Inr l'"
    have "lc_attempt l' = lc_attempt (life_of (tk_id t) s)"
      using c by (auto simp: complete_def lc_transition_defs result_simps stamp_finished_def split: if_split_asm)
    then show "has_commit oc (tk_id t) (set_life (tk_id t) l' s)"
      using s unfolding has_commit_def by (simp add: commit_ok_def) (simp add: set_life_def)
  qed (simp add: has_commit_def)
  have hook: "triple (commit_ok oc) (thenP (call_hook oc n ev) (call_hook oc n' ev')) (\<lambda>_. commit_ok oc) (commit_ok oc)"
    if "\<not> completion_event ev" "\<not> completion_event ev'" for n ev n' ev'
    by (intro keeps_then silent_invariants silent_hook that)
  have rec: "triple (\<lambda>s. has_commit oc (tk_id t) s \<and> life_of (tk_id t) s = l) (emit (Recorded r)) (\<lambda>_. commit_ok oc) (commit_ok oc)"
    if "tr_task_id r = tk_id t" "tr_attempt r = lc_attempt l" for r l
    unfolding emit_def by (rule triple_mod) (use that in \<open>auto simp: has_commit_def commit_ok_def\<close>)
  have app: "triple (\<lambda>s. has_commit oc (tk_id t) s \<and> life_of (tk_id t) s = l) (modP (\<lambda>st. st\<lparr>os_reports := f st\<rparr>))
      (\<lambda>_ s. has_commit oc (tk_id t) s \<and> life_of (tk_id t) s = l) (commit_ok oc)" for f l
    by (rule triple_mod) (auto simp: has_commit_def commit_ok_def life_of_def)
  have rep: "triple (has_commit oc (tk_id t)) (record_report oc t out evidence err rsn) (\<lambda>_. commit_ok oc) (commit_ok oc)" for err rsn
    unfolding record_report_def add_report_def
    by (rule triple_bind_get, rule triple_if, rule triple_raise, simp add: has_commit_def, rule triple_then [OF app],
        rule triple_then [OF rec], simp, simp, rule hook) simp_all
  show ?thesis
    unfolding complete_attempt_def
    by (rule triple_bind [OF silent_invariants(2) [OF silent_clock]], rule triple_then [OF life], rule triple_then [OF rep], rule triple_ret)
qed

lemma commit_fail: "keeps (commit_ok oc) (fail_attempt env oc t status evidence err rsn)"
proof -
  have life: "triple (commit_ok oc) (on_life (tk_id t) (\<lambda>l. fail l e b (Some now))) (\<lambda>_. not_complete oc (tk_id t)) (commit_ok oc)" for e b now
    by (rule commit_life_to) (use life_results(3) in fastforce)
  have rest: "triple (not_complete oc (tk_id t)) m Q (commit_ok oc)" if "triple (commit_ok oc) m Q (commit_ok oc)" for m :: "bool orch" and Q
    by (rule triple_pre [OF that]) (simp add: not_complete_def)
  show ?thesis
    unfolding fail_attempt_def Let_def
    by (rule triple_bind [OF silent_invariants(1) [OF silent_clock]], rule triple_then [OF life], rule triple_then [OF report_not_complete],
        rule rest, intro keeps_bind [OF silent_invariants(1) [OF silent_clock]] keeps_intro silent_invariants(1) silent_rules silent_emit commit_life)
      simp
qed

lemma commit_report_key:
  "triple (\<lambda>s. commit_ok oc s \<and> lc_attempt (life_of (tk_id t) s) = n) (commit_report env oc t r)
    (\<lambda>ok s. commit_ok oc s \<and> lc_attempt (life_of (tk_id t) s) = n \<and> (ok \<longrightarrow> (tk_id t, v_attempt r) \<in> set (os_committed s))) (commit_ok oc)"
proof -
  let ?P = "\<lambda>s. commit_ok oc s \<and> lc_attempt (life_of (tk_id t) s) = n"
  let ?k = "(tk_id t, v_attempt r)"
  let ?Q = "\<lambda>ok s. commit_ok oc s \<and> lc_attempt (life_of (tk_id t) s) = n \<and> (ok \<longrightarrow> ?k \<in> set (os_committed s))"
  have call: "triple (\<lambda>s. ?P s \<and> ?k \<notin> set (os_committed s)) (emit (CommitCall (fst ?k) (snd ?k)))
      (\<lambda>_ s. ?P s \<and> ?k \<notin> set (os_committed s) \<and> CommitCall (fst ?k) (snd ?k) \<in> set (os_trace s)) (commit_ok oc)"
    unfolding emit_def by (rule triple_mod) (auto simp: commit_ok_def life_of_def)
  have tk: "triple (\<lambda>s. ?P s \<and> ?k \<notin> set (os_committed s)) (tick 1) (\<lambda>_ s. ?P s \<and> ?k \<notin> set (os_committed s)) (commit_ok oc)"
    unfolding tick_def by (rule triple_mod) (auto simp: commit_ok_def life_of_def)
  have add: "triple (\<lambda>s. ?P s \<and> ?k \<notin> set (os_committed s) \<and> CommitCall (fst ?k) (snd ?k) \<in> set (os_trace s))
      (modP (\<lambda>st. st\<lparr>os_committed := ?k # os_committed st\<rparr>)) (\<lambda>_ s. ?P s \<and> ?k \<in> set (os_committed s)) (commit_ok oc)"
    by (rule triple_mod) (auto simp: commit_ok_def life_of_def)
  have durable: "triple (\<lambda>s. ?P s \<and> ?k \<notin> set (os_committed s)) (bindP (getP os_tick) (\<lambda>k. thenP (tick 1)
      (thenP (emit (CommitCall (fst ?k) (snd ?k))) (if oe_commit env k then thenP (modP (\<lambda>st. st\<lparr>os_committed := ?k # os_committed st\<rparr>)) (retP True)
        else retP False)))) ?Q (commit_ok oc)"
    by (intro triple_bind_get triple_strengthen triple_then [OF tk] triple_then [OF call] triple_if triple_then [OF add] triple_ret) auto
  show ?thesis
    unfolding commit_report_def Let_def
    by (rule triple_bind_get, rule triple_if, rule triple_ret, simp, rule triple_if, rule triple_ret, simp, rule triple_if,
        rule triple_ret, simp, rule triple_pre [OF durable], simp)
qed

definition outcome_ok :: "orchestrator \<Rightarrow> TaskSpec \<Rightarrow> outcome \<Rightarrow> orch_state \<Rightarrow> bool" where
  "outcome_ok oc t x s \<longleftrightarrow> commit_ok oc s \<and> (case x of (status, out, evidence, err, rsn, v) \<Rightarrow>
     is_v2 oc \<longrightarrow> status = PStr ''completed'' \<longrightarrow> has_commit oc (tk_id t) s)"

lemma outcome_incomplete: "commit_ok oc s \<Longrightarrow> outcome_ok oc t (incomplete_report x) s"
  by (cases x) (simp add: outcome_ok_def incomplete_report_def)

lemma v2_outcome_ok: "triple (commit_ok oc) (v2_outcome env oc t x) (outcome_ok oc t) (commit_ok oc)"
proof -
  obtain status out evidence err rsn v where x: "x = (status, out, evidence, err, rsn, v)" by (cases x)
  have com: "triple (\<lambda>s. commit_ok oc s \<and> life_of (tk_id t) s = l) (bindP (commit_report env oc t p) (\<lambda>ok.
             if ok then retP (PStr ''completed'', v_outputs p, v_evidence p, err, rsn, True)
             else retP (incomplete_report (status, v_outputs p, v_evidence p, err, rsn, False)))) (outcome_ok oc t) (commit_ok oc)"
    if "v_attempt p = lc_attempt l" for l p
    by (rule triple_bind [OF triple_pre [OF commit_report_key [where n = "lc_attempt l"]]])
       (use that in \<open>auto intro!: triple_ret outcome_incomplete simp: outcome_ok_def has_commit_def\<close>)
  have inc: "triple (\<lambda>s. commit_ok oc s \<and> life_of (tk_id t) s = l) (retP (incomplete_report y)) (outcome_ok oc t) (commit_ok oc)" for l y
    by (rule triple_ret) (simp add: outcome_incomplete)
  have other: "triple (\<lambda>s. commit_ok oc s \<and> life_of (tk_id t) s = l) (retP (PStr st, y)) (outcome_ok oc t) (commit_ok oc)"
    if "st \<noteq> ''completed''" for l st y
    by (rule triple_ret) (use that in \<open>simp add: outcome_ok_def split: prod.split\<close>)
  show ?thesis
    unfolding v2_outcome_def x prod.case
    by (intro triple_bind_get triple_case_sum triple_if inc com other) simp_all
qed

lemma commit_finish: "triple (outcome_ok oc t x) (finish_attempt env oc t x) (\<lambda>_. commit_ok oc) (commit_ok oc)"
proof -
  have fails: "triple (outcome_ok oc t y) (fail_attempt env oc t s ev e r) (\<lambda>_. commit_ok oc) (commit_ok oc)" for y s ev e r
    by (rule triple_pre [OF commit_fail]) (simp add: outcome_ok_def)
  have finished: "triple (outcome_ok oc t (PStr ''completed'', y)) (complete_attempt env oc t o' e') (\<lambda>_. commit_ok oc) (commit_ok oc)" for y o' e'
    by (rule triple_pre [OF commit_complete]) (auto simp: outcome_ok_def has_commit_def split: prod.split_asm)
  have raises: "triple (outcome_ok oc t y) (raiseP e) Q (commit_ok oc)" for y e and Q :: "bool \<Rightarrow> orch_state \<Rightarrow> bool"
    by (rule triple_raise) (simp add: outcome_ok_def)
  show ?thesis
    unfolding finish_attempt_def
    by (cases x) (auto intro!: fails finished raises split: option.split)
qed

lemma commit_attempt: "keeps (commit_ok oc) (attempt_once env oc t)"
proof -
  have out: "triple (commit_ok oc) (if is_v2 oc then v2_outcome env oc t x else retP x) (outcome_ok oc t) (commit_ok oc)" for x
    by (cases x) (auto intro!: v2_outcome_ok triple_ret simp: outcome_ok_def)
  show ?thesis
    unfolding attempt_once_def Let_def
    by (rule triple_bind [OF silent_invariants(1) [OF silent_clock]], rule triple_then [OF commit_life],
        rule triple_then [OF silent_invariants(1) [OF silent_notify]], rule triple_bind [OF silent_invariants(1) [OF silent_dispatch]],
        rule triple_bind [OF silent_invariants(1) [OF silent_clock]], rule triple_case_prod)+
      (intro triple_case_prod triple_bind [OF out commit_finish])
qed

lemma commit_execute: "keeps (commit_ok oc) (execute_task env oc t)"
  unfolding execute_task_def attempts_def
  by (intro keeps_intro commit_block_report commit_life silent_invariants(1) silent_rules triple_repeat)
     (auto intro: commit_attempt)

lemma commit_sweeps: "keeps (commit_ok oc) (block_unresolvable oc)" "keeps (commit_ok oc) (block_wave_stalls env oc wave)"
  unfolding block_unresolvable_def block_wave_stalls_def block_unresolved_def block_stalled_def
  by (intro keeps_intro keeps_bind [OF silent_invariants(1) [OF silent_missing_gates]] commit_block_report commit_life
      silent_invariants(1) silent_rules)+

lemma commit_round: "keeps (commit_ok oc) (wave_round env oc wave)"
  unfolding wave_round_def run_batch_def
  by (intro keeps_bind [OF silent_invariants(1) [OF silent_ready]] keeps_intro commit_execute commit_sweeps
      silent_invariants(1) silent_rules silent_emit) simp_all

lemma commit_run: "keeps (commit_ok oc) (run_plan env oc)"
proof -
  have "keeps (commit_ok oc) (wave_loop env oc wave)" for wave
    unfolding wave_loop_def by (rule triple_repeat) (use commit_round in simp)
  moreover have "keeps (commit_ok oc) (modP (\<lambda>st. st\<lparr>os_current_wave := n, os_last_wave := n\<rparr>))" for n
    by (rule triple_mod) (simp add: commit_ok_def)
  ultimately show ?thesis unfolding run_plan_def run_wave_def by (intro keeps_intro commit_sweeps)
qed

lemma commit_start: "orch_resume oc lc reports = Inr st \<Longrightarrow> commit_ok oc st"
  by (auto simp: orch_resume_def result_simps commit_ok_def split: if_split_asm)

end
