(* ===== verification/OrchestratorProperties.thy ===== *)
theory OrchestratorProperties
  imports OrchestratorCommit
begin

text \<open>
  What a run of the V1 orchestrator guarantees, for every dispatcher, clock and commit of the environment:
  it returns, it dispatches each attempt of a task once and within the task's limit, only after the
  recorded completion of the task's dependencies, and it leaves no task running.
\<close>

lemma run_result_state:
  assumes "orch_run env oc st = Some (r, st')"
  obtains r' where "run_plan env oc st = Some (r', st')" "isOK r' \<longleftrightarrow> isOK r"
proof -
  obtain r' st'' where run: "run_plan env oc st = Some (r', st'')"
    using assms by (cases "run_plan env oc st") (auto simp: orch_run_def thenP_def bindP_def)
  have "st'' = st'" "isOK r' \<longleftrightarrow> isOK r"
    using assms run by (cases r'; auto simp: orch_run_def thenP_def bindP_def getP_def)+
  with run that show thesis by simp
qed

lemma new_returns:
  assumes "FleetOrchestrator_new a = Inr (oc, st)"
  shows "\<exists>r st'. orch_run env oc st = Some (r, st')"
proof -
  have "run_plan env oc st \<noteq> None"
    using run_plan_returns [OF new_orchestrator(1) [OF assms]] new_orchestrator(2) [OF assms] by (simp add: returns_def)
  then show ?thesis by (auto simp: orch_run_def thenP_def bindP_def getP_def split: sum.split)
qed

text \<open>
  The starting state of a run, for an orchestrator that the constructor has made from a plan with distinct
  task ids, and the states a run ends in.
\<close>

lemma run_invariant:
  assumes "FleetOrchestrator_new a = Inr (oc, st)" and "distinct (map tk_id (fp_tasks (oc_plan oc)))"
    and "orch_run env oc st = Some (r, st')"
  shows "good_start oc st" "core oc st st'" "isOK r \<Longrightarrow> run_inv oc st st'"
proof -
  have start: "good_start oc st" "run_inv oc st st" using run_start_inv [OF assms(2) new_orchestrator(3) [OF assms(1)]] by simp_all
  obtain r' where run: "run_plan env oc st = Some (r', st')" and same: "isOK r' \<longleftrightarrow> isOK r" using run_result_state [OF assms(3)] .
  note inv = run_plan_inv [OF start(1), of env]
  show "good_start oc st" by (rule start(1))
  have both: "run_inv oc st st' \<or> \<not> isOK r' \<and> core oc st st'"
  proof (cases r')
    case (Inl e)
    then show ?thesis using triple_Inl [OF inv start(2)] run by auto
  next
    case (Inr u)
    then show ?thesis using triple_Inr [OF inv start(2)] run by auto
  qed
  then show "core oc st st'" using run_inv_core by blast
  show "run_inv oc st st'" if "isOK r" using both that same by blast
qed

definition run_demo :: "TaskSpec list \<Rightarrow> orch_args" where
  "run_demo ts = \<lparr>ag_plan = Plan (example_plan ts), ag_max_parallel = PInt 1, ag_timeout = PNone, ag_dry_run = False, ag_gates = None,
     ag_context = PNone, ag_input_values = PNone, ag_run_id = PNone, ag_feature = PNone, ag_created_at = PNone, ag_hooks = [],
     ag_lifecycle = [], ag_reports = []\<rparr>"

definition run_demo_env :: orch_env where
  "run_demo_env = \<lparr>oe_str = (\<lambda>_. ''''), oe_float = (\<lambda>_. ''''), oe_sha = (\<lambda>_. ''''), oe_parse = (\<lambda>_. None), oe_read = (\<lambda>_. None),
     oe_show = (\<lambda>_. None), oe_now = (\<lambda>_. StampBad), oe_clock = (\<lambda>_. 0), oe_dispatch = (\<lambda>k t c. ReplyRaise), oe_commit = (\<lambda>_. False)\<rparr>"

lemma run_demo_new:
  obtains oc st where "FleetOrchestrator_new (run_demo [task_a]) = Inr (oc, st)" "oc_plan oc = example_plan [task_a]"
proof -
  have "(case FleetOrchestrator_new (run_demo [task_a]) of Inl e \<Rightarrow> False | Inr os \<Rightarrow> oc_plan (fst os) = example_plan [task_a])"
    by code_simp
  then show thesis by (auto split: sum.split_asm intro: that)
qed

lemma demo_distinct: "distinct (map tk_id (fp_tasks (example_plan [task_a])))"
  by (simp add: example_plan_def)

text \<open>
  C27: a run of the orchestrator returns, normally or with an exception. Whatever the dispatcher answers and
  however the clocks run, the loop over a wave's ready tasks and the retry loop of a task both end.
\<close>

theorem run_terminates:
  assumes "FleetOrchestrator_new a = Inr (oc, st)"
  shows "\<exists>r st'. orch_run env oc st = Some (r, st')"
  using assms by (rule new_returns)

theorem run_terminates_witness:
  "\<exists>oc st r st'. FleetOrchestrator_new (run_demo [task_a]) = Inr (oc, st) \<and> orch_run run_demo_env oc st = Some (r, st')"
  using run_demo_new run_terminates by metis

text \<open>
  C28: attempts are dispatched at most once and within the limit. In a run, successful or not, no task is
  dispatched twice with the same attempt number, every dispatch is of a task of the plan, and attempt
  numbers lie between one and the \<open>max_attempts\<close> of the task's retry policy.
\<close>

theorem run_attempts:
  assumes "FleetOrchestrator_new a = Inr (oc, st)" and "distinct (map tk_id (fp_tasks (oc_plan oc)))"
  shows "\<exists>r st'. orch_run env oc st = Some (r, st') \<and> distinct (filter is_dispatch (os_trace st')) \<and>
    (\<forall>i n. Dispatched i n \<in> set (os_trace st') \<longrightarrow>
       i \<in> plan_ids oc \<and> 1 \<le> n \<and> n \<le> rp_max_attempts (tk_retry_policy (task_of oc i)))"
proof -
  obtain r st' where run: "orch_run env oc st = Some (r, st')" using new_returns [OF assms(1)] by blast
  note inv = run_invariant [OF assms run]
  have ids: "has_task i st' \<longleftrightarrow> i \<in> plan_ids oc" for i
    using inv(2) evolves_has_task [of st st' i] orch_resume_tasks [OF new_orchestrator(3) [OF assms(1)]]
    by (simp add: core_def has_task_def)
  have dis: "dispatch_ok st'" and lim: "limits_ok oc st'" using inv(2) by (simp_all add: core_def)
  have "i \<in> plan_ids oc \<and> 1 \<le> n \<and> n \<le> rp_max_attempts (tk_retry_policy (task_of oc i))" if "Dispatched i n \<in> set (os_trace st')" for i n
    using that dis lim ids by (fastforce simp: dispatch_ok_def limits_ok_def Let_def)
  then show ?thesis using run dis by (auto simp: dispatch_ok_def)
qed

theorem run_attempts_witness:
  "\<exists>oc st r st'. FleetOrchestrator_new (run_demo [task_a]) = Inr (oc, st) \<and> orch_run run_demo_env oc st = Some (r, st')
     \<and> distinct (filter is_dispatch (os_trace st'))"
proof -
  obtain oc st where new: "FleetOrchestrator_new (run_demo [task_a]) = Inr (oc, st)" "oc_plan oc = example_plan [task_a]" by (rule run_demo_new)
  show ?thesis using run_attempts [OF new(1), of run_demo_env] new demo_distinct by auto
qed

text \<open>
  C29: a task is dispatched only after its dependencies. Before each dispatch of a run, every dependency of
  the task has a report in status completed recorded earlier in the same run, or was done when the run
  started (by the plan's status, or completed or skipped in the checkpoint the run resumes).
\<close>

theorem run_respects_dependencies:
  assumes "FleetOrchestrator_new a = Inr (oc, st)" and "distinct (map tk_id (fp_tasks (oc_plan oc)))"
  shows "\<exists>r st'. orch_run env oc st = Some (r, st') \<and>
    (\<forall>before i n after. os_trace st' = before @ Dispatched i n # after \<longrightarrow>
       (\<forall>d \<in> set (tk_depends_on (task_of oc i)). d \<in> done_before oc st \<or> recorded d before))"
proof -
  obtain r st' where run: "orch_run env oc st = Some (r, st')" using new_returns [OF assms(1)] by blast
  have "order_ok oc st (os_trace st')" using run_invariant(2) [OF assms run] by (simp add: core_def)
  then have ord: "\<And>k i n. k < length (os_trace st') \<Longrightarrow> os_trace st' ! k = Dispatched i n \<Longrightarrow> deps_ok oc st i (take k (os_trace st'))"
    by (simp add: order_ok_def)
  have "deps_ok oc st i before" if "os_trace st' = before @ Dispatched i n # after" for before i n after
    using ord [of "length before" i n] that by simp
  then show ?thesis using run unfolding deps_ok_def by blast
qed

theorem run_respects_dependencies_witness:
  "\<exists>oc st r st'. FleetOrchestrator_new (run_demo [task_a]) = Inr (oc, st) \<and> orch_run run_demo_env oc st = Some (r, st')
     \<and> (\<forall>before i n after. os_trace st' = before @ Dispatched i n # after \<longrightarrow>
       (\<forall>d \<in> set (tk_depends_on (task_of oc i)). d \<in> done_before oc st \<or> recorded d before))"
proof -
  obtain oc st where new: "FleetOrchestrator_new (run_demo [task_a]) = Inr (oc, st)" "oc_plan oc = example_plan [task_a]" by (rule run_demo_new)
  show ?thesis using run_respects_dependencies [OF new(1), of run_demo_env] new demo_distinct by auto
qed

text \<open>
  C30: a run that returns a result leaves no task running, and every task that is completed afterwards was
  done when the run started or has a report in status completed recorded in the run.
\<close>

theorem run_settles:
  assumes "FleetOrchestrator_new a = Inr (oc, st)" and "distinct (map tk_id (fp_tasks (oc_plan oc)))"
    and "orch_run env oc st = Some (Inr res, st')" and "i \<in> plan_ids oc"
  shows "lc_state (life_of i st') \<noteq> RUNNING \<and>
    (lc_state (life_of i st') = COMPLETED \<longrightarrow> i \<in> done_before oc st \<or> recorded i (os_trace st'))"
proof -
  have inv: "run_inv oc st st'" using run_invariant(3) [OF assms(1,2,3)] by simp
  have "has_task i st'"
    using assms(4) inv evolves_has_task [of st st' i] new_orchestrator(2) [OF assms(1)] all_tasks_has
    by (auto simp: run_inv_def core_def)
  then show ?thesis using inv by (auto simp: run_inv_def idle_def completed_ok_def)
qed

theorem run_settles_witness:
  "\<exists>oc st res st'. FleetOrchestrator_new (run_demo [task_a] \<lparr>ag_dry_run := True\<rparr>) = Inr (oc, st) \<and>
     orch_run run_demo_env oc st = Some (Inr res, st') \<and> lc_state (life_of ''a'' st') \<noteq> RUNNING"
proof -
  let ?a = "run_demo [task_a] \<lparr>ag_dry_run := True\<rparr>"
  have "(case FleetOrchestrator_new ?a of Inl e \<Rightarrow> False | Inr os \<Rightarrow> oc_plan (fst os) = example_plan [task_a] \<and>
      (case orch_run run_demo_env (fst os) (snd os) of None \<Rightarrow> False | Some rs \<Rightarrow> isOK (fst rs)))"
    by code_simp
  then obtain oc st res st' where new: "FleetOrchestrator_new ?a = Inr (oc, st)" "oc_plan oc = example_plan [task_a]"
    and run: "orch_run run_demo_env oc st = Some (Inr res, st')"
    by (auto split: sum.split_asm option.split_asm simp: isOK_def)
  have "''a'' \<in> plan_ids oc" using new(2) by (simp add: plan_ids_def good_defs)
  from run_settles [OF new(1) _ run this] show ?thesis using new run demo_distinct by auto
qed

text \<open>
  C31: in a run of a V2 plan no task completes without a durable commit. Every report in status completed
  that the run records has its task and attempt among the committed keys, no key is committed twice, and
  for each of them the commit hook was called.
\<close>

theorem run_commits:
  assumes "FleetOrchestrator_new a = Inr (oc, st)" and "is_v2 oc"
  shows "\<exists>r st'. orch_run env oc st = Some (r, st') \<and> distinct (os_committed st') \<and>
    (\<forall>rep. Recorded rep \<in> set (os_trace st') \<and> tr_status rep = ''completed'' \<longrightarrow>
       (tr_task_id rep, tr_attempt rep) \<in> set (os_committed st')) \<and>
    (\<forall>(i, n) \<in> set (os_committed st'). CommitCall i n \<in> set (os_trace st'))"
proof -
  obtain r st' where run: "orch_run env oc st = Some (r, st')" using new_returns [OF assms(1)] by blast
  obtain r' where plan: "run_plan env oc st = Some (r', st')" using run_result_state [OF run] .
  have "commit_ok oc st'"
    using triple_Inl [OF commit_run commit_start [OF new_orchestrator(3) [OF assms(1)]]]
      triple_Inr [OF commit_run commit_start [OF new_orchestrator(3) [OF assms(1)]]] plan by (cases r') blast+
  then show ?thesis using run assms(2) by (auto simp: commit_ok_def)
qed

definition demo_v2_plan :: pyval where
  "demo_v2_plan = PDict (str_keyed [(''schema_version'', PStr V2_SCHEMA_VERSION), (''run_id'', PStr ''r1''), (''agents'', PList []),
     (''waves'', PList []), (''gates'', PList []), (''tasks'', PList [PDict (str_keyed [(''id'', PStr ''a''), (''wave'', PInt 1), (''role'', PStr ''dev''), (''objective'', PStr ''x''),
       (''allowedPaths'', PList [PStr ''src/a'']), (''outputs'', PList [PDict (str_keyed [(''name'', PStr ''out'')])]),
       (''acceptance_criteria'', PList [PStr ''ok'']), (''validation_commands'', PList [PStr ''make''])])])])"

lemma demo_v2_new:
  obtains oc st where "FleetOrchestrator_new (run_demo [] \<lparr>ag_plan := RawPlan demo_v2_plan\<rparr>) = Inr (oc, st)" "is_v2 oc"
proof -
  have "(case FleetOrchestrator_new (run_demo [] \<lparr>ag_plan := RawPlan demo_v2_plan\<rparr>) of Inl e \<Rightarrow> False | Inr os \<Rightarrow> is_v2 (fst os))"
    by code_simp
  then show thesis by (auto split: sum.split_asm intro: that)
qed

theorem run_commits_witness:
  "\<exists>oc st r st'. FleetOrchestrator_new (run_demo [] \<lparr>ag_plan := RawPlan demo_v2_plan\<rparr>) = Inr (oc, st) \<and> is_v2 oc \<and>
     orch_run run_demo_env oc st = Some (r, st') \<and> distinct (os_committed st')"
proof -
  obtain oc st where new: "FleetOrchestrator_new (run_demo [] \<lparr>ag_plan := RawPlan demo_v2_plan\<rparr>) = Inr (oc, st)" "is_v2 oc"
    by (rule demo_v2_new)
  show ?thesis using run_commits [OF new(1), of run_demo_env] new by auto
qed

section \<open>What a run does not do\<close>

definition statuses_after :: "orch_env \<Rightarrow> orch_args \<Rightarrow> string dict option" where
  "statuses_after env a = (case FleetOrchestrator_new a of Inl e \<Rightarrow> None | Inr os \<Rightarrow>
     (case orch_run env (fst os) (snd os) of None \<Rightarrow> None | Some rs \<Rightarrow> (case fst rs of Inl e \<Rightarrow> None | Inr res \<Rightarrow> Some (rn_statuses res))))"

definition chain_task :: "string \<Rightarrow> string list \<Rightarrow> TaskSpec" where
  "chain_task i deps = example_task i (PInt 1) deps [''src'']"

text \<open>
  The sweep that blocks dependents of failed tasks goes once through the tasks in the order of their ids, so
  a chain whose dependents come before their dependencies is blocked one task per sweep: the run ends with
  \<open>a\<close> pending although it can never start.
\<close>

lemma failure_not_propagated:
  "statuses_after run_demo_env (run_demo [chain_task ''a'' [''b''], chain_task ''b'' [''c''], chain_task ''c'' [''d''],
     chain_task ''d'' []\<lparr>tk_status := ''failed''\<rparr>])
   = Some [(''a'', ''pending''), (''b'', ''blocked''), (''c'', ''blocked''), (''d'', ''failed'')]"
  by code_simp

text \<open>
  Waves are ordered without the normalisation that readiness uses: a wave spelled with a capital letter runs
  last, so the tasks of wave 2 are looked at before wave 1 has run. A wave of superscript digits makes the
  ordering raise.
\<close>

lemma capital_wave_last:
  "(case FleetOrchestrator_new (run_demo [example_task ''a'' (PStr ''Wave-1'') [] [''src/a''], example_task ''b'' (PStr ''2'') [] [''src/b'']]) of
     Inl e \<Rightarrow> False | Inr os \<Rightarrow> ordered_waves run_demo_env (fst os) = Inr [''2'', ''Wave-1''])"
  by code_simp

lemma superscript_wave_raises:
  "(case FleetOrchestrator_new (run_demo [example_task ''a'' (PStr [CHR 0xB2]) [] [''src/a'']]) of
     Inl e \<Rightarrow> False | Inr os \<Rightarrow> ordered_waves run_demo_env (fst os) = Inl RunValueError)"
  by code_simp

end
