(* ===== verification/Checkpoint.thy ===== *)
theory Checkpoint
  imports LifecycleValue JsonValue AgentReports
begin

text \<open>
  Checkpoints of \<open>scripts/pd_fleet/checkpoint.py\<close>: construction from mappings and lists, validation, the
  tasks that are completed or can be resumed, recovery of orphaned tasks and explicit retries. Task ids are
  the keys of association lists in the order of insertion. The time stamp of a checkpoint without
  \<open>created_at\<close> is a parameter, \<open>None\<close> when the clock fails.
\<close>

section \<open>Data\<close>

datatype cp_error = CheckpointError | CpTypeError | CpClockError | CpLifecycle lc_error | CpNotRepresented

type_synonym 'a cpres = "(cp_error, 'a) result"

record checkpoint =
  cp_schema_version :: pyval
  cp_feature :: pyval
  cp_wave :: pyval
  cp_tasks :: "pyval dict"
  cp_lifecycle :: "pymap dict"
  cp_reports :: pyval
  cp_evidence :: pyval
  cp_blockers :: pyval
  cp_created_at :: pyval

text \<open>The lifecycle argument may hold \<open>TaskLifecycle\<close> objects besides plain values.\<close>

datatype life_item = LifeObject task_lifecycle | LifeValue pyval

datatype lifecycle_arg = LifeNone | LifeMap "(pyval \<times> life_item) list" | LifeSeq "life_item list" | LifeOther

definition key_of :: "pyval \<Rightarrow> string cpres" where
  "key_of v = (case as_str v of None \<Rightarrow> Inl CheckpointError | Some s \<Rightarrow> if blank s then Inl CheckpointError else Inr s)"

definition collect :: "(string \<times> 'a) list \<Rightarrow> 'a dict" where
  "collect its = fold (\<lambda>kv d. dset (fst kv) (snd kv) d) its []"

definition copied :: "pyval \<Rightarrow> pyval cpres" where
  "copied v = (if has_proxy v then Inl CpTypeError else Inr v)"

section \<open>Tasks and lifecycles of the arguments\<close>

definition task_entry :: "pyval \<times> pyval \<Rightarrow> (string \<times> pyval) cpres" where
  "task_entry kv = bindR (key_of (fst kv)) (\<lambda>k. bindR (copied (snd kv)) (\<lambda>v. Inr (k, v)))"

definition task_item :: "pyval \<Rightarrow> (string \<times> pyval) cpres" where
  "task_item v = (case as_mapping v of
     Some d \<Rightarrow> if mget_or d ''id'' PNone = PNone then Inl CheckpointError
       else bindR (key_of (mget_or d ''id'' PNone)) (\<lambda>k. bindR (copied (PDict d)) (\<lambda>w. Inr (k, w)))
   | None \<Rightarrow> bindR (key_of v) (\<lambda>k. Inr (k, PDict [(PStr ''id'', PStr k)])))"

definition task_mapping :: "pyval \<Rightarrow> pyval dict cpres" where
  "task_mapping v = (if v = PNone then Inr [] else case as_mapping v of
     Some d \<Rightarrow> bindR (mapR task_entry d) (\<lambda>its. Inr (collect its))
   | None \<Rightarrow> (case as_plist v of
       Some xs \<Rightarrow> bindR (mapR task_item xs) (\<lambda>its. Inr (collect its))
     | None \<Rightarrow> Inl CheckpointError))"

text \<open>\<open>_snapshot\<close> of a lifecycle object and of a mapping.\<close>

definition life_snapshot :: "task_lifecycle \<Rightarrow> pymap" where
  "life_snapshot l = str_keyed [(''task_id'', PStr (lc_task_id l)), (''status'', PStr (state_value (lc_state l))),
     (''attempt'', PInt (lc_attempt l)), (''max_attempts'', PInt (lc_max_attempts l)), (''agent'', opt_text (lc_agent l)),
     (''heartbeat'', opt_num (lc_heartbeat l)), (''started_at'', opt_num (lc_started_at l)), (''finished_at'', opt_num (lc_finished_at l)),
     (''outputs'', lc_outputs l), (''evidence'', lc_evidence l), (''reason'', opt_text (lc_reason l)), (''error'', opt_text (lc_error l)),
     (''history'', PList (map history_dict (lc_history l))), (''final_report'', lc_final_report l), (''retryable'', PBool (lc_retryable l))]"

definition value_snapshot :: "string \<Rightarrow> pymap \<Rightarrow> pymap" where
  "value_snapshot tid d = (let r = mset_default ''task_id'' (PStr tid) d in
     case mget r ''state'' of None \<Rightarrow> r | Some s \<Rightarrow> mset_default ''status'' s r)"

definition object_snapshot :: "task_lifecycle \<Rightarrow> pymap cpres" where
  "object_snapshot l = bindR (copied (PDict (life_snapshot l))) (\<lambda>_. Inr (life_snapshot l))"

definition life_entry :: "pyval \<times> life_item \<Rightarrow> (string \<times> pymap) cpres" where
  "life_entry kv = bindR (key_of (fst kv)) (\<lambda>k. case snd kv of
     LifeObject l \<Rightarrow> bindR (object_snapshot l) (\<lambda>s. Inr (k, s))
   | LifeValue v \<Rightarrow> (case as_mapping v of None \<Rightarrow> Inl CheckpointError | Some d \<Rightarrow> bindR (copied (PDict d)) (\<lambda>_. Inr (k, d))))"

definition life_list_item :: "life_item \<Rightarrow> (string \<times> pymap) cpres" where
  "life_list_item x = (case x of
     LifeObject l \<Rightarrow> bindR (object_snapshot l) (\<lambda>s. Inr (lc_task_id l, s))
   | LifeValue v \<Rightarrow> (case as_mapping v of None \<Rightarrow> Inl CheckpointError | Some d \<Rightarrow>
       (let i = mget_or d ''task_id'' (mget_or d ''id'' PNone) in if i = PNone then Inl CheckpointError
        else bindR (key_of i) (\<lambda>k. bindR (copied (PDict d)) (\<lambda>_. Inr (k, d))))))"

definition lifecycle_mapping :: "lifecycle_arg \<Rightarrow> pymap dict cpres" where
  "lifecycle_mapping a = (case a of
     LifeNone \<Rightarrow> Inr []
   | LifeMap d \<Rightarrow> bindR (mapR life_entry d) (\<lambda>its. Inr (collect its))
   | LifeSeq xs \<Rightarrow> bindR (mapR life_list_item xs) (\<lambda>its. Inr (collect its))
   | LifeOther \<Rightarrow> Inl CheckpointError)"

definition lifecycle_value :: "pyval \<Rightarrow> lifecycle_arg" where
  "lifecycle_value v = (if v = PNone then LifeNone else case as_mapping v of
     Some d \<Rightarrow> LifeMap (map (\<lambda>kv. (fst kv, LifeValue (snd kv))) d)
   | None \<Rightarrow> (case as_sequence v of Some xs \<Rightarrow> LifeSeq (map LifeValue xs) | None \<Rightarrow> LifeOther))"

section \<open>Validation\<close>

text \<open>\<open>json.dumps(v, allow_nan=False)\<close> succeeds.\<close>

function (sequential) json_writable :: "pyval \<Rightarrow> bool" where
  "json_writable (PDict d) = (\<forall>kv \<in> set d. key_text (\<lambda>_. '''') (fst kv) \<noteq> None \<and> json_writable (snd kv))"
| "json_writable (PProxy d) = False"
| "json_writable (PList xs) = (\<forall>x \<in> set xs. json_writable x)"
| "json_writable (PTuple xs) = (\<forall>x \<in> set xs. json_writable x)"
| "json_writable (PFloat f) = (as_finite f \<noteq> None)"
| "json_writable (POther n) = False"
| "json_writable v = True"
  by pat_completeness auto
termination
  by (relation "measure size")
     (auto dest: py_pair_size size_list_estimation' [of _ _ _ size, OF _ order_refl] simp: less_Suc_eq_le)

definition int_field :: "pymap \<Rightarrow> string \<Rightarrow> (int \<Rightarrow> bool) \<Rightarrow> bool" where
  "int_field d k p = (case mget d k of None \<Rightarrow> True | Some v \<Rightarrow> (case as_int v of None \<Rightarrow> False | Some n \<Rightarrow> p n))"

definition is_real_or_none :: "pyval \<Rightarrow> bool" where
  "is_real_or_none v = (case v of PNone \<Rightarrow> True | PInt n \<Rightarrow> True | PFloat f \<Rightarrow> True | _ \<Rightarrow> False)"

text \<open>\<open>_validate_lifecycle_fields\<close>.\<close>

definition lifecycle_fields_ok :: "pymap \<Rightarrow> bool" where
  "lifecycle_fields_ok d \<longleftrightarrow> int_field d ''attempt'' (\<lambda>n. 0 \<le> n) \<and> int_field d ''max_attempts'' (\<lambda>m. 1 \<le> m)
     \<and> (case (mget d ''attempt'', mget d ''max_attempts'') of
          (Some (PInt n), Some (PInt m)) \<Rightarrow> n \<le> m | _ \<Rightarrow> True)
     \<and> (case mget d ''retryable'' of None \<Rightarrow> True | Some v \<Rightarrow> as_bool v \<noteq> None)
     \<and> list_all (\<lambda>k. is_real_or_none (mget_or d k PNone)) [''heartbeat'', ''started_at'', ''finished_at'']"

text \<open>A field that, when present, is the key of its record.\<close>

definition id_field_ok :: "string \<Rightarrow> string \<Rightarrow> pymap \<Rightarrow> bool" where
  "id_field_ok field k d = (case mget d field of None \<Rightarrow> True | Some v \<Rightarrow> \<not> blank k \<and> v = PStr k)"

definition record_status :: "pymap \<Rightarrow> pyval \<Rightarrow> pyval" where
  "record_status d other = mget_or d ''status'' (mget_or d ''state'' other)"

definition task_record_ok :: "string \<times> pyval \<Rightarrow> bool" where
  "task_record_ok kt \<longleftrightarrow> \<not> blank (fst kt) \<and> (case as_mapping (snd kt) of None \<Rightarrow> False | Some d \<Rightarrow> id_field_ok ''id'' (fst kt) d)"

definition status_ok :: "pyval \<Rightarrow> bool" where
  "status_ok v = (v = PNone \<or> (\<exists>s \<in> set all_states. v = PStr (state_value s)))"

definition lifecycle_record_ok :: "string \<times> pymap \<Rightarrow> bool" where
  "lifecycle_record_ok kd \<longleftrightarrow> \<not> blank (fst kd) \<and> id_field_ok ''task_id'' (fst kd) (snd kd)
     \<and> status_ok (record_status (snd kd) PNone) \<and> lifecycle_fields_ok (snd kd)"

definition checkpoint_value :: "checkpoint \<Rightarrow> pyval" where
  "checkpoint_value c = PDict (str_keyed [(''schema_version'', cp_schema_version c), (''feature'', cp_feature c), (''wave'', cp_wave c),
     (''tasks'', PDict (str_keyed (cp_tasks c))), (''lifecycle'', PDict (str_keyed (map (\<lambda>kd. (fst kd, PDict (snd kd))) (cp_lifecycle c)))),
     (''reports'', cp_reports c), (''evidence'', cp_evidence c), (''blockers'', cp_blockers c), (''created_at'', cp_created_at c)])"

definition nonblank_text :: "pyval \<Rightarrow> bool" where
  "nonblank_text v = (case as_str v of None \<Rightarrow> False | Some s \<Rightarrow> \<not> blank s)"

definition checkpoint_valid :: "checkpoint \<Rightarrow> bool" where
  "checkpoint_valid c \<longleftrightarrow> as_int (cp_schema_version c) = Some 1 \<and> nonblank_text (cp_feature c)
     \<and> (case as_int (cp_wave c) of None \<Rightarrow> False | Some n \<Rightarrow> 0 \<le> n) \<and> nonblank_text (cp_created_at c)
     \<and> as_plist (cp_reports c) \<noteq> None \<and> as_plist (cp_evidence c) \<noteq> None \<and> as_plist (cp_blockers c) \<noteq> None
     \<and> list_all task_record_ok (cp_tasks c) \<and> list_all lifecycle_record_ok (cp_lifecycle c)
     \<and> json_writable (checkpoint_value c)"

definition validated :: "checkpoint \<Rightarrow> checkpoint cpres" where
  "validated c = (if checkpoint_valid c then Inr c else Inl CheckpointError)"

section \<open>Construction\<close>

text \<open>\<open>__post_init__\<close>; the mappings that the callers pass are normalised already.\<close>

definition stamped :: "string option \<Rightarrow> checkpoint \<Rightarrow> checkpoint cpres" where
  "stamped now c = bindR (if truthy (cp_created_at c) then Inr c else (case now of None \<Rightarrow> Inl CpClockError
     | Some t \<Rightarrow> Inr (c\<lparr>cp_created_at := PStr t\<rparr>))) validated"

definition inline_lifecycle :: "pyval dict \<Rightarrow> pymap dict" where
  "inline_lifecycle tasks = List.map_filter (\<lambda>kt. case as_mapping (snd kt) of None \<Rightarrow> None
     | Some d \<Rightarrow> if mhas d ''status'' \<or> mhas d ''state'' then Some (fst kt, value_snapshot (fst kt) d) else None) tasks"

definition Checkpoint_from_dict :: "string option \<Rightarrow> pyval \<Rightarrow> checkpoint cpres" where
  "Checkpoint_from_dict now v = (case as_mapping v of None \<Rightarrow> Inl CheckpointError | Some d \<Rightarrow>
     bindR (copied (PDict d)) (\<lambda>_. bindR (task_mapping (mget_or d ''tasks'' PNone)) (\<lambda>tasks.
     bindR (lifecycle_mapping (lifecycle_value (mget_or d ''lifecycle'' PNone))) (\<lambda>life.
     stamped now \<lparr>cp_schema_version = mget_or d ''schema_version'' (PInt 1), cp_feature = mget_or d ''feature'' (PStr []),
       cp_wave = mget_or d ''wave'' (PInt 0), cp_tasks = tasks, cp_lifecycle = (if life = [] then inline_lifecycle tasks else life),
       cp_reports = mget_or d ''reports'' (PList []), cp_evidence = mget_or d ''evidence'' (PList []),
       cp_blockers = mget_or d ''blockers'' (PList []), cp_created_at = mget_or d ''created_at'' (PStr [])\<rparr>))))"

definition or_empty :: "pyval \<Rightarrow> pyval" where
  "or_empty v = (if v = PNone then PList [] else v)"

definition Checkpoint_create ::
  "string option \<Rightarrow> pyval \<Rightarrow> pyval \<Rightarrow> pyval \<Rightarrow> lifecycle_arg \<Rightarrow> pyval \<Rightarrow> pyval \<Rightarrow> pyval \<Rightarrow> pyval \<Rightarrow> checkpoint cpres" where
  "Checkpoint_create now feature wave tasks life reports evidence blockers created =
     bindR (task_mapping tasks) (\<lambda>ts. bindR (lifecycle_mapping life) (\<lambda>ls.
     bindR (copied (or_empty reports)) (\<lambda>rs. bindR (copied (or_empty evidence)) (\<lambda>es. bindR (copied (or_empty blockers)) (\<lambda>bs.
     stamped now \<lparr>cp_schema_version = PInt 1, cp_feature = feature, cp_wave = wave, cp_tasks = ts, cp_lifecycle = ls,
       cp_reports = rs, cp_evidence = es, cp_blockers = bs,
       cp_created_at = (if truthy created then created else PStr [])\<rparr>)))))"

definition Checkpoint_to_dict :: "checkpoint \<Rightarrow> pyval cpres" where
  "Checkpoint_to_dict c = bindR (validated c) (\<lambda>c. Inr (checkpoint_value c))"

section \<open>Completed tasks, resumption, recovery and retry\<close>

definition task_status_of :: "checkpoint \<Rightarrow> string \<Rightarrow> pyval \<Rightarrow> pyval" where
  "task_status_of c i other = (case dget (cp_lifecycle c) i of
     Some d \<Rightarrow> record_status d other
   | None \<Rightarrow> (case dget (cp_tasks c) i of None \<Rightarrow> other
       | Some t \<Rightarrow> (case as_mapping t of None \<Rightarrow> other | Some d \<Rightarrow> record_status d other)))"

definition cp_completed_tasks :: "checkpoint \<Rightarrow> string list" where
  "cp_completed_tasks c = filter (\<lambda>i. task_status_of c i PNone = PStr (state_value COMPLETED))
     (dkeys (cp_tasks c) @ filter (\<lambda>i. i \<notin> set (dkeys (cp_tasks c))) (dkeys (cp_lifecycle c)))"

text \<open>The status is looked up in a set of strings, so one that cannot be hashed raises.\<close>

definition cp_resume_tasks :: "checkpoint \<Rightarrow> string list cpres" where
  "cp_resume_tasks c = (let open_ids = filter (\<lambda>i. i \<notin> set (cp_completed_tasks c)) (dkeys (cp_tasks c));
       status = (\<lambda>i. task_status_of c i (PStr ''pending'')) in
     if list_ex (\<lambda>i. \<not> hashable (status i)) open_ids then Inl CpTypeError
     else Inr (filter (\<lambda>i. status i \<notin> {PStr ''blocked'', PStr ''skipped''}) open_ids))"

text \<open>\<open>_lifecycle\<close>: the lifecycle object of a record; fields of other types than a run writes are not represented.\<close>

definition cp_read :: "'a option \<Rightarrow> 'a cpres" where
  "cp_read x = (case x of None \<Rightarrow> Inl CpNotRepresented | Some a \<Rightarrow> Inr a)"

definition cp_life :: "(lc_error, 'a) result \<Rightarrow> 'a cpres" where
  "cp_life r = (case r of Inl e \<Rightarrow> Inl (CpLifecycle e) | Inr a \<Rightarrow> Inr a)"

definition record_lifecycle :: "string \<Rightarrow> pymap \<Rightarrow> task_lifecycle cpres" where
  "record_lifecycle tid raw = (let d = value_snapshot tid raw; get = (\<lambda>k. mget_or d k PNone) in
     bindR (cp_life (lc_state_of (StateOther (record_status d (PStr ''pending''))))) (\<lambda>st.
     bindR (cp_read (as_str (get ''task_id''))) (\<lambda>i.
     bindR (cp_read (as_int (mget_or d ''attempt'' (PInt 0)))) (\<lambda>n. bindR (cp_read (as_int (mget_or d ''max_attempts'' (PInt 1)))) (\<lambda>m.
     bindR (cp_read (read_text (get ''agent''))) (\<lambda>agent. bindR (cp_read (read_time (get ''heartbeat''))) (\<lambda>hb.
     bindR (cp_read (read_time (get ''started_at''))) (\<lambda>sa. bindR (cp_read (read_time (get ''finished_at''))) (\<lambda>fa.
     bindR (cp_read (read_text (get ''reason''))) (\<lambda>rsn. bindR (cp_read (read_text (get ''error''))) (\<lambda>err.
     bindR (cp_read (read_history (mget_or d ''history'' (PList [])))) (\<lambda>hist.
     bindR (cp_read (as_bool (mget_or d ''retryable'' (PBool True)))) (\<lambda>rt.
     cp_life (TaskLifecycle_post_init \<lparr>lc_task_id = i, lc_state = st, lc_attempt = n, lc_max_attempts = m, lc_agent = agent,
       lc_heartbeat = hb, lc_started_at = sa, lc_finished_at = fa, lc_outputs = get ''outputs'', lc_evidence = get ''evidence'',
       lc_reason = rsn, lc_error = err, lc_history = hist, lc_final_report = get ''final_report'',
       lc_report_final = get ''report_final'', lc_retryable = rt\<rparr>))))))))))))))"

text \<open>
  The record written back: \<open>_snapshot\<close> of the object. Numbers that no operation has assigned keep the
  value that was read, an integer stays an integer.
\<close>

definition keep_numbers :: "string list \<Rightarrow> pymap \<Rightarrow> pymap \<Rightarrow> pymap" where
  "keep_numbers ks raw d = fold (\<lambda>k. mset_key (PStr k) (mget_or raw k PNone)) ks d"

fun recover_records :: "rat \<Rightarrow> rat \<Rightarrow> pymap dict \<Rightarrow> (pymap dict \<times> string list) cpres" where
  "recover_records now timeout [] = Inr ([], [])"
| "recover_records now timeout ((i, raw) # its) =
     (if record_status raw PNone \<noteq> PStr (state_value RUNNING) then
        bindR (recover_records now timeout its) (\<lambda>(r, ids). Inr ((i, raw) # r, ids))
      else bindR (record_lifecycle i raw) (\<lambda>l. bindR (cp_life (recover_orphan l now timeout)) (\<lambda>(l', moved).
        bindR (recover_records now timeout its) (\<lambda>(r, ids).
          Inr (if moved then ((i, keep_numbers [''heartbeat'', ''started_at''] raw (life_snapshot l')) # r, i # ids)
               else ((i, raw) # r, ids))))))"

definition cp_recover_orphans :: "rat \<Rightarrow> rat \<Rightarrow> checkpoint \<Rightarrow> (checkpoint \<times> string list) cpres" where
  "cp_recover_orphans now timeout c = bindR (recover_records now timeout (cp_lifecycle c)) (\<lambda>(r, ids).
     Inr (c\<lparr>cp_lifecycle := r\<rparr>, ids))"

definition cp_retry_task :: "string \<Rightarrow> checkpoint \<Rightarrow> (checkpoint \<times> pymap) cpres" where
  "cp_retry_task i c = (case dget (cp_lifecycle c) i of None \<Rightarrow> Inl CheckpointError
   | Some raw \<Rightarrow> bindR (record_lifecycle i raw) (\<lambda>l. bindR (cp_life (retry l)) (\<lambda>l'.
       let d = keep_numbers [''heartbeat'', ''started_at'', ''finished_at''] raw (life_snapshot l')
       in Inr (c\<lparr>cp_lifecycle := dset i d (cp_lifecycle c)\<rparr>, d))))"

end
