(* ===== verification/JsonReread.thy ===== *)
theory JsonReread
  imports JsonValue
begin

text \<open>
  JSON text that is read back: what \<open>json.loads\<close> makes of the text that \<open>json.dumps\<close> writes with sorted keys.
  A value with string keys comes back with its items in the order of their keys and has the same text.
\<close>

text \<open>What \<open>json.load\<close> makes of a value that \<open>json.dump\<close> has written with sorted keys.\<close>

function (sequential) json_reread :: "(rat \<Rightarrow> string) \<Rightarrow> pyval \<Rightarrow> pyval option" where
  "json_reread rep (PDict d) = Option.bind (those (map (\<lambda>kv. case key_text rep (fst kv) of None \<Rightarrow> None
       | Some k \<Rightarrow> map_option (\<lambda>v. (fst kv, (k, v))) (json_reread rep (snd kv))) d)) (\<lambda>its.
     map_option (\<lambda>ts. PDict (fold (\<lambda>t. mset_key (PStr (fst (snd t))) (snd (snd t))) ts [])) (sort_items its))"
| "json_reread rep (PList xs) = map_option PList (those (map (json_reread rep) xs))"
| "json_reread rep (PTuple xs) = map_option PList (those (map (json_reread rep) xs))"
| "json_reread rep (PFloat f) = (if as_finite f = None then None else Some (PFloat f))"
| "json_reread rep (PProxy d) = None"
| "json_reread rep (POther n) = None"
| "json_reread rep v = Some v"
  by pat_completeness auto
termination
  by (relation "measure (size \<circ> snd)")
     (auto dest: py_pair_size size_list_estimation' [of _ _ _ size, OF _ order_refl] simp: less_Suc_eq_le)

section \<open>Dictionaries with string keys\<close>

definition str_dict :: "pymap \<Rightarrow> bool" where
  "str_dict d \<longleftrightarrow> distinct (map fst d) \<and> list_all (\<lambda>kv. as_str (fst kv) \<noteq> None) d"

definition item_key :: "pyval \<times> 'a \<Rightarrow> string" where
  "item_key kv = the (as_str (fst kv))"

definition reread_items :: "(rat \<Rightarrow> string) \<Rightarrow> pymap \<Rightarrow> pymap" where
  "reread_items rep d = map (\<lambda>kv. (fst kv, the (json_reread rep (snd kv)))) (sort_key item_key d)"

lemma update_new: "k \<notin> fst ` set d \<Longrightarrow> AList.update k v d = d @ [(k, v)]"
  by (induction d) auto

lemma fold_mset_distinct:
  "distinct (map f ts) \<Longrightarrow> set (map f ts) \<inter> set (map fst acc) = {} \<Longrightarrow>
     fold (\<lambda>t. mset_key (f t) (g t)) ts acc = acc @ map (\<lambda>t. (f t, g t)) ts"
proof (induction ts arbitrary: acc)
  case (Cons t ts)
  have "mset_key (f t) (g t) acc = acc @ [(f t, g t)]" using Cons.prems
    by (auto simp: mset_key_def update_new)
  then show ?case using Cons by auto
qed simp

lemma str_dictD: "str_dict d \<Longrightarrow> kv \<in> set d \<Longrightarrow> fst kv = PStr (item_key kv)"
proof -
  assume "str_dict d" "kv \<in> set d"
  then have "as_str (fst kv) \<noteq> None" by (auto simp: str_dict_def list_all_iff)
  then show ?thesis by (cases "fst kv") (simp_all add: item_key_def)
qed

lemma those_None: "those xs \<noteq> None \<longleftrightarrow> None \<notin> set xs"
  by (induction xs) (auto split: option.split)

lemma reread_dict:
  assumes d: "str_dict d"
  shows "json_reread rep (PDict d) = (if \<forall>kv \<in> set d. json_reread rep (snd kv) \<noteq> None then Some (PDict (reread_items rep d)) else None)"
proof (cases "\<forall>kv \<in> set d. json_reread rep (snd kv) \<noteq> None")
  case True
  let ?f = "\<lambda>kv. case key_text rep (fst kv) of None \<Rightarrow> None
       | Some k \<Rightarrow> map_option (\<lambda>v. (fst kv, (k, v))) (json_reread rep (snd kv))"
  let ?g = "\<lambda>kv. (fst kv, (item_key kv, the (json_reread rep (snd kv))))"
  have "?f kv = Some (?g kv)" if "kv \<in> set d" for kv
  proof -
    have "key_text rep (fst kv) = Some (item_key kv)" using str_dictD [OF d that] key_text.simps(1) by metis
    then show ?thesis using that True by auto
  qed
  then have 1: "those (map ?f d) = Some (map ?g d)" by (rule those_map_Some)
  have strs: "list_all (\<lambda>kt. as_str (fst kt) \<noteq> None) (map ?g d)" using d by (simp add: str_dict_def list.pred_map comp_def)
  have 2: "sort_items (map ?g d) = Some (map ?g (sort_key item_key d))"
    using strs by (simp add: sort_items_def sort_key_map item_key_def [abs_def])
  have same: "PStr (fst (snd (?g kv))) = fst kv" if "kv \<in> set d" for kv using str_dictD [OF d that] by simp
  have keys: "map (\<lambda>t. PStr (fst (snd t))) (map ?g (sort_key item_key d)) = map fst (sort_key item_key d)"
    using same by simp
  have "distinct (map fst (sort_key item_key d))" using d by (simp add: str_dict_def distinct_map)
  then have "fold (\<lambda>t. mset_key (PStr (fst (snd t))) (snd (snd t))) (map ?g (sort_key item_key d)) []
      = map (\<lambda>t. (PStr (fst (snd t)), snd (snd t))) (map ?g (sort_key item_key d))"
    using fold_mset_distinct [of "\<lambda>t. PStr (fst (snd t))" "map ?g (sort_key item_key d)" "[]" "\<lambda>t. snd (snd t)"] unfolding keys by simp
  also have "\<dots> = reread_items rep d" using same by (simp add: reread_items_def)
  finally show ?thesis using True by (simp add: 1 2)
next
  case False
  then obtain kv where "kv \<in> set d" "json_reread rep (snd kv) = None" by auto
  then have "those (map (\<lambda>kv. case key_text rep (fst kv) of None \<Rightarrow> None
       | Some k \<Rightarrow> map_option (\<lambda>v. (fst kv, (k, v))) (json_reread rep (snd kv))) d) = None"
    using those_None [of "map (\<lambda>kv. case key_text rep (fst kv) of None \<Rightarrow> None
       | Some k \<Rightarrow> map_option (\<lambda>v. (fst kv, (k, v))) (json_reread rep (snd kv))) d"] by (force split: option.split)
  then show ?thesis using False by simp
qed

lemma reread_items_str: "str_dict d \<Longrightarrow> str_dict (reread_items rep d)"
  by (simp add: str_dict_def reread_items_def distinct_map comp_def list_all_iff inj_on_def)

lemma reread_items_set: "set (reread_items rep d) = (\<lambda>kv. (fst kv, the (json_reread rep (snd kv)))) ` set d"
  by (simp add: reread_items_def)

lemma reread_mget: "str_dict d \<Longrightarrow> mget (reread_items rep d) k = map_option (\<lambda>v. the (json_reread rep v)) (mget d k)"
proof -
  assume d: "str_dict d"
  have "map_of (reread_items rep d) = map_of (map (\<lambda>kv. (fst kv, the (json_reread rep (snd kv)))) d)"
    by (rule map_of_inject_set [THEN iffD2]) (use d reread_items_str [OF d, of rep] in \<open>simp_all add: str_dict_def reread_items_set comp_def\<close>)
  moreover have "map_of (map (\<lambda>kv. (fst kv, h (snd kv))) d) x = map_option h (map_of d x)" for x and h :: "pyval \<Rightarrow> pyval"
    by (induction d) auto
  ultimately show ?thesis by (simp add: mget_def)
qed

section \<open>Values with string keys\<close>

text \<open>Dictionaries with different string keys, lists and plain values: reading back only sorts the items.\<close>

function (sequential) wire :: "pyval \<Rightarrow> bool" where
  "wire (PDict d) = (str_dict d \<and> (\<forall>kv \<in> set d. wire (snd kv)))"
| "wire (PList xs) = (\<forall>x \<in> set xs. wire x)"
| "wire (PFloat f) = (as_finite f \<noteq> None)"
| "wire (PProxy d) = False"
| "wire (PTuple xs) = False"
| "wire (POther n) = False"
| "wire v = True"
  by pat_completeness auto
termination
  by (relation "measure size")
     (auto dest: py_pair_size size_list_estimation' [of _ _ _ size, OF _ order_refl] simp: less_Suc_eq_le)

function (sequential) sort_json :: "pyval \<Rightarrow> pyval" where
  "sort_json (PDict d) = PDict (sort_key item_key (map (\<lambda>kv. (fst kv, sort_json (snd kv))) d))"
| "sort_json (PList xs) = PList (map sort_json xs)"
| "sort_json v = v"
  by pat_completeness auto
termination
  by (relation "measure size")
     (auto dest: py_pair_size size_list_estimation' [of _ _ _ size, OF _ order_refl] simp: less_Suc_eq_le)

lemma item_key_pair: "item_key (k, v) = the (as_str k)"
  by (simp add: item_key_def)

lemma sort_items_map: "sort_key item_key (map (\<lambda>kv. (fst kv, h (snd kv))) d) = map (\<lambda>kv. (fst kv, h (snd kv))) (sort_key item_key d)"
  by (simp add: sort_key_map item_key_def [abs_def])

lemma sort_twice [simp]: "sort_key f (sort_key f d) = sort_key f d"
  by (simp add: sort_key_id_if_sorted)

lemma reread_wire: "wire v \<Longrightarrow> json_reread rep v = Some (sort_json v)"
proof (induction v rule: wire.induct)
  case (1 d)
  then have d: "str_dict d" and all: "\<And>kv. kv \<in> set d \<Longrightarrow> json_reread rep (snd kv) = Some (sort_json (snd kv))" by auto
  have "reread_items rep d = map (\<lambda>kv. (fst kv, sort_json (snd kv))) (sort_key item_key d)"
    by (simp add: reread_items_def all)
  then show ?case using all by (simp add: reread_dict [OF d] sort_items_map del: json_reread.simps(1))
next
  case (2 xs)
  then have "those (map (json_reread rep) xs) = Some (map sort_json xs)" by (intro those_map_Some) auto
  then show ?case by simp
qed auto

lemma wire_sort: "wire v \<Longrightarrow> wire (sort_json v)"
proof (induction v rule: wire.induct)
  case (1 d)
  then show ?case by (auto simp: sort_items_map str_dict_def distinct_map comp_def list_all_iff inj_on_def)
qed auto

lemma sort_json_idem: "wire v \<Longrightarrow> sort_json (sort_json v) = sort_json v"
proof (induction v rule: wire.induct)
  case (1 d)
  let ?e = "sort_key item_key (map (\<lambda>kv. (fst kv, sort_json (snd kv))) d)"
  have "map (\<lambda>kv. (fst kv, sort_json (snd kv))) ?e = ?e"
    by (rule map_idI) (use 1 in auto)
  then show ?case by simp
qed auto

text \<open>The text does not depend on the order of the items.\<close>

lemma text_of_items: "str_dict d \<Longrightarrow> (\<And>kv. kv \<in> set d \<Longrightarrow> json_text rep (snd kv) = Some (s kv)) \<Longrightarrow>
    json_text rep (PDict d) = Some (''{'' @ join '','' (map (\<lambda>kv. json_str (item_key kv) @ '':'' @ s kv) (sort_key item_key d)) @ ''}'')"
proof -
  assume d: "str_dict d" and s: "\<And>kv. kv \<in> set d \<Longrightarrow> json_text rep (snd kv) = Some (s kv)"
  have "json_text rep (PDict (map id d))
      = Some (''{'' @ join '','' (map (\<lambda>(k, t). json_str k @ '':'' @ t) (sort_key fst (map (\<lambda>kv. (item_key kv, s kv)) d))) @ ''}'')"
    by (rule json_text_items) (use s str_dictD [OF d] in auto)
  then show ?thesis by (simp add: sort_key_map comp_def case_prod_unfold)
qed

lemma wire_text: "wire v \<Longrightarrow> \<exists>t. json_text rep v = Some t"
proof (induction v rule: wire.induct)
  case (1 d)
  then have "\<And>kv. kv \<in> set d \<Longrightarrow> json_text rep (snd kv) = Some (the (json_text rep (snd kv)))" by fastforce
  then show ?case using text_of_items [of d rep "\<lambda>kv. the (json_text rep (snd kv))"] 1 by auto
next
  case (2 xs)
  have "those (map (json_text rep) xs) = Some (map (the \<circ> json_text rep) xs)" by (rule those_map_Some) (use 2 in fastforce)
  then show ?case by simp
qed auto

lemma sort_json_text: "wire v \<Longrightarrow> json_text rep (sort_json v) = json_text rep v"
proof (induction v rule: wire.induct)
  case (1 d)
  let ?g = "\<lambda>kv. (fst kv, sort_json (snd kv))" and ?s = "\<lambda>kv. the (json_text rep (snd kv))"
  have all: "json_text rep (snd kv) = Some (?s kv)" if "kv \<in> set d" for kv
    using 1(2) that wire_text [of "snd kv" rep] by auto
  have "str_dict (map ?g (sort_key item_key d))"
    using 1(2) by (auto simp: str_dict_def distinct_map comp_def list_all_iff inj_on_def)
  moreover have "json_text rep (snd kv) = Some (?s kv)" if "kv \<in> set (map ?g (sort_key item_key d))" for kv
    using that 1 all by auto
  ultimately have "json_text rep (PDict (map ?g (sort_key item_key d)))
      = Some (''{'' @ join '','' (map (\<lambda>kv. json_str (item_key kv) @ '':'' @ ?s kv) (sort_key item_key (map ?g (sort_key item_key d)))) @ ''}'')"
    by (rule text_of_items)
  also have "sort_key item_key (map ?g (sort_key item_key d)) = map ?g (sort_key item_key d)"
    by (simp add: sort_items_map)
  also have "map (\<lambda>kv. json_str (item_key kv) @ '':'' @ ?s kv) (map ?g (sort_key item_key d))
      = map (\<lambda>kv. json_str (item_key kv) @ '':'' @ ?s kv) (sort_key item_key d)"
    using 1 by (auto simp: item_key_def)
  also have "Some (''{'' @ join '','' \<dots> @ ''}'') = json_text rep (PDict d)"
    by (rule text_of_items [symmetric]) (use 1(2) all in auto)
  finally show ?case by (simp add: sort_items_map)
next
  case (2 xs)
  then have "map (json_text rep) (map sort_json xs) = map (json_text rep) xs" by auto
  then show ?case by (simp del: map_map)
qed auto

lemma mget_map: "mget (map (\<lambda>kv. (fst kv, h (snd kv))) d) k = map_option h (mget d k)"
  by (induction d) auto

lemma mget_sort: "distinct (map fst d) \<Longrightarrow> mget (sort_key f d) k = mget d k"
proof -
  assume d: "distinct (map fst d)"
  have "map_of (sort_key f d) = map_of d"
    by (rule map_of_inject_set [THEN iffD2]) (use d in \<open>simp_all add: distinct_map\<close>)
  then show ?thesis by (simp add: mget_def)
qed

end
