(* ===== verification/CheckpointStore.thy ===== *)
theory CheckpointStore
  imports Checkpoint RunStorePattern JsonReread
begin

text \<open>
  The durable checkpoint store, \<open>CheckpointV2Store\<close> of \<open>scripts/pd_fleet/checkpoint.py\<close>: redaction, the
  sealed envelope, its validation, and the two files of a run with the states a save passes through. The
  text of floats and SHA-256 are parameters; the lock is taken and released around every save, so saves do
  not overlap.
\<close>

record cp_env =
  ce_rep :: "rat \<Rightarrow> string"
  ce_sha :: "string \<Rightarrow> string"
  ce_now :: "string option"

definition CP_SCHEMA :: string where "CP_SCHEMA = ''pd-fleet-checkpoint:v2''"

section \<open>Redaction\<close>

definition CP_PATH :: regex where
  "CP_PATH = (let inner = Cls (\<lambda>c. c \<notin> set [CHR 0x20, CHR 0x09, CHR 0x0A, CHR 0x0D, CHR 0x0C, CHR 0x0B, CHR 0x22, CHR 0x27,
         CHR ''<'', CHR ''>'', CHR '';'', CHR '','']); slash = Cls (one_of [CHR 0x5C, CHR ''/'']) in
     Seq (NotAfter (\<lambda>c. word_char c \<or> c = CHR ''.''))
       (alts [seqs [lit ''~'', slash, star inner], Seq (lit ''/'') (plus inner),
          seqs [Cls (\<lambda>c. in_range 65 90 c \<or> in_range 97 122 c), lit '':'', slash, star inner],
          Seq (lit [CHR 0x5C, CHR 0x5C]) (plus inner)]))"

definition cp_redact_text :: "string \<Rightarrow> string" where
  "cp_redact_text s = re_sub Eps CP_PATH ''[PATH REDACTED]'' (re_sub Eps URL_RE ''[URL REDACTED]'' s)"

definition cp_redact_item :: "pyval \<times> pyval \<Rightarrow> pyval \<times> pyval" where
  "cp_redact_item kv = (case as_str (fst kv) of
     None \<Rightarrow> (PStr ''[UNSUPPORTED TYPE]'', snd kv)
   | Some k \<Rightarrow> (PStr k, if re_search SENSITIVE k then PStr ''[REDACTED]'' else snd kv))"

function (sequential) cp_redact :: "pyval \<Rightarrow> pyval" where
  "cp_redact (PDict d) = PDict (fold (\<lambda>kv. mset_key (fst kv) (snd kv)) (map (\<lambda>kv. cp_redact_item (fst kv, cp_redact (snd kv))) d) [])"
| "cp_redact (PProxy d) = PDict (fold (\<lambda>kv. mset_key (fst kv) (snd kv)) (map (\<lambda>kv. cp_redact_item (fst kv, cp_redact (snd kv))) d) [])"
| "cp_redact (PList xs) = PList (map cp_redact xs)"
| "cp_redact (PStr s) = PStr (cp_redact_text s)"
| "cp_redact v = v"
  by pat_completeness auto
termination
  by (relation "measure size")
     (auto dest: py_pair_size size_list_estimation' [of _ _ _ size, OF _ order_refl] simp: less_Suc_eq_le)

section \<open>The envelope\<close>

definition cp_checksum :: "cp_env \<Rightarrow> pymap \<Rightarrow> string option" where
  "cp_checksum env e = map_option (\<lambda>t. ce_sha env (CP_SCHEMA @ [CHR 0x00] @ t))
     (json_text (ce_rep env) (PDict (filter (\<lambda>kv. fst kv \<noteq> PStr ''checksum'') e)))"

definition hash_text :: "string \<Rightarrow> bool" where
  "hash_text s \<longleftrightarrow> length s = 64 \<and> list_all (\<lambda>c. in_range 48 57 c \<or> in_range 97 102 c) s"

definition envelope_body :: "string \<Rightarrow> string \<Rightarrow> int \<Rightarrow> pyval \<Rightarrow> pymap" where
  "envelope_body rid plan generation v = str_keyed [(''schema_version'', PStr CP_SCHEMA), (''run_id'', PStr rid),
     (''plan_hash'', PStr plan), (''generation'', PInt generation), (''checkpoint'', v)]"

definition cp_seal :: "cp_env \<Rightarrow> string \<Rightarrow> checkpoint \<Rightarrow> string \<Rightarrow> int \<Rightarrow> pymap cpres" where
  "cp_seal env rid c plan generation = (if \<not> hash_text plan then Inl CheckpointError else if generation < 0 then Inl CheckpointError
     else bindR (Checkpoint_to_dict c) (\<lambda>v. let e = envelope_body rid plan generation (cp_redact v) in
       case cp_checksum env e of None \<Rightarrow> Inl CpTypeError | Some t \<Rightarrow> Inr (e @ [(PStr ''checksum'', PStr t)])))"

section \<open>Validation of an envelope\<close>

definition LIFECYCLE_FIELDS :: "string list" where
  "LIFECYCLE_FIELDS = [''task_id'', ''status'', ''state'', ''attempt'', ''max_attempts'', ''agent'', ''heartbeat'',
     ''started_at'', ''finished_at'', ''outputs'', ''evidence'', ''reason'', ''error'', ''history'', ''final_report'',
     ''report_final'', ''retryable'']"

definition TASK_FIELDS :: "string list" where
  "TASK_FIELDS = [''id'', ''name'', ''title'', ''description'', ''owner'', ''depends_on'', ''dependencies'', ''wave'',
     ''status'', ''state'', ''metadata'', ''inputs'', ''outputs'', ''acceptance'', ''tags'']"

definition CHECKPOINT_FIELDS :: "string list" where
  "CHECKPOINT_FIELDS = [''schema_version'', ''feature'', ''wave'', ''tasks'', ''lifecycle'', ''reports'', ''evidence'',
     ''blockers'', ''created_at'']"

definition HISTORY_FIELDS :: "string list" where
  "HISTORY_FIELDS = [''from'', ''to'', ''reason'']"

definition CP_REPORT_FIELDS :: "string list" where
  "CP_REPORT_FIELDS = [''task_id'', ''status'', ''summary'', ''details'', ''content'', ''text'', ''report'', ''agent'',
     ''created_at'', ''outputs'', ''evidence'', ''error'']"

definition EVIDENCE_FIELDS :: "string list" where
  "EVIDENCE_FIELDS = [''task_id'', ''kind'', ''type'', ''path'', ''uri'', ''url'', ''sha256'', ''description'', ''value'', ''metadata'']"

definition BLOCKER_FIELDS :: "string list" where
  "BLOCKER_FIELDS = [''task_id'', ''reason'', ''details'', ''status'']"

definition EXTENSION_FIELDS :: "string list" where
  "EXTENSION_FIELDS = [''metadata'', ''inputs'', ''outputs'', ''acceptance'', ''tags'', ''value'', ''details'', ''content'']"

function (sequential) v2_walk :: "string list option \<Rightarrow> bool \<Rightarrow> pyval \<Rightarrow> bool" where
  "v2_walk allowed ext (PDict d) = (\<forall>kv \<in> set d. case as_str (fst kv) of None \<Rightarrow> False
     | Some k \<Rightarrow> \<not> re_search SENSITIVE k \<and> (case allowed of None \<Rightarrow> True | Some ks \<Rightarrow> k \<in> set ks \<or> ext)
         \<and> v2_walk None (ext \<or> k \<in> set EXTENSION_FIELDS) (snd kv))"
| "v2_walk allowed ext (PProxy d) = (\<forall>kv \<in> set d. case as_str (fst kv) of None \<Rightarrow> False
     | Some k \<Rightarrow> \<not> re_search SENSITIVE k \<and> (case allowed of None \<Rightarrow> True | Some ks \<Rightarrow> k \<in> set ks \<or> ext)
         \<and> v2_walk None (ext \<or> k \<in> set EXTENSION_FIELDS) (snd kv))"
| "v2_walk allowed ext (PList xs) = (\<forall>x \<in> set xs. v2_walk None ext x)"
| "v2_walk allowed ext (PFloat f) = (as_finite f \<noteq> None)"
| "v2_walk allowed ext (PTuple xs) = False"
| "v2_walk allowed ext (POther n) = False"
| "v2_walk allowed ext v = True"
  by pat_completeness auto
termination
  by (relation "measure (\<lambda>(a, e, v). size v)")
     (auto dest: py_pair_size size_list_estimation' [of _ _ _ size, OF _ order_refl] simp: less_Suc_eq_le)

definition records_ok :: "(pyval \<times> pyval \<Rightarrow> bool) \<Rightarrow> pyval \<Rightarrow> bool" where
  "records_ok ok v = (case as_mapping v of None \<Rightarrow> False | Some d \<Rightarrow>
     list_all (\<lambda>kv. nonblank_text (fst kv) \<and> as_mapping (snd kv) \<noteq> None \<and> ok kv) d)"

definition life_walk :: "pyval \<times> pyval \<Rightarrow> bool" where
  "life_walk kv \<longleftrightarrow> v2_walk (Some LIFECYCLE_FIELDS) False (snd kv) \<and> (case as_mapping (snd kv) of None \<Rightarrow> False | Some d \<Rightarrow>
     (case as_plist (mget_or d ''history'' (PList [])) of None \<Rightarrow> False
      | Some hs \<Rightarrow> list_all (\<lambda>h. as_mapping h \<noteq> None \<and> v2_walk (Some HISTORY_FIELDS) False h) hs))"

definition list_walk :: "pymap \<Rightarrow> string \<times> string list \<Rightarrow> bool" where
  "list_walk d nf = (case as_plist (mget_or d (fst nf) PNone) of None \<Rightarrow> False
   | Some xs \<Rightarrow> list_all (\<lambda>x. v2_walk (if as_mapping x = None then None else Some (snd nf)) False x) xs)"

definition v2_nested :: "pyval \<Rightarrow> bool" where
  "v2_nested v = (case as_mapping v of None \<Rightarrow> False | Some d \<Rightarrow> v2_walk (Some CHECKPOINT_FIELDS) False v
     \<and> records_ok (\<lambda>kv. v2_walk (Some TASK_FIELDS) False (snd kv)) (mget_or d ''tasks'' PNone)
     \<and> records_ok life_walk (mget_or d ''lifecycle'' PNone)
     \<and> list_all (list_walk d) [(''reports'', CP_REPORT_FIELDS), (''evidence'', EVIDENCE_FIELDS), (''blockers'', BLOCKER_FIELDS)])"

definition ENVELOPE_FIELDS :: "string list" where
  "ENVELOPE_FIELDS = [''schema_version'', ''run_id'', ''plan_hash'', ''generation'', ''checkpoint'', ''checksum'']"

definition env_generation :: "pymap \<Rightarrow> int" where
  "env_generation e = (case as_int (mget_or e ''generation'' PNone) of None \<Rightarrow> 0 | Some n \<Rightarrow> n)"

definition envelope_valid :: "cp_env \<Rightarrow> string \<Rightarrow> string option \<Rightarrow> pyval \<Rightarrow> bool" where
  "envelope_valid env rid expected v = (case as_mapping v of None \<Rightarrow> False | Some e \<Rightarrow>
     set (map fst e) = PStr ` set ENVELOPE_FIELDS
     \<and> mget e ''schema_version'' = Some (PStr CP_SCHEMA) \<and> mget e ''run_id'' = Some (PStr rid)
     \<and> (case as_str (mget_or e ''plan_hash'' PNone) of None \<Rightarrow> False | Some h \<Rightarrow> hash_text h \<and> (expected = None \<or> expected = Some h))
     \<and> (case as_int (mget_or e ''generation'' PNone) of None \<Rightarrow> False | Some n \<Rightarrow> 0 \<le> n)
     \<and> (case cp_checksum env e of None \<Rightarrow> False | Some t \<Rightarrow> mget e ''checksum'' = Some (PStr t))
     \<and> v2_nested (mget_or e ''checkpoint'' PNone) \<and> isOK (Checkpoint_from_dict (ce_now env) (mget_or e ''checkpoint'' PNone)))"

section \<open>The files of a run\<close>

text \<open>A file that cannot be used: a directory, a hard link, unreadable, or not JSON.\<close>

datatype cp_file = CpMissing | CpSymlink | CpUnusable | CpJson pyval

record cp_disk =
  cd_link :: bool
  cd_target :: cp_file
  cd_backup :: cp_file

definition cp_safe_id :: "string \<Rightarrow> bool" where
  "cp_safe_id rid \<longleftrightarrow> rid \<notin> {[], ''.'', ''..''} \<and> CHR ''/'' \<notin> set rid \<and> CHR 0x5C \<notin> set rid"

definition cp_paths :: "string \<Rightarrow> cp_disk \<Rightarrow> unit cpres" where
  "cp_paths rid d = (if cp_safe_id rid \<and> \<not> cd_link d then Inr () else Inl CheckpointError)"

definition candidate :: "cp_env \<Rightarrow> string \<Rightarrow> string option \<Rightarrow> cp_file \<Rightarrow> pymap option" where
  "candidate env rid expected f = (case f of CpJson v \<Rightarrow> if envelope_valid env rid expected v then as_mapping v else None | _ \<Rightarrow> None)"

definition candidates :: "cp_env \<Rightarrow> string \<Rightarrow> string option \<Rightarrow> cp_disk \<Rightarrow> pymap list" where
  "candidates env rid expected d = List.map_filter (candidate env rid expected) [cd_target d, cd_backup d]"

text \<open>\<open>max(candidates, key=generation)\<close>: the first of the newest.\<close>

definition newest :: "pymap list \<Rightarrow> pymap option" where
  "newest es = (case es of [] \<Rightarrow> None | e # r \<Rightarrow> Some (fold (\<lambda>x m. if env_generation x > env_generation m then x else m) r e))"

definition cp_load :: "cp_env \<Rightarrow> string \<Rightarrow> string option \<Rightarrow> int option \<Rightarrow> cp_disk \<Rightarrow> pymap cpres" where
  "cp_load env rid expected generation d =
     (if (case expected of None \<Rightarrow> False | Some h \<Rightarrow> \<not> hash_text h) then Inl CheckpointError else
      bindR (cp_paths rid d) (\<lambda>_. case newest (candidates env rid expected d) of None \<Rightarrow> Inl CheckpointError
      | Some e \<Rightarrow> if (case generation of None \<Rightarrow> False | Some g \<Rightarrow> env_generation e \<noteq> g) then Inl CheckpointError else Inr e))"

datatype checkpoint_arg = CpObject checkpoint | CpMapping pyval

definition checkpoint_of :: "cp_env \<Rightarrow> checkpoint_arg \<Rightarrow> checkpoint cpres" where
  "checkpoint_of env a = (case a of CpObject c \<Rightarrow> Inr c | CpMapping v \<Rightarrow> Checkpoint_from_dict (ce_now env) v)"

text \<open>
  A save renames an existing file to the backup and then the new one into its place; the disk passes
  through these states and a crash or an injected fault leaves one of them.
\<close>

definition save_states :: "cp_disk \<Rightarrow> pyval \<Rightarrow> cp_disk list" where
  "save_states d v = (let d1 = (if cd_target d = CpMissing then d else d\<lparr>cd_backup := cd_target d, cd_target := CpMissing\<rparr>)
     in [d, d1, d1\<lparr>cd_target := CpJson v\<rparr>])"

definition cp_save :: "cp_env \<Rightarrow> string \<Rightarrow> checkpoint_arg \<Rightarrow> string \<Rightarrow> int \<Rightarrow> cp_disk \<Rightarrow> (pymap \<times> cp_disk list) cpres" where
  "cp_save env rid a plan generation d = bindR (cp_paths rid d) (\<lambda>_. bindR (checkpoint_of env a) (\<lambda>c.
     bindR (cp_seal env rid c plan generation) (\<lambda>e.
     case json_reread (ce_rep env) (PDict e) of None \<Rightarrow> Inl CpTypeError | Some v \<Rightarrow>
       if list_ex (\<lambda>x. generation \<le> env_generation x) (candidates env rid None d) then Inl CheckpointError
       else if cd_target d = CpSymlink \<or> cd_backup d = CpSymlink then Inl CheckpointError
       else Inr (e, save_states d v))))"

definition checkpoint_in :: "cp_env \<Rightarrow> pymap \<Rightarrow> checkpoint cpres" where
  "checkpoint_in env e = Checkpoint_from_dict (ce_now env) (mget_or e ''checkpoint'' PNone)"

definition cp_recover ::
  "cp_env \<Rightarrow> string \<Rightarrow> string option \<Rightarrow> int option \<Rightarrow> rat option \<Rightarrow> rat \<Rightarrow> cp_disk \<Rightarrow> (pymap \<times> cp_disk list) cpres" where
  "cp_recover env rid expected generation now timeout d = bindR (cp_load env rid expected generation d) (\<lambda>e.
     bindR (checkpoint_in env e) (\<lambda>c.
     bindR (case now of None \<Rightarrow> Inr (c, []) | Some t \<Rightarrow> cp_recover_orphans t timeout c) (\<lambda>(c', ids).
     bindR (if ids = [] then Inr (e, [d])
            else case as_str (mget_or e ''plan_hash'' PNone) of None \<Rightarrow> Inl CheckpointError
              | Some h \<Rightarrow> cp_save env rid (CpObject c') h (env_generation e + 1) d) (\<lambda>(e', ds).
     Inr (mset_key (PStr ''orphaned'') (PList (map PStr ids)) e', ds)))))"

definition cp_resume ::
  "cp_env \<Rightarrow> string \<Rightarrow> string option \<Rightarrow> int option \<Rightarrow> rat option \<Rightarrow> rat \<Rightarrow> cp_disk \<Rightarrow> (pymap \<times> cp_disk list) cpres" where
  "cp_resume env rid expected generation now timeout d = bindR (cp_recover env rid expected generation now timeout d) (\<lambda>(e, ds).
     bindR (checkpoint_in env e) (\<lambda>c. bindR (cp_resume_tasks c) (\<lambda>ids.
       Inr (mset_key (PStr ''completed_tasks'') (PList (map PStr (cp_completed_tasks c))) (mset_key (PStr ''resume_tasks'') (PList (map PStr ids)) e), ds))))"

section \<open>The plain file\<close>

text \<open>The first format: one file that is replaced as a whole and read back without further checks.\<close>

definition save_checkpoint :: "cp_env \<Rightarrow> checkpoint_arg \<Rightarrow> cp_file cpres" where
  "save_checkpoint env a = bindR (checkpoint_of env a) (\<lambda>c. bindR (Checkpoint_to_dict c) (\<lambda>v.
     case json_reread (ce_rep env) v of None \<Rightarrow> Inl CpTypeError | Some w \<Rightarrow> Inr (CpJson w)))"

definition load_checkpoint :: "cp_env \<Rightarrow> cp_file \<Rightarrow> checkpoint cpres" where
  "load_checkpoint env f = (case f of CpJson v \<Rightarrow> Checkpoint_from_dict (ce_now env) v | _ \<Rightarrow> Inl CheckpointError)"

end
