(* ===== verification/CheckpointProperties.thy ===== *)
theory CheckpointProperties
  imports CheckpointStore
begin

text \<open>
  What checkpoints guarantee: recovery changes orphaned tasks only and keeps the checkpoint valid; and the
  facts about the two files of a run on which the theory of saves and crashes builds.
\<close>

section \<open>Recovery\<close>

lemma cp_simps [simp]: "cp_read x = Inr a \<longleftrightarrow> x = Some a" "cp_life r = Inr a' \<longleftrightarrow> r = Inr a'"
  by (auto simp: cp_read_def cp_life_def split: option.split sum.split)

lemma record_lifecycle_spec:
  assumes "record_lifecycle tid raw = Inr l"
  shows "lc_state_of (StateOther (record_status (value_snapshot tid raw) (PStr ''pending''))) = Inr (lc_state l)"
    "mget_or (value_snapshot tid raw) ''task_id'' PNone = PStr (lc_task_id l)"
    "mget_or (value_snapshot tid raw) ''attempt'' (PInt 0) = PInt (lc_attempt l)"
    "mget_or (value_snapshot tid raw) ''max_attempts'' (PInt 1) = PInt (lc_max_attempts l)"
    "lc_outputs l = mget_or (value_snapshot tid raw) ''outputs'' PNone" "lc_evidence l = mget_or (value_snapshot tid raw) ''evidence'' PNone"
    "lc_final_report l = mget_or (value_snapshot tid raw) ''final_report'' PNone"
    "0 \<le> lc_attempt l" "lc_attempt l \<le> lc_max_attempts l" "1 \<le> lc_max_attempts l"
proof -
  have int: "as_int v = Some n \<Longrightarrow> v = PInt n" for v n by (cases v) auto
  show "lc_state_of (StateOther (record_status (value_snapshot tid raw) (PStr ''pending''))) = Inr (lc_state l)"
    "mget_or (value_snapshot tid raw) ''task_id'' PNone = PStr (lc_task_id l)"
    "mget_or (value_snapshot tid raw) ''attempt'' (PInt 0) = PInt (lc_attempt l)"
    "mget_or (value_snapshot tid raw) ''max_attempts'' (PInt 1) = PInt (lc_max_attempts l)"
    "lc_outputs l = mget_or (value_snapshot tid raw) ''outputs'' PNone" "lc_evidence l = mget_or (value_snapshot tid raw) ''evidence'' PNone"
    "lc_final_report l = mget_or (value_snapshot tid raw) ''final_report'' PNone"
    "0 \<le> lc_attempt l" "lc_attempt l \<le> lc_max_attempts l" "1 \<le> lc_max_attempts l"
    using assms
    by (auto simp: record_lifecycle_def Let_def result_simps TaskLifecycle_post_init_def dest!: int split: if_split_asm)
qed

lemma recover_orphan_moved:
  assumes "recover_orphan l now timeout = Inr (l', True)"
  shows "lc_state l = RUNNING" "lc_state l' = FAILED" "lc_error l' = Some ''orphaned_run''" "lc_attempt l' = lc_attempt l"
    "lc_max_attempts l' = lc_max_attempts l" "lc_retryable l'" "lc_task_id l' = lc_task_id l" "lc_outputs l' = lc_outputs l"
    "lc_evidence l' = lc_evidence l" "lc_final_report l' = lc_final_report l"
  using assms
  by (auto simp: recover_orphan_def fail_def lc_transition_defs result_simps stamp_finished_def Let_def split: if_split_asm)

text \<open>How a record of the lifecycle mapping and its recovered version relate.\<close>

definition recovered_record :: "string \<Rightarrow> pymap \<Rightarrow> pymap \<Rightarrow> bool" where
  "recovered_record i raw d \<longleftrightarrow> record_status raw PNone = PStr (state_value RUNNING) \<and>
     (\<exists>l l' now timeout. record_lifecycle i raw = Inr l \<and> recover_orphan l now timeout = Inr (l', True)
        \<and> d = keep_numbers [''heartbeat'', ''started_at''] raw (life_snapshot l'))"

lemma recover_records_spec:
  assumes "recover_records now timeout its = Inr (r, ids)"
  shows "map fst r = map fst its \<and> set ids \<subseteq> set (map fst its) \<and> (distinct (map fst its) \<longrightarrow> distinct ids) \<and>
    list_all2 (\<lambda>x y. y = x \<or> fst x \<in> set ids \<and> recovered_record (fst x) (snd x) (snd y)) its r \<and>
    (\<forall>i \<in> set ids. \<exists>x \<in> set its. fst x = i \<and> (\<exists>y \<in> set r. fst y = i \<and> recovered_record i (snd x) (snd y)))"
  using assms
proof (induction its arbitrary: r ids rule: recover_records.induct)
  case (2 now timeout i raw its)
  show ?case
  proof (cases "record_status raw PNone = PStr (state_value RUNNING)")
    case False
    then obtain r' where r: "recover_records now timeout its = Inr (r', ids)" "r = (i, raw) # r'"
      using 2(3) by (auto simp: result_simps)
    show ?thesis using 2(1) [OF False r(1)] r(2) by (auto elim: list_all2_mono)
  next
    case True
    then obtain l l' moved r' ids' where l: "record_lifecycle i raw = Inr l" "recover_orphan l now timeout = Inr (l', moved)"
      and r: "recover_records now timeout its = Inr (r', ids')"
      and res: "(r, ids) = (if moved then ((i, keep_numbers [''heartbeat'', ''started_at''] raw (life_snapshot l')) # r', i # ids') else ((i, raw) # r', ids'))"
      using 2(3) by (auto simp: result_simps)
    have IH: "map fst r' = map fst its \<and> set ids' \<subseteq> set (map fst its) \<and> (distinct (map fst its) \<longrightarrow> distinct ids') \<and>
      list_all2 (\<lambda>x y. y = x \<or> fst x \<in> set ids' \<and> recovered_record (fst x) (snd x) (snd y)) its r' \<and>
      (\<forall>i \<in> set ids'. \<exists>x \<in> set its. fst x = i \<and> (\<exists>y \<in> set r'. fst y = i \<and> recovered_record i (snd x) (snd y)))"
      using 2(2) True l r by auto
    show ?thesis
    proof (cases moved)
      case False
      then show ?thesis using res IH by (auto elim: list_all2_mono)
    next
      case m: True
      let ?d = "keep_numbers [''heartbeat'', ''started_at''] raw (life_snapshot l')"
      have rr: "recovered_record i raw ?d" using True l m by (auto simp: recovered_record_def)
      have "list_all2 (\<lambda>x y. y = x \<or> fst x \<in> set (i # ids') \<and> recovered_record (fst x) (snd x) (snd y)) its r'"
        by (rule list_all2_mono [OF IH [THEN conjunct2, THEN conjunct2, THEN conjunct2, THEN conjunct1]]) auto
      then show ?thesis using res m IH rr by auto
    qed
  qed
qed simp

lemma mget_set_key: "mget (mset_key (PStr a) v d) b = (if a = b then Some v else mget d b)"
  by (simp add: mset_key_def mget_def update_conv')

lemma recovered_fields:
  assumes "recovered_record i raw d"
  shows "record_status d x = PStr ''failed''" "mget d ''error'' = Some (PStr ''orphaned_run'')" "mget d ''retryable'' = Some (PBool True)"
    "mget d ''attempt'' = Some (mget_or raw ''attempt'' (PInt 0))" "mget d ''max_attempts'' = Some (mget_or raw ''max_attempts'' (PInt 1))"
    "record_status raw PNone = PStr ''running''"
proof -
  obtain l l' now timeout where l: "record_lifecycle i raw = Inr l" and o: "recover_orphan l now timeout = Inr (l', True)"
    and d: "d = keep_numbers [''heartbeat'', ''started_at''] raw (life_snapshot l')" and run: "record_status raw PNone = PStr ''running''"
    using assms by (auto simp: recovered_record_def)
  have snap: "mget (value_snapshot i raw) k = mget raw k" if "k \<notin> {''task_id'', ''status''}" for k
    using that by (auto simp: value_snapshot_def mset_default_def mhas_def mget_def map_add_def split: option.split)
  show "record_status raw PNone = PStr ''running''" by (rule run)
  show "record_status d x = PStr ''failed''" "mget d ''error'' = Some (PStr ''orphaned_run'')" "mget d ''retryable'' = Some (PBool True)"
    "mget d ''attempt'' = Some (mget_or raw ''attempt'' (PInt 0))" "mget d ''max_attempts'' = Some (mget_or raw ''max_attempts'' (PInt 1))"
    using recover_orphan_moved [OF o] record_lifecycle_spec(3,4) [OF l] snap [of "''attempt''"] snap [of "''max_attempts''"]
    by (simp_all add: d keep_numbers_def mget_set_key mget_or_def record_status_def life_snapshot_def str_keyed_def opt_text_def)
qed

lemma writable_get: "json_writable (PDict d) \<Longrightarrow> json_writable v \<Longrightarrow> json_writable (mget_or d k v)"
  by (auto simp: mget_or_def mget_def split: option.split dest!: map_of_SomeD)

lemma writable_default: "json_writable (PDict d) \<Longrightarrow> json_writable v \<Longrightarrow> json_writable (PDict (mset_default k v d))"
  by (auto simp: mset_default_def)

lemma writable_snapshot:
  assumes "json_writable (PDict d)"
  shows "json_writable (PDict (value_snapshot i d))"
proof (cases "mget (mset_default ''task_id'' (PStr i) d) ''state''")
  case None
  then show ?thesis using writable_default [OF assms, of "PStr i"] by (simp add: value_snapshot_def Let_def)
next
  case (Some x)
  have t: "json_writable (PDict (mset_default ''task_id'' (PStr i) d))" by (rule writable_default [OF assms]) simp
  have "json_writable x" using writable_get [OF t, of PNone "''state''"] Some by (simp add: mget_or_def)
  then show ?thesis using writable_default [OF t] Some by (simp add: value_snapshot_def Let_def)
qed

lemma writable_update: "json_writable (PDict d) \<Longrightarrow> json_writable v \<Longrightarrow> json_writable (PDict (mset_key (PStr k) v d))"
proof -
  have "kv \<in> set (AList.update (PStr k) v d) \<Longrightarrow> kv = (PStr k, v) \<or> kv \<in> set d" for kv
    by (induction d) (auto split: if_splits)
  then show "json_writable (PDict d) \<Longrightarrow> json_writable v \<Longrightarrow> json_writable (PDict (mset_key (PStr k) v d))"
    by (fastforce simp: mset_key_def)
qed

lemma writable_opt: "json_writable (opt_text x)" "json_writable (opt_num y)"
  by (simp_all add: opt_text_def opt_num_def split: option.split)

lemma writable_life: "json_writable (lc_outputs l) \<Longrightarrow> json_writable (lc_evidence l) \<Longrightarrow> json_writable (lc_final_report l) \<Longrightarrow>
    json_writable (PDict (life_snapshot l))"
  by (simp add: life_snapshot_def str_keyed_def history_dict_def writable_opt)

lemma recovered_valid:
  assumes rr: "recovered_record i raw d" and ok: "lifecycle_record_ok (i, raw)" and w: "json_writable (PDict raw)"
  shows "lifecycle_record_ok (i, d) \<and> json_writable (PDict d)"
proof
  obtain l l' now timeout where l: "record_lifecycle i raw = Inr l" and o: "recover_orphan l now timeout = Inr (l', True)"
    and d: "d = keep_numbers [''heartbeat'', ''started_at''] raw (life_snapshot l')"
    using rr by (auto simp: recovered_record_def)
  note spec = record_lifecycle_spec [OF l] and moved = recover_orphan_moved [OF o]
  have "mget (value_snapshot i raw) ''task_id'' = Some (mget_or raw ''task_id'' (PStr i))"
    by (auto simp: value_snapshot_def mset_default_def mhas_def mget_def mget_or_def map_add_def split: option.split)
  then have tid: "lc_task_id l' = i"
    using spec(2) moved(7) ok by (auto simp: mget_or_def lifecycle_record_ok_def id_field_ok_def split: option.split_asm)
  have real: "is_real_or_none (opt_num x)" for x by (cases x) (simp_all add: opt_num_def is_real_or_none_def)
  have nums: "is_real_or_none (mget_or raw k PNone)" if "k \<in> {''heartbeat'', ''started_at''}" for k
    using ok that by (auto simp: lifecycle_record_ok_def lifecycle_fields_ok_def)
  have fields: "mget d ''heartbeat'' = Some (mget_or raw ''heartbeat'' PNone)" "mget d ''started_at'' = Some (mget_or raw ''started_at'' PNone)"
    "mget d ''finished_at'' = Some (opt_num (lc_finished_at l'))" "mget d ''attempt'' = Some (PInt (lc_attempt l'))"
    "mget d ''max_attempts'' = Some (PInt (lc_max_attempts l'))" "mget d ''task_id'' = Some (PStr i)"
    by (simp_all add: d keep_numbers_def mget_set_key life_snapshot_def str_keyed_def tid)
  show "lifecycle_record_ok (i, d)"
    using ok spec(8,9,10) moved recovered_fields(1,3) [OF rr] fields nums real
    by (auto simp: lifecycle_record_ok_def id_field_ok_def status_ok_def lifecycle_fields_ok_def int_field_def all_states_def mget_or_def)
  have "json_writable (PDict (life_snapshot l'))"
    using writable_get [OF writable_snapshot [OF w]] spec(5,6,7) moved by (intro writable_life) simp_all
  then show "json_writable (PDict d)"
    using writable_get [OF w] by (simp add: d keep_numbers_def writable_update del: json_writable.simps(1))
qed

lemma writable_checkpoint: "json_writable (checkpoint_value c) \<longleftrightarrow> json_writable (cp_schema_version c) \<and> json_writable (cp_feature c)
    \<and> json_writable (cp_wave c) \<and> list_all (\<lambda>kt. json_writable (snd kt)) (cp_tasks c)
    \<and> list_all (\<lambda>kd. json_writable (PDict (snd kd))) (cp_lifecycle c) \<and> json_writable (cp_reports c) \<and> json_writable (cp_evidence c)
    \<and> json_writable (cp_blockers c) \<and> json_writable (cp_created_at c)"
  by (simp add: checkpoint_value_def str_keyed_def list_all_iff) auto

lemma recover_valid:
  assumes "checkpoint_valid c" and "cp_recover_orphans now timeout c = Inr (c', ids)"
  shows "checkpoint_valid c'"
proof -
  obtain r where r: "recover_records now timeout (cp_lifecycle c) = Inr (r, ids)" and c': "c' = c\<lparr>cp_lifecycle := r\<rparr>"
    using assms(2) by (auto simp: cp_recover_orphans_def result_simps)
  have rel: "list_all2 (\<lambda>x y. y = x \<or> fst x \<in> set ids \<and> recovered_record (fst x) (snd x) (snd y)) (cp_lifecycle c) r"
    and keys: "map fst r = map fst (cp_lifecycle c)"
    using recover_records_spec [OF r] by blast+
  have "lifecycle_record_ok y \<and> json_writable (PDict (snd y))" if "y \<in> set r" for y
  proof -
    from that obtain n where n: "n < length r" "r ! n = y" unfolding in_set_conv_nth by blast
    let ?x = "cp_lifecycle c ! n"
    have len: "length r = length (cp_lifecycle c)" using list_all2_lengthD [OF rel] by simp
    have same: "fst y = fst ?x" using keys n len by (metis nth_map)
    have x: "lifecycle_record_ok ?x" "json_writable (PDict (snd ?x))"
      using assms(1) n len by (auto simp: checkpoint_valid_def writable_checkpoint list_all_length simp del: json_writable.simps)
    have "y = ?x \<or> recovered_record (fst ?x) (snd ?x) (snd y)" using list_all2_nthD2 [OF rel n(1)] n(2) by auto
    then show ?thesis
    proof
      assume "recovered_record (fst ?x) (snd ?x) (snd y)"
      then show ?thesis using recovered_valid [of "fst ?x" "snd ?x" "snd y"] x same by (metis prod.collapse)
    qed (use x in simp)
  qed
  then show ?thesis
    using assms(1) unfolding c' checkpoint_valid_def writable_checkpoint by (auto simp: list_all_iff simp del: json_writable.simps)
qed

lemma dget_rel:
  assumes "list_all2 P its r" and "map fst r = map fst its"
  shows "dget its i = None \<and> dget r i = None \<or> (\<exists>x y. dget its i = Some x \<and> dget r i = Some y \<and> P (i, x) (i, y))"
  using assms by (induction rule: list_all2_induct) (fastforce simp: dict_simps split: if_split_asm)+

lemma dget_member: "dict_wf d \<Longrightarrow> x \<in> set d \<Longrightarrow> dget d (fst x) = Some (snd x)"
  by (simp add: dict_wf_def dget_def dkeys_def)

lemma recover_records_dget:
  assumes wf: "dict_wf its" and r: "recover_records now timeout its = Inr (r, ids)"
  shows "i \<notin> set ids \<Longrightarrow> dget r i = dget its i"
    "i \<in> set ids \<Longrightarrow> \<exists>raw d. dget its i = Some raw \<and> dget r i = Some d \<and> recovered_record i raw d"
proof -
  note spec = recover_records_spec [OF r]
  show "i \<notin> set ids \<Longrightarrow> dget r i = dget its i"
    using dget_rel [OF spec [THEN conjunct2, THEN conjunct2, THEN conjunct2, THEN conjunct1] spec [THEN conjunct1], of i] by auto
  assume "i \<in> set ids"
  then obtain x y where x: "x \<in> set its" "fst x = i" and y: "y \<in> set r" "fst y = i" "recovered_record i (snd x) (snd y)"
    using spec by blast
  have "dict_wf r" using wf spec by (simp add: dict_wf_def dkeys_def)
  then show "\<exists>raw d. dget its i = Some raw \<and> dget r i = Some d \<and> recovered_record i raw d"
    using dget_member [OF wf x(1)] dget_member [of r y] y x(2) by auto
qed

text \<open>
  C32: recovery of orphaned tasks. On a valid checkpoint it touches exactly the records it reports: each was
  running and becomes a retryable failure with the error \<open>orphaned_run\<close> and the same attempt. Every other
  record, the list of completed tasks and the list of tasks to resume stay as they are, and the result is
  again a valid checkpoint.
\<close>

theorem recovery_exact:
  assumes "checkpoint_valid c" and "dict_wf (cp_lifecycle c)" and "cp_recover_orphans now timeout c = Inr (c', ids)"
  shows "checkpoint_valid c' \<and> cp_completed_tasks c' = cp_completed_tasks c \<and> cp_resume_tasks c' = cp_resume_tasks c \<and>
    (\<forall>i. i \<notin> set ids \<longrightarrow> dget (cp_lifecycle c') i = dget (cp_lifecycle c) i) \<and>
    (\<forall>i \<in> set ids. \<exists>raw d. dget (cp_lifecycle c) i = Some raw \<and> dget (cp_lifecycle c') i = Some d \<and>
       record_status raw PNone = PStr ''running'' \<and> record_status d PNone = PStr ''failed'' \<and>
       mget d ''error'' = Some (PStr ''orphaned_run'') \<and> mget d ''retryable'' = Some (PBool True) \<and>
       mget d ''attempt'' = Some (mget_or raw ''attempt'' (PInt 0)))"
proof -
  obtain r where r: "recover_records now timeout (cp_lifecycle c) = Inr (r, ids)" and c': "c' = c\<lparr>cp_lifecycle := r\<rparr>"
    using assms(3) by (auto simp: cp_recover_orphans_def result_simps)
  note rest = recover_records_dget(1) [OF assms(2) r] and rec = recover_records_dget(2) [OF assms(2) r]
  have keys: "dkeys r = dkeys (cp_lifecycle c)" using recover_records_spec [OF r] by (simp add: dkeys_def)
  have status: "task_status_of c' i x = task_status_of c i x \<or> task_status_of c' i x = PStr ''failed'' \<and> task_status_of c i x = PStr ''running''" for i x
  proof (cases "i \<in> set ids")
    case True
    then obtain raw d where d: "dget (cp_lifecycle c) i = Some raw" "dget r i = Some d" "recovered_record i raw d" using rec by blast
    have "record_status raw x = PStr ''running''"
      using recovered_fields(6) [OF d(3)] by (auto simp: record_status_def mget_or_def split: option.split_asm)
    then show ?thesis using d recovered_fields(1) [OF d(3)] by (simp add: c' task_status_of_def)
  next
    case False
    have "cp_tasks c' = cp_tasks c" "dget (cp_lifecycle c') i = dget (cp_lifecycle c) i" using rest [OF False] by (simp_all add: c')
    then show ?thesis unfolding task_status_of_def by (simp only:) simp
  qed
  have same: "task_status_of c' i x = s \<longleftrightarrow> task_status_of c i x = s" if "s \<notin> {PStr ''failed'', PStr ''running''}" for i x s
    using status [of i x] that by auto
  have comp: "cp_completed_tasks c' = cp_completed_tasks c"
    by (simp add: cp_completed_tasks_def same) (simp add: c' keys)
  have "hashable (task_status_of c' i x) = hashable (task_status_of c i x)" for i x using status [of i x] by auto
  then have "cp_resume_tasks c' = cp_resume_tasks c"
    by (simp add: cp_resume_tasks_def comp same Let_def) (simp add: c')
  moreover have "\<exists>raw d. dget (cp_lifecycle c) i = Some raw \<and> dget (cp_lifecycle c') i = Some d \<and>
       record_status raw PNone = PStr ''running'' \<and> record_status d PNone = PStr ''failed'' \<and>
       mget d ''error'' = Some (PStr ''orphaned_run'') \<and> mget d ''retryable'' = Some (PBool True) \<and>
       mget d ''attempt'' = Some (mget_or raw ''attempt'' (PInt 0))" if i: "i \<in> set ids" for i
  proof -
    obtain raw d where d: "dget (cp_lifecycle c) i = Some raw" "dget r i = Some d" "recovered_record i raw d" using rec [OF i] by blast
    show ?thesis using d recovered_fields [OF d(3)] by (intro exI [of _ raw] exI [of _ d]) (simp add: c')
  qed
  moreover have "dget (cp_lifecycle c') i = dget (cp_lifecycle c) i" if "i \<notin> set ids" for i using rest [OF that] by (simp add: c')
  ultimately show ?thesis using recover_valid [OF assms(1,3)] comp by blast
qed

definition demo_checkpoint :: checkpoint where
  "demo_checkpoint = \<lparr>cp_schema_version = PInt 1, cp_feature = PStr ''f'', cp_wave = PInt 1,
     cp_tasks = [(''a'', PDict [(PStr ''id'', PStr ''a'')])],
     cp_lifecycle = [(''a'', [(PStr ''status'', PStr ''running''), (PStr ''attempt'', PInt 1), (PStr ''heartbeat'', PInt 5)])],
     cp_reports = PList [], cp_evidence = PList [], cp_blockers = PList [], cp_created_at = PStr ''t''\<rparr>"

theorem recovery_exact_witness:
  "\<exists>c' ids. cp_recover_orphans 400 300 demo_checkpoint = Inr (c', ids) \<and> ids = [''a''] \<and> checkpoint_valid c'
     \<and> cp_completed_tasks c' = []"
proof -
  have "checkpoint_valid demo_checkpoint" "dict_wf (cp_lifecycle demo_checkpoint)" "cp_completed_tasks demo_checkpoint = []"
    "map_sum id snd (cp_recover_orphans 400 300 demo_checkpoint) = Inr [''a'']"
    by code_simp+
  then show ?thesis using recovery_exact [of demo_checkpoint 400 300]
    by (cases "cp_recover_orphans 400 300 demo_checkpoint") auto
qed

end
