(* ===== verification/CheckpointCrash.thy ===== *)
theory CheckpointCrash
  imports CheckpointProperties
begin

text \<open>
  The two files of a run under saves and crashes: what a load returns, and what a save accepts although no
  load reads it.
\<close>

section \<open>The two files\<close>

text \<open>
  A run of the store: saves by anyone, each of which may stop after any of its renames. The history lists
  the envelopes that landed, newest first, as they are read back. A save does not apply the validation of
  a load, so a landed envelope need not be acceptable.
\<close>

type_synonym cp_config = "cp_disk \<times> pymap list"

inductive cp_store_step :: "cp_env \<Rightarrow> string \<Rightarrow> cp_config \<Rightarrow> cp_config \<Rightarrow> bool" for env rid where
  do_save: "cp_save env rid a plan g d = Inr (e, ds) \<Longrightarrow> json_reread (ce_rep env) (PDict e) = Some (PDict v) \<Longrightarrow>
     d' \<in> set ds \<Longrightarrow> cp_store_step env rid (d, hist) (d', if d' = last ds then v # hist else hist)"

definition cp_empty :: cp_disk where
  "cp_empty = \<lparr>cd_link = False, cd_target = CpMissing, cd_backup = CpMissing\<rparr>"

definition acceptable :: "cp_env \<Rightarrow> string \<Rightarrow> pymap \<Rightarrow> bool" where
  "acceptable env rid v \<longleftrightarrow> envelope_valid env rid None (PDict v)"

text \<open>
  The files hold the newest envelope and the one before it; between the two renames of a save the newest
  is in the backup, alone.
\<close>

definition disk_ok :: "cp_disk \<Rightarrow> pymap list \<Rightarrow> bool" where
  "disk_ok d hist \<longleftrightarrow> \<not> cd_link d \<and> (case hist of
     [] \<Rightarrow> cd_target d = CpMissing \<and> cd_backup d = CpMissing
   | v # older \<Rightarrow> cd_target d = CpMissing \<and> cd_backup d = CpJson (PDict v)
       \<or> cd_target d = CpJson (PDict v) \<and> cd_backup d = (case older of [] \<Rightarrow> CpMissing | w # _ \<Rightarrow> CpJson (PDict w)))"

text \<open>An acceptable envelope is older than the one that was saved over it.\<close>

definition newer_ok :: "cp_env \<Rightarrow> string \<Rightarrow> pymap \<Rightarrow> pymap \<Rightarrow> bool" where
  "newer_ok env rid v w \<longleftrightarrow> (acceptable env rid w \<longrightarrow> env_generation w < env_generation v)"

lemma candidate_simps [simp]: "candidate env rid x CpMissing = None"
  "candidate env rid None (CpJson (PDict v)) = (if acceptable env rid v then Some v else None)"
  by (simp_all add: candidate_def acceptable_def)

lemma candidates_alt: "candidates env rid x d = (case candidate env rid x (cd_target d) of None \<Rightarrow> [] | Some v \<Rightarrow> [v])
    @ (case candidate env rid x (cd_backup d) of None \<Rightarrow> [] | Some v \<Rightarrow> [v])"
  by (simp add: candidates_def map_filter_simps split: option.split)

text \<open>The envelopes that are still in the files.\<close>

definition held :: "cp_disk \<Rightarrow> pymap list \<Rightarrow> pymap list" where
  "held d hist = take (if cd_target d = CpMissing then 1 else 2) hist"

lemma disk_ok_candidates: "disk_ok d hist \<Longrightarrow> candidates env rid None d = filter (acceptable env rid) (held d hist)"
  by (auto simp: disk_ok_def candidates_alt held_def numeral_2_eq_2 split: list.split_asm)

lemma disk_ok_newest:
  assumes "disk_ok d hist" and "successively (newer_ok env rid) hist"
  shows "newest (candidates env rid None d) = find (acceptable env rid) (held d hist)"
proof (cases hist)
  case (Cons v older)
  then show ?thesis using assms(2)
    by (cases older) (auto simp: disk_ok_candidates [OF assms(1)] held_def newest_def newer_ok_def numeral_2_eq_2)
qed (simp add: disk_ok_candidates [OF assms(1)] held_def newest_def)

lemma seal_dict: "cp_seal env rid c plan g = Inr e \<Longrightarrow> str_dict e \<and> mget e ''generation'' = Some (PInt g)"
  by (auto simp: cp_seal_def result_simps Let_def envelope_body_def str_keyed_def str_dict_def split: if_split_asm option.split_asm)

lemma save_parts:
  assumes "cp_save env rid a plan g d = Inr (e, ds)" and "json_reread (ce_rep env) (PDict e) = Some (PDict v)"
  shows "ds = save_states d (PDict v)" "env_generation v = g" "\<forall>x \<in> set (candidates env rid None d). env_generation x < g"
    "cd_target d \<noteq> CpSymlink"
proof -
  obtain c where c: "cp_seal env rid c plan g = Inr e" and rest: "ds = save_states d (PDict v)"
    "\<not> list_ex (\<lambda>x. g \<le> env_generation x) (candidates env rid None d)" "cd_target d \<noteq> CpSymlink"
    using assms by (auto simp: cp_save_def result_simps split: option.split_asm if_split_asm)
  have sd: "str_dict e" and g: "mget e ''generation'' = Some (PInt g)" using seal_dict [OF c] by auto
  have v: "v = reread_items (ce_rep env) e" using assms(2) reread_dict [OF sd, of "ce_rep env"] by (auto split: if_split_asm)
  show "env_generation v = g" by (simp add: v env_generation_def mget_or_def reread_mget [OF sd] g)
  show "ds = save_states d (PDict v)" "\<forall>x \<in> set (candidates env rid None d). env_generation x < g" "cd_target d \<noteq> CpSymlink"
    using rest by (auto simp: list_ex_iff not_le)
qed

lemma save_disk_ok:
  assumes ok: "disk_ok d hist" and save: "cp_save env rid a plan g d = Inr (e, ds)"
    and v: "json_reread (ce_rep env) (PDict e) = Some (PDict v)" and d': "d' \<in> set ds"
  shows "disk_ok d' (if d' = last ds then v # hist else hist)"
    and "hist \<noteq> [] \<Longrightarrow> newer_ok env rid v (hd hist)"
proof -
  note parts = save_parts [OF save v]
  have "newer_ok env rid v (hd hist)" if "hist \<noteq> []"
    using parts(2,3) that unfolding disk_ok_candidates [OF ok] by (cases hist) (auto simp: newer_ok_def held_def)
  then show "hist \<noteq> [] \<Longrightarrow> newer_ok env rid v (hd hist)" .
  let ?d1 = "if cd_target d = CpMissing then d else d\<lparr>cd_backup := cd_target d, cd_target := CpMissing\<rparr>"
  have ds: "ds = [d, ?d1, ?d1\<lparr>cd_target := CpJson (PDict v)\<rparr>]" using parts(1) by (simp add: save_states_def Let_def)
  have d1: "disk_ok ?d1 hist" using ok by (auto simp: disk_ok_def split: list.split_asm)
  have last: "disk_ok (?d1\<lparr>cd_target := CpJson (PDict v)\<rparr>) (v # hist)"
    using ok by (auto simp: disk_ok_def split: list.split_asm)
  show "disk_ok d' (if d' = last ds then v # hist else hist)" using d' ok d1 last by (auto simp: ds)
qed

definition cp_start :: "cp_config \<Rightarrow> bool" where
  "cp_start c \<longleftrightarrow> c = (cp_empty, [])"

definition cp_inv :: "cp_env \<Rightarrow> string \<Rightarrow> cp_config \<Rightarrow> bool" where
  "cp_inv env rid c \<longleftrightarrow> disk_ok (fst c) (snd c) \<and> successively (newer_ok env rid) (snd c)"

lemma cp_step_inv:
  assumes "cp_inv env rid c" and "cp_store_step env rid c c'"
  shows "cp_inv env rid c'"
  using assms(2)
proof cases
  case (do_save a plan g d e ds v d' hist)
  have ok: "disk_ok d hist" "successively (newer_ok env rid) hist"
    using assms(1) do_save(1) by (simp_all add: cp_inv_def)
  note saved = save_disk_ok [OF ok(1) do_save(3,4,5)]
  have "successively (newer_ok env rid) (v # hist)" using saved(2) ok(2) by (cases hist) simp_all
  then show ?thesis using saved(1) ok(2) do_save(2) by (simp add: cp_inv_def)
qed

interpretation cps: invariant_system cp_start "cp_store_step env rid" "cp_inv env rid" for env rid
proof
  show "cp_start s \<Longrightarrow> cp_inv env rid s" for s by (simp add: cp_start_def cp_inv_def disk_ok_def cp_empty_def)
qed (rule cp_step_inv)

lemma acceptable_sorted:
  assumes "successively (newer_ok env rid) hist" and "list_all (acceptable env rid) hist"
  shows "sorted_wrt (\<lambda>x y. env_generation y < env_generation x) hist"
proof -
  have "successively (\<lambda>x y. env_generation y < env_generation x) hist"
    using assms by (induction hist rule: induct_list012) (auto simp: newer_ok_def)
  then show ?thesis by (subst (asm) successively_iff_sorted_wrt_strong) (auto intro: order_less_trans)
qed

text \<open>
  C33: the two files of a checkpoint under any sequence of saves, each of which may crash between its
  renames, acceptable to a load or not. A load returns the first acceptable one among the envelopes still in
  the files: the two that landed last, or only the last one after a crash between the renames. So an
  acceptable envelope is returned from the moment it lands until the next one lands. If every envelope that
  landed is acceptable, their generations grow strictly. A save whose generation is not larger than that of
  the envelope a load returns is refused.
\<close>

theorem checkpoint_atomic:
  assumes "(cp_store_step env rid)\<^sup>*\<^sup>* (cp_empty, []) (d, hist)" and "cp_safe_id rid"
  shows "cp_load env rid None None d =
      (case find (acceptable env rid) (take (if cd_target d = CpMissing then 1 else 2) hist) of
         None \<Rightarrow> Inl CheckpointError | Some v \<Rightarrow> Inr v) \<and>
    (hist \<noteq> [] \<and> acceptable env rid (hd hist) \<longrightarrow> cp_load env rid None None d = Inr (hd hist)) \<and>
    (list_all (acceptable env rid) hist \<longrightarrow> sorted_wrt (\<lambda>x y. env_generation y < env_generation x) hist) \<and>
    (\<forall>v a plan g. cp_load env rid None None d = Inr v \<and> g \<le> env_generation v \<longrightarrow> \<not> isOK (cp_save env rid a plan g d))"
proof -
  have "cp_inv env rid (cp_empty, [])" by (rule cps.inv_start) (simp add: cp_start_def)
  from cps.reachable_from_inv [OF assms(1) this]
  have inv: "disk_ok d hist" "successively (newer_ok env rid) hist" by (simp_all add: cp_inv_def)
  have load: "cp_load env rid None None d =
      (case find (acceptable env rid) (held d hist) of None \<Rightarrow> Inl CheckpointError | Some v \<Rightarrow> Inr v)"
    using inv(1) assms(2) by (simp add: cp_load_def cp_paths_def disk_ok_newest [OF inv] disk_ok_def split: option.split)
  have newest: "cp_load env rid None None d = Inr (hd hist)" if "hist \<noteq> []" "acceptable env rid (hd hist)"
    using that unfolding load by (cases hist) (simp_all add: held_def)
  have "\<not> isOK (cp_save env rid a plan g d)" if l: "cp_load env rid None None d = Inr v" and g: "g \<le> env_generation v" for v a plan g
  proof -
    have "v \<in> set (candidates env rid None d)"
      using l unfolding load disk_ok_candidates [OF inv(1)] by (auto simp: find_Some_iff split: option.split_asm)
    then have "list_ex (\<lambda>x. g \<le> env_generation x) (candidates env rid None d)" using g by (auto simp: list_ex_iff)
    then show ?thesis by (auto simp: cp_save_def isOK_def result_simps split: option.split sum.split)
  qed
  then show ?thesis using load newest acceptable_sorted [OF inv(2)] unfolding held_def by blast
qed

definition demo_cp_env :: cp_env where
  "demo_cp_env = \<lparr>ce_rep = (\<lambda>_. ''0''), ce_sha = (\<lambda>_. ''h''), ce_now = None\<rparr>"

definition small_checkpoint :: checkpoint where
  "small_checkpoint = demo_checkpoint\<lparr>cp_tasks := [], cp_lifecycle := []\<rparr>"

definition demo_hash :: string where
  "demo_hash = replicate 64 CHR ''0''"

definition saved_value :: "cp_env \<Rightarrow> checkpoint \<Rightarrow> int \<Rightarrow> cp_disk \<Rightarrow> (pymap \<times> pymap \<times> cp_disk list) option" where
  "saved_value env c g d = (case cp_save env ''r'' (CpObject c) demo_hash g d of Inl x \<Rightarrow> None | Inr (e, ds) \<Rightarrow>
     (case json_reread (ce_rep env) (PDict e) of Some (PDict v) \<Rightarrow> Some (e, v, ds) | _ \<Rightarrow> None))"

lemma demo_saved:
  obtains e v ds where "cp_save demo_cp_env ''r'' (CpObject small_checkpoint) demo_hash 1 cp_empty = Inr (e, ds)"
    "json_reread (ce_rep demo_cp_env) (PDict e) = Some (PDict v)" "envelope_valid demo_cp_env ''r'' None (PDict v)" "ds = save_states cp_empty (PDict v)"
proof -
  have "(case saved_value demo_cp_env small_checkpoint 1 cp_empty of None \<Rightarrow> False | Some (e, v, ds) \<Rightarrow> envelope_valid demo_cp_env ''r'' None (PDict v))"
    by code_simp
  then obtain e v ds where s: "saved_value demo_cp_env small_checkpoint 1 cp_empty = Some (e, v, ds)" "envelope_valid demo_cp_env ''r'' None (PDict v)"
    by (auto split: option.split_asm)
  then have "cp_save demo_cp_env ''r'' (CpObject small_checkpoint) demo_hash 1 cp_empty = Inr (e, ds)"
    "json_reread (ce_rep demo_cp_env) (PDict e) = Some (PDict v)"
    by (auto simp: saved_value_def split: sum.split_asm prod.split_asm option.split_asm pyval.split_asm)
  with s(2) save_parts(1) [OF this] that show thesis by blast
qed

theorem checkpoint_atomic_witness:
  "\<exists>d v. (cp_store_step demo_cp_env ''r'')\<^sup>*\<^sup>* (cp_empty, []) (d, [v]) \<and> cp_load demo_cp_env ''r'' None None d = Inr v"
proof -
  obtain e v ds where s: "cp_save demo_cp_env ''r'' (CpObject small_checkpoint) demo_hash 1 cp_empty = Inr (e, ds)"
    "json_reread (ce_rep demo_cp_env) (PDict e) = Some (PDict v)" "envelope_valid demo_cp_env ''r'' None (PDict v)" "ds = save_states cp_empty (PDict v)"
    by (rule demo_saved)
  have "last ds \<in> set ds" by (simp add: s(4) save_states_def Let_def)
  from do_save [OF s(1,2) this, of "[]"] have "(cp_store_step demo_cp_env ''r'')\<^sup>*\<^sup>* (cp_empty, []) (last ds, [v])" by auto
  moreover have "cp_safe_id ''r''" by (simp add: cp_safe_id_def)
  ultimately show ?thesis
    using checkpoint_atomic [of demo_cp_env "''r''" "last ds" "[v]"] s(3) by (auto simp: acceptable_def)
qed

section \<open>Saves that cannot be read back\<close>

text \<open>
  Saving does not apply the validation of a load. A report with a field \<open>wave\<close>, as the orchestrator writes
  them, is saved with success, but every load refuses the file; a crash of the next save, which renames the
  refused file over the backup, then leaves no readable file although an earlier save was good.
\<close>

lemma wave_report_refused:
  assumes "as_mapping v = Some d" and "mget d ''reports'' = Some (PList xs)" and "PDict r \<in> set xs" and "mhas r ''wave''"
  shows "\<not> v2_nested v"
proof
  assume "v2_nested v"
  then have "v2_walk (Some CP_REPORT_FIELDS) False (PDict r)"
    using assms(1,2,3) by (fastforce simp: v2_nested_def list_walk_def mget_or_def list_all_iff)
  moreover obtain x where "(PStr ''wave'', x) \<in> set r" using assms(4) by (auto simp: mhas_def mget_def dest: map_of_SomeD)
  ultimately show False by (fastforce simp: CP_REPORT_FIELDS_def)
qed

text \<open>Texts inside tuples are not redacted.\<close>

lemma tuples_not_redacted: "cp_redact (PList [PTuple [PStr s]]) = PList [PTuple [PStr s]]"
  by simp

end
