(* ===== verification/Handoff.thy ===== *)
theory Handoff
  imports Secrets LifecycleValue JsonReread Models
begin

text \<open>
  Handoff artifacts, \<open>scripts/pd_fleet/handoff.py\<close>: the redaction of texts, the lineage, the artifact and its store. The
  store keeps one file per handoff; a file is the JSON value that is read from it, or is broken. Parameters
  are SHA-256 and the text of floats. Symbolic links and directories are not represented.
\<close>

section \<open>Texts and identifiers\<close>

datatype ho_error = HoValueError | HoTypeError

type_synonym 'a hores = "(ho_error, 'a) result"

record ho_env =
  ho_rep :: "rat \<Rightarrow> string"
  ho_sha :: "string \<Rightarrow> string"

definition HO_MAX_ITEMS :: nat where "HO_MAX_ITEMS = 32"
definition HO_MAX_TEXT :: nat where "HO_MAX_TEXT = 2000"
definition HO_MAX_ID :: nat where "HO_MAX_ID = 200"

abbreviation spaces :: regex where "spaces \<equiv> star (Cls is_space)"
abbreviation spaces1 :: regex where "spaces1 \<equiv> plus (Cls is_space)"

definition PROMPT_LIKE :: regex where
  "PROMPT_LIKE = alts [
     seqs [ilit ''ignore'', spaces1, opt (Seq (ilit ''all'') spaces1), ilit ''previous'', spaces1, ilit ''instructions''],
     seqs [ilit ''system'', spaces1, ilit ''prompt''],
     seqs [ilit ''chain'', Cls (one_of ''- _''), ilit ''of'', Cls (one_of ''- _''), ilit ''thought''],
     seqs [ilit ''full'', spaces1, ilit ''prompt''], seqs [ilit ''developer'', spaces1, ilit ''message''],
     seqs [WordBoundary, ilit ''prompt'', WordBoundary, spaces, Cls (one_of '':='')]]"

definition hex_letter :: "char \<Rightarrow> bool" where
  "hex_letter c \<longleftrightarrow> in_range 48 57 c \<or> in_range 97 102 (lower_char c)"

definition OPERATIONAL_HANDLE :: regex where
  "OPERATIONAL_HANDLE = Alt
     (seqs [alts [seqs [WordBoundary, ilit ''pid'', WordBoundary], seqs [ilit ''process'', spaces1, ilit ''id''],
          seqs [ilit ''native'', opt (Cls (one_of ''_ -'')), ilit ''handle''], seqs [WordBoundary, ilit ''handle'', WordBoundary]],
        spaces, opt (Cls (one_of '':=#'')), spaces, Alt (Seq (ilit ''0x'') (plus (Cls hex_letter))) (plus (Cls is_digit))])
     (seqs [WordBoundary, ilit ''0x'', Rep 8 None (Cls hex_letter), WordBoundary])"

definition SECRET_ASSIGNMENT :: regex where
  "SECRET_ASSIGNMENT = seqs [WordBoundary, alts [joined ''api'' ''key'', ilit ''secret'', ilit ''token'', ilit ''password'', ilit ''credential''],
     spaces, Cls (one_of '':='')]"

definition NESTED_PATH :: regex where
  "NESTED_PATH = seqs [Alt Bos (Cls (\<lambda>c. c = CHR ''='' \<or> is_space c)), lit ''/'', plus (Cls (\<lambda>c. \<not> is_space c))]"

text \<open>\<open>isalpha\<close> on code points below 256.\<close>

definition alpha_char :: "char \<Rightarrow> bool" where
  "alpha_char c \<longleftrightarrow> in_range 65 90 c \<or> in_range 97 122 c \<or> (of_char c :: nat) \<in> {170, 181, 186}
     \<or> in_range 192 214 c \<or> in_range 216 246 c \<or> in_range 248 255 c"

definition unsafe_identifier :: "string \<Rightarrow> bool" where
  "unsafe_identifier s \<longleftrightarrow> re_search EXTERNAL_URL s \<or> re_search PROMPT_LIKE s \<or> re_search OPERATIONAL_HANDLE s \<or> re_search SECRET_ASSIGNMENT s
     \<or> list_ex (startswith s) [''/'', [CHR 0x5C], ''~'', ''[PATH'', ''[URL'']
     \<or> 2 \<le> length s \<and> s ! 1 = CHR '':'' \<and> alpha_char (s ! 0) \<or> CHR 0x5C \<in> set s \<or> re_search NESTED_PATH s"

definition below_space :: "char \<Rightarrow> bool" where
  "below_space c \<longleftrightarrow> (of_char c :: nat) < 32"

definition sanitize_text :: "pyval \<Rightarrow> string hores" where
  "sanitize_text v = (case as_str v of None \<Rightarrow> Inl HoValueError | Some s \<Rightarrow>
     if blank s \<or> HO_MAX_TEXT < length s then Inl HoValueError
     else if list_ex (\<lambda>c. c \<noteq> CHR 0x0A \<and> c \<noteq> CHR 0x09 \<and> below_space c) s then Inl HoValueError
     else if re_search PROMPT_LIKE s \<or> re_search OPERATIONAL_HANDLE s then Inl HoValueError
     else let t = strip (redact_sensitive_text (redact_paths (re_sub Eps EXTERNAL_URL ''[URL REDACTED]'' s))) in
       if t = [] then Inl HoValueError else Inr t)"

definition ho_id :: "pyval \<Rightarrow> string hores" where
  "ho_id v = (case as_str v of None \<Rightarrow> Inl HoValueError | Some s \<Rightarrow>
     if blank s \<or> HO_MAX_ID < length s \<or> list_ex below_space s \<or> unsafe_identifier (strip s) then Inl HoValueError else Inr (strip s))"

definition HANDOFF_REASONS :: "string list" where
  "HANDOFF_REASONS = [''retry'', ''fallback'', ''handoff'', ''replan'', ''human_intervention'']"

definition LEGACY_REASONS :: "(string \<times> string) list" where
  "LEGACY_REASONS = [(''worker_lost'', ''fallback''), (''context_exhausted'', ''handoff''), (''phase_boundary'', ''handoff'')]"

text \<open>The members of the enumeration are strings. A value that cannot be hashed raises in the lookup.\<close>

definition ho_reason :: "pyval \<Rightarrow> string hores" where
  "ho_reason v = (if \<not> hashable v then Inl HoTypeError else case as_str v of None \<Rightarrow> Inl HoValueError | Some s \<Rightarrow>
     let r = (case map_of LEGACY_REASONS s of None \<Rightarrow> s | Some t \<Rightarrow> t) in if r \<in> set HANDOFF_REASONS then Inr r else Inl HoValueError)"

definition ho_ref :: "pyval \<Rightarrow> string hores" where
  "ho_ref v = bindR (sanitize_text v) (\<lambda>s. if re_search EXTERNAL_URL s \<or> startswith s ''/'' \<or> startswith s ''~''
     \<or> startswith s ''[PATH REDACTED]'' \<or> startswith s ''[URL REDACTED]'' then Inl HoValueError else Inr s)"

text \<open>The items of an iterable argument; a failing item and an item too many raise the same error.\<close>

fun ho_iter :: "pyval \<Rightarrow> pyval list hores" where
  "ho_iter (PStr s) = Inl HoValueError"
| "ho_iter (PList xs) = Inr xs"
| "ho_iter (PTuple xs) = Inr xs"
| "ho_iter (PDict d) = Inr (map fst d)"
| "ho_iter (PProxy d) = Inr (map fst d)"
| "ho_iter v = Inl HoTypeError"

definition ho_each :: "(pyval \<Rightarrow> string hores) \<Rightarrow> pyval \<Rightarrow> string list hores" where
  "ho_each f v = bindR (ho_iter v) (\<lambda>xs. if HO_MAX_ITEMS < length xs then Inl HoValueError else mapR f xs)"

definition ho_items :: "pyval \<Rightarrow> string list hores" where "ho_items = ho_each sanitize_text"
definition ho_refs :: "pyval \<Rightarrow> string list hores" where "ho_refs = ho_each ho_ref"

section \<open>Safety metadata\<close>

definition SECRET_KEYS :: regex where
  "SECRET_KEYS = alts [ilit ''secret'', ilit ''secrets'', ilit ''token'', ilit ''password'', ilit ''credential'', joined ''api'' ''key'']"

definition metadata_key :: "pyval \<Rightarrow> string option" where
  "metadata_key k = (case as_str k of None \<Rightarrow> None | Some s \<Rightarrow>
     if blank s \<or> HO_MAX_ID < length s \<or> unsafe_identifier s \<or> re_fullmatch SECRET_KEYS (strip s) then None else Some (strip s))"

text \<open>Every refusal is a \<open>ValueError\<close>, so the bound on the number of values is checked first.\<close>

function (sequential) value_count :: "pyval \<Rightarrow> nat" where
  "value_count (PDict d) = Suc (sum_list (map (\<lambda>kv. value_count (snd kv)) d))"
| "value_count (PProxy d) = Suc (sum_list (map (\<lambda>kv. value_count (snd kv)) d))"
| "value_count (PList xs) = Suc (sum_list (map value_count xs))"
| "value_count (PTuple xs) = Suc (sum_list (map value_count xs))"
| "value_count v = 1"
  by pat_completeness auto
termination
  by (relation "measure size")
     (auto dest: py_pair_size size_list_estimation' [of _ _ _ size, OF _ order_refl] simp: less_Suc_eq_le)

definition metadata_items :: "(string \<times> pyval) option list \<Rightarrow> pyval option" where
  "metadata_items its = map_option (\<lambda>xs. PProxy (fold (\<lambda>kv. mset_key (PStr (fst kv)) (snd kv)) xs [])) (those its)"

function (sequential) metadata_value :: "nat \<Rightarrow> pyval \<Rightarrow> pyval option" where
  "metadata_value n (PDict d) = (if 4 < n then None else metadata_items (map (\<lambda>kv. case metadata_key (fst kv) of None \<Rightarrow> None
     | Some k \<Rightarrow> map_option (Pair k) (metadata_value (Suc n) (snd kv))) d))"
| "metadata_value n (PProxy d) = (if 4 < n then None else metadata_items (map (\<lambda>kv. case metadata_key (fst kv) of None \<Rightarrow> None
     | Some k \<Rightarrow> map_option (Pair k) (metadata_value (Suc n) (snd kv))) d))"
| "metadata_value n (PList xs) = (if 4 < n then None else map_option PTuple (those (map (metadata_value (Suc n)) xs)))"
| "metadata_value n (PTuple xs) = (if 4 < n then None else map_option PTuple (those (map (metadata_value (Suc n)) xs)))"
| "metadata_value n (PStr s) = (if 4 < n then None else case sanitize_text (PStr s) of Inl e \<Rightarrow> None | Inr t \<Rightarrow> Some (PStr t))"
| "metadata_value n (PInt m) = (if 4 < n \<or> float_of_int m = None then None else Some (PInt m))"
| "metadata_value n (PFloat f) = (if 4 < n \<or> as_finite f = None then None else Some (PFloat f))"
| "metadata_value n (POther k) = None"
| "metadata_value n v = (if 4 < n then None else Some v)"
  by pat_completeness auto
termination
  by (relation "measure (size \<circ> snd)")
     (auto dest: py_pair_size size_list_estimation' [of _ _ _ size, OF _ order_refl] simp: less_Suc_eq_le)

definition safe_metadata :: "pyval \<Rightarrow> pyval hores" where
  "safe_metadata v = (if HO_MAX_ITEMS < value_count v then Inl HoValueError else case metadata_value 0 v of None \<Rightarrow> Inl HoValueError | Some w \<Rightarrow> Inr w)"

function (sequential) ho_thaw :: "pyval \<Rightarrow> pyval" where
  "ho_thaw (PDict d) = PDict (map (\<lambda>kv. (fst kv, ho_thaw (snd kv))) d)"
| "ho_thaw (PProxy d) = PDict (map (\<lambda>kv. (fst kv, ho_thaw (snd kv))) d)"
| "ho_thaw (PTuple xs) = PList (map ho_thaw xs)"
| "ho_thaw (PList xs) = PList (map ho_thaw xs)"
| "ho_thaw v = v"
  by pat_completeness auto
termination
  by (relation "measure size")
     (auto dest: py_pair_size size_list_estimation' [of _ _ _ size, OF _ order_refl] simp: less_Suc_eq_le)

text \<open>\<open>_freeze\<close>; \<open>None\<close> is a \<open>ValueError\<close>.\<close>

function (sequential) ho_freeze :: "pyval \<Rightarrow> pyval option" where
  "ho_freeze (PDict d) = map_option PProxy (those (map (\<lambda>kv. map_option (Pair (fst kv)) (ho_freeze (snd kv))) d))"
| "ho_freeze (PProxy d) = map_option PProxy (those (map (\<lambda>kv. map_option (Pair (fst kv)) (ho_freeze (snd kv))) d))"
| "ho_freeze (PList xs) = map_option PTuple (those (map ho_freeze xs))"
| "ho_freeze (PTuple xs) = map_option PTuple (those (map ho_freeze xs))"
| "ho_freeze (PFloat f) = (if as_finite f = None then None else Some (PFloat f))"
| "ho_freeze v = Some v"
  by pat_completeness auto
termination
  by (relation "measure size")
     (auto dest: py_pair_size size_list_estimation' [of _ _ _ size, OF _ order_refl] simp: less_Suc_eq_le)

section \<open>Lineage and artifact\<close>

record lineage =
  hl_mission_id :: string
  hl_mission_run_id :: string
  hl_task_id :: string
  hl_source_lane_id :: string
  hl_attempt_id :: string
  hl_session_id :: string
  hl_target_role :: string
  hl_owner_epoch :: int

definition LINEAGE_FIELDS :: "string list" where
  "LINEAGE_FIELDS = [''mission_id'', ''mission_run_id'', ''task_id'', ''source_lane_id'', ''attempt_id'', ''session_id'', ''target_role'', ''owner_epoch'']"

definition epoch_of :: "pyval \<Rightarrow> int hores" where
  "epoch_of v = (case as_int v of None \<Rightarrow> Inl HoValueError | Some n \<Rightarrow> if n < 0 then Inl HoValueError else Inr n)"

text \<open>The arguments come as a dictionary of the fields.\<close>

definition HandoffLineage_new :: "pymap \<Rightarrow> lineage hores" where
  "HandoffLineage_new d = (let field = (\<lambda>k. ho_id (mget_or d k PNone)) in
     if set (map fst d) \<noteq> PStr ` set LINEAGE_FIELDS then Inl HoTypeError else
     bindR (field ''mission_id'') (\<lambda>m. bindR (field ''mission_run_id'') (\<lambda>r. bindR (field ''task_id'') (\<lambda>t. bindR (field ''source_lane_id'') (\<lambda>l.
     bindR (field ''attempt_id'') (\<lambda>a. bindR (field ''session_id'') (\<lambda>s. bindR (field ''target_role'') (\<lambda>role.
     bindR (epoch_of (mget_or d ''owner_epoch'' PNone)) (\<lambda>n.
     Inr \<lparr>hl_mission_id = m, hl_mission_run_id = r, hl_task_id = t, hl_source_lane_id = l, hl_attempt_id = a, hl_session_id = s, hl_target_role = role,
       hl_owner_epoch = n\<rparr>)))))))))"

definition HandoffLineage_to_dict :: "lineage \<Rightarrow> pymap" where
  "HandoffLineage_to_dict l = str_keyed [(''mission_id'', PStr (hl_mission_id l)), (''mission_run_id'', PStr (hl_mission_run_id l)),
     (''task_id'', PStr (hl_task_id l)), (''source_lane_id'', PStr (hl_source_lane_id l)), (''attempt_id'', PStr (hl_attempt_id l)),
     (''session_id'', PStr (hl_session_id l)), (''target_role'', PStr (hl_target_role l)), (''owner_epoch'', PInt (hl_owner_epoch l))]"

record artifact =
  ha_handoff_id :: string
  ha_reason :: string
  ha_summary :: string
  ha_completed :: "string list"
  ha_remaining :: "string list"
  ha_decisions :: "string list"
  ha_risks :: "string list"
  ha_evidence_refs :: "string list"
  ha_next_action :: string
  ha_lineage :: lineage
  ha_safety :: pyval

definition ARTIFACT_FIELDS :: "string list" where
  "ARTIFACT_FIELDS = [''handoff_id'', ''reason'', ''summary'', ''completed'', ''remaining'', ''decisions'', ''risks'', ''evidence_refs'',
     ''next_action'', ''lineage'', ''safety'']"

definition HandoffArtifact_new :: "pymap \<Rightarrow> lineage \<Rightarrow> artifact hores" where
  "HandoffArtifact_new d l = (let v = (\<lambda>k. mget_or d k PNone) in
     bindR (ho_id (v ''handoff_id'')) (\<lambda>i. bindR (ho_reason (v ''reason'')) (\<lambda>r. bindR (sanitize_text (v ''summary'')) (\<lambda>s.
     bindR (sanitize_text (v ''next_action'')) (\<lambda>a. bindR (ho_items (v ''completed'')) (\<lambda>cs. bindR (ho_items (v ''remaining'')) (\<lambda>rs.
     bindR (ho_items (v ''decisions'')) (\<lambda>ds. bindR (ho_items (v ''risks'')) (\<lambda>ks. bindR (ho_refs (v ''evidence_refs'')) (\<lambda>es.
     bindR (guardR (as_mapping (v ''safety'') \<noteq> None) HoValueError) (\<lambda>_. bindR (safe_metadata (v ''safety'')) (\<lambda>m.
     Inr \<lparr>ha_handoff_id = i, ha_reason = r, ha_summary = s, ha_completed = cs, ha_remaining = rs, ha_decisions = ds, ha_risks = ks,
       ha_evidence_refs = es, ha_next_action = a, ha_lineage = l, ha_safety = m\<rparr>))))))))))))"

definition HandoffArtifact_to_dict :: "artifact \<Rightarrow> pymap" where
  "HandoffArtifact_to_dict a = str_keyed [(''handoff_id'', PStr (ha_handoff_id a)), (''reason'', PStr (ha_reason a)), (''summary'', PStr (ha_summary a)),
     (''completed'', strs (ha_completed a)), (''remaining'', strs (ha_remaining a)), (''decisions'', strs (ha_decisions a)), (''risks'', strs (ha_risks a)),
     (''evidence_refs'', strs (ha_evidence_refs a)), (''next_action'', PStr (ha_next_action a)), (''lineage'', PDict (HandoffLineage_to_dict (ha_lineage a))),
     (''safety'', ho_thaw (ha_safety a))]"

definition HandoffArtifact_to_json :: "ho_env \<Rightarrow> artifact \<Rightarrow> string option" where
  "HandoffArtifact_to_json env a = json_text (ho_rep env) (PDict (HandoffArtifact_to_dict a))"

text \<open>The ASCII form of a JSON text: \<open>ensure_ascii\<close>.\<close>

definition ascii_json :: "string \<Rightarrow> string" where
  "ascii_json s = concat (map (\<lambda>c. let n = (of_char c :: nat) in if n < 127 then [c]
     else CHR 0x5C # ''u00'' @ [json_hex (n div 16), json_hex (n mod 16)]) s)"

definition SAFETY :: pyval where
  "SAFETY = PDict (str_keyed [(''external_dispatch'', PBool False), (''secrets_included'', PBool False), (''native_handles_included'', PBool False),
     (''distributed_lease_or_cas'', PBool False)])"

definition create_handoff :: "ho_env \<Rightarrow> pymap \<Rightarrow> pymap \<Rightarrow> artifact hores" where
  "create_handoff env ids args = (let v = (\<lambda>k. mget_or args k PNone) in
     bindR (HandoffLineage_new ids) (\<lambda>l. bindR (ho_reason (v ''reason'')) (\<lambda>r. bindR (ho_refs (v ''evidence_refs'')) (\<lambda>es.
     bindR (guardR (es \<noteq> []) HoValueError) (\<lambda>_.
     case json_text (ho_rep env) (PDict (HandoffLineage_to_dict l @ [(PStr ''reason'', PStr r)])) of None \<Rightarrow> Inl HoValueError | Some t \<Rightarrow>
     bindR (ho_items (v ''completed'')) (\<lambda>cs. bindR (ho_items (v ''remaining'')) (\<lambda>rs. bindR (ho_items (v ''decisions'')) (\<lambda>ds. bindR (ho_items (v ''risks'')) (\<lambda>ks.
     HandoffArtifact_new (str_keyed [(''handoff_id'', PStr (''handoff:'' @ ho_sha env (ascii_json t))), (''reason'', PStr r), (''summary'', v ''summary''),
       (''completed'', strs cs), (''remaining'', strs rs), (''decisions'', strs ds), (''risks'', strs ks), (''evidence_refs'', strs es),
       (''next_action'', v ''next_action''), (''safety'', SAFETY)]) l)))))))))"

definition validate_handoff_epoch :: "artifact \<Rightarrow> pyval \<Rightarrow> bool hores" where
  "validate_handoff_epoch a active = bindR (epoch_of active) (\<lambda>n. Inr (hl_owner_epoch (ha_lineage a) = n))"

definition validate_handoff_ownership :: "artifact \<Rightarrow> pymap \<Rightarrow> bool hores" where
  "validate_handoff_ownership a ids = bindR (HandoffLineage_new (ids @ [(PStr ''target_role'', PStr (hl_target_role (ha_lineage a)))])) (\<lambda>l.
     if ha_lineage a \<noteq> l then Inl HoValueError else Inr True)"

section \<open>The store\<close>

definition HANDOFF_SCHEMA_VERSION :: int where "HANDOFF_SCHEMA_VERSION = 1"

definition SAFE_SEGMENT :: regex where
  "SAFE_SEGMENT = seqs [Bos, Cls ascii_alnum, Rep 0 (Some 199) (Cls (\<lambda>c. ascii_alnum c \<or> one_of ''_.:-'' c)), Dollar]"

definition safe_segment :: "string \<Rightarrow> bool" where
  "safe_segment s \<longleftrightarrow> s \<notin> {''.'', ''..''} \<and> re_fullmatch SAFE_SEGMENT s"

record envelope =
  he_handoff_id :: string
  he_artifact :: artifact
  he_status :: string
  he_evidence_refs :: "string list"
  he_checksum :: string

definition envelope_payload :: "artifact \<Rightarrow> string \<Rightarrow> string list \<Rightarrow> pymap" where
  "envelope_payload a status refs = str_keyed [(''schema_version'', PInt HANDOFF_SCHEMA_VERSION), (''handoff_id'', PStr (ha_handoff_id a)),
     (''artifact'', PDict (HandoffArtifact_to_dict a)), (''status'', PStr status), (''evidence_refs'', strs refs)]"

definition HandoffEnvelope_to_dict :: "envelope \<Rightarrow> pymap" where
  "HandoffEnvelope_to_dict e = str_keyed [(''schema_version'', PInt HANDOFF_SCHEMA_VERSION), (''handoff_id'', PStr (he_handoff_id e)),
     (''artifact'', PDict (HandoffArtifact_to_dict (he_artifact e))), (''status'', PStr (he_status e)), (''evidence_refs'', strs (he_evidence_refs e)),
     (''checksum'', PStr (he_checksum e))]"

text \<open>Equality of envelopes; the read-only mapping of an artifact compares as a mapping.\<close>

definition envelope_eq :: "envelope \<Rightarrow> envelope \<Rightarrow> bool" where
  "envelope_eq e e' \<longleftrightarrow> py_eq (ha_safety (he_artifact e)) (ha_safety (he_artifact e'))
     \<and> e\<lparr>he_artifact := (he_artifact e)\<lparr>ha_safety := PNone\<rparr>\<rparr> = e'\<lparr>he_artifact := (he_artifact e')\<lparr>ha_safety := PNone\<rparr>\<rparr>"

record ho_store =
  hs_run :: string
  hs_owner :: "int option"
  hs_lineage :: "lineage option"

definition HandoffStore_init :: "pyval \<Rightarrow> pyval \<Rightarrow> lineage option \<Rightarrow> ho_store hores" where
  "HandoffStore_init run owner expected = (case as_str run of None \<Rightarrow> Inl HoValueError | Some r \<Rightarrow>
     bindR (guardR (safe_segment r) HoValueError) (\<lambda>_.
     bindR (if owner = PNone then Inr None else bindR (epoch_of owner) (\<lambda>n. Inr (Some n))) (\<lambda>ow.
     bindR (guardR (case expected of None \<Rightarrow> True | Some l \<Rightarrow> hl_mission_run_id l = r \<and> (ow = None \<or> ow = Some (hl_owner_epoch l))) HoValueError) (\<lambda>_.
     Inr \<lparr>hs_run = r, hs_owner = ow, hs_lineage = expected\<rparr>))))"

definition owner_checked :: "ho_store \<Rightarrow> artifact \<Rightarrow> bool" where
  "owner_checked st a \<longleftrightarrow> hl_mission_run_id (ha_lineage a) = hs_run st \<and> (hs_owner st = None \<or> hs_owner st = Some (hl_owner_epoch (ha_lineage a)))
     \<and> (hs_lineage st = None \<or> hs_lineage st = Some (ha_lineage a))"

datatype ho_file = HoJson pyval | HoBroken

definition ENVELOPE_KEYS :: "string list" where
  "ENVELOPE_KEYS = [''schema_version'', ''handoff_id'', ''artifact'', ''status'', ''evidence_refs'', ''checksum'']"

definition has_keys :: "string list \<Rightarrow> pymap \<Rightarrow> bool" where
  "has_keys ks d \<longleftrightarrow> set (map fst d) = PStr ` set ks"

text \<open>\<open>_decode\<close>: every failure is a \<open>ValueError\<close>. Values of \<open>json.loads\<close> are lists and dictionaries.\<close>

definition decode_artifact :: "string \<Rightarrow> pymap \<Rightarrow> artifact option" where
  "decode_artifact i d = (if \<not> has_keys ARTIFACT_FIELDS d \<or> mget d ''handoff_id'' \<noteq> Some (PStr i)
       \<or> list_ex (\<lambda>k. as_plist (mget_or d k PNone) = None) [''completed'', ''remaining'', ''decisions'', ''risks'', ''evidence_refs''] then None
     else case (as_pdict (mget_or d ''lineage'' PNone), as_pdict (mget_or d ''safety'' PNone)) of
       (Some l, Some m) \<Rightarrow> (case HandoffLineage_new l of Inl e \<Rightarrow> None
         | Inr lin \<Rightarrow> (case HandoffArtifact_new d lin of Inl e \<Rightarrow> None | Inr a \<Rightarrow> Some a))
     | _ \<Rightarrow> None)"

definition decode :: "ho_env \<Rightarrow> string \<Rightarrow> ho_file \<Rightarrow> envelope option" where
  "decode env i f = (case f of HoBroken \<Rightarrow> None | HoJson v \<Rightarrow> Option.bind (as_pdict v) (\<lambda>d.
     if \<not> has_keys ENVELOPE_KEYS d then None else let payload = filter (\<lambda>kv. fst kv \<noteq> PStr ''checksum'') d in
     Option.bind (as_str (mget_or d ''checksum'' PNone)) (\<lambda>c. Option.bind (json_text (ho_rep env) (PDict payload)) (\<lambda>t.
     if ho_sha env t \<noteq> c \<or> mget d ''schema_version'' \<noteq> Some (PInt HANDOFF_SCHEMA_VERSION) \<or> mget d ''handoff_id'' \<noteq> Some (PStr i) then None else
     Option.bind (as_plist (mget_or d ''evidence_refs'' PNone)) (\<lambda>rs. if HO_MAX_ITEMS < length rs then None else
     Option.bind (as_pdict (mget_or d ''artifact'' PNone)) (\<lambda>ad. Option.bind (decode_artifact i ad) (\<lambda>a.
     case (sanitize_text (mget_or d ''status'' PNone), mapR ho_ref rs) of
       (Inr s, Inr refs) \<Rightarrow> Some \<lparr>he_handoff_id = i, he_artifact = a, he_status = s, he_evidence_refs = refs, he_checksum = c\<rparr>
     | _ \<Rightarrow> None)))))))"

definition handoff_load :: "ho_env \<Rightarrow> ho_store \<Rightarrow> string \<Rightarrow> ho_file dict \<Rightarrow> envelope hores" where
  "handoff_load env st i files = (if \<not> safe_segment i then Inl HoValueError else case dget files i of None \<Rightarrow> Inl HoValueError | Some f \<Rightarrow>
     (case decode env i f of None \<Rightarrow> Inl HoValueError | Some e \<Rightarrow> if owner_checked st (he_artifact e) then Inr e else Inl HoValueError))"

text \<open>The rename of the temporary file is atomic, so a crash leaves the files as before or as after.\<close>

definition handoff_save :: "ho_env \<Rightarrow> ho_store \<Rightarrow> artifact \<Rightarrow> pyval \<Rightarrow> pyval \<Rightarrow> ho_file dict \<Rightarrow> (envelope \<times> ho_file dict) hores" where
  "handoff_save env st a status refs files = (if \<not> owner_checked st a then Inl HoValueError else
     bindR (sanitize_text status) (\<lambda>s. bindR (ho_refs refs) (\<lambda>rs.
     case json_text (ho_rep env) (PDict (envelope_payload a s rs)) of None \<Rightarrow> Inl HoValueError | Some t \<Rightarrow>
     (let i = ha_handoff_id a; c = ho_sha env t;
        e = \<lparr>he_handoff_id = i, he_artifact = a, he_status = s, he_evidence_refs = rs, he_checksum = c\<rparr> in
      if \<not> safe_segment i then Inl HoValueError else
      case json_reread (ho_rep env) (PDict (envelope_payload a s rs @ [(PStr ''checksum'', PStr c)])) of None \<Rightarrow> Inl HoValueError | Some v \<Rightarrow>
      (case dget files i of
         Some f \<Rightarrow> bindR (handoff_load env st i files) (\<lambda>old. if envelope_eq old e then Inr (old, files) else Inl HoValueError)
       | None \<Rightarrow> Inr (e, dset i (HoJson v) files))))))"

end
