(* ===== verification/FleetEvents.thy ===== *)
theory FleetEvents
  imports JsonReread RegexFast "HOL-Library.Product_Lexorder"
begin

text \<open>
  Fleet events and their log, \<open>scripts/pd_fleet/events.py\<close>: the checks of the envelope and of the payload,
  the frozen copy of a payload, and the append-only file with its limits. The file is the list of its lines;
  a line is the JSON value that is read from it with its size, or is broken. Parameters are the text of
  floats, SHA-256, \<open>datetime.fromisoformat\<close> and the reading of the default clock. The lock serialises appends, so they are atomic steps here,
  and a crash leaves a broken last line.
\<close>

section \<open>Limits and patterns\<close>

datatype ev_error = EventError | EvValueError | EvOverflowError | EvTypeError | EvClockError

type_synonym 'a evres = "(ev_error, 'a) result"

record ev_env =
  ee_rep :: "rat \<Rightarrow> string"
  ee_sha :: "string \<Rightarrow> string"
  ee_iso :: "string \<Rightarrow> bool"
  ee_now :: "string option"

definition EV_MAX_STRING :: nat where "EV_MAX_STRING = 256"
definition EV_MAX_COLLECTION :: nat where "EV_MAX_COLLECTION = 256"
definition EV_MAX_DEPTH :: nat where "EV_MAX_DEPTH = 8"
definition EV_MAX_PAYLOAD :: nat where "EV_MAX_PAYLOAD = 64 * 1024"
definition EV_MAX_EVENTS :: nat where "EV_MAX_EVENTS = 10000"
definition EV_MAX_QUERY :: int where "EV_MAX_QUERY = 1000"
definition EV_MAX_LOG :: nat where "EV_MAX_LOG = 4 * 1024 * 1024"
definition EV_MAX_LINE :: nat where "EV_MAX_LINE = EV_MAX_PAYLOAD + 1024"

definition ev_letter :: "char \<Rightarrow> bool" where
  "ev_letter c \<longleftrightarrow> in_range 65 90 c \<or> in_range 97 122 c"

definition EV_ID :: regex where
  "EV_ID = seqs [Bos, Cls ascii_alnum, Rep 0 (Some 127) (Cls (\<lambda>c. ascii_alnum c \<or> one_of ''_.:-'' c)), Dollar]"

definition has_control :: "string \<Rightarrow> bool" where
  "has_control s \<longleftrightarrow> list_ex (\<lambda>c. in_range 0 31 c \<or> c = CHR 0x7F) s"

definition EV_URL :: regex where
  "EV_URL = alts [seqs [ilit ''http'', opt (ilit ''s''), lit ''://''], ilit ''ftp://'', ilit ''www.'']"

definition EV_ABSOLUTE :: regex where
  "EV_ABSOLUTE = Seq Bos (alts [lit ''/'', seqs [Cls ev_letter, lit '':'', Cls (one_of [CHR 0x5C, CHR ''/''])], lit [CHR 0x5C, CHR 0x5C]])"

definition with_dash :: "string \<Rightarrow> string \<Rightarrow> regex" where
  "with_dash v w = seqs [ilit v, opt (Cls (one_of ''_-'')), ilit w]"

definition THOUGHT :: regex where
  "THOUGHT = (let dot = opt (Cls (\<lambda>c. c \<noteq> CHR 0x0A)) in seqs [ilit ''chain'', dot, ilit ''of'', dot, ilit ''thought''])"

definition EV_SENSITIVE :: regex where
  "EV_SENSITIVE = alts [ilit ''secret'', ilit ''token'', ilit ''password'', ilit ''passwd'', with_dash ''api'' ''key'',
     ilit ''authorization'', ilit ''credential'', ilit ''prompt'', ilit ''cot'', THOUGHT, ilit ''pid'', with_dash ''process'' ''id'',
     ilit ''handle'', ilit ''native'', ilit ''socket'', ilit ''url'', ilit ''uri'', ilit ''path'']"

definition whole :: "regex \<Rightarrow> regex" where
  "whole r = seqs [WordBoundary, r, WordBoundary]"

definition EV_SENSITIVE_VALUE :: regex where
  "EV_SENSITIVE_VALUE = alts [ilit ''secret'', ilit ''password'', with_dash ''api'' ''key'', ilit ''authorization'', THOUGHT,
     whole (ilit ''cot'')]"

definition EV_SENSITIVE_FIELD :: regex where
  "EV_SENSITIVE_FIELD = alts [whole (ilit ''token''), whole (ilit ''password''), whole (ilit ''passwd''), whole (ilit ''credential''),
     whole (ilit ''authorization''), whole (ilit ''prompt''), THOUGHT, whole (ilit ''cot''), whole (ilit ''pid''),
     with_dash ''process'' ''id'', with_dash ''native'' ''handle'', whole (ilit ''handle'')]"

definition digit_run :: "nat \<Rightarrow> regex" where
  "digit_run n = Rep n (Some n) (Cls is_digit)"

definition EV_TIMESTAMP :: regex where
  "EV_TIMESTAMP = seqs [Bos, digit_run 4, lit ''-'', digit_run 2, lit ''-'', digit_run 2, lit ''T'', digit_run 2, lit '':'', digit_run 2,
     lit '':'', digit_run 2, opt (Seq (lit ''.'') (plus (Cls is_digit))),
     Alt (lit ''Z'') (seqs [Cls (one_of ''+-''), digit_run 2, lit '':'', digit_run 2]), Dollar]"

section \<open>Checks of the envelope\<close>

definition ev_string :: "string \<Rightarrow> bool \<Rightarrow> pyval \<Rightarrow> string evres" where
  "ev_string name ident v = (case as_str v of None \<Rightarrow> Inl EventError | Some s \<Rightarrow>
     if s = [] \<or> EV_MAX_STRING < length s \<or> has_control s then Inl EventError
     else if ident \<and> (\<not> re_fullmatch EV_ID s \<or> s \<in> {''.'', ''..''}) then Inl EventError
     else if re_search EV_URL s \<or> re_match EV_ABSOLUTE s then Inl EventError
     else if re_search EV_SENSITIVE_FIELD s
       \<or> (CHR '':'' \<in> set s \<or> CHR ''='' \<in> set s) \<and> (name \<noteq> ''created_at'' \<or> \<not> re_fullmatch EV_TIMESTAMP s) then Inl EventError
     else Inr s)"

text \<open>\<open>math.isfinite\<close> converts an integer to a float, which overflows for huge ones.\<close>

definition ev_number :: "pyval \<Rightarrow> pyval evres" where
  "ev_number v = (case v of
     PInt n \<Rightarrow> if float_of_int n = None then Inl EvOverflowError else if n < 0 then Inl EventError else Inr v
   | PFloat f \<Rightarrow> (case as_finite f of None \<Rightarrow> Inl EventError | Some q \<Rightarrow> if q < 0 then Inl EventError else Inr v)
   | _ \<Rightarrow> Inl EventError)"

definition number_of :: "pyval \<Rightarrow> rat" where
  "number_of v = (case as_number v of Some (Fin q) \<Rightarrow> q | _ \<Rightarrow> 0)"

text \<open>\<open>s[-m:-n]\<close>.\<close>

definition from_end :: "nat \<Rightarrow> nat \<Rightarrow> string \<Rightarrow> string" where
  "from_end m n s = take (length s - n - (length s - m)) (drop (length s - m) s)"

definition zulu_offset :: "string \<Rightarrow> string" where
  "zulu_offset s = concat (map (\<lambda>c. if c = CHR ''Z'' then ''+00:00'' else [c]) s)"

definition ev_created :: "ev_env \<Rightarrow> pyval \<Rightarrow> string evres" where
  "ev_created env v = bindR (ev_string ''created_at'' False v) (\<lambda>s.
     bindR (if endswith s ''Z'' then Inr () else
         case (int_of_text (from_end 6 3 s), int_of_text (from_end 2 0 s)) of
           (Some h, Some m) \<Rightarrow> guardR (\<bar>h\<bar> \<le> 23 \<and> m \<le> 59) EventError
         | _ \<Rightarrow> Inl EvValueError) (\<lambda>_.
     if ee_iso env (zulu_offset s) then Inr s else Inl EventError))"

section \<open>Payloads\<close>

definition payload_key_ok :: "pyval \<Rightarrow> bool" where
  "payload_key_ok k = (case as_str k of None \<Rightarrow> False
     | Some s \<Rightarrow> \<not> (EV_MAX_STRING < length s \<or> has_control s \<or> re_search EV_SENSITIVE s))"

definition payload_text_ok :: "string \<Rightarrow> bool" where
  "payload_text_ok s \<longleftrightarrow> \<not> (EV_MAX_STRING < length s \<or> has_control s \<or> re_search EV_URL s \<or> re_match EV_ABSOLUTE s
     \<or> re_search EV_SENSITIVE_VALUE s)"

definition set_items :: "(pyval \<times> pyval) list \<Rightarrow> pymap" where
  "set_items its = fold (\<lambda>kv. mset_key (fst kv) (snd kv)) its []"

text \<open>\<open>_freeze\<close>: a read-only copy, or \<open>None\<close> for an \<open>EventError\<close>.\<close>

function (sequential) ev_freeze :: "nat \<Rightarrow> pyval \<Rightarrow> pyval option" where
  "ev_freeze n (PStr s) = (if EV_MAX_DEPTH < n \<or> \<not> payload_text_ok s then None else Some (PStr s))"
| "ev_freeze n (PFloat f) = (if EV_MAX_DEPTH < n \<or> as_finite f = None then None else Some (PFloat f))"
| "ev_freeze n (PDict d) = (if EV_MAX_DEPTH < n \<or> EV_MAX_COLLECTION < length d then None else
     map_option (\<lambda>its. PProxy (set_items its)) (those (map (\<lambda>kv. if payload_key_ok (fst kv)
       then map_option (Pair (fst kv)) (ev_freeze (Suc n) (snd kv)) else None) d)))"
| "ev_freeze n (PProxy d) = (if EV_MAX_DEPTH < n \<or> EV_MAX_COLLECTION < length d then None else
     map_option (\<lambda>its. PProxy (set_items its)) (those (map (\<lambda>kv. if payload_key_ok (fst kv)
       then map_option (Pair (fst kv)) (ev_freeze (Suc n) (snd kv)) else None) d)))"
| "ev_freeze n (PList xs) = (if EV_MAX_DEPTH < n \<or> EV_MAX_COLLECTION < length xs then None else
     map_option PTuple (those (map (ev_freeze (Suc n)) xs)))"
| "ev_freeze n (PTuple xs) = (if EV_MAX_DEPTH < n \<or> EV_MAX_COLLECTION < length xs then None else
     map_option PTuple (those (map (ev_freeze (Suc n)) xs)))"
| "ev_freeze n (POther k) = None"
| "ev_freeze n v = (if EV_MAX_DEPTH < n then None else Some v)"
  by pat_completeness auto
termination
  by (relation "measure (size \<circ> snd)")
     (auto dest: py_pair_size size_list_estimation' [of _ _ _ size, OF _ order_refl] simp: less_Suc_eq_le)

definition thaw_key :: "pyval \<Rightarrow> pyval" where
  "thaw_key k = (if as_str k = None then PStr ''[UNSUPPORTED TYPE]'' else k)"

function (sequential) ev_thaw :: "pyval \<Rightarrow> pyval" where
  "ev_thaw (PDict d) = PDict (set_items (map (\<lambda>kv. (thaw_key (fst kv), ev_thaw (snd kv))) d))"
| "ev_thaw (PProxy d) = PDict (set_items (map (\<lambda>kv. (thaw_key (fst kv), ev_thaw (snd kv))) d))"
| "ev_thaw (PTuple xs) = PList (map ev_thaw xs)"
| "ev_thaw v = v"
  by pat_completeness auto
termination
  by (relation "measure size")
     (auto dest: py_pair_size size_list_estimation' [of _ _ _ size, OF _ order_refl] simp: less_Suc_eq_le)

section \<open>Events\<close>

record fleet_event =
  ev_schema :: pyval
  ev_id :: pyval
  ev_run :: pyval
  ev_task :: pyval
  ev_kind :: pyval
  ev_ordering :: pyval
  ev_sequence :: pyval
  ev_owner :: pyval
  ev_payload :: pyval
  ev_created_at :: pyval

definition event_dict :: "fleet_event \<Rightarrow> pymap" where
  "event_dict e = str_keyed [(''schema_version'', ev_schema e), (''event_id'', ev_id e), (''run_id'', ev_run e),
     (''task_id'', ev_task e), (''kind'', ev_kind e), (''ordering_key'', ev_ordering e), (''sequence'', ev_sequence e),
     (''owner_epoch'', ev_owner e), (''payload'', ev_thaw (ev_payload e)), (''created_at'', ev_created_at e)]"

definition utf8_size :: "string \<Rightarrow> nat" where
  "utf8_size s = sum_list (map (\<lambda>c. if (of_char c :: nat) < 128 then 1 else 2) s)"

definition event_text :: "ev_env \<Rightarrow> fleet_event \<Rightarrow> string option" where
  "event_text env e = json_text (ee_rep env) (PDict (event_dict e))"

definition version_ok :: "pyval \<Rightarrow> bool" where
  "version_ok v \<longleftrightarrow> as_bool v = None \<and> as_number v = Some (Fin 1)"

definition envelope_ok :: "fleet_event \<Rightarrow> unit evres" where
  "envelope_ok e = bindR (guardR (version_ok (ev_schema e)) EventError) (\<lambda>_.
     bindR (mapR (\<lambda>(name, ident, v). ev_string name ident v)
       [(''event_id'', True, ev_id e), (''run_id'', True, ev_run e), (''kind'', False, ev_kind e), (''ordering_key'', False, ev_ordering e)]) (\<lambda>_.
     bindR (if ev_task e = PNone then Inr [] else ev_string ''task_id'' True (ev_task e)) (\<lambda>_.
     bindR (ev_number (ev_sequence e)) (\<lambda>_.
     bindR (if ev_owner e = PNone then Inr PNone else ev_number (ev_owner e)) (\<lambda>_. Inr ())))))"

text \<open>\<open>now\<close> is the reading of the clock that an event without \<open>created_at\<close> takes.\<close>

definition FleetEvent_post_init :: "ev_env \<Rightarrow> string option \<Rightarrow> fleet_event \<Rightarrow> fleet_event evres" where
  "FleetEvent_post_init env now e = bindR (envelope_ok e) (\<lambda>_.
     bindR (if truthy (ev_created_at e) then Inr (ev_created_at e) else (case now of None \<Rightarrow> Inl EvClockError | Some t \<Rightarrow> Inr (PStr t))) (\<lambda>created.
     bindR (ev_created env created) (\<lambda>_. case ev_freeze 0 (ev_payload e) of None \<Rightarrow> Inl EventError | Some p \<Rightarrow>
       (let e' = e\<lparr>ev_payload := p, ev_created_at := created\<rparr> in case event_text env e' of None \<Rightarrow> Inl EventError
        | Some t \<Rightarrow> if EV_MAX_PAYLOAD < utf8_size t then Inl EventError else Inr e'))))"

definition EVENT_FIELDS :: "string list" where
  "EVENT_FIELDS = [''schema_version'', ''event_id'', ''run_id'', ''task_id'', ''kind'', ''ordering_key'', ''sequence'', ''owner_epoch'',
     ''payload'', ''created_at'']"

text \<open>The fields of a mapping, with the defaults of the class.\<close>

definition event_of :: "pymap \<Rightarrow> fleet_event" where
  "event_of d = \<lparr>ev_schema = mget_or d ''schema_version'' (PInt 1), ev_id = mget_or d ''event_id'' (PStr []), ev_run = mget_or d ''run_id'' (PStr []),
     ev_task = mget_or d ''task_id'' PNone, ev_kind = mget_or d ''kind'' (PStr []), ev_ordering = mget_or d ''ordering_key'' (PStr []),
     ev_sequence = mget_or d ''sequence'' (PInt 0), ev_owner = mget_or d ''owner_epoch'' PNone, ev_payload = mget_or d ''payload'' (PDict []),
     ev_created_at = mget_or d ''created_at'' (PStr [])\<rparr>"

definition FleetEvent_from_dict :: "ev_env \<Rightarrow> pyval \<Rightarrow> fleet_event evres" where
  "FleetEvent_from_dict env v = (case as_mapping v of None \<Rightarrow> Inl EventError | Some d \<Rightarrow>
     if set (map fst d) \<noteq> PStr ` set EVENT_FIELDS \<or> length d \<noteq> length EVENT_FIELDS then Inl EventError
     else FleetEvent_post_init env (ee_now env) (event_of d))"

section \<open>The log\<close>

record event_log =
  el_run :: string
  el_owner :: pyval

definition EventLog_init :: "pyval \<Rightarrow> pyval \<Rightarrow> event_log evres" where
  "EventLog_init run owner = bindR (ev_string ''run_id'' True run) (\<lambda>r.
     bindR (if owner = PNone then Inr PNone else ev_number owner) (\<lambda>_. Inr \<lparr>el_run = r, el_owner = owner\<rparr>))"

definition create_event :: "ev_env \<Rightarrow> string option \<Rightarrow> event_log \<Rightarrow> pymap \<Rightarrow> fleet_event evres" where
  "create_event env now lg values = (if \<not> list_all (\<lambda>kv. fst kv \<in> PStr ` set EVENT_FIELDS) values then Inl EvTypeError else
     let d = mset_default ''run_id'' (PStr (el_run lg)) values in
     FleetEvent_post_init env now (event_of (if el_owner lg = PNone then d else mset_default ''owner_epoch'' (el_owner lg) d)))"

datatype log_line = LogJson pyval nat | LogBroken nat

fun line_size :: "log_line \<Rightarrow> nat" where
  "line_size (LogJson v n) = n"
| "line_size (LogBroken n) = n"

text \<open>\<open>None\<close> is a file that does not exist.\<close>

type_synonym log_file = "log_line list option"

definition file_lines :: "log_file \<Rightarrow> log_line list" where
  "file_lines f = (case f of None \<Rightarrow> [] | Some ls \<Rightarrow> ls)"

definition file_size :: "log_file \<Rightarrow> nat" where
  "file_size f = sum_list (map line_size (file_lines f))"

definition read_line :: "ev_env \<Rightarrow> log_line \<Rightarrow> (fleet_event \<times> string) evres" where
  "read_line env l = (case l of LogBroken n \<Rightarrow> Inl EventError | LogJson v n \<Rightarrow>
     if EV_MAX_LINE < n then Inl EventError else case as_pdict v of None \<Rightarrow> Inl EventError | Some d \<Rightarrow>
       if set (map fst d) \<noteq> PStr ` set (''checksum'' # EVENT_FIELDS) then Inl EventError
       else let rec = filter (\<lambda>kv. fst kv \<noteq> PStr ''checksum'') d in case json_text (ee_rep env) (PDict rec) of None \<Rightarrow> Inl EventError
         | Some t \<Rightarrow> if mget d ''checksum'' \<noteq> Some (PStr (ee_sha env t)) then Inl EventError
             else bindR (FleetEvent_from_dict env (PDict rec)) (\<lambda>e. Inr (e, t)))"

definition log_records :: "ev_env \<Rightarrow> log_file \<Rightarrow> (fleet_event \<times> string) list evres" where
  "log_records env f = (if EV_MAX_LOG < file_size f then Inl EventError
     else bindR (mapR (read_line env) (take EV_MAX_EVENTS (file_lines f))) (\<lambda>rs.
       if EV_MAX_EVENTS < length (file_lines f) then Inl EventError else Inr rs))"

text \<open>The stored event with the same id and text; another event with this id or sequence is an error.\<close>

fun stored_event :: "fleet_event \<Rightarrow> string \<Rightarrow> (fleet_event \<times> string) list \<Rightarrow> fleet_event option evres" where
  "stored_event e t [] = Inr None"
| "stored_event e t ((x, xt) # rs) = (if ev_id x = ev_id e then (if xt = t then Inr (Some x) else Inl EventError)
     else if number_of (ev_sequence x) = number_of (ev_sequence e) then Inl EventError else stored_event e t rs)"

definition log_append :: "ev_env \<Rightarrow> event_log \<Rightarrow> fleet_event \<Rightarrow> log_file \<Rightarrow> (fleet_event \<times> log_file) evres" where
  "log_append env lg e f =
     (if ev_run e \<noteq> PStr (el_run lg) \<or> el_owner lg \<noteq> PNone \<and> \<not> py_eq (ev_owner e) (el_owner lg) then Inl EventError else
      case event_text env e of None \<Rightarrow> Inl EventError | Some t \<Rightarrow>
      bindR (log_records env f) (\<lambda>rs. bindR (stored_event e t rs) (\<lambda>old. case old of Some x \<Rightarrow> Inr (x, f) | None \<Rightarrow>
        if rs \<noteq> [] \<and> number_of (ev_sequence e) \<le> number_of (ev_sequence (fst (last rs))) then Inl EventError else
        case json_reread (ee_rep env) (PDict (event_dict e)) of
          Some (PDict d) \<Rightarrow> (let d' = d @ [(PStr ''checksum'', PStr (ee_sha env t))] in
            case (json_reread (ee_rep env) (PDict d'), json_text (ee_rep env) (PDict d')) of
              (Some v, Some line) \<Rightarrow> (let n = utf8_size line + 1 in
                if EV_MAX_EVENTS \<le> length rs \<or> EV_MAX_LINE < n then Inl EventError
                else Inr (e, Some (file_lines f @ [LogJson v n])))
            | _ \<Rightarrow> Inl EventError)
        | _ \<Rightarrow> Inl EventError)))"

definition limit_ok :: "pyval \<Rightarrow> nat evres" where
  "limit_ok v = (case as_int v of None \<Rightarrow> Inl EventError | Some n \<Rightarrow> if 1 \<le> n \<and> n \<le> EV_MAX_QUERY then Inr (nat n) else Inl EventError)"

definition log_replay :: "ev_env \<Rightarrow> pyval \<Rightarrow> log_file \<Rightarrow> fleet_event list evres" where
  "log_replay env limit f = bindR (limit_ok limit) (\<lambda>n. bindR (log_records env f) (\<lambda>rs. Inr (map fst (take n rs))))"

definition query_key :: "fleet_event \<Rightarrow> string \<times> rat" where
  "query_key e = ((case as_str (ev_ordering e) of None \<Rightarrow> [] | Some s \<Rightarrow> s), number_of (ev_sequence e))"

definition log_query :: "ev_env \<Rightarrow> pyval \<Rightarrow> pyval \<Rightarrow> pyval \<Rightarrow> log_file \<Rightarrow> fleet_event list evres" where
  "log_query env ordr task limit f = bindR (limit_ok limit) (\<lambda>n.
     bindR (if ordr = PNone then Inr [] else ev_string ''ordering_key'' False ordr) (\<lambda>_.
     bindR (if task = PNone then Inr [] else ev_string ''task_id'' True task) (\<lambda>_.
     bindR (log_records env f) (\<lambda>rs. Inr (take n (sort_key query_key
       (filter (\<lambda>e. (ordr = PNone \<or> ev_ordering e = ordr) \<and> (task = PNone \<or> ev_task e = task)) (map fst rs))))))))"

end
