(* ===== verification/EventFacts.thy ===== *)
theory EventFacts
  imports FleetEvents
begin

text \<open>
  Facts about events: a frozen payload survives writing and reading, an event is read back from the line
  that an append writes, and appends keep the log a strictly increasing sequence.
\<close>

section \<open>Frozen payloads\<close>

lemma mset_key_fst: "fst ` set (mset_key k v d) = insert k (fst ` set d)"
  by (induction d) (auto simp: mset_key_def)

lemma mset_key_set: "set (mset_key k v d) \<subseteq> insert (k, v) (set d)"
  by (induction d) (auto simp: mset_key_def)

lemma mset_key_length: "length (mset_key k v d) \<le> Suc (length d)"
  by (induction d) (auto simp: mset_key_def)

lemma set_items_facts: "set (set_items its) \<subseteq> set its" "distinct (map fst (set_items its))" "length (set_items its) \<le> length its"
proof -
  have "set (fold (\<lambda>kv. mset_key (fst kv) (snd kv)) its acc) \<subseteq> set acc \<union> set its" for acc
  proof (induction its arbitrary: acc)
    case (Cons kv its)
    show ?case using Cons.IH [of "mset_key (fst kv) (snd kv) acc"] mset_key_set [of "fst kv" "snd kv" acc] by auto
  qed simp
  then show "set (set_items its) \<subseteq> set its" by (fastforce simp: set_items_def)
  have "distinct (map fst acc) \<Longrightarrow> distinct (map fst (fold (\<lambda>kv. mset_key (fst kv) (snd kv)) its acc))" for acc
    by (induction its arbitrary: acc) (simp_all add: mset_key_def distinct_update)
  then show "distinct (map fst (set_items its))" by (simp add: set_items_def)
  have "length (fold (\<lambda>kv. mset_key (fst kv) (snd kv)) its acc) \<le> length acc + length its" for acc
  proof (induction its arbitrary: acc)
    case (Cons kv its)
    show ?case using Cons.IH [of "mset_key (fst kv) (snd kv) acc"] mset_key_length [of "fst kv" "snd kv" acc] by simp
  qed simp
  from this [of "[]"] show "length (set_items its) \<le> length its" by (simp add: set_items_def)
qed

lemma set_items_distinct: "distinct (map fst its) \<Longrightarrow> set_items its = its"
  using fold_mset_distinct [of fst its "[]" snd] by (simp add: set_items_def)

lemma payload_key_str: "payload_key_ok k \<Longrightarrow> \<exists>s. k = PStr s"
  by (cases k) (auto simp: payload_key_ok_def)

lemma those_map_all: "those (map f xs) = Some ys \<Longrightarrow> (\<And>x y. x \<in> set xs \<Longrightarrow> f x = Some y \<Longrightarrow> P y) \<Longrightarrow> length ys = length xs \<and> (\<forall>y \<in> set ys. P y)"
  by (metis list_all2_lengthD those_mapD those_map_set)

function (sequential) frozen :: "nat \<Rightarrow> pyval \<Rightarrow> bool" where
  "frozen n (PStr s) \<longleftrightarrow> n \<le> EV_MAX_DEPTH \<and> payload_text_ok s"
| "frozen n (PFloat f) \<longleftrightarrow> n \<le> EV_MAX_DEPTH \<and> as_finite f \<noteq> None"
| "frozen n (PProxy d) \<longleftrightarrow> n \<le> EV_MAX_DEPTH \<and> length d \<le> EV_MAX_COLLECTION \<and> distinct (map fst d)
     \<and> (\<forall>kv \<in> set d. payload_key_ok (fst kv) \<and> frozen (Suc n) (snd kv))"
| "frozen n (PTuple xs) \<longleftrightarrow> n \<le> EV_MAX_DEPTH \<and> length xs \<le> EV_MAX_COLLECTION \<and> (\<forall>x \<in> set xs. frozen (Suc n) x)"
| "frozen n (PDict d) \<longleftrightarrow> False"
| "frozen n (PList xs) \<longleftrightarrow> False"
| "frozen n (POther k) \<longleftrightarrow> False"
| "frozen n v \<longleftrightarrow> n \<le> EV_MAX_DEPTH"
  by pat_completeness auto
termination
  by (relation "measure (size \<circ> snd)")
     (auto dest: py_pair_size size_list_estimation' [of _ _ _ size, OF _ order_refl] simp: less_Suc_eq_le)

lemma frozen_items:
  assumes "those (map (\<lambda>kv. if payload_key_ok (fst kv) then map_option (Pair (fst kv)) (ev_freeze (Suc n) (snd kv)) else None) d) = Some its"
    and "\<And>kv p. kv \<in> set d \<Longrightarrow> payload_key_ok (fst kv) \<Longrightarrow> ev_freeze (Suc n) (snd kv) = Some p \<Longrightarrow> frozen (Suc n) p" and "n \<le> EV_MAX_DEPTH" and "length d \<le> EV_MAX_COLLECTION"
  shows "frozen n (PProxy (set_items its))"
proof -
  have len: "length its = length d" using those_mapD [OF assms(1)] by (simp add: list_all2_lengthD)
  have "payload_key_ok (fst kw) \<and> frozen (Suc n) (snd kw)" if "kw \<in> set its" for kw
    using those_map_set [OF assms(1) that] assms(2) by (auto split: if_split_asm)
  then have "\<forall>kw \<in> set (set_items its). payload_key_ok (fst kw) \<and> frozen (Suc n) (snd kw)"
    using set_items_facts(1) by blast
  moreover have "length (set_items its) \<le> EV_MAX_COLLECTION"
    using set_items_facts(3) [of its] len assms(4) by linarith
  ultimately show ?thesis using assms(3) set_items_facts(2) by simp
qed

lemma freeze_frozen: "ev_freeze n v = Some p \<Longrightarrow> frozen n p"
proof (induction n v arbitrary: p rule: ev_freeze.induct)
  case (3 n d)
  then show ?case using frozen_items [of n d] by (auto split: if_split_asm simp del: frozen.simps)
next
  case (4 n d)
  then show ?case using frozen_items [of n d] by (auto split: if_split_asm simp del: frozen.simps)
next
  case (5 n xs)
  then obtain ys where ys: "those (map (ev_freeze (Suc n)) xs) = Some ys" "p = PTuple ys" "n \<le> EV_MAX_DEPTH" "length xs \<le> EV_MAX_COLLECTION"
    by (auto split: if_split_asm)
  then show ?case using those_map_all [OF ys(1), of "frozen (Suc n)"] 5 by auto
next
  case (6 n xs)
  then obtain ys where ys: "those (map (ev_freeze (Suc n)) xs) = Some ys" "p = PTuple ys" "n \<le> EV_MAX_DEPTH" "length xs \<le> EV_MAX_COLLECTION"
    by (auto split: if_split_asm)
  then show ?case using those_map_all [OF ys(1), of "frozen (Suc n)"] 6 by auto
qed (auto split: if_split_asm)

lemma thaw_items: "distinct (map fst d) \<Longrightarrow> (\<And>kv. kv \<in> set d \<Longrightarrow> \<exists>s. fst kv = PStr s) \<Longrightarrow>
    ev_thaw (PProxy d) = PDict (map (\<lambda>kv. (fst kv, ev_thaw (snd kv))) d)"
proof -
  assume d: "distinct (map fst d)" "\<And>kv. kv \<in> set d \<Longrightarrow> \<exists>s. fst kv = PStr s"
  have "map (\<lambda>kv. (thaw_key (fst kv), ev_thaw (snd kv))) d = map (\<lambda>kv. (fst kv, ev_thaw (snd kv))) d"
    using d(2) by (fastforce simp: thaw_key_def)
  then show ?thesis using d(1) set_items_distinct [of "map (\<lambda>kv. (fst kv, ev_thaw (snd kv))) d"] by (simp only: ev_thaw.simps) (simp add: comp_def)
qed

lemma frozen_proxy_thaw: "frozen n (PProxy d) \<Longrightarrow> ev_thaw (PProxy d) = PDict (map (\<lambda>kv. (fst kv, ev_thaw (snd kv))) d)"
  by (rule thaw_items) (auto dest: payload_key_str)

lemma frozen_wire: "frozen n p \<Longrightarrow> wire (ev_thaw p)"
proof (induction n p rule: frozen.induct)
  case (3 n d)
  then have "str_dict (map (\<lambda>kv. (fst kv, ev_thaw (snd kv))) d)"
    by (auto simp: str_dict_def comp_def list_all_iff dest: payload_key_str)
  then show ?case using 3 by (simp add: frozen_proxy_thaw [OF 3(2)] del: ev_thaw.simps)
qed auto

lemma frozen_again: "frozen n p \<Longrightarrow> ev_freeze n (ev_thaw p) = Some p"
proof (induction n p rule: frozen.induct)
  case (3 n d)
  have "those (map (\<lambda>kv. if payload_key_ok (fst kv) then map_option (Pair (fst kv)) (ev_freeze (Suc n) (snd kv)) else None)
      (map (\<lambda>kv. (fst kv, ev_thaw (snd kv))) d)) = Some d"
    unfolding map_map by (rule those_map_id) (use 3 in auto)
  then show ?case using 3(2) by (simp add: frozen_proxy_thaw [OF 3(2)] set_items_distinct del: ev_thaw.simps)
next
  case (4 n xs)
  have "those (map (ev_freeze (Suc n)) (map ev_thaw xs)) = Some xs" unfolding map_map by (rule those_map_id) (use 4 in auto)
  then show ?case using 4(2) by simp
qed auto

lemma freeze_wire: "wire w \<Longrightarrow> ev_freeze n w = Some p \<Longrightarrow> ev_thaw p = w"
proof (induction w arbitrary: n p rule: wire.induct)
  case (1 d)
  then obtain its where its: "those (map (\<lambda>kv. if payload_key_ok (fst kv) then map_option (Pair (fst kv)) (ev_freeze (Suc n) (snd kv)) else None) d) = Some its"
    and p: "p = PProxy (set_items its)" by (auto split: if_split_asm)
  have rel: "list_all2 (\<lambda>kv kw. fst kw = fst kv \<and> payload_key_ok (fst kv) \<and> ev_thaw (snd kw) = snd kv) d its"
  proof (rule list.rel_mono_strong [OF those_mapD [OF its]])
    fix kv kw assume kv: "kv \<in> set d" "(if payload_key_ok (fst kv) then map_option (Pair (fst kv)) (ev_freeze (Suc n) (snd kv)) else None) = Some kw"
    then show "fst kw = fst kv \<and> payload_key_ok (fst kv) \<and> ev_thaw (snd kw) = snd kv"
      using 1(1) [OF kv(1), of "Suc n"] 1(2) by (auto split: if_split_asm)
  qed
  have fsts: "map fst its = map fst d" using rel by (auto simp: list_all2_conv_all_nth intro!: nth_equalityI)
  have "map (\<lambda>kv. (fst kv, ev_thaw (snd kv))) its = d" using rel by (auto simp: list_all2_conv_all_nth prod_eq_iff intro!: nth_equalityI)
  moreover have "ev_thaw (PProxy its) = PDict (map (\<lambda>kv. (fst kv, ev_thaw (snd kv))) its)"
  proof (rule thaw_items)
    show "distinct (map fst its)" using 1(2) by (simp add: fsts str_dict_def)
    fix kv assume "kv \<in> set its"
    then have "fst kv \<in> set (map fst d)" unfolding fsts [symmetric] by simp
    then show "\<exists>s. fst kv = PStr s" using 1(2) by (auto simp: str_dict_def list_all_iff)
  qed
  ultimately show ?case using 1(2) by (simp add: p set_items_distinct fsts str_dict_def del: ev_thaw.simps)
next
  case (2 xs)
  then obtain ys where ys: "those (map (ev_freeze (Suc n)) xs) = Some ys" and p: "p = PTuple ys" by (auto split: if_split_asm)
  have "list_all2 (\<lambda>x y. ev_thaw y = x) xs ys"
    by (rule list.rel_mono_strong [OF those_mapD [OF ys]]) (use 2(1) [of _ "Suc n"] 2(2) in auto)
  then have "map ev_thaw ys = xs" by (auto simp: list_all2_conv_all_nth intro!: nth_equalityI)
  then show ?case by (simp add: p)
qed (auto split: if_split_asm)

lemma in_neq: "x \<in> A \<Longrightarrow> y \<notin> A \<Longrightarrow> x \<noteq> y"
  by auto

lemma freeze_sorted: "wire w \<Longrightarrow> ev_freeze n w \<noteq> None \<Longrightarrow> ev_freeze n (sort_json w) \<noteq> None"
proof (induction w arbitrary: n rule: wire.induct)
  case (1 d)
  let ?f = "\<lambda>kv. if payload_key_ok (fst kv) then map_option (Pair (fst kv)) (ev_freeze (Suc n) (snd kv)) else None"
  have ok: "None \<notin> set (map ?f d)" and b: "n \<le> EV_MAX_DEPTH" "length d \<le> EV_MAX_COLLECTION"
    using 1(3) those_None [of "map ?f d"] by (auto split: if_split_asm)
  have "None \<notin> set (map ?f (sort_key item_key (map (\<lambda>kv. (fst kv, sort_json (snd kv))) d)))"
  proof
    assume "None \<in> set (map ?f (sort_key item_key (map (\<lambda>kv. (fst kv, sort_json (snd kv))) d)))"
    then obtain kv where kv: "kv \<in> set d" "?f (fst kv, sort_json (snd kv)) = None" by (auto simp: split: if_split_asm)
    have "?f kv \<in> set (map ?f d)" unfolding list.set_map using kv(1) by (rule imageI)
    then have "?f kv \<noteq> None" using ok by (rule in_neq)
    then have k: "payload_key_ok (fst kv)" "ev_freeze (Suc n) (snd kv) \<noteq> None" by (simp_all split: if_split_asm)
    moreover have "wire (snd kv)" using 1(2) kv(1) by simp
    ultimately have "ev_freeze (Suc n) (sort_json (snd kv)) \<noteq> None" using 1(1) [OF kv(1)] by blast
    then show False using kv(2) k by simp
  qed
  then show ?case using b those_None by fastforce
next
  case (2 xs)
  then have b: "n \<le> EV_MAX_DEPTH" "length xs \<le> EV_MAX_COLLECTION" and all: "those (map (ev_freeze (Suc n)) xs) \<noteq> None"
    by (auto split: if_split_asm)
  have "ev_freeze (Suc n) (sort_json x) \<noteq> None" if x: "x \<in> set xs" for x
  proof (rule 2(1) [OF x])
    show "wire x" using 2(2) x by simp
    show "ev_freeze (Suc n) x \<noteq> None" using all x unfolding those_None by (metis image_eqI list.set_map)
  qed
  then have "those (map (ev_freeze (Suc n)) (map sort_json xs)) \<noteq> None"
    unfolding those_None by clarsimp (metis option.distinct(1))
  then show ?case using b by auto
qed (auto split: if_split_asm)

section \<open>Events\<close>

lemmas post_init_simps = FleetEvent_post_init_def result_simps

lemma post_init_payload: "FleetEvent_post_init env now e = Inr e' \<Longrightarrow> frozen 0 (ev_payload e') \<and> ev_freeze 0 (ev_payload e) = Some (ev_payload e')"
  by (auto simp: post_init_simps Let_def freeze_frozen split: option.split_asm if_split_asm)

definition event_ok :: "ev_env \<Rightarrow> fleet_event \<Rightarrow> bool" where
  "event_ok env e \<longleftrightarrow> envelope_ok e = Inr () \<and> truthy (ev_created_at e) \<and> isOK (ev_created env (ev_created_at e)) \<and> frozen 0 (ev_payload e)
     \<and> (case event_text env e of None \<Rightarrow> False | Some t \<Rightarrow> utf8_size t \<le> EV_MAX_PAYLOAD)"

lemma ev_string_str: "ev_string n i v = Inr s \<Longrightarrow> v = PStr s \<and> s \<noteq> []"
  by (auto simp: ev_string_def split: option.split_asm if_split_asm)

lemma ev_created_str: "ev_created env v = Inr s \<Longrightarrow> v = PStr s \<and> s \<noteq> []"
  by (auto simp: ev_created_def result_simps dest: ev_string_str)

lemma envelope_ok_update [simp]: "envelope_ok (e\<lparr>ev_payload := p, ev_created_at := c\<rparr>) = envelope_ok e"
  "envelope_ok (e\<lparr>ev_payload := p\<rparr>) = envelope_ok e"
  by (simp_all add: envelope_ok_def)

lemma post_init_ok:
  assumes "FleetEvent_post_init env now e = Inr e'"
  shows "event_ok env e'"
proof -
  obtain c p t where env: "envelope_ok e = Inr ()" and c: "isOK (ev_created env c)" and p: "ev_freeze 0 (ev_payload e) = Some p"
    and t: "event_text env (e\<lparr>ev_payload := p, ev_created_at := c\<rparr>) = Some t" "utf8_size t \<le> EV_MAX_PAYLOAD"
    and e': "e' = e\<lparr>ev_payload := p, ev_created_at := c\<rparr>"
  proof -
    obtain u c s where "envelope_ok e = Inr u" "ev_created env c = Inr s" and rest: "(case ev_freeze 0 (ev_payload e) of None \<Rightarrow> Inl EventError | Some p \<Rightarrow>
       (let e' = e\<lparr>ev_payload := p, ev_created_at := c\<rparr> in case event_text env e' of None \<Rightarrow> Inl EventError
        | Some t \<Rightarrow> if EV_MAX_PAYLOAD < utf8_size t then Inl EventError else Inr e')) = Inr e'"
      using assms unfolding FleetEvent_post_init_def bindR_eq_Inr by blast
    then show thesis using that [of c] by (auto simp: isOK_def Let_def not_less split: option.split_asm if_split_asm)
  qed
  have "truthy c" using c ev_created_str [of env c] by (auto simp: isOK_def split: sum.split_asm)
  then show ?thesis using env c t freeze_frozen [OF p] by (simp add: event_ok_def e')
qed

text \<open>Plain values are read back as they are.\<close>

definition plain :: "pyval \<Rightarrow> bool" where
  "plain v \<longleftrightarrow> wire v \<and> sort_json v = v"

lemma ev_number_plain: "ev_number v = Inr w \<Longrightarrow> plain v"
  by (auto simp: ev_number_def plain_def split: pyval.split_asm option.split_asm if_split_asm)

lemma plain_str: "plain (PStr s)" "plain PNone"
  by (simp_all add: plain_def)

lemma version_plain: "version_ok v \<Longrightarrow> plain v"
  by (cases v) (auto simp: version_ok_def plain_def)

lemma envelope_plain:
  assumes "envelope_ok e = Inr ()"
  shows "plain (ev_schema e)" "plain (ev_id e)" "plain (ev_run e)" "plain (ev_task e)" "plain (ev_kind e)" "plain (ev_ordering e)"
    "plain (ev_sequence e)" "plain (ev_owner e)"
proof -
  note e = assms [unfolded envelope_ok_def]
  show "plain (ev_schema e)" using e by (auto simp: result_simps intro: version_plain)
  show "plain (ev_id e)" "plain (ev_run e)" "plain (ev_kind e)" "plain (ev_ordering e)"
    using e by (auto simp: result_simps dest!: ev_string_str intro: plain_str)
  show "plain (ev_task e)" using e by (auto simp: result_simps dest!: ev_string_str intro: plain_str split: if_split_asm)
  show "plain (ev_sequence e)" using e by (auto simp: result_simps intro: ev_number_plain)
  show "plain (ev_owner e)" using e by (auto simp: result_simps intro: ev_number_plain plain_str split: if_split_asm)
qed

lemma event_plain:
  assumes "event_ok env e"
  shows "str_dict (event_dict e)" "kv \<in> set (event_dict e) \<Longrightarrow> wire (snd kv)" "wire (ev_thaw (ev_payload e))" "plain (ev_created_at e)"
proof -
  have env: "envelope_ok e = Inr ()" and p: "frozen 0 (ev_payload e)" and c: "isOK (ev_created env (ev_created_at e))"
    using assms by (auto simp: event_ok_def)
  show "str_dict (event_dict e)" by (simp add: event_dict_def str_keyed_def str_dict_def)
  show w: "wire (ev_thaw (ev_payload e))" using frozen_wire [OF p] .
  show cr: "plain (ev_created_at e)" using c ev_created_str [of env "ev_created_at e"] plain_str by (auto simp: isOK_def split: sum.split_asm)
  show "wire (snd kv)" if "kv \<in> set (event_dict e)"
    using that w cr envelope_plain [OF env] by (auto simp: event_dict_def str_keyed_def plain_def)
qed

lemma event_wire: "event_ok env e \<Longrightarrow> wire (PDict (event_dict e))"
  using event_plain by simp

text \<open>The payload as it comes back.\<close>

definition reread_payload :: "fleet_event \<Rightarrow> pyval" where
  "reread_payload e = the (ev_freeze 0 (sort_json (ev_thaw (ev_payload e))))"

definition reread_event :: "fleet_event \<Rightarrow> fleet_event" where
  "reread_event e = e\<lparr>ev_payload := reread_payload e\<rparr>"

lemma reread_payload:
  assumes "event_ok env e"
  shows "ev_freeze 0 (sort_json (ev_thaw (ev_payload e))) = Some (reread_payload e)"
    "ev_thaw (reread_payload e) = sort_json (ev_thaw (ev_payload e))"
proof -
  have w: "wire (ev_thaw (ev_payload e))" using event_plain(3) [OF assms] .
  have "ev_freeze 0 (ev_thaw (ev_payload e)) \<noteq> None" using frozen_again assms by (simp add: event_ok_def)
  from freeze_sorted [OF w this] show f: "ev_freeze 0 (sort_json (ev_thaw (ev_payload e))) = Some (reread_payload e)"
    by (auto simp: reread_payload_def)
  show "ev_thaw (reread_payload e) = sort_json (ev_thaw (ev_payload e))" by (rule freeze_wire [OF wire_sort [OF w] f])
qed

lemma reread_event_text:
  assumes ok: "event_ok env e"
  shows "event_text env (reread_event e) = event_text env e" "event_ok env (reread_event e)"
proof -
  let ?q = "PDict (event_dict (reread_event e))"
  have w: "wire (ev_thaw (ev_payload e))" using event_plain(3) [OF ok] .
  have vals: "map (\<lambda>kv. (fst kv, sort_json (snd kv))) (event_dict (reread_event e)) = map (\<lambda>kv. (fst kv, sort_json (snd kv))) (event_dict e)"
    using reread_payload(2) [OF ok] sort_json_idem [OF w] by (simp add: event_dict_def str_keyed_def reread_event_def)
  have "wire ?q"
    using event_wire [OF ok] reread_payload(2) [OF ok] wire_sort [OF w]
    by (auto simp: event_dict_def str_keyed_def reread_event_def str_dict_def)
  from sort_json_text [OF this, of "ee_rep env"] sort_json_text [OF event_wire [OF ok], of "ee_rep env"]
  show t: "event_text env (reread_event e) = event_text env e" by (simp add: event_text_def vals del: json_text.simps)
  show "event_ok env (reread_event e)"
    using ok t freeze_frozen [OF reread_payload(1) [OF ok]] by (simp add: event_ok_def) (simp add: reread_event_def)
qed

lemma post_init_again:
  assumes "event_ok env e" and "ev_freeze 0 v = Some (ev_payload e)"
  shows "FleetEvent_post_init env now (e\<lparr>ev_payload := v\<rparr>) = Inr e"
  using assms by (auto simp: FleetEvent_post_init_def event_ok_def isOK_def result_simps Let_def split: option.split_asm sum.split_asm)

section \<open>The line of an event\<close>

lemma event_fields: "map fst (event_dict e) = map PStr EVENT_FIELDS"
  by (simp add: event_dict_def str_keyed_def EVENT_FIELDS_def)

lemma event_of_sorted:
  assumes "event_ok env e"
  shows "event_of (sort_key item_key (map (\<lambda>kv. (fst kv, sort_json (snd kv))) (event_dict e))) = e\<lparr>ev_payload := sort_json (ev_thaw (ev_payload e))\<rparr>"
proof -
  have env: "envelope_ok e = Inr ()" using assms by (simp add: event_ok_def)
  have "distinct (map fst (map (\<lambda>kv. (fst kv, sort_json (snd kv))) (event_dict e)))"
    using event_plain(1) [OF assms] by (simp add: str_dict_def comp_def)
  from mget_sort [OF this, of item_key]
  have get: "mget (sort_key item_key (map (\<lambda>kv. (fst kv, sort_json (snd kv))) (event_dict e))) k = map_option sort_json (mget (event_dict e) k)" for k
    by (simp add: mget_map)
  show ?thesis
    using envelope_plain [OF env] event_plain(4) [OF assms]
    by (simp add: event_of_def mget_or_def get) (simp add: event_dict_def str_keyed_def plain_def)
qed

lemma append_line:
  assumes ok: "event_ok env e" and t: "event_text env e = Some t"
  obtains d v line where "json_reread (ee_rep env) (PDict (event_dict e)) = Some (PDict d)"
    "json_reread (ee_rep env) (PDict (d @ [(PStr ''checksum'', PStr (ee_sha env t))])) = Some v"
    "json_text (ee_rep env) (PDict (d @ [(PStr ''checksum'', PStr (ee_sha env t))])) = Some line"
    "\<And>n. n \<le> EV_MAX_LINE \<Longrightarrow> read_line env (LogJson v n) = Inr (reread_event e, t)"
proof -
  let ?c = "(PStr ''checksum'', PStr (ee_sha env t))" and ?g = "\<lambda>kv. (fst kv, sort_json (snd kv))"
  define d where "d = sort_key item_key (map ?g (event_dict e))"
  define w where "w = sort_key item_key (d @ [?c])"
  have sd: "sort_json (PDict (event_dict e)) = PDict d" by (simp add: d_def)
  have wd: "wire (PDict d)" and same: "sort_json (PDict d) = PDict d"
    using wire_sort [OF event_wire [OF ok]] sort_json_idem [OF event_wire [OF ok]] by (simp_all only: sd)
  have keys: "set (map fst d) = PStr ` set EVENT_FIELDS" "length d = length EVENT_FIELDS"
  proof -
    have "set (map fst d) = set (map fst (event_dict e))" by (simp add: d_def image_image)
    then show "set (map fst d) = PStr ` set EVENT_FIELDS" by (simp only: event_fields list.set_map)
    have "length d = length (map fst (event_dict e))" by (simp add: d_def)
    then show "length d = length EVENT_FIELDS" by (simp only: event_fields length_map)
  qed
  have nc: "PStr ''checksum'' \<notin> fst ` set d" using keys(1) by (auto simp: EVENT_FIELDS_def)
  have wc: "wire (PDict (d @ [?c]))" using wd nc by (auto simp: str_dict_def)
  have "map ?g d = d"
  proof -
    have "sort_key item_key (map ?g d) = d" using same by simp
    moreover have "sort_key item_key d = d" by (simp add: d_def)
    ultimately show ?thesis by (simp only: sort_items_map)
  qed
  then have sw: "sort_json (PDict (d @ [?c])) = PDict w" by (simp add: w_def)
  obtain line where line: "json_text (ee_rep env) (PDict (d @ [?c])) = Some line" using wire_text [OF wc] by blast
  have rest: "filter (\<lambda>kv. fst kv \<noteq> PStr ''checksum'') w = d"
  proof -
    have "filter (\<lambda>kv. fst kv \<noteq> PStr ''checksum'') w = sort_key item_key (filter (\<lambda>kv. fst kv \<noteq> PStr ''checksum'') (d @ [?c]))"
      by (simp add: w_def filter_sort)
    also have "filter (\<lambda>kv. fst kv \<noteq> PStr ''checksum'') (d @ [?c]) = d" using nc by (force simp: filter_id_conv)
    finally show ?thesis by (simp add: d_def)
  qed
  have "distinct (map fst (d @ [?c]))" using wc by (simp add: str_dict_def)
  from mget_sort [OF this, of item_key] have sum: "mget w ''checksum'' = Some (PStr (ee_sha env t))"
    using nc map_of_eq_None_iff [of d "PStr ''checksum''"] by (simp add: w_def mget_def map_add_def)
  have jtext: "json_text (ee_rep env) (PDict d) = Some t"
    using sort_json_text [OF event_wire [OF ok], of "ee_rep env"] t by (simp only: sd event_text_def)
  have "FleetEvent_from_dict env (PDict d) = Inr (reread_event e)"
  proof -
    have "FleetEvent_from_dict env (PDict d) = FleetEvent_post_init env (ee_now env) (event_of d)"
      using keys by (simp add: FleetEvent_from_dict_def)
    also have "event_of d = (reread_event e)\<lparr>ev_payload := sort_json (ev_thaw (ev_payload e))\<rparr>"
      unfolding d_def event_of_sorted [OF ok] by (simp add: reread_event_def)
    also have "FleetEvent_post_init env (ee_now env) \<dots> = Inr (reread_event e)"
      by (rule post_init_again [OF reread_event_text(2) [OF ok]]) (simp add: reread_event_def reread_payload(1) [OF ok])
    finally show ?thesis .
  qed
  moreover have "set (map fst w) = PStr ` set (''checksum'' # EVENT_FIELDS)" using keys(1) by (simp add: w_def)
  ultimately have "read_line env (LogJson (PDict w) n) = Inr (reread_event e, t)" if "n \<le> EV_MAX_LINE" for n
    using that rest jtext sum by (simp add: read_line_def)
  then show thesis using that [of d "PDict w" line] reread_wire [OF event_wire [OF ok], of "ee_rep env"] reread_wire [OF wc, of "ee_rep env"] line
    by (simp only: sd sw)
qed

end
