(* ===== verification/EventLog.thy ===== *)
theory EventLog
  imports EventFacts
begin

text \<open>
  What the event log guarantees: a log that was only appended to is read back as the sequence of its events,
  strictly increasing and without two events of one id, and appending a stored event again changes nothing;
  a line that a crash has cut off stops the log.
\<close>

section \<open>Reading\<close>

lemma mapR_ok: "mapR f xs = Inr ys \<longleftrightarrow> list_all2 (\<lambda>x y. f x = Inr y) xs ys"
  by (induction xs arbitrary: ys) (auto simp: result_simps list_all2_Cons1)

lemma mapR_fails: "x \<in> set xs \<Longrightarrow> \<not> isOK (f x) \<Longrightarrow> \<not> isOK (mapR f xs)"
  by (induction xs) (auto simp: result_simps isOK_def split: sum.split)

lemma records_read: "log_records env f = Inr rs \<longleftrightarrow>
    file_size f \<le> EV_MAX_LOG \<and> length (file_lines f) \<le> EV_MAX_EVENTS \<and> mapR (read_line env) (file_lines f) = Inr rs"
  by (auto simp: log_records_def result_simps)

section \<open>Runs of a log\<close>

text \<open>
  Events are appended by any number of logs of one run, each with its own ownership. The history lists the
  events that were written, oldest first.
\<close>

type_synonym log_config = "log_file \<times> fleet_event list"

inductive event_step :: "ev_env \<Rightarrow> string \<Rightarrow> log_config \<Rightarrow> log_config \<Rightarrow> bool" for env run where
  do_append: "FleetEvent_post_init env now raw = Inr e \<Longrightarrow> el_run lg = run \<Longrightarrow> log_append env lg e f = Inr (x, f') \<Longrightarrow>
     event_step env run (f, hist) (f', if f' = f then hist else hist @ [e])"

definition log_start :: "log_config \<Rightarrow> bool" where
  "log_start c \<longleftrightarrow> c = (None, [])"

abbreviation seq_of :: "fleet_event \<Rightarrow> rat" where
  "seq_of e \<equiv> number_of (ev_sequence e)"

definition stored_as :: "ev_env \<Rightarrow> fleet_event \<Rightarrow> fleet_event \<times> string" where
  "stored_as env e = (reread_event e, the (event_text env e))"

definition log_inv :: "ev_env \<Rightarrow> string \<Rightarrow> log_config \<Rightarrow> bool" where
  "log_inv env run c \<longleftrightarrow> list_all2 (\<lambda>l e. read_line env l = Inr (stored_as env e)) (file_lines (fst c)) (snd c)
     \<and> (\<forall>e \<in> set (snd c). event_ok env e \<and> ev_run e = PStr run)
     \<and> sorted_wrt (\<lambda>x y. seq_of x < seq_of y) (snd c) \<and> distinct (map ev_id (snd c))
     \<and> length (snd c) \<le> EV_MAX_EVENTS"

lemma event_ok_text: "event_ok env e \<Longrightarrow> event_text env e = Some (the (event_text env e))"
  by (auto simp: event_ok_def split: option.split_asm)

lemma reread_fields [simp]: "ev_id (reread_event e) = ev_id e" "ev_sequence (reread_event e) = ev_sequence e"
  "ev_run (reread_event e) = ev_run e" "ev_owner (reread_event e) = ev_owner e"
  by (simp_all add: reread_event_def)

lemma inv_records:
  assumes "log_inv env run (f, hist)"
  shows "log_records env f = (if EV_MAX_LOG < file_size f then Inl EventError else Inr (map (stored_as env) hist))"
proof (cases "EV_MAX_LOG < file_size f")
  case False
  have "list_all2 (\<lambda>l y. read_line env l = Inr y) (file_lines f) (map (stored_as env) hist)"
    using assms by (simp add: log_inv_def list.rel_map)
  then have "mapR (read_line env) (file_lines f) = Inr (map (stored_as env) hist)" by (simp only: mapR_ok)
  moreover have "length (file_lines f) \<le> EV_MAX_EVENTS" using assms by (auto simp: log_inv_def dest: list_all2_lengthD)
  ultimately show ?thesis using False records_read [of env f] by simp
qed (simp add: log_records_def)

lemma stored_event_id: "distinct (map ev_id hist) \<Longrightarrow> sorted_wrt (\<lambda>x y. seq_of x < seq_of y) hist \<Longrightarrow> x \<in> set hist \<Longrightarrow>
    stored_event x (the (event_text env x)) (map (stored_as env) hist) = Inr (Some (reread_event x))"
  by (induction hist) (auto simp: stored_as_def)

lemma stored_event_new: "stored_event e t (map (stored_as env) hist) = Inr None \<Longrightarrow> ev_id e \<notin> ev_id ` set hist"
  by (induction hist) (auto simp: stored_as_def split: if_split_asm)

lemma append_result:
  assumes app: "log_append env lg e f = Inr (x, f')" and ok: "event_ok env e"
  shows "f' = f \<or> (\<exists>l rs. f' = Some (file_lines f @ [l]) \<and> read_line env l = Inr (stored_as env e) \<and> x = e \<and> log_records env f = Inr rs
     \<and> stored_event e (the (event_text env e)) rs = Inr None \<and> (rs \<noteq> [] \<longrightarrow> seq_of (fst (last rs)) < seq_of e) \<and> length rs < EV_MAX_EVENTS)"
    "ev_run e = PStr (el_run lg)"
proof -
  obtain s where s: "event_text env e = Some s" using event_ok_text [OF ok] by blast
  let ?c = "(PStr ''checksum'', PStr (ee_sha env s))"
  obtain d v line where line: "json_reread (ee_rep env) (PDict (event_dict e)) = Some (PDict d)"
    "json_reread (ee_rep env) (PDict (d @ [?c])) = Some v" "json_text (ee_rep env) (PDict (d @ [?c])) = Some line"
    "\<And>n. n \<le> EV_MAX_LINE \<Longrightarrow> read_line env (LogJson v n) = Inr (reread_event e, s)"
    using append_line [OF ok s] by blast
  show "ev_run e = PStr (el_run lg)" using app by (auto simp: log_append_def split: if_split_asm)
  from app have "bindR (log_records env f) (\<lambda>rs. bindR (stored_event e s rs) (\<lambda>old. case old of Some x \<Rightarrow> Inr (x, f) | None \<Rightarrow>
        if rs \<noteq> [] \<and> seq_of e \<le> seq_of (fst (last rs)) then Inl EventError else
          if EV_MAX_EVENTS \<le> length rs \<or> EV_MAX_LINE < utf8_size line + 1 then Inl EventError
          else Inr (e, Some (file_lines f @ [LogJson v (utf8_size line + 1)])))) = Inr (x, f')"
    unfolding log_append_def s option.case line pyval.case Let_def prod.case by (simp split: if_split_asm)
  then obtain rs old where rs: "log_records env f = Inr rs" and old: "stored_event e s rs = Inr old"
    and rest: "(case old of Some x \<Rightarrow> Inr (x, f) | None \<Rightarrow>
        if rs \<noteq> [] \<and> seq_of e \<le> seq_of (fst (last rs)) then Inl EventError else
          if EV_MAX_EVENTS \<le> length rs \<or> EV_MAX_LINE < utf8_size line + 1 then Inl EventError
          else Inr (e, Some (file_lines f @ [LogJson v (utf8_size line + 1)]))) = Inr (x, f')"
    unfolding bindR_eq_Inr by blast
  show "f' = f \<or> (\<exists>l rs. f' = Some (file_lines f @ [l]) \<and> read_line env l = Inr (stored_as env e) \<and> x = e \<and> log_records env f = Inr rs
     \<and> stored_event e (the (event_text env e)) rs = Inr None \<and> (rs \<noteq> [] \<longrightarrow> seq_of (fst (last rs)) < seq_of e) \<and> length rs < EV_MAX_EVENTS)"
    using rest rs old line(4) [of "utf8_size line + 1"]
    by (auto simp: stored_as_def s not_le split: option.split_asm if_split_asm)
qed

lemma step_inv:
  assumes "log_inv env run c" and "event_step env run c c'"
  shows "log_inv env run c'"
  using assms(2)
proof cases
  case (do_append now raw e lg f x f' hist)
  have ok: "event_ok env e" by (rule post_init_ok [OF do_append(3)])
  have inv: "log_inv env run (f, hist)" using assms(1) do_append(1) by simp
  show ?thesis
  proof (cases "f' = f")
    case True
    then show ?thesis using inv do_append(2) by simp
  next
    case False
    then obtain l rs where l: "f' = Some (file_lines f @ [l])" "read_line env l = Inr (stored_as env e)" and rs: "log_records env f = Inr rs"
      and new: "stored_event e (the (event_text env e)) rs = Inr None" "rs \<noteq> [] \<longrightarrow> seq_of (fst (last rs)) < seq_of e" "length rs < EV_MAX_EVENTS"
      using append_result(1) [OF do_append(5) ok] by blast
    have r: "rs = map (stored_as env) hist" using inv_records [OF inv] rs by (simp split: if_split_asm)
    have inc: "sorted_wrt (\<lambda>x y. seq_of x < seq_of y) hist" using inv by (simp add: log_inv_def)
    have last: "hist \<noteq> [] \<Longrightarrow> seq_of (last hist) < seq_of e" using new(2) by (simp add: r last_map stored_as_def)
    have all: "seq_of y < seq_of e" if "y \<in> set hist" for y
    proof -
      have "y = last hist \<or> seq_of y < seq_of (last hist)"
        using that inc by (cases hist rule: rev_cases) (auto simp: sorted_wrt_append)
      then show ?thesis using last that by force
    qed
    have lines: "file_lines f' = file_lines f @ [l]" by (simp add: l file_lines_def)
    have read: "list_all2 (\<lambda>l e. read_line env l = Inr (stored_as env e)) (file_lines f') (hist @ [e])"
      unfolding lines using inv l(2) by (auto simp: log_inv_def intro: list_all2_appendI)
    have "ev_run e = PStr run" using append_result(2) [OF do_append(5) ok] do_append(4) by simp
    then show ?thesis
      using inv new(3) ok stored_event_new [OF new(1) [unfolded r]] all False
      by (simp add: do_append(2) log_inv_def sorted_wrt_append r) (use read False in simp)
  qed
qed

interpretation evl: invariant_system log_start "event_step env run" "log_inv env run" for env run
proof
  show "log_start s \<Longrightarrow> log_inv env run s" for s by (simp add: log_start_def log_inv_def file_lines_def)
qed (rule step_inv)

definition owns :: "event_log \<Rightarrow> fleet_event \<Rightarrow> bool" where
  "owns lg e \<longleftrightarrow> ev_run e = PStr (el_run lg) \<and> (el_owner lg = PNone \<or> py_eq (ev_owner e) (el_owner lg))"

text \<open>
  C34: the log is an append-only sequence. After any appends by any logs of the run that leave the file within
  the size limit of a read, a replay with limit n, for n from 1 to 1000, returns the first n events that were
  appended, each with the text it was appended with; the sequence numbers grow strictly and no two events have
  one id; and appending an event that is stored already and that the log owns returns it and leaves the file as
  it is.
\<close>

theorem log_append_only:
  assumes "(event_step env run)\<^sup>*\<^sup>* (None, []) (f, hist)" and "file_size f \<le> EV_MAX_LOG" and "1 \<le> n" and "n \<le> EV_MAX_QUERY"
  shows "(\<exists>evs. log_replay env (PInt n) f = Inr evs \<and> map (event_text env) evs = map (event_text env) (take (nat n) hist)) \<and>
    sorted_wrt (\<lambda>x y. number_of (ev_sequence x) < number_of (ev_sequence y)) hist \<and> distinct (map ev_id hist) \<and>
    (\<forall>lg e. e \<in> set hist \<and> owns lg e \<longrightarrow> (\<exists>x. log_append env lg e f = Inr (x, f) \<and> event_text env x = event_text env e))"
proof -
  have inv: "log_inv env run (f, hist)"
    by (rule evl.reachable_from_inv [OF assms(1) evl.inv_start]) (simp add: log_start_def)
  have ok: "event_ok env e" if "e \<in> set hist" for e using inv that by (simp add: log_inv_def)
  have rs: "log_records env f = Inr (map (stored_as env) hist)" using inv_records [OF inv] assms(2) by simp
  have "log_replay env (PInt n) f = Inr (map reread_event (take (nat n) hist))"
    using assms(3,4) by (simp add: log_replay_def limit_ok_def rs take_map stored_as_def comp_def)
  moreover have "map (event_text env) (map reread_event (take (nat n) hist)) = map (event_text env) (take (nat n) hist)"
    using ok reread_event_text(1) by (auto dest: in_set_takeD)
  moreover have "log_append env lg e f = Inr (reread_event e, f) \<and> event_text env (reread_event e) = event_text env e"
    if e: "e \<in> set hist" "owns lg e" for lg e
  proof -
    have "stored_event e (the (event_text env e)) (map (stored_as env) hist) = Inr (Some (reread_event e))"
      by (rule stored_event_id [OF _ _ e(1)]) (use inv in \<open>simp_all add: log_inv_def\<close>)
    moreover obtain s where "event_text env e = Some s" using event_ok_text [OF ok [OF e(1)]] by blast
    ultimately show ?thesis
      using e(2) reread_event_text(1) [OF ok [OF e(1)]] by (auto simp: log_append_def owns_def rs)
  qed
  ultimately show ?thesis using inv by (auto simp: log_inv_def)
qed

definition demo_ev_env :: ev_env where
  "demo_ev_env = \<lparr>ee_rep = (\<lambda>_. ''0.0''), ee_sha = (\<lambda>_. ''h''), ee_iso = (\<lambda>s. s = ''2024-01-01''), ee_now = None\<rparr>"

definition demo_event :: fleet_event where
  "demo_event = event_of (str_keyed [(''event_id'', PStr ''e''), (''run_id'', PStr ''r''), (''kind'', PStr ''k''), (''ordering_key'', PStr ''o''),
     (''payload'', PDict [(PStr ''b'', PInt 1), (PStr ''a'', PList [PNone])]), (''created_at'', PStr ''2024-01-01'')])"

definition demo_lg :: event_log where
  "demo_lg = \<lparr>el_run = ''r'', el_owner = PNone\<rparr>"

lemma demo_appended: "case FleetEvent_post_init demo_ev_env None demo_event of Inl x \<Rightarrow> False
    | Inr e \<Rightarrow> (case log_append demo_ev_env demo_lg e None of Inl x \<Rightarrow> False | Inr (x, f) \<Rightarrow> f \<noteq> None \<and> file_size f \<le> EV_MAX_LOG)"
  by code_simp

theorem log_append_only_witness:
  "\<exists>e f evs. f \<noteq> None \<and> log_replay demo_ev_env (PInt 1) f = Inr evs \<and> map (event_text demo_ev_env) evs = [event_text demo_ev_env e]"
proof -
  obtain e x f where e: "FleetEvent_post_init demo_ev_env None demo_event = Inr e" "log_append demo_ev_env demo_lg e None = Inr (x, f)"
    and f: "f \<noteq> None" "file_size f \<le> EV_MAX_LOG"
    using demo_appended by (auto split: sum.split_asm prod.split_asm)
  have "event_step demo_ev_env ''r'' (None, []) (f, if f = None then [] else [] @ [e])"
    by (rule do_append [OF e(1) _ e(2)]) (simp add: demo_lg_def)
  then have run: "(event_step demo_ev_env ''r'')\<^sup>*\<^sup>* (None, []) (f, [e])" using f(1) by auto
  have one: "1 \<le> EV_MAX_QUERY" by (simp add: EV_MAX_QUERY_def)
  obtain evs where evs: "log_replay demo_ev_env (PInt 1) f = Inr evs" "map (event_text demo_ev_env) evs = map (event_text demo_ev_env) (take (nat 1) [e])"
    using log_append_only [OF run f(2) order_refl one, THEN conjunct1] by blast
  have "map (event_text demo_ev_env) evs = [event_text demo_ev_env e]" unfolding evs(2) by simp
  then show ?thesis using f(1) evs(1) by (intro exI conjI)
qed

section \<open>A line that is cut off\<close>

text \<open>
  A crash inside an append leaves a line without its end, and from then on every append, replay and query
  of the run is refused and the file stays as it is: the log does not recover by itself.
\<close>

theorem torn_line_stops_log:
  assumes "LogBroken k \<in> set (file_lines f)"
  shows "\<not> isOK (log_append env lg e f) \<and> \<not> isOK (log_replay env limit f) \<and> \<not> isOK (log_query env ordr task limit f)"
proof -
  have "\<not> isOK (mapR (read_line env) (file_lines f))" using assms by (rule mapR_fails) (simp add: read_line_def isOK_def)
  then have "\<not> isOK (log_records env f)"
    using records_read [of env f] by (auto simp: isOK_def split: sum.split_asm sum.split)
  then obtain x where x: "log_records env f = Inl x" by (cases "log_records env f") (auto simp: isOK_def)
  show ?thesis by (auto simp: log_append_def log_replay_def log_query_def x isOK_def result_simps split: option.split sum.split)
qed

theorem torn_line_stops_log_witness: "\<not> isOK (log_append demo_ev_env demo_lg demo_event (Some [LogBroken 7]))"
  using torn_line_stops_log [of 7 "Some [LogBroken 7]" demo_ev_env demo_lg demo_event] by (simp add: file_lines_def)

text \<open>
  An append looks at the size of its own line only: a line that takes the file over the limit is written, and
  afterwards the log cannot be read or extended.
\<close>

lemma overfull_log_stops:
  assumes "EV_MAX_LOG < file_size f"
  shows "log_replay env (PInt 1) f = Inl EventError" "\<not> isOK (log_append env lg e f)"
  using assms by (auto simp: log_replay_def limit_ok_def EV_MAX_QUERY_def log_records_def log_append_def isOK_def result_simps split: option.split sum.split)

end
