(* ===== verification/EventRecorder.thy ===== *)
theory EventRecorder
  imports EventLog Checkpoint
begin

text \<open>
  The recorder of lifecycles and checkpoints, \<open>scripts/pd_fleet/lifecycle_events.py\<close>: it projects a transition
  of a task and a checkpoint onto small payloads and appends them to the event log. An argument is a value,
  a lifecycle or a checkpoint object; values that are no JSON have none of the attributes that are looked up.
\<close>

section \<open>Checks\<close>

definition REC_MAX_IDS :: nat where "REC_MAX_IDS = 128"
definition REC_CREATED_AT :: string where "REC_CREATED_AT = ''1970-01-01T00:00:00+00:00''"
definition REC_ID :: regex where "REC_ID = EV_ID"

definition UNSAFE_REASON :: regex where
  "UNSAFE_REASON = alts [ilit ''secret'', ilit ''token'', ilit ''password'', ilit ''passwd'', with_dash ''api'' ''key'', ilit ''authorization'',
     ilit ''credential'', ilit ''prompt'', ilit ''cot'', THOUGHT, ilit ''pid'', with_dash ''process'' ''id'', ilit ''handle'', ilit ''native'',
     seqs [ilit ''http'', opt (ilit ''s''), lit ''://''], ilit ''ftp://'', ilit ''www.'', Cls (\<lambda>c. in_range 0 31 c \<or> c = CHR 0x7F)]"

definition safe_reason :: "pyval \<Rightarrow> bool" where
  "safe_reason v = (case as_str v of None \<Rightarrow> False | Some s \<Rightarrow> s \<noteq> [] \<and> \<not> blank s \<and> length s \<le> 256
     \<and> CHR '':'' \<notin> set s \<and> CHR ''='' \<notin> set s \<and> \<not> re_search UNSAFE_REASON s)"

definition safe_id :: "pyval \<Rightarrow> string evres" where
  "safe_id v = (case as_str v of None \<Rightarrow> Inl EventError
     | Some s \<Rightarrow> if re_fullmatch REC_ID s \<and> \<not> re_search UNSAFE_REASON s then Inr s else Inl EventError)"

text \<open>\<open>iter(v)\<close> and \<open>len(v)\<close>; \<open>None\<close> is a \<open>TypeError\<close>.\<close>

fun py_iter :: "pyval \<Rightarrow> pyval list option" where
  "py_iter (PStr s) = Some (map (\<lambda>c. PStr [c]) s)"
| "py_iter (PList xs) = Some xs"
| "py_iter (PTuple xs) = Some xs"
| "py_iter (PDict d) = Some (map fst d)"
| "py_iter (PProxy d) = Some (map fst d)"
| "py_iter v = None"

definition safe_ids :: "pyval \<Rightarrow> string list evres" where
  "safe_ids v = (if v = PNone then Inr [] else case py_iter v of None \<Rightarrow> Inl EventError
     | Some xs \<Rightarrow> if REC_MAX_IDS < length xs then Inl EventError else mapR safe_id xs)"

definition bounded_keys :: "pyval \<Rightarrow> pyval list evres" where
  "bounded_keys v = (case as_mapping v of None \<Rightarrow> Inl EventError
     | Some d \<Rightarrow> if REC_MAX_IDS < length d then Inl EventError else Inr (map fst d))"

definition valid_state :: "state_arg \<Rightarrow> string evres" where
  "valid_state a = (case lc_state_of a of Inl _ \<Rightarrow> Inl EventError | Inr s \<Rightarrow> Inr (state_value s))"

definition rec_created :: "ev_env \<Rightarrow> pyval \<Rightarrow> string evres" where
  "rec_created env v = (if v = PNone then Inr REC_CREATED_AT else case as_str v of None \<Rightarrow> Inl EventError
     | Some s \<Rightarrow> if s \<noteq> [] \<and> re_fullmatch EV_TIMESTAMP s \<and> ee_iso env (zulu_offset s) then Inr s else Inl EventError)"

text \<open>
  \<open>_identity\<close>: \<open>json.dumps\<close> raises for values that are no JSON. It writes numbers that are not finite, which the event
  refuses next, so the refusal stands here.
\<close>

function (sequential) dumps_raises :: "pyval \<Rightarrow> bool" where
  "dumps_raises (PDict d) = (\<exists>kv \<in> set d. \<not> (case fst kv of PStr s \<Rightarrow> True | PNone \<Rightarrow> True | PBool b \<Rightarrow> True | PInt n \<Rightarrow> True | PFloat f \<Rightarrow> True | _ \<Rightarrow> False)
     \<or> dumps_raises (snd kv))"
| "dumps_raises (PProxy d) = True"
| "dumps_raises (POther n) = True"
| "dumps_raises (PList xs) = (\<exists>x \<in> set xs. dumps_raises x)"
| "dumps_raises (PTuple xs) = (\<exists>x \<in> set xs. dumps_raises x)"
| "dumps_raises v = False"
  by pat_completeness auto
termination
  by (relation "measure size")
     (auto dest: py_pair_size size_list_estimation' [of _ _ _ size, OF _ order_refl] simp: less_Suc_eq_le)

definition event_identity :: "ev_env \<Rightarrow> string \<Rightarrow> pyval \<Rightarrow> pyval \<Rightarrow> string \<Rightarrow> string evres" where
  "event_identity env run task sq kind = (if dumps_raises sq then Inl EvTypeError else
     case json_text (ee_rep env) (PList [PStr run, task, sq, PStr kind]) of None \<Rightarrow> Inl EventError | Some t \<Rightarrow> Inr (''e2-'' @ ee_sha env t))"

section \<open>The recorder\<close>

record recorder =
  rc_log :: event_log
  rc_owner :: pyval

definition recorder_init :: "event_log \<Rightarrow> pyval \<Rightarrow> pyval \<Rightarrow> recorder evres" where
  "recorder_init lg run owner =
     (if run \<noteq> PNone \<and> \<not> py_eq run (PStr (el_run lg)) then Inl EventError
      else if owner \<noteq> PNone \<and> el_owner lg \<noteq> PNone \<and> \<not> py_eq owner (el_owner lg) then Inl EventError
      else Inr \<lparr>rc_log = lg, rc_owner = (if owner = PNone then el_owner lg else owner)\<rparr>)"

definition append_new :: "ev_env \<Rightarrow> recorder \<Rightarrow> pyval \<Rightarrow> string \<Rightarrow> string \<Rightarrow> pyval \<Rightarrow> pymap \<Rightarrow> pyval \<Rightarrow> log_file \<Rightarrow> (fleet_event \<times> log_file) evres" where
  "append_new env rc task kind ordr sq payload created f = bindR (event_identity env (el_run (rc_log rc)) task sq kind) (\<lambda>i.
     bindR (rec_created env created) (\<lambda>at_time.
     bindR (FleetEvent_post_init env None \<lparr>ev_schema = PInt 1, ev_id = PStr i, ev_run = PStr (el_run (rc_log rc)), ev_task = task, ev_kind = PStr kind,
       ev_ordering = PStr ordr, ev_sequence = sq, ev_owner = rc_owner rc, ev_payload = PDict payload, ev_created_at = PStr at_time\<rparr>) (\<lambda>e.
     log_append env (rc_log rc) e f)))"

subsection \<open>Transitions\<close>

text \<open>\<open>deepcopy\<close> of a lifecycle object, the task id and the attempt of an argument.\<close>

definition life_copied :: "life_item \<Rightarrow> unit evres" where
  "life_copied x = (case x of
     LifeObject l \<Rightarrow> guardR (\<not> list_ex has_proxy [lc_outputs l, lc_evidence l, lc_final_report l, lc_report_final l]) EventError
   | LifeValue v \<Rightarrow> guardR (\<not> has_proxy v) EventError)"

definition life_task :: "life_item \<Rightarrow> string evres" where
  "life_task x = (let v = (case x of
       LifeObject l \<Rightarrow> PStr (lc_task_id l)
     | LifeValue w \<Rightarrow> (case as_mapping w of None \<Rightarrow> PNone | Some d \<Rightarrow>
         if mget_or d ''task_id'' PNone = PNone then mget_or d ''id'' PNone else mget_or d ''task_id'' PNone)) in
     case as_str v of None \<Rightarrow> Inl EventError | Some s \<Rightarrow> if re_fullmatch REC_ID s then Inr s else Inl EventError)"

definition life_attempt :: "life_item \<Rightarrow> pyval evres" where
  "life_attempt x = (let v = (case x of
       LifeObject l \<Rightarrow> PInt (lc_attempt l)
     | LifeValue w \<Rightarrow> (case as_mapping w of None \<Rightarrow> PInt 0 | Some d \<Rightarrow> mget_or d ''attempt'' (PInt 0))) in
     case v of
       PInt n \<Rightarrow> if n < 0 then Inl EventError else Inr v
     | PFloat f \<Rightarrow> if (case f of Fin q \<Rightarrow> q < 0 | NegInf \<Rightarrow> True | _ \<Rightarrow> False) then Inl EventError else Inr v
     | _ \<Rightarrow> Inl EventError)"

definition transition_payload :: "string \<Rightarrow> string \<Rightarrow> pyval \<Rightarrow> pyval \<Rightarrow> pymap" where
  "transition_payload s t attempt reason = str_keyed ([(''from'', PStr s), (''to'', PStr t), (''attempt'', attempt)]
     @ (if reason = PNone \<or> reason = PStr [] then [] else [(''reason'', reason)]))"

definition record_transition :: "ev_env \<Rightarrow> recorder \<Rightarrow> life_item \<Rightarrow> state_arg \<Rightarrow> state_arg \<Rightarrow> pyval \<Rightarrow> pyval \<Rightarrow> pyval \<Rightarrow> log_file \<Rightarrow> (fleet_event \<times> log_file) evres" where
  "record_transition env rc x from_state to_state sq reason created f = bindR (life_copied x) (\<lambda>_.
     bindR (life_task x) (\<lambda>task. bindR (life_attempt x) (\<lambda>attempt.
     bindR (valid_state from_state) (\<lambda>s. bindR (valid_state to_state) (\<lambda>t.
     bindR (guardR (reason = PNone \<or> reason = PStr [] \<or> safe_reason reason) EventError) (\<lambda>_.
     append_new env rc (PStr task) ''lifecycle.transition'' task sq (transition_payload s t attempt reason) created f))))))"

subsection \<open>Checkpoints\<close>

definition rec_count :: "pyval \<Rightarrow> int evres" where
  "rec_count v = (case py_iter v of None \<Rightarrow> Inl EventError | Some xs \<Rightarrow> Inr (int (min (length xs) REC_MAX_IDS)))"

definition rec_snapshot :: "pyval \<Rightarrow> string \<Rightarrow> pyval evres" where
  "rec_snapshot m i = (case as_mapping m of None \<Rightarrow> Inl EventError | Some d \<Rightarrow> Inr (mget_or d i (PDict [])))"

definition opt_state :: "pyval \<Rightarrow> string option evres" where
  "opt_state v = (if v = PNone then Inr None else bindR (valid_state (StateOther v)) (\<lambda>s. Inr (Some s)))"

definition rec_status :: "pyval \<Rightarrow> pyval \<Rightarrow> string option evres" where
  "rec_status snap dflt = bindR (opt_state (case as_mapping snap of None \<Rightarrow> dflt | Some d \<Rightarrow> mget_or d ''status'' PNone)) (\<lambda>a.
     bindR (opt_state (case as_mapping snap of None \<Rightarrow> PNone | Some d \<Rightarrow> mget_or d ''state'' PNone)) (\<lambda>b.
     Inr (case a of None \<Rightarrow> b | Some s \<Rightarrow> Some s)))"

definition validate_statuses :: "pyval \<Rightarrow> pyval \<Rightarrow> unit evres" where
  "validate_statuses tasks lifecycle = bindR (mapR (\<lambda>m. bindR (bounded_keys m) (\<lambda>ks. bindR (mapR safe_id ks)
     (mapR (\<lambda>i. bindR (rec_snapshot m i) (\<lambda>s. rec_status s PNone))))) [tasks, lifecycle]) (\<lambda>_. Inr ())"

definition bounded_task_ids :: "pyval \<Rightarrow> pyval \<Rightarrow> string list evres" where
  "bounded_task_ids tasks lifecycle = bindR (bounded_keys tasks) (\<lambda>ks. bindR (mapR safe_id ks) (\<lambda>ts.
     bindR (bounded_keys lifecycle) (\<lambda>ls. bindR (mapR safe_id ls) (\<lambda>lks.
     let ids = ts @ filter (\<lambda>k. k \<notin> set ts) lks in if REC_MAX_IDS < length ids then Inl EventError else Inr ids))))"

definition preferred_snapshot :: "pyval \<Rightarrow> pyval \<Rightarrow> string \<Rightarrow> pyval evres" where
  "preferred_snapshot tasks lifecycle i = bindR (rec_snapshot lifecycle i) (\<lambda>s. if as_mapping s = Some [] then rec_snapshot tasks i else Inr s)"

definition completed_from :: "pyval \<Rightarrow> pyval \<Rightarrow> string list evres" where
  "completed_from tasks lifecycle = bindR (bounded_task_ids tasks lifecycle) (\<lambda>ids.
     bindR (mapR (\<lambda>i. bindR (preferred_snapshot tasks lifecycle i) (\<lambda>s. bindR (rec_status s PNone) (\<lambda>st. Inr (i, st)))) ids) (\<lambda>its.
     Inr (map fst (filter (\<lambda>its. snd its = Some (state_value COMPLETED)) its))))"

definition resume_from :: "pyval \<Rightarrow> pyval \<Rightarrow> pyval \<Rightarrow> string list evres" where
  "resume_from tasks lifecycle completed = bindR (safe_ids completed) (\<lambda>comp. bindR (bounded_keys tasks) (\<lambda>ks.
     bindR (mapR (\<lambda>k. case as_str k of None \<Rightarrow> Inl EventError | Some i \<Rightarrow>
       bindR (preferred_snapshot tasks lifecycle i) (\<lambda>s. bindR (rec_status s (PStr ''pending'')) (\<lambda>st. Inr (i, st)))) ks) (\<lambda>its.
     Inr (map fst (filter (\<lambda>it. fst it \<notin> set comp \<and> snd it \<notin> {Some ''blocked'', Some ''skipped''}) its)))))"

text \<open>The fields of the argument: of a mapping by key, of a checkpoint object by attribute and method.\<close>

datatype checkpoint_source = SourceValue pyval | SourceObject checkpoint

record checkpoint_view =
  cv_feature :: pyval
  cv_wave :: pyval
  cv_tasks :: pyval
  cv_lifecycle :: pyval
  cv_reports :: pyval
  cv_evidence :: pyval
  cv_blockers :: pyval
  cv_completed :: pyval
  cv_resume :: pyval

definition empty_view :: checkpoint_view where
  "empty_view = \<lparr>cv_feature = PStr [], cv_wave = PInt 0, cv_tasks = PDict [], cv_lifecycle = PDict [], cv_reports = PList [],
     cv_evidence = PList [], cv_blockers = PList [], cv_completed = PList [], cv_resume = PList []\<rparr>"

definition lifecycle_dict :: "pymap dict \<Rightarrow> pyval" where
  "lifecycle_dict d = PDict (map (\<lambda>kv. (PStr (fst kv), PDict (snd kv))) d)"

definition view_of :: "checkpoint_source \<Rightarrow> checkpoint_view evres" where
  "view_of src = (case src of
     SourceValue v \<Rightarrow> if has_proxy v then Inl EventError else (case as_mapping v of None \<Rightarrow> Inr empty_view
       | Some d \<Rightarrow> Inr \<lparr>cv_feature = mget_or d ''feature'' PNone, cv_wave = mget_or d ''wave'' PNone, cv_tasks = mget_or d ''tasks'' (PDict []),
           cv_lifecycle = mget_or d ''lifecycle'' (PDict []), cv_reports = mget_or d ''reports'' (PList []), cv_evidence = mget_or d ''evidence'' (PList []),
           cv_blockers = mget_or d ''blockers'' (PList []), cv_completed = mget_or d ''completed_task_ids'' (PList []),
           cv_resume = mget_or d ''resume_task_ids'' (PList [])\<rparr>)
   | SourceObject c \<Rightarrow> (let tasks = PDict (str_keyed (cp_tasks c)); life = lifecycle_dict (cp_lifecycle c) in
       if list_ex has_proxy [cp_schema_version c, cp_feature c, cp_wave c, tasks, life, cp_reports c, cp_evidence c, cp_blockers c, cp_created_at c]
       then Inl EventError else case cp_resume_tasks c of Inl _ \<Rightarrow> Inl EventError
       | Inr resume \<Rightarrow> Inr \<lparr>cv_feature = cp_feature c, cv_wave = cp_wave c, cv_tasks = tasks, cv_lifecycle = life, cv_reports = cp_reports c,
           cv_evidence = cp_evidence c, cv_blockers = cp_blockers c, cv_completed = PList (map PStr (cp_completed_tasks c)),
           cv_resume = PList (map PStr resume)\<rparr>))"

definition checkpoint_summary :: "ev_env \<Rightarrow> checkpoint_view \<Rightarrow> pymap evres" where
  "checkpoint_summary env v = bindR (validate_statuses (cv_tasks v) (cv_lifecycle v)) (\<lambda>_.
     bindR (completed_from (cv_tasks v) (cv_lifecycle v)) (\<lambda>derived.
     let completed = (if truthy (cv_completed v) then cv_completed v else PList (map PStr derived)) in
     bindR (if truthy (cv_resume v) then Inr (cv_resume v)
       else bindR (resume_from (cv_tasks v) (cv_lifecycle v) completed) (\<lambda>ids. Inr (PList (map PStr ids)))) (\<lambda>resume.
     bindR (guardR (safe_reason (cv_feature v) \<and> (case as_int (cv_wave v) of None \<Rightarrow> False | Some n \<Rightarrow> 0 \<le> n)) EventError) (\<lambda>_.
     bindR (safe_ids completed) (\<lambda>cs. bindR (safe_ids resume) (\<lambda>rs.
     bindR (rec_count (cv_blockers v)) (\<lambda>nb. bindR (rec_count (cv_reports v)) (\<lambda>nr. bindR (rec_count (cv_evidence v)) (\<lambda>ne.
     let s = str_keyed [(''feature'', cv_feature v), (''wave'', cv_wave v), (''completed_task_ids'', PList (map PStr cs)), (''resume_task_ids'', PList (map PStr rs)),
       (''blocker_count'', PInt nb), (''report_count'', PInt nr), (''evidence_count'', PInt ne)] in
     case json_text (ee_rep env) (PDict s) of None \<Rightarrow> Inl EvTypeError
     | Some t \<Rightarrow> Inr (s @ [(PStr ''digest'', PStr (ee_sha env t))]))))))))))"

definition record_checkpoint :: "ev_env \<Rightarrow> recorder \<Rightarrow> checkpoint_source \<Rightarrow> pyval \<Rightarrow> pyval \<Rightarrow> log_file \<Rightarrow> (fleet_event \<times> log_file) evres" where
  "record_checkpoint env rc src sq created f = bindR (view_of src) (\<lambda>v. bindR (checkpoint_summary env v) (\<lambda>s.
     append_new env rc PNone ''checkpoint.committed'' ''checkpoint'' sq s created f))"

definition recorder_replay :: "ev_env \<Rightarrow> recorder \<Rightarrow> pyval \<Rightarrow> log_file \<Rightarrow> fleet_event list evres" where
  "recorder_replay env rc = log_replay env"

definition recorder_query :: "ev_env \<Rightarrow> recorder \<Rightarrow> pyval \<Rightarrow> pyval \<Rightarrow> pyval \<Rightarrow> log_file \<Rightarrow> fleet_event list evres" where
  "recorder_query env rc = log_query env"

text \<open>
  The check of ids looks for words anywhere in an id, so a checkpoint with a task called rapid is refused
  although the transitions of that task are recorded.
\<close>

lemma ordinary_id_refused: "safe_id (PStr ''rapid'') = Inl EventError \<and> life_task (LifeObject (lc_default ''rapid'' 1)) = Inr ''rapid''"
  by code_simp

end
