(* ===== verification/EventDiagnosis.thy ===== *)
theory EventDiagnosis
  imports EventRecorder RunStore
begin

text \<open>
  The read-only reports over the event log: \<open>scripts/pd_fleet/event_diagnostics.py\<close> projects the transitions of the
  log onto task states and looks for gaps, \<open>scripts/pd_fleet/run_event_reconciliation.py\<close> compares the log with the
  snapshot of the run store. The constructors of the reports check arbitrary values. The log is a regular file or missing.
\<close>

section \<open>The diagnostics report\<close>

definition DIAG_STATUS :: "string list" where
  "DIAG_STATUS = [''healthy'', ''degraded'', ''blocked'', ''unknown'']"

definition REASON_MALFORMED :: string where "REASON_MALFORMED = ''malformed_transition''"
definition REASON_INCONSISTENT :: string where "REASON_INCONSISTENT = ''inconsistent_transition''"
definition REASON_GAP :: string where "REASON_GAP = ''sequence_gap''"
definition REASON_NON_INTEGER :: string where "REASON_NON_INTEGER = ''non_integer_sequence''"
definition REASON_DUPLICATE :: string where "REASON_DUPLICATE = ''duplicate_sequence''"
definition REASON_NON_MONOTONIC :: string where "REASON_NON_MONOTONIC = ''non_monotonic_sequence''"

definition DIAG_REASONS :: "string list" where
  "DIAG_REASONS = [REASON_MALFORMED, REASON_INCONSISTENT, REASON_GAP, REASON_NON_INTEGER, REASON_DUPLICATE, REASON_NON_MONOTONIC]"

definition DIAG_MAX_REASONS :: nat where "DIAG_MAX_REASONS = 32"
definition DIAG_MAX_STATES :: nat where "DIAG_MAX_STATES = 256"
definition DIAG_MAX_GAPS :: nat where "DIAG_MAX_GAPS = 32"

record diag_report =
  dr_status :: string
  dr_events :: int
  dr_transitions :: int
  dr_checkpoints :: int
  dr_first :: pyval
  dr_last :: pyval
  dr_gaps :: "int list"
  dr_states :: "string dict"
  dr_reasons :: "string list"

definition fixed_word :: "string list \<Rightarrow> pyval \<Rightarrow> string evres" where
  "fixed_word ws v = (case as_str v of None \<Rightarrow> Inl EvValueError | Some s \<Rightarrow> if s \<in> set ws then Inr s else Inl EvValueError)"

definition report_count :: "pyval \<Rightarrow> int evres" where
  "report_count v = (case as_int v of None \<Rightarrow> Inl EvValueError | Some n \<Rightarrow> if n < 0 then Inl EvValueError else Inr n)"

text \<open>A sequence of a report; \<open>math.isfinite\<close> overflows for huge integers.\<close>

definition report_sequence :: "pyval \<Rightarrow> pyval evres" where
  "report_sequence v = (if v = PNone then Inr PNone else case ev_number v of
     Inr w \<Rightarrow> Inr w | Inl e \<Rightarrow> Inl (if e = EvOverflowError then EvOverflowError else EvValueError))"

definition bounded_tuple :: "pyval \<Rightarrow> nat \<Rightarrow> pyval list evres" where
  "bounded_tuple v n = (case py_iter v of None \<Rightarrow> Inl EvValueError | Some xs \<Rightarrow> if n < length xs then Inl EvValueError else Inr xs)"

definition state_item :: "pyval \<times> pyval \<Rightarrow> (string \<times> string) evres" where
  "state_item kv = (case as_str (fst kv) of None \<Rightarrow> Inl EvValueError | Some k \<Rightarrow>
     if re_fullmatch REC_ID k then bindR (fixed_word (map state_value all_states) (snd kv)) (\<lambda>s. Inr (k, s)) else Inl EvValueError)"

definition DiagReport_post_init :: "pyval \<Rightarrow> pyval \<Rightarrow> pyval \<Rightarrow> pyval \<Rightarrow> pyval \<Rightarrow> pyval \<Rightarrow> pyval \<Rightarrow> pyval \<Rightarrow> pyval \<Rightarrow> diag_report evres" where
  "DiagReport_post_init status events transitions checkpoints first_seq last_seq gaps states reasons =
     bindR (fixed_word DIAG_STATUS status) (\<lambda>st. bindR (report_count events) (\<lambda>ne. bindR (report_count transitions) (\<lambda>nt. bindR (report_count checkpoints) (\<lambda>nc.
     bindR (guardR (\<not> (EV_MAX_QUERY < ne \<or> ne < nt \<or> ne < nc)) EvValueError) (\<lambda>_.
     bindR (report_sequence first_seq) (\<lambda>fs. bindR (report_sequence last_seq) (\<lambda>ls.
     bindR (bounded_tuple gaps DIAG_MAX_GAPS) (\<lambda>gs. bindR (mapR report_count gs) (\<lambda>gaps'.
     bindR (case as_mapping states of None \<Rightarrow> Inl EvValueError | Some d \<Rightarrow> if DIAG_MAX_STATES < length d then Inl EvValueError else mapR state_item d) (\<lambda>its.
     bindR (bounded_tuple reasons DIAG_MAX_REASONS) (\<lambda>rs. bindR (mapR (fixed_word DIAG_REASONS) rs) (\<lambda>reasons'.
     Inr \<lparr>dr_status = st, dr_events = ne, dr_transitions = nt, dr_checkpoints = nc, dr_first = fs, dr_last = ls, dr_gaps = gaps',
       dr_states = collect its, dr_reasons = reasons'\<rparr>))))))))))))"

definition DiagReport_to_dict :: "diag_report \<Rightarrow> pyval" where
  "DiagReport_to_dict r = PDict (str_keyed [(''checkpoint_count'', PInt (dr_checkpoints r)), (''event_count'', PInt (dr_events r)),
     (''first_sequence'', dr_first r), (''last_sequence'', dr_last r), (''reasons'', PList (map PStr (dr_reasons r))),
     (''sequence_gaps'', PList (map PInt (dr_gaps r))), (''status'', PStr (dr_status r)),
     (''task_states'', PDict (map (\<lambda>kv. (PStr (fst kv), PStr (snd kv))) (sort_key fst (dr_states r)))), (''transition_count'', PInt (dr_transitions r))])"

section \<open>Diagnosis\<close>

definition empty_report :: "diag_report evres" where
  "empty_report = DiagReport_post_init (PStr ''unknown'') (PInt 0) (PInt 0) (PInt 0) PNone PNone (PTuple []) (PDict []) (PTuple [])"

definition reason_add :: "string \<Rightarrow> string list \<Rightarrow> string list" where
  "reason_add r rs = (if r \<in> set rs then rs else rs @ [r])"

definition diag_state :: "pyval \<Rightarrow> string option" where
  "diag_state v = (case lc_state_of (StateOther v) of Inl _ \<Rightarrow> None | Inr s \<Rightarrow> Some (state_value s))"

text \<open>\<open>_transition\<close>: the states and the reasons after one transition event.\<close>

definition diag_transition :: "fleet_event \<Rightarrow> string dict \<times> string list \<Rightarrow> string dict \<times> string list" where
  "diag_transition e acc = (let (states, reasons) = acc in case (as_str (ev_task e), as_mapping (ev_payload e)) of
     (Some t, Some p) \<Rightarrow> (case (diag_state (mget_or p ''from'' PNone), diag_state (mget_or p ''to'' PNone)) of
         (Some s, Some s') \<Rightarrow> if t = [] then (states, reason_add REASON_MALFORMED reasons)
           else (dset t s' states, if dget states t \<notin> {None, Some s} then reason_add REASON_INCONSISTENT reasons else reasons)
       | _ \<Rightarrow> (states, reason_add REASON_MALFORMED reasons))
   | _ \<Rightarrow> (states, reason_add REASON_MALFORMED reasons))"

definition is_kind :: "string \<Rightarrow> fleet_event \<Rightarrow> bool" where
  "is_kind k e \<longleftrightarrow> ev_kind e = PStr k"

definition project_events :: "fleet_event list \<Rightarrow> string dict \<times> string list" where
  "project_events evs = fold diag_transition (filter (is_kind ''lifecycle.transition'') evs) ([], [])"

text \<open>The comparison of neighbours; a replay holds finite numbers that are not negative.\<close>

definition order_reasons :: "rat list \<Rightarrow> string list \<Rightarrow> string list" where
  "order_reasons qs rs = fold (\<lambda>(a, b). if b = a then reason_add REASON_DUPLICATE else if b < a then reason_add REASON_NON_MONOTONIC else id)
     (zip qs (tl qs)) rs"

definition replay_anomaly :: "rat list \<Rightarrow> bool" where
  "replay_anomaly qs \<longleftrightarrow> list_ex (\<lambda>(a, b). b \<le> a) (zip qs (tl qs))"

definition missing_between :: "int list \<Rightarrow> int list" where
  "missing_between ns = take DIAG_MAX_GAPS (concat (map (\<lambda>(a, b). [a + 1..min (b - 1) (a + int DIAG_MAX_GAPS)]) (zip ns (tl ns))))"

fun least_sequence :: "pyval list \<Rightarrow> pyval" where
  "least_sequence [] = PNone"
| "least_sequence (v # vs) = fold (\<lambda>w m. if number_of w < number_of m then w else m) vs v"

fun greatest_sequence :: "pyval list \<Rightarrow> pyval" where
  "greatest_sequence [] = PNone"
| "greatest_sequence (v # vs) = fold (\<lambda>w m. if number_of m < number_of w then w else m) vs v"

definition owner_ok :: "event_log \<Rightarrow> pyval \<Rightarrow> unit evres" where
  "owner_ok lg active = (if active = PNone then Inr () else bindR (ev_number active) (\<lambda>a. guardR (py_eq a (el_owner lg)) EventError))"

definition diagnose_events :: "fleet_event list \<Rightarrow> diag_report evres" where
  "diagnose_events evs = (let seqs = map ev_sequence evs; (states, found) = project_events evs;
       integral = list_all (\<lambda>v. as_int v \<noteq> None) seqs; qs = map number_of seqs; ordered = order_reasons qs found;
       gaps = (if integral \<and> \<not> replay_anomaly qs then missing_between (map (\<lambda>v. the (as_int v)) seqs) else []);
       reasons = (if \<not> integral then reason_add REASON_NON_INTEGER ordered else if gaps \<noteq> [] then reason_add REASON_GAP ordered else ordered);
       counted = (\<lambda>k. PInt (int (length (filter (is_kind k) evs)))) in
     DiagReport_post_init (PStr (if reasons = [] then ''healthy'' else ''degraded'')) (PInt (int (length evs)))
       (counted ''lifecycle.transition'') (counted ''checkpoint.committed'') (least_sequence seqs) (greatest_sequence seqs) (PTuple (map PInt gaps))
       (PDict (map (\<lambda>kv. (PStr (fst kv), PStr (snd kv))) states)) (PTuple (map PStr reasons)))"

definition diagnose_event_log :: "ev_env \<Rightarrow> event_log \<Rightarrow> pyval \<Rightarrow> pyval \<Rightarrow> log_file \<Rightarrow> diag_report evres" where
  "diagnose_event_log env lg active limit f = bindR (owner_ok lg active) (\<lambda>_. bindR (log_replay env limit f) (\<lambda>evs.
     if evs = [] then empty_report
     else if el_owner lg \<noteq> PNone \<and> list_ex (\<lambda>e. \<not> py_eq (ev_owner e) (el_owner lg)) evs then Inl EventError
     else diagnose_events evs))"

section \<open>Reconciliation with the run store\<close>

datatype recon_error = ReconStore store_error | ReconLog ev_error | ReconValueError

definition RECON_STATUS :: "string list" where
  "RECON_STATUS = [''consistent'', ''degraded'', ''unknown'']"

definition RECON_REASONS :: "string list" where
  "RECON_REASONS = [''event_sequence_mismatch'', ''event_count_mismatch'', ''missing_store_snapshot'', ''missing_event_log'', ''run_id_mismatch'',
     ''owner_context_mismatch'']"

definition RECON_ID :: regex where
  "RECON_ID = seqs [Bos, Cls ascii_alnum, Rep 0 (Some 127) (Cls (\<lambda>c. ascii_alnum c \<or> one_of ''_.-'' c)), Dollar]"

record recon_report =
  rr_status :: string
  rr_run :: string
  rr_snapshot_status :: "string option"
  rr_generation :: "int option"
  rr_sequence :: "int option"
  rr_count :: int
  rr_last :: pyval
  rr_reasons :: "string list"

definition optional_part :: "pyval \<Rightarrow> (pyval \<Rightarrow> 'a evres) \<Rightarrow> 'a option evres" where
  "optional_part v f = (if v = PNone then Inr None else bindR (f v) (\<lambda>x. Inr (Some x)))"

definition short_text :: "nat \<Rightarrow> pyval \<Rightarrow> string evres" where
  "short_text n v = (case as_str v of None \<Rightarrow> Inl EvValueError | Some s \<Rightarrow> if n < length s then Inl EvValueError else Inr s)"

definition ReconReport_post_init :: "pyval \<Rightarrow> pyval \<Rightarrow> pyval \<Rightarrow> pyval \<Rightarrow> pyval \<Rightarrow> pyval \<Rightarrow> pyval \<Rightarrow> pyval \<Rightarrow> recon_report evres" where
  "ReconReport_post_init status run snap_status generation store_sequence events last_seq reasons =
     bindR (fixed_word RECON_STATUS status) (\<lambda>st.
     bindR (case as_str run of None \<Rightarrow> Inl EvValueError | Some r \<Rightarrow> if re_fullmatch RECON_ID r then Inr r else Inl EvValueError) (\<lambda>r.
     bindR (optional_part snap_status (short_text 256)) (\<lambda>ss. bindR (optional_part generation report_count) (\<lambda>gen.
     bindR (optional_part store_sequence report_count) (\<lambda>sq. bindR (report_count events) (\<lambda>n. bindR (guardR (n \<le> EV_MAX_QUERY) EvValueError) (\<lambda>_.
     bindR (report_sequence last_seq) (\<lambda>ls. bindR (case py_iter reasons of None \<Rightarrow> Inl EvValueError | Some xs \<Rightarrow> Inr xs) (\<lambda>rs.
     bindR (mapR (fixed_word RECON_REASONS) rs) (\<lambda>rs'.
     bindR (guardR (length rs' \<le> length RECON_REASONS \<and> distinct rs' \<and> (st \<in> {''consistent'', ''unknown''} \<longrightarrow> rs' = [])) EvValueError) (\<lambda>_.
     Inr \<lparr>rr_status = st, rr_run = r, rr_snapshot_status = ss, rr_generation = gen, rr_sequence = sq, rr_count = n, rr_last = ls, rr_reasons = rs'\<rparr>)))))))))))"

definition opt_int :: "int option \<Rightarrow> pyval" where
  "opt_int x = (case x of None \<Rightarrow> PNone | Some n \<Rightarrow> PInt n)"

definition ReconReport_to_dict :: "recon_report \<Rightarrow> pyval" where
  "ReconReport_to_dict r = PDict (str_keyed [(''event_log_count'', PInt (rr_count r)), (''event_log_last_sequence'', rr_last r),
     (''reasons'', PList (map PStr (rr_reasons r))), (''run_id'', PStr (rr_run r)), (''snapshot_generation'', opt_int (rr_generation r)),
     (''snapshot_status'', opt_text (rr_snapshot_status r)), (''status'', PStr (rr_status r)), (''store_event_sequence'', opt_int (rr_sequence r))])"

definition log_part :: "'a evres \<Rightarrow> (recon_error, 'a) result" where
  "log_part r = (case r of Inl e \<Rightarrow> Inl (if e = EvValueError then ReconValueError else ReconLog e) | Inr x \<Rightarrow> Inr x)"

definition recon_run :: "pyval \<Rightarrow> string evres" where
  "recon_run v = (case as_str v of None \<Rightarrow> Inl EvValueError | Some r \<Rightarrow> if re_fullmatch RECON_ID r then Inr r else Inl EvValueError)"

definition recon_limit :: "pyval \<Rightarrow> unit evres" where
  "recon_limit v = (case as_int v of None \<Rightarrow> Inl EvValueError | Some n \<Rightarrow> guardR (1 \<le> n \<and> n \<le> EV_MAX_QUERY) EvValueError)"

definition identity_mismatch :: "event_log \<Rightarrow> string \<Rightarrow> fleet_event list \<Rightarrow> bool" where
  "identity_mismatch lg run evs \<longleftrightarrow> el_run lg \<noteq> run \<or> list_ex (\<lambda>e. ev_run e \<noteq> PStr run) evs"

definition owner_mismatch :: "event_log \<Rightarrow> fleet_event list \<Rightarrow> bool" where
  "owner_mismatch lg evs \<longleftrightarrow> el_owner lg \<noteq> PNone \<and> list_ex (\<lambda>e. \<not> py_eq (ev_owner e) (el_owner lg)) evs"

definition unknown_report :: "string \<Rightarrow> recon_report evres" where
  "unknown_report run = ReconReport_post_init (PStr ''unknown'') (PStr run) PNone PNone PNone (PInt 0) PNone (PTuple [])"

definition recon_reasons :: "event_log \<Rightarrow> string \<Rightarrow> snapshot option \<Rightarrow> log_file \<Rightarrow> fleet_event list \<Rightarrow> pyval \<Rightarrow> string list" where
  "recon_reasons lg run snap f evs last_seq = filter (\<lambda>r.
     r = ''missing_store_snapshot'' \<and> snap = None \<or> r = ''missing_event_log'' \<and> f = None
     \<or> r = ''run_id_mismatch'' \<and> ((case snap of None \<Rightarrow> False | Some s \<Rightarrow> sn_run_id s \<noteq> run) \<or> identity_mismatch lg run evs)
     \<or> r = ''owner_context_mismatch'' \<and> owner_mismatch lg evs
     \<or> (case snap of None \<Rightarrow> False | Some s \<Rightarrow> f \<noteq> None
         \<and> (r = ''event_sequence_mismatch'' \<and> \<not> py_eq (PInt (sn_event_sequence s)) last_seq
           \<or> r = ''event_count_mismatch'' \<and> length (sn_events s) \<noteq> length evs))) RECON_REASONS"

text \<open>The snapshot is what \<open>store.load\<close> returns or raises.\<close>

definition reconcile_run_events :: "ev_env \<Rightarrow> snapshot sres \<Rightarrow> event_log \<Rightarrow> pyval \<Rightarrow> pyval \<Rightarrow> log_file \<Rightarrow> (recon_error, recon_report) result" where
  "reconcile_run_events env loaded lg run_arg limit f = bindR (log_part (recon_run run_arg)) (\<lambda>run. bindR (log_part (recon_limit limit)) (\<lambda>_.
     bindR (case loaded of Inr s \<Rightarrow> Inr (Some s) | Inl e \<Rightarrow> if e = RunNotFoundError then Inr None else Inl (ReconStore e)) (\<lambda>snap.
     bindR (log_part (log_replay env limit f)) (\<lambda>evs.
     if snap = None \<and> f = None \<and> \<not> identity_mismatch lg run evs then log_part (unknown_report run)
     else let last_seq = (if evs \<noteq> [] then ev_sequence (last evs) else if f \<noteq> None then PInt 0 else PNone);
       reasons = recon_reasons lg run snap f evs last_seq in
     log_part (ReconReport_post_init (PStr (if reasons = [] then ''consistent'' else ''degraded'')) (PStr run)
       (case snap of None \<Rightarrow> PNone | Some s \<Rightarrow> PStr (sn_status s)) (case snap of None \<Rightarrow> PNone | Some s \<Rightarrow> PInt (sn_generation s))
       (case snap of None \<Rightarrow> PNone | Some s \<Rightarrow> PInt (sn_event_sequence s)) (PInt (int (length evs))) last_seq (PTuple (map PStr reasons)))))))"

definition reconcile_missing_store :: "ev_env \<Rightarrow> event_log \<Rightarrow> pyval \<Rightarrow> pyval \<Rightarrow> log_file \<Rightarrow> (recon_error, recon_report) result" where
  "reconcile_missing_store env lg run_arg limit f = bindR (log_part (recon_run run_arg)) (\<lambda>run. bindR (log_part (recon_limit limit)) (\<lambda>_.
     bindR (log_part (log_replay env limit f)) (\<lambda>evs.
     if f = None \<and> \<not> identity_mismatch lg run evs then log_part (unknown_report run)
     else let found = [''missing_store_snapshot''] @ (if identity_mismatch lg run evs then [''run_id_mismatch''] else [])
         @ (if owner_mismatch lg evs then [''owner_context_mismatch''] else []) in
       log_part (ReconReport_post_init (PStr ''degraded'') (PStr run) PNone PNone PNone (PInt (int (length evs)))
         (if evs \<noteq> [] then ev_sequence (last evs) else PInt 0) (PTuple (map PStr (filter (\<lambda>r. r \<in> set found) RECON_REASONS)))))))"

end
