(* ===== verification/Supervision.thy ===== *)
theory Supervision
  imports Handoff EventDiagnosis
begin

text \<open>
  Supervision of workers: health signals, snapshots and diagnoses (\<open>scripts/pd_fleet/supervision.py\<close>), the report of
  the supervisor (\<open>scripts/pd_fleet/supervisor.py\<close>) and the readiness view over all reports (\<open>scripts/pd_fleet/readiness.py\<close>).
\<close>

section \<open>Signals and snapshots\<close>

datatype sv_error = SvSupervisionError | SvValueError | SvTypeError | SvOverflowError

type_synonym 'a svres = "(sv_error, 'a) result"

definition LIVENESS :: "string list" where "LIVENESS = [''alive'', ''missing'', ''unknown'']"
definition READINESS :: "string list" where "READINESS = [''ready'', ''not_ready'', ''unknown'']"
definition PROGRESS :: "string list" where "PROGRESS = [''advanced'', ''stalled'', ''unknown'']"
definition HEALTH :: "string list" where "HEALTH = [''healthy'', ''degraded'', ''failed'', ''unknown'']"

definition MAX_AGE_SECONDS :: rat where "MAX_AGE_SECONDS = 30 * 24 * 60 * 60"
definition HEARTBEAT_SUSPECT_SECONDS :: rat where "HEARTBEAT_SUSPECT_SECONDS = 60"
definition HEARTBEAT_HUMAN_SECONDS :: rat where "HEARTBEAT_HUMAN_SECONDS = 300"
definition PROGRESS_SLOW_SECONDS :: rat where "PROGRESS_SLOW_SECONDS = 300"

definition DIAGNOSIS_STATUSES :: "string list" where
  "DIAGNOSIS_STATUSES = [''healthy'', ''slow'', ''suspected'', ''blocked'', ''degraded'', ''failed'', ''needs_human_intervention'']"

definition sv_word :: "string list \<Rightarrow> pyval \<Rightarrow> string svres" where
  "sv_word ws v = (case as_str v of None \<Rightarrow> Inl SvSupervisionError | Some s \<Rightarrow> if s \<in> set ws then Inr s else Inl SvSupervisionError)"

definition sv_id :: "pyval \<Rightarrow> string svres" where
  "sv_id v = (case ho_id v of Inl e \<Rightarrow> Inl SvSupervisionError | Inr s \<Rightarrow> Inr s)"

text \<open>Errors of the handoff module pass through.\<close>

definition sv_lift :: "'a hores \<Rightarrow> 'a svres" where
  "sv_lift r = (case r of Inl HoValueError \<Rightarrow> Inl SvValueError | Inl HoTypeError \<Rightarrow> Inl SvTypeError | Inr x \<Rightarrow> Inr x)"

record health_signal =
  sg_liveness :: string
  sg_readiness :: string
  sg_progress :: string
  sg_health :: string

definition HealthSignal_new :: "pyval \<Rightarrow> pyval \<Rightarrow> pyval \<Rightarrow> pyval \<Rightarrow> health_signal svres" where
  "HealthSignal_new l r p h = bindR (sv_word LIVENESS l) (\<lambda>l'. bindR (sv_word READINESS r) (\<lambda>r'. bindR (sv_word PROGRESS p) (\<lambda>p'.
     bindR (sv_word HEALTH h) (\<lambda>h'. Inr \<lparr>sg_liveness = l', sg_readiness = r', sg_progress = p', sg_health = h'\<rparr>))))"

definition HealthSignal_to_dict :: "health_signal \<Rightarrow> pymap" where
  "HealthSignal_to_dict g = str_keyed [(''liveness'', PStr (sg_liveness g)), (''readiness'', PStr (sg_readiness g)), (''progress'', PStr (sg_progress g)),
     (''health'', PStr (sg_health g))]"

record health_snapshot =
  hh_mission_run_id :: string
  hh_task_id :: string
  hh_lane_id :: string
  hh_owner_epoch :: int
  hh_signal :: health_signal
  hh_mission_id :: string
  hh_attempt_id :: string
  hh_session_id :: string
  hh_heartbeat_age :: pyval
  hh_progress_age :: pyval

definition age_of :: "pyval \<Rightarrow> pyval svres" where
  "age_of v = (if v = PNone then Inr PNone else case ev_number v of
     Inl e \<Rightarrow> Inl (if e = EvOverflowError then SvOverflowError else SvSupervisionError)
   | Inr w \<Rightarrow> if MAX_AGE_SECONDS < number_of w then Inl SvSupervisionError else Inr w)"

text \<open>The arguments come as a dictionary of the fields other than the signal.\<close>

definition HealthSnapshot_new :: "pymap \<Rightarrow> health_signal \<Rightarrow> health_snapshot svres" where
  "HealthSnapshot_new d g = (let given = map fst d; needed = map PStr [''mission_run_id'', ''task_id'', ''lane_id'', ''owner_epoch''];
       optional = map PStr [''mission_id'', ''attempt_id'', ''session_id'', ''last_heartbeat_age_seconds'', ''last_progress_age_seconds''] in
     if \<not> set needed \<subseteq> set given \<or> \<not> set given \<subseteq> set (needed @ optional) then Inl SvTypeError else
     bindR (sv_id (mget_or d ''mission_run_id'' PNone)) (\<lambda>r. bindR (sv_id (mget_or d ''task_id'' PNone)) (\<lambda>t. bindR (sv_id (mget_or d ''lane_id'' PNone)) (\<lambda>l.
     bindR (sv_id (mget_or d ''mission_id'' (PStr ''legacy-mission''))) (\<lambda>m. bindR (sv_id (mget_or d ''attempt_id'' (PStr ''legacy-attempt''))) (\<lambda>a.
     bindR (sv_id (mget_or d ''session_id'' (PStr ''legacy-session''))) (\<lambda>s.
     case epoch_of (mget_or d ''owner_epoch'' PNone) of Inl e \<Rightarrow> Inl SvSupervisionError | Inr n \<Rightarrow>
     bindR (age_of (mget_or d ''last_heartbeat_age_seconds'' PNone)) (\<lambda>h. bindR (age_of (mget_or d ''last_progress_age_seconds'' PNone)) (\<lambda>p.
     Inr \<lparr>hh_mission_run_id = r, hh_task_id = t, hh_lane_id = l, hh_owner_epoch = n, hh_signal = g, hh_mission_id = m, hh_attempt_id = a,
       hh_session_id = s, hh_heartbeat_age = h, hh_progress_age = p\<rparr>)))))))))"

definition SV_LINEAGE :: "string list" where
  "SV_LINEAGE = [''mission_id'', ''mission_run_id'', ''task_id'', ''lane_id'', ''attempt_id'', ''session_id'', ''owner_epoch'']"

definition lineage_to_dict :: "health_snapshot \<Rightarrow> pymap" where
  "lineage_to_dict h = str_keyed [(''mission_id'', PStr (hh_mission_id h)), (''mission_run_id'', PStr (hh_mission_run_id h)), (''task_id'', PStr (hh_task_id h)),
     (''lane_id'', PStr (hh_lane_id h)), (''attempt_id'', PStr (hh_attempt_id h)), (''session_id'', PStr (hh_session_id h)), (''owner_epoch'', PInt (hh_owner_epoch h))]"

definition HealthSnapshot_to_dict :: "health_snapshot \<Rightarrow> pymap" where
  "HealthSnapshot_to_dict h = str_keyed [(''lineage'', PDict (lineage_to_dict h)), (''signal'', PDict (HealthSignal_to_dict (hh_signal h))),
     (''last_heartbeat_age_seconds'', hh_heartbeat_age h), (''last_progress_age_seconds'', hh_progress_age h)]"

section \<open>Proposals and diagnoses\<close>

record intervention =
  ip_action :: string
  ip_reason :: string
  ip_target :: string
  ip_refs :: "string list"
  ip_human :: bool

definition proposal_refs :: "pyval \<Rightarrow> string list svres" where
  "proposal_refs v = (if is_str v then Inl SvSupervisionError else case py_iter v of None \<Rightarrow> Inl SvTypeError
     | Some xs \<Rightarrow> bindR (sv_lift (mapR ho_ref xs)) (\<lambda>rs. if rs = [] \<or> HO_MAX_ITEMS < length rs then Inl SvSupervisionError else Inr rs))"

definition InterventionProposal_new :: "pyval \<Rightarrow> pyval \<Rightarrow> pyval \<Rightarrow> pyval \<Rightarrow> pyval \<Rightarrow> intervention svres" where
  "InterventionProposal_new action reason target refs human = bindR (sv_lift (sanitize_text action)) (\<lambda>a. bindR (sv_id target) (\<lambda>t.
     bindR (if \<not> hashable reason then Inl SvTypeError else sv_word HANDOFF_REASONS reason) (\<lambda>r. bindR (proposal_refs refs) (\<lambda>rs.
     case as_bool human of None \<Rightarrow> Inl SvSupervisionError
     | Some b \<Rightarrow> Inr \<lparr>ip_action = a, ip_reason = r, ip_target = t, ip_refs = rs, ip_human = b\<rparr>))))"

definition InterventionProposal_to_dict :: "intervention \<Rightarrow> pymap" where
  "InterventionProposal_to_dict p = str_keyed [(''action'', PStr (ip_action p)), (''reason'', PStr (ip_reason p)), (''target'', PStr (ip_target p)),
     (''evidence_refs'', strs (ip_refs p)), (''human_gate_required'', PBool (ip_human p))]"

definition PROPOSAL_FIELDS :: "string list" where
  "PROPOSAL_FIELDS = [''action'', ''reason'', ''target'', ''evidence_refs'', ''human_gate_required'']"

definition proposal_of :: "pymap \<Rightarrow> intervention svres" where
  "proposal_of d = (if \<not> has_keys PROPOSAL_FIELDS d then Inl SvTypeError else let v = (\<lambda>k. mget_or d k PNone) in
     InterventionProposal_new (v ''action'') (v ''reason'') (v ''target'') (v ''evidence_refs'') (v ''human_gate_required''))"

text \<open>The proposals of an argument: a list or tuple that may hold proposal objects, or any other value.\<close>

datatype proposal_item = ProposalObject intervention | ProposalValue pyval
datatype proposals_arg = ProposalItems "proposal_item list" | ProposalsValue pyval

definition proposal_items :: "proposals_arg \<Rightarrow> proposal_item list option" where
  "proposal_items a = (case a of ProposalItems xs \<Rightarrow> Some xs | ProposalsValue v \<Rightarrow> map_option (map ProposalValue) (py_iter v))"

definition text_arg :: "proposals_arg \<Rightarrow> bool" where
  "text_arg a \<longleftrightarrow> (case a of ProposalItems xs \<Rightarrow> False | ProposalsValue v \<Rightarrow> is_str v)"

definition convert_proposal :: "proposal_item \<Rightarrow> intervention svres" where
  "convert_proposal x = (case x of ProposalObject p \<Rightarrow> Inr p
     | ProposalValue v \<Rightarrow> (case as_mapping v of None \<Rightarrow> Inl SvSupervisionError | Some d \<Rightarrow> proposal_of d))"

record diagnosis =
  dg_status :: string
  dg_reasons :: "string list"
  dg_proposals :: "intervention list"

definition diagnosis_reasons :: "pyval \<Rightarrow> string list svres" where
  "diagnosis_reasons v = (if is_str v then Inl SvSupervisionError else case py_iter v of None \<Rightarrow> Inl SvSupervisionError
     | Some xs \<Rightarrow> (case mapR sanitize_text xs of Inl e \<Rightarrow> Inl SvSupervisionError
       | Inr rs \<Rightarrow> if 32 < length rs \<or> 16000 < sum_list (map length rs) then Inl SvSupervisionError else Inr rs))"

definition SupervisorDiagnosis_new :: "pyval \<Rightarrow> pyval \<Rightarrow> proposals_arg \<Rightarrow> diagnosis svres" where
  "SupervisorDiagnosis_new status reasons proposals = bindR (sv_word DIAGNOSIS_STATUSES status) (\<lambda>st. bindR (diagnosis_reasons reasons) (\<lambda>rs.
     if text_arg proposals then Inl SvSupervisionError else case proposal_items proposals of None \<Rightarrow> Inl SvTypeError
     | Some xs \<Rightarrow> if 32 < length xs then Inl SvSupervisionError
       else bindR (mapR convert_proposal xs) (\<lambda>ps. Inr \<lparr>dg_status = st, dg_reasons = rs, dg_proposals = ps\<rparr>)))"

definition SupervisorDiagnosis_to_dict :: "diagnosis \<Rightarrow> pymap" where
  "SupervisorDiagnosis_to_dict g = str_keyed [(''status'', PStr (dg_status g)), (''reasons'', strs (dg_reasons g)),
     (''proposals'', PList (map (\<lambda>p. PDict (InterventionProposal_to_dict p)) (dg_proposals g)))]"

definition proposal :: "string \<Rightarrow> string \<Rightarrow> health_snapshot \<Rightarrow> bool \<Rightarrow> intervention svres" where
  "proposal action reason h human = InterventionProposal_new (PStr action) (PStr reason) (PStr (hh_task_id h))
     (PTuple [PStr (''snapshot:'' @ hh_mission_run_id h @ '':'' @ hh_task_id h)]) (PBool human)"

definition verdict_of :: "string \<Rightarrow> string list \<Rightarrow> diagnosis svres" where
  "verdict_of status reasons = SupervisorDiagnosis_new (PStr status) (PTuple (map PStr reasons)) (ProposalItems [])"

definition proposing :: "string \<Rightarrow> string list \<Rightarrow> intervention svres \<Rightarrow> diagnosis svres" where
  "proposing status reasons p = bindR p (\<lambda>x. SupervisorDiagnosis_new (PStr status) (PTuple (map PStr reasons)) (ProposalItems [ProposalObject x]))"

definition age_reached :: "pyval \<Rightarrow> rat \<Rightarrow> bool" where
  "age_reached v n \<longleftrightarrow> v \<noteq> PNone \<and> n \<le> number_of v"

definition diagnose_snapshot :: "health_snapshot \<Rightarrow> diagnosis svres" where
  "diagnose_snapshot h = (let g = hh_signal h in
     if sg_health g = ''failed'' then proposing ''failed'' [''worker_reported_failed''] (proposal ''inspect'' ''human_intervention'' h True)
     else if sg_liveness g = ''missing'' then
       (if age_reached (hh_heartbeat_age h) HEARTBEAT_HUMAN_SECONDS
        then proposing ''needs_human_intervention'' [''heartbeat_missing_too_long''] (proposal ''inspect'' ''human_intervention'' h True)
        else verdict_of ''suspected'' [''heartbeat_missing''])
     else if sg_readiness g = ''not_ready'' then proposing ''blocked'' [''worker_not_ready''] (proposal ''inspect'' ''fallback'' h False)
     else if sg_progress g = ''stalled'' then
       (if age_reached (hh_progress_age h) PROGRESS_SLOW_SECONDS
        then proposing ''slow'' [''progress_stalled'', ''progress_age_exceeded_slow_threshold''] (proposal ''inspect'' ''retry'' h False)
        else verdict_of ''suspected'' [''progress_stalled''])
     else if sg_health g = ''degraded'' then proposing ''degraded'' [''health_degraded''] (proposal ''inspect'' ''fallback'' h False)
     else if ''unknown'' \<in> {sg_liveness g, sg_readiness g, sg_progress g, sg_health g} then verdict_of ''suspected'' [''incomplete_health_signal'']
     else if age_reached (hh_heartbeat_age h) HEARTBEAT_SUSPECT_SECONDS then verdict_of ''suspected'' [''heartbeat_age_exceeded_suspect_threshold'']
     else verdict_of ''healthy'' [])"

definition DESIRED_STATES :: "string list" where
  "DESIRED_STATES = [''running'', ''paused'', ''completed'', ''cancelled'']"

definition reconcile_snapshot :: "health_snapshot \<Rightarrow> pyval \<Rightarrow> pyval \<Rightarrow> diagnosis svres" where
  "reconcile_snapshot h desired active =
     bindR (if \<not> hashable desired then Inl SvTypeError else sv_word DESIRED_STATES desired) (\<lambda>s.
     bindR (if active = PNone then Inr None else case epoch_of active of Inl e \<Rightarrow> Inl SvSupervisionError | Inr n \<Rightarrow> Inr (Some n)) (\<lambda>a.
     if a \<noteq> None \<and> a \<noteq> Some (hh_owner_epoch h) then verdict_of ''blocked'' [''stale_owner_epoch'']
     else if s = ''running'' then diagnose_snapshot h
     else if s = ''paused'' \<and> sg_liveness (hh_signal h) = ''alive'' then verdict_of ''degraded'' [''pause_not_observed'']
     else if s \<in> {''completed'', ''cancelled''} \<and> sg_progress (hh_signal h) \<noteq> ''advanced'' then verdict_of ''blocked'' [''terminal_state_not_ready'']
     else verdict_of ''healthy'' []))"

section \<open>The supervisor\<close>

record supervisor_report =
  sr_diagnosis :: diagnosis
  sr_interventions :: "intervention list"
  sr_lineage :: pyval

definition convert_intervention :: "proposal_item \<Rightarrow> intervention svres" where
  "convert_intervention x = (case x of ProposalObject p \<Rightarrow> Inr p
     | ProposalValue v \<Rightarrow> (case as_pdict v of None \<Rightarrow> Inl SvValueError | Some d \<Rightarrow> proposal_of d))"

definition lineage_checked :: "pyval \<Rightarrow> pyval svres" where
  "lineage_checked v = (if v = PNone then Inr PNone else case as_mapping v of None \<Rightarrow> Inl SvValueError | Some d \<Rightarrow>
     if \<not> has_keys SV_LINEAGE d then Inl SvValueError else
     bindR (mapR (\<lambda>k. sv_id (mget_or d k PNone)) [''mission_id'', ''mission_run_id'', ''task_id'', ''lane_id'', ''attempt_id'', ''session_id'']) (\<lambda>_.
     case epoch_of (mget_or d ''owner_epoch'' PNone) of Inl e \<Rightarrow> Inl SvValueError | Inr n \<Rightarrow>
       (case ho_freeze (PDict d) of None \<Rightarrow> Inl SvValueError | Some w \<Rightarrow> Inr w)))"

definition SupervisorReport_new :: "diagnosis \<Rightarrow> proposals_arg \<Rightarrow> pyval \<Rightarrow> supervisor_report svres" where
  "SupervisorReport_new g interventions lin = (if text_arg interventions then Inl SvValueError else case proposal_items interventions of None \<Rightarrow> Inl SvValueError
     | Some xs \<Rightarrow> if 32 < length xs then Inl SvValueError else bindR (mapR convert_intervention xs) (\<lambda>ps. bindR (lineage_checked lin) (\<lambda>w.
         Inr \<lparr>sr_diagnosis = g, sr_interventions = ps, sr_lineage = w\<rparr>)))"

definition SupervisorReport_to_dict :: "supervisor_report \<Rightarrow> pymap" where
  "SupervisorReport_to_dict r = str_keyed ([(''diagnosis'', PDict (SupervisorDiagnosis_to_dict (sr_diagnosis r))),
     (''interventions'', PList (map (\<lambda>p. PDict (InterventionProposal_to_dict p)) (sr_interventions r)))]
     @ (case as_mapping (sr_lineage r) of None \<Rightarrow> []
        | Some d \<Rightarrow> [(''lineage'', PDict (map (\<lambda>k. (PStr k, ho_thaw (mget_or d k PNone))) SV_LINEAGE))]))"

definition observe :: "health_snapshot \<Rightarrow> pyval \<Rightarrow> pyval \<Rightarrow> supervisor_report svres" where
  "observe h desired active = bindR (reconcile_snapshot h desired active) (\<lambda>g.
     SupervisorReport_new g (ProposalItems (map ProposalObject (dg_proposals g))) (PDict (lineage_to_dict h)))"

definition supervisor_diagnose_events :: "ev_env \<Rightarrow> event_log \<Rightarrow> pyval \<Rightarrow> pyval \<Rightarrow> log_file \<Rightarrow> diag_report evres" where
  "supervisor_diagnose_events env = diagnose_event_log env"

definition supervisor_reconcile_events :: "ev_env \<Rightarrow> snapshot sres \<Rightarrow> event_log \<Rightarrow> pyval \<Rightarrow> pyval \<Rightarrow> log_file \<Rightarrow> (recon_error, recon_report) result" where
  "supervisor_reconcile_events env = reconcile_run_events env"

definition preview_handoff :: "ho_env \<Rightarrow> pymap \<Rightarrow> pymap \<Rightarrow> artifact hores" where
  "preview_handoff env ids args = create_handoff env ids args"

section \<open>Readiness\<close>

record readiness_view =
  rv_status :: string
  rv_supervisor :: "string option"
  rv_event :: "string option"
  rv_reconciliation :: "string option"
  rv_reasons :: "string list"
  rv_components :: "string list"

definition RV_STATUSES :: "string list" where "RV_STATUSES = [''ready'', ''unknown'', ''degraded'', ''blocked'']"
definition RV_REASONS :: "string list" where "RV_REASONS = [''supervisor_blocked'', ''source_degraded'', ''missing_or_unknown_source'']"
definition RV_COMPONENTS :: "string list" where "RV_COMPONENTS = [''supervisor'', ''event'', ''reconciliation'']"
definition RV_MAX_ITEMS :: nat where "RV_MAX_ITEMS = 3"
definition RV_SUPERVISOR :: "string list" where
  "RV_SUPERVISOR = [''healthy'', ''slow'', ''suspected'', ''blocked'', ''degraded'', ''failed'', ''needs_human_intervention'']"
definition RV_EVENT :: "string list" where "RV_EVENT = [''healthy'', ''degraded'', ''unknown'']"
definition RV_RECONCILIATION :: "string list" where "RV_RECONCILIATION = [''consistent'', ''degraded'', ''unknown'']"

definition rv_word :: "string list \<Rightarrow> pyval \<Rightarrow> string svres" where
  "rv_word ws v = (case as_str v of None \<Rightarrow> Inl SvValueError | Some s \<Rightarrow> if s \<in> set ws then Inr s else Inl SvValueError)"

definition source_status :: "string list \<Rightarrow> pyval \<Rightarrow> string option svres" where
  "source_status ws v = (if v = PNone then Inr None else bindR (rv_word ws v) (\<lambda>s. Inr (Some s)))"

fun fixed_items :: "string list \<Rightarrow> bool \<Rightarrow> string list \<Rightarrow> pyval list \<Rightarrow> string list svres" where
  "fixed_items ws dedupe seen [] = Inr seen"
| "fixed_items ws dedupe seen (v # vs) = bindR (rv_word ws v) (\<lambda>s.
     if s \<in> set seen then (if dedupe then fixed_items ws dedupe seen vs else Inl SvValueError) else fixed_items ws dedupe (seen @ [s]) vs)"

definition fixed_tuple :: "string list \<Rightarrow> bool \<Rightarrow> pyval \<Rightarrow> string list svres" where
  "fixed_tuple ws dedupe v = (case as_ptuple v of None \<Rightarrow> Inl SvTypeError
     | Some xs \<Rightarrow> if RV_MAX_ITEMS < length xs then Inl SvValueError else fixed_items ws dedupe [] xs)"

definition expected_components :: "string option \<Rightarrow> string option \<Rightarrow> string option \<Rightarrow> string list" where
  "expected_components a b c = map fst (filter (\<lambda>nv. snd nv \<noteq> None) [(''supervisor'', a), (''event'', b), (''reconciliation'', c)])"

definition view_consistent :: "readiness_view \<Rightarrow> bool" where
  "view_consistent v \<longleftrightarrow> (let found = {rv_supervisor v, rv_event v, rv_reconciliation v} in
     if rv_status v = ''ready'' then rv_reasons v = [] \<and> rv_supervisor v \<in> {None, Some ''healthy''} \<and> rv_event v \<in> {None, Some ''healthy''}
       \<and> rv_reconciliation v \<in> {None, Some ''consistent''}
     else if rv_status v = ''blocked'' then rv_reasons v = [''supervisor_blocked'']
       \<and> rv_supervisor v \<in> {Some ''blocked'', Some ''failed'', Some ''needs_human_intervention''}
     else if rv_status v = ''degraded'' then rv_reasons v = [''source_degraded''] \<and> (Some ''slow'' \<in> found \<or> Some ''degraded'' \<in> found)
     else rv_reasons v = [''missing_or_unknown_source''] \<and> (rv_components v = [] \<or> Some ''suspected'' \<in> found \<or> Some ''unknown'' \<in> found))"

definition ReadinessView_new :: "pyval \<Rightarrow> pyval \<Rightarrow> pyval \<Rightarrow> pyval \<Rightarrow> pyval \<Rightarrow> pyval \<Rightarrow> readiness_view svres" where
  "ReadinessView_new status supv evt recon reasons components = bindR (rv_word RV_STATUSES status) (\<lambda>st. bindR (source_status RV_SUPERVISOR supv) (\<lambda>a.
     bindR (source_status RV_EVENT evt) (\<lambda>b. bindR (source_status RV_RECONCILIATION recon) (\<lambda>c. bindR (fixed_tuple RV_REASONS True reasons) (\<lambda>rs.
     bindR (fixed_tuple RV_COMPONENTS False components) (\<lambda>cs. let v = \<lparr>rv_status = st, rv_supervisor = a, rv_event = b, rv_reconciliation = c,
         rv_reasons = rs, rv_components = cs\<rparr> in
       if cs \<noteq> expected_components a b c \<or> \<not> view_consistent v then Inl SvValueError else Inr v))))))"

definition ReadinessView_to_dict :: "readiness_view \<Rightarrow> pymap" where
  "ReadinessView_to_dict v = str_keyed [(''event_status'', opt_text (rv_event v)), (''present_components'', strs (rv_components v)), (''reasons'', strs (rv_reasons v)),
     (''reconciliation_status'', opt_text (rv_reconciliation v)), (''status'', PStr (rv_status v)), (''supervisor_status'', opt_text (rv_supervisor v))]"

text \<open>The view of the statuses of the sources, and of the reports.\<close>

definition compose_statuses :: "string option \<Rightarrow> string option \<Rightarrow> string option \<Rightarrow> readiness_view svres" where
  "compose_statuses a b c = (let components = expected_components a b c;
       (status, reasons) = (if a \<in> {Some ''blocked'', Some ''failed'', Some ''needs_human_intervention''} then (''blocked'', [''supervisor_blocked''])
         else if a \<in> {Some ''degraded'', Some ''slow''} \<or> Some ''degraded'' \<in> {b, c} then (''degraded'', [''source_degraded''])
         else if components = [] \<or> a = Some ''suspected'' \<or> Some ''unknown'' \<in> {b, c} then (''unknown'', [''missing_or_unknown_source''])
         else (''ready'', [])) in
     ReadinessView_new (PStr status) (opt_text a) (opt_text b) (opt_text c) (PTuple (map PStr reasons)) (PTuple (map PStr components)))"

definition compose_readiness :: "supervisor_report option \<Rightarrow> diag_report option \<Rightarrow> recon_report option \<Rightarrow> readiness_view svres" where
  "compose_readiness supv evt recon =
     compose_statuses (map_option (\<lambda>r. dg_status (sr_diagnosis r)) supv) (map_option dr_status evt) (map_option rr_status recon)"

definition supervisor_readiness_view :: "supervisor_report option \<Rightarrow> diag_report option \<Rightarrow> recon_report option \<Rightarrow> readiness_view svres" where
  "supervisor_readiness_view supv evt recon = compose_readiness supv evt recon"

end
