(* ===== verification/EventProjection.thy ===== *)
theory EventProjection
  imports EventDiagnosis RunStoreFacts
begin

text \<open>
  What the log tells about the tasks: when the transitions of lifecycles are recorded, in any interleaving, the
  diagnosis of the log shows each task in the state of its lifecycle. Reconciliation with the run store is exact
  for runs that fit in one query, and no longer run is ever consistent.
\<close>

section \<open>Payloads that are read back\<close>

lemma payload_get:
  assumes ok: "event_ok env e" and thaw: "ev_thaw (ev_payload e) = PDict q" and w: "wire (PDict q)" and get: "mget q k = Some (PStr s)"
  obtains d where "reread_payload e = PProxy d" "mget d k = Some (PStr s)"
proof -
  have fr: "frozen 0 (reread_payload e)" by (rule freeze_frozen [OF reread_payload(1) [OF ok]])
  have thawed: "ev_thaw (reread_payload e) = PDict (sort_key item_key (map (\<lambda>kv. (fst kv, sort_json (snd kv))) q))"
    using reread_payload(2) [OF ok] by (simp add: thaw)
  then obtain d where d: "reread_payload e = PProxy d" using fr by (cases "reread_payload e") auto
  have items: "map (\<lambda>kv. (fst kv, ev_thaw (snd kv))) d = sort_key item_key (map (\<lambda>kv. (fst kv, sort_json (snd kv))) q)"
    using thawed frozen_proxy_thaw [of 0 d] fr unfolding d by (metis pyval.inject(7))
  have "distinct (map fst (map (\<lambda>kv. (fst kv, sort_json (snd kv))) q))" using w by (simp add: str_dict_def comp_def)
  from mget_sort [OF this, of item_key] have "map_option ev_thaw (mget d k) = map_option sort_json (mget q k)"
    unfolding items [symmetric] mget_map .
  then obtain v where "mget d k = Some v" "ev_thaw v = PStr s" using get by auto
  then show thesis using that [OF d] by (cases v) auto
qed

section \<open>What the recorder writes\<close>

text \<open>
  The log and what has been written to it, event by event: for a transition the task and its history entry,
  \<open>None\<close> for a checkpoint.
\<close>

type_synonym record_config = "log_file \<times> (string \<times> history_entry) option list"

inductive record_step :: "ev_env \<Rightarrow> recorder \<Rightarrow> record_config \<Rightarrow> record_config \<Rightarrow> bool" for env rc where
  do_record: "record_transition env rc (LifeObject l) (StateMember (h_from h)) (StateMember (h_to h)) sq reason created f = Inr (e, f') \<Longrightarrow>
     record_step env rc (f, hs) (f', if f' = f then hs else hs @ [Some (lc_task_id l, h)])"
| do_checkpoint: "record_checkpoint env rc src sq created f = Inr (e, f') \<Longrightarrow>
     record_step env rc (f, hs) (f', if f' = f then hs else hs @ [None])"

fun transitions :: "(string \<times> history_entry) option list \<Rightarrow> (string \<times> history_entry) list" where
  "transitions [] = []"
| "transitions (None # hs) = transitions hs"
| "transitions (Some th # hs) = th # transitions hs"

definition own_event :: "recorder \<Rightarrow> fleet_event \<Rightarrow> bool" where
  "own_event rc e \<longleftrightarrow> el_owner (rc_log rc) = PNone \<or> py_eq (ev_owner e) (el_owner (rc_log rc))"

definition projects :: "recorder \<Rightarrow> fleet_event \<Rightarrow> string \<times> history_entry \<Rightarrow> bool" where
  "projects rc e th \<longleftrightarrow> ev_kind e = PStr ''lifecycle.transition'' \<and> ev_task e = PStr (fst th) \<and> re_fullmatch REC_ID (fst th)
     \<and> (\<exists>d. as_mapping (ev_payload e) = Some d \<and> mget d ''from'' = Some (PStr (state_value (h_from (snd th))))
         \<and> mget d ''to'' = Some (PStr (state_value (h_to (snd th)))))"

definition records :: "recorder \<Rightarrow> fleet_event \<Rightarrow> (string \<times> history_entry) option \<Rightarrow> bool" where
  "records rc e x \<longleftrightarrow> own_event rc e \<and> (case x of None \<Rightarrow> ev_kind e = PStr ''checkpoint.committed'' | Some th \<Rightarrow> projects rc e th)"

lemma append_own: "log_append env (rc_log rc) e f = Inr y \<Longrightarrow> own_event rc (reread_event e)"
  by (auto simp: log_append_def own_event_def reread_event_def split: if_split_asm)

lemma transition_event:
  assumes "record_transition env rc (LifeObject l) (StateMember (h_from h)) (StateMember (h_to h)) sq reason created f = Inr (x, f')"
  obtains raw e where "FleetEvent_post_init env None raw = Inr e" "log_append env (rc_log rc) e f = Inr (x, f')"
    "records rc (reread_event e) (Some (lc_task_id l, h))"
proof -
  let ?q = "transition_payload (state_value (h_from h)) (state_value (h_to h)) (PInt (lc_attempt l)) reason"
  have task: "life_task (LifeObject l) = Inr t \<Longrightarrow> t = lc_task_id l \<and> re_fullmatch REC_ID t" for t
    by (simp add: life_task_def split: if_split_asm)
  have att: "life_attempt (LifeObject l) = Inr v \<Longrightarrow> v = PInt (lc_attempt l)" for v
    by (simp add: life_attempt_def split: if_split_asm)
  obtain i c e where id: "re_fullmatch REC_ID (lc_task_id l)" and safe: "reason = PNone \<or> reason = PStr [] \<or> safe_reason reason"
    and e: "FleetEvent_post_init env None \<lparr>ev_schema = PInt 1, ev_id = PStr i, ev_run = PStr (el_run (rc_log rc)), ev_task = PStr (lc_task_id l),
       ev_kind = PStr ''lifecycle.transition'', ev_ordering = PStr (lc_task_id l), ev_sequence = sq, ev_owner = rc_owner rc, ev_payload = PDict ?q,
       ev_created_at = PStr c\<rparr> = Inr e" and app: "log_append env (rc_log rc) e f = Inr (x, f')"
    using assms unfolding record_transition_def append_new_def bindR_eq_Inr
    by (elim exE conjE) (auto simp: valid_state_def result_simps dest!: task att)
  have ok: "event_ok env e" by (rule post_init_ok [OF e])
  have w: "wire (PDict ?q)" using safe
    by (auto simp: transition_payload_def str_keyed_def str_dict_def safe_reason_def split: option.split_asm)
  have thaw: "ev_thaw (ev_payload e) = PDict ?q"
    by (rule freeze_wire [OF w, of 0]) (use post_init_payload [OF e] in \<open>simp del: ev_freeze.simps\<close>)
  have kind: "ev_kind e = PStr ''lifecycle.transition''" "ev_task e = PStr (lc_task_id l)"
    using e by (auto simp: post_init_simps Let_def split: option.split_asm if_split_asm)
  note own = append_own [OF app]
  have "mget ?q ''from'' = Some (PStr (state_value (h_from h)))" "mget ?q ''to'' = Some (PStr (state_value (h_to h)))"
    by (simp_all add: transition_payload_def str_keyed_def)
  then obtain d d' where "reread_payload e = PProxy d" "mget d ''from'' = Some (PStr (state_value (h_from h)))"
    "reread_payload e = PProxy d'" "mget d' ''to'' = Some (PStr (state_value (h_to h)))"
    using payload_get [OF ok thaw w] by metis
  then have "records rc (reread_event e) (Some (lc_task_id l, h))"
    using kind own id by (simp add: records_def projects_def reread_event_def)
  then show thesis by (rule that [OF e app])
qed

lemma checkpoint_event:
  assumes "record_checkpoint env rc src sq created f = Inr (x, f')"
  obtains raw e where "FleetEvent_post_init env None raw = Inr e" "log_append env (rc_log rc) e f = Inr (x, f')"
    "records rc (reread_event e) None"
proof -
  obtain q where new: "append_new env rc PNone ''checkpoint.committed'' ''checkpoint'' sq q created f = Inr (x, f')"
    using assms unfolding record_checkpoint_def bindR_eq_Inr by blast
  let ?raw = "\<lambda>i c. \<lparr>ev_schema = PInt 1, ev_id = PStr i, ev_run = PStr (el_run (rc_log rc)), ev_task = PNone,
       ev_kind = PStr ''checkpoint.committed'', ev_ordering = PStr ''checkpoint'', ev_sequence = sq, ev_owner = rc_owner rc,
       ev_payload = PDict q, ev_created_at = PStr c\<rparr>"
  obtain i c e where e: "FleetEvent_post_init env None (?raw i c) = Inr e" and app: "log_append env (rc_log rc) e f = Inr (x, f')"
    using new unfolding append_new_def bindR_eq_Inr by blast
  have "ev_kind e = PStr ''checkpoint.committed''"
    using e by (auto simp: post_init_simps Let_def split: option.split_asm if_split_asm)
  then have "records rc (reread_event e) None" using append_own [OF app] by (simp add: records_def reread_event_def)
  then show thesis by (rule that [OF e app])
qed

lemma recorded_log:
  assumes "(record_step env rc)\<^sup>*\<^sup>* (None, []) (f, hs)"
  obtains hist where "(event_step env (el_run (rc_log rc)))\<^sup>*\<^sup>* (None, []) (f, hist)" "list_all2 (records rc) (map reread_event hist) hs"
proof -
  have "\<exists>hist. (event_step env (el_run (rc_log rc)))\<^sup>*\<^sup>* (None, []) (fst c, hist) \<and> list_all2 (records rc) (map reread_event hist) (snd c)"
    if "(record_step env rc)\<^sup>*\<^sup>* (None, []) c" for c
    using that
  proof (induction rule: rtranclp_induct)
    case base
    show ?case by (intro exI [of _ "[]"]) simp
  next
    case (step c c')
    then obtain hist where hist: "(event_step env (el_run (rc_log rc)))\<^sup>*\<^sup>* (None, []) (fst c, hist)"
      "list_all2 (records rc) (map reread_event hist) (snd c)" by blast
    have "\<exists>raw ev e x. FleetEvent_post_init env None raw = Inr ev \<and> log_append env (rc_log rc) ev (fst c) = Inr (e, fst c')
        \<and> records rc (reread_event ev) x \<and> snd c' = (if fst c' = fst c then snd c else snd c @ [x])"
      using step.hyps(2)
    proof cases
      case (do_record l h sq reason created f e f' hs)
      obtain raw ev where ev: "FleetEvent_post_init env None raw = Inr ev" "log_append env (rc_log rc) ev f = Inr (e, f')"
        "records rc (reread_event ev) (Some (lc_task_id l, h))" using transition_event [OF do_record(3)] .
      show ?thesis unfolding do_record(1,2) fst_conv snd_conv
        by (rule exI [of _ raw], rule exI [of _ ev], rule exI [of _ e], rule exI [of _ "Some (lc_task_id l, h)"]) (use ev in simp)
    next
      case (do_checkpoint src sq created f e f' hs)
      obtain raw ev where ev: "FleetEvent_post_init env None raw = Inr ev" "log_append env (rc_log rc) ev f = Inr (e, f')"
        "records rc (reread_event ev) None" using checkpoint_event [OF do_checkpoint(3)] .
      show ?thesis unfolding do_checkpoint(1,2) fst_conv snd_conv
        by (rule exI [of _ raw], rule exI [of _ ev], rule exI [of _ e], rule exI [of _ None]) (use ev in simp)
    qed
    then obtain raw ev e x where ev: "FleetEvent_post_init env None raw = Inr ev" "log_append env (rc_log rc) ev (fst c) = Inr (e, fst c')"
      "records rc (reread_event ev) x" "snd c' = (if fst c' = fst c then snd c else snd c @ [x])" by blast
    have "event_step env (el_run (rc_log rc)) (fst c, hist) (fst c', if fst c' = fst c then hist else hist @ [ev])"
      by (rule do_append [OF ev(1) refl ev(2)])
    with hist(1) have "(event_step env (el_run (rc_log rc)))\<^sup>*\<^sup>* (None, []) (fst c', if fst c' = fst c then hist else hist @ [ev])"
      by (simp add: rtranclp.rtrancl_into_rtrancl)
    moreover have "list_all2 (records rc) (map reread_event (if fst c' = fst c then hist else hist @ [ev])) (snd c')"
      using hist(2) ev(3) by (simp add: ev(4) list_all2_appendI)
    ultimately show ?case by blast
  qed
  from this [OF assms] show thesis using that by auto
qed

section \<open>The projection\<close>

definition state_step :: "string \<times> history_entry \<Rightarrow> string dict \<times> string list \<Rightarrow> string dict \<times> string list" where
  "state_step th acc = (dset (fst th) (state_value (h_to (snd th))) (fst acc),
     if dget (fst acc) (fst th) \<notin> {None, Some (state_value (h_from (snd th)))} then reason_add REASON_INCONSISTENT (snd acc) else snd acc)"

lemma diag_state_value: "diag_state (PStr (state_value s)) = Some (state_value s)"
  by (simp add: diag_state_def)

lemma empty_id: "\<not> re_fullmatch REC_ID []"
  by code_simp

lemma fullmatch_nonempty: "re_fullmatch REC_ID t \<Longrightarrow> t \<noteq> []"
  using empty_id by (cases t) simp_all

lemma project_one:
  assumes "projects rc e th"
  shows "diag_transition e acc = state_step th acc"
proof -
  obtain d where d: "as_mapping (ev_payload e) = Some d" "mget d ''from'' = Some (PStr (state_value (h_from (snd th))))"
      "mget d ''to'' = Some (PStr (state_value (h_to (snd th))))" and task: "ev_task e = PStr (fst th)" and id: "re_fullmatch REC_ID (fst th)"
    using assms unfolding projects_def by blast
  have "fst th \<noteq> []" by (rule fullmatch_nonempty [OF id])
  then show ?thesis
    by (simp add: diag_transition_def state_step_def d task mget_or_def diag_state_value split: prod.split)
qed

lemma kinds: "projects rc e th \<Longrightarrow> is_kind ''lifecycle.transition'' e \<and> \<not> is_kind ''checkpoint.committed'' e"
  by (simp add: projects_def is_kind_def)

lemma records_kind: "records rc e x \<Longrightarrow> is_kind ''lifecycle.transition'' e \<longleftrightarrow> x \<noteq> None"
  "records rc e x \<Longrightarrow> is_kind ''checkpoint.committed'' e \<longleftrightarrow> x = None"
  by (auto simp: records_def is_kind_def projects_def split: option.splits)

text \<open>The transitions among the events are those recorded, and the rest are the checkpoints.\<close>

lemma recorded_kinds:
  assumes "list_all2 (records rc) evs hs"
  shows "list_all2 (projects rc) (filter (is_kind ''lifecycle.transition'') evs) (transitions hs)"
    and "length (filter (is_kind ''checkpoint.committed'') evs) = length (filter (\<lambda>x. x = None) hs)"
  using assms
proof (induction rule: list_all2_induct)
  case (Cons e evs x hs)
  note kind = records_kind [OF Cons.hyps(1)]
  {
    case 1
    show ?case using Cons.IH(1) Cons.hyps(1) kind by (cases x) (simp_all add: records_def)
  next
    case 2
    show ?case using Cons.IH(2) kind by (cases x) simp_all
  }
qed simp_all

lemma project_all:
  assumes "list_all2 (records rc) evs hs"
  shows "project_events evs = fold state_step (transitions hs) ([], [])"
proof -
  have "list_all2 (projects rc) evs ths \<Longrightarrow> fold diag_transition evs acc = fold state_step ths acc" for evs ths acc
  proof (induction arbitrary: acc rule: list_all2_induct)
    case (Cons e evs th hs)
    show ?case using Cons.IH by (simp add: project_one [OF Cons.hyps(1)])
  qed simp
  from this [OF recorded_kinds(1) [OF assms]] show ?thesis by (simp add: project_events_def)
qed

definition entries_of :: "string \<Rightarrow> (string \<times> history_entry) list \<Rightarrow> history_entry list" where
  "entries_of t hs = map snd (filter (\<lambda>th. fst th = t) hs)"

definition continuous :: "history_entry list \<Rightarrow> bool" where
  "continuous H \<longleftrightarrow> map h_from H = butlast (PENDING # map h_to H)"

lemma snoc_eq_iff: "Z \<noteq> [] \<Longrightarrow> xs @ [y] = Z \<longleftrightarrow> xs = butlast Z \<and> y = last Z"
  by (cases Z rule: rev_cases) auto

lemma continuous_snoc: "continuous (H @ [x]) \<longleftrightarrow> continuous H \<and> h_from x = last (PENDING # map h_to H)"
  unfolding continuous_def snoc_eq_iff [of "PENDING # map h_to H", OF list.distinct(2), symmetric] by (simp add: butlast_append)

lemma entries_snoc: "entries_of t (hs @ [th]) = (if fst th = t then entries_of t hs @ [snd th] else entries_of t hs)"
  by (simp add: entries_of_def)

lemma project_states:
  assumes "\<And>t. continuous (entries_of t hs)"
  shows "(\<forall>t. dget (fst (fold state_step hs ([], []))) t
      = (if entries_of t hs = [] then None else Some (state_value (last (PENDING # map h_to (entries_of t hs))))))
    \<and> snd (fold state_step hs ([], [])) = []"
  using assms
proof (induction hs rule: rev_induct)
  case Nil
  show ?case by (simp add: entries_of_def dget_def)
next
  case (snoc th hs)
  have cont: "continuous (entries_of t hs)" for t using snoc.prems [of t] by (auto simp: entries_snoc continuous_snoc split: if_split_asm)
  note IH = snoc.IH [OF cont]
  have from_last: "h_from (snd th) = last (PENDING # map h_to (entries_of (fst th) hs))"
    using snoc.prems [of "fst th"] by (simp add: entries_snoc continuous_snoc)
  show ?case using IH from_last by (auto simp: state_step_def entries_snoc dict_simps)
qed

lemma state_keys: "set (dkeys (fst (fold state_step hs acc))) = set (dkeys (fst acc)) \<union> fst ` set hs"
  "distinct (dkeys (fst acc)) \<Longrightarrow> distinct (dkeys (fst (fold state_step hs acc)))"
proof (induction hs arbitrary: acc)
  case (Cons th hs)
  {
    case 1
    show ?case using Cons.IH(1) [of "state_step th acc"] by (auto simp: state_step_def)
  next
    case 2
    then have "distinct (dkeys (fst (state_step th acc)))" by (simp add: state_step_def dict_wf_dset [unfolded dict_wf_def])
    then show ?case using Cons.IH(2) by simp
  }
qed simp_all

section \<open>The diagnosis of such a log\<close>

lemma increasing_order: "sorted_wrt (<) qs \<Longrightarrow> order_reasons qs rs = rs \<and> \<not> replay_anomaly qs"
proof (induction qs)
  case (Cons q qs)
  then show ?case by (cases qs) (auto simp: order_reasons_def replay_anomaly_def)
qed (simp add: order_reasons_def replay_anomaly_def)

lemma missing_bounds: "\<forall>n \<in> set ns. 0 \<le> n \<Longrightarrow> length (missing_between ns) \<le> DIAG_MAX_GAPS \<and> (\<forall>m \<in> set (missing_between ns). 0 \<le> m)"
proof -
  assume nonneg: "\<forall>n \<in> set ns. 0 \<le> n"
  have "0 \<le> m" if "m \<in> set (missing_between ns)" for m
  proof -
    have "m \<in> set (concat (map (\<lambda>(a, b). [a + 1..min (b - 1) (a + int DIAG_MAX_GAPS)]) (zip ns (tl ns))))"
      using that unfolding missing_between_def by (rule in_set_takeD)
    then obtain ab where "ab \<in> set (zip ns (tl ns))" "m \<in> set (case ab of (a, b) \<Rightarrow> [a + 1..min (b - 1) (a + int DIAG_MAX_GAPS)])"
      unfolding set_concat set_map by blast
    moreover obtain a b where "ab = (a, b)" by (cases ab)
    ultimately have ab: "(a, b) \<in> set (zip ns (tl ns))" "m \<in> set [a + 1..min (b - 1) (a + int DIAG_MAX_GAPS)]" by simp_all
    then show ?thesis using nonneg set_zip_leftD [OF ab(1)] by fastforce
  qed
  then show ?thesis by (simp add: missing_between_def)
qed

lemma mapR_map: "(\<And>x. x \<in> set xs \<Longrightarrow> f (h x) = Inr x) \<Longrightarrow> mapR f (map h xs) = Inr xs"
  by (induction xs) (simp_all add: result_simps)

lemma extreme_sequences: "vs \<noteq> [] \<Longrightarrow> least_sequence vs \<in> set vs \<and> greatest_sequence vs \<in> set vs"
proof -
  have "fold (\<lambda>w m. if P w m then w else m) ws v \<in> set (v # ws)" for P ws and v :: pyval
    by (induction ws arbitrary: v) (auto split: if_split)
  moreover assume "vs \<noteq> []"
  ultimately show ?thesis by (cases vs) (simp_all only: least_sequence.simps greatest_sequence.simps, blast)
qed

lemma collect_distinct: "distinct (map fst its) \<Longrightarrow> dget (collect its) t = map_of its t"
proof -
  have "distinct (map fst ls) \<Longrightarrow> dget (fold (\<lambda>kv d. dset (fst kv) (snd kv) d) ls d) t = (case map_of ls t of None \<Rightarrow> dget d t | Some v \<Rightarrow> Some v)" for ls d
  proof (induction ls arbitrary: d)
    case (Cons kv ls)
    then show ?case by (cases kv; cases "t = fst kv") (simp_all add: dict_simps map_of_eq_None_iff [THEN iffD2] split: option.split)
  qed simp
  from this [of its "[]"] show "distinct (map fst its) \<Longrightarrow> ?thesis" by (simp add: collect_def dget_def split: option.split)
qed

lemma report_sequence_ok: "ev_number v = Inr w \<Longrightarrow> report_sequence v = Inr w"
  by (auto simp: report_sequence_def ev_number_def)

lemma report_made:
  assumes "st \<in> set DIAG_STATUS" and "int ne \<le> EV_MAX_QUERY" and "nt \<le> ne" and "nc \<le> ne"
    and "ev_number a = Inr a'" and "ev_number b = Inr b'" and "length gs \<le> DIAG_MAX_GAPS" and "\<forall>g \<in> set gs. 0 \<le> g"
    and "length states \<le> DIAG_MAX_STATES" and "\<forall>kv \<in> set states. re_fullmatch REC_ID (fst kv) \<and> snd kv \<in> set (map state_value all_states)"
    and "length rs \<le> DIAG_MAX_REASONS" and "set rs \<subseteq> set DIAG_REASONS"
  shows "DiagReport_post_init (PStr st) (PInt (int ne)) (PInt (int nt)) (PInt (int nc)) a b (PTuple (map PInt gs))
     (PDict (map (\<lambda>kv. (PStr (fst kv), PStr (snd kv))) states)) (PTuple (map PStr rs))
   = Inr \<lparr>dr_status = st, dr_events = int ne, dr_transitions = int nt, dr_checkpoints = int nc, dr_first = a', dr_last = b', dr_gaps = gs,
       dr_states = collect states, dr_reasons = rs\<rparr>"
proof -
  have 1: "mapR report_count (map PInt gs) = Inr gs"
    by (rule mapR_map) (use assms(8) in \<open>simp add: report_count_def not_less\<close>)
  have 2: "mapR state_item (map (\<lambda>kv. (PStr (fst kv), PStr (snd kv))) states) = Inr states"
    by (rule mapR_map) (use assms(10) in \<open>simp add: state_item_def fixed_word_def result_simps\<close>)
  have 3: "mapR (fixed_word DIAG_REASONS) (map PStr rs) = Inr rs"
    by (rule mapR_map) (use assms(12) in \<open>auto simp: fixed_word_def\<close>)
  show ?thesis
    using assms(1-7,9,11) report_sequence_ok [OF assms(5)] report_sequence_ok [OF assms(6)] 1 2 3
    by (simp add: DiagReport_post_init_def fixed_word_def report_count_def bounded_tuple_def result_simps guardR_def)
qed

lemma list_all2_from_left: "list_all2 P xs ys \<Longrightarrow> x \<in> set xs \<Longrightarrow> \<exists>y \<in> set ys. P x y"
  by (induction rule: list_all2_induct) auto

lemma list_all2_from_right: "list_all2 P xs ys \<Longrightarrow> y \<in> set ys \<Longrightarrow> \<exists>x \<in> set xs. P x y"
  by (induction rule: list_all2_induct) auto

lemma records_own: "records rc e x \<Longrightarrow> el_owner (rc_log rc) = PNone \<or> py_eq (ev_owner e) (el_owner (rc_log rc))"
  unfolding records_def own_event_def by (elim conjE)

lemma projects_id: "projects rc e th \<Longrightarrow> re_fullmatch REC_ID (fst th)"
  unfolding projects_def by (elim conjE)

lemma ev_number_same: "ev_number v = Inr w \<Longrightarrow> w = v \<and> (\<forall>n. as_int v = Some n \<longrightarrow> 0 \<le> n)"
  by (auto simp: ev_number_def split: pyval.split_asm option.split_asm if_split_asm)

lemma event_ok_number: "event_ok env e \<Longrightarrow> ev_number (ev_sequence e) = Inr (ev_sequence e)"
  using ev_number_same [of "ev_sequence e"] by (auto simp: event_ok_def envelope_ok_def result_simps)

text \<open>A projection without reasons makes a report.\<close>

lemma diagnosis_made:
  assumes evs: "evs \<noteq> []" "int (length evs) \<le> EV_MAX_QUERY" and num: "\<And>e. e \<in> set evs \<Longrightarrow> ev_number (ev_sequence e) = Inr (ev_sequence e)"
    and inc: "sorted_wrt (<) (map (\<lambda>e. number_of (ev_sequence e)) evs)" and proj: "project_events evs = (states, [])"
    and states: "length states \<le> DIAG_MAX_STATES" "\<forall>kv \<in> set states. re_fullmatch REC_ID (fst kv) \<and> snd kv \<in> set (map state_value all_states)"
  shows "\<exists>r. diagnose_events evs = Inr r \<and> dr_events r = int (length evs)
     \<and> dr_transitions r = int (length (filter (is_kind ''lifecycle.transition'') evs))
     \<and> dr_checkpoints r = int (length (filter (is_kind ''checkpoint.committed'') evs))
     \<and> dr_states r = collect states \<and> set (dr_reasons r) \<subseteq> {REASON_GAP, REASON_NON_INTEGER}"
proof -
  let ?seqs = "map ev_sequence evs" and ?qs = "map number_of (map ev_sequence evs)"
  let ?integral = "list_all (\<lambda>v. as_int v \<noteq> None) ?seqs"
  have order: "order_reasons ?qs [] = []" "\<not> replay_anomaly ?qs" using increasing_order [of ?qs] inc by (simp_all add: comp_def)
  define gs where "gs = (if ?integral then missing_between (map (\<lambda>v. the (as_int v)) ?seqs) else [])"
  define rs where "rs = (if \<not> ?integral then [REASON_NON_INTEGER] else if gs \<noteq> [] then [REASON_GAP] else [])"
  have gs: "length gs \<le> DIAG_MAX_GAPS \<and> (\<forall>g \<in> set gs. 0 \<le> g)"
  proof (cases ?integral)
    case True
    have "\<forall>n \<in> set (map (\<lambda>v. the (as_int v)) ?seqs). 0 \<le> n"
    proof
      fix n assume "n \<in> set (map (\<lambda>v. the (as_int v)) ?seqs)"
      then obtain e where e: "e \<in> set evs" "n = the (as_int (ev_sequence e))" by auto
      moreover have "as_int (ev_sequence e) \<noteq> None" using True e(1) by (auto simp: list_all_iff)
      ultimately show "0 \<le> n" using ev_number_same [OF num [OF e(1)]] by auto
    qed
    from missing_bounds [OF this] show ?thesis unfolding gs_def if_P [OF True] .
  qed (simp add: gs_def)
  have rs: "length rs \<le> DIAG_MAX_REASONS" "set rs \<subseteq> set DIAG_REASONS" "set rs \<subseteq> {REASON_GAP, REASON_NON_INTEGER}"
    by (auto simp: rs_def DIAG_MAX_REASONS_def DIAG_REASONS_def)
  have ends: "least_sequence ?seqs \<in> set ?seqs" "greatest_sequence ?seqs \<in> set ?seqs" using extreme_sequences [of ?seqs] evs(1) by simp_all
  have seq_num: "ev_number v = Inr v" if "v \<in> set ?seqs" for v using that num by auto
  have st: "(if rs = [] then ''healthy'' else ''degraded'') \<in> set DIAG_STATUS" by (simp add: DIAG_STATUS_def)
  have "diagnose_events evs = DiagReport_post_init (PStr (if rs = [] then ''healthy'' else ''degraded'')) (PInt (int (length evs)))
     (PInt (int (length (filter (is_kind ''lifecycle.transition'') evs)))) (PInt (int (length (filter (is_kind ''checkpoint.committed'') evs))))
     (least_sequence ?seqs) (greatest_sequence ?seqs) (PTuple (map PInt gs)) (PDict (map (\<lambda>kv. (PStr (fst kv), PStr (snd kv))) states)) (PTuple (map PStr rs))"
    unfolding diagnose_events_def Let_def proj prod.case order(1) using order(2) by (simp add: gs_def rs_def reason_add_def)
  also have "\<dots> = Inr \<lparr>dr_status = if rs = [] then ''healthy'' else ''degraded'', dr_events = int (length evs),
     dr_transitions = int (length (filter (is_kind ''lifecycle.transition'') evs)), dr_checkpoints = int (length (filter (is_kind ''checkpoint.committed'') evs)),
     dr_first = least_sequence ?seqs, dr_last = greatest_sequence ?seqs, dr_gaps = gs, dr_states = collect states, dr_reasons = rs\<rparr>"
    by (rule report_made [OF st evs(2) length_filter_le length_filter_le seq_num [OF ends(1)] seq_num [OF ends(2)] conjunct1 [OF gs] conjunct2 [OF gs] states rs(1,2)])
  finally show ?thesis using rs(3) by simp
qed

text \<open>
  C36: the log tells the truth about the tasks, within the bounds of one diagnosis: at most 1000 events in a
  file below the size limit, with transitions of at most 256 tasks. When the transitions of lifecycles are
  recorded in the order in which they happen, the tasks in any interleaving, with checkpoints in between and
  with any sequence numbers the log accepts, then the diagnosis of a non-empty log counts transitions and
  checkpoints and shows every task in the state its lifecycle is in; it reports nothing but gaps and
  fractions in the numbering.
\<close>

theorem diagnosis_follows_lifecycles:
  assumes "(record_step env rc)\<^sup>*\<^sup>* (None, []) (f, hs)" and "file_size f \<le> EV_MAX_LOG" and "hs \<noteq> []" and "int (length hs) \<le> EV_MAX_QUERY"
    and "card (fst ` set (transitions hs)) \<le> DIAG_MAX_STATES"
    and "\<And>t. map snd (filter (\<lambda>th. fst th = t) (transitions hs)) = lc_history (lives t)" and "\<And>t. history_ok (lives t)"
  shows "\<exists>r. diagnose_event_log env (rc_log rc) PNone (PInt EV_MAX_QUERY) f = Inr r
     \<and> dr_events r = int (length hs) \<and> dr_transitions r = int (length (transitions hs))
     \<and> dr_checkpoints r = int (length (filter (\<lambda>x. x = None) hs))
     \<and> (\<forall>t. dget (dr_states r) t = (if lc_history (lives t) = [] then None else Some (state_value (lc_state (lives t)))))
     \<and> set (dr_reasons r) \<subseteq> {REASON_GAP, REASON_NON_INTEGER}"
proof -
  obtain hist where run: "(event_step env (el_run (rc_log rc)))\<^sup>*\<^sup>* (None, []) (f, hist)" and rec: "list_all2 (records rc) (map reread_event hist) hs"
    using recorded_log [OF assms(1)] .
  have inv: "log_inv env (el_run (rc_log rc)) (f, hist)"
    by (rule evl.reachable_from_inv [OF run evl.inv_start]) (simp add: log_start_def)
  let ?evs = "map reread_event hist" and ?ths = "transitions hs"
  note proj = recorded_kinds(1) [OF rec]
  have len: "length hist = length hs" using rec by (auto dest: list_all2_lengthD)
  have replay: "log_replay env (PInt EV_MAX_QUERY) f = Inr ?evs"
    using inv_records [OF inv] assms(2,4) len by (simp add: log_replay_def limit_ok_def EV_MAX_QUERY_def stored_as_def comp_def)
  have some: "\<exists>x \<in> set hs. records rc e x" if "e \<in> set ?evs" for e
    by (rule list_all2_from_left [OF rec that])
  then have own: "\<not> (el_owner (rc_log rc) \<noteq> PNone \<and> list_ex (\<lambda>e. \<not> py_eq (ev_owner e) (el_owner (rc_log rc))) ?evs)"
    using records_own [of rc] unfolding list_ex_iff by blast
  let ?st = "fold state_step ?ths ([], [])"
  have entries: "entries_of t ?ths = lc_history (lives t)" for t using assms(6) by (simp add: entries_of_def)
  note hist_ok = assms(7)
  have "continuous (entries_of t ?ths)" for t using hist_ok [of t] by (simp add: entries continuous_def history_ok_def del: butlast.simps)
  from project_states [OF this] have st: "dget (fst ?st) t = (if lc_history (lives t) = [] then None else Some (state_value (lc_state (lives t))))"
    and clean: "snd ?st = []" for t
    using hist_ok [of t] by (simp_all add: entries history_ok_def del: last.simps)
  have keys: "distinct (map fst (fst ?st))" "set (map fst (fst ?st)) = fst ` set ?ths"
    using state_keys(2) [of "([], [])" ?ths] state_keys(1) [of ?ths "([], [])"] by (simp_all add: dkeys_def)
  then have size: "length (fst ?st) \<le> DIAG_MAX_STATES" using assms(5) distinct_card [OF keys(1)] by simp
  have items: "re_fullmatch REC_ID (fst kv) \<and> snd kv \<in> set (map state_value all_states)" if kv: "kv \<in> set (fst ?st)" for kv
  proof
    obtain th where "th \<in> set ?ths" "fst th = fst kv" using kv keys(2) by force
    moreover from this obtain e where "projects rc e th" using list_all2_from_right [OF proj] by blast
    ultimately show "re_fullmatch REC_ID (fst kv)" using projects_id [of rc e th] by simp
    have "dget (fst ?st) (fst kv) = Some (snd kv)" using kv keys(1) by (simp add: dget_def)
    then have "snd kv = state_value (lc_state (lives (fst kv)))" using st [of "fst kv"] by (simp split: if_split_asm)
    then show "snd kv \<in> set (map state_value all_states)" by (cases "lc_state (lives (fst kv))") (simp_all add: all_states_def)
  qed
  have "project_events ?evs = (fst ?st, [])" using project_all [OF rec] clean by (metis prod.collapse)
  moreover have "sorted_wrt (<) (map (\<lambda>e. number_of (ev_sequence e)) ?evs)"
    using inv by (simp add: log_inv_def sorted_wrt_map comp_def)
  moreover have "ev_number (ev_sequence e) = Inr (ev_sequence e)" if "e \<in> set ?evs" for e
    using that inv event_ok_number [of env] by (auto simp: log_inv_def)
  moreover have "?evs \<noteq> []" "int (length ?evs) \<le> EV_MAX_QUERY" using len assms(3,4) by auto
  ultimately obtain r where r: "diagnose_events ?evs = Inr r" "dr_events r = int (length ?evs)"
    "dr_transitions r = int (length (filter (is_kind ''lifecycle.transition'') ?evs))"
    "dr_checkpoints r = int (length (filter (is_kind ''checkpoint.committed'') ?evs))"
    "dr_states r = collect (fst ?st)" "set (dr_reasons r) \<subseteq> {REASON_GAP, REASON_NON_INTEGER}"
    using diagnosis_made [of ?evs "fst ?st"] size items by blast
  have "dr_events r = int (length hs)" "dr_transitions r = int (length ?ths)"
    "dr_checkpoints r = int (length (filter (\<lambda>x. x = None) hs))"
    using r(2,3,4) len list_all2_lengthD [OF proj] recorded_kinds(2) [OF rec] by simp_all
  moreover have "dget (dr_states r) t = (if lc_history (lives t) = [] then None else Some (state_value (lc_state (lives t))))" for t
    unfolding r(5) collect_distinct [OF keys(1)] using st [of t] by (simp only: dget_def)
  moreover have "diagnose_event_log env (rc_log rc) PNone (PInt EV_MAX_QUERY) f = Inr r"
    using r(1) own \<open>?evs \<noteq> []\<close> replay by (simp add: diagnose_event_log_def owner_ok_def)
  ultimately show ?thesis using r(6) by blast
qed

subsection \<open>A concrete log\<close>

definition proj_env :: ev_env where
  "proj_env = \<lparr>ee_rep = (\<lambda>_. ''0.0''), ee_sha = (\<lambda>s. take 8 (filter ascii_alnum s)), ee_iso = (\<lambda>_. True), ee_now = None\<rparr>"

definition proj_rc :: recorder where
  "proj_rc = \<lparr>rc_log = \<lparr>el_run = ''r'', el_owner = PNone\<rparr>, rc_owner = PNone\<rparr>"

definition proj_life :: "string \<Rightarrow> task_lifecycle" where
  "proj_life t = (if t = ''a'' then lc_move (lc_default ''a'' 1) READY None else lc_default ''c'' 1)"

definition proj_entry :: history_entry where
  "proj_entry = \<lparr>h_from = PENDING, h_to = READY, h_reason = None\<rparr>"

lemma proj_recorded: "case record_transition proj_env proj_rc (LifeObject (proj_life ''a'')) (StateMember (h_from proj_entry)) (StateMember (h_to proj_entry)) (PInt 1)
     PNone PNone None of Inl x \<Rightarrow> False | Inr (e, f) \<Rightarrow> f \<noteq> None \<and> file_size f \<le> EV_MAX_LOG"
  by code_simp

theorem diagnosis_follows_lifecycles_witness:
  "\<exists>f r. diagnose_event_log proj_env (rc_log proj_rc) PNone (PInt EV_MAX_QUERY) f = Inr r \<and> dr_transitions r = 1
     \<and> dget (dr_states r) ''a'' = Some ''ready'' \<and> dget (dr_states r) ''c'' = None"
proof -
  obtain e f where one: "record_transition proj_env proj_rc (LifeObject (proj_life ''a'')) (StateMember (h_from proj_entry))
      (StateMember (h_to proj_entry)) (PInt 1) PNone PNone None = Inr (e, f)" "f \<noteq> None" "file_size f \<le> EV_MAX_LOG"
    using proj_recorded by (auto split: sum.split_asm prod.split_asm)
  let ?hs = "[Some (''a'', proj_entry)]"
  have "lc_task_id (proj_life ''a'') = ''a''" by (simp add: proj_life_def lc_move_def lc_default_def)
  then have "record_step proj_env proj_rc (None, []) (f, ?hs)" using do_record [OF one(1), of "[]"] one(2) by simp
  then have run: "(record_step proj_env proj_rc)\<^sup>*\<^sup>* (None, []) (f, ?hs)" by (rule r_into_rtranclp)
  have entries: "map snd (filter (\<lambda>th. fst th = t) (transitions ?hs)) = lc_history (proj_life t)" for t
    by (simp add: proj_life_def lc_move_def lc_default_def proj_entry_def)
  have inv: "history_ok (proj_life t)" for t
    by (simp add: proj_life_def lc_move_def lc_default_def history_ok_def lc_allowed_def)
  have "int (length ?hs) \<le> EV_MAX_QUERY" "card (fst ` set (transitions ?hs)) \<le> DIAG_MAX_STATES" "?hs \<noteq> []"
    by (simp_all add: EV_MAX_QUERY_def DIAG_MAX_STATES_def)
  from diagnosis_follows_lifecycles [OF run one(3) this(3,1,2) entries inv]
  obtain r where r: "diagnose_event_log proj_env (rc_log proj_rc) PNone (PInt EV_MAX_QUERY) f = Inr r" "dr_transitions r = int (length (transitions ?hs))"
    and states: "dget (dr_states r) t = (if lc_history (proj_life t) = [] then None else Some (state_value (lc_state (proj_life t))))" for t by blast
  have "dget (dr_states r) ''a'' = Some ''ready''" "dget (dr_states r) ''c'' = None"
    unfolding states by (simp_all add: proj_life_def lc_move_def lc_default_def)
  then show ?thesis using r by (intro exI conjI) simp_all
qed

text \<open>A log with more tasks than a report may hold cannot be diagnosed.\<close>

lemma many_tasks_refused: "project_events evs = (states, rs) \<Longrightarrow> DIAG_MAX_STATES < length states \<Longrightarrow> \<not> isOK (diagnose_events evs)"
  by (auto simp: diagnose_events_def Let_def DiagReport_post_init_def result_simps isOK_def split: sum.split)

section \<open>Reconciliation with the run store\<close>

lemma recon_replay: "log_replay env limit f = Inr evs \<Longrightarrow> int (length evs) \<le> EV_MAX_QUERY"
  by (auto simp: log_replay_def limit_ok_def result_simps split: option.split_asm if_split_asm)

lemma loaded_valid: "store_load senv ck run d = Inr s \<Longrightarrow> validate senv run s"
  by (auto simp: store_load_def valid_snapshot_def validate_file_def split: option.split_asm if_split_asm disk_file.split_asm)

lemma loaded_events: "store_load senv ck run d = Inr s \<Longrightarrow> int (length (sn_events s)) = sn_event_sequence s \<and> 0 \<le> sn_event_sequence s"
proof -
  assume "store_load senv ck run d = Inr s"
  note valid = loaded_valid [OF this, unfolded validate_def]
  have "map event_sequence_of (sn_events s) = [1..sn_event_sequence s]" using valid by (elim conjE)
  then have "length (sn_events s) = length [1..sn_event_sequence s]" by (metis length_map)
  moreover have "0 \<le> sn_event_sequence s" using valid by (elim conjE)
  ultimately show ?thesis by simp
qed

lemma mapR_word: "mapR (fixed_word ws) (map PStr rs) = Inr rs' \<Longrightarrow> rs' = rs"
  by (induction rs arbitrary: rs') (auto simp: result_simps fixed_word_def split: if_split_asm)

lemma recon_made:
  assumes "ReconReport_post_init (PStr st) (PStr run) ss gen sq n l (PTuple (map PStr rs)) = Inr r"
  shows "rr_status r = st \<and> rr_reasons r = rs"
  using assms by (auto simp: ReconReport_post_init_def result_simps fixed_word_def dest: mapR_word split: if_split_asm)

text \<open>
  A query returns the first events of the log only. A run whose snapshot has more events than one query can
  return is therefore never consistent with its log.
\<close>

lemma long_run_never_consistent:
  assumes "store_load senv checksum run d = Inr s" and "EV_MAX_QUERY < sn_event_sequence s"
    and "reconcile_run_events env (store_load senv checksum run d) lg (PStr run) limit (Some ls) = Inr r"
  shows "rr_status r = ''degraded'' \<and> ''event_count_mismatch'' \<in> set (rr_reasons r)"
proof -
  obtain evs where evs: "log_replay env limit (Some ls) = Inr evs"
    and rest: "log_part (let last_seq = if evs \<noteq> [] then ev_sequence (last evs) else PInt 0; reasons = recon_reasons lg run (Some s) (Some ls) evs last_seq in
      ReconReport_post_init (PStr (if reasons = [] then ''consistent'' else ''degraded'')) (PStr run) (PStr (sn_status s)) (PInt (sn_generation s))
       (PInt (sn_event_sequence s)) (PInt (int (length evs))) last_seq (PTuple (map PStr reasons))) = Inr r"
    using assms(3) unfolding reconcile_run_events_def assms(1)
    by (auto simp: result_simps log_part_def recon_run_def Let_def split: sum.split_asm if_split_asm)
  have "length (sn_events s) \<noteq> length evs" using recon_replay [OF evs] loaded_events [OF assms(1)] assms(2) by linarith
  then have found: "''event_count_mismatch'' \<in> set (recon_reasons lg run (Some s) (Some ls) evs l)" for l
    by (simp add: recon_reasons_def RECON_REASONS_def)
  have "recon_reasons lg run (Some s) (Some ls) evs l \<noteq> []" for l
    by (rule notI) (use found [of l] in simp)
  then show ?thesis using rest found by (auto simp: Let_def log_part_def split: sum.split_asm dest!: recon_made)
qed

lemma sequence_eq: "ev_number v = Inr w \<Longrightarrow> py_eq (PInt n) v \<longleftrightarrow> number_of v = of_int n"
  by (cases v; cases "case v of PFloat f \<Rightarrow> f | _ \<Rightarrow> NaN")
     (auto simp: ev_number_def atom_eq_def number_of_def split: option.split_asm if_split_asm)

lemma recon_report_made:
  assumes "st \<in> set RECON_STATUS" and "re_fullmatch RECON_ID run" and "length ss \<le> 256" and "0 \<le> gen" and "0 \<le> sq" and "int n \<le> EV_MAX_QUERY"
    and "report_sequence l = Inr l'" and "set rs \<subseteq> set RECON_REASONS" and "distinct rs" and "length rs \<le> length RECON_REASONS" and "st \<in> {''consistent'', ''unknown''} \<longrightarrow> rs = []"
  shows "\<exists>r. ReconReport_post_init (PStr st) (PStr run) (PStr ss) (PInt gen) (PInt sq) (PInt (int n)) l (PTuple (map PStr rs)) = Inr r
     \<and> rr_status r = st \<and> rr_count r = int n \<and> rr_reasons r = rs"
proof -
  have "mapR (fixed_word RECON_REASONS) (map PStr rs) = Inr rs"
    by (rule mapR_map) (use assms(8) in \<open>auto simp: fixed_word_def\<close>)
  then show ?thesis
    using assms(1-7,9-11)
    by (simp add: ReconReport_post_init_def fixed_word_def optional_part_def short_text_def report_count_def result_simps guardR_def)
qed

text \<open>
  C37: reconciliation with the run store is exact within one query. Take a snapshot the store loads, a run id of
  the form reconciliation accepts, and an existing log file of that run within the size limit of a read, all of
  whose events carry the owner epoch the log is opened with, if any. Then a report over one query, which sees the
  first 1000 events, exists, and it says consistent exactly when the events seen are as many as the snapshot has
  and the last of them carries that number.
\<close>

theorem reconciliation_exact:
  assumes "(event_step env run)\<^sup>*\<^sup>* (None, []) (Some ls, hist)" and "file_size (Some ls) \<le> EV_MAX_LOG" and "el_run lg = run"
    and "\<And>e. e \<in> set hist \<Longrightarrow> owns lg e" and "re_fullmatch RECON_ID run" and "store_load senv checksum run d = Inr s"
  shows "\<exists>r. reconcile_run_events env (store_load senv checksum run d) lg (PStr run) (PInt EV_MAX_QUERY) (Some ls) = Inr r
     \<and> rr_count r = int (length (take (nat EV_MAX_QUERY) hist))
     \<and> (rr_status r = ''consistent'' \<longleftrightarrow> (let seen = take (nat EV_MAX_QUERY) hist in int (length seen) = sn_event_sequence s
          \<and> (seen \<noteq> [] \<longrightarrow> number_of (ev_sequence (last seen)) = of_int (sn_event_sequence s))))"
proof -
  have inv: "log_inv env run (Some ls, hist)"
    by (rule evl.reachable_from_inv [OF assms(1) evl.inv_start]) (simp add: log_start_def)
  define seen where "seen = take (nat EV_MAX_QUERY) hist"
  let ?evs = "map reread_event seen"
  let ?last = "if ?evs \<noteq> [] then ev_sequence (last ?evs) else PInt 0"
  have replay: "log_replay env (PInt EV_MAX_QUERY) (Some ls) = Inr ?evs"
    using inv_records [OF inv] assms(2) by (simp add: log_replay_def limit_ok_def EV_MAX_QUERY_def stored_as_def comp_def take_map seen_def)
  have seen_ok: "e \<in> set seen \<Longrightarrow> event_ok env e \<and> ev_run e = PStr run \<and> owns lg e" for e
    using inv assms(4) by (auto simp: log_inv_def seen_def dest: in_set_takeD)
  have ident: "\<not> identity_mismatch lg run ?evs" using seen_ok assms(3) by (auto simp: identity_mismatch_def list_ex_iff)
  have own: "\<not> owner_mismatch lg ?evs" using seen_ok by (auto simp: owner_mismatch_def list_ex_iff owns_def)
  note valid = loaded_valid [OF assms(6), unfolded validate_def]
  have run: "sn_run_id s = run" using valid by (elim conjE)
  have gen: "0 \<le> sn_generation s" using valid by (elim conjE)
  have status: "sn_status s \<in> set STATUSES" using valid by (elim conjE)
  have events: "int (length (sn_events s)) = sn_event_sequence s" "0 \<le> sn_event_sequence s" using loaded_events [OF assms(6)] by simp_all
  define rs where "rs = recon_reasons lg run (Some s) (Some ls) ?evs ?last"
  define st where "st = (if rs = [] then ''consistent'' else ''degraded'')"
  have seq: "ev_number ?last = Inr ?last"
  proof (cases "seen = []")
    case True
    have "ev_number (PInt 0) = Inr (PInt 0)" by code_simp
    then show ?thesis using True by simp
  next
    case False
    then have "event_ok env (last seen)" using seen_ok last_in_set by blast
    from event_ok_number [OF this] show ?thesis using False by (simp add: last_map)
  qed
  have rs: "rs = (if py_eq (PInt (sn_event_sequence s)) ?last then [] else [''event_sequence_mismatch''])
      @ (if length (sn_events s) = length seen then [] else [''event_count_mismatch''])"
    using ident own run by (simp add: rs_def recon_reasons_def RECON_REASONS_def)
  have last_eq: "py_eq (PInt (sn_event_sequence s)) ?last \<longleftrightarrow> (if seen = [] then 0 else number_of (ev_sequence (last seen))) = of_int (sn_event_sequence s)"
    unfolding sequence_eq [OF seq] by (simp add: last_map number_of_def)
  have word: "st \<in> set RECON_STATUS" "st \<in> {''consistent'', ''unknown''} \<longrightarrow> rs = []" by (simp_all add: st_def RECON_STATUS_def)
  have "length (sn_status s) \<le> 256" using status by (auto simp: STATUSES_def)
  moreover have "int (length ?evs) \<le> EV_MAX_QUERY" by (rule recon_replay [OF replay])
  moreover have "set rs \<subseteq> set RECON_REASONS" "distinct rs" "length rs \<le> length RECON_REASONS" by (simp_all add: rs RECON_REASONS_def)
  ultimately obtain r where r: "ReconReport_post_init (PStr st) (PStr run) (PStr (sn_status s)) (PInt (sn_generation s)) (PInt (sn_event_sequence s))
      (PInt (int (length ?evs))) ?last (PTuple (map PStr rs)) = Inr r" "rr_status r = st" "rr_count r = int (length ?evs)" "rr_reasons r = rs"
    using recon_report_made [OF word(1) assms(5) _ gen events(2) _ report_sequence_ok [OF seq] _ _ _ word(2)] by blast
  have "reconcile_run_events env (store_load senv checksum run d) lg (PStr run) (PInt EV_MAX_QUERY) (Some ls)
      = log_part (ReconReport_post_init (PStr st) (PStr run) (PStr (sn_status s)) (PInt (sn_generation s)) (PInt (sn_event_sequence s))
          (PInt (int (length ?evs))) ?last (PTuple (map PStr rs)))"
    using replay assms(5,6) by (simp add: reconcile_run_events_def recon_run_def recon_limit_def log_part_def result_simps guardR_def EV_MAX_QUERY_def
      rs_def st_def Let_def)
  then have "reconcile_run_events env (store_load senv checksum run d) lg (PStr run) (PInt EV_MAX_QUERY) (Some ls) = Inr r"
    unfolding r(1) by (simp add: log_part_def)
  moreover have "st = ''consistent'' \<longleftrightarrow> int (length seen) = sn_event_sequence s \<and> (seen \<noteq> [] \<longrightarrow> number_of (ev_sequence (last seen)) = of_int (sn_event_sequence s))"
    using events last_eq by (auto simp: st_def rs)
  ultimately show ?thesis using r(2,3) by (auto simp: seen_def Let_def)
qed

definition recon_event :: fleet_event where
  "recon_event = demo_event\<lparr>ev_sequence := PInt 1\<rparr>"

definition recon_snapshot :: snapshot where
  "recon_snapshot = demo_snapshot\<lparr>sn_events := [str_keyed [(''sequence'', PInt 1), (''event_id'', PStr ''e''), (''ordering_key'', PStr ''o'')]], sn_event_sequence := 1\<rparr>"

definition recon_disk :: disk where
  "recon_disk = \<lparr>dk_primary = seal (\<lambda>_. ''c'') recon_snapshot, dk_backup = Missing\<rparr>"

lemma recon_loaded: "case store_load demo_env (\<lambda>_. ''c'') ''r'' recon_disk of Inl e \<Rightarrow> False | Inr s \<Rightarrow> sn_event_sequence s = 1"
  by code_simp

lemma recon_appended: "case FleetEvent_post_init demo_ev_env None recon_event of Inl x \<Rightarrow> False
    | Inr e \<Rightarrow> ev_owner e = PNone \<and> ev_sequence e = PInt 1 \<and> (case log_append demo_ev_env demo_lg e None of Inl x \<Rightarrow> False | Inr (x, f) \<Rightarrow> f \<noteq> None \<and> file_size f \<le> EV_MAX_LOG)"
  by code_simp

lemma recon_id: "re_fullmatch RECON_ID ''r''"
  by code_simp

theorem reconciliation_exact_witness:
  "\<exists>ls r. reconcile_run_events demo_ev_env (store_load demo_env (\<lambda>_. ''c'') ''r'' recon_disk) demo_lg (PStr ''r'') (PInt EV_MAX_QUERY) (Some ls) = Inr r
     \<and> rr_status r = ''consistent''"
proof -
  obtain e x ls where e: "FleetEvent_post_init demo_ev_env None recon_event = Inr e" "ev_owner e = PNone" "ev_sequence e = PInt 1"
    "log_append demo_ev_env demo_lg e None = Inr (x, Some ls)" and size: "file_size (Some ls) \<le> EV_MAX_LOG"
    using recon_appended by (auto split: sum.split_asm prod.split_asm)
  have run: "el_run demo_lg = ''r''" by (simp add: demo_lg_def)
  have "event_step demo_ev_env ''r'' (None, []) (Some ls, [e])" using do_append [OF e(1) run e(4), of "[]"] by simp
  then have steps: "(event_step demo_ev_env ''r'')\<^sup>*\<^sup>* (None, []) (Some ls, [e])" by (rule r_into_rtranclp)
  have "ev_run e = PStr ''r''" using append_result(2) [OF e(4) post_init_ok [OF e(1)]] run by simp
  then have own: "owns demo_lg y" if "y \<in> set [e]" for y using that e(2) by (simp add: owns_def demo_lg_def)
  obtain s where s: "store_load demo_env (\<lambda>_. ''c'') ''r'' recon_disk = Inr s" "sn_event_sequence s = 1"
    using recon_loaded by (auto split: sum.split_asm)
  have one: "take (nat EV_MAX_QUERY) [e] = [e]" by (simp add: EV_MAX_QUERY_def)
  show ?thesis using reconciliation_exact [OF steps size run own recon_id s(1)] s(2) e(3)
    unfolding one by (auto simp: Let_def number_of_def)
qed

end
