(* ===== verification/SupervisionProperties.thy ===== *)
theory SupervisionProperties
  imports Supervision EventProjection
begin

text \<open>
  Properties of the readiness view: it is the worst verdict of its sources, and over reports that the modules make
  themselves it says ready exactly when the worker, the event log and the run store agree.
\<close>

section \<open>Statuses of the sources\<close>

lemma fixed_word_Inr: "fixed_word ws v = Inr s \<longleftrightarrow> v = PStr s \<and> s \<in> set ws"
  by (cases v) (auto simp: fixed_word_def)

lemma sv_word_Inr: "sv_word ws v = Inr s \<longleftrightarrow> v = PStr s \<and> s \<in> set ws"
  by (cases v) (auto simp: sv_word_def)

lemma rv_word_Inr: "rv_word ws v = Inr s \<longleftrightarrow> v = PStr s \<and> s \<in> set ws"
  by (cases v) (auto simp: rv_word_def)

lemma diag_made_status: "DiagReport_post_init st n t c a b g s rs = Inr r \<Longrightarrow> st = PStr (dr_status r) \<and> dr_status r \<in> set DIAG_STATUS"
  unfolding DiagReport_post_init_def bindR_eq_Inr by (elim exE conjE) (auto simp: fixed_word_Inr)

lemma recon_made_status: "ReconReport_post_init st run ss g q n l rs = Inr r \<Longrightarrow> st = PStr (rr_status r) \<and> rr_status r \<in> set RECON_STATUS"
  unfolding ReconReport_post_init_def bindR_eq_Inr by (elim exE conjE) (auto simp: fixed_word_Inr)

lemma diagnosis_made_status: "SupervisorDiagnosis_new st rs ps = Inr g \<Longrightarrow> st = PStr (dg_status g) \<and> dg_status g \<in> set DIAGNOSIS_STATUSES"
  unfolding SupervisorDiagnosis_new_def bindR_eq_Inr by (elim exE conjE) (auto simp: sv_word_Inr result_simps split: option.split_asm if_split_asm)

lemma verdict_status: "verdict_of st rs = Inr g \<Longrightarrow> dg_status g = st"
  by (auto simp: verdict_of_def dest: diagnosis_made_status)

lemma proposing_status: "proposing st rs p = Inr g \<Longrightarrow> dg_status g = st"
  by (auto simp: proposing_def result_simps dest: diagnosis_made_status)

lemma signal_words: "HealthSignal_new l r p hl = Inr g \<Longrightarrow> sg_liveness g \<in> set LIVENESS \<and> sg_readiness g \<in> set READINESS
    \<and> sg_progress g \<in> set PROGRESS \<and> sg_health g \<in> set HEALTH"
  by (auto simp: HealthSignal_new_def result_simps sv_word_Inr)

section \<open>The view is the worst verdict\<close>

definition supervisor_rank :: "string \<Rightarrow> nat" where
  "supervisor_rank s = (if s \<in> {''blocked'', ''failed'', ''needs_human_intervention''} then 3 else if s \<in> {''degraded'', ''slow''} then 2
     else if s = ''suspected'' then 1 else 0)"

definition report_rank :: "string \<Rightarrow> nat" where
  "report_rank s = (if s = ''degraded'' then 2 else if s = ''unknown'' then 1 else 0)"

definition view_rank :: "string \<Rightarrow> nat" where
  "view_rank s = (if s = ''blocked'' then 3 else if s = ''degraded'' then 2 else if s = ''unknown'' then 1 else 0)"

definition source_ranks :: "string option \<Rightarrow> string option \<Rightarrow> string option \<Rightarrow> nat list" where
  "source_ranks a b c = (case a of None \<Rightarrow> [] | Some s \<Rightarrow> [supervisor_rank s]) @ (case b of None \<Rightarrow> [] | Some s \<Rightarrow> [report_rank s])
     @ (case c of None \<Rightarrow> [] | Some s \<Rightarrow> [report_rank s])"

definition worst_rank :: "nat list \<Rightarrow> nat" where
  "worst_rank ns = (if ns = [] then 1 else fold max ns 0)"

definition optional :: "'a list \<Rightarrow> 'a option list" where
  "optional xs = None # map Some xs"

lemma optional_mem: "a \<in> set (optional xs) \<longleftrightarrow> (\<forall>x. a = Some x \<longrightarrow> x \<in> set xs)"
  by (cases a) (auto simp: optional_def)

lemma all_views: "list_all (\<lambda>a. list_all (\<lambda>b. list_all (\<lambda>c. case compose_statuses a b c of Inl e \<Rightarrow> False
      | Inr v \<Rightarrow> view_rank (rv_status v) = worst_rank (source_ranks a b c) \<and> rv_status v \<in> set RV_STATUSES)
    (optional RV_RECONCILIATION)) (optional RV_EVENT)) (optional RV_SUPERVISOR)"
  by code_simp

lemma if_elim: "(if b then x else y) = r \<Longrightarrow> (b \<Longrightarrow> x = r \<Longrightarrow> P) \<Longrightarrow> (\<not> b \<Longrightarrow> y = r \<Longrightarrow> P) \<Longrightarrow> P"
  by (simp split: if_split_asm)

lemma verdict_known: "verdict_of st rs = Inr g \<Longrightarrow> dg_status g \<in> set DIAGNOSIS_STATUSES"
  by (auto simp: verdict_of_def dest: diagnosis_made_status)

lemma proposing_known: "proposing st rs p = Inr g \<Longrightarrow> dg_status g \<in> set DIAGNOSIS_STATUSES"
  by (auto simp: proposing_def result_simps dest: diagnosis_made_status)

lemma observed_status: "observe h d a = Inr g \<Longrightarrow> dg_status (sr_diagnosis g) \<in> set RV_SUPERVISOR \<and> reconcile_snapshot h d a = Inr (sr_diagnosis g)"
proof -
  assume "observe h d a = Inr g"
  then have r: "reconcile_snapshot h d a = Inr (sr_diagnosis g)"
    by (auto simp: observe_def SupervisorReport_new_def result_simps text_arg_def split: option.split_asm)
  have "dg_status (sr_diagnosis g) \<in> set DIAGNOSIS_STATUSES"
    using r unfolding reconcile_snapshot_def diagnose_snapshot_def Let_def bindR_eq_Inr
    by (elim exE conjE if_elim) (erule verdict_known proposing_known)+
  then show ?thesis using r by (simp add: DIAGNOSIS_STATUSES_def RV_SUPERVISOR_def)
qed

lemma diagnosed_cases:
  assumes "diagnose_event_log env lg active limit f = Inr er"
  obtains evs where "log_replay env limit f = Inr evs" and "evs = [] \<Longrightarrow> dr_status er = ''unknown''" and "evs \<noteq> [] \<Longrightarrow> diagnose_events evs = Inr er"
    and "owner_mismatch lg evs \<Longrightarrow> evs = []"
proof -
  obtain evs where evs: "log_replay env limit f = Inr evs" and rest: "(if evs = [] then empty_report
     else if el_owner lg \<noteq> PNone \<and> list_ex (\<lambda>e. \<not> py_eq (ev_owner e) (el_owner lg)) evs then Inl EventError else diagnose_events evs) = Inr er"
    using assms unfolding diagnose_event_log_def bindR_eq_Inr by blast
  show thesis by (rule that [OF evs]) (use rest in \<open>auto simp: empty_report_def owner_mismatch_def dest: diag_made_status split: if_split_asm\<close>)
qed

lemma diagnosed_status: "diagnose_events evs = Inr er \<Longrightarrow> dr_status er = ''healthy'' \<or> dr_status er = ''degraded''"
  unfolding diagnose_events_def Let_def case_prod_unfold by (drule diag_made_status) (auto split: if_split_asm)

lemma event_status: "diagnose_event_log env lg active limit f = Inr er \<Longrightarrow> dr_status er \<in> set RV_EVENT"
proof (erule diagnosed_cases)
  fix evs assume "evs = [] \<Longrightarrow> dr_status er = ''unknown''" "evs \<noteq> [] \<Longrightarrow> diagnose_events evs = Inr er"
  then show ?thesis using diagnosed_status [of evs er] by (cases "evs = []") (auto simp: RV_EVENT_def)
qed

lemma recon_status: "reconcile_run_events env loaded lg run limit f = Inr rr \<Longrightarrow> rr_status rr \<in> set RV_RECONCILIATION"
proof -
  have made: "log_part (ReconReport_post_init st r ss g q n l rs) = Inr rr \<Longrightarrow> rr_status rr \<in> set RECON_STATUS" for st r ss g q n l rs
    by (auto simp: log_part_def dest: recon_made_status split: sum.split_asm)
  assume "reconcile_run_events env loaded lg run limit f = Inr rr"
  then have "rr_status rr \<in> set RECON_STATUS"
    unfolding reconcile_run_events_def unknown_report_def Let_def result_simps by (elim exE conjE) (auto dest: made split: if_split_asm)
  then show ?thesis by (simp add: RECON_STATUS_def RV_RECONCILIATION_def)
qed

text \<open>
  C39: the readiness view is the worst verdict of its sources. For any reports that the supervisor, the diagnosis
  and the reconciliation make, in any combination, the view exists, and its status has the greatest rank of
  the sources (blocked above degraded above unknown above ready); without a source it is unknown.
\<close>

theorem readiness_worst:
  assumes "\<And>r. supv = Some r \<Longrightarrow> \<exists>h d a. observe h d a = Inr r" and "\<And>r. evt = Some r \<Longrightarrow> \<exists>env lg a l f. diagnose_event_log env lg a l f = Inr r"
    and "\<And>r. recon = Some r \<Longrightarrow> \<exists>env s lg i l f. reconcile_run_events env s lg i l f = Inr r"
  shows "\<exists>v. compose_readiness supv evt recon = Inr v \<and> rv_status v \<in> set RV_STATUSES
     \<and> view_rank (rv_status v) = worst_rank (source_ranks (map_option (\<lambda>r. dg_status (sr_diagnosis r)) supv) (map_option dr_status evt) (map_option rr_status recon))"
proof -
  have "map_option (\<lambda>r. dg_status (sr_diagnosis r)) supv \<in> set (optional RV_SUPERVISOR)"
    using assms(1) observed_status by (fastforce simp: optional_mem)
  moreover have "map_option dr_status evt \<in> set (optional RV_EVENT)" using assms(2) event_status by (fastforce simp: optional_mem)
  moreover have "map_option rr_status recon \<in> set (optional RV_RECONCILIATION)" using assms(3) recon_status by (fastforce simp: optional_mem)
  ultimately show ?thesis using all_views unfolding list_all_iff compose_readiness_def by (fastforce split: sum.split_asm)
qed

section \<open>When a view says ready\<close>

definition consecutive :: "fleet_event list \<Rightarrow> bool" where
  "consecutive evs \<longleftrightarrow> list_all (\<lambda>e. as_int (ev_sequence e) \<noteq> None) evs
     \<and> list_all (\<lambda>(e, e'). number_of (ev_sequence e') = number_of (ev_sequence e) + 1) (zip evs (tl evs))"

lemma reason_added: "reason_add r rs \<noteq> []"
  by (auto simp: reason_add_def)

lemma order_reasons_Nil: "order_reasons qs rs = [] \<longleftrightarrow> rs = [] \<and> \<not> replay_anomaly qs"
proof -
  have "fold (\<lambda>(a, b). if b = a then reason_add REASON_DUPLICATE else if b < a then reason_add REASON_NON_MONOTONIC else id) ps rs = []
      \<longleftrightarrow> rs = [] \<and> \<not> list_ex (\<lambda>(a, b). b \<le> a) ps" for ps :: "(rat \<times> rat) list"
  proof (induction ps arbitrary: rs)
    case (Cons p ps)
    obtain a b where p: "p = (a, b)" by (cases p)
    consider "b = a" | "b < a" | "a < b" by linarith
    then show ?case by cases (simp_all add: p Cons.IH reason_added)
  qed simp
  then show ?thesis by (simp add: order_reasons_def replay_anomaly_def)
qed

lemma missing_Nil: "missing_between ns = [] \<longleftrightarrow> list_all (\<lambda>(a, b). b \<le> a + 1) (zip ns (tl ns))"
proof -
  have "[a + 1..min (b - 1) (a + int DIAG_MAX_GAPS)] = [] \<longleftrightarrow> b \<le> a + 1" for a b :: int by (auto simp: DIAG_MAX_GAPS_def)
  then show ?thesis by (simp add: missing_between_def list_all_iff case_prod_unfold) (simp add: DIAG_MAX_GAPS_def)
qed

lemma int_number: "as_int v = Some n \<Longrightarrow> number_of v = of_int n"
  by (cases v) (auto simp: number_of_def)

lemma int_le_cases: "\<not> b \<le> a \<and> b \<le> a + 1 \<longleftrightarrow> b = a + (1::int)"
  by auto

lemma consecutive_iff:
  assumes "list_all (\<lambda>v. as_int v \<noteq> None) vs"
  shows "\<not> replay_anomaly (map number_of vs) \<and> missing_between (map (\<lambda>v. the (as_int v)) vs) = []
    \<longleftrightarrow> list_all (\<lambda>(v, w). number_of w = number_of v + 1) (zip vs (tl vs))"
proof -
  have num: "number_of v = of_int (the (as_int v))" if "v \<in> set vs" for v using assms that int_number by (fastforce simp: list_all_iff)
  have "(\<not> number_of w \<le> number_of v) \<and> the (as_int w) \<le> the (as_int v) + 1 \<longleftrightarrow> number_of w = number_of v + 1" if "(v, w) \<in> set (zip vs (tl vs))" for v w
  proof -
    have "v \<in> set vs" "w \<in> set vs" using set_zip_leftD [OF that] set_zip_rightD [OF that] by (auto dest: list.set_sel(2) [rotated])
    then have n: "number_of v = of_int (the (as_int v))" "number_of w = of_int (the (as_int w))" using num by blast+
    have "rat_of_int b = rat_of_int a + 1 \<longleftrightarrow> b = a + 1" for a b by (metis of_int_1 of_int_add of_int_eq_iff)
    then show ?thesis unfolding n of_int_le_iff by (simp only: int_le_cases)
  qed
  then have "(\<forall>p \<in> set (zip vs (tl vs)). \<not> number_of (snd p) \<le> number_of (fst p)) \<and> (\<forall>p \<in> set (zip vs (tl vs)). the (as_int (snd p)) \<le> the (as_int (fst p)) + 1)
      \<longleftrightarrow> (\<forall>p \<in> set (zip vs (tl vs)). number_of (snd p) = number_of (fst p) + 1)" by (metis prod.collapse)
  then show ?thesis unfolding replay_anomaly_def missing_Nil map_tl [symmetric] zip_map1 zip_map2
    by (simp add: list_all_iff list_ex_iff case_prod_unfold)
qed

lemma healthy_iff:
  assumes "diagnose_events evs = Inr er"
  shows "dr_status er = ''healthy'' \<longleftrightarrow> snd (project_events evs) = [] \<and> consecutive evs"
proof -
  let ?seqs = "map ev_sequence evs"
  let ?integral = "list_all (\<lambda>v. as_int v \<noteq> None) ?seqs" and ?ordered = "order_reasons (map number_of ?seqs) (snd (project_events evs))"
  let ?gaps = "if ?integral \<and> \<not> replay_anomaly (map number_of ?seqs) then missing_between (map (\<lambda>v. the (as_int v)) ?seqs) else []"
  let ?reasons = "if \<not> ?integral then reason_add REASON_NON_INTEGER ?ordered else if ?gaps \<noteq> [] then reason_add REASON_GAP ?ordered else ?ordered"
  have "PStr (if ?reasons = [] then ''healthy'' else ''degraded'') = PStr (dr_status er)"
    using assms diag_made_status unfolding diagnose_events_def Let_def case_prod_unfold by blast
  then have "dr_status er = ''healthy'' \<longleftrightarrow> ?reasons = []" by (auto split: if_splits)
  also have "\<dots> \<longleftrightarrow> snd (project_events evs) = [] \<and> ?integral \<and> \<not> replay_anomaly (map number_of ?seqs) \<and> missing_between (map (\<lambda>v. the (as_int v)) ?seqs) = []"
    by (auto simp: reason_added order_reasons_Nil)
  also have "\<dots> \<longleftrightarrow> snd (project_events evs) = [] \<and> ?integral \<and> list_all (\<lambda>(v, w). number_of w = number_of v + 1) (zip ?seqs (tl ?seqs))"
    using consecutive_iff [of ?seqs] by blast
  also have "\<dots> \<longleftrightarrow> snd (project_events evs) = [] \<and> consecutive evs"
    by (simp add: consecutive_def map_tl [symmetric] zip_map1 zip_map2 list.pred_map comp_def case_prod_unfold)
  finally show ?thesis .
qed

lemma consistent_iff:
  assumes "reconcile_run_events env loaded lg (PStr run) limit f = Inr rr" and "log_replay env limit f = Inr evs" and "evs \<noteq> []"
  shows "rr_status rr = ''consistent'' \<longleftrightarrow> (\<exists>s. loaded = Inr s \<and> sn_run_id s = run \<and> \<not> identity_mismatch lg run evs \<and> \<not> owner_mismatch lg evs
     \<and> length (sn_events s) = length evs \<and> py_eq (PInt (sn_event_sequence s)) (ev_sequence (last evs)))"
proof -
  have f: "f \<noteq> None"
  proof
    assume "f = None"
    then show False using assms(2,3) by (auto simp: log_replay_def log_records_def file_lines_def result_simps)
  qed
  obtain snap where snap: "(case loaded of Inr s \<Rightarrow> Inr (Some s) | Inl e \<Rightarrow> if e = RunNotFoundError then Inr None else Inl (ReconStore e)) = Inr snap"
    and made: "log_part (ReconReport_post_init (PStr (if recon_reasons lg run snap f evs (ev_sequence (last evs)) = [] then ''consistent'' else ''degraded'')) (PStr run)
       (case snap of None \<Rightarrow> PNone | Some s \<Rightarrow> PStr (sn_status s)) (case snap of None \<Rightarrow> PNone | Some s \<Rightarrow> PInt (sn_generation s))
       (case snap of None \<Rightarrow> PNone | Some s \<Rightarrow> PInt (sn_event_sequence s)) (PInt (int (length evs))) (ev_sequence (last evs))
       (PTuple (map PStr (recon_reasons lg run snap f evs (ev_sequence (last evs)))))) = Inr rr"
    using assms f unfolding reconcile_run_events_def Let_def bindR_eq_Inr
    by (elim exE conjE) (auto simp: log_part_def recon_run_def split: sum.split_asm if_split_asm)
  have loaded: "snap = Some s \<longleftrightarrow> loaded = Inr s" for s using snap by (auto split: sum.split_asm if_split_asm)
  have "PStr (if recon_reasons lg run snap f evs (ev_sequence (last evs)) = [] then ''consistent'' else ''degraded'') = PStr (rr_status rr)"
  proof (cases "recon_reasons lg run snap f evs (ev_sequence (last evs)) = []")
    case True
    show ?thesis using made unfolding log_part_def by (auto simp: True split: sum.split_asm dest: recon_made_status)
  next
    case False
    show ?thesis using made unfolding log_part_def by (auto simp: False split: sum.split_asm dest: recon_made_status)
  qed
  then have "rr_status rr = ''consistent'' \<longleftrightarrow> recon_reasons lg run snap f evs (ev_sequence (last evs)) = []" by (auto split: if_splits)
  also have "\<dots> \<longleftrightarrow> (\<exists>s. snap = Some s \<and> sn_run_id s = run \<and> \<not> identity_mismatch lg run evs \<and> \<not> owner_mismatch lg evs
     \<and> length (sn_events s) = length evs \<and> py_eq (PInt (sn_event_sequence s)) (ev_sequence (last evs)))"
    using f by (cases snap) (auto simp: recon_reasons_def RECON_REASONS_def filter_empty_conv)
  finally show ?thesis unfolding loaded .
qed

lemma diagnosed_healthy:
  assumes "HealthSignal_new l r p hl = Inr (hh_signal h)" and "diagnose_snapshot h = Inr g"
  shows "dg_status g = ''healthy'' \<longleftrightarrow> hh_signal h = \<lparr>sg_liveness = ''alive'', sg_readiness = ''ready'', sg_progress = ''advanced'', sg_health = ''healthy''\<rparr>
     \<and> \<not> age_reached (hh_heartbeat_age h) HEARTBEAT_SUSPECT_SECONDS"
proof -
  let ?g = "hh_signal h"
  let ?passed = "sg_health ?g \<noteq> ''failed'' \<and> sg_liveness ?g \<noteq> ''missing'' \<and> sg_readiness ?g \<noteq> ''not_ready'' \<and> sg_progress ?g \<noteq> ''stalled''
     \<and> sg_health ?g \<noteq> ''degraded'' \<and> ''unknown'' \<notin> {sg_liveness ?g, sg_readiness ?g, sg_progress ?g, sg_health ?g}"
  have "dg_status g \<noteq> ''healthy'' \<or> ?passed \<and> \<not> age_reached (hh_heartbeat_age h) HEARTBEAT_SUSPECT_SECONDS"
    using assms(2) unfolding diagnose_snapshot_def Let_def apply (elim if_elim)
    apply (drule verdict_status proposing_status, simp)+
    done
  moreover have "dg_status g = ''healthy''" if "?passed" "\<not> age_reached (hh_heartbeat_age h) HEARTBEAT_SUSPECT_SECONDS"
    using assms(2) that verdict_status [of "''healthy''" "[]" g] by (simp add: diagnose_snapshot_def Let_def)
  moreover have "?passed \<longleftrightarrow> sg_liveness ?g = ''alive'' \<and> sg_readiness ?g = ''ready'' \<and> sg_progress ?g = ''advanced'' \<and> sg_health ?g = ''healthy''"
  proof
    assume p: ?passed
    have w: "sg_liveness ?g \<in> set LIVENESS" "sg_readiness ?g \<in> set READINESS" "sg_progress ?g \<in> set PROGRESS" "sg_health ?g \<in> set HEALTH"
      using signal_words [OF assms(1)] by blast+
    have "sg_liveness ?g = ''alive''" using w(1) p unfolding LIVENESS_def by fastforce
    moreover have "sg_readiness ?g = ''ready''" using w(2) p unfolding READINESS_def by fastforce
    moreover have "sg_progress ?g = ''advanced''" using w(3) p unfolding PROGRESS_def by fastforce
    moreover have "sg_health ?g = ''healthy''" using w(4) p unfolding HEALTH_def by fastforce
    ultimately show "sg_liveness ?g = ''alive'' \<and> sg_readiness ?g = ''ready'' \<and> sg_progress ?g = ''advanced'' \<and> sg_health ?g = ''healthy''" by simp
  qed simp
  moreover have "\<dots> \<longleftrightarrow> ?g = \<lparr>sg_liveness = ''alive'', sg_readiness = ''ready'', sg_progress = ''advanced'', sg_health = ''healthy''\<rparr>"
    by (cases ?g) simp
  ultimately show ?thesis by blast
qed

lemma running_eq: "reconcile_snapshot h (PStr ''running'') active =
    bindR (if active = PNone then Inr None else case epoch_of active of Inl e \<Rightarrow> Inl SvSupervisionError | Inr n \<Rightarrow> Inr (Some n)) (\<lambda>a.
      if a \<noteq> None \<and> a \<noteq> Some (hh_owner_epoch h) then verdict_of ''blocked'' [''stale_owner_epoch''] else diagnose_snapshot h)"
  by (simp add: reconcile_snapshot_def sv_word_def DESIRED_STATES_def)

lemma running_healthy:
  assumes "HealthSignal_new l r p hl = Inr (hh_signal h)" and "reconcile_snapshot h (PStr ''running'') active = Inr g"
  shows "dg_status g = ''healthy'' \<longleftrightarrow> (active = PNone \<or> active = PInt (hh_owner_epoch h))
     \<and> hh_signal h = \<lparr>sg_liveness = ''alive'', sg_readiness = ''ready'', sg_progress = ''advanced'', sg_health = ''healthy''\<rparr>
     \<and> \<not> age_reached (hh_heartbeat_age h) HEARTBEAT_SUSPECT_SECONDS"
proof -
  obtain a where a: "(if active = PNone then Inr None else case epoch_of active of Inl e \<Rightarrow> Inl SvSupervisionError | Inr n \<Rightarrow> Inr (Some n)) = Inr a"
    and g: "(if a \<noteq> None \<and> a \<noteq> Some (hh_owner_epoch h) then verdict_of ''blocked'' [''stale_owner_epoch''] else diagnose_snapshot h) = Inr g"
    using assms(2) unfolding running_eq bindR_eq_Inr by blast
  have owner: "a = None \<or> a = Some (hh_owner_epoch h) \<longleftrightarrow> active = PNone \<or> active = PInt (hh_owner_epoch h)"
  proof (cases "\<exists>n. active = PInt n")
    case True
    then show ?thesis using a by (auto simp: epoch_of_def split: if_split_asm)
  next
    case False
    then have "active = PNone" using a by (cases active) (auto simp: epoch_of_def)
    then show ?thesis using a by simp
  qed
  show ?thesis
  proof (cases "a = None \<or> a = Some (hh_owner_epoch h)")
    case True
    then have "diagnose_snapshot h = Inr g" using g by auto
    then show ?thesis using diagnosed_healthy [OF assms(1)] owner True by blast
  next
    case False
    then have "dg_status g = ''blocked''" using g verdict_status by auto
    then show ?thesis using owner False by simp
  qed
qed

lemma all_ready: "list_all (\<lambda>a. list_all (\<lambda>b. list_all (\<lambda>c. case compose_statuses (Some a) (Some b) (Some c) of Inl e \<Rightarrow> False
      | Inr v \<Rightarrow> rv_status v = ''ready'' \<longleftrightarrow> a = ''healthy'' \<and> b = ''healthy'' \<and> c = ''consistent'') RV_RECONCILIATION) RV_EVENT) RV_SUPERVISOR"
  by code_simp

text \<open>
  C40: over a running worker, its event log and its run, ready means what it says. When all three reports exist,
  the view says ready exactly when the signals are alive, ready, advanced and healthy with a fresh heartbeat
  under the current owner epoch, the replayed transitions are consistent and numbered without gaps, and the
  snapshot of the run has as many events, the last with the same number, under the same run and owner.
\<close>

theorem ready_exact:
  assumes "HealthSignal_new l r p hl = Inr (hh_signal h)" and obs: "observe h (PStr ''running'') active = Inr sr"
    and diag: "diagnose_event_log env lg owner limit f = Inr er" and recon: "reconcile_run_events env loaded lg (PStr run) limit f = Inr rr"
  shows "\<exists>v. compose_readiness (Some sr) (Some er) (Some rr) = Inr v \<and> (rv_status v = ''ready'' \<longleftrightarrow>
     (active = PNone \<or> active = PInt (hh_owner_epoch h)) \<and> \<not> age_reached (hh_heartbeat_age h) HEARTBEAT_SUSPECT_SECONDS
     \<and> hh_signal h = \<lparr>sg_liveness = ''alive'', sg_readiness = ''ready'', sg_progress = ''advanced'', sg_health = ''healthy''\<rparr>
     \<and> (\<exists>evs s. log_replay env limit f = Inr evs \<and> evs \<noteq> [] \<and> snd (project_events evs) = [] \<and> consecutive evs \<and> loaded = Inr s \<and> sn_run_id s = run
         \<and> \<not> identity_mismatch lg run evs \<and> \<not> owner_mismatch lg evs \<and> length (sn_events s) = length evs
         \<and> py_eq (PInt (sn_event_sequence s)) (ev_sequence (last evs))))"
proof -
  have "dg_status (sr_diagnosis sr) \<in> set RV_SUPERVISOR" "dr_status er \<in> set RV_EVENT" "rr_status rr \<in> set RV_RECONCILIATION"
    using observed_status [OF obs] event_status [OF diag] recon_status [OF recon] by blast+
  then obtain v where v: "compose_readiness (Some sr) (Some er) (Some rr) = Inr v"
    and ready: "rv_status v = ''ready'' \<longleftrightarrow> dg_status (sr_diagnosis sr) = ''healthy'' \<and> dr_status er = ''healthy'' \<and> rr_status rr = ''consistent''"
    using all_ready unfolding list_all_iff compose_readiness_def by (fastforce split: sum.split_asm)
  obtain evs where evs: "log_replay env limit f = Inr evs" "evs = [] \<Longrightarrow> dr_status er = ''unknown''" "evs \<noteq> [] \<Longrightarrow> diagnose_events evs = Inr er"
    using diagnosed_cases [OF diag] by metis
  have worker: "dg_status (sr_diagnosis sr) = ''healthy'' \<longleftrightarrow> (active = PNone \<or> active = PInt (hh_owner_epoch h))
     \<and> hh_signal h = \<lparr>sg_liveness = ''alive'', sg_readiness = ''ready'', sg_progress = ''advanced'', sg_health = ''healthy''\<rparr>
     \<and> \<not> age_reached (hh_heartbeat_age h) HEARTBEAT_SUSPECT_SECONDS"
    using running_healthy [OF assms(1)] observed_status [OF obs] by blast
  show ?thesis
  proof (cases "evs = []")
    case True
    then show ?thesis using v ready evs(1,2) by auto
  next
    case False
    show ?thesis using v ready worker healthy_iff [OF evs(3) [OF False]] consistent_iff [OF recon evs(1) False] evs(1) False by auto
  qed
qed

section \<open>Concrete reports\<close>

definition sv_demo_signal :: "string \<Rightarrow> health_signal" where
  "sv_demo_signal s = \<lparr>sg_liveness = ''alive'', sg_readiness = ''ready'', sg_progress = ''advanced'', sg_health = s\<rparr>"

definition sv_demo :: "string \<Rightarrow> string \<Rightarrow> string \<Rightarrow> health_snapshot" where
  "sv_demo run task s = \<lparr>hh_mission_run_id = run, hh_task_id = task, hh_lane_id = ''l'', hh_owner_epoch = 1, hh_signal = sv_demo_signal s,
     hh_mission_id = ''m'', hh_attempt_id = ''1'', hh_session_id = ''s'', hh_heartbeat_age = PNone, hh_progress_age = PNone\<rparr>"

lemma sv_demo_observed: "isOK (observe (sv_demo ''r'' ''t'' ''healthy'') (PStr ''running'') (PInt 1))"
  by code_simp

lemma sv_demo_new: "HealthSignal_new (PStr ''alive'') (PStr ''ready'') (PStr ''advanced'') (PStr ''healthy'') = Inr (sv_demo_signal ''healthy'')"
  by code_simp

definition sv_demo_log :: log_file where
  "sv_demo_log = (case FleetEvent_post_init demo_ev_env None recon_event of Inl x \<Rightarrow> None
     | Inr e \<Rightarrow> (case log_append demo_ev_env demo_lg e None of Inl x \<Rightarrow> None | Inr (x, f) \<Rightarrow> f))"

lemma sv_demo_diagnosed: "isOK (diagnose_event_log demo_ev_env demo_lg PNone (PInt 10) sv_demo_log)"
  by code_simp

lemma sv_demo_reconciled: "isOK (reconcile_run_events demo_ev_env (Inr (recon_snapshot\<lparr>sn_run_id := ''r''\<rparr>)) demo_lg (PStr ''r'') (PInt 10) sv_demo_log)"
  by code_simp

lemma sv_demo_replayed: "case log_replay demo_ev_env (PInt 10) sv_demo_log of Inl e \<Rightarrow> False | Inr evs \<Rightarrow> evs \<noteq> [] \<and> snd (project_events evs) = []
    \<and> consecutive evs \<and> \<not> identity_mismatch demo_lg ''r'' evs \<and> \<not> owner_mismatch demo_lg evs \<and> length evs = 1 \<and> py_eq (PInt 1) (ev_sequence (last evs))"
  by code_simp

theorem ready_exact_witness:
  "\<exists>sr er rr v. compose_readiness (Some sr) (Some er) (Some rr) = Inr v \<and> rv_status v = ''ready''"
proof -
  let ?h = "sv_demo ''r'' ''t'' ''healthy''" and ?s = "recon_snapshot\<lparr>sn_run_id := ''r''\<rparr>"
  obtain sr er rr where made: "observe ?h (PStr ''running'') (PInt 1) = Inr sr" "diagnose_event_log demo_ev_env demo_lg PNone (PInt 10) sv_demo_log = Inr er"
    "reconcile_run_events demo_ev_env (Inr ?s) demo_lg (PStr ''r'') (PInt 10) sv_demo_log = Inr rr"
    using sv_demo_observed sv_demo_diagnosed sv_demo_reconciled by (auto simp: isOK_def split: sum.split_asm)
  have sig: "HealthSignal_new (PStr ''alive'') (PStr ''ready'') (PStr ''advanced'') (PStr ''healthy'') = Inr (hh_signal ?h)"
    using sv_demo_new by (simp add: sv_demo_def)
  obtain evs where evs: "log_replay demo_ev_env (PInt 10) sv_demo_log = Inr evs" "evs \<noteq> []" "snd (project_events evs) = []" "consecutive evs"
    "\<not> identity_mismatch demo_lg ''r'' evs" "\<not> owner_mismatch demo_lg evs" "length evs = 1" "py_eq (PInt 1) (ev_sequence (last evs))"
    using sv_demo_replayed by (auto split: sum.split_asm)
  obtain v where v: "compose_readiness (Some sr) (Some er) (Some rr) = Inr v" and ready: "rv_status v = ''ready'' \<longleftrightarrow>
     (PInt 1 = PNone \<or> PInt 1 = PInt (hh_owner_epoch ?h)) \<and> \<not> age_reached (hh_heartbeat_age ?h) HEARTBEAT_SUSPECT_SECONDS
     \<and> hh_signal ?h = \<lparr>sg_liveness = ''alive'', sg_readiness = ''ready'', sg_progress = ''advanced'', sg_health = ''healthy''\<rparr>
     \<and> (\<exists>evs s. log_replay demo_ev_env (PInt 10) sv_demo_log = Inr evs \<and> evs \<noteq> [] \<and> snd (project_events evs) = [] \<and> consecutive evs \<and> Inr ?s = (Inr s :: snapshot sres)
         \<and> sn_run_id s = ''r'' \<and> \<not> identity_mismatch demo_lg ''r'' evs \<and> \<not> owner_mismatch demo_lg evs \<and> length (sn_events s) = length evs
         \<and> py_eq (PInt (sn_event_sequence s)) (ev_sequence (last evs)))"
    using ready_exact [OF sig made] by blast
  have "rv_status v = ''ready''" unfolding ready using evs
    by (auto simp: sv_demo_def sv_demo_signal_def age_reached_def recon_snapshot_def simp del: py_eq.simps)
  then show ?thesis using v by blast
qed

theorem readiness_worst_witness:
  "\<exists>sr v. compose_readiness (Some sr) None None = Inr v \<and> view_rank (rv_status v) = worst_rank [supervisor_rank (dg_status (sr_diagnosis sr))]"
proof -
  obtain sr where sr: "observe (sv_demo ''r'' ''t'' ''healthy'') (PStr ''running'') (PInt 1) = Inr sr"
    using sv_demo_observed by (auto simp: isOK_def split: sum.split_asm)
  show ?thesis using readiness_worst [of "Some sr" None None] sr by (auto simp: source_ranks_def)
qed

section \<open>Where reports fail\<close>

text \<open>
  A failed worker whose run is called pid has no diagnosis: the reference of the proposal reads like a process
  handle and is refused. A diagnostics report may be built with the status blocked, which no view accepts.
\<close>

lemma failed_worker_unreported: "observe (sv_demo ''pid'' ''5'' ''failed'') (PStr ''running'') PNone = Inl SvValueError
    \<and> isOK (observe (sv_demo ''pid'' ''5'' ''healthy'') (PStr ''running'') PNone)"
  by code_simp

lemma blocked_report_refused: "compose_statuses None (Some ''blocked'') None = Inl SvValueError \<and> ''blocked'' \<in> set DIAG_STATUS"
  by code_simp

end
