(* ===== verification/HandoffProperties.thy ===== *)
theory HandoffProperties
  imports Handoff
begin

text \<open>
  Properties of the handoff store: a saved handoff is never replaced, and it is read back as it was saved when
  redaction leaves its texts alone. Redaction is not idempotent, so the second condition is needed.
\<close>

section \<open>Texts that redaction leaves alone\<close>

definition text_stable :: "string \<Rightarrow> bool" where
  "text_stable s \<longleftrightarrow> sanitize_text (PStr s) = Inr s"

definition ref_stable :: "string \<Rightarrow> bool" where
  "ref_stable s \<longleftrightarrow> ho_ref (PStr s) = Inr s"

definition artifact_stable :: "artifact \<Rightarrow> bool" where
  "artifact_stable a \<longleftrightarrow> text_stable (ha_summary a) \<and> text_stable (ha_next_action a)
     \<and> list_all text_stable (ha_completed a @ ha_remaining a @ ha_decisions a @ ha_risks a) \<and> list_all ref_stable (ha_evidence_refs a)"

definition envelope_stable :: "envelope \<Rightarrow> bool" where
  "envelope_stable e \<longleftrightarrow> artifact_stable (he_artifact e) \<and> text_stable (he_status e) \<and> list_all ref_stable (he_evidence_refs e)"

lemma ho_id_again: "ho_id v = Inr s \<Longrightarrow> ho_id (PStr s) = Inr s"
proof -
  assume "ho_id v = Inr s"
  then obtain t where t: "as_str v = Some t" "\<not> blank t" "length t \<le> HO_MAX_ID" "\<not> list_ex below_space t" "\<not> unsafe_identifier (strip t)" and s: "s = strip t"
    by (auto simp: ho_id_def result_simps)
  have "length s \<le> length t" by (simp add: s strip_def) (metis le_trans length_dropWhile_le length_rev)
  moreover have "set s \<subseteq> set t" unfolding s strip_def by (metis (no_types, lifting) set_dropWhileD set_rev subsetI)
  ultimately show ?thesis using t by (auto simp: ho_id_def s blank_def list_ex_iff)
qed

lemma ho_reason_again: "ho_reason v = Inr r \<Longrightarrow> ho_reason (PStr r) = Inr r"
proof -
  assume "ho_reason v = Inr r"
  then have "r \<in> set HANDOFF_REASONS" by (auto simp: ho_reason_def result_simps Let_def)
  moreover have "\<forall>r \<in> set HANDOFF_REASONS. ho_reason (PStr r) = Inr r" by code_simp
  ultimately show ?thesis by blast
qed

lemma ho_each_again: "list_all (\<lambda>s. f (PStr s) = Inr s) xs \<Longrightarrow> length xs \<le> HO_MAX_ITEMS \<Longrightarrow> ho_each f (strs xs) = Inr xs"
  using mapR_id [of xs f PStr] by (simp add: ho_each_def strs_def list_all_iff)

lemma ho_each_length: "ho_each f v = Inr xs \<Longrightarrow> length xs \<le> HO_MAX_ITEMS"
  by (auto simp: ho_each_def result_simps mapR_eq_Inr dest: list_all2_lengthD)

section \<open>Artifacts\<close>

text \<open>What an accepted artifact guarantees, whatever its texts are.\<close>

definition lineage_ok :: "lineage \<Rightarrow> bool" where
  "lineage_ok l \<longleftrightarrow> list_all (\<lambda>s. ho_id (PStr s) = Inr s) [hl_mission_id l, hl_mission_run_id l, hl_task_id l, hl_source_lane_id l, hl_attempt_id l,
     hl_session_id l, hl_target_role l] \<and> 0 \<le> hl_owner_epoch l"

definition artifact_ok :: "artifact \<Rightarrow> bool" where
  "artifact_ok a \<longleftrightarrow> ho_id (PStr (ha_handoff_id a)) = Inr (ha_handoff_id a) \<and> ho_reason (PStr (ha_reason a)) = Inr (ha_reason a)
     \<and> list_all (\<lambda>xs. length xs \<le> HO_MAX_ITEMS) [ha_completed a, ha_remaining a, ha_decisions a, ha_risks a, ha_evidence_refs a] \<and> lineage_ok (ha_lineage a)"

lemma lineage_new_ok: "HandoffLineage_new d = Inr l \<Longrightarrow> lineage_ok l"
  by (auto simp: HandoffLineage_new_def lineage_ok_def result_simps Let_def epoch_of_def split: if_split_asm intro: ho_id_again)

lemma artifact_new_ok: "HandoffArtifact_new d l = Inr a \<Longrightarrow> lineage_ok l \<Longrightarrow> artifact_ok a"
  unfolding HandoffArtifact_new_def artifact_ok_def Let_def result_simps
  by (elim exE conjE) (auto simp: ho_items_def ho_refs_def intro: ho_id_again ho_reason_again ho_each_length)

definition SAFE_PROXY :: pyval where
  "SAFE_PROXY = (case metadata_value 0 SAFETY of None \<Rightarrow> PNone | Some w \<Rightarrow> w)"


lemma safety_metadata: "safe_metadata SAFETY = Inr SAFE_PROXY"
  by code_simp

lemma safety_wire: "wire (ho_thaw SAFE_PROXY)"
  by code_simp

lemma safety_again: "case safe_metadata (sort_json (ho_thaw SAFE_PROXY)) of Inl e \<Rightarrow> False | Inr w \<Rightarrow> py_eq w SAFE_PROXY"
  by code_simp

lemma safety_dict: "as_pdict (sort_json (ho_thaw SAFE_PROXY)) \<noteq> None"
  by code_simp

section \<open>What is read back\<close>

text \<open>The items of a dictionary after it was written and read.\<close>

definition sent :: "pymap \<Rightarrow> pymap" where
  "sent d = sort_key item_key (map (\<lambda>kv. (fst kv, sort_json (snd kv))) d)"

lemma sort_json_dict: "sort_json (PDict d) = PDict (sent d)"
  by (simp add: sent_def)

lemma sent_mget: "distinct (map fst d) \<Longrightarrow> mget (sent d) k = map_option sort_json (mget d k)"
  by (simp add: sent_def mget_sort mget_map comp_def)

lemma sent_mget_or: "distinct (map fst d) \<Longrightarrow> mget_or (sent d) k PNone = sort_json (mget_or d k PNone)"
  by (simp add: mget_or_def sent_mget split: option.split)

lemma sent_keys: "set (map fst (sent d)) = set (map fst d)"
  by (simp add: sent_def image_image)

lemma sent_filter: "filter (\<lambda>kv. P (fst kv)) (sent d) = sent (filter (\<lambda>kv. P (fst kv)) d)"
  by (simp add: sent_def filter_sort filter_map comp_def)

lemma sort_strs: "sort_json (strs xs) = strs xs" "wire (strs xs)"
  by (simp_all add: strs_def comp_def)

lemma lineage_distinct: "distinct (map fst (HandoffLineage_to_dict l))"
  by (simp add: HandoffLineage_to_dict_def str_keyed_def)

lemma lineage_again: "lineage_ok l \<Longrightarrow> HandoffLineage_new (sent (HandoffLineage_to_dict l)) = Inr l"
proof -
  assume l: "lineage_ok l"
  have "set (map fst (sent (HandoffLineage_to_dict l))) = PStr ` set LINEAGE_FIELDS"
    unfolding sent_keys by (simp add: HandoffLineage_to_dict_def str_keyed_def LINEAGE_FIELDS_def)
  then show ?thesis using l unfolding HandoffLineage_new_def Let_def sent_mget_or [OF lineage_distinct]
    by (simp add: HandoffLineage_to_dict_def str_keyed_def lineage_ok_def epoch_of_def)
qed

lemma artifact_distinct: "distinct (map fst (HandoffArtifact_to_dict a))"
  by (simp add: HandoffArtifact_to_dict_def str_keyed_def)

lemma artifact_again:
  assumes "artifact_ok a" and "artifact_stable a" and "ha_safety a = SAFE_PROXY"
  shows "\<exists>w. HandoffArtifact_new (sent (HandoffArtifact_to_dict a)) (ha_lineage a) = Inr (a\<lparr>ha_safety := w\<rparr>) \<and> py_eq w SAFE_PROXY"
proof -
  obtain w where w: "safe_metadata (sort_json (ho_thaw SAFE_PROXY)) = Inr w" "py_eq w SAFE_PROXY"
    using safety_again by (auto split: sum.split_asm)
  have m: "as_mapping (sort_json (ho_thaw SAFE_PROXY)) \<noteq> None" using safety_dict by (cases "sort_json (ho_thaw SAFE_PROXY)") auto
  have items: "ho_items (strs xs) = Inr xs" if "list_all text_stable xs" "length xs \<le> HO_MAX_ITEMS" for xs
    using that ho_each_again [of sanitize_text xs] by (simp add: ho_items_def text_stable_def [abs_def])
  have refs: "ho_refs (strs xs) = Inr xs" if "list_all ref_stable xs" "length xs \<le> HO_MAX_ITEMS" for xs
    using that ho_each_again [of ho_ref xs] by (simp add: ho_refs_def ref_stable_def [abs_def])
  have "HandoffArtifact_new (sent (HandoffArtifact_to_dict a)) (ha_lineage a) = Inr (a\<lparr>ha_safety := w\<rparr>)"
    using assms w(1) m unfolding HandoffArtifact_new_def Let_def sent_mget_or [OF artifact_distinct]
    by (simp add: HandoffArtifact_to_dict_def str_keyed_def artifact_ok_def artifact_stable_def text_stable_def sort_strs items refs)
  then show ?thesis using w(2) by blast
qed

lemma lineage_wire: "wire (PDict (HandoffLineage_to_dict l))"
  by (simp add: HandoffLineage_to_dict_def str_keyed_def str_dict_def)

lemma artifact_wire: "ha_safety a = SAFE_PROXY \<Longrightarrow> wire (PDict (HandoffArtifact_to_dict a))"
  using safety_wire lineage_wire by (simp add: HandoffArtifact_to_dict_def str_keyed_def str_dict_def sort_strs)

lemma payload_wire: "ha_safety a = SAFE_PROXY \<Longrightarrow> wire (PDict (envelope_payload a s rs))"
  using artifact_wire [of a] by (simp add: envelope_payload_def str_keyed_def str_dict_def sort_strs)

lemma mapR_refs: "list_all ref_stable rs \<Longrightarrow> mapR ho_ref (map PStr rs) = Inr rs"
  by (rule mapR_id) (simp add: list_all_iff ref_stable_def)

lemma decode_artifact_again:
  assumes "artifact_ok a" and "artifact_stable a" and "ha_safety a = SAFE_PROXY"
  shows "\<exists>w. decode_artifact (ha_handoff_id a) (sent (HandoffArtifact_to_dict a)) = Some (a\<lparr>ha_safety := w\<rparr>) \<and> py_eq w SAFE_PROXY"
proof -
  let ?d = "sent (HandoffArtifact_to_dict a)"
  obtain w where w: "HandoffArtifact_new ?d (ha_lineage a) = Inr (a\<lparr>ha_safety := w\<rparr>)" "py_eq w SAFE_PROXY" using artifact_again [OF assms] by blast
  obtain m where m: "as_pdict (sort_json (ho_thaw SAFE_PROXY)) = Some m" using safety_dict by auto
  have k: "has_keys ARTIFACT_FIELDS ?d" unfolding has_keys_def sent_keys by (simp add: HandoffArtifact_to_dict_def str_keyed_def ARTIFACT_FIELDS_def)
  have l: "HandoffLineage_new (sent (HandoffLineage_to_dict (ha_lineage a))) = Inr (ha_lineage a)"
    using assms(1) by (intro lineage_again) (simp add: artifact_ok_def)
  have at: "mget_or ?d ''lineage'' PNone = PDict (sent (HandoffLineage_to_dict (ha_lineage a)))" "mget_or ?d ''safety'' PNone = sort_json (ho_thaw SAFE_PROXY)"
    "mget ?d ''handoff_id'' = Some (PStr (ha_handoff_id a))"
    unfolding sent_mget_or [OF artifact_distinct] sent_mget [OF artifact_distinct]
    by (simp_all add: HandoffArtifact_to_dict_def str_keyed_def assms(3) sort_json_dict del: sort_json.simps(1))
  have lists: "list_all (\<lambda>k. as_plist (mget_or ?d k PNone) \<noteq> None) [''completed'', ''remaining'', ''decisions'', ''risks'', ''evidence_refs'']"
    unfolding sent_mget_or [OF artifact_distinct] by (simp add: HandoffArtifact_to_dict_def str_keyed_def sort_strs) (simp add: strs_def)
  have "decode_artifact (ha_handoff_id a) ?d = Some (a\<lparr>ha_safety := w\<rparr>)"
    using k l m w(1) lists by (simp add: decode_artifact_def at list_ex_iff list_all_iff)
  then show ?thesis using w(2) by blast
qed

lemma decode_saved:
  assumes a: "artifact_ok a" "artifact_stable a" "ha_safety a = SAFE_PROXY" and s: "text_stable s" and rs: "list_all ref_stable rs" "length rs \<le> HO_MAX_ITEMS"
    and t: "json_text (ho_rep env) (PDict (envelope_payload a s rs)) = Some t"
    and v: "json_reread (ho_rep env) (PDict (envelope_payload a s rs @ [(PStr ''checksum'', PStr (ho_sha env t))])) = Some v"
  shows "\<exists>w. decode env (ha_handoff_id a) (HoJson v) = Some \<lparr>he_handoff_id = ha_handoff_id a, he_artifact = a\<lparr>ha_safety := w\<rparr>, he_status = s,
     he_evidence_refs = rs, he_checksum = ho_sha env t\<rparr> \<and> py_eq w SAFE_PROXY"
proof -
  let ?P = "envelope_payload a s rs" and ?E = "envelope_payload a s rs @ [(PStr ''checksum'', PStr (ho_sha env t))]"
  obtain w where w: "decode_artifact (ha_handoff_id a) (sent (HandoffArtifact_to_dict a)) = Some (a\<lparr>ha_safety := w\<rparr>)" "py_eq w SAFE_PROXY"
    using decode_artifact_again [OF a] by blast
  have "wire (PDict ?E)" using payload_wire [OF a(3), of s rs] by (simp add: envelope_payload_def str_keyed_def str_dict_def)
  then have v': "v = PDict (sent ?E)" using v reread_wire [of "PDict ?E" "ho_rep env"] unfolding sort_json_dict by simp
  have dist: "distinct (map fst ?E)" by (simp add: envelope_payload_def str_keyed_def)
  have k: "has_keys ENVELOPE_KEYS (sent ?E)" unfolding has_keys_def sent_keys by (simp add: envelope_payload_def str_keyed_def ENVELOPE_KEYS_def)
  have "filter (\<lambda>kv. fst kv \<noteq> PStr ''checksum'') ?E = ?P" by (simp add: envelope_payload_def str_keyed_def)
  then have pay: "filter (\<lambda>kv. fst kv \<noteq> PStr ''checksum'') (sent ?E) = sent ?P" using sent_filter [of "\<lambda>k. k \<noteq> PStr ''checksum''" ?E] by simp
  have t': "json_text (ho_rep env) (PDict (sent ?P)) = Some t" using t sort_json_text [OF payload_wire [OF a(3), of s rs], of "ho_rep env"] unfolding sort_json_dict by simp
  have at: "mget_or (sent ?E) ''checksum'' PNone = PStr (ho_sha env t)" "mget (sent ?E) ''schema_version'' = Some (PInt HANDOFF_SCHEMA_VERSION)"
    "mget (sent ?E) ''handoff_id'' = Some (PStr (ha_handoff_id a))" "mget_or (sent ?E) ''evidence_refs'' PNone = strs rs"
    "mget_or (sent ?E) ''artifact'' PNone = PDict (sent (HandoffArtifact_to_dict a))" "mget_or (sent ?E) ''status'' PNone = PStr s"
    unfolding sent_mget_or [OF dist] sent_mget [OF dist]
    by (simp_all add: envelope_payload_def str_keyed_def sort_strs sort_json_dict del: sort_json.simps(1))
  have s': "sanitize_text (PStr s) = Inr s" using s by (simp add: text_stable_def)
  have "decode env (ha_handoff_id a) (HoJson v) = Some \<lparr>he_handoff_id = ha_handoff_id a, he_artifact = a\<lparr>ha_safety := w\<rparr>, he_status = s,
     he_evidence_refs = rs, he_checksum = ho_sha env t\<rparr>"
    unfolding decode_def v' ho_file.case as_pdict.simps bind.bind_lunit Let_def pay at t'
    using k w(1) s' mapR_refs [OF rs(1)] rs(2) by (simp add: strs_def)
  then show ?thesis using w(2) by blast
qed

section \<open>The store\<close>

text \<open>One successful save by any store, of any artifact.\<close>

definition handoff_step :: "ho_env \<Rightarrow> ho_file dict \<Rightarrow> ho_file dict \<Rightarrow> bool" where
  "handoff_step env files files' \<longleftrightarrow> (\<exists>st a status refs e. handoff_save env st a status refs files = Inr (e, files'))"

lemma save_cases:
  assumes "handoff_save env st a status refs files = Inr (e, files')"
  obtains s rs t v where "owner_checked st a" and "sanitize_text status = Inr s" and "ho_refs refs = Inr rs" and "safe_segment (ha_handoff_id a)"
    and "json_text (ho_rep env) (PDict (envelope_payload a s rs)) = Some t"
    and "json_reread (ho_rep env) (PDict (envelope_payload a s rs @ [(PStr ''checksum'', PStr (ho_sha env t))])) = Some v"
    and "dget files (ha_handoff_id a) = None \<longrightarrow> files' = dset (ha_handoff_id a) (HoJson v) files
       \<and> e = \<lparr>he_handoff_id = ha_handoff_id a, he_artifact = a, he_status = s, he_evidence_refs = rs, he_checksum = ho_sha env t\<rparr>"
    and "dget files (ha_handoff_id a) \<noteq> None \<longrightarrow> files' = files"
  using assms unfolding handoff_save_def Let_def result_simps by (elim exE conjE) (auto simp: result_simps split: option.split_asm if_split_asm)

lemma step_keeps: "handoff_step env files files' \<Longrightarrow> dget files i = Some f \<Longrightarrow> dget files' i = Some f"
  unfolding handoff_step_def by (elim exE, erule save_cases) (metis dget_dset option.distinct(1))

lemma steps_keep: "(handoff_step env)\<^sup>*\<^sup>* files files' \<Longrightarrow> dget files i = Some f \<Longrightarrow> dget files' i = Some f"
  by (induction rule: rtranclp_induct) (auto dest: step_keeps)

lemma create_ok: "create_handoff env ids args = Inr a \<Longrightarrow> artifact_ok a \<and> ha_safety a = SAFE_PROXY"
proof -
  assume "create_handoff env ids args = Inr a"
  then obtain l d where l: "HandoffLineage_new ids = Inr l" and d: "HandoffArtifact_new d l = Inr a" "mget_or d ''safety'' PNone = SAFETY"
    unfolding create_handoff_def Let_def result_simps by (elim exE conjE) (auto simp: result_simps str_keyed_def split: option.split_asm)
  have "ha_safety a = SAFE_PROXY" using d safety_metadata by (auto simp: HandoffArtifact_new_def Let_def result_simps)
  then show ?thesis using artifact_new_ok [OF d(1) lineage_new_ok [OF l]] by simp
qed

lemma envelope_same: "py_eq w SAFE_PROXY \<Longrightarrow> ha_safety a = SAFE_PROXY \<Longrightarrow>
    envelope_eq (e\<lparr>he_artifact := a\<lparr>ha_safety := w\<rparr>\<rparr>) (e\<lparr>he_artifact := a\<rparr>)"
  by (simp add: envelope_eq_def)

text \<open>
  C38: a stored handoff is kept. An artifact made by create_handoff and saved under a new id, with texts that
  redaction leaves alone, is found by every later load, equal to what was saved, and saving it again returns
  it without changing a file, whatever other stores have saved in between.
\<close>

theorem handoff_kept:
  assumes "create_handoff env ids args = Inr a" and "handoff_save env st a status refs files = Inr (e, files')"
    and "dget files (ha_handoff_id a) = None" and "envelope_stable e" and "(handoff_step env)\<^sup>*\<^sup>* files' files''"
  shows "\<exists>x. handoff_load env st (ha_handoff_id a) files'' = Inr x \<and> envelope_eq x e
     \<and> handoff_save env st a status refs files'' = Inr (x, files'')"
proof -
  obtain s rs t v where own: "owner_checked st a" and s: "sanitize_text status = Inr s" and rs: "ho_refs refs = Inr rs" and seg: "safe_segment (ha_handoff_id a)"
    and t: "json_text (ho_rep env) (PDict (envelope_payload a s rs)) = Some t"
    and v: "json_reread (ho_rep env) (PDict (envelope_payload a s rs @ [(PStr ''checksum'', PStr (ho_sha env t))])) = Some v"
    and files': "files' = dset (ha_handoff_id a) (HoJson v) files"
    and e: "e = \<lparr>he_handoff_id = ha_handoff_id a, he_artifact = a, he_status = s, he_evidence_refs = rs, he_checksum = ho_sha env t\<rparr>"
    using save_cases [OF assms(2)] assms(3) by metis
  note a = create_ok [OF assms(1)]
  have stable: "artifact_stable a" "text_stable s" "list_all ref_stable rs" using assms(4) by (simp_all add: envelope_stable_def e)
  obtain w where w: "decode env (ha_handoff_id a) (HoJson v) = Some (e\<lparr>he_artifact := a\<lparr>ha_safety := w\<rparr>\<rparr>)" "py_eq w SAFE_PROXY"
    using decode_saved [OF a [THEN conjunct1] stable(1) a [THEN conjunct2] stable(2,3) _ t v] ho_each_length [of ho_ref refs rs] rs by (auto simp: e ho_refs_def)
  let ?x = "e\<lparr>he_artifact := a\<lparr>ha_safety := w\<rparr>\<rparr>"
  have f: "dget files'' (ha_handoff_id a) = Some (HoJson v)" using steps_keep [OF assms(5)] by (simp add: files' dget_dset)
  have load: "handoff_load env st (ha_handoff_id a) files'' = Inr ?x"
    using own w(1) seg f by (simp add: handoff_load_def owner_checked_def)
  have eq: "envelope_eq ?x e" using envelope_same [OF w(2), of a e] a by (simp add: e)
  have "handoff_save env st a status refs files'' = Inr (?x, files'')"
    using own s rs seg t v f load eq by (simp add: handoff_save_def Let_def e)
  then show ?thesis using load eq by blast
qed

section \<open>Concrete handoffs\<close>

definition ho_demo_env :: ho_env where
  "ho_demo_env = \<lparr>ho_rep = (\<lambda>q. ''0.0''), ho_sha = (\<lambda>s. ''aa'')\<rparr>"

definition ho_demo_ids :: pymap where
  "ho_demo_ids = str_keyed [(''mission_id'', PStr ''m''), (''mission_run_id'', PStr ''r''), (''task_id'', PStr ''t''), (''source_lane_id'', PStr ''lane''),
     (''attempt_id'', PStr ''1''), (''session_id'', PStr ''s''), (''target_role'', PStr ''qa''), (''owner_epoch'', PInt 1)]"

definition ho_demo_args :: "string \<Rightarrow> pymap" where
  "ho_demo_args summary = str_keyed [(''reason'', PStr ''phase_boundary''), (''summary'', PStr summary), (''completed'', strs []), (''remaining'', strs [''test'']),
     (''decisions'', strs []), (''risks'', strs []), (''evidence_refs'', strs [''logs/a'']), (''next_action'', PStr ''run'')]"

definition ho_demo_store :: ho_store where
  "ho_demo_store = \<lparr>hs_run = ''r'', hs_owner = Some 1, hs_lineage = None\<rparr>"

definition ho_demo :: "string \<Rightarrow> artifact" where
  "ho_demo summary = (case create_handoff ho_demo_env ho_demo_ids (ho_demo_args summary) of Inr a \<Rightarrow> a | Inl e \<Rightarrow> undefined)"

definition ho_demo_save :: "string \<Rightarrow> ho_file dict \<Rightarrow> (envelope \<times> ho_file dict) hores" where
  "ho_demo_save summary = handoff_save ho_demo_env ho_demo_store (ho_demo summary) (PStr ''ready'') (strs [''logs/a''])"

lemma ho_demo_created: "isOK (create_handoff ho_demo_env ho_demo_ids (ho_demo_args ''all built''))"
  by code_simp

lemma ho_demo_saved: "case ho_demo_save ''all built'' [] of Inl e \<Rightarrow> False | Inr (e, files) \<Rightarrow> envelope_stable e"
  by code_simp

theorem handoff_kept_witness:
  "\<exists>e x files. ho_demo_save ''all built'' [] = Inr (e, files) \<and> ho_demo_save ''all built'' files = Inr (x, files) \<and> envelope_eq x e"
proof -
  obtain a where a: "create_handoff ho_demo_env ho_demo_ids (ho_demo_args ''all built'') = Inr a" "ho_demo ''all built'' = a"
    using ho_demo_created by (auto simp: isOK_def ho_demo_def split: sum.split_asm)
  obtain e files where e: "ho_demo_save ''all built'' [] = Inr (e, files)" "envelope_stable e" using ho_demo_saved by (auto split: sum.split_asm)
  show ?thesis using handoff_kept [OF a(1) e(1) [unfolded ho_demo_save_def a(2)] _ e(2) rtranclp.rtrancl_refl] e(1)
    by (auto simp: ho_demo_save_def a(2) dget_def)
qed

text \<open>
  Redaction is not idempotent: a bracketed key after a label loses its key first and the brackets with the rest
  of the line when it is read again. The envelope is stored, but what is loaded differs from what was
  saved, and saving the same handoff again is refused as a conflict.
\<close>

lemma redaction_repeats: "sanitize_text (PStr ''token: (sk-abcdefgh1)'') = Inr ''token: ([REDACTED])''
    \<and> sanitize_text (PStr ''token: ([REDACTED])'') = Inr ''token: [REDACTED]''"
  by code_simp

lemma resave_conflict:
  assumes "handoff_save env st a status refs files = Inr (e, files')" and "dget files (ha_handoff_id a) = None"
    and "handoff_load env st (ha_handoff_id a) files' = Inr x" and "ha_summary (he_artifact x) \<noteq> ha_summary a"
  shows "handoff_save env st a status refs files' = Inl HoValueError"
proof -
  obtain s rs t v where own: "owner_checked st a" and s: "sanitize_text status = Inr s" and rs: "ho_refs refs = Inr rs" and seg: "safe_segment (ha_handoff_id a)"
    and t: "json_text (ho_rep env) (PDict (envelope_payload a s rs)) = Some t"
    and v: "json_reread (ho_rep env) (PDict (envelope_payload a s rs @ [(PStr ''checksum'', PStr (ho_sha env t))])) = Some v"
    and files': "files' = dset (ha_handoff_id a) (HoJson v) files"
    using save_cases [OF assms(1)] assms(2) by metis
  let ?e = "\<lparr>he_handoff_id = ha_handoff_id a, he_artifact = a, he_status = s, he_evidence_refs = rs, he_checksum = ho_sha env t\<rparr>"
  have differ: "\<not> envelope_eq x ?e"
  proof
    assume "envelope_eq x ?e"
    then have "ha_summary (he_artifact (x\<lparr>he_artifact := (he_artifact x)\<lparr>ha_safety := PNone\<rparr>\<rparr>)) = ha_summary (he_artifact (?e\<lparr>he_artifact := (he_artifact ?e)\<lparr>ha_safety := PNone\<rparr>\<rparr>))"
      unfolding envelope_eq_def by (elim conjE) (rule arg_cong)
    then show False using assms(4) by simp
  qed
  have f: "dget files' (ha_handoff_id a) = Some (HoJson v)" by (simp add: files' dget_dset)
  show ?thesis using own s rs seg t v f assms(3) differ by (simp add: handoff_save_def Let_def)
qed

definition ho_twice :: artifact where
  "ho_twice = \<lparr>ha_handoff_id = ''h'', ha_reason = ''retry'', ha_summary = ''token: ([REDACTED])'', ha_completed = [], ha_remaining = [], ha_decisions = [],
     ha_risks = [], ha_evidence_refs = [], ha_next_action = ''run'', ha_lineage = \<lparr>hl_mission_id = ''m'', hl_mission_run_id = ''r'', hl_task_id = ''t'',
     hl_source_lane_id = ''l'', hl_attempt_id = ''1'', hl_session_id = ''s'', hl_target_role = ''q'', hl_owner_epoch = 1\<rparr>, ha_safety = SAFE_PROXY\<rparr>"

lemma twice_loaded: "case handoff_save ho_demo_env ho_demo_store ho_twice (PStr ''ready'') (strs []) [] of Inl e \<Rightarrow> False
    | Inr (e, files) \<Rightarrow> (case handoff_load ho_demo_env ho_demo_store ''h'' files of Inl x \<Rightarrow> False | Inr x \<Rightarrow> ha_summary (he_artifact x) = ''token: [REDACTED]'')"
  by code_simp

lemma resave_refused: "\<exists>e files. handoff_save ho_demo_env ho_demo_store ho_twice (PStr ''ready'') (strs []) [] = Inr (e, files)
    \<and> handoff_save ho_demo_env ho_demo_store ho_twice (PStr ''ready'') (strs []) files = Inl HoValueError"
proof -
  obtain e files x where e: "handoff_save ho_demo_env ho_demo_store ho_twice (PStr ''ready'') (strs []) [] = Inr (e, files)"
    and x: "handoff_load ho_demo_env ho_demo_store ''h'' files = Inr x" "ha_summary (he_artifact x) = ''token: [REDACTED]''"
    using twice_loaded by (auto simp: split: sum.split_asm) (metis sum.exhaust)
  show ?thesis using resave_conflict [OF e, of x] e x by (simp add: dget_def ho_twice_def)
qed

end
