(* ===== verification/GatewayRedaction.thy ===== *)
theory GatewayRedaction
  imports RegexFast JsonReread
begin

text \<open>
  The closed schema of bridge events, \<open>scripts/pd_fleet/gateway_redaction.py\<close>. The envelope is flattened to
  paths and compared with the allowed paths, then every field and the payload is checked against its rule.
  Parameters are \<open>str()\<close> of values that are no JSON and of floats, and \<open>datetime.fromisoformat\<close>.
\<close>

section \<open>The schema\<close>

datatype gr_error = GrTypeError | GrKeyError

record gr_env =
  gr_str :: "pyval \<Rightarrow> string"
  gr_iso :: "string \<Rightarrow> bool"

definition WIRE_SCHEMA :: string where "WIRE_SCHEMA = ''pd-fleet-gateway-bridge:v1''"
definition REF_MAX :: nat where "REF_MAX = 128"
definition STRING_MAX :: nat where "STRING_MAX = 512"
definition PAYLOAD_MAX_BYTES :: nat where "PAYLOAD_MAX_BYTES = 4096"
definition DEPTH_MAX :: nat where "DEPTH_MAX = 8"
definition CARDINALITY_MAX :: nat where "CARDINALITY_MAX = 32"
definition TTL_MS_MAX :: int where "TTL_MS_MAX = 300000"

definition RUNTIME_SURFACES :: "string list" where "RUNTIME_SURFACES = [''cli'', ''gateway'', ''api'', ''tui'']"
definition SESSION_STATUSES :: "string list" where "SESSION_STATUSES = [''active'', ''idle'', ''stale'', ''ended'']"
definition REASON_CODES :: "string list" where "REASON_CODES = [''none'', ''timeout'', ''detached'', ''error'', ''closed'']"
definition TERMINAL_STATES :: "string list" where "TERMINAL_STATES = [''ended'', ''error'']"
definition CHANGED_FIELDS :: "string list" where "CHANGED_FIELDS = [''status'', ''metadata_version'']"
definition EVENT_ORIGINS :: "string list" where "EVENT_ORIGINS = [''gateway_native'', ''fleet_reconciled'']"
definition EVENT_TYPES :: "string list" where
  "EVENT_TYPES = [''session.registered'', ''session.status_changed'', ''session.heartbeat'', ''session.metadata_changed'',
     ''session.detached'', ''session.ended'']"
definition USER_OWNED :: string where "USER_OWNED = ''user_owned_session''"
definition SOURCE_SYSTEM :: string where "SOURCE_SYSTEM = ''hermes-gateway''"
definition TRANSPORT :: string where "TRANSPORT = ''gateway-event-stream''"

definition REF_RE :: regex where
  "REF_RE = seqs [Bos, plus (Cls (\<lambda>c. ascii_alnum c \<or> one_of ''._-'' c)), Dollar]"

definition ENVELOPE_PATHS :: "string list" where
  "ENVELOPE_PATHS = [''schema_version'', ''event_id'', ''event_type'', ''occurred_at'', ''source.system'', ''source.instance_ref'',
     ''event_origin'', ''session.session_ref'', ''session.association_ref'', ''session.ownership_mode'', ''stream_epoch'',
     ''sequence'', ''payload'', ''provenance.transport'', ''provenance.correlation_id'']"

datatype rule = REnum "string list" | RInt "int option" | RStamp | RListEnum "string list"

fun payload_schema :: "string \<Rightarrow> (string \<times> rule) list" where
  "payload_schema t =
    (if t = ''session.registered'' then [(''runtime_surface'', REnum RUNTIME_SURFACES), (''metadata_version'', RInt None)]
     else if t = ''session.status_changed'' then [(''status'', REnum SESSION_STATUSES), (''reason_code'', REnum REASON_CODES), (''metadata_version'', RInt None)]
     else if t = ''session.heartbeat'' then [(''heartbeat_sequence'', RInt None), (''observed_at'', RStamp), (''ttl_ms'', RInt (Some TTL_MS_MAX))]
     else if t = ''session.metadata_changed'' then [(''metadata_version'', RInt None), (''changed_fields'', RListEnum CHANGED_FIELDS)]
     else if t = ''session.detached'' then [(''reason_code'', REnum REASON_CODES), (''metadata_version'', RInt None)]
     else if t = ''session.ended'' then [(''terminal_state'', REnum TERMINAL_STATES), (''reason_code'', REnum REASON_CODES), (''metadata_version'', RInt None)]
     else [])"

section \<open>Checks\<close>

function (sequential) gr_depth :: "pyval \<Rightarrow> nat" where
  "gr_depth (PDict d) = Suc (fold max (map (\<lambda>kv. gr_depth (snd kv)) d) 0)"
| "gr_depth (PProxy d) = Suc (fold max (map (\<lambda>kv. gr_depth (snd kv)) d) 0)"
| "gr_depth (PList xs) = Suc (fold max (map gr_depth xs) 0)"
| "gr_depth v = 0"
  by pat_completeness auto
termination
  by (relation "measure size")
     (auto dest: py_pair_size size_list_estimation' [of _ _ _ size, OF _ order_refl] simp: less_Suc_eq_le)

text \<open>\<open>flat.update(nested)\<close> after the check that no path is taken; \<open>None\<close> is a path collision.\<close>

definition add_paths :: "pyval dict \<Rightarrow> pyval dict \<Rightarrow> pyval dict option" where
  "add_paths flat new = (if list_ex (\<lambda>kv. fst kv \<in> set (dkeys flat)) new then None else Some (flat @ new))"

function gr_flatten :: "(pyval \<Rightarrow> string) \<Rightarrow> string \<Rightarrow> pymap \<Rightarrow> pyval dict option" where
  "gr_flatten rep prefix d = fold (\<lambda>kv flat. Option.bind flat (\<lambda>f.
     let path = prefix @ py_str rep (fst kv) in case as_mapping (snd kv) of
       Some e \<Rightarrow> Option.bind (gr_flatten rep (path @ ''.'') e) (add_paths f)
     | None \<Rightarrow> add_paths f [(path, snd kv)])) d (Some [])"
  by pat_completeness auto
termination
proof (relation "measure (\<lambda>(rep, prefix, d). size_list (size_prod size size) d)")
  fix rep prefix and d :: pymap and kv x2 xa and e
  assume "kv \<in> set d" "as_mapping (snd kv) = Some e"
  then show "((rep, xa @ ''.'', e), rep, prefix, d) \<in> measure (\<lambda>(rep, prefix, d). size_list (size_prod size size) d)"
    using py_pair_size [of kv d] by (cases "snd kv") auto
qed simp

declare gr_flatten.simps [simp del]

definition gr_stamp :: "gr_env \<Rightarrow> pyval \<Rightarrow> bool" where
  "gr_stamp env v = (case as_str v of None \<Rightarrow> False | Some s \<Rightarrow> length s \<le> STRING_MAX \<and> endswith s ''Z''
     \<and> gr_iso env (concat (map (\<lambda>c. if c = CHR ''Z'' then ''+00:00'' else [c]) s)))"

definition gr_ref :: "pyval \<Rightarrow> bool" where
  "gr_ref v = (case as_str v of None \<Rightarrow> False | Some s \<Rightarrow> length s \<le> REF_MAX \<and> re_match REF_RE s)"

definition word_in :: "string list \<Rightarrow> pyval \<Rightarrow> bool" where
  "word_in ws v = (case as_str v of None \<Rightarrow> False | Some s \<Rightarrow> s \<in> set ws)"

text \<open>The size of \<open>json.dumps(v, default=str)\<close>, which is ASCII; \<open>None\<close> is a \<open>TypeError\<close>.\<close>

definition ascii_size :: "string \<Rightarrow> nat" where
  "ascii_size s = 2 + sum_list (map (\<lambda>c. if (of_char c :: nat) \<ge> 127 then 6 else length (json_escape c)) s)"

fun dump_key :: "(pyval \<Rightarrow> string) \<Rightarrow> pyval \<Rightarrow> string option" where
  "dump_key rep (PStr s) = Some s"
| "dump_key rep PNone = Some ''null''"
| "dump_key rep (PBool b) = Some (if b then ''true'' else ''false'')"
| "dump_key rep (PInt n) = Some (int_text n)"
| "dump_key rep (PFloat f) = Some (rep (PFloat f))"
| "dump_key rep v = None"

definition sum_sizes :: "nat option list \<Rightarrow> nat option" where
  "sum_sizes ns = map_option (\<lambda>ks. 2 + sum_list ks + 2 * (length ks - 1)) (those ns)"

function (sequential) dump_size :: "(pyval \<Rightarrow> string) \<Rightarrow> pyval \<Rightarrow> nat option" where
  "dump_size rep (PDict d) = sum_sizes (map (\<lambda>kv. case dump_key rep (fst kv) of None \<Rightarrow> None
       | Some k \<Rightarrow> map_option (\<lambda>n. ascii_size k + 2 + n) (dump_size rep (snd kv))) d)"
| "dump_size rep (PList xs) = sum_sizes (map (dump_size rep) xs)"
| "dump_size rep (PTuple xs) = sum_sizes (map (dump_size rep) xs)"
| "dump_size rep PNone = Some 4"
| "dump_size rep (PBool b) = Some (if b then 4 else 5)"
| "dump_size rep (PInt n) = Some (length (int_text n))"
| "dump_size rep (PFloat f) = Some (length (rep (PFloat f)))"
| "dump_size rep (PStr s) = Some (ascii_size s)"
| "dump_size rep v = Some (ascii_size (rep v))"
  by pat_completeness auto
termination
  by (relation "measure (size \<circ> snd)")
     (auto dest: py_pair_size size_list_estimation' [of _ _ _ size, OF _ order_refl] simp: less_Suc_eq_le)

fun gr_hashable :: "pyval \<Rightarrow> bool" where
  "gr_hashable (PList xs) = False"
| "gr_hashable (PDict d) = False"
| "gr_hashable (PProxy d) = False"
| "gr_hashable (PTuple xs) = (\<forall>x \<in> set xs. gr_hashable x)"
| "gr_hashable v = True"

text \<open>The verdict: \<open>None\<close> is acceptance, otherwise the reason. A membership test of an unhashable value raises.\<close>

type_synonym verdict = "(gr_error, string option) result"

definition refuse :: "bool \<Rightarrow> string \<Rightarrow> verdict \<Rightarrow> verdict" where
  "refuse bad reason rest = (if bad then Inr (Some reason) else rest)"

definition refuse_member :: "string list \<Rightarrow> pyval \<Rightarrow> verdict \<Rightarrow> verdict" where
  "refuse_member ws v rest = (if \<not> gr_hashable v then Inl GrTypeError else refuse (\<not> word_in ws v) ''unknown_enum'' rest)"

definition rule_ok :: "gr_env \<Rightarrow> rule \<Rightarrow> pyval \<Rightarrow> string option" where
  "rule_ok env r v = (case r of
     REnum ws \<Rightarrow> if word_in ws v then None else Some ''unknown_enum''
   | RInt bound \<Rightarrow> (case as_int v of None \<Rightarrow> Some ''invalid_field'' | Some n \<Rightarrow>
       if n < 0 then Some ''invalid_field'' else (case bound of None \<Rightarrow> None | Some m \<Rightarrow> if n > m then Some ''invalid_field'' else None))
   | RStamp \<Rightarrow> if gr_stamp env v then None else Some ''invalid_field''
   | RListEnum ws \<Rightarrow> (case as_plist v of None \<Rightarrow> Some ''invalid_field'' | Some xs \<Rightarrow>
       if CARDINALITY_MAX < length xs then Some ''invalid_field''
       else if list_all (word_in ws) xs then None else Some ''unknown_enum''))"

definition first_reason :: "string option list \<Rightarrow> string option" where
  "first_reason rs = (case filter (\<lambda>r. r \<noteq> None) rs of [] \<Rightarrow> None | r # _ \<Rightarrow> r)"

definition check_payload :: "gr_env \<Rightarrow> string \<Rightarrow> pyval \<Rightarrow> verdict" where
  "check_payload env t payload = (case as_mapping payload of None \<Rightarrow> Inr (Some ''invalid_field'') | Some p \<Rightarrow>
     (case dump_size (gr_str env) payload of None \<Rightarrow> Inr (Some ''invalid_field'') | Some n \<Rightarrow>
      refuse (PAYLOAD_MAX_BYTES < n) ''oversized_payload''
      (let schema = payload_schema t in
       refuse (set (map fst p) \<noteq> PStr ` set (map fst schema)) ''unknown_field''
       (Inr (first_reason (map (\<lambda>fr. rule_ok env (snd fr) (mget_or p (fst fr) PNone)) schema))))))"

definition validate_event :: "gr_env \<Rightarrow> pyval \<Rightarrow> verdict" where
  "validate_event env ev = (case as_mapping ev of None \<Rightarrow> Inr (Some ''malformed_envelope'') | Some d \<Rightarrow>
     refuse (mget d ''schema_version'' \<noteq> Some (PStr WIRE_SCHEMA)) ''unsupported_schema'' (
     refuse (DEPTH_MAX < gr_depth ev) ''nested_beyond_depth'' (
     case gr_flatten (gr_str env) [] (filter (\<lambda>kv. fst kv \<noteq> PStr ''payload'') d) of None \<Rightarrow> Inr (Some ''duplicate_path'') | Some f \<Rightarrow>
     let flat = dset ''payload'' (mget_or d ''payload'' PNone) f; at_path = (\<lambda>k. case dget flat k of None \<Rightarrow> PNone | Some v \<Rightarrow> v) in
     refuse (\<not> set (dkeys flat) \<subseteq> set ENVELOPE_PATHS) ''unknown_field'' (
     refuse (set (dkeys flat) \<noteq> set ENVELOPE_PATHS) ''malformed_envelope'' (
     refuse (\<not> gr_ref (at_path ''event_id'')) ''invalid_field'' (
     refuse_member EVENT_TYPES (at_path ''event_type'') (
     refuse (\<not> gr_stamp env (at_path ''occurred_at'')) ''invalid_field'' (
     refuse (at_path ''source.system'' \<noteq> PStr SOURCE_SYSTEM) ''malformed_provenance'' (
     refuse (\<not> gr_ref (at_path ''source.instance_ref'')) ''invalid_field'' (
     refuse_member EVENT_ORIGINS (at_path ''event_origin'') (
     refuse (\<not> gr_ref (at_path ''session.session_ref'')) ''invalid_field'' (
     refuse (\<not> gr_ref (at_path ''session.association_ref'')) ''invalid_field'' (
     refuse (at_path ''session.ownership_mode'' \<noteq> PStr USER_OWNED) ''unknown_enum'' (
     refuse (\<not> gr_ref (at_path ''stream_epoch'')) ''invalid_field'' (
     refuse (case as_int (at_path ''sequence'') of None \<Rightarrow> True | Some n \<Rightarrow> n < 0) ''invalid_field'' (
     refuse (at_path ''provenance.transport'' \<noteq> PStr TRANSPORT) ''malformed_provenance'' (
     refuse (\<not> gr_ref (at_path ''provenance.correlation_id'')) ''invalid_field'' (
     case as_str (mget_or d ''event_type'' PNone) of
       None \<Rightarrow> Inl GrKeyError
     | Some t \<Rightarrow> check_payload env t (mget_or d ''payload'' PNone)))))))))))))))))))"

section \<open>Flattening\<close>

text \<open>Everything an event holds besides mappings and sequences.\<close>

function (sequential) leaves :: "pyval \<Rightarrow> pyval list" where
  "leaves (PDict d) = concat (map (\<lambda>kv. leaves (snd kv)) d)"
| "leaves (PProxy d) = concat (map (\<lambda>kv. leaves (snd kv)) d)"
| "leaves (PList xs) = concat (map leaves xs)"
| "leaves (PTuple xs) = concat (map leaves xs)"
| "leaves v = [v]"
  by pat_completeness auto
termination
  by (relation "measure size")
     (auto dest: py_pair_size size_list_estimation' [of _ _ _ size, OF _ order_refl] simp: less_Suc_eq_le)

lemma leaves_mapping: "as_mapping v = Some d \<Longrightarrow> leaves v = concat (map (\<lambda>kv. leaves (snd kv)) d)"
  by (cases v) auto

definition flat_step :: "(pyval \<Rightarrow> string) \<Rightarrow> string \<Rightarrow> pyval \<times> pyval \<Rightarrow> pyval dict option \<Rightarrow> pyval dict option" where
  "flat_step rep prefix kv flat = Option.bind flat (\<lambda>f. let path = prefix @ py_str rep (fst kv) in case as_mapping (snd kv) of
       Some e \<Rightarrow> Option.bind (gr_flatten rep (path @ ''.'') e) (add_paths f)
     | None \<Rightarrow> add_paths f [(path, snd kv)])"

lemma flat_step_None [simp]: "flat_step rep prefix kv None = None"
  by (simp add: flat_step_def)

lemma flatten_fold: "gr_flatten rep prefix d = fold (flat_step rep prefix) d (Some [])"
  by (subst gr_flatten.simps) (simp add: flat_step_def [abs_def])

text \<open>The paths of a flattened item, and that its leaves are kept.\<close>

definition path_from :: "(pyval \<Rightarrow> string) \<Rightarrow> string \<Rightarrow> pymap \<Rightarrow> string \<times> pyval \<Rightarrow> bool" where
  "path_from rep prefix d pw \<longleftrightarrow> (\<exists>kv \<in> set d. fst pw = prefix @ py_str rep (fst kv) \<and> snd pw = snd kv
     \<or> (\<exists>r. fst pw = prefix @ py_str rep (fst kv) @ CHR ''.'' # r))"

definition flat_ok :: "(pyval \<Rightarrow> string) \<Rightarrow> string \<Rightarrow> pymap \<Rightarrow> pyval dict \<Rightarrow> bool" where
  "flat_ok rep prefix d f \<longleftrightarrow> distinct (map fst f) \<and> (\<forall>pw \<in> set f. path_from rep prefix d pw)
     \<and> (\<forall>kv \<in> set d. \<forall>v \<in> set (leaves (snd kv)). \<exists>pw \<in> set f. v \<in> set (leaves (snd pw)))"

lemma add_paths_Some: "add_paths f new = Some g \<longleftrightarrow> g = f @ new \<and> fst ` set new \<inter> fst ` set f = {}"
  by (auto simp: add_paths_def list_ex_iff dkeys_def image_iff)

lemma flat_ok_snoc:
  assumes ok: "flat_ok rep prefix d f" and step: "flat_step rep prefix kv (Some f) = Some g"
    and sub: "\<And>e h. as_mapping (snd kv) = Some e \<Longrightarrow> gr_flatten rep (prefix @ py_str rep (fst kv) @ ''.'') e = Some h \<Longrightarrow>
      flat_ok rep (prefix @ py_str rep (fst kv) @ ''.'') e h"
  shows "flat_ok rep prefix (d @ [kv]) g"
proof -
  obtain new where g: "g = f @ new" and dis: "fst ` set new \<inter> fst ` set f = {}" and dn: "distinct (map fst new)"
    and paths: "\<forall>pw \<in> set new. fst pw = prefix @ py_str rep (fst kv) \<and> snd pw = snd kv \<or> (\<exists>r. fst pw = prefix @ py_str rep (fst kv) @ CHR ''.'' # r)"
    and kept: "\<forall>v \<in> set (leaves (snd kv)). \<exists>pw \<in> set new. v \<in> set (leaves (snd pw))"
  proof (cases "as_mapping (snd kv)")
    case None
    then have "g = f @ [(prefix @ py_str rep (fst kv), snd kv)]" "fst ` set [(prefix @ py_str rep (fst kv), snd kv)] \<inter> fst ` set f = {}"
      using step by (auto simp: flat_step_def add_paths_Some)
    then show thesis by (rule that) auto
  next
    case (Some e)
    then obtain h where h: "gr_flatten rep (prefix @ py_str rep (fst kv) @ ''.'') e = Some h" and "g = f @ h" "fst ` set h \<inter> fst ` set f = {}"
      using step by (auto simp: flat_step_def add_paths_Some bind_eq_Some_conv)
    moreover note sub [OF Some h]
    moreover from this have "\<forall>v \<in> set (leaves (snd kv)). \<exists>pw \<in> set h. v \<in> set (leaves (snd pw))"
      by (auto simp: leaves_mapping [OF Some] flat_ok_def)
    ultimately show thesis by (intro that [of h]) (auto simp: flat_ok_def path_from_def)
  qed
  have "distinct (map fst g)" using ok dis dn by (auto simp: flat_ok_def g)
  moreover have "path_from rep prefix (d @ [kv]) pw" if "pw \<in> set g" for pw
    using that ok paths unfolding flat_ok_def g path_from_def by (auto 4 3)
  moreover have "\<exists>pw \<in> set g. v \<in> set (leaves (snd pw))" if "kw \<in> set (d @ [kv])" "v \<in> set (leaves (snd kw))" for kw v
  proof (cases "kw \<in> set d")
    case True
    then show ?thesis using ok that(2) by (fastforce simp: flat_ok_def g)
  next
    case False
    then show ?thesis using kept that by (fastforce simp: g)
  qed
  ultimately show ?thesis unfolding flat_ok_def by blast
qed

lemma flatten_ok: "gr_flatten rep prefix d = Some f \<Longrightarrow> flat_ok rep prefix d f"
proof (induction rep prefix d arbitrary: f rule: gr_flatten.induct)
  case (1 rep prefix d)
  have "fold (flat_step rep prefix) e (Some []) = Some f \<Longrightarrow> set e \<subseteq> set d \<Longrightarrow> flat_ok rep prefix e f" for e f
  proof (induction e arbitrary: f rule: rev_induct)
    case Nil
    then show ?case by (simp add: flat_ok_def)
  next
    case (snoc kv e)
    then obtain g where g: "fold (flat_step rep prefix) e (Some []) = Some g" "flat_step rep prefix kv (Some g) = Some f"
      by (cases "fold (flat_step rep prefix) e (Some [])") auto
    show ?case by (rule flat_ok_snoc [OF snoc.IH [OF g(1)] g(2)]) (use snoc.prems 1 in auto)
  qed
  then show ?case using 1(2) by (simp add: flatten_fold)
qed

section \<open>What is accepted\<close>

lemma refuse_accepts [simp]: "refuse b r rest = Inr None \<longleftrightarrow> \<not> b \<and> rest = Inr None"
  by (simp add: refuse_def)

lemma word_hashable: "word_in ws v \<Longrightarrow> gr_hashable v"
  by (cases v) (auto simp: word_in_def)

lemma refuse_member_accepts [simp]: "refuse_member ws v rest = Inr None \<longleftrightarrow> word_in ws v \<and> rest = Inr None"
  by (auto simp: refuse_member_def dest: word_hashable)

lemma first_reason_None: "first_reason rs = None \<longleftrightarrow> (\<forall>r \<in> set rs. r = None)"
  by (auto simp: first_reason_def filter_empty_conv split: list.split_asm dest: filter_eq_ConsD)

text \<open>The fixed words of the schema.\<close>

definition FROZEN_WORDS :: "string list" where
  "FROZEN_WORDS = [WIRE_SCHEMA, SOURCE_SYSTEM, USER_OWNED, TRANSPORT] @ EVENT_TYPES @ EVENT_ORIGINS @ RUNTIME_SURFACES @ SESSION_STATUSES
     @ REASON_CODES @ TERMINAL_STATES @ CHANGED_FIELDS"

definition safe_leaf :: "gr_env \<Rightarrow> pyval \<Rightarrow> bool" where
  "safe_leaf env v \<longleftrightarrow> gr_ref v \<or> gr_stamp env v \<or> as_int v \<noteq> None \<or> word_in FROZEN_WORDS v"

fun rule_words :: "rule \<Rightarrow> string list" where
  "rule_words (REnum ws) = ws"
| "rule_words (RListEnum ws) = ws"
| "rule_words r = []"

lemma frozen_words: "set EVENT_TYPES \<subseteq> set FROZEN_WORDS" "set EVENT_ORIGINS \<subseteq> set FROZEN_WORDS" "set RUNTIME_SURFACES \<subseteq> set FROZEN_WORDS"
  "set SESSION_STATUSES \<subseteq> set FROZEN_WORDS" "set REASON_CODES \<subseteq> set FROZEN_WORDS" "set TERMINAL_STATES \<subseteq> set FROZEN_WORDS"
  "set CHANGED_FIELDS \<subseteq> set FROZEN_WORDS" "{WIRE_SCHEMA, SOURCE_SYSTEM, USER_OWNED, TRANSPORT} \<subseteq> set FROZEN_WORDS"
  unfolding FROZEN_WORDS_def set_append list.set by blast+

lemma schema_words: "fr \<in> set (payload_schema t) \<Longrightarrow> set (rule_words (snd fr)) \<subseteq> set FROZEN_WORDS"
  using frozen_words(3-7) by (auto split: if_split_asm dest: subsetD)

lemma word_in_mono: "word_in ws v \<Longrightarrow> set ws \<subseteq> set vs \<Longrightarrow> word_in vs v"
  by (auto simp: word_in_def split: option.split_asm)

lemma leaves_text: "as_str v \<noteq> None \<Longrightarrow> leaves v = [v]"
  by (cases v) auto

lemma word_leaf: "word_in ws v \<Longrightarrow> leaves v = [v]"
  by (rule leaves_text) (auto simp: word_in_def split: option.split_asm)

lemma rule_leaves: "rule_ok env r v = None \<Longrightarrow> set (rule_words r) \<subseteq> set FROZEN_WORDS \<Longrightarrow> x \<in> set (leaves v) \<Longrightarrow> safe_leaf env x"
proof (cases r)
  case (REnum ws)
  assume "rule_ok env r v = None" "set (rule_words r) \<subseteq> set FROZEN_WORDS" "x \<in> set (leaves v)"
  then show ?thesis using REnum word_leaf [of ws v] word_in_mono [of ws v FROZEN_WORDS] by (auto simp: rule_ok_def safe_leaf_def split: if_split_asm)
next
  case (RInt m)
  assume "rule_ok env r v = None" "x \<in> set (leaves v)"
  then show ?thesis using RInt by (cases v) (auto simp: rule_ok_def safe_leaf_def)
next
  case RStamp
  assume "rule_ok env r v = None" "x \<in> set (leaves v)"
  moreover have "gr_stamp env v \<Longrightarrow> leaves v = [v]" by (rule leaves_text) (auto simp: gr_stamp_def split: option.split_asm)
  ultimately show ?thesis using RStamp by (auto simp: rule_ok_def safe_leaf_def split: if_split_asm)
next
  case (RListEnum ws)
  assume ok: "rule_ok env r v = None" "set (rule_words r) \<subseteq> set FROZEN_WORDS" and x: "x \<in> set (leaves v)"
  then obtain xs where v: "v = PList xs" and all: "list_all (word_in ws) xs"
    using RListEnum by (auto simp: rule_ok_def split: option.split_asm if_split_asm)
  from x v obtain y where "y \<in> set xs" "x \<in> set (leaves y)" by auto
  then have "word_in ws x" using all word_leaf [of ws y] by (auto simp: list_all_iff)
  then show ?thesis using ok(2) RListEnum word_in_mono by (auto simp: safe_leaf_def)
qed

lemma payload_leaves:
  assumes "check_payload env t v = Inr None" and "wire v" and "x \<in> set (leaves v)"
  shows "safe_leaf env x"
proof -
  obtain p where v: "as_mapping v = Some p" and keys: "set (map fst p) = PStr ` set (map fst (payload_schema t))"
    and rules: "\<forall>fr \<in> set (payload_schema t). rule_ok env (snd fr) (mget_or p (fst fr) PNone) = None"
    using assms(1) by (auto simp: check_payload_def Let_def first_reason_None simp del: payload_schema.simps split: option.split_asm)
  have d: "str_dict p" using assms(2) v by (cases v) auto
  obtain kv where kv: "kv \<in> set p" "x \<in> set (leaves (snd kv))" using assms(3) leaves_mapping [OF v] by auto
  then have "fst kv \<in> PStr ` set (map fst (payload_schema t))" using keys by (metis image_eqI list.set_map)
  then obtain fr where fr: "fr \<in> set (payload_schema t)" "fst kv = PStr (fst fr)" by (auto simp del: payload_schema.simps)
  have "map_of p (fst kv) = Some (snd kv)" by (rule map_of_is_SomeI) (use d kv(1) in \<open>simp_all add: str_dict_def\<close>)
  then have "mget_or p (fst fr) PNone = snd kv" by (simp add: mget_or_def mget_def fr(2))
  then show ?thesis using rule_leaves [OF _ schema_words [OF fr(1)] kv(2)] rules fr(1) by auto
qed

text \<open>The fields of an accepted envelope.\<close>

lemma accepted:
  assumes "validate_event env ev = Inr None"
  obtains d f t where "as_mapping ev = Some d" "gr_flatten (gr_str env) [] (filter (\<lambda>kv. fst kv \<noteq> PStr ''payload'') d) = Some f"
    "set (dkeys f) \<subseteq> set ENVELOPE_PATHS" "check_payload env t (mget_or d ''payload'' PNone) = Inr None"
    "mget d ''schema_version'' = Some (PStr WIRE_SCHEMA)" "mget d ''event_type'' = Some (PStr t)" "gr_depth ev \<le> DEPTH_MAX"
    "\<And>k v. k \<notin> {''payload'', ''schema_version''} \<Longrightarrow> k \<in> set ENVELOPE_PATHS \<Longrightarrow> dget f k = Some v \<Longrightarrow> safe_leaf env v \<and> leaves v = [v]"
proof -
  obtain d where d: "as_mapping ev = Some d" using assms by (auto simp: validate_event_def split: option.split_asm)
  let ?flat = "\<lambda>f. dset ''payload'' (mget_or d ''payload'' PNone) f"
  let ?at = "\<lambda>f k. case dget (?flat f) k of None \<Rightarrow> PNone | Some v \<Rightarrow> v"
  from assms d obtain f where f: "gr_flatten (gr_str env) [] (filter (\<lambda>kv. fst kv \<noteq> PStr ''payload'') d) = Some f"
    by (auto simp: validate_event_def split: option.split_asm)
  note chk = assms [unfolded validate_event_def d option.case f Let_def refuse_accepts refuse_member_accepts]
  have last: "(case as_str (mget_or d ''event_type'' PNone) of None \<Rightarrow> Inl GrKeyError
       | Some t \<Rightarrow> check_payload env t (mget_or d ''payload'' PNone)) = Inr None" using chk by (elim conjE)
  then obtain t where t: "mget_or d ''event_type'' PNone = PStr t" "check_payload env t (mget_or d ''payload'' PNone) = Inr None"
    by (cases "as_str (mget_or d ''event_type'' PNone)") auto
  have ref_fields: "gr_ref (?at f k)" if "k \<in> {''event_id'', ''source.instance_ref'', ''session.session_ref'', ''session.association_ref'',
      ''stream_epoch'', ''provenance.correlation_id''}" for k
    using that chk by (elim insertE emptyE conjE) (simp_all only: not_not)
  have word_fields: "word_in EVENT_TYPES (?at f ''event_type'')" "word_in EVENT_ORIGINS (?at f ''event_origin'')" "gr_stamp env (?at f ''occurred_at'')"
    using chk by (elim conjE, simp only: not_not)+
  have fixed_fields: "?at f ''source.system'' = PStr SOURCE_SYSTEM" "?at f ''session.ownership_mode'' = PStr USER_OWNED" "?at f ''provenance.transport'' = PStr TRANSPORT"
    using chk by (elim conjE, simp only: not_not)+
  have seq_field: "\<not> (case as_int (?at f ''sequence'') of None \<Rightarrow> True | Some n \<Rightarrow> n < 0)" using chk by (elim conjE)
  have paths: "set (dkeys (?flat f)) \<subseteq> set ENVELOPE_PATHS" "mget d ''schema_version'' = Some (PStr WIRE_SCHEMA)" "\<not> DEPTH_MAX < gr_depth ev"
    using chk by (elim conjE, simp only: not_not)+
  have refs: "gr_ref v \<Longrightarrow> safe_leaf env v \<and> leaves v = [v]" for v
    by (auto simp: safe_leaf_def gr_ref_def intro!: leaves_text split: option.split_asm)
  have words: "word_in ws v \<Longrightarrow> set ws \<subseteq> set FROZEN_WORDS \<Longrightarrow> safe_leaf env v \<and> leaves v = [v]" for ws v
    using word_in_mono word_leaf by (auto simp: safe_leaf_def)
  have fixed: "w \<in> set FROZEN_WORDS \<Longrightarrow> safe_leaf env (PStr w) \<and> leaves (PStr w) = [PStr w]" for w
    by (simp add: safe_leaf_def word_in_def)
  have stamp: "gr_stamp env v \<Longrightarrow> safe_leaf env v \<and> leaves v = [v]" for v
    by (auto simp: safe_leaf_def gr_stamp_def intro!: leaves_text split: option.split_asm)
  have num: "as_int v \<noteq> None \<Longrightarrow> safe_leaf env v \<and> leaves v = [v]" for v
    by (cases v) (auto simp: safe_leaf_def)
  show thesis
  proof (rule that [OF d f _ t(2)])
    show "set (dkeys f) \<subseteq> set ENVELOPE_PATHS" using paths(1) by simp
    show "mget d ''event_type'' = Some (PStr t)" using t(1) by (auto simp: mget_or_def split: option.split_asm)
    fix k v assume k: "k \<notin> {''payload'', ''schema_version''}" "k \<in> set ENVELOPE_PATHS" and v: "dget f k = Some v"
    have at_k: "?at f k = v" using k(1) v by (simp add: dict_simps)
    consider "k \<in> {''event_id'', ''source.instance_ref'', ''session.session_ref'', ''session.association_ref'', ''stream_epoch'', ''provenance.correlation_id''}"
      | "k = ''event_type''" | "k = ''event_origin''" | "k = ''occurred_at''" | "k = ''sequence''"
      | "k = ''source.system''" | "k = ''session.ownership_mode''" | "k = ''provenance.transport''"
      using k unfolding ENVELOPE_PATHS_def list.set insert_iff empty_iff by argo
    then show "safe_leaf env v \<and> leaves v = [v]"
    proof cases
      case 1
      show ?thesis using refs [OF ref_fields [OF 1]] unfolding at_k .
    next
      case 2
      show ?thesis using words [OF word_fields(1) frozen_words(1)] at_k by (simp add: 2)
    next
      case 3
      show ?thesis using words [OF word_fields(2) frozen_words(2)] at_k by (simp add: 3)
    next
      case 4
      show ?thesis using stamp [OF word_fields(3)] at_k by (simp add: 4)
    next
      case 5
      show ?thesis using num [of v] seq_field at_k by (auto simp: 5 split: option.split_asm)
    next
      case 6
      have "v = PStr SOURCE_SYSTEM" using fixed_fields(1) at_k by (simp add: 6)
      then show ?thesis using fixed [of SOURCE_SYSTEM] frozen_words(8) by simp
    next
      case 7
      have "v = PStr USER_OWNED" using fixed_fields(2) at_k by (simp add: 7)
      then show ?thesis using fixed [of USER_OWNED] frozen_words(8) by simp
    next
      case 8
      have "v = PStr TRANSPORT" using fixed_fields(3) at_k by (simp add: 8)
      then show ?thesis using fixed [of TRANSPORT] frozen_words(8) by simp
    qed
  qed (use paths(2,3) in auto)
qed

lemma wire_item: "wire v \<Longrightarrow> as_mapping v = Some d \<Longrightarrow> kv \<in> set d \<Longrightarrow> wire (snd kv) \<and> str_dict d"
  by (cases v) auto

lemma flat_key: "distinct (map fst f) \<Longrightarrow> pw \<in> set f \<Longrightarrow> dget f (fst pw) = Some (snd pw)"
  by (simp add: dget_def)

text \<open>
  C35: nothing unknown passes as a value. In an accepted event that was read from JSON, every value at any depth
  is an opaque reference, a time stamp, an integer or one of the fixed words of the schema.
\<close>

theorem accepted_leaves_safe:
  assumes "validate_event env ev = Inr None" and "wire ev" and "v \<in> set (leaves ev)"
  shows "gr_ref v \<or> gr_stamp env v \<or> as_int v \<noteq> None \<or> word_in FROZEN_WORDS v"
proof -
  obtain d f t where d: "as_mapping ev = Some d" and f: "gr_flatten (gr_str env) [] (filter (\<lambda>kv. fst kv \<noteq> PStr ''payload'') d) = Some f"
    and keys: "set (dkeys f) \<subseteq> set ENVELOPE_PATHS" and pay: "check_payload env t (mget_or d ''payload'' PNone) = Inr None"
    and schema: "mget d ''schema_version'' = Some (PStr WIRE_SCHEMA)"
    and safe: "\<And>k v. k \<notin> {''payload'', ''schema_version''} \<Longrightarrow> k \<in> set ENVELOPE_PATHS \<Longrightarrow> dget f k = Some v \<Longrightarrow> safe_leaf env v \<and> leaves v = [v]"
    using accepted [OF assms(1)] by metis
  obtain kv where kv: "kv \<in> set d" "v \<in> set (leaves (snd kv))" using assms(3) leaves_mapping [OF d] by auto
  note item = wire_item [OF assms(2) d]
  have sd: "str_dict d" and wkv: "wire (snd kv)" using item [OF kv(1)] by simp_all
  have get: "map_of d (fst kw) = Some (snd kw)" if "kw \<in> set d" for kw
    by (rule map_of_is_SomeI) (use sd that in \<open>simp_all add: str_dict_def\<close>)
  have "safe_leaf env v"
  proof (cases "fst kv = PStr ''payload''")
    case True
    then have "mget_or d ''payload'' PNone = snd kv" using get [OF kv(1)] by (simp add: mget_or_def mget_def)
    then show ?thesis using payload_leaves [OF pay _ _] wkv kv(2) by simp
  next
    case False
    then have "kv \<in> set (filter (\<lambda>kv. fst kv \<noteq> PStr ''payload'') d)" using kv(1) by simp
    then obtain pw where pw: "pw \<in> set f" "v \<in> set (leaves (snd pw))"
      using flatten_ok [OF f, unfolded flat_ok_def] kv(2) by blast
    obtain kw where kw: "kw \<in> set d" "fst kw \<noteq> PStr ''payload''"
      and from_key: "fst pw = py_str (gr_str env) (fst kw) \<and> snd pw = snd kw \<or> (\<exists>r. fst pw = py_str (gr_str env) (fst kw) @ CHR ''.'' # r)"
      using flatten_ok [OF f] pw(1) by (fastforce simp: flat_ok_def path_from_def)
    have str: "fst kw = PStr (item_key kw)" by (rule str_dictD [OF sd kw(1)])
    have key: "fst pw = item_key kw \<and> snd pw = snd kw \<or> CHR ''.'' \<in> set (fst pw)"
      using from_key unfolding str by auto
    have dg: "dget f (fst pw) = Some (snd pw)" using flat_key [OF _ pw(1)] flatten_ok [OF f] by (simp add: flat_ok_def)
    have env_path: "fst pw \<in> set ENVELOPE_PATHS" using keys pw(1) by (auto simp: dkeys_def)
    show ?thesis
    proof (cases "fst pw = ''schema_version''")
      case True
      then have "snd pw = snd kw" "item_key kw = ''schema_version''" using key by auto
      then have "snd pw = PStr WIRE_SCHEMA" using get [OF kw(1)] schema str by (simp add: mget_def)
      then show ?thesis using pw(2) frozen_words(8) by (simp add: safe_leaf_def word_in_def)
    next
      case no_schema: False
      have "fst pw \<noteq> ''payload''" using key kw(2) str by auto
      then show ?thesis using safe [OF _ env_path dg] no_schema pw(2) by auto
    qed
  qed
  then show ?thesis by (simp add: safe_leaf_def)
qed

lemma depth_items: "fold max ns (a :: nat) \<ge> a" "n \<in> set ns \<Longrightarrow> n \<le> fold max ns a"
proof (induction ns arbitrary: a)
  case (Cons m ns)
  {
    case 1
    show ?case using Cons.IH(1) [of "max m a"] by simp
  next
    case 2
    then show ?case using Cons.IH(1) [of "max m a"] Cons.IH(2) [of "max m a"] by auto
  }
qed simp_all

lemma depth_mapping: "as_mapping v = Some e \<Longrightarrow> 1 \<le> gr_depth v"
  by (cases v) auto

lemma flatten_empty_item: "gr_flatten rep prefix (d @ [(k, PDict [])]) = gr_flatten rep prefix d"
proof -
  have "gr_flatten rep q [] = Some []" for q by (subst gr_flatten.simps) simp
  then have "flat_step rep prefix (k, PDict []) flat = flat" for flat
    by (cases flat) (simp_all add: flat_step_def add_paths_def)
  then show ?thesis by (simp add: flatten_fold)
qed

lemma filter_payload_snoc: "k \<noteq> ''payload'' \<Longrightarrow> filter (\<lambda>kv. fst kv \<noteq> PStr ''payload'') (d @ [(PStr k, v)])
    = filter (\<lambda>kv. fst kv \<noteq> PStr ''payload'') d @ [(PStr k, v)]"
  by simp

text \<open>
  Keys are not closed. An empty mapping contributes no path, so an accepted event stays accepted when any
  further key, of any text, is added with an empty mapping as its value.
\<close>

theorem empty_mapping_key_passes:
  assumes "validate_event env (PDict d) = Inr None" and "mget d k = None"
  shows "validate_event env (PDict (d @ [(PStr k, PDict [])])) = Inr None"
proof -
  let ?e = "d @ [(PStr k, PDict [])]"
  obtain t where pay: "check_payload env t (mget_or d ''payload'' PNone) = Inr None" and schema: "mget d ''schema_version'' = Some (PStr WIRE_SCHEMA)"
    and type: "mget d ''event_type'' = Some (PStr t)" and depth: "gr_depth (PDict d) \<le> DEPTH_MAX"
    by (rule accepted [OF assms(1)]) (simp add: that)
  have "as_mapping (mget_or d ''payload'' PNone) \<noteq> None"
    using pay by (cases "as_mapping (mget_or d ''payload'' PNone)") (simp_all add: check_payload_def)
  then obtain p where p: "mget d ''payload'' = Some p" "as_mapping p \<noteq> None" by (auto simp: mget_or_def split: option.split_asm)
  have same: "mget ?e w = mget d w" if "mget d w \<noteq> None" for w
    using that by (cases "mget d w") (auto simp: mget_def map_add_def)
  have gets: "mget ?e ''schema_version'' = mget d ''schema_version''" "mget_or ?e ''payload'' PNone = mget_or d ''payload'' PNone"
    "mget_or ?e ''event_type'' PNone = mget_or d ''event_type'' PNone"
    using same [of "''schema_version''"] same [of "''payload''"] same [of "''event_type''"] schema type p(1) by (simp_all add: mget_or_def)
  have "k \<noteq> ''payload''" using p(1) assms(2) by auto
  have flat: "gr_flatten (gr_str env) [] (filter (\<lambda>kv. fst kv \<noteq> PStr ''payload'') ?e)
      = gr_flatten (gr_str env) [] (filter (\<lambda>kv. fst kv \<noteq> PStr ''payload'') d)"
    unfolding filter_payload_snoc [OF \<open>k \<noteq> ''payload''\<close>] flatten_empty_item ..
  have "(PStr ''payload'', p) \<in> set d" using p(1) by (auto simp: mget_def intro: map_of_SomeD)
  then have "gr_depth p \<le> fold max (map (\<lambda>kv. gr_depth (snd kv)) d) 0" by (intro depth_items(2)) force
  then have deep: "gr_depth (PDict ?e) = gr_depth (PDict d)" using p(2) depth_mapping [of p] by (auto simp: max_def)
  show ?thesis using assms(1) unfolding validate_event_def as_mapping.simps option.case deep flat gets .
qed

section \<open>A concrete event\<close>

definition example_env :: gr_env where
  "example_env = \<lparr>gr_str = (\<lambda>v. ''x''), gr_iso = (\<lambda>s. s = ''2026-07-18T00:00:00+00:00'')\<rparr>"

definition example_items :: "pymap" where
  "example_items = [(PStr ''schema_version'', PStr WIRE_SCHEMA), (PStr ''event_id'', PStr ''e1''), (PStr ''event_type'', PStr ''session.detached''),
     (PStr ''occurred_at'', PStr ''2026-07-18T00:00:00Z''), (PStr ''source'', PDict [(PStr ''system'', PStr SOURCE_SYSTEM), (PStr ''instance_ref'', PStr ''i1'')]),
     (PStr ''event_origin'', PStr ''gateway_native''),
     (PStr ''session'', PDict [(PStr ''session_ref'', PStr ''s1''), (PStr ''association_ref'', PStr ''a1''), (PStr ''ownership_mode'', PStr USER_OWNED)]),
     (PStr ''stream_epoch'', PStr ''0''), (PStr ''sequence'', PInt 7),
     (PStr ''payload'', PDict [(PStr ''reason_code'', PStr ''none''), (PStr ''metadata_version'', PInt 1)]),
     (PStr ''provenance'', PDict [(PStr ''transport'', PStr TRANSPORT), (PStr ''correlation_id'', PStr ''c'')])]"

lemma example_accepted: "validate_event example_env (PDict example_items) = Inr None"
  by code_simp

lemma accepted_leaves_safe_witness:
  "gr_ref (PStr ''c'') \<or> gr_stamp example_env (PStr ''c'') \<or> as_int (PStr ''c'') \<noteq> None \<or> word_in FROZEN_WORDS (PStr ''c'')"
  by (rule accepted_leaves_safe [OF example_accepted]) code_simp+

lemma empty_mapping_key_passes_witness:
  "validate_event example_env (PDict (example_items @ [(PStr ''password=hunter2'', PDict [])])) = Inr None"
  by (rule empty_mapping_key_passes [OF example_accepted]) code_simp

text \<open>A reference may end in a newline: \<open>match\<close> with \<open>$\<close> accepts it. An event type that is a list raises.\<close>

lemma ref_newline: "gr_ref (PStr [CHR ''a'', CHR 0x0A])"
  by code_simp

lemma list_event_type_raises:
  "validate_event example_env (PDict (map (\<lambda>kv. if fst kv = PStr ''event_type'' then (fst kv, PList []) else kv) example_items)) = Inl GrTypeError"
  by code_simp

end
