(* ===== verification/Spec2Isabelle.thy ===== *)
theory Spec2Isabelle
  imports Lifecycle GatewaySubscription GatewayAuth GatewayDeny PlanProperties Scheduler Gates SafeRendering CanonicalOrder ReportProperties OrchestratorProperties CheckpointCrash SupervisionProperties HandoffProperties GatewayRedaction
begin

text \<open>
  Verification of the PD Fleet coordination engine, the Python package \<open>src/scripts/pd_fleet\<close>.

  \<^bold>\<open>The program.\<close> A fleet is a plan of tasks in waves, carried out by agents. \<open>models.py\<close> reads a plan,
  \<open>validation.py\<close> decides whether it is sound and which tasks may start, \<open>contracts.py\<close> holds the identity of V2
  plans, what an agent may touch and the reports it hands in. \<open>orchestrator.py\<close> runs a plan: wave by wave it
  drives the state machine of each task (\<open>lifecycle.py\<close>) through dispatch, retries, gates (\<open>gates.py\<close>) and
  reports. \<open>run_store.py\<close>, \<open>checkpoint.py\<close> and \<open>events.py\<close> keep the progress of a run on disk; \<open>scheduler.py\<close> hands out
  leases on tasks to several workers over the run store. The gateway modules let an observer attach: a
  ticket is exchanged once for an association (\<open>gateway_auth.py\<close>), every access passes a composite gate
  (\<open>gateway_deny.py\<close>), and events are delivered to subscribers (\<open>gateway_subscription.py\<close>).

  \<^bold>\<open>Ground.\<close>
    \<^item> \<open>Prelude\<close>: results with exceptions (\<open>result\<close>, \<open>bindR\<close>), dictionaries as association lists in insertion
      order, string methods, the locales \<open>invariant_system\<close> and \<open>transition_table\<close> with the generic theory of
      reachable states; every stateful component interprets the first on its own step relation.
    \<^item> \<open>PyValue\<close>: the dynamic values \<open>pyval\<close>, equality, texts of integers, rounding of \<open>float(n)\<close>.
    \<^item> \<open>Regex\<close>: the part of \<open>re\<close> the code uses, with backtracking order; \<open>reps\<close> has \<open>length s + 1\<close> rounds of fuel and
      \<open>sub_from\<close> as many, enough because each repeated expression of the patterns consumes a character.
      \<open>RegexFast\<close> computes it on zippers and is proved equal.
    \<^item> \<open>JsonValue\<close>, \<open>JsonReread\<close>: \<open>json.dumps\<close> with sorted keys and what \<open>json.loads\<close> makes of its text.
    \<^item> \<open>Procedure\<close>: procedures that change a state, may raise, and may not return (\<open>None\<close>), with triples.

  \<^bold>\<open>Components.\<close> Each definition has the name of the method it models, with a prefix where several classes
  share a name; the records have the fields of the classes.
    \<^item> \<open>Lifecycle\<close>, \<open>LifecycleValue\<close> (\<open>lifecycle.py\<close>): \<open>TaskLifecycle\<close> with its operations, \<open>GatePolicy\<close>. \<open>lc_step\<close> has
      all of them, the bare \<open>transition\<close> included, \<open>lc_op\<close> only the guarded ones. The invariant \<open>lc_base\<close> of every
      reachable lifecycle, \<open>entry_ok\<close> for states entered by a guarded operation, \<open>lc_inv\<close> without bare transitions,
      absorption of final states, the bound on retries.
    \<^item> \<open>Models\<close> (\<open>models.py\<close>): parsing and printing of plans; accepted plans are normal and survive a round trip.
    \<^item> \<open>Validation\<close>, \<open>PlanGraph\<close>, \<open>PlanProperties\<close> (\<open>validation.py\<close>): the two graph searches on explicit stacks are
      exact, \<open>validate_plan\<close> accepts exactly the sound plans, the ready list is exact and not empty without need.
    \<^item> \<open>Gates\<close> (\<open>gates.py\<close>): gate results, policies, human gates; when a human gate passes, round trip of results.
    \<^item> \<open>Secrets\<close>, \<open>Canonical\<close>, \<open>CanonicalOrder\<close> (\<open>contracts.py\<close>): redaction and the canonical identity; a canonical plan
      holds no alias, runtime or secret field, and the hash does not depend on the spelling of the plan.
    \<^item> \<open>AgentContracts\<close>, \<open>AgentReports\<close>, \<open>ContractProperties\<close>, \<open>ReportProperties\<close> (\<open>contracts.py\<close>): what an accepted contract
      and an accepted report guarantee, round trips, and where the check of overlapping patterns falls short.
    \<^item> \<open>SafeRendering\<close> (\<open>safe_rendering.py\<close>): rendered values are quoted, printable and bounded.
    \<^item> \<open>RunStore\<close>, \<open>RunStorePattern\<close>, \<open>RunStoreFacts\<close>, \<open>RunStoreProperties\<close> (\<open>run_store.py\<close>): snapshots, leases, the two files of
      a run and the states a write passes through. The two files are an atomic register for the snapshots
      that loading accepts, which are all but those of \<open>append_event\<close> with an invalid event and of \<open>create\<close> with a
      plan whose canonical form has another hash; replaced tokens are fenced, reports are final, \<open>claim_many\<close> respects
      its bound.
    \<^item> \<open>Scheduler\<close> (\<open>scheduler.py\<close>, \<open>clock.py\<close>): on top of the run store; leased tasks own disjoint files,
      except that a path \<open>.\<close> is not seen to cover the others.
    \<^item> \<open>FleetText\<close>, \<open>Orchestrator\<close>, \<open>OrchestratorRun\<close> (\<open>orchestrator.py\<close>): configuration, state and every procedure of the V1
      run loop, and V2 plans on it. Dispatcher, clocks, hooks and commit are an environment that may answer
      anything at each consultation. \<open>OrchestratorFacts\<close>, \<open>OrchestratorReturn\<close>, \<open>OrchestratorSafety\<close>, \<open>OrchestratorCommit\<close> and
      \<open>OrchestratorProperties\<close> show that a run returns (the two \<open>while True\<close> loops are \<open>repeatP\<close>, where not returning is
      \<open>None\<close>; a potential of the lifecycles bounds them), dispatches each attempt once, respects dependencies,
      leaves nothing running, and completes V2 tasks only with a commit.
    \<^item> \<open>Checkpoint\<close>, \<open>CheckpointStore\<close>, \<open>CheckpointProperties\<close>, \<open>CheckpointCrash\<close> (\<open>checkpoint.py\<close>): the checkpoint, its sealed
      envelope, the two files of a run. Recovery touches orphaned tasks only; after any
      saves and crashes a load returns the first envelope it accepts of those still in the two files.
    \<^item> \<open>FleetEvents\<close>, \<open>EventFacts\<close>, \<open>EventLog\<close> (\<open>events.py\<close>): events and the append-only log; a log is read back as the
      sequence of its appends, and a line that a crash has cut off stops it.
    \<^item> \<open>EventRecorder\<close> (\<open>lifecycle_events.py\<close>): transitions and checkpoints as small events of the log.
    \<^item> \<open>EventDiagnosis\<close> (\<open>event_diagnostics.py\<close>, \<open>run_event_reconciliation.py\<close>): reports over the log, and over the log and the run
      store. \<open>EventProjection\<close> shows that a diagnosis finds every task in the state of its lifecycle, and when
      reconciliation says consistent.
    \<^item> \<open>Handoff\<close> (\<open>handoff.py\<close>): redaction of texts and identifiers, lineage, artifact, and the store of envelopes.
      \<open>HandoffProperties\<close>: a saved handoff is kept and read back, unless its text changes when it is redacted once more.
    \<^item> \<open>Supervision\<close>, \<open>SupervisionProperties\<close> (\<open>supervision.py\<close>, \<open>supervisor.py\<close>, \<open>readiness.py\<close>): health snapshots, diagnoses, the
      supervisor's report and the readiness view; a view is the worst verdict of its sources, and exact when it
      says ready.
    \<^item> \<open>GatewayRedaction\<close> (\<open>gateway_redaction.py\<close>): the closed schema of bridge events; an accepted event holds no
      value beyond references, stamps, integers and fixed words, although keys with empty mappings pass.
    \<^item> \<open>GatewayAuth\<close> (\<open>gateway_auth.py\<close>): tickets and associations; a ticket is used once, presenting it again is
      idempotent, activation needs exactly the listed conditions.
    \<^item> \<open>GatewayDeny\<close> (\<open>gateway_deny.py\<close>): access is granted exactly when all eight gates pass.
    \<^item> \<open>GatewaySubscription\<close> (\<open>gateway_subscription.py\<close>): the history has no gaps, a cursor only passes what was
      acknowledged, detaching is final.

  \<^bold>\<open>How components meet.\<close> The orchestrator uses the operations of \<open>Lifecycle\<close>, \<open>Validation\<close> and \<open>Gates\<close> as they are, so
  its properties rest on their lemmas. The scheduler's step relation contains the run store's. Checkpoints
  read and write lifecycles through \<open>LifecycleValue\<close>, as the orchestrator does. The recorder writes the
  history of lifecycles to the event log, and the diagnosis reads it back; reconciliation compares a snapshot
  the run store loads with what the log replays, and
  the readiness view combines both reports with the supervisor's.

  \<^bold>\<open>Parameters.\<close> Code outside the repository is an argument: the text of a float, SHA-256, reading and printing of
  ISO instants, \<open>str()\<close> of opaque values, clocks and random tokens, the dispatcher and the commit of the
  orchestrator, the default gateway predicates. Their laws, where needed, are hypotheses of the theorem
  (\<open>env_ok\<close>: the digests are identifiers of 64 hexadecimal digits, printing and reading an instant agree).

  \<^bold>\<open>Bounds of the model.\<close> Strings hold code points below 256. Integers are unbounded, as in Python; finite floats
  are exact rationals, so rounding in sums of clock readings is not seen. Instances of subclasses of the
  built-in types, cyclic values and the limit on the digits of a converted integer are left out. Locks make
  the operations atomic; a crash may happen between any two changes of files. Exceptions keep their class,
  not their text.

  \<^bold>\<open>Not modelled.\<close> Of the modelled files: the JSON text conversions \<open>to_json\<close> and \<open>from_json\<close>, the opening of files and
  locks, \<open>query\<close> and the optional initial state of \<open>create\<close> of the run store, \<open>CanonicalOutput\<close>, and of \<open>orchestrator.py\<close> the V2 integration
  (\<open>_run_v2_integration\<close>, \<open>reconcile\<close>), which composes executor threads, adapters and stores.
  Directories, locks and symbolic links of the handoff store are left out, and so are the counters of
  \<open>observability.py\<close> and the legacy fleet block (\<open>state.py\<close>).
  \<open>dispatch.py\<close> inspects arbitrary Python objects by reflection, \<open>parallel.py\<close>, \<open>sandbox.py\<close> and \<open>validation_executor.py\<close> control
  threads and processes, \<open>fleet_gateway_bridge.py\<close> is an SQLite journal, the provider and adapter modules
  describe runtimes outside the repository, and \<open>scripts/pd.py\<close> with the synchronisation scripts is a command line
  over files and HTTP: there is no value or state machine of their own to model.
\<close>

end
